(* ===== verification/Prelude.thy ===== *)
theory Prelude
  imports Main "HOL-Library.Word"
begin

text \<open>
  Shared vocabulary of the development.

  \<^item> names for the machine integers and byte strings of the Rust sources;
  \<^item> the sum type read as Rust's \<open>Result\<close> (\<open>Inl\<close> is \<open>Err\<close>) with its \<open>?\<close> operator
    (\<open>rbind\<close>) and the facts that the component proofs use to take a chain of \<open>?\<close> apart;
  \<^item> the standard library's \<open>to_le_bytes\<close>, \<open>from_le_bytes\<close>, \<open>to_be_bytes\<close> and
    \<open>from_be_bytes\<close>, with their round trips;
  \<^item> \<open>std::str::from_utf8\<close>'s validity check, \<open>str::is_char_boundary\<close> and
    \<open>char::from_u32\<close>'s validity check.
\<close>

unbundle bit_operations_syntax

named_theorems result_simps \<open>equations that take a chain of fallible calls apart\<close>
named_theorems byte_simps \<open>round trips and lengths of the byte encodings of integers\<close>

type_synonym u8 = "8 word"
type_synonym u16 = "16 word"
type_synonym u32 = "32 word"
type_synonym u64 = "64 word"
type_synonym u128 = "128 word"
type_synonym u256 = "256 word"
type_synonym bytes = "8 word list"

section \<open>Results\<close>

definition rbind :: "'e + 'a \<Rightarrow> ('a \<Rightarrow> 'e + 'b) \<Rightarrow> 'e + 'b" where
  "rbind r f = (case r of Inl e \<Rightarrow> Inl e | Inr x \<Rightarrow> f x)"

definition rmap :: "('a \<Rightarrow> 'b) \<Rightarrow> 'e + 'a \<Rightarrow> 'e + 'b" where
  "rmap f r = rbind r (\<lambda>x. Inr (f x))"

definition map_err :: "('e \<Rightarrow> 'f) \<Rightarrow> 'e + 'a \<Rightarrow> 'f + 'a" where
  "map_err f r = (case r of Inl e \<Rightarrow> Inl (f e) | Inr x \<Rightarrow> Inr x)"

definition ok_or :: "'a option \<Rightarrow> 'e \<Rightarrow> 'e + 'a" where
  "ok_or x e = (case x of None \<Rightarrow> Inl e | Some v \<Rightarrow> Inr v)"

definition is_ok :: "'e + 'a \<Rightarrow> bool" where
  "is_ok r = (case r of Inl _ \<Rightarrow> False | Inr _ \<Rightarrow> True)"

lemma rbind_simps [simp]:
  "rbind (Inl e) f = Inl e" "rbind (Inr x) f = f x"
  by (simp_all add: rbind_def)

lemma rmap_simps [simp]:
  "rmap f (Inl e) = Inl e" "rmap f (Inr x) = Inr (f x)"
  by (simp_all add: rmap_def)

lemma map_err_simps [simp]:
  "map_err f (Inl e) = Inl (f e)" "map_err f (Inr x) = Inr x"
  by (simp_all add: map_err_def)

lemma ok_or_simps [simp]:
  "ok_or None e = Inl e" "ok_or (Some v) e = Inr v"
  by (simp_all add: ok_or_def)

lemma is_ok_simps [simp]: "\<not> is_ok (Inl e)" "is_ok (Inr x)"
  by (simp_all add: is_ok_def)

lemma is_ok_iff: "is_ok r \<longleftrightarrow> (\<exists>x. r = Inr x)"
  by (cases r) simp_all

lemma rbind_cong [fundef_cong]:
  "r = r' \<Longrightarrow> (\<And>x. r' = Inr x \<Longrightarrow> f x = g x) \<Longrightarrow> rbind r f = rbind r' g"
  by (cases r') simp_all

lemma rbind_eq_Inr [result_simps]: "rbind r f = Inr y \<longleftrightarrow> (\<exists>x. r = Inr x \<and> f x = Inr y)"
  by (cases r) simp_all

lemma rbind_eq_Inl [result_simps]:
  "rbind r f = Inl e \<longleftrightarrow> r = Inl e \<or> (\<exists>x. r = Inr x \<and> f x = Inl e)"
  by (cases r) simp_all

lemma rmap_eq_Inr [result_simps]: "rmap f r = Inr y \<longleftrightarrow> (\<exists>x. r = Inr x \<and> y = f x)"
  by (cases r) auto

lemma map_err_eq_Inr [result_simps]: "map_err f r = Inr y \<longleftrightarrow> r = Inr y"
  by (cases r) simp_all

lemma ok_or_eq_Inr [result_simps]: "ok_or x e = Inr v \<longleftrightarrow> x = Some v"
  by (cases x) simp_all

section \<open>Integers as byte strings\<close>

text \<open>
  \<open>le_bytes n x\<close> are the \<open>n\<close> low-order bytes of \<open>x\<close>, least significant first, and
  \<open>of_le\<close> reads them back. The big-endian forms are their reversals.
\<close>

primrec le_bytes :: "nat \<Rightarrow> nat \<Rightarrow> bytes" where
  "le_bytes 0 x = []"
| "le_bytes (Suc n) x = of_nat (x mod 256) # le_bytes n (x div 256)"

primrec of_le :: "bytes \<Rightarrow> nat" where
  "of_le [] = 0"
| "of_le (b # bs) = unat b + 256 * of_le bs"

definition be_bytes :: "nat \<Rightarrow> nat \<Rightarrow> bytes" where
  "be_bytes n x = rev (le_bytes n x)"

definition of_be :: "bytes \<Rightarrow> nat" where
  "of_be bs = of_le (rev bs)"

lemma length_le_bytes [simp]: "length (le_bytes n x) = n"
  by (induction n arbitrary: x) simp_all

lemma length_be_bytes [simp]: "length (be_bytes n x) = n"
  by (simp add: be_bytes_def)

lemma unat_of_nat_u8: "unat (of_nat (x mod 256) :: u8) = x mod 256"
  by (simp add: unat_of_nat)

lemma of_le_le_bytes_mod: "of_le (le_bytes n x) = x mod 256 ^ n"
proof (induction n arbitrary: x)
  case 0
  then show ?case by simp
next
  case (Suc n)
  have "of_le (le_bytes (Suc n) x) = x mod 256 + 256 * (x div 256 mod 256 ^ n)"
    by (simp add: Suc.IH unat_of_nat_u8)
  also have "\<dots> = x mod 256 ^ Suc n"
    by (simp add: mod_mult2_eq)
  finally show ?case .
qed

lemma of_le_le_bytes [byte_simps]: "x < 256 ^ n \<Longrightarrow> of_le (le_bytes n x) = x"
  by (simp add: of_le_le_bytes_mod)

lemma of_le_bound: "of_le bs < 256 ^ length bs"
proof (induction bs)
  case Nil
  then show ?case by simp
next
  case (Cons b bs)
  have "unat b < 256"
    using unsigned_less [of b] by simp
  with Cons.IH show ?case by simp
qed

lemma le_bytes_of_le [byte_simps]: "length bs = n \<Longrightarrow> le_bytes n (of_le bs) = bs"
proof (induction bs arbitrary: n)
  case Nil
  then show ?case by simp
next
  case (Cons b bs)
  have "unat b < 256"
    using unsigned_less [of b] by simp
  with Cons show ?case by auto
qed

lemma of_be_be_bytes [byte_simps]: "x < 256 ^ n \<Longrightarrow> of_be (be_bytes n x) = x"
  by (simp add: of_be_def be_bytes_def byte_simps)

lemma be_bytes_of_be [byte_simps]: "length bs = n \<Longrightarrow> be_bytes n (of_be bs) = bs"
  by (simp add: of_be_def be_bytes_def byte_simps)

lemma le_bytes_inj: "x < 256 ^ n \<Longrightarrow> y < 256 ^ n \<Longrightarrow> le_bytes n x = le_bytes n y \<longleftrightarrow> x = y"
  using of_le_le_bytes by metis

text \<open>The widths the sources use, on words.\<close>

lemma unat_u16_bound: "unat (w :: u16) < 256 ^ 2"
  using unsigned_less [of w] by simp

lemma unat_u32_bound: "unat (w :: u32) < 256 ^ 4"
  using unsigned_less [of w] by simp

lemma unat_u64_bound: "unat (w :: u64) < 256 ^ 8"
  using unsigned_less [of w] by simp

lemma unat_u256_bound: "unat (w :: u256) < 256 ^ 32"
  using unsigned_less [of w] by simp

lemma unat_u8_bound: "unat (w :: u8) < 256"
  using unsigned_less [of w] by simp

lemmas unat_bounds = unat_u8_bound unat_u16_bound unat_u32_bound unat_u64_bound unat_u256_bound

lemma of_nat_of_le_u16 [byte_simps]: "of_nat (of_le (le_bytes 2 (unat w))) = (w :: u16)"
  by (simp only: of_le_le_bytes [OF unat_u16_bound] of_nat_unat ucast_id)

lemma of_nat_of_le_u32 [byte_simps]: "of_nat (of_le (le_bytes 4 (unat w))) = (w :: u32)"
  by (simp only: of_le_le_bytes [OF unat_u32_bound] of_nat_unat ucast_id)

lemma of_nat_of_le_u64 [byte_simps]: "of_nat (of_le (le_bytes 8 (unat w))) = (w :: u64)"
  by (simp only: of_le_le_bytes [OF unat_u64_bound] of_nat_unat ucast_id)

lemma of_nat_of_le_u256 [byte_simps]: "of_nat (of_le (le_bytes 32 (unat w))) = (w :: u256)"
  by (simp only: of_le_le_bytes [OF unat_u256_bound] of_nat_unat ucast_id)

lemma of_nat_of_be_u16 [byte_simps]: "of_nat (of_be (be_bytes 2 (unat w))) = (w :: u16)"
  by (simp only: of_be_be_bytes [OF unat_u16_bound] of_nat_unat ucast_id)

lemma of_nat_of_be_u32 [byte_simps]: "of_nat (of_be (be_bytes 4 (unat w))) = (w :: u32)"
  by (simp only: of_be_be_bytes [OF unat_u32_bound] of_nat_unat ucast_id)

section \<open>Strings\<close>

text \<open>
  A Rust \<open>String\<close> is its UTF-8 bytes. \<open>valid_utf8\<close> is the check of
  \<open>std::str::from_utf8\<close>: the well-formed byte sequences of the Unicode standard
  (no overlong forms, no surrogates, nothing above U+10FFFF).
\<close>

definition utf8_cont :: "u8 \<Rightarrow> bool" where
  "utf8_cont b = (0x80 \<le> b \<and> b \<le> 0xBF)"

fun valid_utf8 :: "bytes \<Rightarrow> bool" where
  "valid_utf8 [] = True"
| "valid_utf8 (a # r) =
     (if a \<le> 0x7F then valid_utf8 r
      else if 0xC2 \<le> a \<and> a \<le> 0xDF then
        (case r of b # r' \<Rightarrow> utf8_cont b \<and> valid_utf8 r' | [] \<Rightarrow> False)
      else if 0xE0 \<le> a \<and> a \<le> 0xEF then
        (case r of
           b # c # r' \<Rightarrow>
             utf8_cont b \<and> (a = 0xE0 \<longrightarrow> 0xA0 \<le> b) \<and> (a = 0xED \<longrightarrow> b \<le> 0x9F) \<and>
             utf8_cont c \<and> valid_utf8 r'
         | _ \<Rightarrow> False)
      else if 0xF0 \<le> a \<and> a \<le> 0xF4 then
        (case r of
           b # c # d # r' \<Rightarrow>
             utf8_cont b \<and> (a = 0xF0 \<longrightarrow> 0x90 \<le> b) \<and> (a = 0xF4 \<longrightarrow> b \<le> 0x8F) \<and>
             utf8_cont c \<and> utf8_cont d \<and> valid_utf8 r'
         | _ \<Rightarrow> False)
      else False)"

definition is_char_boundary :: "bytes \<Rightarrow> nat \<Rightarrow> bool" where
  "is_char_boundary s i =
     (i = 0 \<or> i = length s \<or> (i < length s \<and> \<not> utf8_cont (s ! i)))"

text \<open>A Rust \<open>char\<close> is a Unicode scalar value; \<open>char::from_u32\<close> accepts just those.\<close>

definition valid_char :: "u32 \<Rightarrow> bool" where
  "valid_char c = (c < 0xD800 \<or> (0xDFFF < c \<and> c \<le> 0x10FFFF))"

text \<open>ASCII text of the sources, written as a string literal, as bytes.\<close>

definition ascii :: "string \<Rightarrow> bytes" where
  "ascii s = map (\<lambda>c. of_nat (of_char c)) s"

lemma length_ascii [simp]: "length (ascii s) = length s"
  by (simp add: ascii_def)

lemma valid_utf8_ascii_bytes: "list_all (\<lambda>b. b \<le> 0x7F) bs \<Longrightarrow> valid_utf8 bs"
  by (induction bs) simp_all

text \<open>The first byte of a well-formed string is never a continuation byte.\<close>

lemma valid_utf8_hd: "valid_utf8 (b # r) \<Longrightarrow> \<not> utf8_cont b"
  by (auto simp: utf8_cont_def word_le_nat_alt split: if_splits)

section \<open>Lists\<close>

lemma take_append_exact [simp]: "length xs = n \<Longrightarrow> take n (xs @ ys) = xs"
  by simp

lemma drop_append_exact [simp]: "length xs = n \<Longrightarrow> drop n (xs @ ys) = ys"
  by simp

lemma length_nat_cases_Cons: "length xs = Suc n \<Longrightarrow> \<exists>y ys. xs = y # ys \<and> length ys = n"
  by (cases xs) simp_all

section \<open>Pieces of a slice\<close>

text \<open>\<open>slice::chunks\<close>: pieces of \<open>n\<close> elements, the last one possibly shorter.\<close>

function chunks :: "nat \<Rightarrow> 'a list \<Rightarrow> 'a list list" where
  "chunks n xs = (if xs = [] \<or> n = 0 then [] else take n xs # chunks n (drop n xs))"
  by auto
termination by (relation "measure (\<lambda>(n, xs). length xs)") auto

declare chunks.simps [simp del]

lemma chunks_all:
  "length xs = k * n \<Longrightarrow> 0 < n \<Longrightarrow> concat (chunks n xs) = xs \<and> list_all (\<lambda>c. length c = n) (chunks n xs)"
proof (induction k arbitrary: xs)
  case 0
  then show ?case by (simp add: chunks.simps)
next
  case (Suc k)
  have "concat (chunks n (drop n xs)) = drop n xs \<and> list_all (\<lambda>c. length c = n) (chunks n (drop n xs))"
    by (rule Suc.IH) (use Suc.prems in simp_all)
  with Suc.prems show ?case by (subst (1 2) chunks.simps) auto
qed

lemma concat_map_words:
  assumes "list_all (\<lambda>c. length c = n) cs" and "\<And>c. length c = n \<Longrightarrow> f (g c) = c"
  shows "concat (map f (map g cs)) = concat cs"
  using assms by (induction cs) simp_all

section \<open>Codecs\<close>

text \<open>
  The contract between a producer of bytes and its consumer, stated once for every encoding of
  the sources. A \<open>prefix_codec\<close> decodes what it encoded and leaves what follows alone; a
  \<open>canonical_codec\<close> accepts nothing else.
\<close>

primrec decode_n :: "nat \<Rightarrow> (bytes \<Rightarrow> 'e + ('a \<times> bytes)) \<Rightarrow> bytes \<Rightarrow> 'e + ('a list \<times> bytes)" where
  "decode_n 0 dec bs = Inr ([], bs)"
| "decode_n (Suc n) dec bs =
     rbind (dec bs) (\<lambda>(x, r). rbind (decode_n n dec r) (\<lambda>(xs, r'). Inr (x # xs, r')))"

locale prefix_codec =
  fixes enc :: "'a \<Rightarrow> bytes"
    and dec :: "bytes \<Rightarrow> 'e + ('a \<times> bytes)"
    and valid :: "'a \<Rightarrow> bool"
  assumes dec_enc: "valid x \<Longrightarrow> dec (enc x @ r) = Inr (x, r)"
begin

lemma prefix_free:
  assumes "valid x" and "valid y" and "enc x @ r = enc y @ r'"
  shows "x = y \<and> r = r'"
proof -
  have "dec (enc y @ r') = Inr (x, r)"
    using dec_enc [OF assms(1), of r] by (simp only: assms(3))
  then show ?thesis by (simp add: dec_enc [OF assms(2)])
qed

lemma enc_inject: "valid x \<Longrightarrow> valid y \<Longrightarrow> enc x = enc y \<longleftrightarrow> x = y"
  using prefix_free [of x y "[]" "[]"] by auto

lemma decode_n_concat:
  "list_all valid xs \<Longrightarrow> decode_n (length xs) dec (concat (map enc xs) @ r) = Inr (xs, r)"
  by (induction xs) (simp_all add: dec_enc)

end

locale canonical_codec = prefix_codec +
  assumes enc_dec: "dec bs = Inr (x, r) \<Longrightarrow> valid x \<and> bs = enc x @ r"
begin

lemma dec_iff: "dec bs = Inr (x, r) \<longleftrightarrow> valid x \<and> bs = enc x @ r"
  using enc_dec dec_enc by blast

lemma dec_extend: "dec bs = Inr (x, r) \<Longrightarrow> dec (bs @ more) = Inr (x, r @ more)"
  by (simp add: dec_iff)

lemma decode_n_exact:
  "decode_n n dec bs = Inr (xs, r) \<Longrightarrow>
   length xs = n \<and> list_all valid xs \<and> bs = concat (map enc xs) @ r"
proof (induction n arbitrary: bs xs)
  case 0
  then show ?case by simp
next
  case (Suc n)
  then obtain x r1 ys where "dec bs = Inr (x, r1)" "decode_n n dec r1 = Inr (ys, r)" "xs = x # ys"
    by (auto simp: result_simps)
  with Suc.IH enc_dec [of bs x r1] show ?case by auto
qed

end

end
