(* ===== verification/V2_Serialization.thy ===== *)
theory V2_Serialization
  imports Prelude
begin

text \<open>
  The binary serialization of Stratum V2, \<open>protocols/stratum/src/v2/serialization.rs\<close>.

  The Rust code implements serde's \<open>Serializer\<close> and \<open>Deserializer\<close> traits. A value
  reaches the serializer as a sequence of trait calls; \<open>sval\<close> has one constructor per call.
  A Rust type reaches the deserializer as the \<open>deserialize_*\<close> method it asks for; \<open>sty\<close> has
  one constructor per method. The writer is a growing byte buffer (\<open>Vec\<close> and \<open>BytesMut\<close>,
  the only writers in use), which never fails; a result is the bytes the call appends.
  \<open>unreachable!()\<close> is the error value \<open>Unreachable\<close>, so that a panic is visible.

  Main facts: every well-typed value serializes and reads back, with whatever follows it left
  untouched (\<open>serialize_deserialize\<close>); every successful read is the serialization of what it
  returned (\<open>deserialize_serialize\<close>), so the format is canonical; no input makes the
  deserializer of a protocol type reach \<open>unreachable!()\<close> (\<open>deserialize_no_panic\<close>).
\<close>

section \<open>The data model\<close>

datatype ser_error =
    Overlong
  | TooShort
  | UnknownLength
  | Unsupported string
  | Unicode
  | EOF
  | TrailingBytes
  | BadBool
  | Custom string
  | Io
  | Unreachable

text \<open>
  Signed integers and floats are kept as their bits: both traits pass them through
  \<open>to_le_bytes\<close>, \<open>to_bits\<close> and the inverse casts unchanged. An enum variant is its index and
  its payload: \<open>VUnit\<close> for a unit variant, the value for a newtype variant, \<open>VTuple\<close> or
  \<open>VStruct\<close> for the others.
\<close>

datatype sval =
    VBool bool
  | VI8 u8 | VI16 u16 | VI32 u32 | VI64 u64
  | VU8 u8 | VU16 u16 | VU32 u32 | VU64 u64
  | VF32 u32 | VF64 u64
  | VChar u32
  | VStr bytes
  | VBytes bytes
  | VNone
  | VSome sval
  | VUnit
  | VUnitStruct string
  | VNewtype string sval
  | VVariant u32 sval
  | VSeq "nat option" "sval list"
  | VTuple "sval list"
  | VTupleStruct string "sval list"
  | VMap
  | VStruct string "sval list"

datatype sty =
    TBool
  | TI8 | TI16 | TI32 | TI64
  | TU8 | TU16 | TU32 | TU64
  | TF32 | TF64
  | TChar
  | TStr
  | TString
  | TBytes
  | TByteBuf
  | TOption sty
  | TUnit
  | TUnitStruct string
  | TNewtype string sty
  | TEnum "sty list"
  | TSeq sty
  | TTuple "sty list"
  | TTupleStruct string "sty list"
  | TMap
  | TStruct string "sty list"
  | TIdentifier
  | TAny
  | TIgnoredAny

section \<open>Serializer\<close>

definition write_all :: "bytes \<Rightarrow> ser_error + bytes" where
  "write_all buf = Inr buf"

definition and_write :: "ser_error + bytes \<Rightarrow> ser_error + bytes \<Rightarrow> ser_error + bytes" where
  "and_write a b = rbind a (\<lambda>x. rbind b (\<lambda>y. Inr (x @ y)))"

definition serialize_bool :: "bool \<Rightarrow> ser_error + bytes" where
  "serialize_bool v = write_all (if v then [1] else [0])"

definition serialize_u8 :: "u8 \<Rightarrow> ser_error + bytes" where
  "serialize_u8 v = write_all [v]"

definition serialize_u16 :: "u16 \<Rightarrow> ser_error + bytes" where
  "serialize_u16 v = write_all (le_bytes 2 (unat v))"

definition serialize_u32 :: "u32 \<Rightarrow> ser_error + bytes" where
  "serialize_u32 v = write_all (le_bytes 4 (unat v))"

definition serialize_u64 :: "u64 \<Rightarrow> ser_error + bytes" where
  "serialize_u64 v = write_all (le_bytes 8 (unat v))"

text \<open>The \<open>usize\<close> to \<open>u16\<close> conversion that guards every length prefix of the serializer.\<close>

definition u16_try_from :: "nat \<Rightarrow> ser_error + u16" where
  "u16_try_from n = (if n < 65536 then Inr (of_nat n) else Inl Overlong)"

definition u8_try_from :: "nat \<Rightarrow> ser_error + u8" where
  "u8_try_from n = (if n < 256 then Inr (of_nat n) else Inl Overlong)"

definition serialize_str :: "bytes \<Rightarrow> ser_error + bytes" where
  "serialize_str v = rbind (u16_try_from (length v)) (\<lambda>len. and_write (serialize_u16 len) (write_all v))"

definition serialize_bytes :: "bytes \<Rightarrow> ser_error + bytes" where
  "serialize_bytes v =
     rbind (u16_try_from (length v)) (\<lambda>len. and_write (serialize_u16 len) (write_all v))"

text \<open>The integer type \<open>I\<close> of a \<open>SizedSeqEmitter\<close>.\<close>

datatype len_type = LenU8 | LenU16

definition serialize_len :: "len_type \<Rightarrow> nat \<Rightarrow> ser_error + bytes" where
  "serialize_len I n =
     (case I of
        LenU8 \<Rightarrow> rbind (u8_try_from n) serialize_u8
      | LenU16 \<Rightarrow> rbind (u16_try_from n) serialize_u16)"

text \<open>Which newtype structs \<open>serialize_newtype_struct\<close> hands to a \<open>SizedSeqEmitter\<close>.\<close>

definition newtype_len_type :: "string \<Rightarrow> len_type option" where
  "newtype_len_type name =
     (if name \<in> {''Str1_32'', ''Str0_32'', ''Str1_255'', ''Str0_255'',
                  ''Bytes0_32'', ''Bytes1_32'', ''Bytes0_255'', ''Bytes1_255'', ''Seq0_255''}
      then Some LenU8
      else if name \<in> {''Bytes0_64k'', ''Bytes1_64k'', ''Seq0_64k''} then Some LenU16
      else None)"

fun serialize :: "sval \<Rightarrow> ser_error + bytes"
  and emit :: "len_type \<Rightarrow> sval \<Rightarrow> ser_error + bytes"
  and serialize_all :: "sval list \<Rightarrow> ser_error + bytes" where
  "serialize (VBool v) = serialize_bool v"
| "serialize (VI8 v) = serialize_u8 v"
| "serialize (VI16 v) = serialize_u16 v"
| "serialize (VI32 v) = serialize_u32 v"
| "serialize (VI64 v) = serialize_u64 v"
| "serialize (VU8 v) = serialize_u8 v"
| "serialize (VU16 v) = serialize_u16 v"
| "serialize (VU32 v) = serialize_u32 v"
| "serialize (VU64 v) = serialize_u64 v"
| "serialize (VF32 v) = serialize_u32 v"
| "serialize (VF64 v) = serialize_u64 v"
| "serialize (VChar v) = serialize_u32 v"
| "serialize (VStr v) = serialize_str v"
| "serialize (VBytes v) = serialize_bytes v"
| "serialize VNone = serialize_bool False"
| "serialize (VSome v) = and_write (serialize_bool True) (serialize v)"
| "serialize VUnit = Inr []"
| "serialize (VUnitStruct _) = Inr []"
| "serialize (VNewtype name v) =
     (case newtype_len_type name of Some I \<Rightarrow> emit I v | None \<Rightarrow> serialize v)"
| "serialize (VVariant idx v) = and_write (serialize_u32 idx) (serialize v)"
| "serialize (VSeq len vs) =
     rbind (ok_or len UnknownLength) (\<lambda>n. and_write (serialize_len LenU16 n) (serialize_all vs))"
| "serialize (VTuple vs) = serialize_all vs"
| "serialize (VTupleStruct _ vs) = serialize_all vs"
| "serialize VMap = Inl (Unsupported ''Map'')"
| "serialize (VStruct _ vs) = serialize_all vs"
| "emit I (VStr v) = and_write (serialize_len I (length v)) (write_all v)"
| "emit I (VSeq len vs) =
     rbind (ok_or len UnknownLength) (\<lambda>n. and_write (serialize_len I n) (serialize_all vs))"
| "emit I _ = Inl Unreachable"
| "serialize_all [] = Inr []"
| "serialize_all (v # vs) = and_write (serialize v) (serialize_all vs)"

definition to_vec :: "sval \<Rightarrow> ser_error + bytes" where
  "to_vec value = serialize value"

section \<open>Deserializer\<close>

type_synonym 'a reader = "bytes \<Rightarrow> ser_error + ('a \<times> bytes)"

definition rd_bind :: "'a reader \<Rightarrow> ('a \<Rightarrow> 'b reader) \<Rightarrow> 'b reader" where
  "rd_bind p f bs = rbind (p bs) (\<lambda>(x, r). f x r)"

definition rd_ret :: "'a \<Rightarrow> 'a reader" where
  "rd_ret x bs = Inr (x, bs)"

definition rd_fail :: "ser_error \<Rightarrow> 'a reader" where
  "rd_fail e bs = Inl e"

definition rd_map :: "('a \<Rightarrow> 'b) \<Rightarrow> 'a reader \<Rightarrow> 'b reader" where
  "rd_map f p = rd_bind p (\<lambda>x. rd_ret (f x))"

definition read_u8 :: "u8 reader" where
  "read_u8 bs = (case bs of [] \<Rightarrow> Inl EOF | b # r \<Rightarrow> Inr (b, r))"

definition read_bytes :: "nat \<Rightarrow> bytes reader" where
  "read_bytes sz bs =
     (if sz \<le> length bs then Inr (take sz bs, drop sz bs) else Inl EOF)"

definition read_u16 :: "u16 reader" where
  "read_u16 = rd_map (\<lambda>b. of_nat (of_le b)) (read_bytes 2)"

definition read_u32 :: "u32 reader" where
  "read_u32 = rd_map (\<lambda>b. of_nat (of_le b)) (read_bytes 4)"

definition read_u64 :: "u64 reader" where
  "read_u64 = rd_map (\<lambda>b. of_nat (of_le b)) (read_bytes 8)"

definition read_str :: "nat \<Rightarrow> bytes reader" where
  "read_str sz =
     rd_bind (read_bytes sz) (\<lambda>s. if valid_utf8 s then rd_ret s else rd_fail Unicode)"

definition read_bool :: "bool reader" where
  "read_bool =
     rd_bind read_u8
       (\<lambda>b. if b = 0 then rd_ret False else if b = 1 then rd_ret True else rd_fail BadBool)"

definition read_char :: "u32 reader" where
  "read_char = rd_bind read_u32 (\<lambda>c. if valid_char c then rd_ret c else rd_fail Unicode)"

definition read_len :: "len_type \<Rightarrow> nat reader" where
  "read_len I = (case I of LenU8 \<Rightarrow> rd_map unat read_u8 | LenU16 \<Rightarrow> rd_map unat read_u16)"

text \<open>
  \<open>FwdSeqAccess\<close> feeding the visitor of a \<open>Vec\<close>: \<open>len\<close> elements, one after the other.
\<close>

primrec read_elems :: "nat \<Rightarrow> 'a reader \<Rightarrow> 'a list reader" where
  "read_elems 0 p = rd_ret []"
| "read_elems (Suc len) p = rd_bind p (\<lambda>x. rd_map ((#) x) (read_elems len p))"

text \<open>\<open>deserialize_tuple\<close>'s access feeding the visitor of a tuple or struct: one reader per field.\<close>

primrec read_fields :: "'a reader list \<Rightarrow> 'a list reader" where
  "read_fields [] = rd_ret []"
| "read_fields (p # ps) = rd_bind p (\<lambda>x. rd_map ((#) x) (read_fields ps))"

text \<open>
  The arguments of \<open>deserialize_sized_seq\<close> that \<open>deserialize_newtype_struct\<close> picks for a
  name: the smallest and largest sz and the type of the length field.
\<close>

definition newtype_bounds :: "string \<Rightarrow> (nat \<times> nat \<times> len_type) option" where
  "newtype_bounds name =
     (if name = ''Str0_32'' then Some (0, 32, LenU8)
      else if name = ''Str1_32'' then Some (1, 32, LenU8)
      else if name = ''Str0_255'' then Some (0, 255, LenU8)
      else if name = ''Str1_255'' then Some (1, 255, LenU8)
      else if name = ''Bytes0_32'' then Some (0, 32, LenU8)
      else if name = ''Bytes1_32'' then Some (1, 32, LenU8)
      else if name = ''Bytes0_255'' then Some (0, 255, LenU8)
      else if name = ''Bytes1_255'' then Some (1, 255, LenU8)
      else if name = ''Bytes0_64k'' then Some (0, 65535, LenU16)
      else if name = ''Bytes1_64k'' then Some (1, 65535, LenU16)
      else if name = ''Seq0_255'' then Some (0, 255, LenU8)
      else if name = ''Seq0_64k'' then Some (0, 65535, LenU16)
      else None)"

definition deserialize_sized_seq ::
    "nat \<Rightarrow> nat \<Rightarrow> len_type \<Rightarrow> (nat \<Rightarrow> 'a reader) \<Rightarrow> 'a reader" where
  "deserialize_sized_seq min_size max_size I visit =
     rd_bind (read_len I)
       (\<lambda>sz. if sz < min_size then rd_fail TooShort
               else if max_size < sz then rd_fail Overlong
               else visit sz)"

fun deserialize :: "sty \<Rightarrow> sval reader"
  and deserialize_sized :: "sty \<Rightarrow> nat \<Rightarrow> sval reader" where
  "deserialize TBool = rd_map VBool read_bool"
| "deserialize TI8 = rd_map VI8 read_u8"
| "deserialize TI16 = rd_map VI16 read_u16"
| "deserialize TI32 = rd_map VI32 read_u32"
| "deserialize TI64 = rd_map VI64 read_u64"
| "deserialize TU8 = rd_map VU8 read_u8"
| "deserialize TU16 = rd_map VU16 read_u16"
| "deserialize TU32 = rd_map VU32 read_u32"
| "deserialize TU64 = rd_map VU64 read_u64"
| "deserialize TF32 = rd_map VF32 read_u32"
| "deserialize TF64 = rd_map VF64 read_u64"
| "deserialize TChar = rd_map VChar read_char"
| "deserialize TStr = rd_bind (read_len LenU16) (\<lambda>sz. rd_map VStr (read_str sz))"
| "deserialize TString = rd_bind (read_len LenU16) (\<lambda>sz. rd_map VStr (read_str sz))"
| "deserialize TBytes = rd_bind (read_len LenU16) (\<lambda>sz. rd_map VBytes (read_bytes sz))"
| "deserialize TByteBuf = rd_bind (read_len LenU16) (\<lambda>sz. rd_map VBytes (read_bytes sz))"
| "deserialize (TOption t) =
     rd_bind read_bool (\<lambda>flag. if flag then rd_map VSome (deserialize t) else rd_ret VNone)"
| "deserialize TUnit = rd_ret VUnit"
| "deserialize (TUnitStruct name) = rd_ret (VUnitStruct name)"
| "deserialize (TNewtype name t) =
     rd_map (VNewtype name)
       (case newtype_bounds name of
          Some (lo, hi, I) \<Rightarrow> deserialize_sized_seq lo hi I (deserialize_sized t)
        | None \<Rightarrow> deserialize t)"
| "deserialize (TEnum ts) =
     rd_bind read_u32
       (\<lambda>idx. if unat idx < length ts
              then rd_map (VVariant idx) ((map deserialize ts) ! unat idx)
              else rd_fail (Custom ''invalid value''))"
| "deserialize (TSeq t) =
     rd_bind (read_len LenU16)
       (\<lambda>sz. rd_map (VSeq (Some sz)) (read_elems sz (deserialize t)))"
| "deserialize (TTuple ts) = rd_map VTuple (read_fields (map deserialize ts))"
| "deserialize (TTupleStruct name ts) =
     rd_map (VTupleStruct name) (read_fields (map deserialize ts))"
| "deserialize TMap = rd_fail (Unsupported ''Map'')"
| "deserialize (TStruct name ts) = rd_map (VStruct name) (read_fields (map deserialize ts))"
| "deserialize TIdentifier = rd_map VU32 read_u32"
| "deserialize TAny = rd_fail (Unsupported ''Any / Dynamic'')"
| "deserialize TIgnoredAny = rd_fail (Unsupported ''Any / Dynamic type'')"
| "deserialize_sized TString sz = rd_map VStr (read_str sz)"
| "deserialize_sized (TNewtype name t) sz = rd_map (VNewtype name) (deserialize_sized t sz)"
| "deserialize_sized (TSeq t) sz =
     rd_map (VSeq (Some sz)) (read_elems sz (deserialize t))"
| "deserialize_sized _ sz = rd_fail Unreachable"

definition from_slice :: "sty \<Rightarrow> bytes \<Rightarrow> ser_error + sval" where
  "from_slice t bs =
     rbind (deserialize t bs) (\<lambda>(v, rest). if rest = [] then Inr v else Inl TrailingBytes)"

section \<open>Typing\<close>

text \<open>
  \<open>has_ty v t\<close>: \<open>v\<close> is what a Rust value of type \<open>t\<close> hands to the serializer. Lengths of
  length-prefixed data fit the prefix, strings are UTF-8, and the data inside one of the sized
  newtypes respects the bounds of its name.
\<close>

fun has_ty :: "sval \<Rightarrow> sty \<Rightarrow> bool"
  and sized_has_ty :: "nat \<Rightarrow> nat \<Rightarrow> sval \<Rightarrow> sty \<Rightarrow> bool"
  and has_tys :: "sval list \<Rightarrow> sty list \<Rightarrow> bool" where
  "has_ty (VBool _) t = (t = TBool)"
| "has_ty (VI8 _) t = (t = TI8)"
| "has_ty (VI16 _) t = (t = TI16)"
| "has_ty (VI32 _) t = (t = TI32)"
| "has_ty (VI64 _) t = (t = TI64)"
| "has_ty (VU8 _) t = (t = TU8)"
| "has_ty (VU16 _) t = (t = TU16)"
| "has_ty (VU32 _) t = (t = TU32 \<or> t = TIdentifier)"
| "has_ty (VU64 _) t = (t = TU64)"
| "has_ty (VF32 _) t = (t = TF32)"
| "has_ty (VF64 _) t = (t = TF64)"
| "has_ty (VChar c) t = (t = TChar \<and> valid_char c)"
| "has_ty (VStr s) t = ((t = TStr \<or> t = TString) \<and> length s < 65536 \<and> valid_utf8 s)"
| "has_ty (VBytes s) t = ((t = TBytes \<or> t = TByteBuf) \<and> length s < 65536)"
| "has_ty VNone t = (case t of TOption _ \<Rightarrow> True | _ \<Rightarrow> False)"
| "has_ty (VSome v) t = (case t of TOption t' \<Rightarrow> has_ty v t' | _ \<Rightarrow> False)"
| "has_ty VUnit t = (t = TUnit)"
| "has_ty (VUnitStruct name) t = (t = TUnitStruct name)"
| "has_ty (VNewtype name v) t =
     (case t of
        TNewtype m t' \<Rightarrow>
          name = m \<and>
          (case newtype_bounds name of
             Some (lo, hi, I) \<Rightarrow> sized_has_ty lo hi v t'
           | None \<Rightarrow> has_ty v t')
      | _ \<Rightarrow> False)"
| "has_ty (VVariant idx v) t =
     (case t of TEnum ts \<Rightarrow> unat idx < length ts \<and> has_ty v (ts ! unat idx) | _ \<Rightarrow> False)"
| "has_ty (VSeq len vs) t =
     (case t of
        TSeq t' \<Rightarrow>
          len = Some (length vs) \<and> length vs < 65536 \<and> has_tys vs (replicate (length vs) t')
      | _ \<Rightarrow> False)"
| "has_ty (VTuple vs) t = (case t of TTuple ts \<Rightarrow> has_tys vs ts | _ \<Rightarrow> False)"
| "has_ty (VTupleStruct name vs) t =
     (case t of TTupleStruct m ts \<Rightarrow> name = m \<and> has_tys vs ts | _ \<Rightarrow> False)"
| "has_ty VMap t = False"
| "has_ty (VStruct name vs) t = (case t of TStruct m ts \<Rightarrow> name = m \<and> has_tys vs ts | _ \<Rightarrow> False)"
| "sized_has_ty lo hi (VStr s) t =
     (t = TString \<and> lo \<le> length s \<and> length s \<le> hi \<and> valid_utf8 s)"
| "sized_has_ty lo hi (VSeq len vs) t =
     (case t of
        TSeq t' \<Rightarrow>
          len = Some (length vs) \<and> lo \<le> length vs \<and> length vs \<le> hi \<and>
          has_tys vs (replicate (length vs) t')
      | _ \<Rightarrow> False)"
| "sized_has_ty lo hi _ t = False"
| "has_tys [] ts = (ts = [])"
| "has_tys (v # vs) ts = (case ts of [] \<Rightarrow> False | t # ts' \<Rightarrow> has_ty v t \<and> has_tys vs ts')"

text \<open>
  The types the protocol declares: a sized newtype wraps a \<open>String\<close> or a sequence, and nothing
  asks for a map or a self-describing value.
\<close>

fun wf_ty :: "sty \<Rightarrow> bool" where
  "wf_ty (TOption t) = wf_ty t"
| "wf_ty (TNewtype name t) =
     (case newtype_bounds name of
        Some _ \<Rightarrow> (case t of TString \<Rightarrow> True | TSeq t' \<Rightarrow> wf_ty t' | _ \<Rightarrow> False)
      | None \<Rightarrow> wf_ty t)"
| "wf_ty (TEnum ts) = list_all wf_ty ts"
| "wf_ty (TSeq t) = wf_ty t"
| "wf_ty (TTuple ts) = list_all wf_ty ts"
| "wf_ty (TTupleStruct _ ts) = list_all wf_ty ts"
| "wf_ty (TStruct _ ts) = list_all wf_ty ts"
| "wf_ty _ = True"

section \<open>Writing and reading back\<close>

text \<open>
  \<open>reads p bs x\<close>: on an input that starts with \<open>bs\<close> the reader \<open>p\<close> returns \<open>x\<close> and leaves
  the rest, and on a proper prefix of \<open>bs\<close> it reports the end of input. \<open>writes w p x\<close>: the
  write \<open>w\<close> succeeds and \<open>p\<close> reads \<open>x\<close> from what it wrote.
\<close>

definition reads :: "'a reader \<Rightarrow> bytes \<Rightarrow> 'a \<Rightarrow> bool" where
  "reads p bs x \<longleftrightarrow>
     (\<forall>r. p (bs @ r) = Inr (x, r)) \<and> (\<forall>k < length bs. p (take k bs) = Inl EOF)"

definition writes :: "ser_error + bytes \<Rightarrow> 'a reader \<Rightarrow> 'a \<Rightarrow> bool" where
  "writes w p x \<longleftrightarrow> (\<exists>bs. w = Inr bs \<and> reads p bs x)"

named_theorems writes_intros \<open>how a write and a read that mirror each other are put together\<close>

lemma reads_bind:
  assumes p: "reads p a x" and f: "reads (f x) b y"
  shows "reads (rd_bind p f) (a @ b) y"
proof -
  have "rd_bind p f (take k (a @ b)) = Inl EOF" if "k < length (a @ b)" for k
  proof (cases "k < length a")
    case True
    with p show ?thesis by (simp add: reads_def rd_bind_def)
  next
    case False
    with that have "k - length a < length b" by simp
    with f have "f x (take (k - length a) b) = Inl EOF" by (simp add: reads_def)
    with False p show ?thesis by (simp add: reads_def rd_bind_def)
  qed
  with p f show ?thesis by (simp add: reads_def rd_bind_def)
qed

lemma reads_map: "reads p a x \<Longrightarrow> reads (rd_map f p) a (f x)"
  by (simp add: reads_def rd_bind_def rd_map_def rd_ret_def)

lemma writes_ret [writes_intros]: "writes (Inr []) (rd_ret x) x"
  by (simp add: writes_def reads_def rd_ret_def)

lemma writes_bind [writes_intros]:
  "writes a p x \<Longrightarrow> writes b (f x) y \<Longrightarrow> writes (and_write a b) (rd_bind p f) y"
  by (auto simp: writes_def and_write_def intro: reads_bind)

lemma writes_bind_nil: "writes a p x \<Longrightarrow> f x = rd_ret y \<Longrightarrow> writes a (rd_bind p f) y"
  by (auto simp: writes_def reads_def rd_bind_def rd_ret_def)

lemma writes_map [writes_intros]: "writes a p x \<Longrightarrow> writes a (rd_map f p) (f x)"
  by (auto simp: writes_def intro: reads_map)

lemma writes_map_eq: "writes a p x \<Longrightarrow> y = f x \<Longrightarrow> writes a (rd_map f p) y"
  by (simp add: writes_map)

lemma reads_read_bytes: "length s = n \<Longrightarrow> reads (read_bytes n) s s"
  by (simp add: reads_def read_bytes_def)

lemma writes_read_bytes [writes_intros]: "n = length s \<Longrightarrow> writes (write_all s) (read_bytes n) s"
  by (simp add: writes_def write_all_def reads_read_bytes)

lemma writes_u8 [writes_intros]: "writes (serialize_u8 v) read_u8 v"
  by (simp add: writes_def serialize_u8_def write_all_def reads_def read_u8_def)

lemma writes_u16 [writes_intros]: "writes (serialize_u16 v) read_u16 v"
  unfolding serialize_u16_def read_u16_def
  by (rule writes_map_eq [OF writes_read_bytes]) (simp_all add: byte_simps)

lemma writes_u32 [writes_intros]: "writes (serialize_u32 v) read_u32 v"
  unfolding serialize_u32_def read_u32_def
  by (rule writes_map_eq [OF writes_read_bytes]) (simp_all add: byte_simps)

lemma writes_u64 [writes_intros]: "writes (serialize_u64 v) read_u64 v"
  unfolding serialize_u64_def read_u64_def
  by (rule writes_map_eq [OF writes_read_bytes]) (simp_all add: byte_simps)

lemma writes_bool [writes_intros]: "writes (serialize_bool v) read_bool v"
  by (simp add: writes_def serialize_bool_def write_all_def reads_def read_bool_def rd_bind_def
      read_u8_def rd_ret_def)

lemma writes_char: "valid_char v \<Longrightarrow> writes (serialize_u32 v) read_char v"
  unfolding read_char_def by (rule writes_bind_nil [OF writes_u32]) simp

lemma writes_read_str [writes_intros]:
  "n = length s \<Longrightarrow> valid_utf8 s \<Longrightarrow> writes (write_all s) (read_str n) s"
  unfolding read_str_def by (rule writes_bind_nil [OF writes_read_bytes]) simp_all

text \<open>The largest length a length field can carry.\<close>

definition len_cap :: "len_type \<Rightarrow> nat" where
  "len_cap I = (case I of LenU8 \<Rightarrow> 256 | LenU16 \<Rightarrow> 65536)"

lemma writes_len: "n < len_cap I \<Longrightarrow> writes (serialize_len I n) (read_len I) n"
proof (cases I)
  case LenU8
  assume "n < len_cap I"
  with LenU8 show ?thesis
    by (auto simp: len_cap_def serialize_len_def read_len_def u8_try_from_def unat_of_nat
        intro!: writes_map_eq [OF writes_u8])
next
  case LenU16
  assume "n < len_cap I"
  with LenU16 show ?thesis
    by (auto simp: len_cap_def serialize_len_def read_len_def u16_try_from_def unat_of_nat
        intro!: writes_map_eq [OF writes_u16])
qed

lemma read_elems_replicate: "read_elems n p = read_fields (replicate n p)"
  by (induction n) simp_all

lemma newtype_bounds_len_type:
  "map_option (\<lambda>(lo, hi, I). I) (newtype_bounds name) = newtype_len_type name"
  by (simp add: newtype_bounds_def newtype_len_type_def)

lemma newtype_bounds_cap: "newtype_bounds name = Some (lo, hi, I) \<Longrightarrow> hi < len_cap I"
  by (auto simp: newtype_bounds_def len_cap_def split: if_splits)

lemma newtype_cases:
  obtains (plain) "newtype_bounds name = None" "newtype_len_type name = None"
  | (sized) lo hi I where "newtype_bounds name = Some (lo, hi, I)"
      "newtype_len_type name = Some I" "hi < len_cap I"
  using newtype_bounds_len_type [of name] newtype_bounds_cap [of name]
  by (cases "newtype_bounds name") auto

lemma writes_bind_len:
  "n < len_cap I \<Longrightarrow> writes b (f n) y \<Longrightarrow>
   writes (and_write (serialize_len I n) b) (rd_bind (read_len I) f) y"
  by (rule writes_bind [OF writes_len])

lemma serialize_str_eq: "length s < 65536 \<Longrightarrow>
  serialize_str s = and_write (serialize_len LenU16 (length s)) (write_all s)"
  by (simp add: serialize_str_def serialize_len_def u16_try_from_def)

lemma serialize_bytes_eq: "length s < 65536 \<Longrightarrow>
  serialize_bytes s = and_write (serialize_len LenU16 (length s)) (write_all s)"
  by (simp add: serialize_bytes_def serialize_len_def u16_try_from_def)

lemma writes_sized:
  "lo \<le> n \<Longrightarrow> n \<le> hi \<Longrightarrow> hi < len_cap I \<Longrightarrow> writes b (f n) y \<Longrightarrow>
   writes (and_write (serialize_len I n) b) (deserialize_sized_seq lo hi I f) y"
  unfolding deserialize_sized_seq_def by (rule writes_bind_len) simp_all

lemma has_tys_length: "has_tys vs ts \<Longrightarrow> length vs = length ts"
  by (induction vs arbitrary: ts) (auto split: list.splits)

lemma serialize_writes:
  "has_ty v t \<Longrightarrow> writes (serialize v) (deserialize t) v"
  "sized_has_ty lo hi v t \<Longrightarrow> hi < len_cap I \<Longrightarrow>
     writes (emit I v) (deserialize_sized_seq lo hi I (deserialize_sized t)) v"
  "has_tys vs ts \<Longrightarrow> writes (serialize_all vs) (read_fields (map deserialize ts)) vs"
proof (induction v t and lo hi v t and vs ts arbitrary: and I and rule: has_ty_sized_has_ty_has_tys.induct)
  case (15 t)
  then show ?case
    by (auto split: sty.splits intro!: writes_bind_nil [OF writes_bool])
next
  case (19 name v t)
  then show ?case
    by (cases rule: newtype_cases [of name]) (auto split: sty.splits intro!: writes_map)
qed (auto simp: serialize_str_eq serialize_bytes_eq read_elems_replicate writes_char len_cap_def
  split: sty.splits list.splits intro!: writes_intros writes_bind_len writes_sized)

named_theorems reader_iff \<open>when a reader returns, read backwards\<close>

lemma rd_bind_iff [reader_iff]:
  "rd_bind p f bs = Inr (y, r) \<longleftrightarrow> (\<exists>x r'. p bs = Inr (x, r') \<and> f x r' = Inr (y, r))"
  by (auto simp: rd_bind_def result_simps)

lemma rd_ret_iff [reader_iff]: "rd_ret x bs = Inr (y, r) \<longleftrightarrow> y = x \<and> r = bs"
  by (auto simp: rd_ret_def)

lemma rd_fail_iff [reader_iff]: "rd_fail e bs = Inr (y, r) \<longleftrightarrow> False"
  by (simp add: rd_fail_def)

lemma rd_map_iff [reader_iff]:
  "rd_map f p bs = Inr (y, r) \<longleftrightarrow> (\<exists>x. p bs = Inr (x, r) \<and> y = f x)"
  by (auto simp: rd_map_def reader_iff)

lemma read_bytes_iff [reader_iff]: "read_bytes n bs = Inr (s, r) \<longleftrightarrow> bs = s @ r \<and> length s = n"
  by (auto simp: read_bytes_def)

lemma read_u8_iff [reader_iff]: "read_u8 bs = Inr (v, r) \<longleftrightarrow> bs = v # r"
  by (auto simp: read_u8_def split: list.splits)

lemma of_le_u16_cast: "length s = 2 \<Longrightarrow> le_bytes 2 (unat (of_nat (of_le s) :: u16)) = s"
  using of_le_bound [of s] by (simp add: unat_of_nat le_bytes_of_le)

lemma of_le_u32_cast: "length s = 4 \<Longrightarrow> le_bytes 4 (unat (of_nat (of_le s) :: u32)) = s"
  using of_le_bound [of s] by (simp add: unat_of_nat le_bytes_of_le)

lemma of_le_u64_cast: "length s = 8 \<Longrightarrow> le_bytes 8 (unat (of_nat (of_le s) :: u64)) = s"
  using of_le_bound [of s] by (simp add: unat_of_nat le_bytes_of_le)

lemma read_u16_iff [reader_iff]: "read_u16 bs = Inr (v, r) \<longleftrightarrow> bs = le_bytes 2 (unat v) @ r"
  by (auto simp: read_u16_def reader_iff of_le_u16_cast byte_simps intro!: exI [of _ "le_bytes 2 (unat v)"])

lemma read_u32_iff [reader_iff]: "read_u32 bs = Inr (v, r) \<longleftrightarrow> bs = le_bytes 4 (unat v) @ r"
  by (auto simp: read_u32_def reader_iff of_le_u32_cast byte_simps intro!: exI [of _ "le_bytes 4 (unat v)"])

lemma read_u64_iff [reader_iff]: "read_u64 bs = Inr (v, r) \<longleftrightarrow> bs = le_bytes 8 (unat v) @ r"
  by (auto simp: read_u64_def reader_iff of_le_u64_cast byte_simps intro!: exI [of _ "le_bytes 8 (unat v)"])

lemma read_bool_iff [reader_iff]:
  "read_bool bs = Inr (v, r) \<longleftrightarrow> bs = (if v then 1 else 0) # r"
proof -
  have "read_bool bs = Inr (v, r) \<longleftrightarrow> (\<exists>b. bs = b # r \<and> (b = 0 \<and> \<not> v \<or> b = 1 \<and> v))"
    by (auto simp: read_bool_def reader_iff split: if_splits)
  then show ?thesis by auto
qed

lemma read_char_iff [reader_iff]:
  "read_char bs = Inr (v, r) \<longleftrightarrow> valid_char v \<and> bs = le_bytes 4 (unat v) @ r"
  by (auto simp: read_char_def reader_iff split: if_splits)

lemma read_str_iff [reader_iff]:
  "read_str n bs = Inr (s, r) \<longleftrightarrow> valid_utf8 s \<and> length s = n \<and> bs = s @ r"
  by (auto simp: read_str_def reader_iff split: if_splits)

lemma read_len_iff [reader_iff]:
  "read_len I bs = Inr (n, r) \<longleftrightarrow> n < len_cap I \<and> (\<exists>a. serialize_len I n = Inr a \<and> bs = a @ r)"
proof (cases I)
  case LenU8
  show ?thesis
    using unat_u8_bound
    by (auto simp: LenU8 read_len_def reader_iff serialize_len_def u8_try_from_def len_cap_def
        serialize_u8_def write_all_def unat_of_nat intro!: exI [of _ "of_nat n"])
next
  case LenU16
  show ?thesis
    using unat_u16_bound
    by (auto simp: LenU16 read_len_def reader_iff serialize_len_def u16_try_from_def len_cap_def
        serialize_u16_def write_all_def unat_of_nat intro!: exI [of _ "of_nat n"])
qed

text \<open>\<open>exact t\<close>: whatever the reader of \<open>t\<close> returns has type \<open>t\<close> and is what was written.\<close>

definition exact :: "sty \<Rightarrow> bool" where
  "exact t \<longleftrightarrow>
     (\<forall>bs v r. deserialize t bs = Inr (v, r) \<longrightarrow>
        has_ty v t \<and> (\<exists>a. serialize v = Inr a \<and> bs = a @ r))"

lemma exactD:
  assumes "exact t" and "deserialize t bs = Inr (v, r)"
  obtains a where "has_ty v t" "serialize v = Inr a" "bs = a @ r"
  using assms unfolding exact_def by blast

lemma exactI:
  assumes "\<And>bs v r. deserialize t bs = Inr (v, r) \<Longrightarrow>
             has_ty v t \<and> (\<exists>a. serialize v = Inr a \<and> bs = a @ r)"
  shows "exact t"
  using assms by (auto simp: exact_def)

lemma read_fields_exact:
  "\<forall>t \<in> set ts. exact t \<Longrightarrow> read_fields (map deserialize ts) bs = Inr (vs, r) \<Longrightarrow>
   has_tys vs ts \<and> (\<exists>a. serialize_all vs = Inr a \<and> bs = a @ r)"
proof (induction ts arbitrary: bs vs)
  case Nil
  then show ?case by (simp add: reader_iff)
next
  case (Cons t ts)
  from Cons.prems(2) obtain v r' vs' where
    v: "deserialize t bs = Inr (v, r')" and
    vs': "read_fields (map deserialize ts) r' = Inr (vs', r)" and vs: "vs = v # vs'"
    by (auto simp: reader_iff)
  from Cons.prems(1) have "exact t" by simp
  from exactD [OF this v] obtain a where a: "has_ty v t" "serialize v = Inr a" "bs = a @ r'"
    by auto
  from Cons.IH [OF _ vs'] Cons.prems(1) obtain b where
    b: "has_tys vs' ts" "serialize_all vs' = Inr b" "r' = b @ r"
    by auto
  from a b vs show ?case by (simp add: and_write_def)
qed

lemma read_elems_exact:
  assumes "exact t" and "read_elems n (deserialize t) bs = Inr (vs, r)"
  shows "length vs = n \<and> has_tys vs (replicate n t) \<and> (\<exists>a. serialize_all vs = Inr a \<and> bs = a @ r)"
proof -
  have "read_fields (map deserialize (replicate n t)) bs = Inr (vs, r)"
    using assms(2) by (simp add: read_elems_replicate)
  from read_fields_exact [OF _ this] assms(1) show ?thesis
    by (auto dest: has_tys_length)
qed

lemma exact_seq: "exact t \<Longrightarrow> exact (TSeq t)"
  by (rule exactI) (auto simp: reader_iff and_write_def len_cap_def dest!: read_elems_exact [rotated])

lemma exact_sized:
  assumes "newtype_bounds name = Some b" and "t = TString \<or> (\<exists>t'. t = TSeq t' \<and> exact t')"
  shows "exact (TNewtype name t)"
proof (cases rule: newtype_cases [of name])
  case plain
  with assms(1) show ?thesis by simp
next
  case (sized lo hi I)
  show ?thesis
    using assms(2)
    by (intro exactI)
      (auto simp: sized deserialize_sized_seq_def reader_iff and_write_def write_all_def
        split: if_splits dest!: read_elems_exact [rotated])
qed

lemma wf_ty_exact: "wf_ty t \<Longrightarrow> exact t"
proof (induction t rule: wf_ty.induct)
  case (1 t)
  then show ?case
    by (intro exactI)
      (auto simp: reader_iff serialize_bool_def write_all_def and_write_def split: if_splits
        elim!: exactD)
next
  case (2 name t)
  show ?case
  proof (cases "newtype_bounds name")
    case None
    with 2 have "exact t" by simp
    moreover have "newtype_len_type name = None"
      using None newtype_bounds_len_type [of name] by simp
    ultimately show ?thesis
      using None by (intro exactI) (auto simp: reader_iff elim!: exactD)
  next
    case (Some b)
    with 2 show ?thesis
      by (intro exact_sized [OF Some]) (auto split: sty.splits)
  qed
next
  case (3 ts)
  then have "\<forall>t \<in> set ts. exact t" by (auto simp: list_all_iff)
  then show ?case
    by (intro exactI)
      (auto simp: reader_iff serialize_u32_def write_all_def and_write_def split: if_splits
        elim!: exactD [rotated])
next
  case (4 t)
  then show ?case by (simp add: exact_seq)
next
  case (5 ts)
  then have "\<forall>t \<in> set ts. exact t" by (auto simp: list_all_iff)
  then show ?case by (intro exactI) (auto simp: reader_iff dest: read_fields_exact)
next
  case (6 name ts)
  then have "\<forall>t \<in> set ts. exact t" by (auto simp: list_all_iff)
  then show ?case by (intro exactI) (auto simp: reader_iff dest: read_fields_exact)
next
  case (7 name ts)
  then have "\<forall>t \<in> set ts. exact t" by (auto simp: list_all_iff)
  then show ?case by (intro exactI) (auto simp: reader_iff dest: read_fields_exact)
qed (intro exactI, auto simp: reader_iff serialize_bool_def serialize_u8_def serialize_u16_def
  serialize_u32_def serialize_u64_def serialize_str_eq serialize_bytes_eq write_all_def
  and_write_def len_cap_def)+

section \<open>No input reaches a panic\<close>

definition no_panic :: "'a reader \<Rightarrow> bool" where
  "no_panic p \<longleftrightarrow> (\<forall>bs. p bs \<noteq> Inl Unreachable)"

named_theorems no_panic_intros \<open>readers that never reach a panic\<close>

lemma no_panic_bind [no_panic_intros]:
  "no_panic p \<Longrightarrow> (\<And>x. no_panic (f x)) \<Longrightarrow> no_panic (rd_bind p f)"
  by (auto simp: no_panic_def rd_bind_def result_simps)

lemma no_panic_ret [no_panic_intros]: "no_panic (rd_ret x)"
  by (simp add: no_panic_def rd_ret_def)

lemma no_panic_fail [no_panic_intros]: "e \<noteq> Unreachable \<Longrightarrow> no_panic (rd_fail e)"
  by (simp add: no_panic_def rd_fail_def)

lemma no_panic_map [no_panic_intros]: "no_panic p \<Longrightarrow> no_panic (rd_map f p)"
  unfolding rd_map_def by (intro no_panic_intros)

lemma no_panic_if [no_panic_intros]:
  "(b \<Longrightarrow> no_panic p) \<Longrightarrow> (\<not> b \<Longrightarrow> no_panic q) \<Longrightarrow> no_panic (if b then p else q)"
  by simp

lemma no_panic_u8 [no_panic_intros]: "no_panic read_u8"
  by (simp add: no_panic_def read_u8_def split: list.splits)

lemma no_panic_bytes [no_panic_intros]: "no_panic (read_bytes n)"
  by (simp add: no_panic_def read_bytes_def)

lemma no_panic_leaves [no_panic_intros]:
  "no_panic read_u16" "no_panic read_u32" "no_panic read_u64" "no_panic read_bool"
  "no_panic read_char" "no_panic (read_str n)"
  unfolding read_u16_def read_u32_def read_u64_def read_bool_def read_char_def read_str_def
  by (intro no_panic_intros; simp)+

lemma no_panic_len [no_panic_intros]: "no_panic (read_len I)"
  by (cases I) (simp_all add: read_len_def no_panic_intros)

lemma no_panic_fields [no_panic_intros]: "\<forall>p \<in> set ps. no_panic p \<Longrightarrow> no_panic (read_fields ps)"
  by (induction ps) (simp_all add: no_panic_intros)

lemma no_panic_elems [no_panic_intros]: "no_panic p \<Longrightarrow> no_panic (read_elems n p)"
  by (simp add: read_elems_replicate no_panic_intros)

lemma no_panic_sized_seq [no_panic_intros]:
  "(\<And>n. no_panic (f n)) \<Longrightarrow> no_panic (deserialize_sized_seq lo hi I f)"
  unfolding deserialize_sized_seq_def by (intro no_panic_intros) simp_all

lemma wf_ty_no_panic: "wf_ty t \<Longrightarrow> no_panic (deserialize t)"
proof (induction t rule: wf_ty.induct)
  case (2 name t)
  show ?case
  proof (cases "newtype_bounds name")
    case None
    with 2 show ?thesis by (simp add: no_panic_intros)
  next
    case (Some b)
    with 2 have "no_panic (deserialize_sized t n)" for n
      by (cases b) (auto split: sty.splits intro!: no_panic_intros)
    with Some show ?thesis by (cases b) (simp add: no_panic_intros)
  qed
qed (auto simp: list_all_iff intro!: no_panic_intros)

section \<open>Properties\<close>

text \<open>The bytes of a value that serializes.\<close>

definition serialized :: "sval \<Rightarrow> bytes" where
  "serialized v = (case serialize v of Inr bs \<Rightarrow> bs | Inl _ \<Rightarrow> [])"

lemma serialize_has_ty: "has_ty v t \<Longrightarrow> serialize v = Inr (serialized v)"
  using serialize_writes(1) [of v t] by (auto simp: writes_def serialized_def)

lemma deserialize_serialized: "has_ty v t \<Longrightarrow> deserialize t (serialized v @ r) = Inr (v, r)"
  using serialize_writes(1) [of v t] by (auto simp: writes_def serialized_def reads_def)

lemma deserialize_prefix:
  "has_ty v t \<Longrightarrow> k < length (serialized v) \<Longrightarrow> deserialize t (take k (serialized v)) = Inl EOF"
  using serialize_writes(1) [of v t] by (auto simp: writes_def serialized_def reads_def)

interpretation v2_value: prefix_codec serialized "deserialize t" "\<lambda>v. has_ty v t" for t
  by unfold_locales (rule deserialize_serialized)

interpretation v2_u16: canonical_codec "\<lambda>w. le_bytes 2 (unat w)" read_u16 "\<lambda>_. True"
  by unfold_locales (simp_all add: reader_iff)

interpretation v2_u32: canonical_codec "\<lambda>w. le_bytes 4 (unat w)" read_u32 "\<lambda>_. True"
  by unfold_locales (simp_all add: reader_iff)

text \<open>
  C11. Round trip: a well-typed value serializes (\<open>to_vec\<close> never fails on it) and
  \<open>from_slice\<close> reads the same value back; embedded in a longer input, reading it consumes
  exactly its own bytes.
\<close>

theorem to_vec_from_slice:
  assumes "has_ty v t"
  shows "\<exists>bs. to_vec v = Inr bs \<and> from_slice t bs = Inr v \<and>
           (\<forall>r. deserialize t (bs @ r) = Inr (v, r))"
proof -
  have "from_slice t (serialized v) = Inr v"
    using deserialize_serialized [OF assms, of "[]"] by (simp add: from_slice_def)
  with assms show ?thesis
    by (auto simp: to_vec_def serialize_has_ty deserialize_serialized)
qed

text \<open>The struct of the repository's own unit test, and a sized string.\<close>

definition example_value :: sval where
  "example_value =
     VStruct ''DeviceInfo''
       [VNewtype ''Str0_255'' (VStr [0x61, 0x62]), VSome (VU32 7),
        VSeq (Some 2) [VU16 1, VU16 65535]]"

definition example_type :: sty where
  "example_type =
     TStruct ''DeviceInfo'' [TNewtype ''Str0_255'' TString, TOption TU32, TSeq TU16]"

lemma example_has_ty: "has_ty example_value example_type"
  by (simp add: example_value_def example_type_def newtype_bounds_def)

theorem to_vec_from_slice_witness:
  "has_ty example_value example_type \<and>
   (\<exists>bs. to_vec example_value = Inr bs \<and> from_slice example_type bs = Inr example_value)"
  using to_vec_from_slice [OF example_has_ty] example_has_ty by blast

text \<open>
  C12. The format is canonical: whenever \<open>from_slice\<close> accepts a byte string for a type of the
  protocol, the value has that type and serializes to exactly that byte string. Two different
  messages on the wire are never the same value.
\<close>

theorem from_slice_canonical:
  assumes "wf_ty t" and "from_slice t bs = Inr v"
  shows "has_ty v t \<and> to_vec v = Inr bs"
proof -
  from assms(2) have "deserialize t bs = Inr (v, [])"
    by (auto simp: from_slice_def result_simps split: if_splits)
  from exactD [OF wf_ty_exact [OF assms(1)] this] show ?thesis
    by (auto simp: to_vec_def)
qed

theorem from_slice_canonical_witness:
  "wf_ty (TOption TU16) \<and> from_slice (TOption TU16) [1, 5, 2] = Inr (VSome (VU16 517)) \<and>
   to_vec (VSome (VU16 517)) = Inr [1, 5, 2]"
proof -
  have w: "wf_ty (TOption TU16)" by simp
  have f: "from_slice (TOption TU16) [1, 5, 2] = Inr (VSome (VU16 517))"
    by (simp add: from_slice_def rd_bind_def rd_map_def rd_ret_def read_bool_def read_u8_def
        read_u16_def read_bytes_def)
  from from_slice_canonical [OF w f] w f show ?thesis by blast
qed

text \<open>
  No input makes the deserializer panic: for every type of the protocol and every byte
  string, the \<open>unreachable!()\<close> branches of \<open>SizedSeqDeserializer\<close> are indeed not reached; the
  result is a value or an ordinary error.
\<close>

theorem from_slice_no_panic:
  assumes "wf_ty t"
  shows "from_slice t bs \<noteq> Inl Unreachable"
  using wf_ty_no_panic [OF assms]
  by (auto simp: no_panic_def from_slice_def result_simps split: if_splits)

theorem from_slice_no_panic_witness:
  "wf_ty (TNewtype ''Str0_32'' TString) \<and>
   from_slice (TNewtype ''Str0_32'' TString) [200] \<noteq> Inl Unreachable"
proof -
  have w: "wf_ty (TNewtype ''Str0_32'' TString)" by (simp add: newtype_bounds_def)
  from from_slice_no_panic [OF w] w show ?thesis by blast
qed

text \<open>
  Truncation is always reported as such: cutting the serialization of a value anywhere
  before its end makes \<open>from_slice\<close> fail with \<open>EOF\<close>, and appending anything to it makes
  \<open>from_slice\<close> fail with \<open>TrailingBytes\<close>.
\<close>

theorem from_slice_wrong_length:
  assumes "has_ty v t" and "to_vec v = Inr bs"
  shows "(\<forall>k < length bs. from_slice t (take k bs) = Inl EOF) \<and>
         (\<forall>extra. extra \<noteq> [] \<longrightarrow> from_slice t (bs @ extra) = Inl TrailingBytes)"
proof -
  from assms have bs: "bs = serialized v"
    by (simp add: to_vec_def serialize_has_ty)
  show ?thesis
    using deserialize_prefix [OF assms(1)] deserialize_serialized [OF assms(1)]
    by (simp add: bs from_slice_def)
qed

theorem from_slice_wrong_length_witness:
  "has_ty (VU32 7) TU32 \<and> to_vec (VU32 7) = Inr [7, 0, 0, 0] \<and>
   from_slice TU32 (take 3 [7, 0, 0, 0]) = Inl EOF \<and>
   from_slice TU32 ([7, 0, 0, 0] @ [9]) = Inl TrailingBytes"
proof -
  have h: "has_ty (VU32 7) TU32" by simp
  have e: "to_vec (VU32 7) = Inr [7, 0, 0, 0]"
    by code_simp
  note p = from_slice_wrong_length [OF h e]
  from p have "from_slice TU32 (take 3 [7, 0, 0, 0]) = Inl EOF"
    by (elim conjE allE [of _ 3]) simp
  moreover from p have "from_slice TU32 ([7, 0, 0, 0] @ [9]) = Inl TrailingBytes"
    by (elim conjE allE [of _ "[9]"]) simp
  ultimately show ?thesis using h e by blast
qed

text \<open>
  Values of one type are prefix-free on the wire: if two well-typed values are followed by
  arbitrary data and the byte streams agree, the values agree and so does the data after them.
\<close>

theorem serialize_prefix_free:
  assumes "has_ty v t" and "has_ty w t" and "serialize v = Inr a" and "serialize w = Inr b"
    and "a @ r = b @ r'"
  shows "v = w \<and> r = r'"
proof -
  have "serialized v @ r = serialized w @ r'"
    using assms(3-5) by (simp add: serialized_def)
  with assms(1,2) show ?thesis by (rule v2_value.prefix_free)
qed

theorem serialize_prefix_free_witness:
  "has_ty (VBool True) TBool \<and> serialize (VBool True) = Inr [1] \<and>
   (VBool True = VBool True \<and> [2 :: u8] = [2])"
proof -
  have h: "has_ty (VBool True) TBool" by simp
  have e: "serialize (VBool True) = Inr [1]" by (simp add: serialize_bool_def write_all_def)
  from serialize_prefix_free [OF h h e e, of "[2]" "[2]"] h e show ?thesis by simp
qed

end
