(* ===== verification/V2_Types.thy ===== *)
theory V2_Types
  imports V2_Serialization
begin

text \<open>
  The field types of Stratum V2 messages, \<open>protocols/stratum/src/v2/types.rs\<close>: the
  length-bounded strings, byte strings and sequences that three macros generate, the 256-bit
  \<open>Uint256Bytes\<close>, and \<open>DeviceInfo\<close>.

  A value of a sized type is the data it wraps (UTF-8 bytes, bytes, or a list); the macro's
  \<open>MIN_LEN\<close> and \<open>MAX_LEN\<close> are functions of the type's name. The main facts: the constructors
  accept exactly the lengths in range; these are the same bounds the deserializer enforces,
  so what a constructor accepts is what travels on the wire; and 256-bit integers survive
  their byte form.
\<close>

section \<open>Sized types\<close>

datatype v2_error =
    UnknownMessage string
  | ChannelNotOperational string
  | DataTypeOverflow nat nat

datatype sized_type =
    Str0_32 | Str1_32 | Str0_255 | Str1_255
  | Bytes0_32 | Bytes1_32 | Bytes0_255 | Bytes1_255 | Bytes0_64k | Bytes1_64k
  | Seq0_255 | Seq0_64k

text \<open>The arguments of the \<open>sized_string_type!\<close>, \<open>sized_bytes_type!\<close> and \<open>sized_seq_type!\<close> calls.\<close>

fun min_len :: "sized_type \<Rightarrow> nat" where
  "min_len Str0_32 = 0"
| "min_len Str1_32 = 1"
| "min_len Str0_255 = 0"
| "min_len Str1_255 = 1"
| "min_len Bytes0_32 = 0"
| "min_len Bytes1_32 = 1"
| "min_len Bytes0_255 = 0"
| "min_len Bytes1_255 = 1"
| "min_len Bytes0_64k = 0"
| "min_len Bytes1_64k = 1"
| "min_len Seq0_255 = 0"
| "min_len Seq0_64k = 0"

fun max_len :: "sized_type \<Rightarrow> nat" where
  "max_len Str0_32 = 32"
| "max_len Str1_32 = 32"
| "max_len Str0_255 = 255"
| "max_len Str1_255 = 255"
| "max_len Bytes0_32 = 32"
| "max_len Bytes1_32 = 32"
| "max_len Bytes0_255 = 255"
| "max_len Bytes1_255 = 255"
| "max_len Bytes0_64k = 65535"
| "max_len Bytes1_64k = 65535"
| "max_len Seq0_255 = 255"
| "max_len Seq0_64k = 65535"

fun type_name :: "sized_type \<Rightarrow> string" where
  "type_name Str0_32 = ''Str0_32''"
| "type_name Str1_32 = ''Str1_32''"
| "type_name Str0_255 = ''Str0_255''"
| "type_name Str1_255 = ''Str1_255''"
| "type_name Bytes0_32 = ''Bytes0_32''"
| "type_name Bytes1_32 = ''Bytes1_32''"
| "type_name Bytes0_255 = ''Bytes0_255''"
| "type_name Bytes1_255 = ''Bytes1_255''"
| "type_name Bytes0_64k = ''Bytes0_64k''"
| "type_name Bytes1_64k = ''Bytes1_64k''"
| "type_name Seq0_255 = ''Seq0_255''"
| "type_name Seq0_64k = ''Seq0_64k''"

text \<open>
  \<open>TryFrom<String>\<close>, \<open>TryFrom<&str>\<close>, \<open>TryFrom<Vec<T>>\<close> and \<open>TryFrom<&[T]>\<close>: the same length
  check on the wrapped data, for strings counted in bytes.
\<close>

definition sized_try_from :: "sized_type \<Rightarrow> 'a list \<Rightarrow> v2_error + 'a list" where
  "sized_try_from n s =
     (if min_len n \<le> length s \<and> length s \<le> max_len n then Inr s
      else Inl (DataTypeOverflow (length s) (max_len n)))"

text \<open>\<open>from_string\<close>, \<open>from_vec\<close>, \<open>from_slice\<close>: a length out of range panics (\<open>None\<close>).\<close>

definition sized_from :: "sized_type \<Rightarrow> 'a list \<Rightarrow> 'a list option" where
  "sized_from n s = (case sized_try_from n s of Inr x \<Rightarrow> Some x | Inl _ \<Rightarrow> None)"

text \<open>\<open>new()\<close> is the derived \<open>Default\<close>, the empty value, whatever the bounds are.\<close>

definition sized_new :: "sized_type \<Rightarrow> 'a list" where
  "sized_new n = []"

definition in_bounds :: "sized_type \<Rightarrow> 'a list \<Rightarrow> bool" where
  "in_bounds n s \<longleftrightarrow> min_len n \<le> length s \<and> length s \<le> max_len n"

section \<open>How the types serialize\<close>

text \<open>
  The derived \<open>Serialize\<close> and \<open>Deserialize\<close> of the field types: the calls each makes, and the
  value rebuilt from what the deserializer hands to the visitor.
\<close>

definition sv_str :: "sized_type \<Rightarrow> bytes \<Rightarrow> sval" where
  "sv_str n s = VNewtype (type_name n) (VStr s)"

definition ty_str :: "sized_type \<Rightarrow> sty" where
  "ty_str n = TNewtype (type_name n) TString"

definition sv_bytes :: "sized_type \<Rightarrow> bytes \<Rightarrow> sval" where
  "sv_bytes n s = VNewtype (type_name n) (VSeq (Some (length s)) (map VU8 s))"

definition ty_bytes :: "sized_type \<Rightarrow> sty" where
  "ty_bytes n = TNewtype (type_name n) (TSeq TU8)"

definition sv_seq :: "sized_type \<Rightarrow> ('a \<Rightarrow> sval) \<Rightarrow> 'a list \<Rightarrow> sval" where
  "sv_seq n f xs = VNewtype (type_name n) (VSeq (Some (length xs)) (map f xs))"

definition ty_seq :: "sized_type \<Rightarrow> sty \<Rightarrow> sty" where
  "ty_seq n t = TNewtype (type_name n) (TSeq t)"

definition sv_uint256 :: "bytes \<Rightarrow> sval" where
  "sv_uint256 b = VNewtype ''Uint256Bytes'' (VTuple (map VU8 b))"

definition ty_uint256 :: sty where
  "ty_uint256 = TNewtype ''Uint256Bytes'' (TTuple (replicate 32 TU8))"

definition un_bool :: "sval \<Rightarrow> bool" where
  "un_bool v = (case v of VBool x \<Rightarrow> x | _ \<Rightarrow> False)"

definition un_u8 :: "sval \<Rightarrow> u8" where
  "un_u8 v = (case v of VU8 x \<Rightarrow> x | _ \<Rightarrow> 0)"

definition un_u16 :: "sval \<Rightarrow> u16" where
  "un_u16 v = (case v of VU16 x \<Rightarrow> x | _ \<Rightarrow> 0)"

definition un_u32 :: "sval \<Rightarrow> u32" where
  "un_u32 v = (case v of VU32 x \<Rightarrow> x | _ \<Rightarrow> 0)"

definition un_f32 :: "sval \<Rightarrow> u32" where
  "un_f32 v = (case v of VF32 x \<Rightarrow> x | _ \<Rightarrow> 0)"

definition un_str :: "sval \<Rightarrow> bytes" where
  "un_str v = (case v of VNewtype _ (VStr s) \<Rightarrow> s | _ \<Rightarrow> [])"

definition un_seq :: "(sval \<Rightarrow> 'a) \<Rightarrow> sval \<Rightarrow> 'a list" where
  "un_seq f v =
     (case v of VNewtype _ (VSeq _ vs) \<Rightarrow> map f vs | VNewtype _ (VTuple vs) \<Rightarrow> map f vs | _ \<Rightarrow> [])"

definition un_struct :: "sval \<Rightarrow> sval list" where
  "un_struct v = (case v of VStruct _ vs \<Rightarrow> vs | _ \<Rightarrow> [])"

section \<open>256-bit integers\<close>

text \<open>
  \<open>Uint256Bytes\<close> wraps a \<open>[u8; 32]\<close>; a \<open>U256\<close> is a 256-bit word, in little-endian order when
  it becomes bytes.
\<close>

definition uint256_of_u256 :: "u256 \<Rightarrow> bytes" where
  "uint256_of_u256 v = le_bytes 32 (unat v)"

definition u256_of_uint256 :: "bytes \<Rightarrow> u256" where
  "u256_of_uint256 b = of_nat (of_le b)"

definition uint256_try_from_hex_bytes :: "bytes \<Rightarrow> v2_error + bytes" where
  "uint256_try_from_hex_bytes value =
     (if length value = 32 then Inr value else Inl (DataTypeOverflow 32 32))"

lemma u256_of_uint256_of_u256 [byte_simps]: "u256_of_uint256 (uint256_of_u256 v) = v"
  by (simp add: u256_of_uint256_def uint256_of_u256_def byte_simps)

lemma unat_u256_of_uint256: "length b = 32 \<Longrightarrow> unat (u256_of_uint256 b) = of_le b"
  using of_le_bound [of b] by (simp add: u256_of_uint256_def unat_of_nat)

lemma uint256_of_u256_of_uint256 [byte_simps]:
  "length b = 32 \<Longrightarrow> uint256_of_u256 (u256_of_uint256 b) = b"
  by (simp add: uint256_of_u256_def unat_u256_of_uint256 byte_simps)

lemma length_uint256_of_u256 [simp]: "length (uint256_of_u256 v) = 32"
  by (simp add: uint256_of_u256_def)

section \<open>Device information\<close>

record device_info =
  vendor :: bytes
  hw_rev :: bytes
  fw_ver :: bytes
  dev_id :: bytes

definition sv_device_info :: "device_info \<Rightarrow> sval" where
  "sv_device_info d =
     VStruct ''DeviceInfo''
       [sv_str Str0_255 (vendor d), sv_str Str0_255 (hw_rev d), sv_str Str0_255 (fw_ver d),
        sv_str Str0_255 (dev_id d)]"

definition ty_device_info :: sty where
  "ty_device_info =
     TStruct ''DeviceInfo''
       [ty_str Str0_255, ty_str Str0_255, ty_str Str0_255, ty_str Str0_255]"

definition un_device_info :: "sval \<Rightarrow> device_info" where
  "un_device_info v =
     \<lparr>vendor = un_str (un_struct v ! 0), hw_rev = un_str (un_struct v ! 1),
      fw_ver = un_str (un_struct v ! 2), dev_id = un_str (un_struct v ! 3)\<rparr>"

section \<open>Field round trips\<close>

definition wf_str :: "sized_type \<Rightarrow> bytes \<Rightarrow> bool" where
  "wf_str n s \<longleftrightarrow> in_bounds n s \<and> valid_utf8 s"

definition wf_device_info :: "device_info \<Rightarrow> bool" where
  "wf_device_info d \<longleftrightarrow>
     wf_str Str0_255 (vendor d) \<and> wf_str Str0_255 (hw_rev d) \<and> wf_str Str0_255 (fw_ver d) \<and>
     wf_str Str0_255 (dev_id d)"

lemma newtype_bounds_type_name:
  "\<exists>I. newtype_bounds (type_name n) = Some (min_len n, max_len n, I)"
  by (cases n) (simp_all add: newtype_bounds_def)

named_theorems field_ty \<open>which values have a field type\<close>
named_theorems field_un \<open>what a visitor rebuilds from a field\<close>

lemma has_ty_int [field_ty]:
  "has_ty v TBool \<longleftrightarrow> (\<exists>x. v = VBool x)"
  "has_ty v TU8 \<longleftrightarrow> (\<exists>x. v = VU8 x)"
  "has_ty v TU16 \<longleftrightarrow> (\<exists>x. v = VU16 x)"
  "has_ty v TU32 \<longleftrightarrow> (\<exists>x. v = VU32 x)"
  "has_ty v TF32 \<longleftrightarrow> (\<exists>x. v = VF32 x)"
  by (cases v; simp)+

lemma has_tys_map:
  assumes "\<And>v. has_ty v t \<longleftrightarrow> (\<exists>x. P x \<and> v = f x)"
  shows "has_tys vs (replicate n t) \<longleftrightarrow> (\<exists>xs. length xs = n \<and> list_all P xs \<and> vs = map f xs)"
proof (induction vs arbitrary: n)
  case Nil
  show ?case by (cases n) auto
next
  case (Cons v vs)
  show ?case
  proof (cases n)
    case 0
    then show ?thesis by simp
  next
    case (Suc m)
    have "has_tys (v # vs) (replicate n t) \<longleftrightarrow>
        (\<exists>x xs. P x \<and> v = f x \<and> length xs = m \<and> list_all P xs \<and> vs = map f xs)"
      by (simp add: Suc Cons.IH assms) blast
    also have "\<dots> \<longleftrightarrow> (\<exists>xs. length xs = n \<and> list_all P xs \<and> v # vs = map f xs)"
    proof
      assume "\<exists>xs. length xs = n \<and> list_all P xs \<and> v # vs = map f xs"
      then obtain ys where "length ys = n" "list_all P ys" "v # vs = map f ys"
        by (elim exE conjE)
      then show "\<exists>x xs. P x \<and> v = f x \<and> length xs = m \<and> list_all P xs \<and> vs = map f xs"
        by (cases ys) (auto simp: Suc)
    next
      assume "\<exists>x xs. P x \<and> v = f x \<and> length xs = m \<and> list_all P xs \<and> vs = map f xs"
      then obtain x xs where "P x" "v = f x" "length xs = m" "list_all P xs" "vs = map f xs"
        by (elim exE conjE)
      then show "\<exists>xs. length xs = n \<and> list_all P xs \<and> v # vs = map f xs"
        by (intro exI [of _ "x # xs"]) (simp add: Suc)
    qed
    finally show ?thesis .
  qed
qed

lemma has_tys_u8: "has_tys vs (replicate n TU8) \<longleftrightarrow> (\<exists>b. length b = n \<and> vs = map VU8 b)"
  using has_tys_map [of TU8 "\<lambda>_. True" VU8 vs n] by (simp add: has_ty_int list_all_iff)

lemma has_ty_str [field_ty]: "has_ty v (ty_str n) \<longleftrightarrow> (\<exists>s. wf_str n s \<and> v = sv_str n s)"
proof -
  obtain I where "newtype_bounds (type_name n) = Some (min_len n, max_len n, I)"
    using newtype_bounds_type_name by blast
  moreover have "sized_has_ty lo hi w TString \<longleftrightarrow>
      (\<exists>s. lo \<le> length s \<and> length s \<le> hi \<and> valid_utf8 s \<and> w = VStr s)" for lo hi w
    by (cases w) auto
  ultimately show ?thesis
    by (cases v) (auto simp: ty_str_def sv_str_def wf_str_def in_bounds_def)
qed

lemma has_ty_sized_seq:
  "has_ty v (ty_seq n t) \<longleftrightarrow>
     (\<exists>vs. min_len n \<le> length vs \<and> length vs \<le> max_len n \<and> has_tys vs (replicate (length vs) t) \<and>
           v = VNewtype (type_name n) (VSeq (Some (length vs)) vs))"
proof -
  obtain I where I: "newtype_bounds (type_name n) = Some (min_len n, max_len n, I)"
    using newtype_bounds_type_name by blast
  have w: "sized_has_ty lo hi w (TSeq t) \<longleftrightarrow>
      (\<exists>vs. lo \<le> length vs \<and> length vs \<le> hi \<and> has_tys vs (replicate (length vs) t) \<and>
            w = VSeq (Some (length vs)) vs)" for lo hi w
    by (cases w) auto
  show ?thesis
  proof (cases v)
    case (VNewtype m u)
    then show ?thesis
      using I by (cases "m = type_name n") (simp_all add: ty_seq_def w)
  qed (simp_all add: ty_seq_def)
qed

lemma has_ty_seq_map:
  assumes "\<And>v. has_ty v t \<longleftrightarrow> (\<exists>x. P x \<and> v = f x)"
  shows "has_ty v (ty_seq n t) \<longleftrightarrow> (\<exists>xs. in_bounds n xs \<and> list_all P xs \<and> v = sv_seq n f xs)"
proof -
  have "has_ty v (ty_seq n t) \<longleftrightarrow>
      (\<exists>vs. (\<exists>xs. length xs = length vs \<and> list_all P xs \<and> vs = map f xs) \<and>
            min_len n \<le> length vs \<and> length vs \<le> max_len n \<and>
            v = VNewtype (type_name n) (VSeq (Some (length vs)) vs))"
    unfolding has_ty_sized_seq has_tys_map [OF assms] by blast
  also have "\<dots> \<longleftrightarrow> (\<exists>xs. in_bounds n xs \<and> list_all P xs \<and> v = sv_seq n f xs)"
    unfolding in_bounds_def sv_seq_def by (metis length_map)
  finally show ?thesis .
qed

lemma has_ty_bytes [field_ty]: "has_ty v (ty_bytes n) \<longleftrightarrow> (\<exists>s. in_bounds n s \<and> v = sv_bytes n s)"
proof -
  have "has_ty v (ty_seq n TU8) \<longleftrightarrow> (\<exists>xs. in_bounds n xs \<and> list_all (\<lambda>_. True) xs \<and> v = sv_seq n VU8 xs)"
    by (rule has_ty_seq_map) (simp add: has_ty_int)
  then show ?thesis
    by (simp add: ty_bytes_def ty_seq_def sv_bytes_def sv_seq_def list_all_iff)
qed

lemma has_ty_uint256 [field_ty]:
  "has_ty v ty_uint256 \<longleftrightarrow> (\<exists>b. length b = 32 \<and> v = sv_uint256 b)"
proof -
  have t: "has_ty w (TTuple (replicate n TU8)) \<longleftrightarrow> (\<exists>b. length b = n \<and> w = VTuple (map VU8 b))" for w n
    by (cases w) (simp_all add: has_tys_u8)
  have n: "newtype_bounds ''Uint256Bytes'' = None"
    by (simp add: newtype_bounds_def)
  show ?thesis
  proof (cases v)
    case (VNewtype m u)
    show ?thesis
    proof (cases "m = ''Uint256Bytes''")
      case True
      then show ?thesis unfolding VNewtype ty_uint256_def sv_uint256_def by (simp add: t n)
    qed (simp add: VNewtype ty_uint256_def sv_uint256_def)
  qed (simp_all add: ty_uint256_def sv_uint256_def)
qed

lemma has_ty_seq_uint256 [field_ty]:
  "has_ty v (ty_seq n ty_uint256) \<longleftrightarrow>
     (\<exists>xs. in_bounds n xs \<and> list_all (\<lambda>b. length b = 32) xs \<and> v = sv_seq n sv_uint256 xs)"
  by (rule has_ty_seq_map) (rule has_ty_uint256)

lemma un_fields [field_un]:
  "un_bool (VBool x1) = x1" "un_u8 (VU8 x2) = x2" "un_u16 (VU16 x3) = x3" "un_u32 (VU32 x4) = x4"
  "un_f32 (VF32 x5) = x5" "un_str (sv_str n s) = s" "un_seq un_u8 (sv_bytes n s) = s"
  "un_seq un_u8 (sv_uint256 s) = s" "un_struct (VStruct m vs) = vs"
  by (simp_all add: un_bool_def un_u8_def un_u16_def un_u32_def un_f32_def un_str_def un_seq_def
      sv_str_def sv_bytes_def sv_uint256_def un_struct_def comp_def)

lemma un_seq_uint256 [field_un]: "un_seq (un_seq un_u8) (sv_seq n sv_uint256 xs) = xs"
proof -
  have "map (un_seq un_u8 \<circ> sv_uint256) xs = xs"
    by (rule map_idI) (simp add: field_un)
  then show ?thesis by (simp add: un_seq_def sv_seq_def)
qed

lemma has_tys_Cons:
  "has_tys vs (t # ts) \<longleftrightarrow> (\<exists>v vs'. vs = v # vs' \<and> has_ty v t \<and> has_tys vs' ts)"
  by (cases vs) auto

lemma has_tys_Nil: "has_tys vs [] \<longleftrightarrow> vs = []"
  by (cases vs) auto

lemma has_ty_struct:
  "has_ty v (TStruct m ts) \<longleftrightarrow> (\<exists>vs. v = VStruct m vs \<and> has_tys vs ts)"
  by (cases v) auto

lemmas struct_ty = has_ty_struct has_tys_Cons has_tys_Nil

lemma has_ty_device_info [field_ty]:
  "has_ty v ty_device_info \<longleftrightarrow> (\<exists>d. wf_device_info d \<and> v = sv_device_info d)"
proof
  assume "has_ty v ty_device_info"
  then obtain a b c d where
    "wf_str Str0_255 a" "wf_str Str0_255 b" "wf_str Str0_255 c" "wf_str Str0_255 d"
    "v = sv_device_info \<lparr>vendor = a, hw_rev = b, fw_ver = c, dev_id = d\<rparr>"
    by (auto simp: ty_device_info_def sv_device_info_def struct_ty field_ty)
  then show "\<exists>d. wf_device_info d \<and> v = sv_device_info d"
    by (intro exI [of _ "\<lparr>vendor = a, hw_rev = b, fw_ver = c, dev_id = d\<rparr>"])
      (simp add: wf_device_info_def)
qed (auto simp: ty_device_info_def sv_device_info_def struct_ty field_ty wf_device_info_def)

lemma un_device_info_sv [field_un]: "un_device_info (sv_device_info d) = d"
  by (simp add: un_device_info_def sv_device_info_def field_un)

lemma wf_ty_str: "wf_ty (ty_str n)"
  using newtype_bounds_type_name [of n] by (auto simp: ty_str_def)

lemma wf_ty_seq: "wf_ty t \<Longrightarrow> wf_ty (ty_seq n t)"
  using newtype_bounds_type_name [of n] by (auto simp: ty_seq_def)

lemma wf_ty_bytes: "wf_ty (ty_bytes n)"
  using wf_ty_seq [of TU8 n] by (simp add: ty_bytes_def ty_seq_def)

lemma wf_ty_uint256: "wf_ty ty_uint256"
  by (simp add: ty_uint256_def newtype_bounds_def list_all_iff)

lemmas wf_field_ty = wf_ty_str wf_ty_seq wf_ty_bytes wf_ty_uint256

lemma wf_ty_device_info: "wf_ty ty_device_info"
  by (simp add: ty_device_info_def wf_field_ty)

section \<open>Properties\<close>

lemma sized_try_from_ok: "sized_try_from n s = Inr s' \<longleftrightarrow> in_bounds n s \<and> s' = s"
  by (auto simp: sized_try_from_def in_bounds_def)

lemma is_ok_sized_try_from: "is_ok (sized_try_from n s) \<longleftrightarrow> in_bounds n s"
  by (simp add: sized_try_from_def in_bounds_def)

lemma wire_iff_has_ty:
  assumes "wf_ty t"
  shows "(\<exists>bs. to_vec v = Inr bs \<and> from_slice t bs = Inr v) \<longleftrightarrow> has_ty v t"
proof
  assume "\<exists>bs. to_vec v = Inr bs \<and> from_slice t bs = Inr v"
  then obtain bs where "from_slice t bs = Inr v" by blast
  then have "deserialize t bs = Inr (v, [])"
    by (auto simp: from_slice_def result_simps split: if_splits)
  then show "has_ty v t"
    by (rule exactD [OF wf_ty_exact [OF assms]])
next
  assume "has_ty v t"
  then show "\<exists>bs. to_vec v = Inr bs \<and> from_slice t bs = Inr v"
    using deserialize_serialized [of v t "[]"]
    by (intro exI [of _ "serialized v"]) (simp add: to_vec_def from_slice_def serialize_has_ty)
qed

lemma sv_str_inject: "sv_str n s = sv_str n s' \<longleftrightarrow> s = s'"
  by (simp add: sv_str_def)

lemma sv_bytes_inject: "sv_bytes n s = sv_bytes n s' \<longleftrightarrow> s = s'"
proof -
  have "map VU8 s = map VU8 s' \<longleftrightarrow> s = s'" by (rule inj_map_eq_map) (simp add: inj_def)
  then show ?thesis by (auto simp: sv_bytes_def)
qed

text \<open>
  The constructors and the wire agree on every sized string and byte type: \<open>try_from\<close>
  accepts a string (or byte string) exactly when its serialized form is accepted by the
  deserializer of the same type, which then returns the same value. The bounds written in
  \<open>types.rs\<close> and, separately, in \<open>serialization.rs\<close> are therefore the same bounds.
\<close>

theorem sized_try_from_iff_wire:
  assumes "valid_utf8 s"
  shows "(is_ok (sized_try_from n s) \<longleftrightarrow>
           (\<exists>bs. to_vec (sv_str n s) = Inr bs \<and> from_slice (ty_str n) bs = Inr (sv_str n s))) \<and>
         (is_ok (sized_try_from m b) \<longleftrightarrow>
           (\<exists>bs. to_vec (sv_bytes m b) = Inr bs \<and> from_slice (ty_bytes m) bs = Inr (sv_bytes m b)))"
  unfolding wire_iff_has_ty [OF wf_ty_str] wire_iff_has_ty [OF wf_ty_bytes] is_ok_sized_try_from
    has_ty_str has_ty_bytes sv_str_inject sv_bytes_inject
  using assms by (auto simp: wf_str_def)

theorem sized_try_from_iff_wire_witness:
  "valid_utf8 [0x61, 0x62] \<and>
   (\<exists>bs. to_vec (sv_str Str1_32 [0x61, 0x62]) = Inr bs \<and>
         from_slice (ty_str Str1_32) bs = Inr (sv_str Str1_32 [0x61, 0x62])) \<and>
   \<not> (\<exists>bs. to_vec (sv_bytes Bytes1_32 []) = Inr bs \<and>
           from_slice (ty_bytes Bytes1_32) bs = Inr (sv_bytes Bytes1_32 []))"
proof -
  have v: "valid_utf8 [0x61, 0x62]" by simp
  have "is_ok (sized_try_from Str1_32 [0x61, 0x62 :: u8])" "\<not> is_ok (sized_try_from Bytes1_32 ([] :: bytes))"
    by (simp_all add: sized_try_from_def)
  with v sized_try_from_iff_wire [OF v, of Str1_32 Bytes1_32 "[]"]
  show ?thesis by blast
qed

text \<open>
  A value made by \<open>new()\<close> (or \<open>Default\<close>) of a type with a positive \<open>MIN_LEN\<close> breaks the
  type's own bound: \<open>try_from\<close> refuses the same data, it nevertheless serializes without an
  error, and every peer that reads it back fails with \<open>TooShort\<close>.
\<close>

theorem sized_new_too_short:
  assumes "0 < min_len n"
  shows "\<not> is_ok (sized_try_from n (sized_new n :: bytes)) \<and>
         (\<exists>bs. to_vec (sv_str n (sized_new n)) = Inr bs \<and> from_slice (ty_str n) bs = Inl TooShort) \<and>
         (\<exists>bs. to_vec (sv_bytes n (sized_new n)) = Inr bs \<and> from_slice (ty_bytes n) bs = Inl TooShort)"
  using assms
  by (cases n)
    (simp_all add: sized_try_from_def sized_new_def to_vec_def sv_str_def sv_bytes_def ty_str_def
      ty_bytes_def newtype_len_type_def newtype_bounds_def serialize_len_def u8_try_from_def
      u16_try_from_def serialize_u8_def serialize_u16_def write_all_def and_write_def from_slice_def
      deserialize_sized_seq_def rd_map_def rd_bind_def rd_fail_def read_len_def read_u8_def
      read_u16_def read_bytes_def rd_ret_def numeral_2_eq_2)

theorem sized_new_too_short_witness:
  "0 < min_len Str1_255 \<and>
   (\<exists>bs. to_vec (sv_str Str1_255 (sized_new Str1_255)) = Inr bs \<and>
         from_slice (ty_str Str1_255) bs = Inl TooShort)"
proof -
  have "0 < min_len Str1_255" by simp
  with sized_new_too_short [OF this] show ?thesis by blast
qed

section \<open>The macros for byte strings and sequences\<close>

text \<open>
  \<open>sized_bytes_type!\<close> and \<open>sized_seq_type!\<close> write the same constructors out again, for a vector and for a slice;
  the strings have theirs from \<open>sized_string_type!\<close>. All check the same bounds.
\<close>

definition bytes_try_from :: "sized_type \<Rightarrow> bytes \<Rightarrow> v2_error + bytes" where
  "bytes_try_from n v =
     (if min_len n \<le> length v \<and> length v \<le> max_len n then Inr v else Inl (DataTypeOverflow (length v) (max_len n)))"

definition bytes_from_vec :: "sized_type \<Rightarrow> bytes \<Rightarrow> bytes option" where
  "bytes_from_vec n v = (case bytes_try_from n v of Inr x \<Rightarrow> Some x | Inl _ \<Rightarrow> None)"

definition seq_try_from :: "sized_type \<Rightarrow> 'a list \<Rightarrow> v2_error + 'a list" where
  "seq_try_from n v =
     (if min_len n \<le> length v \<and> length v \<le> max_len n then Inr v else Inl (DataTypeOverflow (length v) (max_len n)))"

definition seq_from_vec :: "sized_type \<Rightarrow> 'a list \<Rightarrow> 'a list option" where
  "seq_from_vec n v = (case seq_try_from n v of Inr x \<Rightarrow> Some x | Inl _ \<Rightarrow> None)"

definition seq_from_slice :: "sized_type \<Rightarrow> 'a list \<Rightarrow> 'a list option" where
  "seq_from_slice n s = (case seq_try_from n s of Inr x \<Rightarrow> Some x | Inl _ \<Rightarrow> None)"

definition seq_default :: "'a list" where "seq_default = []"

lemma sized_constructors_agree:
  "bytes_try_from = sized_try_from" "seq_try_from = sized_try_from" "bytes_from_vec = sized_from" "seq_from_vec = sized_from"
  "seq_from_slice = sized_from" "seq_default = sized_new n"
  by (simp_all add: fun_eq_iff bytes_try_from_def seq_try_from_def sized_try_from_def bytes_from_vec_def seq_from_vec_def
      seq_from_slice_def sized_from_def seq_default_def sized_new_def)

end
