(* ===== verification/V2_Framing.thy ===== *)
theory V2_Framing
  imports V2_Types
begin

text \<open>
  Framing of Stratum V2: \<open>protocols/stratum/src/error.rs\<close>, \<open>payload.rs\<close>, \<open>v2/framing.rs\<close> and
  \<open>v2/framing/codec.rs\<close>.

  A \<open>BytesMut\<close> is its readable bytes; \<open>put_*\<close> appends and \<open>get_*\<close> consumes from the front. A
  payload is either bytes or an object serialized on demand; the object's
  \<open>AnyPayload::serialize_to_writer\<close> is the argument \<open>ser\<close> of the operations that use it.
  \<open>tokio_util\<close>'s \<open>LengthDelimitedCodec\<close> is not part of the repository: it is the argument
  \<open>ldc\<close>, a step function on its own state, and \<open>length_delimited\<close> states what its
  documentation promises for the builder settings of \<open>Codec::new\<close>. A panic is the error value
  \<open>Panic\<close>.

  Main facts: the six-byte header is a canonical codec for 15-bit extension types and 24-bit
  lengths; a frame written into an empty buffer is decoded with its payload, and what follows
  stays in the buffer; longer payloads and non-empty buffers are where this stops being true.
\<close>

section \<open>Errors\<close>

text \<open>The errors of Stratum V1 (\<open>v1/error.rs\<close>); their texts are UTF-8.\<close>

datatype v1_error =
    JsonError bytes
  | RpcError bytes
  | SubscribeError bytes
  | SubmitError bytes

datatype stratum_error =
    IoError string
  | Handshake string
  | LinesCodec string
  | Serde string
  | General string
  | UnexpectedVersion string string string
  | Noise string
  | NoiseProtocol string
  | NoiseSignature string
  | NoiseEncoding string
  | V1Error v1_error
  | V2Error v2_error
  | V2Serialization ser_error
  | HexDecode string
  | BitcoinHash string
  | Timeout
  | Format
  | Utf8
  | Panic string

section \<open>Payloads\<close>

datatype 'p payload =
    SerializedBytes bytes
  | LazyBytes 'p

type_synonym 'p serialize_fn = "'p \<Rightarrow> stratum_error + bytes"

definition is_serializable :: "'p payload \<Rightarrow> bool" where
  "is_serializable p = (case p of LazyBytes _ \<Rightarrow> True | SerializedBytes _ \<Rightarrow> False)"

definition into_serializable :: "'p payload \<Rightarrow> 'p option" where
  "into_serializable p = (case p of SerializedBytes _ \<Rightarrow> None | LazyBytes x \<Rightarrow> Some x)"

definition into_bytes_mut :: "'p serialize_fn \<Rightarrow> 'p payload \<Rightarrow> stratum_error + bytes" where
  "into_bytes_mut ser p = (case p of SerializedBytes b \<Rightarrow> Inr b | LazyBytes x \<Rightarrow> ser x)"

definition to_bytes_mut :: "'p serialize_fn \<Rightarrow> 'p payload \<Rightarrow> stratum_error + bytes" where
  "to_bytes_mut ser p = (case p of SerializedBytes b \<Rightarrow> Inr b | LazyBytes x \<Rightarrow> ser x)"

text \<open>
  \<open>Payload::deserialize\<close> replaces a lazy payload by its bytes before it parses, so the result
  carries the payload left behind.
\<close>

definition payload_deserialize ::
    "'p serialize_fn \<Rightarrow> (bytes \<Rightarrow> stratum_error + 'm) \<Rightarrow> 'p payload \<Rightarrow>
     (stratum_error + 'm) \<times> 'p payload" where
  "payload_deserialize ser parse p =
     (case p of
        SerializedBytes b \<Rightarrow> (parse b, p)
      | LazyBytes x \<Rightarrow>
          (case ser x of
             Inl e \<Rightarrow> (Inl e, p)
           | Inr b \<Rightarrow> (parse b, SerializedBytes b)))"

definition payload_eq :: "'p serialize_fn \<Rightarrow> 'p payload \<Rightarrow> 'p payload \<Rightarrow> bool" where
  "payload_eq ser p q =
     (case to_bytes_mut ser p of
        Inr a \<Rightarrow> (case to_bytes_mut ser q of Inr b \<Rightarrow> a = b | Inl _ \<Rightarrow> False)
      | Inl _ \<Rightarrow> False)"

definition serialize_to_writer :: "'p serialize_fn \<Rightarrow> 'p payload \<Rightarrow> stratum_error + bytes" where
  "serialize_to_writer ser p = (case p of SerializedBytes b \<Rightarrow> Inr b | LazyBytes x \<Rightarrow> ser x)"

section \<open>Header\<close>

record header =
  is_channel_message :: bool
  extension_type :: u16
  msg_type :: u8
  msg_length :: "u32 option"

definition HEADER_SIZE :: nat where "HEADER_SIZE = 6"
definition LEN_OFFSET :: nat where "LEN_OFFSET = 3"
definition LEN_SIZE :: nat where "LEN_SIZE = 3"
definition MAX_LEN :: u32 where "MAX_LEN = 0xffffff"
definition CHANNEL_MSG_SHIFT :: nat where "CHANNEL_MSG_SHIFT = 15"
definition CHANNEL_MSG_MASK :: u16 where "CHANNEL_MSG_MASK = push_bit CHANNEL_MSG_SHIFT 1"

definition header_new ::
    "bool \<Rightarrow> u16 \<Rightarrow> u8 \<Rightarrow> u32 option \<Rightarrow> stratum_error + header" where
  "header_new chan ext typ len =
     (if (case len of None \<Rightarrow> 0 | Some n \<Rightarrow> n) \<le> MAX_LEN
      then Inr \<lparr>is_channel_message = chan, extension_type = ext, msg_type = typ, msg_length = len\<rparr>
      else Inl (Panic ''BUG: Message too large''))"

definition extension_field :: "header \<Rightarrow> u16" where
  "extension_field h =
     extension_type h OR push_bit CHANNEL_MSG_SHIFT (if is_channel_message h then 1 else 0)"

definition header_serialize :: "header \<Rightarrow> u32 option \<Rightarrow> stratum_error + bytes" where
  "header_serialize h len =
     (case (case len of Some n \<Rightarrow> Some n | None \<Rightarrow> msg_length h) of
        None \<Rightarrow> Inl (Panic ''BUG: no message length'')
      | Some n \<Rightarrow>
          Inr (le_bytes 2 (unat (extension_field h)) @ [msg_type h] @ le_bytes LEN_SIZE (unat n)))"

text \<open>\<open>get_u16_le\<close>, \<open>get_u8\<close> and \<open>get_uint_le\<close> panic when the buffer is too short.\<close>

definition header_deserialize :: "bytes \<Rightarrow> stratum_error + (header \<times> bytes)" where
  "header_deserialize src =
     (if length src < HEADER_SIZE then Inl (Panic ''advance out of bounds'')
      else
        let ext = of_nat (of_le (take 2 src)) :: u16;
            typ = src ! 2;
            len = of_nat (of_le (take LEN_SIZE (drop LEN_OFFSET src))) :: u32
        in Inr (\<lparr>is_channel_message = (ext AND CHANNEL_MSG_MASK \<noteq> 0),
                 extension_type = ext AND NOT CHANNEL_MSG_MASK,
                 msg_type = typ,
                 msg_length = Some len\<rparr>,
                drop HEADER_SIZE src))"

section \<open>Frames\<close>

record 'p frame =
  frame_header :: header
  frame_payload :: "'p payload"

definition frame_deserialize :: "bytes \<Rightarrow> stratum_error + 'p frame" where
  "frame_deserialize src =
     rbind (header_deserialize src) (\<lambda>(h, rest).
       case msg_length h of
         None \<Rightarrow> Inl (Panic ''BUG: missing header length field'')
       | Some n \<Rightarrow>
           if unat n = length rest
           then Inr \<lparr>frame_header = h, frame_payload = SerializedBytes rest\<rparr>
           else Inl (Panic ''BUG: malformed message header''))"

definition from_serialized_payload ::
    "bool \<Rightarrow> u16 \<Rightarrow> u8 \<Rightarrow> bytes \<Rightarrow> stratum_error + 'p frame" where
  "from_serialized_payload chan ext typ p =
     rmap (\<lambda>h. \<lparr>frame_header = h, frame_payload = SerializedBytes p\<rparr>)
       (header_new chan ext typ (Some (of_nat (length p))))"

definition from_serializable_payload ::
    "bool \<Rightarrow> u16 \<Rightarrow> u8 \<Rightarrow> 'p \<Rightarrow> stratum_error + 'p frame" where
  "from_serializable_payload chan ext typ p =
     rmap (\<lambda>h. \<lparr>frame_header = h, frame_payload = LazyBytes p\<rparr>) (header_new chan ext typ None)"

text \<open>
  \<open>Frame::serialize\<close> splits the destination at \<open>Header::SIZE\<close>: whatever the buffer held beyond
  that point is in front of the payload when its length is taken, and the header is appended
  to the part that was kept. The result carries the buffer as it is left, also after an error,
  when the part split off is gone.
\<close>

definition frame_serialize ::
    "'p serialize_fn \<Rightarrow> 'p frame \<Rightarrow> bytes \<Rightarrow> (stratum_error + unit) \<times> bytes" where
  "frame_serialize ser f dst =
     (let kept = take HEADER_SIZE dst; split_off = drop HEADER_SIZE dst
      in case serialize_to_writer ser (frame_payload f) of
           Inl e \<Rightarrow> (Inl e, kept)
         | Inr p \<Rightarrow>
             let payload_buf = split_off @ p
             in case header_serialize (frame_header f) (Some (of_nat (length payload_buf))) of
                  Inl e \<Rightarrow> (Inl e, kept)
                | Inr h \<Rightarrow> (Inr (), kept @ h @ payload_buf))"

definition get_id :: "'p frame \<Rightarrow> u8" where
  "get_id f = msg_type (frame_header f)"

section \<open>Codec\<close>

type_synonym 's ld_codec = "'s \<Rightarrow> bytes \<Rightarrow> 's \<times> bytes \<times> (string + bytes option)"

definition codec_decode ::
    "'s ld_codec \<Rightarrow> 's \<Rightarrow> bytes \<Rightarrow> 's \<times> bytes \<times> (stratum_error + 'p frame option)" where
  "codec_decode ldc s src =
     (case ldc s src of
        (s', src', Inl e) \<Rightarrow> (s', src', Inl (IoError e))
      | (s', src', Inr None) \<Rightarrow> (s', src', Inr None)
      | (s', src', Inr (Some b)) \<Rightarrow> (s', src', rmap Some (frame_deserialize b)))"

definition codec_encode ::
    "'p serialize_fn \<Rightarrow> 'p frame \<Rightarrow> bytes \<Rightarrow> (stratum_error + unit) \<times> bytes" where
  "codec_encode ser item dst = frame_serialize ser item dst"

text \<open>
  What \<open>LengthDelimitedCodec\<close> promises for a little-endian length field of \<open>LEN_SIZE\<close> bytes at
  \<open>LEN_OFFSET\<close>, \<open>num_skip(0)\<close>, \<open>length_adjustment(SIZE)\<close> and a frame limit of \<open>lim\<close> bytes: in
  its initial state \<open>s0\<close> it waits for a whole header, returns header and body together once
  both are there, and is back in the initial state with the remaining bytes.
\<close>

definition length_delimited :: "'s ld_codec \<Rightarrow> 's \<Rightarrow> nat \<Rightarrow> bool" where
  "length_delimited ldc s0 lim \<longleftrightarrow>
     (\<forall>src. length src < HEADER_SIZE \<longrightarrow> ldc s0 src = (s0, src, Inr None)) \<and>
     (\<forall>h body rest.
        length h = HEADER_SIZE \<longrightarrow> of_le (take LEN_SIZE (drop LEN_OFFSET h)) = length body \<longrightarrow>
        length body \<le> lim \<longrightarrow> ldc s0 (h @ body @ rest) = (s0, rest, Inr (Some (h @ body))))"

text \<open>A codec with these properties, with no state of its own.\<close>

definition simple_ld :: "nat \<Rightarrow> unit ld_codec" where
  "simple_ld lim s src =
     (if length src < HEADER_SIZE then (s, src, Inr None)
      else
        let n = of_le (take LEN_SIZE (drop LEN_OFFSET src)) in
        if lim < n then (s, src, Inl ''frame size too big'')
        else if length src < HEADER_SIZE + n then (s, src, Inr None)
        else (s, drop (HEADER_SIZE + n) src, Inr (Some (take (HEADER_SIZE + n) src))))"

lemma length_delimited_simple_ld: "length_delimited (simple_ld lim) () lim"
  by (auto simp: length_delimited_def simple_ld_def HEADER_SIZE_def LEN_SIZE_def LEN_OFFSET_def
      Let_def)

section \<open>The header is a canonical codec\<close>

lemmas header_consts =
  HEADER_SIZE_def LEN_OFFSET_def LEN_SIZE_def MAX_LEN_def CHANNEL_MSG_SHIFT_def CHANNEL_MSG_MASK_def

definition valid_header :: "header \<Rightarrow> bool" where
  "valid_header h \<longleftrightarrow>
     extension_type h < 0x8000 \<and> (\<exists>n. msg_length h = Some n \<and> n \<le> MAX_LEN)"

definition header_bytes :: "header \<Rightarrow> bytes" where
  "header_bytes h = (case header_serialize h None of Inr b \<Rightarrow> b | Inl _ \<Rightarrow> [])"

lemma bit_channel_mask: "bit CHANNEL_MSG_MASK n \<longleftrightarrow> n = 15"
  unfolding CHANNEL_MSG_MASK_def CHANNEL_MSG_SHIFT_def
  by (simp only: push_bit_eq_mult mult_1_left bit_exp_iff) auto

lemmas channel_bits = bit_and_iff bit_or_iff bit_not_iff bit_take_bit_iff bit_channel_mask

lemma and_not_channel_mask: "e AND NOT CHANNEL_MSG_MASK = take_bit 15 e"
  by (rule bit_word_eqI) (auto simp: channel_bits)

lemma and_channel_mask: "e AND CHANNEL_MSG_MASK \<noteq> 0 \<longleftrightarrow> bit e 15"
proof -
  have "e AND CHANNEL_MSG_MASK = (if bit e 15 then CHANNEL_MSG_MASK else 0)"
    by (rule bit_word_eqI) (auto simp: channel_bits)
  moreover have "CHANNEL_MSG_MASK \<noteq> 0"
    by (simp add: CHANNEL_MSG_MASK_def CHANNEL_MSG_SHIFT_def)
  ultimately show ?thesis by simp
qed

lemma take_bit_15_less: "take_bit 15 (e :: u16) < 0x8000"
proof -
  have "unat (take_bit 15 e) < 2 ^ 15"
    unfolding unsigned_take_bit_eq by (rule take_bit_nat_less_exp)
  then show ?thesis by (simp add: word_less_nat_alt)
qed

lemma take_bit_15_self: "e < 0x8000 \<Longrightarrow> take_bit 15 (e :: u16) = e"
proof -
  assume "e < 0x8000"
  then have "unat (take_bit 15 e) = unat e"
    unfolding unsigned_take_bit_eq by (intro take_bit_nat_eq_self) (simp add: word_less_nat_alt)
  then show ?thesis by (simp only: word_unat_eq_iff)
qed

lemma bit_15_small: "e < 0x8000 \<Longrightarrow> \<not> bit (e :: u16) 15"
  using take_bit_15_self [of e] by (metis bit_take_bit_iff less_irrefl)

lemma extension_field_eq:
  "extension_field h = extension_type h OR (if is_channel_message h then CHANNEL_MSG_MASK else 0)"
  by (simp add: extension_field_def header_consts)

lemma channel_bit_split:
  "take_bit 15 e OR (if bit e 15 then CHANNEL_MSG_MASK else 0) = e"
proof (rule bit_word_eqI)
  fix n assume "n < LENGTH(16)"
  then have "n < 15 \<or> n = 15" by auto
  then show "bit (take_bit 15 e OR (if bit e 15 then CHANNEL_MSG_MASK else 0)) n = bit e n"
    by (auto simp: channel_bits)
qed

text \<open>The sixteen bits of the extension field hold the flag and a 15-bit extension type.\<close>

lemma extension_field_flag:
  assumes "extension_type h < 0x8000"
  shows "extension_field h AND CHANNEL_MSG_MASK \<noteq> 0 \<longleftrightarrow> is_channel_message h"
    and "extension_field h AND NOT CHANNEL_MSG_MASK = extension_type h"
proof -
  show "extension_field h AND CHANNEL_MSG_MASK \<noteq> 0 \<longleftrightarrow> is_channel_message h"
    using bit_15_small [OF assms] by (simp add: extension_field_eq and_channel_mask channel_bits)
  have "take_bit 15 CHANNEL_MSG_MASK = 0"
    by (rule bit_word_eqI) (auto simp: channel_bits)
  then show "extension_field h AND NOT CHANNEL_MSG_MASK = extension_type h"
    using take_bit_15_self [OF assms] by (simp add: extension_field_eq and_not_channel_mask take_bit_or)
qed

lemma length_header_bytes: "msg_length h = Some n \<Longrightarrow> length (header_bytes h) = HEADER_SIZE"
  by (simp add: header_bytes_def header_serialize_def header_consts)

lemma header_serialize_some:
  "header_serialize h (Some n) = Inr (header_bytes (h\<lparr>msg_length := Some n\<rparr>))"
  by (simp add: header_bytes_def header_serialize_def extension_field_def)

lemma unat_24_bit: "n \<le> MAX_LEN \<Longrightarrow> unat (n :: u32) < 256 ^ 3"
  by (simp add: header_consts word_le_nat_alt)

lemma header_deserialize_bytes:
  assumes "valid_header h"
  shows "header_deserialize (header_bytes h @ r) = Inr (h, r)"
proof -
  from assms obtain n where n: "msg_length h = Some n" "n \<le> MAX_LEN" and e: "extension_type h < 0x8000"
    by (auto simp: valid_header_def)
  have b: "header_bytes h = le_bytes 2 (unat (extension_field h)) @ msg_type h # le_bytes 3 (unat n)"
    using n by (simp add: header_bytes_def header_serialize_def header_consts)
  have "of_nat (of_le (le_bytes 3 (unat n))) = n"
    by (simp only: of_le_le_bytes [OF unat_24_bit [OF n(2)]] of_nat_unat ucast_id)
  then show ?thesis
    using extension_field_flag [OF e] n
    by (simp add: header_deserialize_def b HEADER_SIZE_def LEN_OFFSET_def LEN_SIZE_def Let_def
        nth_append byte_simps)
qed

lemma six_bytes:
  assumes "6 \<le> length bs"
  shows "bs = take 2 bs @ bs ! 2 # take 3 (drop 3 bs) @ drop 6 bs"
proof -
  have "drop 2 bs = bs ! 2 # drop 3 bs"
    using assms Cons_nth_drop_Suc [of 2 bs] by simp
  moreover have "drop 3 bs = take 3 (drop 3 bs) @ drop 6 bs"
    using append_take_drop_id [of 3 "drop 3 bs"] by simp
  ultimately show ?thesis by (metis append_take_drop_id)
qed

lemma header_deserialize_exact:
  assumes "header_deserialize bs = Inr (h, r)"
  shows "valid_header h \<and> bs = header_bytes h @ r"
proof -
  define e where "e = (of_nat (of_le (take 2 bs)) :: u16)"
  define n where "n = (of_nat (of_le (take 3 (drop 3 bs))) :: u32)"
  have len: "6 \<le> length bs" and h: "h = \<lparr>is_channel_message = bit e 15,
      extension_type = take_bit 15 e, msg_type = bs ! 2, msg_length = Some n\<rparr>" "r = drop 6 bs"
    using assms
    by (auto simp: header_deserialize_def Let_def HEADER_SIZE_def LEN_OFFSET_def LEN_SIZE_def
        e_def n_def and_channel_mask and_not_channel_mask split: if_splits)
  have "length (take 3 (drop 3 bs)) = 3" using len by simp
  then have bound: "of_le (take 3 (drop 3 bs)) < 256 ^ 3"
    using of_le_bound [of "take 3 (drop 3 bs)"] by (simp only:)
  then have un: "unat n = of_le (take 3 (drop 3 bs))"
    by (simp add: n_def unat_of_nat)
  have "valid_header h"
    using bound take_bit_15_less [of e]
    by (simp add: valid_header_def h MAX_LEN_def word_le_nat_alt un)
  moreover have "header_bytes h = take 2 bs @ bs ! 2 # take 3 (drop 3 bs)"
  proof -
    have "extension_field h = e"
      using channel_bit_split [of e] by (simp add: extension_field_eq h)
    moreover have "le_bytes 2 (unat e) = take 2 bs"
      unfolding e_def by (rule of_le_u16_cast) (use len in simp)
    moreover have "le_bytes 3 (unat n) = take 3 (drop 3 bs)"
      unfolding un by (rule le_bytes_of_le) (use len in simp)
    ultimately show ?thesis
      by (simp add: header_bytes_def header_serialize_def h LEN_SIZE_def)
  qed
  ultimately show ?thesis
    using six_bytes [OF len] by (simp add: h)
qed

interpretation v2_header: canonical_codec header_bytes header_deserialize valid_header
  by unfold_locales (fact header_deserialize_bytes, fact header_deserialize_exact)

section \<open>Properties\<close>

lemma header_bytes_serialize:
  "msg_length h = Some n \<Longrightarrow> header_serialize h None = Inr (header_bytes h)"
  by (simp add: header_bytes_def header_serialize_def)

text \<open>
  \<open>Header::serialize\<close> and \<open>Header::deserialize\<close> are inverse to each other on exactly the
  headers with a 15-bit extension type and a 24-bit length: a byte string is read as header
  \<open>h\<close> with \<open>r\<close> left over if and only if \<open>h\<close> is such a header and the byte string is its
  serialization followed by \<open>r\<close>.
\<close>

theorem header_codec:
  "header_deserialize bs = Inr (h, r) \<longleftrightarrow>
     extension_type h < 0x8000 \<and>
     (\<exists>n hb. msg_length h = Some n \<and> n \<le> MAX_LEN \<and> header_serialize h None = Inr hb \<and> bs = hb @ r)"
  unfolding v2_header.dec_iff
  by (auto simp: valid_header_def header_bytes_serialize)

lemma frame_deserialize_bytes:
  assumes "valid_header h" and "msg_length h = Some n" and "unat n = length p"
  shows "frame_deserialize (header_bytes h @ p) = Inr \<lparr>frame_header = h, frame_payload = SerializedBytes p\<rparr>"
  using assms by (simp add: frame_deserialize_def header_deserialize_bytes)

lemma frame_serialize_into:
  assumes "serialize_to_writer ser (frame_payload f) = Inr p"
  shows "frame_serialize ser f dst =
    (Inr (), take HEADER_SIZE dst @
       header_bytes (frame_header f\<lparr>msg_length := Some (of_nat (length (drop HEADER_SIZE dst @ p)))\<rparr>) @
       drop HEADER_SIZE dst @ p)"
  using assms by (simp add: frame_serialize_def header_serialize_some Let_def)

lemma valid_header_len:
  "extension_type h < 0x8000 \<Longrightarrow> n < 2 ^ 24 \<Longrightarrow> valid_header (h\<lparr>msg_length := Some (of_nat n)\<rparr>)"
  by (simp add: valid_header_def MAX_LEN_def word_le_nat_alt unat_of_nat)

lemma unat_len: "n < 2 ^ 24 \<Longrightarrow> unat (of_nat n :: u32) = n"
  by (simp add: unat_of_nat)

lemma header_bytes_len_field:
  assumes "n < 2 ^ 24"
  shows "of_le (take LEN_SIZE (drop LEN_OFFSET (header_bytes (h\<lparr>msg_length := Some (of_nat n)\<rparr>)))) = n"
proof -
  have "n < 256 ^ 3" using assms by simp
  from of_le_le_bytes [OF this] show ?thesis
    by (simp add: header_bytes_def header_serialize_def LEN_SIZE_def LEN_OFFSET_def unat_len [OF assms])
qed

lemma codec_roundtrip:
  fixes f :: "'p frame"
  assumes "length_delimited ldc s0 lim"
    and "serialize_to_writer ser (frame_payload f) = Inr p"
    and "length p \<le> lim" and "length p < 2 ^ 24"
    and "extension_type (frame_header f) < 0x8000"
  shows "\<exists>bs. codec_encode ser f [] = (Inr (), bs) \<and>
    codec_decode ldc s0 (bs @ rest) =
      (s0, rest, Inr (Some \<lparr>frame_header = frame_header f\<lparr>msg_length := Some (of_nat (length p))\<rparr>,
                            frame_payload = SerializedBytes p :: 'p payload\<rparr>))"
proof -
  let ?h = "frame_header f\<lparr>msg_length := Some (of_nat (length p))\<rparr>"
  have "codec_encode ser f [] = (Inr (), header_bytes ?h @ p)"
    using frame_serialize_into [OF assms(2), of "[]"] by (simp add: codec_encode_def)
  moreover have "ldc s0 (header_bytes ?h @ p @ rest) = (s0, rest, Inr (Some (header_bytes ?h @ p)))"
    using assms(1,3) header_bytes_len_field [OF assms(4)] length_header_bytes [of ?h]
    unfolding length_delimited_def by simp
  moreover have "frame_deserialize (header_bytes ?h @ p) =
      (Inr \<lparr>frame_header = ?h, frame_payload = SerializedBytes p\<rparr> :: stratum_error + 'p frame)"
    by (rule frame_deserialize_bytes [OF valid_header_len [OF assms(5,4)]])
      (simp, rule unat_len [OF assms(4)])
  ultimately show ?thesis by (simp add: codec_decode_def)
qed

text \<open>
  End to end through the codec: a frame encoded into an empty buffer, followed by any
  further bytes, is decoded as the same frame (its length field filled in, its payload in
  bytes), and exactly the further bytes stay in the buffer. The hypotheses: the length
  delimited codec does what it documents, the payload serializes and fits the 24-bit length and
  the codec's limit, and the extension type has 15 bits.
\<close>

theorem frame_codec_roundtrip:
  fixes f :: "'p frame"
  assumes "length_delimited ldc s0 lim"
    and "serialize_to_writer ser (frame_payload f) = Inr p"
    and "length p \<le> lim" and "length p < 2 ^ 24"
    and "extension_type (frame_header f) < 0x8000"
  shows "\<exists>bs. codec_encode ser f [] = (Inr (), bs) \<and>
    codec_decode ldc s0 (bs @ rest) =
      (s0, rest, Inr (Some \<lparr>frame_header = frame_header f\<lparr>msg_length := Some (of_nat (length p))\<rparr>,
                            frame_payload = SerializedBytes p :: 'p payload\<rparr>))"
  using assms by (rule codec_roundtrip)

definition example_header :: header where
  "example_header =
     \<lparr>is_channel_message = True, extension_type = 0, msg_type = 0x16, msg_length = None\<rparr>"

definition example_frame :: "bytes frame" where
  "example_frame = \<lparr>frame_header = example_header, frame_payload = LazyBytes [0xde, 0xad, 0xbe, 0xef]\<rparr>"

theorem frame_codec_roundtrip_witness:
  "\<exists>bs. codec_encode Inr example_frame [] = (Inr (), bs) \<and>
    codec_decode (simple_ld 100) () (bs @ [1, 2]) =
      ((), [1, 2], Inr (Some \<lparr>frame_header = example_header\<lparr>msg_length := Some 4\<rparr>,
                            frame_payload = SerializedBytes [0xde, 0xad, 0xbe, 0xef] :: bytes payload\<rparr>))"
proof -
  have "serialize_to_writer Inr (frame_payload example_frame) = Inr [0xde, 0xad, 0xbe, 0xef]"
    "extension_type (frame_header example_frame) < 0x8000"
    by (simp_all add: example_frame_def example_header_def serialize_to_writer_def)
  from frame_codec_roundtrip [OF length_delimited_simple_ld this(1) _ _ this(2), of 100 "[1, 2]"]
  show ?thesis by (simp add: example_frame_def)
qed

text \<open>
  A payload serialized on demand that is 16 MiB or longer is not refused: the length field
  receives the length modulo \<open>2 ^ 24\<close>, and \<open>Frame::deserialize\<close> of the result panics on its
  length assertion.
\<close>

theorem frame_too_long_wraps:
  assumes "serialize_to_writer ser (frame_payload f) = Inr p"
    and "2 ^ 24 \<le> length p" and "length p < 2 ^ 32"
  shows "\<exists>bs. frame_serialize ser f [] = (Inr (), bs) \<and>
    of_le (take LEN_SIZE (drop LEN_OFFSET bs)) = length p mod 2 ^ 24 \<and>
    (frame_deserialize bs :: stratum_error + 'q frame) = Inl (Panic ''BUG: malformed message header'')"
proof -
  let ?h = "frame_header f\<lparr>msg_length := Some (of_nat (length p))\<rparr>"
  let ?bs = "header_bytes ?h @ p"
  have bs: "frame_serialize ser f [] = (Inr (), ?bs)"
    using frame_serialize_into [OF assms(1), of "[]"] by simp
  have hb: "header_bytes ?h = le_bytes 2 (unat (extension_field ?h)) @ msg_type ?h # le_bytes 3 (length p)"
    using assms(3) by (simp add: header_bytes_def header_serialize_def LEN_SIZE_def unat_of_nat)
  have field: "of_le (take 3 (drop 3 ?bs)) = length p mod 2 ^ 24"
    by (simp add: hb of_le_le_bytes_mod)
  have "length p mod 2 ^ 24 \<noteq> length p"
    using assms(2) by (simp add: mod_eq_self_iff_div_eq_0 div_eq_0_iff)
  moreover have "unat (of_nat (length p mod 2 ^ 24) :: u32) = length p mod 2 ^ 24"
    by (rule unat_len) simp
  moreover have "length (header_bytes ?h) = 6"
    by (simp add: hb)
  ultimately have "(frame_deserialize ?bs :: stratum_error + 'q frame) = Inl (Panic ''BUG: malformed message header'')"
    using field
    by (simp add: frame_deserialize_def header_deserialize_def HEADER_SIZE_def LEN_SIZE_def LEN_OFFSET_def Let_def)
  with bs field show ?thesis by (simp add: LEN_SIZE_def LEN_OFFSET_def)
qed

theorem frame_too_long_wraps_witness:
  "\<exists>bs. frame_serialize (\<lambda>n. Inr (replicate n 0)) \<lparr>frame_header = example_header, frame_payload = LazyBytes (2 ^ 24 + 5)\<rparr> [] = (Inr (), bs) \<and>
    of_le (take LEN_SIZE (drop LEN_OFFSET bs)) = 5 \<and>
    (frame_deserialize bs :: stratum_error + bytes frame) = Inl (Panic ''BUG: malformed message header'')"
proof -
  let ?f = "\<lparr>frame_header = example_header, frame_payload = LazyBytes (2 ^ 24 + 5)\<rparr>"
  have "serialize_to_writer (\<lambda>n. Inr (replicate n 0)) (frame_payload ?f) = Inr (replicate (2 ^ 24 + 5) 0)"
    by (simp only: serialize_to_writer_def frame.simps payload.case)
  from frame_too_long_wraps [OF this] show ?thesis
    unfolding length_replicate by simp
qed

text \<open>
  \<open>Frame::serialize\<close> only works on a buffer that holds at most \<open>Header::SIZE\<close> bytes. Into
  a buffer that still holds an encoded frame (header \<open>hf\<close> and payload \<open>p\<close>) a second frame is
  not appended: its header lands between the first header and the first payload, and counts
  the first payload as its own.
\<close>

theorem frame_serialize_unflushed:
  assumes "serialize_to_writer ser (frame_payload f) = Inr p"
    and "serialize_to_writer ser (frame_payload g) = Inr q"
    and "length p + length q < 2 ^ 24"
  shows "\<exists>hf hg. frame_serialize ser f [] = (Inr (), hf @ p) \<and> length hf = HEADER_SIZE \<and>
    length hg = HEADER_SIZE \<and> of_le (take LEN_SIZE (drop LEN_OFFSET hg)) = length p + length q \<and>
    frame_serialize ser g (hf @ p) = (Inr (), hf @ hg @ p @ q)"
proof -
  let ?hf = "header_bytes (frame_header f\<lparr>msg_length := Some (of_nat (length p))\<rparr>)"
  let ?hg = "header_bytes (frame_header g\<lparr>msg_length := Some (of_nat (length p + length q))\<rparr>)"
  have l: "length ?hf = HEADER_SIZE" "length ?hg = HEADER_SIZE"
    by (simp_all add: length_header_bytes)
  have "frame_serialize ser f [] = (Inr (), ?hf @ p)"
    using frame_serialize_into [OF assms(1), of "[]"] by simp
  moreover have "frame_serialize ser g (?hf @ p) = (Inr (), ?hf @ ?hg @ p @ q)"
    using frame_serialize_into [OF assms(2), of "?hf @ p"] l(1) by simp
  ultimately show ?thesis
    using l header_bytes_len_field [OF assms(3)] by blast
qed

theorem frame_serialize_unflushed_witness:
  "\<exists>hf hg. frame_serialize Inr example_frame [] = (Inr (), hf @ [0xde, 0xad, 0xbe, 0xef]) \<and>
    length hg = HEADER_SIZE \<and> of_le (take LEN_SIZE (drop LEN_OFFSET hg)) = 8 \<and>
    frame_serialize Inr example_frame (hf @ [0xde, 0xad, 0xbe, 0xef]) =
      (Inr (), hf @ hg @ [0xde, 0xad, 0xbe, 0xef] @ [0xde, 0xad, 0xbe, 0xef])"
proof -
  have "serialize_to_writer Inr (frame_payload example_frame) = Inr [0xde, 0xad, 0xbe, 0xef]"
    by (simp add: example_frame_def serialize_to_writer_def)
  from frame_serialize_unflushed [OF this this] show ?thesis by auto
qed

end
