(* ===== verification/V2_Messages.thy ===== *)
theory V2_Messages
  imports V2_Framing
begin

text \<open>
  The messages of Stratum V2: \<open>protocols/stratum/src/v2/messages.rs\<close> (base protocol),
  \<open>v2/telemetry/messages.rs\<close> (telemetry extension), \<open>v2/extensions.rs\<close>, and the conversions to and
  from frames that \<open>v2/macros.rs\<close> generates for each of them.

  Every message is a record with the fields of the Rust struct (an \<open>f32\<close> is its bits, a sized
  string or byte string its bytes). \<open>sv_M\<close> and \<open>un_M\<close> are the calls its derived \<open>Serialize\<close>
  and \<open>Deserialize\<close> make, \<open>ty_M\<close> the methods the latter asks for, and \<open>wf_M\<close> the bounds the
  field types keep. The locale \<open>wire_struct\<close> states what the four owe to each other; it is
  interpreted for all 27 messages, and the properties of whole messages follow from it.
\<close>

section \<open>Sizes\<close>

text \<open>The largest serialization of a type.\<close>

definition len_bytes :: "len_type \<Rightarrow> nat" where
  "len_bytes I = (case I of LenU8 \<Rightarrow> 1 | LenU16 \<Rightarrow> 2)"

fun max_size :: "sty \<Rightarrow> nat" and elem_size :: "sty \<Rightarrow> nat" where
  "max_size TBool = 1"
| "max_size TI8 = 1"
| "max_size TI16 = 2"
| "max_size TI32 = 4"
| "max_size TI64 = 8"
| "max_size TU8 = 1"
| "max_size TU16 = 2"
| "max_size TU32 = 4"
| "max_size TU64 = 8"
| "max_size TF32 = 4"
| "max_size TF64 = 8"
| "max_size TChar = 4"
| "max_size TStr = 65537"
| "max_size TString = 65537"
| "max_size TBytes = 65537"
| "max_size TByteBuf = 65537"
| "max_size (TOption t) = 1 + max_size t"
| "max_size (TNewtype name t) =
     (case newtype_bounds name of
        Some (lo, hi, I) \<Rightarrow> len_bytes I + hi * elem_size t
      | None \<Rightarrow> max_size t)"
| "max_size (TEnum ts) = 4 + sum_list (map max_size ts)"
| "max_size (TSeq t) = 2 + 65535 * max_size t"
| "max_size (TTuple ts) = sum_list (map max_size ts)"
| "max_size (TTupleStruct _ ts) = sum_list (map max_size ts)"
| "max_size (TStruct _ ts) = sum_list (map max_size ts)"
| "max_size TIdentifier = 4"
| "max_size _ = 0"
| "elem_size TString = 1"
| "elem_size (TSeq t) = max_size t"
| "elem_size _ = 0"

definition fits :: "nat \<Rightarrow> ser_error + bytes \<Rightarrow> bool" where
  "fits n r \<longleftrightarrow> (\<exists>a. r = Inr a \<and> length a \<le> n)"

lemma fits_and_write: "fits m a \<Longrightarrow> fits n b \<Longrightarrow> m + n \<le> k \<Longrightarrow> fits k (and_write a b)"
  by (auto simp: fits_def and_write_def)

lemma fits_mono: "fits m a \<Longrightarrow> m \<le> n \<Longrightarrow> fits n a"
  by (auto simp: fits_def)

lemma fits_leaves:
  "fits 1 (serialize_bool b)" "fits 1 (serialize_u8 w8)" "fits 2 (serialize_u16 w16)"
  "fits 4 (serialize_u32 w32)" "fits 8 (serialize_u64 w64)" "fits n (Inr [])"
  by (simp_all add: fits_def serialize_bool_def serialize_u8_def serialize_u16_def serialize_u32_def
      serialize_u64_def write_all_def)

lemma fits_len: "n < len_cap I \<Longrightarrow> fits (len_bytes I) (serialize_len I n)"
  by (cases I) (simp_all add: fits_def len_cap_def len_bytes_def serialize_len_def u8_try_from_def
      u16_try_from_def serialize_u8_def serialize_u16_def write_all_def)

lemma fits_write_all: "length s \<le> n \<Longrightarrow> fits n (write_all s)"
  by (simp add: fits_def write_all_def)

lemma fits_counted:
  "n < len_cap I \<Longrightarrow> fits m b \<Longrightarrow> len_bytes I + m \<le> k \<Longrightarrow> fits k (and_write (serialize_len I n) b)"
  by (rule fits_and_write [OF fits_len])

lemma fits_option:
  "fits (Suc n) (serialize_bool b)"
  "fits n a \<Longrightarrow> fits (Suc n) (and_write (serialize_bool b) a)"
  by (auto simp: fits_def and_write_def serialize_bool_def write_all_def)

lemma fits_cons:
  "fits m (serialize v) \<Longrightarrow> fits n (serialize_all vs) \<Longrightarrow>
   fits (m + n) (and_write (serialize v) (serialize_all vs))"
  by (auto simp: fits_def and_write_def)

lemma sum_list_replicate_le:
  "length vs \<le> hi \<Longrightarrow> sum_list (map max_size (replicate (length vs) t)) \<le> hi * max_size t"
  by (simp add: sum_list_replicate)

lemma serialize_fits:
  "has_ty v t \<Longrightarrow> fits (max_size t) (serialize v)"
  "sized_has_ty lo hi v t \<Longrightarrow> hi < len_cap I \<Longrightarrow> fits (len_bytes I + hi * elem_size t) (emit I v)"
  "has_tys vs ts \<Longrightarrow> fits (sum_list (map max_size ts)) (serialize_all vs)"
proof (induction v t and lo hi v t and vs ts arbitrary: and I and rule: has_ty_sized_has_ty_has_tys.induct)
  case (19 name v t)
  then show ?case
    by (cases rule: newtype_cases [of name]) (auto split: sty.splits)
next
  case (20 idx v t)
  then obtain ts where ts: "t = TEnum ts" "unat idx < length ts" "has_ty v (ts ! unat idx)"
    by (auto split: sty.splits)
  have "max_size (ts ! unat idx) \<le> sum_list (map max_size ts)"
    using ts(2) member_le_sum_list [of "max_size (ts ! unat idx)" "map max_size ts"] by auto
  with ts 20 show ?case
    by (auto intro!: fits_and_write [OF fits_leaves(4)])
next
  case (21 len vs t)
  then obtain t' where t: "t = TSeq t'" "len = Some (length vs)" "length vs < 65536"
    "fits (sum_list (map max_size (replicate (length vs) t'))) (serialize_all vs)"
    by (auto split: sty.splits)
  from fits_mono [OF t(4) sum_list_replicate_le [of vs 65535 t']] t show ?case
    by (auto intro!: fits_counted simp: len_cap_def len_bytes_def)
next
  case (27 lo hi len vs t)
  then obtain t' where t: "t = TSeq t'" "len = Some (length vs)" "length vs \<le> hi"
    "fits (sum_list (map max_size (replicate (length vs) t'))) (serialize_all vs)"
    by (auto split: sty.splits)
  from fits_mono [OF t(4) sum_list_replicate_le [OF t(3), of t']] t 27(3) show ?case
    by (auto intro!: fits_counted)
qed (auto simp: fits_leaves fits_leaves [unfolded One_nat_def] serialize_str_eq serialize_bytes_eq
  len_cap_def len_bytes_def split: sty.splits list.splits
  intro!: fits_option fits_cons fits_counted fits_write_all)

lemma serialized_size: "has_ty v t \<Longrightarrow> length (serialized v) \<le> max_size t"
  using serialize_fits(1) [of v t] by (auto simp: fits_def serialized_def)

section \<open>What a message owes its wire form\<close>

locale wire_struct =
  fixes ty :: sty
    and sv :: "'m \<Rightarrow> sval"
    and un :: "sval \<Rightarrow> 'm"
    and wf :: "'m \<Rightarrow> bool"
  assumes ty_wf: "wf_ty ty"
    and sv_ty: "wf m \<Longrightarrow> has_ty (sv m) ty"
    and un_sv: "un (sv m) = m"
    and ty_sv: "has_ty v ty \<Longrightarrow> wf (un v) \<and> sv (un v) = v"
    and ty_size: "max_size ty < 2 ^ 18"
begin

lemma write_struct: "wf m \<Longrightarrow> to_vec (sv m) = Inr (serialized (sv m))"
  by (simp add: to_vec_def serialize_has_ty [OF sv_ty])

lemma struct_size: "wf m \<Longrightarrow> length (serialized (sv m)) < 2 ^ 18"
  using serialized_size [OF sv_ty] ty_size by (rule le_less_trans)

lemma read_write: "wf m \<Longrightarrow> from_slice ty (serialized (sv m)) = Inr (sv m)"
  using deserialize_serialized [OF sv_ty, of m "[]"] by (simp add: from_slice_def)

lemma read_exact:
  assumes "from_slice ty bs = Inr v"
  shows "wf (un v) \<and> to_vec (sv (un v)) = Inr bs"
proof -
  from assms have "deserialize ty bs = Inr (v, [])"
    by (auto simp: from_slice_def result_simps split: if_splits)
  from exactD [OF wf_ty_exact [OF ty_wf] this] have "has_ty v ty" "serialize v = Inr bs"
    by auto
  with ty_sv [of v] show ?thesis by (simp add: to_vec_def)
qed

lemma read_no_panic: "from_slice ty bs \<noteq> Inl Unreachable"
  using wf_ty_no_panic [OF ty_wf]
  by (auto simp: no_panic_def from_slice_def result_simps split: if_splits)

end

lemma sized_has_ty_sv [simp]:
  "has_ty (sv_str n s) (ty_str n) \<longleftrightarrow> wf_str n s"
  "has_ty (sv_bytes n s) (ty_bytes n) \<longleftrightarrow> in_bounds n s"
  by (auto simp: has_ty_str has_ty_bytes sv_str_inject sv_bytes_inject)

lemma fixed_has_ty_sv:
  "length b = 32 \<Longrightarrow> has_ty (sv_uint256 b) ty_uint256"
  "in_bounds n xs \<Longrightarrow> list_all (\<lambda>b. length b = 32) xs \<Longrightarrow>
     has_ty (sv_seq n sv_uint256 xs) (ty_seq n ty_uint256)"
  "wf_device_info d \<Longrightarrow> has_ty (sv_device_info d) ty_device_info"
  by (auto simp: field_ty)

lemma max_size_fields:
  "max_size (ty_str Str0_255) = 256" "max_size (ty_str Str0_32) = 33"
  "max_size (ty_bytes Bytes0_32) = 33" "max_size (ty_bytes Bytes0_64k) = 65537"
  "max_size ty_uint256 = 32" "max_size (ty_seq Seq0_255 ty_uint256) = 8161"
  "max_size ty_device_info = 1024"
proof -
  show u: "max_size ty_uint256 = 32"
    by (simp add: ty_uint256_def newtype_bounds_def sum_list_replicate)
  show "max_size (ty_seq Seq0_255 ty_uint256) = 8161"
    by (simp add: ty_seq_def newtype_bounds_def len_bytes_def u)
qed (simp_all add: ty_str_def ty_bytes_def ty_device_info_def newtype_bounds_def len_bytes_def)

lemmas wire_simps =
  wf_field_ty wf_ty_device_info fixed_has_ty_sv field_un field_ty struct_ty max_size_fields

section \<open>Base protocol\<close>

record SetupConnection =
  sc_protocol :: u8
  sc_min_version :: u16
  sc_max_version :: u16
  sc_flags :: u32
  sc_endpoint_host :: bytes
  sc_endpoint_port :: u16
  sc_device :: device_info

definition sv_SetupConnection :: "SetupConnection \<Rightarrow> sval" where
  "sv_SetupConnection m =
     VStruct ''SetupConnection''
       [VU8 (sc_protocol m), VU16 (sc_min_version m), VU16 (sc_max_version m),
        VU32 (sc_flags m), sv_str Str0_255 (sc_endpoint_host m), VU16 (sc_endpoint_port m),
        sv_device_info (sc_device m)]"

definition ty_SetupConnection :: sty where
  "ty_SetupConnection =
     TStruct ''SetupConnection''
       [TU8, TU16, TU16, TU32, ty_str Str0_255, TU16, ty_device_info]"

definition un_SetupConnection :: "sval \<Rightarrow> SetupConnection" where
  "un_SetupConnection v =
     \<lparr>sc_protocol = un_u8 (un_struct v ! 0), sc_min_version = un_u16 (un_struct v ! 1),
      sc_max_version = un_u16 (un_struct v ! 2), sc_flags = un_u32 (un_struct v ! 3),
      sc_endpoint_host = un_str (un_struct v ! 4), sc_endpoint_port = un_u16 (un_struct v ! 5),
      sc_device = un_device_info (un_struct v ! 6)\<rparr>"

definition wf_SetupConnection :: "SetupConnection \<Rightarrow> bool" where
  "wf_SetupConnection m \<longleftrightarrow> wf_str Str0_255 (sc_endpoint_host m) \<and> wf_device_info (sc_device m)"

record SetupConnectionSuccess =
  scs_used_version :: u16
  scs_flags :: u32

definition sv_SetupConnectionSuccess :: "SetupConnectionSuccess \<Rightarrow> sval" where
  "sv_SetupConnectionSuccess m =
     VStruct ''SetupConnectionSuccess''
       [VU16 (scs_used_version m), VU32 (scs_flags m)]"

definition ty_SetupConnectionSuccess :: sty where
  "ty_SetupConnectionSuccess =
     TStruct ''SetupConnectionSuccess''
       [TU16, TU32]"

definition un_SetupConnectionSuccess :: "sval \<Rightarrow> SetupConnectionSuccess" where
  "un_SetupConnectionSuccess v =
     \<lparr>scs_used_version = un_u16 (un_struct v ! 0), scs_flags = un_u32 (un_struct v ! 1)\<rparr>"

definition wf_SetupConnectionSuccess :: "SetupConnectionSuccess \<Rightarrow> bool" where
  "wf_SetupConnectionSuccess m \<longleftrightarrow> True"

record SetupConnectionError =
  sce_flags :: u32
  sce_code :: bytes

definition sv_SetupConnectionError :: "SetupConnectionError \<Rightarrow> sval" where
  "sv_SetupConnectionError m =
     VStruct ''SetupConnectionError''
       [VU32 (sce_flags m), sv_str Str0_255 (sce_code m)]"

definition ty_SetupConnectionError :: sty where
  "ty_SetupConnectionError =
     TStruct ''SetupConnectionError''
       [TU32, ty_str Str0_255]"

definition un_SetupConnectionError :: "sval \<Rightarrow> SetupConnectionError" where
  "un_SetupConnectionError v =
     \<lparr>sce_flags = un_u32 (un_struct v ! 0), sce_code = un_str (un_struct v ! 1)\<rparr>"

definition wf_SetupConnectionError :: "SetupConnectionError \<Rightarrow> bool" where
  "wf_SetupConnectionError m \<longleftrightarrow> wf_str Str0_255 (sce_code m)"

record ChannelEndpointChanged =
  cec_channel_id :: u32

definition sv_ChannelEndpointChanged :: "ChannelEndpointChanged \<Rightarrow> sval" where
  "sv_ChannelEndpointChanged m =
     VStruct ''ChannelEndpointChanged''
       [VU32 (cec_channel_id m)]"

definition ty_ChannelEndpointChanged :: sty where
  "ty_ChannelEndpointChanged =
     TStruct ''ChannelEndpointChanged''
       [TU32]"

definition un_ChannelEndpointChanged :: "sval \<Rightarrow> ChannelEndpointChanged" where
  "un_ChannelEndpointChanged v =
     \<lparr>cec_channel_id = un_u32 (un_struct v ! 0)\<rparr>"

definition wf_ChannelEndpointChanged :: "ChannelEndpointChanged \<Rightarrow> bool" where
  "wf_ChannelEndpointChanged m \<longleftrightarrow> True"

record OpenStandardMiningChannel =
  osmc_req_id :: u32
  osmc_user :: bytes
  osmc_nominal_hashrate :: u32
  osmc_max_target :: bytes

definition sv_OpenStandardMiningChannel :: "OpenStandardMiningChannel \<Rightarrow> sval" where
  "sv_OpenStandardMiningChannel m =
     VStruct ''OpenStandardMiningChannel''
       [VU32 (osmc_req_id m), sv_str Str0_255 (osmc_user m), VF32 (osmc_nominal_hashrate m),
        sv_uint256 (osmc_max_target m)]"

definition ty_OpenStandardMiningChannel :: sty where
  "ty_OpenStandardMiningChannel =
     TStruct ''OpenStandardMiningChannel''
       [TU32, ty_str Str0_255, TF32, ty_uint256]"

definition un_OpenStandardMiningChannel :: "sval \<Rightarrow> OpenStandardMiningChannel" where
  "un_OpenStandardMiningChannel v =
     \<lparr>osmc_req_id = un_u32 (un_struct v ! 0), osmc_user = un_str (un_struct v ! 1),
      osmc_nominal_hashrate = un_f32 (un_struct v ! 2),
      osmc_max_target = un_seq un_u8 (un_struct v ! 3)\<rparr>"

definition wf_OpenStandardMiningChannel :: "OpenStandardMiningChannel \<Rightarrow> bool" where
  "wf_OpenStandardMiningChannel m \<longleftrightarrow> wf_str Str0_255 (osmc_user m) \<and> length (osmc_max_target m) = 32"

record OpenExtendedMiningChannel =
  oemc_req_id :: u32
  oemc_user :: bytes
  oemc_nominal_hashrate :: u32
  oemc_max_target :: bytes
  oemc_min_extranonce_size :: u16

definition sv_OpenExtendedMiningChannel :: "OpenExtendedMiningChannel \<Rightarrow> sval" where
  "sv_OpenExtendedMiningChannel m =
     VStruct ''OpenExtendedMiningChannel''
       [VU32 (oemc_req_id m), sv_str Str0_255 (oemc_user m), VF32 (oemc_nominal_hashrate m),
        sv_uint256 (oemc_max_target m), VU16 (oemc_min_extranonce_size m)]"

definition ty_OpenExtendedMiningChannel :: sty where
  "ty_OpenExtendedMiningChannel =
     TStruct ''OpenExtendedMiningChannel''
       [TU32, ty_str Str0_255, TF32, ty_uint256, TU16]"

definition un_OpenExtendedMiningChannel :: "sval \<Rightarrow> OpenExtendedMiningChannel" where
  "un_OpenExtendedMiningChannel v =
     \<lparr>oemc_req_id = un_u32 (un_struct v ! 0), oemc_user = un_str (un_struct v ! 1),
      oemc_nominal_hashrate = un_f32 (un_struct v ! 2),
      oemc_max_target = un_seq un_u8 (un_struct v ! 3),
      oemc_min_extranonce_size = un_u16 (un_struct v ! 4)\<rparr>"

definition wf_OpenExtendedMiningChannel :: "OpenExtendedMiningChannel \<Rightarrow> bool" where
  "wf_OpenExtendedMiningChannel m \<longleftrightarrow> wf_str Str0_255 (oemc_user m) \<and> length (oemc_max_target m) = 32"

record OpenExtendedMiningChannelSuccess =
  oemcs_request_id :: u32
  oemcs_channel_id :: u32
  oemcs_target :: bytes
  oemcs_extranonce_size :: u16
  oemcs_extranonce_prefix :: bytes

definition sv_OpenExtendedMiningChannelSuccess :: "OpenExtendedMiningChannelSuccess \<Rightarrow> sval" where
  "sv_OpenExtendedMiningChannelSuccess m =
     VStruct ''OpenExtendedMiningChannelSuccess''
       [VU32 (oemcs_request_id m), VU32 (oemcs_channel_id m), sv_uint256 (oemcs_target m),
        VU16 (oemcs_extranonce_size m), sv_bytes Bytes0_32 (oemcs_extranonce_prefix m)]"

definition ty_OpenExtendedMiningChannelSuccess :: sty where
  "ty_OpenExtendedMiningChannelSuccess =
     TStruct ''OpenExtendedMiningChannelSuccess''
       [TU32, TU32, ty_uint256, TU16, ty_bytes Bytes0_32]"

definition un_OpenExtendedMiningChannelSuccess :: "sval \<Rightarrow> OpenExtendedMiningChannelSuccess" where
  "un_OpenExtendedMiningChannelSuccess v =
     \<lparr>oemcs_request_id = un_u32 (un_struct v ! 0), oemcs_channel_id = un_u32 (un_struct v ! 1),
      oemcs_target = un_seq un_u8 (un_struct v ! 2),
      oemcs_extranonce_size = un_u16 (un_struct v ! 3),
      oemcs_extranonce_prefix = un_seq un_u8 (un_struct v ! 4)\<rparr>"

definition wf_OpenExtendedMiningChannelSuccess :: "OpenExtendedMiningChannelSuccess \<Rightarrow> bool" where
  "wf_OpenExtendedMiningChannelSuccess m \<longleftrightarrow> length (oemcs_target m) = 32 \<and> in_bounds Bytes0_32 (oemcs_extranonce_prefix m)"

record OpenStandardMiningChannelSuccess =
  osmcs_req_id :: u32
  osmcs_channel_id :: u32
  osmcs_target :: bytes
  osmcs_extranonce_prefix :: bytes
  osmcs_group_channel_id :: u32

definition sv_OpenStandardMiningChannelSuccess :: "OpenStandardMiningChannelSuccess \<Rightarrow> sval" where
  "sv_OpenStandardMiningChannelSuccess m =
     VStruct ''OpenStandardMiningChannelSuccess''
       [VU32 (osmcs_req_id m), VU32 (osmcs_channel_id m), sv_uint256 (osmcs_target m),
        sv_bytes Bytes0_32 (osmcs_extranonce_prefix m), VU32 (osmcs_group_channel_id m)]"

definition ty_OpenStandardMiningChannelSuccess :: sty where
  "ty_OpenStandardMiningChannelSuccess =
     TStruct ''OpenStandardMiningChannelSuccess''
       [TU32, TU32, ty_uint256, ty_bytes Bytes0_32, TU32]"

definition un_OpenStandardMiningChannelSuccess :: "sval \<Rightarrow> OpenStandardMiningChannelSuccess" where
  "un_OpenStandardMiningChannelSuccess v =
     \<lparr>osmcs_req_id = un_u32 (un_struct v ! 0), osmcs_channel_id = un_u32 (un_struct v ! 1),
      osmcs_target = un_seq un_u8 (un_struct v ! 2),
      osmcs_extranonce_prefix = un_seq un_u8 (un_struct v ! 3),
      osmcs_group_channel_id = un_u32 (un_struct v ! 4)\<rparr>"

definition wf_OpenStandardMiningChannelSuccess :: "OpenStandardMiningChannelSuccess \<Rightarrow> bool" where
  "wf_OpenStandardMiningChannelSuccess m \<longleftrightarrow> length (osmcs_target m) = 32 \<and> in_bounds Bytes0_32 (osmcs_extranonce_prefix m)"

record OpenMiningChannelError =
  omce_req_id :: u32
  omce_code :: bytes

definition sv_OpenMiningChannelError :: "OpenMiningChannelError \<Rightarrow> sval" where
  "sv_OpenMiningChannelError m =
     VStruct ''OpenMiningChannelError''
       [VU32 (omce_req_id m), sv_str Str0_32 (omce_code m)]"

definition ty_OpenMiningChannelError :: sty where
  "ty_OpenMiningChannelError =
     TStruct ''OpenMiningChannelError''
       [TU32, ty_str Str0_32]"

definition un_OpenMiningChannelError :: "sval \<Rightarrow> OpenMiningChannelError" where
  "un_OpenMiningChannelError v =
     \<lparr>omce_req_id = un_u32 (un_struct v ! 0), omce_code = un_str (un_struct v ! 1)\<rparr>"

definition wf_OpenMiningChannelError :: "OpenMiningChannelError \<Rightarrow> bool" where
  "wf_OpenMiningChannelError m \<longleftrightarrow> wf_str Str0_32 (omce_code m)"

record UpdateChannel =
  uc_channel_id :: u32
  uc_nominal_hash_rate :: u32
  uc_maximum_target :: bytes

definition sv_UpdateChannel :: "UpdateChannel \<Rightarrow> sval" where
  "sv_UpdateChannel m =
     VStruct ''UpdateChannel''
       [VU32 (uc_channel_id m), VF32 (uc_nominal_hash_rate m), sv_uint256 (uc_maximum_target m)]"

definition ty_UpdateChannel :: sty where
  "ty_UpdateChannel =
     TStruct ''UpdateChannel''
       [TU32, TF32, ty_uint256]"

definition un_UpdateChannel :: "sval \<Rightarrow> UpdateChannel" where
  "un_UpdateChannel v =
     \<lparr>uc_channel_id = un_u32 (un_struct v ! 0), uc_nominal_hash_rate = un_f32 (un_struct v ! 1),
      uc_maximum_target = un_seq un_u8 (un_struct v ! 2)\<rparr>"

definition wf_UpdateChannel :: "UpdateChannel \<Rightarrow> bool" where
  "wf_UpdateChannel m \<longleftrightarrow> length (uc_maximum_target m) = 32"

record UpdateChannelError =
  uce_channel_id :: u32
  uce_error_code :: bytes

definition sv_UpdateChannelError :: "UpdateChannelError \<Rightarrow> sval" where
  "sv_UpdateChannelError m =
     VStruct ''UpdateChannelError''
       [VU32 (uce_channel_id m), sv_str Str0_32 (uce_error_code m)]"

definition ty_UpdateChannelError :: sty where
  "ty_UpdateChannelError =
     TStruct ''UpdateChannelError''
       [TU32, ty_str Str0_32]"

definition un_UpdateChannelError :: "sval \<Rightarrow> UpdateChannelError" where
  "un_UpdateChannelError v =
     \<lparr>uce_channel_id = un_u32 (un_struct v ! 0), uce_error_code = un_str (un_struct v ! 1)\<rparr>"

definition wf_UpdateChannelError :: "UpdateChannelError \<Rightarrow> bool" where
  "wf_UpdateChannelError m \<longleftrightarrow> wf_str Str0_32 (uce_error_code m)"

record CloseChannel =
  cc_channel_id :: u32
  cc_reason_code :: bytes

definition sv_CloseChannel :: "CloseChannel \<Rightarrow> sval" where
  "sv_CloseChannel m =
     VStruct ''CloseChannel''
       [VU32 (cc_channel_id m), sv_str Str0_32 (cc_reason_code m)]"

definition ty_CloseChannel :: sty where
  "ty_CloseChannel =
     TStruct ''CloseChannel''
       [TU32, ty_str Str0_32]"

definition un_CloseChannel :: "sval \<Rightarrow> CloseChannel" where
  "un_CloseChannel v =
     \<lparr>cc_channel_id = un_u32 (un_struct v ! 0), cc_reason_code = un_str (un_struct v ! 1)\<rparr>"

definition wf_CloseChannel :: "CloseChannel \<Rightarrow> bool" where
  "wf_CloseChannel m \<longleftrightarrow> wf_str Str0_32 (cc_reason_code m)"

record SubmitSharesStandard =
  sss_channel_id :: u32
  sss_seq_num :: u32
  sss_job_id :: u32
  sss_nonce :: u32
  sss_ntime :: u32
  sss_version :: u32

definition sv_SubmitSharesStandard :: "SubmitSharesStandard \<Rightarrow> sval" where
  "sv_SubmitSharesStandard m =
     VStruct ''SubmitSharesStandard''
       [VU32 (sss_channel_id m), VU32 (sss_seq_num m), VU32 (sss_job_id m), VU32 (sss_nonce m),
        VU32 (sss_ntime m), VU32 (sss_version m)]"

definition ty_SubmitSharesStandard :: sty where
  "ty_SubmitSharesStandard =
     TStruct ''SubmitSharesStandard''
       [TU32, TU32, TU32, TU32, TU32, TU32]"

definition un_SubmitSharesStandard :: "sval \<Rightarrow> SubmitSharesStandard" where
  "un_SubmitSharesStandard v =
     \<lparr>sss_channel_id = un_u32 (un_struct v ! 0), sss_seq_num = un_u32 (un_struct v ! 1),
      sss_job_id = un_u32 (un_struct v ! 2), sss_nonce = un_u32 (un_struct v ! 3),
      sss_ntime = un_u32 (un_struct v ! 4), sss_version = un_u32 (un_struct v ! 5)\<rparr>"

definition wf_SubmitSharesStandard :: "SubmitSharesStandard \<Rightarrow> bool" where
  "wf_SubmitSharesStandard m \<longleftrightarrow> True"

record SubmitSharesExtended =
  sse_channel_id :: u32
  sse_seq_num :: u32
  sse_job_id :: u32
  sse_nonce :: u32
  sse_ntime :: u32
  sse_version :: u32
  sse_extranonce :: bytes

definition sv_SubmitSharesExtended :: "SubmitSharesExtended \<Rightarrow> sval" where
  "sv_SubmitSharesExtended m =
     VStruct ''SubmitSharesExtended''
       [VU32 (sse_channel_id m), VU32 (sse_seq_num m), VU32 (sse_job_id m), VU32 (sse_nonce m),
        VU32 (sse_ntime m), VU32 (sse_version m), sv_bytes Bytes0_32 (sse_extranonce m)]"

definition ty_SubmitSharesExtended :: sty where
  "ty_SubmitSharesExtended =
     TStruct ''SubmitSharesExtended''
       [TU32, TU32, TU32, TU32, TU32, TU32, ty_bytes Bytes0_32]"

definition un_SubmitSharesExtended :: "sval \<Rightarrow> SubmitSharesExtended" where
  "un_SubmitSharesExtended v =
     \<lparr>sse_channel_id = un_u32 (un_struct v ! 0), sse_seq_num = un_u32 (un_struct v ! 1),
      sse_job_id = un_u32 (un_struct v ! 2), sse_nonce = un_u32 (un_struct v ! 3),
      sse_ntime = un_u32 (un_struct v ! 4), sse_version = un_u32 (un_struct v ! 5),
      sse_extranonce = un_seq un_u8 (un_struct v ! 6)\<rparr>"

definition wf_SubmitSharesExtended :: "SubmitSharesExtended \<Rightarrow> bool" where
  "wf_SubmitSharesExtended m \<longleftrightarrow> in_bounds Bytes0_32 (sse_extranonce m)"

record SubmitSharesSuccess =
  ssok_channel_id :: u32
  ssok_last_seq_num :: u32
  ssok_new_submits_accepted_count :: u32
  ssok_new_shares_sum :: u32

definition sv_SubmitSharesSuccess :: "SubmitSharesSuccess \<Rightarrow> sval" where
  "sv_SubmitSharesSuccess m =
     VStruct ''SubmitSharesSuccess''
       [VU32 (ssok_channel_id m), VU32 (ssok_last_seq_num m),
        VU32 (ssok_new_submits_accepted_count m), VU32 (ssok_new_shares_sum m)]"

definition ty_SubmitSharesSuccess :: sty where
  "ty_SubmitSharesSuccess =
     TStruct ''SubmitSharesSuccess''
       [TU32, TU32, TU32, TU32]"

definition un_SubmitSharesSuccess :: "sval \<Rightarrow> SubmitSharesSuccess" where
  "un_SubmitSharesSuccess v =
     \<lparr>ssok_channel_id = un_u32 (un_struct v ! 0), ssok_last_seq_num = un_u32 (un_struct v ! 1),
      ssok_new_submits_accepted_count = un_u32 (un_struct v ! 2),
      ssok_new_shares_sum = un_u32 (un_struct v ! 3)\<rparr>"

definition wf_SubmitSharesSuccess :: "SubmitSharesSuccess \<Rightarrow> bool" where
  "wf_SubmitSharesSuccess m \<longleftrightarrow> True"

record SubmitSharesError =
  sserr_channel_id :: u32
  sserr_seq_num :: u32
  sserr_code :: bytes

definition sv_SubmitSharesError :: "SubmitSharesError \<Rightarrow> sval" where
  "sv_SubmitSharesError m =
     VStruct ''SubmitSharesError''
       [VU32 (sserr_channel_id m), VU32 (sserr_seq_num m), sv_str Str0_32 (sserr_code m)]"

definition ty_SubmitSharesError :: sty where
  "ty_SubmitSharesError =
     TStruct ''SubmitSharesError''
       [TU32, TU32, ty_str Str0_32]"

definition un_SubmitSharesError :: "sval \<Rightarrow> SubmitSharesError" where
  "un_SubmitSharesError v =
     \<lparr>sserr_channel_id = un_u32 (un_struct v ! 0), sserr_seq_num = un_u32 (un_struct v ! 1),
      sserr_code = un_str (un_struct v ! 2)\<rparr>"

definition wf_SubmitSharesError :: "SubmitSharesError \<Rightarrow> bool" where
  "wf_SubmitSharesError m \<longleftrightarrow> wf_str Str0_32 (sserr_code m)"

record NewMiningJob =
  nmj_channel_id :: u32
  nmj_job_id :: u32
  nmj_future_job :: bool
  nmj_version :: u32
  nmj_merkle_root :: bytes

definition sv_NewMiningJob :: "NewMiningJob \<Rightarrow> sval" where
  "sv_NewMiningJob m =
     VStruct ''NewMiningJob''
       [VU32 (nmj_channel_id m), VU32 (nmj_job_id m), VBool (nmj_future_job m),
        VU32 (nmj_version m), sv_uint256 (nmj_merkle_root m)]"

definition ty_NewMiningJob :: sty where
  "ty_NewMiningJob =
     TStruct ''NewMiningJob''
       [TU32, TU32, TBool, TU32, ty_uint256]"

definition un_NewMiningJob :: "sval \<Rightarrow> NewMiningJob" where
  "un_NewMiningJob v =
     \<lparr>nmj_channel_id = un_u32 (un_struct v ! 0), nmj_job_id = un_u32 (un_struct v ! 1),
      nmj_future_job = un_bool (un_struct v ! 2), nmj_version = un_u32 (un_struct v ! 3),
      nmj_merkle_root = un_seq un_u8 (un_struct v ! 4)\<rparr>"

definition wf_NewMiningJob :: "NewMiningJob \<Rightarrow> bool" where
  "wf_NewMiningJob m \<longleftrightarrow> length (nmj_merkle_root m) = 32"

record NewExtendedMiningJob =
  nemj_channel_id :: u32
  nemj_job_id :: u32
  nemj_future_job :: bool
  nemj_version :: u32
  nemj_version_rolling_allowed :: bool
  nemj_merkle_path :: "bytes list"
  nemj_coinbase_tx_prefix :: bytes
  nemj_coinbase_tx_suffix :: bytes

definition sv_NewExtendedMiningJob :: "NewExtendedMiningJob \<Rightarrow> sval" where
  "sv_NewExtendedMiningJob m =
     VStruct ''NewExtendedMiningJob''
       [VU32 (nemj_channel_id m), VU32 (nemj_job_id m), VBool (nemj_future_job m),
        VU32 (nemj_version m), VBool (nemj_version_rolling_allowed m),
        sv_seq Seq0_255 sv_uint256 (nemj_merkle_path m),
        sv_bytes Bytes0_64k (nemj_coinbase_tx_prefix m),
        sv_bytes Bytes0_64k (nemj_coinbase_tx_suffix m)]"

definition ty_NewExtendedMiningJob :: sty where
  "ty_NewExtendedMiningJob =
     TStruct ''NewExtendedMiningJob''
       [TU32, TU32, TBool, TU32, TBool, ty_seq Seq0_255 ty_uint256, ty_bytes Bytes0_64k,
        ty_bytes Bytes0_64k]"

definition un_NewExtendedMiningJob :: "sval \<Rightarrow> NewExtendedMiningJob" where
  "un_NewExtendedMiningJob v =
     \<lparr>nemj_channel_id = un_u32 (un_struct v ! 0), nemj_job_id = un_u32 (un_struct v ! 1),
      nemj_future_job = un_bool (un_struct v ! 2), nemj_version = un_u32 (un_struct v ! 3),
      nemj_version_rolling_allowed = un_bool (un_struct v ! 4),
      nemj_merkle_path = un_seq (un_seq un_u8) (un_struct v ! 5),
      nemj_coinbase_tx_prefix = un_seq un_u8 (un_struct v ! 6),
      nemj_coinbase_tx_suffix = un_seq un_u8 (un_struct v ! 7)\<rparr>"

definition wf_NewExtendedMiningJob :: "NewExtendedMiningJob \<Rightarrow> bool" where
  "wf_NewExtendedMiningJob m \<longleftrightarrow> in_bounds Seq0_255 (nemj_merkle_path m) \<and> list_all (\<lambda>b. length b = 32) (nemj_merkle_path m) \<and>
     in_bounds Bytes0_64k (nemj_coinbase_tx_prefix m) \<and>
     in_bounds Bytes0_64k (nemj_coinbase_tx_suffix m)"

record SetNewPrevHash =
  snph_channel_id :: u32
  snph_job_id :: u32
  snph_prev_hash :: bytes
  snph_min_ntime :: u32
  snph_nbits :: u32

definition sv_SetNewPrevHash :: "SetNewPrevHash \<Rightarrow> sval" where
  "sv_SetNewPrevHash m =
     VStruct ''SetNewPrevHash''
       [VU32 (snph_channel_id m), VU32 (snph_job_id m), sv_uint256 (snph_prev_hash m),
        VU32 (snph_min_ntime m), VU32 (snph_nbits m)]"

definition ty_SetNewPrevHash :: sty where
  "ty_SetNewPrevHash =
     TStruct ''SetNewPrevHash''
       [TU32, TU32, ty_uint256, TU32, TU32]"

definition un_SetNewPrevHash :: "sval \<Rightarrow> SetNewPrevHash" where
  "un_SetNewPrevHash v =
     \<lparr>snph_channel_id = un_u32 (un_struct v ! 0), snph_job_id = un_u32 (un_struct v ! 1),
      snph_prev_hash = un_seq un_u8 (un_struct v ! 2),
      snph_min_ntime = un_u32 (un_struct v ! 3), snph_nbits = un_u32 (un_struct v ! 4)\<rparr>"

definition wf_SetNewPrevHash :: "SetNewPrevHash \<Rightarrow> bool" where
  "wf_SetNewPrevHash m \<longleftrightarrow> length (snph_prev_hash m) = 32"

record SetTarget =
  st_channel_id :: u32
  st_max_target :: bytes

definition sv_SetTarget :: "SetTarget \<Rightarrow> sval" where
  "sv_SetTarget m =
     VStruct ''SetTarget''
       [VU32 (st_channel_id m), sv_uint256 (st_max_target m)]"

definition ty_SetTarget :: sty where
  "ty_SetTarget =
     TStruct ''SetTarget''
       [TU32, ty_uint256]"

definition un_SetTarget :: "sval \<Rightarrow> SetTarget" where
  "un_SetTarget v =
     \<lparr>st_channel_id = un_u32 (un_struct v ! 0), st_max_target = un_seq un_u8 (un_struct v ! 1)\<rparr>"

definition wf_SetTarget :: "SetTarget \<Rightarrow> bool" where
  "wf_SetTarget m \<longleftrightarrow> length (st_max_target m) = 32"

record Reconnect =
  rc_new_host :: bytes
  rc_new_port :: u16

definition sv_Reconnect :: "Reconnect \<Rightarrow> sval" where
  "sv_Reconnect m =
     VStruct ''Reconnect''
       [sv_str Str0_255 (rc_new_host m), VU16 (rc_new_port m)]"

definition ty_Reconnect :: sty where
  "ty_Reconnect =
     TStruct ''Reconnect''
       [ty_str Str0_255, TU16]"

definition un_Reconnect :: "sval \<Rightarrow> Reconnect" where
  "un_Reconnect v =
     \<lparr>rc_new_host = un_str (un_struct v ! 0), rc_new_port = un_u16 (un_struct v ! 1)\<rparr>"

definition wf_Reconnect :: "Reconnect \<Rightarrow> bool" where
  "wf_Reconnect m \<longleftrightarrow> wf_str Str0_255 (rc_new_host m)"

section \<open>Telemetry extension\<close>

record OpenTelemetryChannel =
  otc_req_id :: u32
  otc_dev_id :: bytes

definition sv_OpenTelemetryChannel :: "OpenTelemetryChannel \<Rightarrow> sval" where
  "sv_OpenTelemetryChannel m =
     VStruct ''OpenTelemetryChannel''
       [VU32 (otc_req_id m), sv_str Str0_255 (otc_dev_id m)]"

definition ty_OpenTelemetryChannel :: sty where
  "ty_OpenTelemetryChannel =
     TStruct ''OpenTelemetryChannel''
       [TU32, ty_str Str0_255]"

definition un_OpenTelemetryChannel :: "sval \<Rightarrow> OpenTelemetryChannel" where
  "un_OpenTelemetryChannel v =
     \<lparr>otc_req_id = un_u32 (un_struct v ! 0), otc_dev_id = un_str (un_struct v ! 1)\<rparr>"

definition wf_OpenTelemetryChannel :: "OpenTelemetryChannel \<Rightarrow> bool" where
  "wf_OpenTelemetryChannel m \<longleftrightarrow> wf_str Str0_255 (otc_dev_id m)"

record OpenTelemetryChannelSuccess =
  otcs_req_id :: u32
  otcs_channel_id :: u32

definition sv_OpenTelemetryChannelSuccess :: "OpenTelemetryChannelSuccess \<Rightarrow> sval" where
  "sv_OpenTelemetryChannelSuccess m =
     VStruct ''OpenTelemetryChannelSuccess''
       [VU32 (otcs_req_id m), VU32 (otcs_channel_id m)]"

definition ty_OpenTelemetryChannelSuccess :: sty where
  "ty_OpenTelemetryChannelSuccess =
     TStruct ''OpenTelemetryChannelSuccess''
       [TU32, TU32]"

definition un_OpenTelemetryChannelSuccess :: "sval \<Rightarrow> OpenTelemetryChannelSuccess" where
  "un_OpenTelemetryChannelSuccess v =
     \<lparr>otcs_req_id = un_u32 (un_struct v ! 0), otcs_channel_id = un_u32 (un_struct v ! 1)\<rparr>"

definition wf_OpenTelemetryChannelSuccess :: "OpenTelemetryChannelSuccess \<Rightarrow> bool" where
  "wf_OpenTelemetryChannelSuccess m \<longleftrightarrow> True"

record OpenTelemetryChannelError =
  otce_req_id :: u32
  otce_code :: bytes

definition sv_OpenTelemetryChannelError :: "OpenTelemetryChannelError \<Rightarrow> sval" where
  "sv_OpenTelemetryChannelError m =
     VStruct ''OpenTelemetryChannelError''
       [VU32 (otce_req_id m), sv_str Str0_32 (otce_code m)]"

definition ty_OpenTelemetryChannelError :: sty where
  "ty_OpenTelemetryChannelError =
     TStruct ''OpenTelemetryChannelError''
       [TU32, ty_str Str0_32]"

definition un_OpenTelemetryChannelError :: "sval \<Rightarrow> OpenTelemetryChannelError" where
  "un_OpenTelemetryChannelError v =
     \<lparr>otce_req_id = un_u32 (un_struct v ! 0), otce_code = un_str (un_struct v ! 1)\<rparr>"

definition wf_OpenTelemetryChannelError :: "OpenTelemetryChannelError \<Rightarrow> bool" where
  "wf_OpenTelemetryChannelError m \<longleftrightarrow> wf_str Str0_32 (otce_code m)"

record SubmitTelemetryData =
  std_channel_id :: u32
  std_seq_num :: u32
  std_telemetry_payload :: bytes

definition sv_SubmitTelemetryData :: "SubmitTelemetryData \<Rightarrow> sval" where
  "sv_SubmitTelemetryData m =
     VStruct ''SubmitTelemetryData''
       [VU32 (std_channel_id m), VU32 (std_seq_num m),
        sv_bytes Bytes0_64k (std_telemetry_payload m)]"

definition ty_SubmitTelemetryData :: sty where
  "ty_SubmitTelemetryData =
     TStruct ''SubmitTelemetryData''
       [TU32, TU32, ty_bytes Bytes0_64k]"

definition un_SubmitTelemetryData :: "sval \<Rightarrow> SubmitTelemetryData" where
  "un_SubmitTelemetryData v =
     \<lparr>std_channel_id = un_u32 (un_struct v ! 0), std_seq_num = un_u32 (un_struct v ! 1),
      std_telemetry_payload = un_seq un_u8 (un_struct v ! 2)\<rparr>"

definition wf_SubmitTelemetryData :: "SubmitTelemetryData \<Rightarrow> bool" where
  "wf_SubmitTelemetryData m \<longleftrightarrow> in_bounds Bytes0_64k (std_telemetry_payload m)"

record SubmitTelemetryDataSuccess =
  stds_channel_id :: u32
  stds_last_seq_num :: u32

definition sv_SubmitTelemetryDataSuccess :: "SubmitTelemetryDataSuccess \<Rightarrow> sval" where
  "sv_SubmitTelemetryDataSuccess m =
     VStruct ''SubmitTelemetryDataSuccess''
       [VU32 (stds_channel_id m), VU32 (stds_last_seq_num m)]"

definition ty_SubmitTelemetryDataSuccess :: sty where
  "ty_SubmitTelemetryDataSuccess =
     TStruct ''SubmitTelemetryDataSuccess''
       [TU32, TU32]"

definition un_SubmitTelemetryDataSuccess :: "sval \<Rightarrow> SubmitTelemetryDataSuccess" where
  "un_SubmitTelemetryDataSuccess v =
     \<lparr>stds_channel_id = un_u32 (un_struct v ! 0), stds_last_seq_num = un_u32 (un_struct v ! 1)\<rparr>"

definition wf_SubmitTelemetryDataSuccess :: "SubmitTelemetryDataSuccess \<Rightarrow> bool" where
  "wf_SubmitTelemetryDataSuccess m \<longleftrightarrow> True"

record SubmitTelemetryDataError =
  stde_channel_id :: u32
  stde_seq_num :: u32
  stde_code :: bytes

definition sv_SubmitTelemetryDataError :: "SubmitTelemetryDataError \<Rightarrow> sval" where
  "sv_SubmitTelemetryDataError m =
     VStruct ''SubmitTelemetryDataError''
       [VU32 (stde_channel_id m), VU32 (stde_seq_num m), sv_str Str0_32 (stde_code m)]"

definition ty_SubmitTelemetryDataError :: sty where
  "ty_SubmitTelemetryDataError =
     TStruct ''SubmitTelemetryDataError''
       [TU32, TU32, ty_str Str0_32]"

definition un_SubmitTelemetryDataError :: "sval \<Rightarrow> SubmitTelemetryDataError" where
  "un_SubmitTelemetryDataError v =
     \<lparr>stde_channel_id = un_u32 (un_struct v ! 0), stde_seq_num = un_u32 (un_struct v ! 1),
      stde_code = un_str (un_struct v ! 2)\<rparr>"

definition wf_SubmitTelemetryDataError :: "SubmitTelemetryDataError \<Rightarrow> bool" where
  "wf_SubmitTelemetryDataError m \<longleftrightarrow> wf_str Str0_32 (stde_code m)"

section \<open>All messages\<close>

text \<open>
  One constructor per struct, and the kinds of messages, which carry what the \<open>#[id(..)]\<close>
  attributes and the \<open>impl_*_message_conversion!\<close> calls say of each struct.
\<close>

datatype msg_kind =
    K_SetupConnection
  | K_SetupConnectionSuccess
  | K_SetupConnectionError
  | K_ChannelEndpointChanged
  | K_OpenStandardMiningChannel
  | K_OpenExtendedMiningChannel
  | K_OpenExtendedMiningChannelSuccess
  | K_OpenStandardMiningChannelSuccess
  | K_OpenMiningChannelError
  | K_UpdateChannel
  | K_UpdateChannelError
  | K_CloseChannel
  | K_SubmitSharesStandard
  | K_SubmitSharesExtended
  | K_SubmitSharesSuccess
  | K_SubmitSharesError
  | K_NewMiningJob
  | K_NewExtendedMiningJob
  | K_SetNewPrevHash
  | K_SetTarget
  | K_Reconnect
  | K_OpenTelemetryChannel
  | K_OpenTelemetryChannelSuccess
  | K_OpenTelemetryChannelError
  | K_SubmitTelemetryData
  | K_SubmitTelemetryDataSuccess
  | K_SubmitTelemetryDataError

datatype v2_message =
    M_SetupConnection SetupConnection
  | M_SetupConnectionSuccess SetupConnectionSuccess
  | M_SetupConnectionError SetupConnectionError
  | M_ChannelEndpointChanged ChannelEndpointChanged
  | M_OpenStandardMiningChannel OpenStandardMiningChannel
  | M_OpenExtendedMiningChannel OpenExtendedMiningChannel
  | M_OpenExtendedMiningChannelSuccess OpenExtendedMiningChannelSuccess
  | M_OpenStandardMiningChannelSuccess OpenStandardMiningChannelSuccess
  | M_OpenMiningChannelError OpenMiningChannelError
  | M_UpdateChannel UpdateChannel
  | M_UpdateChannelError UpdateChannelError
  | M_CloseChannel CloseChannel
  | M_SubmitSharesStandard SubmitSharesStandard
  | M_SubmitSharesExtended SubmitSharesExtended
  | M_SubmitSharesSuccess SubmitSharesSuccess
  | M_SubmitSharesError SubmitSharesError
  | M_NewMiningJob NewMiningJob
  | M_NewExtendedMiningJob NewExtendedMiningJob
  | M_SetNewPrevHash SetNewPrevHash
  | M_SetTarget SetTarget
  | M_Reconnect Reconnect
  | M_OpenTelemetryChannel OpenTelemetryChannel
  | M_OpenTelemetryChannelSuccess OpenTelemetryChannelSuccess
  | M_OpenTelemetryChannelError OpenTelemetryChannelError
  | M_SubmitTelemetryData SubmitTelemetryData
  | M_SubmitTelemetryDataSuccess SubmitTelemetryDataSuccess
  | M_SubmitTelemetryDataError SubmitTelemetryDataError

fun kind_of :: "v2_message \<Rightarrow> msg_kind" where
  "kind_of (M_SetupConnection _) = K_SetupConnection"
| "kind_of (M_SetupConnectionSuccess _) = K_SetupConnectionSuccess"
| "kind_of (M_SetupConnectionError _) = K_SetupConnectionError"
| "kind_of (M_ChannelEndpointChanged _) = K_ChannelEndpointChanged"
| "kind_of (M_OpenStandardMiningChannel _) = K_OpenStandardMiningChannel"
| "kind_of (M_OpenExtendedMiningChannel _) = K_OpenExtendedMiningChannel"
| "kind_of (M_OpenExtendedMiningChannelSuccess _) = K_OpenExtendedMiningChannelSuccess"
| "kind_of (M_OpenStandardMiningChannelSuccess _) = K_OpenStandardMiningChannelSuccess"
| "kind_of (M_OpenMiningChannelError _) = K_OpenMiningChannelError"
| "kind_of (M_UpdateChannel _) = K_UpdateChannel"
| "kind_of (M_UpdateChannelError _) = K_UpdateChannelError"
| "kind_of (M_CloseChannel _) = K_CloseChannel"
| "kind_of (M_SubmitSharesStandard _) = K_SubmitSharesStandard"
| "kind_of (M_SubmitSharesExtended _) = K_SubmitSharesExtended"
| "kind_of (M_SubmitSharesSuccess _) = K_SubmitSharesSuccess"
| "kind_of (M_SubmitSharesError _) = K_SubmitSharesError"
| "kind_of (M_NewMiningJob _) = K_NewMiningJob"
| "kind_of (M_NewExtendedMiningJob _) = K_NewExtendedMiningJob"
| "kind_of (M_SetNewPrevHash _) = K_SetNewPrevHash"
| "kind_of (M_SetTarget _) = K_SetTarget"
| "kind_of (M_Reconnect _) = K_Reconnect"
| "kind_of (M_OpenTelemetryChannel _) = K_OpenTelemetryChannel"
| "kind_of (M_OpenTelemetryChannelSuccess _) = K_OpenTelemetryChannelSuccess"
| "kind_of (M_OpenTelemetryChannelError _) = K_OpenTelemetryChannelError"
| "kind_of (M_SubmitTelemetryData _) = K_SubmitTelemetryData"
| "kind_of (M_SubmitTelemetryDataSuccess _) = K_SubmitTelemetryDataSuccess"
| "kind_of (M_SubmitTelemetryDataError _) = K_SubmitTelemetryDataError"

fun msg_id :: "msg_kind \<Rightarrow> u8" where
  "msg_id K_SetupConnection = 0x00"
| "msg_id K_SetupConnectionSuccess = 0x01"
| "msg_id K_SetupConnectionError = 0x02"
| "msg_id K_ChannelEndpointChanged = 0x03"
| "msg_id K_OpenStandardMiningChannel = 0x10"
| "msg_id K_OpenExtendedMiningChannel = 0x13"
| "msg_id K_OpenExtendedMiningChannelSuccess = 0x14"
| "msg_id K_OpenStandardMiningChannelSuccess = 0x11"
| "msg_id K_OpenMiningChannelError = 0x12"
| "msg_id K_UpdateChannel = 0x16"
| "msg_id K_UpdateChannelError = 0x17"
| "msg_id K_CloseChannel = 0x18"
| "msg_id K_SubmitSharesStandard = 0x1a"
| "msg_id K_SubmitSharesExtended = 0x1b"
| "msg_id K_SubmitSharesSuccess = 0x1c"
| "msg_id K_SubmitSharesError = 0x1d"
| "msg_id K_NewMiningJob = 0x1e"
| "msg_id K_NewExtendedMiningJob = 0x1f"
| "msg_id K_SetNewPrevHash = 0x20"
| "msg_id K_SetTarget = 0x21"
| "msg_id K_Reconnect = 0x25"
| "msg_id K_OpenTelemetryChannel = 0x00"
| "msg_id K_OpenTelemetryChannelSuccess = 0x01"
| "msg_id K_OpenTelemetryChannelError = 0x02"
| "msg_id K_SubmitTelemetryData = 0x03"
| "msg_id K_SubmitTelemetryDataSuccess = 0x04"
| "msg_id K_SubmitTelemetryDataError = 0x05"

definition BASE :: u16 where "BASE = 0x0000"
definition TELEMETRY :: u16 where "TELEMETRY = 0x0001"

fun msg_extension :: "msg_kind \<Rightarrow> u16" where
  "msg_extension K_SetupConnection = BASE"
| "msg_extension K_SetupConnectionSuccess = BASE"
| "msg_extension K_SetupConnectionError = BASE"
| "msg_extension K_ChannelEndpointChanged = BASE"
| "msg_extension K_OpenStandardMiningChannel = BASE"
| "msg_extension K_OpenExtendedMiningChannel = BASE"
| "msg_extension K_OpenExtendedMiningChannelSuccess = BASE"
| "msg_extension K_OpenStandardMiningChannelSuccess = BASE"
| "msg_extension K_OpenMiningChannelError = BASE"
| "msg_extension K_UpdateChannel = BASE"
| "msg_extension K_UpdateChannelError = BASE"
| "msg_extension K_CloseChannel = BASE"
| "msg_extension K_SubmitSharesStandard = BASE"
| "msg_extension K_SubmitSharesExtended = BASE"
| "msg_extension K_SubmitSharesSuccess = BASE"
| "msg_extension K_SubmitSharesError = BASE"
| "msg_extension K_NewMiningJob = BASE"
| "msg_extension K_NewExtendedMiningJob = BASE"
| "msg_extension K_SetNewPrevHash = BASE"
| "msg_extension K_SetTarget = BASE"
| "msg_extension K_Reconnect = BASE"
| "msg_extension K_OpenTelemetryChannel = TELEMETRY"
| "msg_extension K_OpenTelemetryChannelSuccess = TELEMETRY"
| "msg_extension K_OpenTelemetryChannelError = TELEMETRY"
| "msg_extension K_SubmitTelemetryData = TELEMETRY"
| "msg_extension K_SubmitTelemetryDataSuccess = TELEMETRY"
| "msg_extension K_SubmitTelemetryDataError = TELEMETRY"

fun is_channel_msg :: "msg_kind \<Rightarrow> bool" where
  "is_channel_msg K_SetupConnection = False"
| "is_channel_msg K_SetupConnectionSuccess = False"
| "is_channel_msg K_SetupConnectionError = False"
| "is_channel_msg K_ChannelEndpointChanged = False"
| "is_channel_msg K_OpenStandardMiningChannel = False"
| "is_channel_msg K_OpenExtendedMiningChannel = False"
| "is_channel_msg K_OpenExtendedMiningChannelSuccess = False"
| "is_channel_msg K_OpenStandardMiningChannelSuccess = False"
| "is_channel_msg K_OpenMiningChannelError = False"
| "is_channel_msg K_UpdateChannel = True"
| "is_channel_msg K_UpdateChannelError = True"
| "is_channel_msg K_CloseChannel = True"
| "is_channel_msg K_SubmitSharesStandard = True"
| "is_channel_msg K_SubmitSharesExtended = True"
| "is_channel_msg K_SubmitSharesSuccess = True"
| "is_channel_msg K_SubmitSharesError = True"
| "is_channel_msg K_NewMiningJob = True"
| "is_channel_msg K_NewExtendedMiningJob = True"
| "is_channel_msg K_SetNewPrevHash = True"
| "is_channel_msg K_SetTarget = True"
| "is_channel_msg K_Reconnect = False"
| "is_channel_msg K_OpenTelemetryChannel = False"
| "is_channel_msg K_OpenTelemetryChannelSuccess = False"
| "is_channel_msg K_OpenTelemetryChannelError = False"
| "is_channel_msg K_SubmitTelemetryData = False"
| "is_channel_msg K_SubmitTelemetryDataSuccess = False"
| "is_channel_msg K_SubmitTelemetryDataError = False"

fun msg_sval :: "v2_message \<Rightarrow> sval" where
  "msg_sval (M_SetupConnection m) = sv_SetupConnection m"
| "msg_sval (M_SetupConnectionSuccess m) = sv_SetupConnectionSuccess m"
| "msg_sval (M_SetupConnectionError m) = sv_SetupConnectionError m"
| "msg_sval (M_ChannelEndpointChanged m) = sv_ChannelEndpointChanged m"
| "msg_sval (M_OpenStandardMiningChannel m) = sv_OpenStandardMiningChannel m"
| "msg_sval (M_OpenExtendedMiningChannel m) = sv_OpenExtendedMiningChannel m"
| "msg_sval (M_OpenExtendedMiningChannelSuccess m) = sv_OpenExtendedMiningChannelSuccess m"
| "msg_sval (M_OpenStandardMiningChannelSuccess m) = sv_OpenStandardMiningChannelSuccess m"
| "msg_sval (M_OpenMiningChannelError m) = sv_OpenMiningChannelError m"
| "msg_sval (M_UpdateChannel m) = sv_UpdateChannel m"
| "msg_sval (M_UpdateChannelError m) = sv_UpdateChannelError m"
| "msg_sval (M_CloseChannel m) = sv_CloseChannel m"
| "msg_sval (M_SubmitSharesStandard m) = sv_SubmitSharesStandard m"
| "msg_sval (M_SubmitSharesExtended m) = sv_SubmitSharesExtended m"
| "msg_sval (M_SubmitSharesSuccess m) = sv_SubmitSharesSuccess m"
| "msg_sval (M_SubmitSharesError m) = sv_SubmitSharesError m"
| "msg_sval (M_NewMiningJob m) = sv_NewMiningJob m"
| "msg_sval (M_NewExtendedMiningJob m) = sv_NewExtendedMiningJob m"
| "msg_sval (M_SetNewPrevHash m) = sv_SetNewPrevHash m"
| "msg_sval (M_SetTarget m) = sv_SetTarget m"
| "msg_sval (M_Reconnect m) = sv_Reconnect m"
| "msg_sval (M_OpenTelemetryChannel m) = sv_OpenTelemetryChannel m"
| "msg_sval (M_OpenTelemetryChannelSuccess m) = sv_OpenTelemetryChannelSuccess m"
| "msg_sval (M_OpenTelemetryChannelError m) = sv_OpenTelemetryChannelError m"
| "msg_sval (M_SubmitTelemetryData m) = sv_SubmitTelemetryData m"
| "msg_sval (M_SubmitTelemetryDataSuccess m) = sv_SubmitTelemetryDataSuccess m"
| "msg_sval (M_SubmitTelemetryDataError m) = sv_SubmitTelemetryDataError m"

fun msg_ty :: "msg_kind \<Rightarrow> sty" where
  "msg_ty K_SetupConnection = ty_SetupConnection"
| "msg_ty K_SetupConnectionSuccess = ty_SetupConnectionSuccess"
| "msg_ty K_SetupConnectionError = ty_SetupConnectionError"
| "msg_ty K_ChannelEndpointChanged = ty_ChannelEndpointChanged"
| "msg_ty K_OpenStandardMiningChannel = ty_OpenStandardMiningChannel"
| "msg_ty K_OpenExtendedMiningChannel = ty_OpenExtendedMiningChannel"
| "msg_ty K_OpenExtendedMiningChannelSuccess = ty_OpenExtendedMiningChannelSuccess"
| "msg_ty K_OpenStandardMiningChannelSuccess = ty_OpenStandardMiningChannelSuccess"
| "msg_ty K_OpenMiningChannelError = ty_OpenMiningChannelError"
| "msg_ty K_UpdateChannel = ty_UpdateChannel"
| "msg_ty K_UpdateChannelError = ty_UpdateChannelError"
| "msg_ty K_CloseChannel = ty_CloseChannel"
| "msg_ty K_SubmitSharesStandard = ty_SubmitSharesStandard"
| "msg_ty K_SubmitSharesExtended = ty_SubmitSharesExtended"
| "msg_ty K_SubmitSharesSuccess = ty_SubmitSharesSuccess"
| "msg_ty K_SubmitSharesError = ty_SubmitSharesError"
| "msg_ty K_NewMiningJob = ty_NewMiningJob"
| "msg_ty K_NewExtendedMiningJob = ty_NewExtendedMiningJob"
| "msg_ty K_SetNewPrevHash = ty_SetNewPrevHash"
| "msg_ty K_SetTarget = ty_SetTarget"
| "msg_ty K_Reconnect = ty_Reconnect"
| "msg_ty K_OpenTelemetryChannel = ty_OpenTelemetryChannel"
| "msg_ty K_OpenTelemetryChannelSuccess = ty_OpenTelemetryChannelSuccess"
| "msg_ty K_OpenTelemetryChannelError = ty_OpenTelemetryChannelError"
| "msg_ty K_SubmitTelemetryData = ty_SubmitTelemetryData"
| "msg_ty K_SubmitTelemetryDataSuccess = ty_SubmitTelemetryDataSuccess"
| "msg_ty K_SubmitTelemetryDataError = ty_SubmitTelemetryDataError"

fun msg_of_sval :: "msg_kind \<Rightarrow> sval \<Rightarrow> v2_message" where
  "msg_of_sval K_SetupConnection v = M_SetupConnection (un_SetupConnection v)"
| "msg_of_sval K_SetupConnectionSuccess v = M_SetupConnectionSuccess (un_SetupConnectionSuccess v)"
| "msg_of_sval K_SetupConnectionError v = M_SetupConnectionError (un_SetupConnectionError v)"
| "msg_of_sval K_ChannelEndpointChanged v = M_ChannelEndpointChanged (un_ChannelEndpointChanged v)"
| "msg_of_sval K_OpenStandardMiningChannel v = M_OpenStandardMiningChannel (un_OpenStandardMiningChannel v)"
| "msg_of_sval K_OpenExtendedMiningChannel v = M_OpenExtendedMiningChannel (un_OpenExtendedMiningChannel v)"
| "msg_of_sval K_OpenExtendedMiningChannelSuccess v = M_OpenExtendedMiningChannelSuccess (un_OpenExtendedMiningChannelSuccess v)"
| "msg_of_sval K_OpenStandardMiningChannelSuccess v = M_OpenStandardMiningChannelSuccess (un_OpenStandardMiningChannelSuccess v)"
| "msg_of_sval K_OpenMiningChannelError v = M_OpenMiningChannelError (un_OpenMiningChannelError v)"
| "msg_of_sval K_UpdateChannel v = M_UpdateChannel (un_UpdateChannel v)"
| "msg_of_sval K_UpdateChannelError v = M_UpdateChannelError (un_UpdateChannelError v)"
| "msg_of_sval K_CloseChannel v = M_CloseChannel (un_CloseChannel v)"
| "msg_of_sval K_SubmitSharesStandard v = M_SubmitSharesStandard (un_SubmitSharesStandard v)"
| "msg_of_sval K_SubmitSharesExtended v = M_SubmitSharesExtended (un_SubmitSharesExtended v)"
| "msg_of_sval K_SubmitSharesSuccess v = M_SubmitSharesSuccess (un_SubmitSharesSuccess v)"
| "msg_of_sval K_SubmitSharesError v = M_SubmitSharesError (un_SubmitSharesError v)"
| "msg_of_sval K_NewMiningJob v = M_NewMiningJob (un_NewMiningJob v)"
| "msg_of_sval K_NewExtendedMiningJob v = M_NewExtendedMiningJob (un_NewExtendedMiningJob v)"
| "msg_of_sval K_SetNewPrevHash v = M_SetNewPrevHash (un_SetNewPrevHash v)"
| "msg_of_sval K_SetTarget v = M_SetTarget (un_SetTarget v)"
| "msg_of_sval K_Reconnect v = M_Reconnect (un_Reconnect v)"
| "msg_of_sval K_OpenTelemetryChannel v = M_OpenTelemetryChannel (un_OpenTelemetryChannel v)"
| "msg_of_sval K_OpenTelemetryChannelSuccess v = M_OpenTelemetryChannelSuccess (un_OpenTelemetryChannelSuccess v)"
| "msg_of_sval K_OpenTelemetryChannelError v = M_OpenTelemetryChannelError (un_OpenTelemetryChannelError v)"
| "msg_of_sval K_SubmitTelemetryData v = M_SubmitTelemetryData (un_SubmitTelemetryData v)"
| "msg_of_sval K_SubmitTelemetryDataSuccess v = M_SubmitTelemetryDataSuccess (un_SubmitTelemetryDataSuccess v)"
| "msg_of_sval K_SubmitTelemetryDataError v = M_SubmitTelemetryDataError (un_SubmitTelemetryDataError v)"

fun wf_msg :: "v2_message \<Rightarrow> bool" where
  "wf_msg (M_SetupConnection m) = wf_SetupConnection m"
| "wf_msg (M_SetupConnectionSuccess m) = wf_SetupConnectionSuccess m"
| "wf_msg (M_SetupConnectionError m) = wf_SetupConnectionError m"
| "wf_msg (M_ChannelEndpointChanged m) = wf_ChannelEndpointChanged m"
| "wf_msg (M_OpenStandardMiningChannel m) = wf_OpenStandardMiningChannel m"
| "wf_msg (M_OpenExtendedMiningChannel m) = wf_OpenExtendedMiningChannel m"
| "wf_msg (M_OpenExtendedMiningChannelSuccess m) = wf_OpenExtendedMiningChannelSuccess m"
| "wf_msg (M_OpenStandardMiningChannelSuccess m) = wf_OpenStandardMiningChannelSuccess m"
| "wf_msg (M_OpenMiningChannelError m) = wf_OpenMiningChannelError m"
| "wf_msg (M_UpdateChannel m) = wf_UpdateChannel m"
| "wf_msg (M_UpdateChannelError m) = wf_UpdateChannelError m"
| "wf_msg (M_CloseChannel m) = wf_CloseChannel m"
| "wf_msg (M_SubmitSharesStandard m) = wf_SubmitSharesStandard m"
| "wf_msg (M_SubmitSharesExtended m) = wf_SubmitSharesExtended m"
| "wf_msg (M_SubmitSharesSuccess m) = wf_SubmitSharesSuccess m"
| "wf_msg (M_SubmitSharesError m) = wf_SubmitSharesError m"
| "wf_msg (M_NewMiningJob m) = wf_NewMiningJob m"
| "wf_msg (M_NewExtendedMiningJob m) = wf_NewExtendedMiningJob m"
| "wf_msg (M_SetNewPrevHash m) = wf_SetNewPrevHash m"
| "wf_msg (M_SetTarget m) = wf_SetTarget m"
| "wf_msg (M_Reconnect m) = wf_Reconnect m"
| "wf_msg (M_OpenTelemetryChannel m) = wf_OpenTelemetryChannel m"
| "wf_msg (M_OpenTelemetryChannelSuccess m) = wf_OpenTelemetryChannelSuccess m"
| "wf_msg (M_OpenTelemetryChannelError m) = wf_OpenTelemetryChannelError m"
| "wf_msg (M_SubmitTelemetryData m) = wf_SubmitTelemetryData m"
| "wf_msg (M_SubmitTelemetryDataSuccess m) = wf_SubmitTelemetryDataSuccess m"
| "wf_msg (M_SubmitTelemetryDataError m) = wf_SubmitTelemetryDataError m"

section \<open>Each message is a wire struct\<close>

interpretation setupConnection: wire_struct ty_SetupConnection sv_SetupConnection un_SetupConnection wf_SetupConnection
  by unfold_locales
    (auto simp: ty_SetupConnection_def sv_SetupConnection_def un_SetupConnection_def wf_SetupConnection_def wire_simps)

interpretation setupConnectionSuccess: wire_struct ty_SetupConnectionSuccess sv_SetupConnectionSuccess un_SetupConnectionSuccess wf_SetupConnectionSuccess
  by unfold_locales
    (auto simp: ty_SetupConnectionSuccess_def sv_SetupConnectionSuccess_def un_SetupConnectionSuccess_def wf_SetupConnectionSuccess_def wire_simps)

interpretation setupConnectionError: wire_struct ty_SetupConnectionError sv_SetupConnectionError un_SetupConnectionError wf_SetupConnectionError
  by unfold_locales
    (auto simp: ty_SetupConnectionError_def sv_SetupConnectionError_def un_SetupConnectionError_def wf_SetupConnectionError_def wire_simps)

interpretation channelEndpointChanged: wire_struct ty_ChannelEndpointChanged sv_ChannelEndpointChanged un_ChannelEndpointChanged wf_ChannelEndpointChanged
  by unfold_locales
    (auto simp: ty_ChannelEndpointChanged_def sv_ChannelEndpointChanged_def un_ChannelEndpointChanged_def wf_ChannelEndpointChanged_def wire_simps)

interpretation openStandardMiningChannel: wire_struct ty_OpenStandardMiningChannel sv_OpenStandardMiningChannel un_OpenStandardMiningChannel wf_OpenStandardMiningChannel
  by unfold_locales
    (auto simp: ty_OpenStandardMiningChannel_def sv_OpenStandardMiningChannel_def un_OpenStandardMiningChannel_def wf_OpenStandardMiningChannel_def wire_simps)

interpretation openExtendedMiningChannel: wire_struct ty_OpenExtendedMiningChannel sv_OpenExtendedMiningChannel un_OpenExtendedMiningChannel wf_OpenExtendedMiningChannel
  by unfold_locales
    (auto simp: ty_OpenExtendedMiningChannel_def sv_OpenExtendedMiningChannel_def un_OpenExtendedMiningChannel_def wf_OpenExtendedMiningChannel_def wire_simps)

interpretation openExtendedMiningChannelSuccess: wire_struct ty_OpenExtendedMiningChannelSuccess sv_OpenExtendedMiningChannelSuccess un_OpenExtendedMiningChannelSuccess wf_OpenExtendedMiningChannelSuccess
  by unfold_locales
    (auto simp: ty_OpenExtendedMiningChannelSuccess_def sv_OpenExtendedMiningChannelSuccess_def un_OpenExtendedMiningChannelSuccess_def wf_OpenExtendedMiningChannelSuccess_def wire_simps)

interpretation openStandardMiningChannelSuccess: wire_struct ty_OpenStandardMiningChannelSuccess sv_OpenStandardMiningChannelSuccess un_OpenStandardMiningChannelSuccess wf_OpenStandardMiningChannelSuccess
  by unfold_locales
    (auto simp: ty_OpenStandardMiningChannelSuccess_def sv_OpenStandardMiningChannelSuccess_def un_OpenStandardMiningChannelSuccess_def wf_OpenStandardMiningChannelSuccess_def wire_simps)

interpretation openMiningChannelError: wire_struct ty_OpenMiningChannelError sv_OpenMiningChannelError un_OpenMiningChannelError wf_OpenMiningChannelError
  by unfold_locales
    (auto simp: ty_OpenMiningChannelError_def sv_OpenMiningChannelError_def un_OpenMiningChannelError_def wf_OpenMiningChannelError_def wire_simps)

interpretation updateChannel: wire_struct ty_UpdateChannel sv_UpdateChannel un_UpdateChannel wf_UpdateChannel
  by unfold_locales
    (auto simp: ty_UpdateChannel_def sv_UpdateChannel_def un_UpdateChannel_def wf_UpdateChannel_def wire_simps)

interpretation updateChannelError: wire_struct ty_UpdateChannelError sv_UpdateChannelError un_UpdateChannelError wf_UpdateChannelError
  by unfold_locales
    (auto simp: ty_UpdateChannelError_def sv_UpdateChannelError_def un_UpdateChannelError_def wf_UpdateChannelError_def wire_simps)

interpretation closeChannel: wire_struct ty_CloseChannel sv_CloseChannel un_CloseChannel wf_CloseChannel
  by unfold_locales
    (auto simp: ty_CloseChannel_def sv_CloseChannel_def un_CloseChannel_def wf_CloseChannel_def wire_simps)

interpretation submitSharesStandard: wire_struct ty_SubmitSharesStandard sv_SubmitSharesStandard un_SubmitSharesStandard wf_SubmitSharesStandard
  by unfold_locales
    (auto simp: ty_SubmitSharesStandard_def sv_SubmitSharesStandard_def un_SubmitSharesStandard_def wf_SubmitSharesStandard_def wire_simps)

interpretation submitSharesExtended: wire_struct ty_SubmitSharesExtended sv_SubmitSharesExtended un_SubmitSharesExtended wf_SubmitSharesExtended
  by unfold_locales
    (auto simp: ty_SubmitSharesExtended_def sv_SubmitSharesExtended_def un_SubmitSharesExtended_def wf_SubmitSharesExtended_def wire_simps)

interpretation submitSharesSuccess: wire_struct ty_SubmitSharesSuccess sv_SubmitSharesSuccess un_SubmitSharesSuccess wf_SubmitSharesSuccess
  by unfold_locales
    (auto simp: ty_SubmitSharesSuccess_def sv_SubmitSharesSuccess_def un_SubmitSharesSuccess_def wf_SubmitSharesSuccess_def wire_simps)

interpretation submitSharesError: wire_struct ty_SubmitSharesError sv_SubmitSharesError un_SubmitSharesError wf_SubmitSharesError
  by unfold_locales
    (auto simp: ty_SubmitSharesError_def sv_SubmitSharesError_def un_SubmitSharesError_def wf_SubmitSharesError_def wire_simps)

interpretation newMiningJob: wire_struct ty_NewMiningJob sv_NewMiningJob un_NewMiningJob wf_NewMiningJob
  by unfold_locales
    (auto simp: ty_NewMiningJob_def sv_NewMiningJob_def un_NewMiningJob_def wf_NewMiningJob_def wire_simps)

interpretation newExtendedMiningJob: wire_struct ty_NewExtendedMiningJob sv_NewExtendedMiningJob un_NewExtendedMiningJob wf_NewExtendedMiningJob
  by unfold_locales
    (auto simp: ty_NewExtendedMiningJob_def sv_NewExtendedMiningJob_def un_NewExtendedMiningJob_def wf_NewExtendedMiningJob_def wire_simps)

interpretation setNewPrevHash: wire_struct ty_SetNewPrevHash sv_SetNewPrevHash un_SetNewPrevHash wf_SetNewPrevHash
  by unfold_locales
    (auto simp: ty_SetNewPrevHash_def sv_SetNewPrevHash_def un_SetNewPrevHash_def wf_SetNewPrevHash_def wire_simps)

interpretation setTarget: wire_struct ty_SetTarget sv_SetTarget un_SetTarget wf_SetTarget
  by unfold_locales
    (auto simp: ty_SetTarget_def sv_SetTarget_def un_SetTarget_def wf_SetTarget_def wire_simps)

interpretation reconnect: wire_struct ty_Reconnect sv_Reconnect un_Reconnect wf_Reconnect
  by unfold_locales
    (auto simp: ty_Reconnect_def sv_Reconnect_def un_Reconnect_def wf_Reconnect_def wire_simps)

interpretation openTelemetryChannel: wire_struct ty_OpenTelemetryChannel sv_OpenTelemetryChannel un_OpenTelemetryChannel wf_OpenTelemetryChannel
  by unfold_locales
    (auto simp: ty_OpenTelemetryChannel_def sv_OpenTelemetryChannel_def un_OpenTelemetryChannel_def wf_OpenTelemetryChannel_def wire_simps)

interpretation openTelemetryChannelSuccess: wire_struct ty_OpenTelemetryChannelSuccess sv_OpenTelemetryChannelSuccess un_OpenTelemetryChannelSuccess wf_OpenTelemetryChannelSuccess
  by unfold_locales
    (auto simp: ty_OpenTelemetryChannelSuccess_def sv_OpenTelemetryChannelSuccess_def un_OpenTelemetryChannelSuccess_def wf_OpenTelemetryChannelSuccess_def wire_simps)

interpretation openTelemetryChannelError: wire_struct ty_OpenTelemetryChannelError sv_OpenTelemetryChannelError un_OpenTelemetryChannelError wf_OpenTelemetryChannelError
  by unfold_locales
    (auto simp: ty_OpenTelemetryChannelError_def sv_OpenTelemetryChannelError_def un_OpenTelemetryChannelError_def wf_OpenTelemetryChannelError_def wire_simps)

interpretation submitTelemetryData: wire_struct ty_SubmitTelemetryData sv_SubmitTelemetryData un_SubmitTelemetryData wf_SubmitTelemetryData
  by unfold_locales
    (auto simp: ty_SubmitTelemetryData_def sv_SubmitTelemetryData_def un_SubmitTelemetryData_def wf_SubmitTelemetryData_def wire_simps)

interpretation submitTelemetryDataSuccess: wire_struct ty_SubmitTelemetryDataSuccess sv_SubmitTelemetryDataSuccess un_SubmitTelemetryDataSuccess wf_SubmitTelemetryDataSuccess
  by unfold_locales
    (auto simp: ty_SubmitTelemetryDataSuccess_def sv_SubmitTelemetryDataSuccess_def un_SubmitTelemetryDataSuccess_def wf_SubmitTelemetryDataSuccess_def wire_simps)

interpretation submitTelemetryDataError: wire_struct ty_SubmitTelemetryDataError sv_SubmitTelemetryDataError un_SubmitTelemetryDataError wf_SubmitTelemetryDataError
  by unfold_locales
    (auto simp: ty_SubmitTelemetryDataError_def sv_SubmitTelemetryDataError_def un_SubmitTelemetryDataError_def wf_SubmitTelemetryDataError_def wire_simps)

lemmas msg_write_struct =
  setupConnection.write_struct setupConnectionSuccess.write_struct
   setupConnectionError.write_struct channelEndpointChanged.write_struct
   openStandardMiningChannel.write_struct openExtendedMiningChannel.write_struct
   openExtendedMiningChannelSuccess.write_struct openStandardMiningChannelSuccess.write_struct
   openMiningChannelError.write_struct updateChannel.write_struct updateChannelError.write_struct
   closeChannel.write_struct submitSharesStandard.write_struct submitSharesExtended.write_struct
   submitSharesSuccess.write_struct submitSharesError.write_struct newMiningJob.write_struct
   newExtendedMiningJob.write_struct setNewPrevHash.write_struct setTarget.write_struct
   reconnect.write_struct openTelemetryChannel.write_struct
   openTelemetryChannelSuccess.write_struct openTelemetryChannelError.write_struct
   submitTelemetryData.write_struct submitTelemetryDataSuccess.write_struct
   submitTelemetryDataError.write_struct

lemmas msg_struct_size =
  setupConnection.struct_size setupConnectionSuccess.struct_size setupConnectionError.struct_size
   channelEndpointChanged.struct_size openStandardMiningChannel.struct_size
   openExtendedMiningChannel.struct_size openExtendedMiningChannelSuccess.struct_size
   openStandardMiningChannelSuccess.struct_size openMiningChannelError.struct_size
   updateChannel.struct_size updateChannelError.struct_size closeChannel.struct_size
   submitSharesStandard.struct_size submitSharesExtended.struct_size
   submitSharesSuccess.struct_size submitSharesError.struct_size newMiningJob.struct_size
   newExtendedMiningJob.struct_size setNewPrevHash.struct_size setTarget.struct_size
   reconnect.struct_size openTelemetryChannel.struct_size openTelemetryChannelSuccess.struct_size
   openTelemetryChannelError.struct_size submitTelemetryData.struct_size
   submitTelemetryDataSuccess.struct_size submitTelemetryDataError.struct_size

lemmas msg_un_sv =
  setupConnection.un_sv setupConnectionSuccess.un_sv setupConnectionError.un_sv
   channelEndpointChanged.un_sv openStandardMiningChannel.un_sv openExtendedMiningChannel.un_sv
   openExtendedMiningChannelSuccess.un_sv openStandardMiningChannelSuccess.un_sv
   openMiningChannelError.un_sv updateChannel.un_sv updateChannelError.un_sv closeChannel.un_sv
   submitSharesStandard.un_sv submitSharesExtended.un_sv submitSharesSuccess.un_sv
   submitSharesError.un_sv newMiningJob.un_sv newExtendedMiningJob.un_sv setNewPrevHash.un_sv
   setTarget.un_sv reconnect.un_sv openTelemetryChannel.un_sv openTelemetryChannelSuccess.un_sv
   openTelemetryChannelError.un_sv submitTelemetryData.un_sv submitTelemetryDataSuccess.un_sv
   submitTelemetryDataError.un_sv

lemmas msg_read_write =
  setupConnection.read_write setupConnectionSuccess.read_write setupConnectionError.read_write
   channelEndpointChanged.read_write openStandardMiningChannel.read_write
   openExtendedMiningChannel.read_write openExtendedMiningChannelSuccess.read_write
   openStandardMiningChannelSuccess.read_write openMiningChannelError.read_write
   updateChannel.read_write updateChannelError.read_write closeChannel.read_write
   submitSharesStandard.read_write submitSharesExtended.read_write submitSharesSuccess.read_write
   submitSharesError.read_write newMiningJob.read_write newExtendedMiningJob.read_write
   setNewPrevHash.read_write setTarget.read_write reconnect.read_write
   openTelemetryChannel.read_write openTelemetryChannelSuccess.read_write
   openTelemetryChannelError.read_write submitTelemetryData.read_write
   submitTelemetryDataSuccess.read_write submitTelemetryDataError.read_write

lemmas msg_read_exact =
  setupConnection.read_exact setupConnectionSuccess.read_exact setupConnectionError.read_exact
   channelEndpointChanged.read_exact openStandardMiningChannel.read_exact
   openExtendedMiningChannel.read_exact openExtendedMiningChannelSuccess.read_exact
   openStandardMiningChannelSuccess.read_exact openMiningChannelError.read_exact
   updateChannel.read_exact updateChannelError.read_exact closeChannel.read_exact
   submitSharesStandard.read_exact submitSharesExtended.read_exact submitSharesSuccess.read_exact
   submitSharesError.read_exact newMiningJob.read_exact newExtendedMiningJob.read_exact
   setNewPrevHash.read_exact setTarget.read_exact reconnect.read_exact
   openTelemetryChannel.read_exact openTelemetryChannelSuccess.read_exact
   openTelemetryChannelError.read_exact submitTelemetryData.read_exact
   submitTelemetryDataSuccess.read_exact submitTelemetryDataError.read_exact

lemmas msg_read_no_panic =
  setupConnection.read_no_panic setupConnectionSuccess.read_no_panic
   setupConnectionError.read_no_panic channelEndpointChanged.read_no_panic
   openStandardMiningChannel.read_no_panic openExtendedMiningChannel.read_no_panic
   openExtendedMiningChannelSuccess.read_no_panic openStandardMiningChannelSuccess.read_no_panic
   openMiningChannelError.read_no_panic updateChannel.read_no_panic
   updateChannelError.read_no_panic closeChannel.read_no_panic submitSharesStandard.read_no_panic
   submitSharesExtended.read_no_panic submitSharesSuccess.read_no_panic
   submitSharesError.read_no_panic newMiningJob.read_no_panic newExtendedMiningJob.read_no_panic
   setNewPrevHash.read_no_panic setTarget.read_no_panic reconnect.read_no_panic
   openTelemetryChannel.read_no_panic openTelemetryChannelSuccess.read_no_panic
   openTelemetryChannelError.read_no_panic submitTelemetryData.read_no_panic
   submitTelemetryDataSuccess.read_no_panic submitTelemetryDataError.read_no_panic

section \<open>Conversions\<close>

text \<open>
  The four conversions \<open>impl_message_conversion!\<close> generates: \<open>AnyPayload::serialize_to_writer\<close>,
  a frame from a message, a message from bytes, a message from a frame.
\<close>

definition serialize_message :: "v2_message serialize_fn" where
  "serialize_message m = map_err V2Serialization (to_vec (msg_sval m))"

definition frame_of_message :: "v2_message \<Rightarrow> stratum_error + v2_message frame" where
  "frame_of_message m =
     from_serializable_payload (is_channel_msg (kind_of m)) (msg_extension (kind_of m))
       (msg_id (kind_of m)) m"

definition message_of_bytes :: "msg_kind \<Rightarrow> bytes \<Rightarrow> stratum_error + v2_message" where
  "message_of_bytes k bs = rmap (msg_of_sval k) (map_err V2Serialization (from_slice (msg_ty k) bs))"

definition message_of_frame :: "msg_kind \<Rightarrow> v2_message frame \<Rightarrow> stratum_error + v2_message" where
  "message_of_frame k f =
     rbind (into_bytes_mut serialize_message (frame_payload f)) (message_of_bytes k)"

lemma serialize_message_wf:
  assumes "wf_msg m"
  shows "serialize_message m = Inr (serialized (msg_sval m)) \<and> length (serialized (msg_sval m)) < 2 ^ 18"
  using assms
  by (cases m) (simp_all add: serialize_message_def msg_write_struct msg_struct_size [simplified])

lemma message_of_serialized:
  assumes "wf_msg m"
  shows "message_of_bytes (kind_of m) (serialized (msg_sval m)) = Inr m"
  using assms by (cases m) (simp_all add: message_of_bytes_def msg_read_write msg_un_sv)

lemma message_of_bytes_exact:
  assumes "message_of_bytes k bs = Inr m"
  shows "kind_of m = k \<and> wf_msg m \<and> serialize_message m = Inr bs"
proof -
  from assms obtain v where v: "from_slice (msg_ty k) bs = Inr v" "m = msg_of_sval k v"
    by (auto simp: message_of_bytes_def result_simps)
  then show ?thesis
    by (cases k) (auto simp: serialize_message_def dest!: msg_read_exact)
qed

lemma message_of_bytes_no_panic: "message_of_bytes k bs \<noteq> Inl (V2Serialization Unreachable)"
proof -
  have "from_slice (msg_ty k) bs \<noteq> Inl Unreachable"
    by (cases k) (simp_all add: msg_read_no_panic)
  then show ?thesis by (cases "from_slice (msg_ty k) bs") (auto simp: message_of_bytes_def)
qed

section \<open>Properties\<close>

lemma message_on_wire:
  assumes "wf_msg m" and "length_delimited ldc s0 lim" and "2 ^ 18 \<le> lim"
  shows "\<exists>f bs g. frame_of_message m = Inr f \<and>
    codec_encode serialize_message f [] = (Inr (), bs) \<and>
    codec_decode ldc s0 (bs @ rest) = (s0, rest, Inr (Some g)) \<and>
    get_id g = msg_id (kind_of m) \<and>
    extension_type (frame_header g) = msg_extension (kind_of m) \<and>
    is_channel_message (frame_header g) = is_channel_msg (kind_of m) \<and>
    message_of_frame (kind_of m) g = Inr m"
proof -
  let ?h = "\<lparr>is_channel_message = is_channel_msg (kind_of m), extension_type = msg_extension (kind_of m),
            msg_type = msg_id (kind_of m), msg_length = None\<rparr>"
  let ?f = "\<lparr>frame_header = ?h, frame_payload = LazyBytes m\<rparr>"
  let ?p = "serialized (msg_sval m)"
  have f: "frame_of_message m = Inr ?f"
    by (simp add: frame_of_message_def from_serializable_payload_def header_new_def MAX_LEN_def)
  have ser: "serialize_to_writer serialize_message (frame_payload ?f) = Inr ?p"
    and len: "length ?p < 2 ^ 18"
    using serialize_message_wf [OF assms(1)] by (simp_all add: serialize_to_writer_def)
  have ext: "extension_type (frame_header ?f) < 0x8000"
    by (cases "kind_of m") (simp_all add: BASE_def TELEMETRY_def)
  have l1: "length ?p \<le> lim" and l2: "length ?p < 2 ^ 24"
    using len assms(3) by simp_all
  from codec_roundtrip [OF assms(2) ser l1 l2 ext, of rest] f
  show ?thesis
    by (fastforce simp: get_id_def message_of_frame_def into_bytes_mut_def
        message_of_serialized [OF assms(1)])
qed

text \<open>
  C3. End to end: every message whose fields respect their types becomes a frame, the frame is
  encoded, and on the other side, whatever follows it in the stream, the codec returns a frame
  that carries the message's id, extension and channel flag and converts back to the same
  message; the following bytes are left for the next frame.
\<close>

theorem message_wire_roundtrip:
  assumes "wf_msg m" and "length_delimited ldc s0 lim" and "2 ^ 18 \<le> lim"
  shows "\<exists>f bs g. frame_of_message m = Inr f \<and>
    codec_encode serialize_message f [] = (Inr (), bs) \<and>
    codec_decode ldc s0 (bs @ rest) = (s0, rest, Inr (Some g)) \<and>
    get_id g = msg_id (kind_of m) \<and>
    extension_type (frame_header g) = msg_extension (kind_of m) \<and>
    is_channel_message (frame_header g) = is_channel_msg (kind_of m) \<and>
    message_of_frame (kind_of m) g = Inr m"
  using assms by (rule message_on_wire)

definition example_message :: v2_message where
  "example_message =
     M_SubmitSharesError \<lparr>sserr_channel_id = 3, sserr_seq_num = 9, sserr_code = [0x6f, 0x6b]\<rparr>"

theorem message_wire_roundtrip_witness:
  "wf_msg example_message \<and>
   (\<exists>f bs g. frame_of_message example_message = Inr f \<and>
      codec_encode serialize_message f [] = (Inr (), bs) \<and>
      codec_decode (simple_ld (2 ^ 23)) () (bs @ [7]) = ((), [7], Inr (Some g)) \<and>
      get_id g = 0x1d \<and>
      message_of_frame K_SubmitSharesError g = Inr example_message)"
proof -
  have w: "wf_msg example_message"
    by (simp add: example_message_def wf_SubmitSharesError_def wf_str_def in_bounds_def)
  have k: "kind_of example_message = K_SubmitSharesError"
    by (simp add: example_message_def)
  from message_wire_roundtrip [OF w length_delimited_simple_ld, of "2 ^ 23" "[7]"] w k
  show ?thesis by auto
qed

text \<open>
  C36. Parsing a message accepts nothing but messages: if bytes are accepted as a message of
  kind \<open>k\<close>, the message is of that kind, all its fields are within their bounds, and it
  serializes to exactly those bytes; if they are not, the error is never a panic.
\<close>

theorem message_parse_exact:
  "(message_of_bytes k bs = Inr m \<longleftrightarrow>
      kind_of m = k \<and> wf_msg m \<and> serialize_message m = Inr bs) \<and>
   message_of_bytes k bs \<noteq> Inl (V2Serialization Unreachable)"
  using message_of_bytes_exact message_of_serialized serialize_message_wf message_of_bytes_no_panic
  by (metis Inr_inject)

text \<open>
  Message identifiers are unique within an extension, and only there: two kinds of messages
  with the same extension and id are the same kind, but the telemetry extension reuses ids of
  the base protocol, so that dispatching on \<open>get_id\<close>, which returns the id without the
  extension, cannot tell \<open>OpenTelemetryChannel\<close> from \<open>SetupConnection\<close>.
\<close>

theorem message_ids:
  "(msg_extension k = msg_extension k' \<and> msg_id k = msg_id k' \<longleftrightarrow> k = k') \<and>
   msg_id K_OpenTelemetryChannel = msg_id K_SetupConnection"
  by (cases k; cases k') (simp_all add: BASE_def TELEMETRY_def)

end
