(* ===== verification/Bitcoin_Target.thy ===== *)
theory Bitcoin_Target
  imports Prelude
begin

text \<open>
  The Bitcoin primitives, \<open>coins/bitcoin/src/lib.rs\<close>: block headers, SHA256 midstates, targets in
  their full, compact and difficulty forms, shares and hash units.

  A \<open>U256\<close> is a 256-bit word, \<open>usize\<close> a 64-bit one; division by zero, where the source panics, is
  \<open>None\<close>. SHA256 is not part of the repository: the double hash and the midstate are
  arguments. So is the arithmetic of \<open>f64\<close>, as a record of operations, since the units above
  plain hashes are floating point. Unchecked integer additions wrap, as they do in a release
  build.
\<close>

section \<open>Block headers\<close>

definition SHA256_DIGEST_SIZE :: nat where "SHA256_DIGEST_SIZE = 32"
definition BLOCK_HEADER_SIZE :: nat where "BLOCK_HEADER_SIZE = 80"
definition BLOCK_HEADER_CHUNK1_SIZE :: nat where "BLOCK_HEADER_CHUNK1_SIZE = 64"

definition BIP320_VERSION_MASK :: u32 where "BIP320_VERSION_MASK = 0x1fffe000"
definition BIP320_VERSION_SHIFT :: nat where "BIP320_VERSION_SHIFT = 13"
definition BIP320_VERSION_MAX :: u32 where "BIP320_VERSION_MAX = 0xffff"

record block_header =
  bh_version :: u32
  bh_previous_hash :: bytes
  bh_merkle_root :: bytes
  bh_time :: u32
  bh_bits :: u32
  bh_nonce :: u32

definition block_header_bytes :: "block_header \<Rightarrow> bytes" where
  "block_header_bytes h =
     le_bytes 4 (unat (bh_version h)) @ bh_previous_hash h @ bh_merkle_root h @
     le_bytes 4 (unat (bh_time h)) @ le_bytes 4 (unat (bh_bits h)) @ le_bytes 4 (unat (bh_nonce h))"

definition block_hash :: "(bytes \<Rightarrow> bytes) \<Rightarrow> block_header \<Rightarrow> bytes" where
  "block_hash sha256d h = sha256d (block_header_bytes h)"

definition block_midstate :: "(bytes \<Rightarrow> bytes) \<Rightarrow> block_header \<Rightarrow> bytes" where
  "block_midstate sha256_midstate h =
     sha256_midstate (take BLOCK_HEADER_CHUNK1_SIZE (block_header_bytes h))"

text \<open>The words of a midstate in order.\<close>

definition midstate_words_u32 :: "bytes \<Rightarrow> u32 list" where
  "midstate_words_u32 m = map (\<lambda>w. of_nat (of_le w)) (chunks 4 m)"

definition midstate_words_u64 :: "bytes \<Rightarrow> u64 list" where
  "midstate_words_u64 m = map (\<lambda>w. of_nat (of_le w)) (chunks 8 m)"

section \<open>Targets\<close>

definition DIFFICULTY_1_TARGET_BYTES :: bytes where
  "DIFFICULTY_1_TARGET_BYTES = replicate 4 0x00 @ replicate 2 0xff @ replicate 26 0x00"

definition difficulty_1_target :: u256 where
  "difficulty_1_target = of_nat (of_be DIFFICULTY_1_TARGET_BYTES)"

definition from_pool_difficulty :: "u64 \<Rightarrow> u256 option" where
  "from_pool_difficulty difficulty =
     (if difficulty = 0 then None else Some (difficulty_1_target div ucast difficulty))"

definition from_compact :: "u32 \<Rightarrow> string + u256" where
  "from_compact bits =
     (let mantissa = bits AND 0xffffff;
          exponent = unat (drop_bit 24 bits)
      in if 0x7fffff < mantissa
         then Inl ''largest legal value for mantissa has been exceeded''
         else Inr (if exponent \<le> 3 then ucast (drop_bit (8 * (3 - exponent)) mantissa)
                   else push_bit (8 * (exponent - 3)) (ucast mantissa)))"

definition get_difficulty :: "u256 \<Rightarrow> u64 option" where
  "get_difficulty t = (if t = 0 then None else Some (ucast (difficulty_1_target div t)))"

text \<open>\<open>U256::bits\<close>: the position of the highest set bit.\<close>

fun bit_length :: "nat \<Rightarrow> nat" where
  "bit_length n = (if n = 0 then 0 else Suc (bit_length (n div 2)))"

declare bit_length.simps [simp del]

definition into_compact :: "u256 \<Rightarrow> u32" where
  "into_compact t =
     (let exponent = (bit_length (unat t) + 7) div 8;
          mantissa =
            (if exponent \<le> 3 then ucast (push_bit (8 * (3 - exponent)) (ucast t :: u64)) :: u32
             else ucast (drop_bit (8 * (exponent - 3)) t));
          (mantissa, exponent) =
            (if mantissa AND 0x00800000 \<noteq> 0 then (drop_bit 8 mantissa, exponent + 1)
             else (mantissa, exponent))
      in mantissa OR of_nat (exponent * 2 ^ 24))"

definition is_greater_or_equal :: "u256 \<Rightarrow> u256 \<Rightarrow> bool" where
  "is_greater_or_equal t other \<longleftrightarrow> other \<le> t"

definition target_default :: u256 where
  "target_default = difficulty_1_target"

definition target_to_bytes :: "u256 \<Rightarrow> bytes" where
  "target_to_bytes t = le_bytes SHA256_DIGEST_SIZE (unat t)"

definition target_of_bytes :: "bytes \<Rightarrow> u256" where
  "target_of_bytes b = of_nat (of_le b)"

definition meets :: "bytes \<Rightarrow> u256 \<Rightarrow> bool" where
  "meets dhash target = is_greater_or_equal target (target_of_bytes dhash)"

section \<open>Shares\<close>

definition DIFFICULTY_1_SHIFT :: nat where "DIFFICULTY_1_SHIFT = 32"

datatype 'f hashes_unit =
    Hashes u128
  | KiloHashes 'f
  | MegaHashes 'f
  | GigaHashes 'f
  | TeraHashes 'f

text \<open>The operations of \<open>f64\<close> in use: multiplication by a power of ten and the casts.\<close>

record 'f float_ops =
  f_scale :: "int \<Rightarrow> 'f \<Rightarrow> 'f"
  f_of_u128 :: "u128 \<Rightarrow> 'f"
  f_to_u128 :: "'f \<Rightarrow> u128"

definition shares_new :: "u256 \<Rightarrow> u64 option" where
  "shares_new target = get_difficulty target"

definition account_solution :: "u64 \<Rightarrow> u256 \<Rightarrow> u64 option" where
  "account_solution shares target = map_option (\<lambda>d. shares + d) (get_difficulty target)"

definition shares_add :: "u64 \<Rightarrow> u64 \<Rightarrow> u64" where
  "shares_add a b = a + b"

definition shares_into_hashes :: "u64 \<Rightarrow> 'f hashes_unit" where
  "shares_into_hashes s = Hashes (push_bit DIFFICULTY_1_SHIFT (ucast s))"

definition into_u128 :: "'f float_ops \<Rightarrow> 'f hashes_unit \<Rightarrow> u128" where
  "into_u128 F h =
     (case h of
        Hashes v \<Rightarrow> v
      | KiloHashes v \<Rightarrow> f_to_u128 F v
      | MegaHashes v \<Rightarrow> f_to_u128 F v
      | GigaHashes v \<Rightarrow> f_to_u128 F v
      | TeraHashes v \<Rightarrow> f_to_u128 F v)"

definition into_f64 :: "'f float_ops \<Rightarrow> 'f hashes_unit \<Rightarrow> 'f" where
  "into_f64 F h =
     (case h of
        Hashes v \<Rightarrow> f_of_u128 F v
      | KiloHashes v \<Rightarrow> v
      | MegaHashes v \<Rightarrow> v
      | GigaHashes v \<Rightarrow> v
      | TeraHashes v \<Rightarrow> v)"

definition shares_of_hashes :: "'f float_ops \<Rightarrow> 'f hashes_unit \<Rightarrow> u64" where
  "shares_of_hashes F h = ucast (drop_bit DIFFICULTY_1_SHIFT (into_u128 F h))"

definition into_hashes :: "'f float_ops \<Rightarrow> 'f hashes_unit \<Rightarrow> 'f hashes_unit" where
  "into_hashes F h =
     (case h of
        Hashes v \<Rightarrow> Hashes v
      | KiloHashes v \<Rightarrow> Hashes (f_to_u128 F (f_scale F 3 v))
      | MegaHashes v \<Rightarrow> Hashes (f_to_u128 F (f_scale F 6 v))
      | GigaHashes v \<Rightarrow> Hashes (f_to_u128 F (f_scale F 9 v))
      | TeraHashes v \<Rightarrow> Hashes (f_to_u128 F (f_scale F 12 v)))"

definition into_kilo_hashes :: "'f float_ops \<Rightarrow> 'f hashes_unit \<Rightarrow> 'f hashes_unit" where
  "into_kilo_hashes F h =
     (case h of
        Hashes v \<Rightarrow> KiloHashes (f_scale F (- 3) (f_of_u128 F v))
      | KiloHashes v \<Rightarrow> KiloHashes v
      | MegaHashes v \<Rightarrow> KiloHashes (f_scale F 3 v)
      | GigaHashes v \<Rightarrow> KiloHashes (f_scale F 6 v)
      | TeraHashes v \<Rightarrow> KiloHashes (f_scale F 9 v))"

definition into_mega_hashes :: "'f float_ops \<Rightarrow> 'f hashes_unit \<Rightarrow> 'f hashes_unit" where
  "into_mega_hashes F h =
     (case h of
        Hashes v \<Rightarrow> MegaHashes (f_scale F (- 6) (f_of_u128 F v))
      | KiloHashes v \<Rightarrow> MegaHashes (f_scale F (- 3) v)
      | MegaHashes v \<Rightarrow> MegaHashes v
      | GigaHashes v \<Rightarrow> MegaHashes (f_scale F 3 v)
      | TeraHashes v \<Rightarrow> MegaHashes (f_scale F 6 v))"

definition into_giga_hashes :: "'f float_ops \<Rightarrow> 'f hashes_unit \<Rightarrow> 'f hashes_unit" where
  "into_giga_hashes F h =
     (case h of
        Hashes v \<Rightarrow> GigaHashes (f_scale F (- 9) (f_of_u128 F v))
      | KiloHashes v \<Rightarrow> GigaHashes (f_scale F (- 6) v)
      | MegaHashes v \<Rightarrow> GigaHashes (f_scale F (- 3) v)
      | GigaHashes v \<Rightarrow> GigaHashes v
      | TeraHashes v \<Rightarrow> GigaHashes (f_scale F 3 v))"

definition into_tera_hashes :: "'f float_ops \<Rightarrow> 'f hashes_unit \<Rightarrow> 'f hashes_unit" where
  "into_tera_hashes F h =
     (case h of
        Hashes v \<Rightarrow> TeraHashes (f_scale F (- 12) (f_of_u128 F v))
      | KiloHashes v \<Rightarrow> TeraHashes (f_scale F (- 9) v)
      | MegaHashes v \<Rightarrow> TeraHashes (f_scale F (- 6) v)
      | GigaHashes v \<Rightarrow> TeraHashes (f_scale F (- 3) v)
      | TeraHashes v \<Rightarrow> TeraHashes v)"

definition into_pretty_hashes :: "'f float_ops \<Rightarrow> 'f hashes_unit \<Rightarrow> 'f hashes_unit" where
  "into_pretty_hashes F h =
     (case List.find (\<lambda>u. 0 < into_u128 F u)
             [into_tera_hashes F h, into_giga_hashes F h, into_mega_hashes F h, into_kilo_hashes F h] of
        Some u \<Rightarrow> u
      | None \<Rightarrow> into_hashes F h)"

section \<open>Machine arithmetic\<close>

lemma bit_length_bound: "n < 2 ^ bit_length n"
proof (induction n rule: bit_length.induct)
  case (1 n)
  show ?case
  proof (cases "n = 0")
    case False
    with 1 have "n div 2 < 2 ^ bit_length (n div 2)" by simp
    then have "n < 2 ^ Suc (bit_length (n div 2))" by simp
    then show ?thesis using False by (subst bit_length.simps) simp
  qed simp
qed

lemma bit_length_least: "n < 2 ^ k \<Longrightarrow> bit_length n \<le> k"
proof (induction n arbitrary: k rule: bit_length.induct)
  case (1 n)
  show ?case
  proof (cases "n = 0")
    case True
    then show ?thesis by (subst bit_length.simps) simp
  next
    case False
    with 1(2) obtain j where k: "k = Suc j" by (cases k) auto
    with 1(2) have "n div 2 < 2 ^ j" by simp
    with 1(1) False have "bit_length (n div 2) \<le> j" by simp
    with False k show ?thesis by (subst bit_length.simps) simp
  qed
qed

text \<open>The number of bytes of a positive number, as \<open>into_compact\<close> computes it.\<close>

definition byte_length :: "nat \<Rightarrow> nat" where
  "byte_length n = (bit_length n + 7) div 8"

lemma byte_length_bound: "n < 256 ^ byte_length n"
proof -
  have "bit_length n \<le> 8 * byte_length n"
    unfolding byte_length_def by presburger
  then have "(2 :: nat) ^ bit_length n \<le> 2 ^ (8 * byte_length n)"
    by (rule power_increasing) simp
  also have "\<dots> = 256 ^ byte_length n"
    by (simp add: power_mult)
  finally show ?thesis using bit_length_bound [of n] by simp
qed

lemma byte_length_least: "n < 256 ^ k \<Longrightarrow> byte_length n \<le> k"
proof -
  assume "n < 256 ^ k"
  then have "n < 2 ^ (8 * k)" by (simp add: power_mult)
  from bit_length_least [OF this] show ?thesis
    unfolding byte_length_def by presburger
qed

lemma byte_length_eq: "256 ^ k \<le> n \<Longrightarrow> n < 256 ^ Suc k \<Longrightarrow> byte_length n = Suc k"
proof -
  assume n: "256 ^ k \<le> n" "n < 256 ^ Suc k"
  have "\<not> byte_length n \<le> k"
  proof
    assume "byte_length n \<le> k"
    then have "(256 :: nat) ^ byte_length n \<le> 256 ^ k" by (rule power_increasing) simp
    with n byte_length_bound [of n] show False by linarith
  qed
  with byte_length_least [OF n(2)] show ?thesis by simp
qed

lemma unat_push_bit: "unat (push_bit k w :: 'a::len word) = unat w * 2 ^ k mod 2 ^ LENGTH('a)"
  by (simp only: unsigned_push_bit_eq) (simp only: push_bit_eq_mult take_bit_eq_mod)

lemma unat_drop_bit: "unat (drop_bit k w :: 'a::len word) = unat w div 2 ^ k"
  by (simp only: unsigned_drop_bit_eq) (simp add: drop_bit_eq_div take_bit_nat_eq_self)

lemma unat_ucast: "unat (ucast (w :: 'a::len word) :: 'b::len word) = unat w mod 2 ^ LENGTH('b)"
  by (simp add: unsigned_ucast_eq take_bit_eq_mod)

lemmas unat_shifts = unat_push_bit unat_drop_bit unat_ucast

lemma unat_and_low: "unat (w AND 0xffffff) = unat (w :: u32) mod 2 ^ 24"
proof -
  have "w AND 0xffffff = take_bit 24 w"
    by (simp add: take_bit_eq_mask mask_eq_exp_minus_1)
  then show ?thesis
    by (simp only: unsigned_take_bit_eq) (simp only: take_bit_eq_mod)
qed

lemma and_bit_23: "w AND 0x00800000 \<noteq> 0 \<longleftrightarrow> odd (unat (w :: u32) div 2 ^ 23)"
proof -
  define M :: u32 where "M = 0x00800000"
  have "M = 2 ^ 23" by (simp add: M_def)
  then have b: "bit M n \<longleftrightarrow> n = 23" for n
    by (simp only: bit_exp_iff) auto
  have "w AND M = (if bit w 23 then M else 0)"
    by (rule bit_word_eqI) (auto simp: bit_and_iff b)
  then have "w AND 0x00800000 \<noteq> 0 \<longleftrightarrow> bit w 23"
    by (simp add: M_def)
  also have "\<dots> \<longleftrightarrow> bit (unat w) 23" by (simp add: bit_unsigned_iff)
  also have "\<dots> \<longleftrightarrow> odd (unat w div 2 ^ 23)" by (simp only: bit_iff_odd)
  finally show ?thesis .
qed

lemma or_disjoint_24:
  assumes "unat (m :: u32) < 2 ^ 24" and "e < 256"
  shows "unat (m OR of_nat (e * 2 ^ 24)) = unat m + e * 2 ^ 24"
proof -
  have e: "(of_nat (e * 2 ^ 24) :: u32) = push_bit 24 (of_nat e)"
    by (simp add: push_bit_eq_mult)
  have m: "m = take_bit 24 m"
  proof -
    have "unat (take_bit 24 m) = unat m"
      unfolding unsigned_take_bit_eq by (rule take_bit_nat_eq_self [OF assms(1)])
    then show ?thesis by (simp only: word_unat_eq_iff)
  qed
  have "m OR push_bit 24 (of_nat e) = m + push_bit 24 (of_nat e)"
    by (subst (1 2) m, rule disjunctive_add [symmetric]) (auto simp: bit_take_bit_iff bit_push_bit_iff)
  moreover have "unat (push_bit 24 (of_nat e :: u32)) = e * 2 ^ 24"
    using assms(2) by (simp add: unat_push_bit unat_of_nat)
  moreover have "unat m + e * 2 ^ 24 < 2 ^ 32"
    using assms by simp
  ultimately show ?thesis
    unfolding e by (simp add: unat_word_ariths)
qed

section \<open>The compact form\<close>

text \<open>The mantissa and the exponent \<open>into_compact\<close> packs, as numbers.\<close>

definition compact_mantissa :: "nat \<Rightarrow> nat" where
  "compact_mantissa n =
     (if byte_length n \<le> 3 then n * 256 ^ (3 - byte_length n) else n div 256 ^ (byte_length n - 3))"

definition compact_parts :: "nat \<Rightarrow> nat \<times> nat" where
  "compact_parts n =
     (if 2 ^ 23 \<le> compact_mantissa n then (compact_mantissa n div 256, Suc (byte_length n))
      else (compact_mantissa n, byte_length n))"

definition compact_value :: "nat \<Rightarrow> nat \<Rightarrow> nat" where
  "compact_value m e = (if e \<le> 3 then m div 256 ^ (3 - e) else m * 256 ^ (e - 3))"

lemma compact_mantissa_bound: "compact_mantissa n < 2 ^ 24"
proof (cases "byte_length n \<le> 3")
  case True
  then have "n * 256 ^ (3 - byte_length n) < 256 ^ byte_length n * 256 ^ (3 - byte_length n)"
    using byte_length_bound by simp
  also have "\<dots> = 256 ^ 3"
    using True by (simp flip: power_add)
  finally show ?thesis using True by (simp add: compact_mantissa_def)
next
  case False
  have "(256 :: nat) ^ byte_length n = 256 ^ (byte_length n - 3) * 256 ^ 3"
    using False by (simp only: power_add [symmetric]) simp
  with byte_length_bound [of n] have "n div 256 ^ (byte_length n - 3) < 256 ^ 3"
    by (simp add: less_mult_imp_div_less mult.commute)
  then show ?thesis using False by (simp add: compact_mantissa_def)
qed

lemma compact_parts_bounds:
  assumes "compact_parts n = (m, e)" and "n < 256 ^ 32"
  shows "m < 2 ^ 23" and "e \<le> 33"
  using assms compact_mantissa_bound [of n] byte_length_least [OF assms(2)]
  by (auto simp: compact_parts_def split: if_splits)

lemma power_256: "(2 :: nat) ^ (8 * k) = 256 ^ k"
  by (simp add: power_mult)

lemma into_compact_unat:
  assumes "compact_parts (unat t) = (m, e)"
  shows "unat (into_compact t) = m + e * 2 ^ 24"
proof -
  define b where "b = byte_length (unat t)"
  define w :: u32 where
    "w = (if b \<le> 3 then ucast (push_bit (8 * (3 - b)) (ucast t :: u64)) else ucast (drop_bit (8 * (b - 3)) t))"
  have n: "unat t < 256 ^ 32" by (rule unat_u256_bound)
  have w: "unat w = compact_mantissa (unat t)"
  proof (cases "b \<le> 3")
    case True
    have "unat t < 2 ^ 64"
    proof -
      have "(256 :: nat) ^ b \<le> 256 ^ 3" using True by (intro power_increasing) simp_all
      with byte_length_bound [of "unat t"] show ?thesis by (simp add: b_def)
    qed
    with True compact_mantissa_bound [of "unat t"] show ?thesis
      by (simp add: w_def unat_shifts power_256 compact_mantissa_def b_def)
  next
    case False
    with compact_mantissa_bound [of "unat t"] show ?thesis
      by (simp add: w_def unat_shifts power_256 compact_mantissa_def b_def)
  qed
  have flag: "w AND 0x00800000 \<noteq> 0 \<longleftrightarrow> 2 ^ 23 \<le> compact_mantissa (unat t)"
  proof -
    have "unat w div 2 ^ 23 < 2"
      using compact_mantissa_bound [of "unat t"] w by (simp add: less_mult_imp_div_less)
    then have "odd (unat w div 2 ^ 23) \<longleftrightarrow> unat w div 2 ^ 23 \<noteq> 0"
      by (cases "unat w div 2 ^ 23") (auto simp: less_Suc_eq numeral_2_eq_2)
    then show ?thesis unfolding and_bit_23 by (simp add: w div_eq_0_iff not_less)
  qed
  have c: "into_compact t =
      (if w AND 0x00800000 \<noteq> 0 then drop_bit 8 w OR of_nat (Suc b * 2 ^ 24) else w OR of_nat (b * 2 ^ 24))"
    by (simp add: into_compact_def Let_def w_def b_def byte_length_def)
  have b: "b \<le> 32" unfolding b_def by (rule byte_length_least [OF n])
  have bound: "unat w < 2 ^ 24" "unat (drop_bit 8 w) < 2 ^ 24"
    using compact_mantissa_bound [of "unat t"] w by (simp_all add: unat_drop_bit)
  show ?thesis
  proof (cases "2 ^ 23 \<le> compact_mantissa (unat t)")
    case True
    then have "m = unat (drop_bit 8 w)" "e = Suc b"
      using assms w by (simp_all add: compact_parts_def unat_drop_bit b_def)
    with True flag c or_disjoint_24 [OF bound(2), of "Suc b"] b show ?thesis by simp
  next
    case False
    then have "m = unat w" "e = b"
      using assms w by (simp_all add: compact_parts_def b_def)
    with False flag c or_disjoint_24 [OF bound(1), of b] b show ?thesis by simp
  qed
qed

lemma from_compact_value:
  fixes m :: u32
  shows "(if e \<le> 3 then ucast (drop_bit (8 * (3 - e)) m) else push_bit (8 * (e - 3)) (ucast m)) =
         (of_nat (compact_value (unat m) e) :: u256)"
proof (cases "e \<le> 3")
  case True
  have "ucast (drop_bit (8 * (3 - e)) m) = (of_nat (unat (drop_bit (8 * (3 - e)) m)) :: u256)"
    by (simp only: of_nat_unat)
  with True show ?thesis
    by (simp only: unat_drop_bit power_256 compact_value_def if_True)
next
  case False
  have "push_bit (8 * (e - 3)) (ucast m) = (of_nat (unat m * 256 ^ (e - 3)) :: u256)"
    by (simp only: word_unat_eq_iff unat_push_bit unat_ucast unat_of_nat power_256 mod_mult_left_eq)
  with False show ?thesis
    by (simp only: compact_value_def if_False)
qed

lemma from_compact_unat:
  "from_compact bits =
     (if 0x7fffff < unat bits mod 2 ^ 24
      then Inl ''largest legal value for mantissa has been exceeded''
      else Inr (of_nat (compact_value (unat bits mod 2 ^ 24) (unat bits div 2 ^ 24))))"
proof -
  have "0x7fffff < bits AND 0xffffff \<longleftrightarrow> 0x7fffff < unat bits mod 2 ^ 24"
    by (simp only: word_less_nat_alt unat_and_low) simp
  then show ?thesis
    unfolding from_compact_def Let_def from_compact_value unat_and_low unat_drop_bit
    by (simp only:)
qed

lemma compact_value_parts:
  assumes "compact_parts n = (m, e)"
  shows "m = (if e \<le> 3 then n * 256 ^ (3 - e) else n div 256 ^ (e - 3))"
    and "compact_value m e = n div 256 ^ (e - 3) * 256 ^ (e - 3)"
proof -
  define b where "b = byte_length n"
  show m: "m = (if e \<le> 3 then n * 256 ^ (3 - e) else n div 256 ^ (e - 3))"
  proof (cases "2 ^ 23 \<le> compact_mantissa n")
    case False
    with assms show ?thesis by (auto simp: compact_parts_def compact_mantissa_def)
  next
    case True
    then have e: "m = compact_mantissa n div 256" "e = Suc b"
      using assms by (simp_all add: compact_parts_def b_def)
    consider "b \<le> 2" | "b = 3" | "b > 3" by linarith
    then show ?thesis
    proof cases
      case 1
      then have "3 - b = Suc (2 - b)" by simp
      with 1 e show ?thesis by (simp add: compact_mantissa_def b_def [symmetric] mult.assoc)
    next
      case 2
      with e show ?thesis by (simp add: compact_mantissa_def b_def [symmetric])
    next
      case 3
      then have "e - 3 = Suc (b - 3)" using e by simp
      with 3 e show ?thesis
        by (simp add: compact_mantissa_def b_def [symmetric] div_mult2_eq [symmetric] mult.commute)
    qed
  qed
  then show "compact_value m e = n div 256 ^ (e - 3) * 256 ^ (e - 3)"
    by (simp add: compact_value_def)
qed

lemma compact_parts_precision:
  assumes "compact_parts n = (m, e)" and "3 < e"
  shows "2 ^ 15 \<le> m"
proof (cases "2 ^ 23 \<le> compact_mantissa n")
  case True
  then have "2 ^ 15 \<le> compact_mantissa n div 256" by simp
  with True assms show ?thesis by (simp add: compact_parts_def)
next
  case False
  with assms have e: "m = n div 256 ^ (e - 3)" "byte_length n = e"
    by (auto simp: compact_parts_def compact_mantissa_def)
  have "\<not> n < 256 ^ (e - 1)"
    using byte_length_least [of n "e - 1"] e(2) assms(2) by auto
  then have "256 ^ (e - 1) \<le> n" by simp
  moreover have "(256 :: nat) ^ (e - 1) = 256 ^ 2 * 256 ^ (e - 3)"
  proof -
    have "e - 1 = 2 + (e - 3)" using assms(2) by simp
    then show ?thesis by (simp only: power_add)
  qed
  ultimately have "256 ^ 2 \<le> m"
    by (simp add: e(1) less_eq_div_iff_mult_less_eq)
  then show ?thesis by simp
qed

lemma compact_parts_of_large_value:
  assumes "2 ^ 15 \<le> m" and "m < 2 ^ 23"
  shows "compact_parts (m * 256 ^ k) = (m, 3 + k)"
proof (cases "2 ^ 16 \<le> m")
  case True
  have "byte_length (m * 256 ^ k) = Suc (2 + k)"
    by (rule byte_length_eq) (use True assms(2) in \<open>simp_all add: power_add\<close>)
  then have "byte_length (m * 256 ^ k) = 3 + k" by simp
  with assms(2) show ?thesis
    by (cases "k = 0") (simp_all add: compact_parts_def compact_mantissa_def)
next
  case False
  have "byte_length (m * 256 ^ k) = Suc (1 + k)"
    by (rule byte_length_eq) (use False assms(1) in \<open>simp_all add: power_add\<close>)
  then have b: "byte_length (m * 256 ^ k) = 2 + k" by simp
  have "compact_mantissa (m * 256 ^ k) = m * 256"
  proof (cases k)
    case (Suc j)
    then have "m * 256 ^ k = (m * 256) * 256 ^ j" by simp
    with b Suc show ?thesis by (cases j) (simp_all add: compact_mantissa_def)
  qed (use b in \<open>simp add: compact_mantissa_def\<close>)
  with b assms(1) show ?thesis by (simp add: compact_parts_def)
qed

lemma compact_parts_of_small_value:
  assumes "2 ^ 15 \<le> v * 256 ^ k" and "v * 256 ^ k < 2 ^ 23" and "k \<le> 2"
  shows "compact_parts v = (v * 256 ^ k, 3 - k)"
proof -
  consider "k = 0" | "k = 1" "2 ^ 16 \<le> v * 256" | "k = 1" "v * 256 < 2 ^ 16" | "k = 2"
    using assms(3) by force
  then show ?thesis
  proof cases
    case 1
    with compact_parts_of_large_value [of v 0] assms show ?thesis by simp
  next
    case 2
    have "byte_length v = Suc 1" by (rule byte_length_eq) (use 2 assms in simp_all)
    with 2 assms show ?thesis by (simp add: compact_parts_def compact_mantissa_def)
  next
    case 3
    have "byte_length v = Suc 0" by (rule byte_length_eq) (use 3 assms in simp_all)
    with 3 assms show ?thesis by (simp add: compact_parts_def compact_mantissa_def)
  next
    case 4
    have "byte_length v = Suc 0" by (rule byte_length_eq) (use 4 assms in simp_all)
    with 4 assms show ?thesis by (simp add: compact_parts_def compact_mantissa_def)
  qed
qed

text \<open>
  A compact form is normal when its mantissa is shifted as far left as its sign bit allows,
  its exponent loses no digit, and the target it denotes has at most 256 bits.
\<close>

definition normal_compact :: "u32 \<Rightarrow> bool" where
  "normal_compact bits \<longleftrightarrow>
     (let m = unat bits mod 2 ^ 24; e = unat bits div 2 ^ 24
      in 2 ^ 15 \<le> m \<and> m < 2 ^ 23 \<and> 1 \<le> e \<and> m mod 256 ^ (3 - e) = 0 \<and> m * 256 ^ (e - 3) < 2 ^ 256)"

lemma compact_parts_of_value:
  assumes "2 ^ 15 \<le> m" and "m < 2 ^ 23" and "1 \<le> e" and "m mod 256 ^ (3 - e) = 0"
  shows "compact_parts (compact_value m e) = (m, e)"
proof (cases "e \<le> 3")
  case True
  define k where "k = 3 - e"
  have "m div 256 ^ k * 256 ^ k = m" "3 - k = e" "k \<le> 2"
    using assms(3,4) True by (auto simp: k_def)
  with compact_parts_of_small_value [of "m div 256 ^ k" k] assms(1,2) True show ?thesis
    by (simp add: compact_value_def k_def)
next
  case False
  with compact_parts_of_large_value [OF assms(1,2), of "e - 3"] show ?thesis
    by (simp add: compact_value_def)
qed

section \<open>Properties\<close>

text \<open>
  C35. The compact form keeps a target up to its precision: \<open>into_compact\<close> of any target is a
  legal compact form, and reading it back gives a target that is not larger and differs by less
  than one part in \<open>2 ^ 15\<close>.
\<close>

theorem into_compact_precision:
  "\<exists>t'. from_compact (into_compact t) = Inr t' \<and> t' \<le> t \<and>
     (unat t - unat t') * 2 ^ 15 \<le> unat t'"
proof -
  obtain m e where p: "compact_parts (unat t) = (m, e)" by fastforce
  note b = compact_parts_bounds [OF p unat_u256_bound]
  note val = compact_value_parts [OF p]
  let ?v = "compact_value m e"
  have v: "?v \<le> unat t" unfolding val(2) by (rule div_times_less_eq_dividend)
  have u: "unat (of_nat ?v :: u256) = ?v"
    using le_less_trans [OF v unsigned_less] by (simp only: unat_of_nat mod_less)
  have "unat (into_compact t) mod 2 ^ 24 = m" "unat (into_compact t) div 2 ^ 24 = e"
    using b by (simp_all add: into_compact_unat [OF p])
  then have "from_compact (into_compact t) = Inr (of_nat ?v)"
    using b(1) by (simp add: from_compact_unat)
  moreover have "(unat t - ?v) * 2 ^ 15 \<le> ?v"
  proof (cases "e \<le> 3")
    case True
    then show ?thesis by (simp add: val(2))
  next
    case False
    have "unat t - ?v = unat t mod 256 ^ (e - 3)"
      unfolding val(2) by (simp add: minus_div_mult_eq_mod)
    then have "unat t - ?v \<le> 256 ^ (e - 3)"
      by (simp add: less_imp_le)
    moreover have "?v = m * 256 ^ (e - 3)"
      using False by (simp add: compact_value_def)
    moreover have "2 ^ 15 \<le> m"
      using compact_parts_precision [OF p] False by simp
    ultimately show ?thesis
      by (metis mult.commute mult_le_mono)
  qed
  ultimately show ?thesis
    using v u by (metis word_le_nat_alt)
qed

text \<open>
  Reading a normal compact form and writing it again gives the same 32 bits.
\<close>

theorem from_compact_normal:
  assumes "normal_compact bits"
  shows "\<exists>t. from_compact bits = Inr t \<and> into_compact t = bits"
proof -
  define m where "m = unat bits mod 2 ^ 24"
  define e where "e = unat bits div 2 ^ 24"
  have n: "2 ^ 15 \<le> m" "m < 2 ^ 23" "1 \<le> e" "m mod 256 ^ (3 - e) = 0" "m * 256 ^ (e - 3) < 2 ^ 256"
    using assms by (simp_all only: normal_compact_def Let_def m_def e_def)
  have "compact_value m e \<le> m * 256 ^ (e - 3)"
    by (simp add: compact_value_def div_le_dividend)
  then have u: "unat (of_nat (compact_value m e) :: u256) = compact_value m e"
    using n(5) by (simp only: unat_of_nat) simp
  have "unat (into_compact (of_nat (compact_value m e))) = m + e * 2 ^ 24"
    by (rule into_compact_unat) (simp only: u compact_parts_of_value [OF n(1-4)])
  also have "\<dots> = unat bits"
    unfolding m_def e_def by simp
  finally have "into_compact (of_nat (compact_value m e)) = bits"
    by (simp only: word_unat_eq_iff)
  moreover have "from_compact bits = Inr (of_nat (compact_value m e))"
    using n(2) unfolding from_compact_unat m_def [symmetric] e_def [symmetric] by simp
  ultimately show ?thesis by blast
qed

theorem from_compact_normal_witness:
  "normal_compact 0x1d00ffff \<and> (\<exists>t. from_compact 0x1d00ffff = Inr t \<and> into_compact t = 0x1d00ffff)"
proof -
  have "normal_compact 0x1d00ffff" by (simp add: normal_compact_def)
  with from_compact_normal [OF this] show ?thesis by blast
qed

lemma div_div_self:
  fixes d D :: nat
  assumes "0 < d" and "d * d \<le> D"
  shows "D div (D div d) = d"
proof (rule div_nat_eqI)
  have "d \<le> D div d" using assms by (simp add: less_eq_div_iff_mult_less_eq)
  moreover have "D mod d < d" using assms by simp
  moreover have "D = D div d * d + D mod d" by simp
  ultimately have "D < D div d * d + D div d" by linarith
  then show "D < D div d * Suc d" by simp
  show "D div d * d \<le> D" by simp
qed

lemma of_le_append: "of_le (xs @ ys) = of_le xs + 256 ^ length xs * of_le ys"
  by (induction xs) (simp_all add: algebra_simps)

lemma of_le_zeros: "of_le (replicate n 0) = 0"
  by (induction n) simp_all

lemma unat_difficulty_1: "unat difficulty_1_target = 0xffff * 2 ^ 208"
proof -
  have "of_be DIFFICULTY_1_TARGET_BYTES = 0xffff * 2 ^ 208"
  proof -
    have "replicate 2 (0xff :: u8) = [0xff, 0xff]" by (simp add: numeral_2_eq_2)
    then show ?thesis
      unfolding of_be_def DIFFICULTY_1_TARGET_BYTES_def rev_append rev_replicate of_le_append of_le_zeros
      by simp
  qed
  then show ?thesis unfolding difficulty_1_target_def by (simp add: unat_of_nat)
qed

text \<open>
  Pool difficulty survives the target: for every positive 64-bit difficulty, the target made
  from it has exactly that difficulty again, although both directions divide and truncate; the
  difficulty 0 is the only one that panics.
\<close>

theorem pool_difficulty_roundtrip:
  "((\<exists>t. from_pool_difficulty d = Some t \<and> get_difficulty t = Some d) \<longleftrightarrow> d \<noteq> 0) \<and>
   from_pool_difficulty 0 = None"
proof -
  have "\<exists>t. from_pool_difficulty d = Some t \<and> get_difficulty t = Some d" if "d \<noteq> 0"
  proof -
    let ?D = "0xffff * 2 ^ 208 :: nat"
    have d: "0 < unat d" "unat d < 2 ^ 64"
      using that unsigned_less [of d] by (simp_all add: unat_gt_0)
    then have "unat d * unat d \<le> 2 ^ 64 * 2 ^ 64" by (intro mult_le_mono) simp_all
    then have dd: "unat d * unat d \<le> ?D" by simp
    have c: "unat (ucast d :: u256) = unat d"
      using d(2) by (simp add: unat_ucast)
    have t: "unat (difficulty_1_target div ucast d) = ?D div unat d"
      by (simp only: unat_div unat_difficulty_1 c)
    have "?D div (?D div unat d) = unat d"
      by (rule div_div_self [OF d(1) dd])
    then have g: "unat (difficulty_1_target div (difficulty_1_target div ucast d)) = unat d"
      by (simp only: unat_div unat_difficulty_1 c)
    then have nz: "difficulty_1_target div ucast d \<noteq> 0"
      using d(1) by auto
    have "ucast (difficulty_1_target div (difficulty_1_target div ucast d)) = d"
      using d(2) by (simp only: word_unat_eq_iff unat_ucast g) simp
    with nz that show ?thesis
      by (simp add: from_pool_difficulty_def get_difficulty_def)
  qed
  then show ?thesis by (auto simp: from_pool_difficulty_def)
qed

text \<open>
  Meeting a target is the comparison of 256-bit numbers: a double hash, read as a
  little-endian number, meets exactly the targets that are not below it; the byte form of a
  target is the hash that just meets it.
\<close>

theorem meets_target:
  assumes "length h = 32"
  shows "(meets h t \<longleftrightarrow> of_le h \<le> unat t) \<and> meets (target_to_bytes t) t \<and>
         target_to_bytes (target_of_bytes h) = h \<and> target_of_bytes (target_to_bytes t) = t"
proof -
  have "of_le h < 2 ^ 256"
    using of_le_bound [of h] assms by simp
  then have "unat (target_of_bytes h) = of_le h"
    by (simp add: target_of_bytes_def unat_of_nat)
  then show ?thesis
    using assms
    by (simp add: meets_def is_greater_or_equal_def word_le_nat_alt target_to_bytes_def
        SHA256_DIGEST_SIZE_def target_of_bytes_def byte_simps)
qed

theorem meets_target_witness:
  "length (replicate 32 (1 :: u8)) = 32 \<and>
   target_to_bytes (target_of_bytes (replicate 32 1)) = replicate 32 1"
proof -
  have "length (replicate 32 (1 :: u8)) = 32" by (rule length_replicate)
  with meets_target [OF this] show ?thesis by blast
qed

text \<open>
  The words of a midstate lose nothing: writing the 32-bit words, or the 64-bit words, of a
  32-byte midstate in little-endian order gives the midstate back.
\<close>

theorem midstate_words_bytes:
  assumes "length m = 32"
  shows "concat (map (\<lambda>w. le_bytes 4 (unat w)) (midstate_words_u32 m)) = m \<and>
         concat (map (\<lambda>w. le_bytes 8 (unat w)) (midstate_words_u64 m)) = m"
proof -
  have w4: "le_bytes 4 (unat (of_nat (of_le c) :: u32)) = c" if "length c = 4" for c
    using that of_le_bound [of c] by (simp add: unat_of_nat byte_simps)
  have w8: "le_bytes 8 (unat (of_nat (of_le c) :: u64)) = c" if "length c = 8" for c
    using that of_le_bound [of c] by (simp add: unat_of_nat byte_simps)
  have c: "concat (chunks 4 m) = m" "list_all (\<lambda>c. length c = 4) (chunks 4 m)"
    "concat (chunks 8 m) = m" "list_all (\<lambda>c. length c = 8) (chunks 8 m)"
    using chunks_all [of m 8 4] chunks_all [of m 4 8] assms by simp_all
  have "concat (map (\<lambda>w. le_bytes 4 (unat w)) (midstate_words_u32 m)) = concat (chunks 4 m)"
    unfolding midstate_words_u32_def by (rule concat_map_words [OF c(2)]) (erule w4)
  moreover have "concat (map (\<lambda>w. le_bytes 8 (unat w)) (midstate_words_u64 m)) = concat (chunks 8 m)"
    unfolding midstate_words_u64_def by (rule concat_map_words [OF c(4)]) (erule w8)
  ultimately show ?thesis by (simp only: c)
qed

theorem midstate_words_bytes_witness:
  "length (replicate 32 (7 :: u8)) = 32 \<and>
   concat (map (\<lambda>w. le_bytes 4 (unat w)) (midstate_words_u32 (replicate 32 7))) = replicate 32 7"
proof -
  have "length (replicate 32 (7 :: u8)) = 32" by (rule length_replicate)
  with midstate_words_bytes [OF this] show ?thesis by blast
qed

text \<open>
  A block header packs to 80 bytes, different headers to different bytes, and its midstate
  depends only on the version, the previous hash and the first 28 bytes of the merkle root: a
  miner may roll time, bits, nonce and the last word of the merkle root without recomputing it.
\<close>

definition wf_block_header :: "block_header \<Rightarrow> bool" where
  "wf_block_header h \<longleftrightarrow> length (bh_previous_hash h) = 32 \<and> length (bh_merkle_root h) = 32"

lemma le_bytes_u32_inject: "le_bytes 4 (unat a) = le_bytes 4 (unat b) \<longleftrightarrow> a = (b :: u32)"
  by (metis of_nat_of_le_u32)

theorem block_header_layout:
  assumes "wf_block_header h" and "wf_block_header h'"
  shows "length (block_header_bytes h) = BLOCK_HEADER_SIZE \<and>
         (block_header_bytes h = block_header_bytes h' \<longleftrightarrow> h = h') \<and>
         (bh_version h = bh_version h' \<longrightarrow> bh_previous_hash h = bh_previous_hash h' \<longrightarrow>
          take 28 (bh_merkle_root h) = take 28 (bh_merkle_root h') \<longrightarrow>
          block_midstate mid h = block_midstate mid h')"
  using assms
  by (auto simp: wf_block_header_def block_header_bytes_def BLOCK_HEADER_SIZE_def
      block_midstate_def BLOCK_HEADER_CHUNK1_SIZE_def le_bytes_u32_inject intro: block_header.equality)

definition example_block :: block_header where
  "example_block =
     \<lparr>bh_version = 1, bh_previous_hash = replicate 32 0, bh_merkle_root = replicate 32 1,
      bh_time = 5, bh_bits = 0x1d00ffff, bh_nonce = 9\<rparr>"

theorem block_header_layout_witness:
  "wf_block_header example_block \<and>
   block_midstate id example_block = block_midstate id (example_block\<lparr>bh_nonce := 10\<rparr>)"
proof -
  have "wf_block_header example_block" "wf_block_header (example_block\<lparr>bh_nonce := 10\<rparr>)"
    by (simp_all only: wf_block_header_def example_block_def block_header.simps length_replicate
        block_header.update_convs)
  with block_header_layout [OF this, of id] show ?thesis by simp
qed

text \<open>
  Hashes and shares convert back and forth without loss, for any floating point: the number
  of shares behind a hash count made from shares is the original one.
\<close>

theorem shares_hashes_roundtrip:
  "shares_of_hashes F (shares_into_hashes s) = s"
proof -
  have "unat s < 2 ^ 64" using unsigned_less [of s] by simp
  then have "unat (ucast (drop_bit 32 (push_bit 32 (ucast s :: u128))) :: u64) = unat s"
    by (simp add: unat_shifts)
  then show ?thesis
    by (simp add: shares_of_hashes_def shares_into_hashes_def into_u128_def DIFFICULTY_1_SHIFT_def
        word_unat_eq_iff)
qed

end
