(* ===== verification/Text.thy ===== *)
theory Text
  imports Prelude
begin

text \<open>
  The text operations of Rust's standard library that the wire protocol code uses, on UTF-8
  bytes: printing an integer with \<open>{}\<close>, \<open>u16::from_str\<close>, \<open>str::split\<close> on an ASCII character,
  searching for a byte or a pair of bytes, and the text form of \<open>Ipv4Addr\<close>. The main facts are
  the round trips between printing and parsing.
\<close>

section \<open>Decimal numbers\<close>

definition digit :: "nat \<Rightarrow> u8" where
  "digit d = of_nat (48 + d)"

function dec_bytes :: "nat \<Rightarrow> bytes" where
  "dec_bytes n = (if n < 10 then [digit n] else dec_bytes (n div 10) @ [digit (n mod 10)])"
  by auto
termination by (relation "measure id") auto

declare dec_bytes.simps [simp del]

definition is_digit :: "u8 \<Rightarrow> bool" where
  "is_digit b \<longleftrightarrow> 48 \<le> b \<and> b \<le> 57"

definition digit_val :: "u8 \<Rightarrow> nat" where
  "digit_val b = unat b - 48"

text \<open>
  The digits of a number, with the running value checked against the largest value of the
  integer type, as \<open>checked_mul\<close> and \<open>checked_add\<close> do.
\<close>

fun parse_digits :: "nat \<Rightarrow> nat \<Rightarrow> bytes \<Rightarrow> nat option" where
  "parse_digits lim acc [] = Some acc"
| "parse_digits lim acc (b # bs) =
     (if is_digit b \<and> 10 * acc + digit_val b \<le> lim
      then parse_digits lim (10 * acc + digit_val b) bs else None)"

text \<open>\<open>u16::from_str\<close>: an optional plus sign, then at least one digit.\<close>

definition parse_u16 :: "bytes \<Rightarrow> u16 option" where
  "parse_u16 s =
     (let ds = (case s of b # r \<Rightarrow> if b = 0x2b \<and> r \<noteq> [] then r else s | [] \<Rightarrow> [])
      in if ds = [] then None else map_option of_nat (parse_digits 65535 0 ds))"

section \<open>Searching and splitting\<close>

fun find_byte :: "u8 \<Rightarrow> bytes \<Rightarrow> nat option" where
  "find_byte c [] = None"
| "find_byte c (b # bs) = (if b = c then Some 0 else map_option Suc (find_byte c bs))"

text \<open>\<open>windows(2).position(..)\<close>: the first position of a carriage return and line feed.\<close>

fun find_crlf :: "bytes \<Rightarrow> nat option" where
  "find_crlf (a # b # r) =
     (if a = 0x0d \<and> b = 0x0a then Some 0 else map_option Suc (find_crlf (b # r)))"
| "find_crlf _ = None"

fun split_on :: "u8 \<Rightarrow> bytes \<Rightarrow> bytes list" where
  "split_on c [] = [[]]"
| "split_on c (b # bs) =
     (if b = c then [] # split_on c bs
      else (case split_on c bs of p # ps \<Rightarrow> (b # p) # ps | [] \<Rightarrow> [[b]]))"

section \<open>IPv4 addresses\<close>

definition print_ipv4 :: "bytes \<Rightarrow> bytes" where
  "print_ipv4 a =
     dec_bytes (unat (a ! 0)) @ [0x2e] @ dec_bytes (unat (a ! 1)) @ [0x2e] @
     dec_bytes (unat (a ! 2)) @ [0x2e] @ dec_bytes (unat (a ! 3))"

text \<open>One to three digits, no leading zero, at most 255.\<close>

definition parse_octet :: "bytes \<Rightarrow> u8 option" where
  "parse_octet s =
     (if s = [] \<or> 3 < length s \<or> (1 < length s \<and> hd s = 0x30) then None
      else map_option of_nat (parse_digits 255 0 s))"

definition parse_ipv4 :: "bytes \<Rightarrow> bytes option" where
  "parse_ipv4 s =
     (case those (map parse_octet (split_on 0x2e s)) of
        Some os \<Rightarrow> if length os = 4 then Some os else None
      | None \<Rightarrow> None)"

section \<open>Facts\<close>

lemma unat_digit: "d < 10 \<Longrightarrow> unat (digit d) = 48 + d"
  unfolding digit_def by (simp only: unat_of_nat) simp

lemma is_digit_digit: "d < 10 \<Longrightarrow> is_digit (digit d)"
  by (simp add: is_digit_def word_le_nat_alt unat_digit)

lemma digit_val_digit: "d < 10 \<Longrightarrow> digit_val (digit d) = d"
  by (simp add: digit_val_def unat_digit)

lemma dec_bytes_digits: "list_all is_digit (dec_bytes n)"
proof (induction n rule: dec_bytes.induct)
  case (1 n)
  then show ?case by (subst dec_bytes.simps) (simp add: is_digit_digit)
qed

lemma dec_bytes_not_Nil: "dec_bytes n \<noteq> []"
  by (subst dec_bytes.simps) simp

lemma parse_digits_append:
  "parse_digits lim acc (xs @ ys) =
     (case parse_digits lim acc xs of None \<Rightarrow> None | Some a \<Rightarrow> parse_digits lim a ys)"
  by (induction xs arbitrary: acc) simp_all

lemma parse_digits_dec: "n \<le> lim \<Longrightarrow> parse_digits lim 0 (dec_bytes n) = Some n"
proof (induction n rule: dec_bytes.induct)
  case (1 n)
  show ?case
  proof (cases "n < 10")
    case True
    then show ?thesis
      using 1(2) by (subst dec_bytes.simps) (simp add: is_digit_digit digit_val_digit)
  next
    case False
    then have "parse_digits lim 0 (dec_bytes (n div 10)) = Some (n div 10)"
      using 1 by simp
    then show ?thesis
      using False 1(2)
      by (subst dec_bytes.simps) (simp add: parse_digits_append is_digit_digit digit_val_digit)
  qed
qed

lemma digit_not_sep: "is_digit b \<Longrightarrow> b \<noteq> 0x20 \<and> b \<noteq> 0x2e \<and> b \<noteq> 0x2b \<and> b \<noteq> 0x3a \<and> b \<noteq> 0x0d \<and> b \<noteq> 0x0a"
  by (auto simp: is_digit_def word_le_nat_alt)

lemma digit_ascii: "is_digit b \<Longrightarrow> b \<le> 0x7F"
  by (auto simp: is_digit_def word_le_nat_alt)

lemma parse_u16_dec: "parse_u16 (dec_bytes (unat p)) = Some p"
proof -
  obtain b r where d: "dec_bytes (unat p) = b # r"
    using dec_bytes_not_Nil [of "unat p"] by (cases "dec_bytes (unat p)") auto
  then have "b \<noteq> 0x2b"
    using dec_bytes_digits [of "unat p"] digit_not_sep by auto
  moreover have "parse_digits 65535 0 (dec_bytes (unat p)) = Some (unat p)"
    by (rule parse_digits_dec) (use unat_u16_bound [of p] in simp)
  ultimately show ?thesis using d by (simp add: parse_u16_def)
qed

lemma find_byte_append: "c \<notin> set xs \<Longrightarrow> find_byte c (xs @ c # ys) = Some (length xs)"
  by (induction xs) auto

lemma find_byte_Some: "find_byte c s = Some i \<Longrightarrow> i < length s \<and> s ! i = c \<and> c \<notin> set (take i s)"
  by (induction s arbitrary: i) (auto split: if_splits)

lemma find_byte_None: "find_byte c s = None \<longleftrightarrow> c \<notin> set s"
  by (induction s) auto

lemma find_crlf_append: "0x0d \<notin> set xs \<Longrightarrow> find_crlf (xs @ 0x0d # 0x0a # ys) = Some (length xs)"
proof (induction xs)
  case (Cons x xs)
  then show ?case by (cases xs) auto
qed simp

lemma find_crlf_Some:
  "find_crlf s = Some i \<Longrightarrow> Suc i < length s \<and> s ! i = 0x0d \<and> s ! Suc i = 0x0a"
  by (induction s arbitrary: i rule: find_crlf.induct) (auto split: if_splits)

lemma split_on_single: "c \<notin> set xs \<Longrightarrow> split_on c xs = [xs]"
  by (induction xs) auto

lemma split_on_append: "c \<notin> set xs \<Longrightarrow> split_on c (xs @ c # ys) = xs # split_on c ys"
  by (induction xs) auto

lemma dec_bytes_small: "n < 256 \<Longrightarrow> length (dec_bytes n) \<le> 3 \<and> (1 < length (dec_bytes n) \<longrightarrow> hd (dec_bytes n) \<noteq> 0x30)"
proof -
  assume n: "n < 256"
  have d: "digit k \<noteq> 0x30" if "0 < k" "k < 10" for k
    using that digit_val_digit [of k] by (auto simp: digit_val_def)
  consider "n < 10" | "10 \<le> n" "n < 100" | "100 \<le> n" by linarith
  then show ?thesis
  proof cases
    case 1
    then show ?thesis by (simp add: dec_bytes.simps)
  next
    case 2
    then have "0 < n div 10" "n div 10 < 10" by auto
    with 2 d show ?thesis by (simp add: dec_bytes.simps [of n] dec_bytes.simps [of "n div 10"])
  next
    case 3
    then have "0 < n div 10 div 10" "n div 10 div 10 < 10" "\<not> n div 10 < 10" using n by auto
    with 3 d show ?thesis
      by (simp add: dec_bytes.simps [of n] dec_bytes.simps [of "n div 10"]
          dec_bytes.simps [of "n div 10 div 10"])
  qed
qed

lemma parse_octet_dec: "parse_octet (dec_bytes (unat b)) = Some b"
  using dec_bytes_small [of "unat b"] unat_u8_bound [of b] dec_bytes_not_Nil [of "unat b"]
  by (auto simp: parse_octet_def parse_digits_dec)

lemma dec_bytes_no_sep:
  "0x20 \<notin> set (dec_bytes n)" "0x2e \<notin> set (dec_bytes n)" "0x3a \<notin> set (dec_bytes n)" "0x0d \<notin> set (dec_bytes n)"
  using dec_bytes_digits [of n] digit_not_sep by (auto simp: list_all_iff)

lemma length_4: "length a = 4 \<Longrightarrow> a = [a ! 0, a ! 1, a ! 2, a ! 3]"
  by (rule nth_equalityI) (auto simp: numeral_eq_Suc less_Suc_eq)

lemma parse_print_ipv4: "length a = 4 \<Longrightarrow> parse_ipv4 (print_ipv4 a) = Some a"
  by (subst (3) length_4)
    (simp_all add: parse_ipv4_def print_ipv4_def split_on_append split_on_single dec_bytes_no_sep
      parse_octet_dec)

lemma print_ipv4_chars:
  "0x20 \<notin> set (print_ipv4 a)" "0x0d \<notin> set (print_ipv4 a)" "list_all (\<lambda>b. b \<le> 0x7F) (print_ipv4 a)"
  using dec_bytes_digits digit_ascii
  by (auto simp: print_ipv4_def dec_bytes_no_sep list_all_iff)

end
