(* ===== verification/V1_Messages.thy ===== *)
theory V1_Messages
  imports V2_Framing Text
begin

text \<open>
  Stratum V1: \<open>protocols/stratum/src/v1.rs\<close> (hex encoded fields), \<open>v1/rpc.rs\<close> (requests,
  responses and their normalization), \<open>v1/messages.rs\<close> (the requests and results with the
  conversions that \<open>impl_request!\<close>, \<open>declare_request!\<close> and \<open>impl_response!\<close> generate) and
  \<open>v1/framing.rs\<close>.

  JSON texts are parsed and printed by \<open>serde_json\<close>, hex strings by the \<open>hex\<close> and
  \<open>bitcoin_hashes\<close> crates, which also compute double SHA256. These are the fields of the parameter
  \<open>v1_libs\<close>; \<open>libs_contract\<close> states the documented behaviour the theorems rely on. The JSON
  \<open>Value\<close> itself is public and its constructors are used by the proxy, so it is a datatype here:
  a \<open>Map\<close> is an association list, read with \<open>map_of\<close>.

  A request is a value of \<open>v1_request\<close>; \<open>request_params\<close> is its \<open>Serialize\<close> implementation and
  \<open>request_of_params\<close> its \<open>Deserialize\<close> implementation: structs with named fields become tuples,
  newtypes the value they wrap, and the hex encoded types go through \<open>String\<close>.
\<close>

section \<open>JSON values and the libraries\<close>

datatype json_number = PosInt u64 | NegInt u64 | Float u64

datatype json_value =
    JNull
  | JBool bool
  | JNumber json_number
  | JString bytes
  | JArray "json_value list"
  | JObject "(bytes \<times> json_value) list"

definition as_bool :: "json_value \<Rightarrow> bool option" where
  "as_bool v = (case v of JBool b \<Rightarrow> Some b | _ \<Rightarrow> None)"

definition as_u64 :: "json_number \<Rightarrow> u64 option" where
  "as_u64 n = (case n of PosInt x \<Rightarrow> Some x | _ \<Rightarrow> None)"

text \<open>\<open>value[key]\<close> is \<open>Null\<close> for a missing key and for anything but an object.\<close>

definition value_index :: "json_value \<Rightarrow> bytes \<Rightarrow> json_value" where
  "value_index v k =
     (case v of JObject m \<Rightarrow> (case map_of m k of Some x \<Rightarrow> x | None \<Rightarrow> JNull) | _ \<Rightarrow> JNull)"

fun map_insert :: "bytes \<Rightarrow> json_value \<Rightarrow> (bytes \<times> json_value) list \<Rightarrow> (bytes \<times> json_value) list" where
  "map_insert k v [] = [(k, v)]"
| "map_insert k v ((k', v') # m) = (if k = k' then (k, v) # m else (k', v') # map_insert k v m)"

text \<open>
  \<open>hex_decode\<close>, \<open>hex_encode\<close>: the \<open>hex\<close> crate; \<open>from_hex4\<close>, \<open>to_hex4\<close>: \<open>FromHex\<close> and \<open>ToHex\<close> for
  \<open>[u8; 4]\<close>; \<open>de_T\<close>: \<open>serde_json::from_value::<T>\<close>, where \<open>de_tuple n\<close> splits a value into the \<open>n\<close>
  elements of a tuple; \<open>ser_f32\<close>: \<open>serde_json::to_value\<close> of a float given by its bits;
  \<open>sha256d\<close>: \<open>sha256d::Hash::hash\<close>. Errors are their texts.
\<close>

record v1_libs =
  hex_decode :: "bytes \<Rightarrow> string + bytes"
  hex_encode :: "bytes \<Rightarrow> bytes"
  from_hex4 :: "bytes \<Rightarrow> string + bytes"
  to_hex4 :: "bytes \<Rightarrow> bytes"
  de_string :: "json_value \<Rightarrow> string + bytes"
  de_bool :: "json_value \<Rightarrow> string + bool"
  de_usize :: "json_value \<Rightarrow> string + nat"
  de_f32 :: "json_value \<Rightarrow> string + u32"
  de_vec :: "json_value \<Rightarrow> string + json_value list"
  de_tuple :: "nat \<Rightarrow> json_value \<Rightarrow> string + json_value list"
  ser_f32 :: "u32 \<Rightarrow> json_value"
  sha256d :: "bytes \<Rightarrow> bytes"

definition f32_finite :: "u32 \<Rightarrow> bool" where
  "f32_finite x \<longleftrightarrow> unat x div 2 ^ 23 mod 256 \<noteq> 255"

definition libs_contract :: "v1_libs \<Rightarrow> bool" where
  "libs_contract L \<longleftrightarrow>
     (\<forall>b. length (hex_encode L b) = 2 * length b \<and> hex_decode L (hex_encode L b) = Inr b) \<and>
     (\<forall>s b. hex_decode L s = Inr b \<longrightarrow> length s = 2 * length b) \<and>
     (\<forall>b. length b = 4 \<longrightarrow> from_hex4 L (to_hex4 L b) = Inr b \<and> take 2 (to_hex4 L b) \<noteq> ascii ''0x'') \<and>
     (\<forall>s. de_string L (JString s) = Inr s) \<and> (\<forall>b. de_bool L (JBool b) = Inr b) \<and>
     (\<forall>n < 2 ^ 64. de_usize L (JNumber (PosInt (of_nat n))) = Inr n) \<and>
     (\<forall>x. f32_finite x \<longrightarrow> de_f32 L (ser_f32 L x) = Inr x) \<and>
     (\<forall>vs. de_vec L (JArray vs) = Inr vs \<and> de_tuple L (length vs) (JArray vs) = Inr vs) \<and>
     (\<forall>b. length (sha256d L b) = 32)"

section \<open>Hex encoded fields\<close>

definition v1_hex_decode :: "v1_libs \<Rightarrow> bytes \<Rightarrow> string + bytes" where
  "v1_hex_decode L s =
     (if length s mod 2 \<noteq> 0 then hex_decode L (ascii ''0'' @ s) else hex_decode L s)"

definition hex_bytes_try_from :: "v1_libs \<Rightarrow> bytes \<Rightarrow> stratum_error + bytes" where
  "hex_bytes_try_from L s = map_err HexDecode (v1_hex_decode L s)"

text \<open>\<open>From<String>\<close>, which serde uses: a string that is not hex becomes the empty value.\<close>

definition hex_bytes_from :: "v1_libs \<Rightarrow> bytes \<Rightarrow> bytes" where
  "hex_bytes_from L s = (case hex_bytes_try_from L s of Inr b \<Rightarrow> b | Inl _ \<Rightarrow> [])"

definition hex_bytes_into :: "v1_libs \<Rightarrow> bytes \<Rightarrow> bytes" where
  "hex_bytes_into L b = hex_encode L b"

definition prev_hash_try_from :: "v1_libs \<Rightarrow> bytes \<Rightarrow> stratum_error + bytes" where
  "prev_hash_try_from L s =
     rbind (map_err HexDecode (v1_hex_decode L s))
       (\<lambda>stratum_order.
          if length stratum_order \<noteq> 32
          then Inl (V1Error (JsonError (ascii ''Incorrect prev hash length: '' @ dec_bytes (length stratum_order))))
          else Inr (concat (map (\<lambda>chunk. le_bytes 4 (of_be chunk)) (chunks 4 stratum_order))))"

definition prev_hash_from :: "v1_libs \<Rightarrow> bytes \<Rightarrow> bytes" where
  "prev_hash_from L s = (case prev_hash_try_from L s of Inr b \<Rightarrow> b | Inl _ \<Rightarrow> [])"

text \<open>\<open>LittleEndian::read_u32\<close> panics on a chunk of less than four bytes (\<open>None\<close>).\<close>

definition prev_hash_into :: "v1_libs \<Rightarrow> bytes \<Rightarrow> bytes option" where
  "prev_hash_into L p =
     (if length p mod 4 \<noteq> 0 then None
      else Some (hex_encode L (concat (map (\<lambda>chunk. be_bytes 4 (of_le chunk)) (chunks 4 p)))))"

text \<open>\<open>trim_start_matches("0x")\<close> removes the prefix as often as it occurs.\<close>

fun trim_0x :: "bytes \<Rightarrow> bytes" where
  "trim_0x (a # b # s) = (if a = 0x30 \<and> b = 0x78 then trim_0x s else a # b # s)"
| "trim_0x s = s"

definition hex_u32_le_try_from :: "v1_libs \<Rightarrow> bytes \<Rightarrow> stratum_error + u32" where
  "hex_u32_le_try_from L s = rmap (\<lambda>b. of_nat (of_le b)) (map_err BitcoinHash (from_hex4 L (trim_0x s)))"

definition hex_u32_le_from :: "v1_libs \<Rightarrow> bytes \<Rightarrow> u32" where
  "hex_u32_le_from L s = (case hex_u32_le_try_from L s of Inr x \<Rightarrow> x | Inl _ \<Rightarrow> 0)"

definition hex_u32_le_into :: "v1_libs \<Rightarrow> u32 \<Rightarrow> bytes" where
  "hex_u32_le_into L x = to_hex4 L (le_bytes 4 (unat x))"

definition hex_u32_be_try_from :: "v1_libs \<Rightarrow> bytes \<Rightarrow> stratum_error + u32" where
  "hex_u32_be_try_from L s = rmap (\<lambda>b. of_nat (of_be b)) (map_err BitcoinHash (from_hex4 L (trim_0x s)))"

definition hex_u32_be_from :: "v1_libs \<Rightarrow> bytes \<Rightarrow> u32" where
  "hex_u32_be_from L s = (case hex_u32_be_try_from L s of Inr x \<Rightarrow> x | Inl _ \<Rightarrow> 0)"

definition hex_u32_be_into :: "v1_libs \<Rightarrow> u32 \<Rightarrow> bytes" where
  "hex_u32_be_into L x = to_hex4 L (be_bytes 4 (unat x))"

section \<open>Requests and responses\<close>

datatype v1_method =
    Subscribe | ExtranonceSubscribe | Authorize | SetDifficulty | SetExtranonce | Configure
  | Submit | Notify | SetVersionMask | ClientReconnect | Ping
  | ResultMethod | ErrorMethod

record v1_rpc_request =
  req_id :: "u32 option"
  req_method :: v1_method
  req_params :: json_value

datatype v1_stratum_error = StratumErr "32 word" bytes "bytes option"

record v1_rpc_response =
  resp_id :: u32
  stratum_result :: "json_value option"
  stratum_err :: "v1_stratum_error option"

datatype v1_rpc = RpcRequest v1_rpc_request | RpcResponse v1_rpc_response

definition json_rpc_normalize :: "v1_rpc_response \<Rightarrow> stratum_error + v1_rpc_response" where
  "json_rpc_normalize r =
     (case (stratum_result r, stratum_err r) of
        (Some result, None) \<Rightarrow> Inr \<lparr>resp_id = resp_id r, stratum_result = Some result, stratum_err = None\<rparr>
      | (None, Some err) \<Rightarrow> Inr \<lparr>resp_id = resp_id r, stratum_result = None, stratum_err = Some err\<rparr>
      | (Some result, Some err) \<Rightarrow>
          Inr \<lparr>resp_id = resp_id r, stratum_result = None, stratum_err = Some err\<rparr>
      | (None, None) \<Rightarrow> Inl (V1Error (JsonError (ascii ''Invalid JSON-RPC''))))"

text \<open>\<open>TryFrom<Response> for ResponsePayload\<close>: the payload is itself a result.\<close>

definition response_payload :: "v1_rpc_response \<Rightarrow> stratum_error + (v1_stratum_error + json_value)" where
  "response_payload resp =
     rbind (json_rpc_normalize resp)
       (\<lambda>r. case stratum_result r of
              Some v \<Rightarrow> Inr (Inr v)
            | None \<Rightarrow>
                (case stratum_err r of
                   Some e \<Rightarrow> Inr (Inl e)
                 | None \<Rightarrow> Inl (Panic ''BUG: Invalid json rpc generated in code'')))"

definition rpc_get_id :: "v1_rpc \<Rightarrow> v1_method" where
  "rpc_get_id rpc =
     (case rpc of
        RpcRequest r \<Rightarrow> req_method r
      | RpcResponse r \<Rightarrow> if stratum_err r \<noteq> None then ErrorMethod else ResultMethod)"

definition result_of_rpc :: "v1_rpc \<Rightarrow> stratum_error + (u32 option \<times> json_value)" where
  "result_of_rpc rpc =
     (case rpc of
        RpcResponse r \<Rightarrow>
          (case stratum_result r of
             Some res \<Rightarrow> Inr (Some (resp_id r), res)
           | None \<Rightarrow> Inl (V1Error (RpcError (ascii ''This Rpc is not a valid StratumResult''))))
      | RpcRequest _ \<Rightarrow> Inl (V1Error (RpcError (ascii ''This Rpc is not a valid StratumResult''))))"

definition error_of_rpc :: "v1_rpc \<Rightarrow> stratum_error + (u32 option \<times> v1_stratum_error)" where
  "error_of_rpc rpc =
     (case rpc of
        RpcResponse r \<Rightarrow>
          (case stratum_err r of
             Some err \<Rightarrow> Inr (Some (resp_id r), err)
           | None \<Rightarrow> Inl (V1Error (RpcError (ascii ''This Rpc is not a valid StratumError''))))
      | RpcRequest _ \<Rightarrow> Inl (V1Error (RpcError (ascii ''This Rpc is not a valid StratumError''))))"

text \<open>
  \<open>TryFrom<&[u8]> for Rpc\<close>: \<open>parse_json\<close> is \<open>serde_json::from_slice\<close>; the text of its error
  replaces the longer message of the source.
\<close>

definition rpc_try_from :: "(bytes \<Rightarrow> string + v1_rpc) \<Rightarrow> bytes \<Rightarrow> stratum_error + v1_rpc" where
  "rpc_try_from parse_json frame =
     rbind (map_err (\<lambda>e. V1Error (JsonError (ascii (''Invalid V1 message: '' @ e)))) (parse_json frame))
       (\<lambda>rpc. case rpc of
                RpcResponse r \<Rightarrow> rmap RpcResponse (json_rpc_normalize r)
              | RpcRequest r \<Rightarrow> Inr (RpcRequest r))"

text \<open>
  \<open>framing.rs\<close>: a frame is a payload; serializing appends its bytes to the buffer, and a failing
  serializer leaves the buffer without what had been split off.
\<close>

definition v1_frame_serialize ::
  "'p serialize_fn \<Rightarrow> 'p payload \<Rightarrow> bytes \<Rightarrow> bytes \<times> (stratum_error + unit)" where
  "v1_frame_serialize ser p dst =
     (case serialize_to_writer ser p of
        Inl e \<Rightarrow> ([], Inl e)
      | Inr b \<Rightarrow> (dst @ b, Inr ()))"

definition rpc_of_frame ::
  "v1_rpc serialize_fn \<Rightarrow> (bytes \<Rightarrow> string + v1_rpc) \<Rightarrow> v1_rpc payload \<Rightarrow> stratum_error + v1_rpc" where
  "rpc_of_frame ser parse_json frame = rbind (into_bytes_mut ser frame) (rpc_try_from parse_json)"

section \<open>Messages\<close>

record version_rolling =
  vr_mask :: u32
  vr_min_bit_count :: nat

definition version_rolling_new :: "u32 \<Rightarrow> nat \<Rightarrow> version_rolling" where
  "version_rolling_new m n = \<lparr>vr_mask = m, vr_min_bit_count = n\<rparr>"

definition json_usize :: "nat \<Rightarrow> json_value" where
  "json_usize n = JNumber (PosInt (of_nat n))"

definition version_rolling_feature :: "v1_libs \<Rightarrow> version_rolling \<Rightarrow> bytes \<times> json_value" where
  "version_rolling_feature L f =
     (ascii ''version-rolling'',
      JObject [(ascii ''version-rolling.mask'', JString (hex_u32_be_into L (vr_mask f))),
               (ascii ''version-rolling.min-bit-count'', json_usize (vr_min_bit_count f))])"

record configure =
  cf_features :: "bytes list"
  cf_map :: json_value

definition configure_new :: configure where
  "configure_new = \<lparr>cf_features = [], cf_map = JObject []\<rparr>"

text \<open>\<open>add_feature\<close>, given what the feature's \<open>try_into\<close> returns.\<close>

definition add_feature :: "bytes \<times> json_value \<Rightarrow> configure \<Rightarrow> configure" where
  "add_feature feature c =
     (let c = c\<lparr>cf_features := cf_features c @ [fst feature]\<rparr>
      in case cf_map c of
           JObject m \<Rightarrow>
             (case snd feature of
                JObject fm \<Rightarrow> c\<lparr>cf_map := JObject (fold (\<lambda>(k, v). map_insert k v) fm m)\<rparr>
              | _ \<Rightarrow> c)
         | _ \<Rightarrow> c)"

record set_extranonce =
  se_extra_nonce1 :: bytes
  se_extra_nonce2_size :: nat

record subscribe =
  sb_agent_signature :: "bytes option"
  sb_extra_nonce1 :: "bytes option"
  sb_url :: "bytes option"
  sb_port :: "bytes option"

record subscribe_result =
  sr_subscriptions :: "json_value list"
  sr_extra_nonce_1 :: bytes
  sr_extra_nonce_2_size :: nat

record authorize =
  au_name :: bytes
  au_password :: bytes

record notify =
  n_job_id :: bytes
  n_prev_hash :: bytes
  n_coin_base_1 :: bytes
  n_coin_base_2 :: bytes
  n_merkle_branch :: "bytes list"
  n_version :: u32
  n_bits :: u32
  n_time :: u32
  n_clean_jobs :: bool

record submit =
  s_user_name :: bytes
  s_job_id :: bytes
  s_extra_nonce_2 :: bytes
  s_time :: u32
  s_nonce :: u32
  s_version :: u32

definition submit_new :: "bytes \<Rightarrow> bytes \<Rightarrow> bytes \<Rightarrow> u32 \<Rightarrow> u32 \<Rightarrow> u32 \<Rightarrow> submit" where
  "submit_new user_name job_id extra_nonce2 time nonce version =
     \<lparr>s_user_name = user_name, s_job_id = job_id, s_extra_nonce_2 = extra_nonce2, s_time = time,
      s_nonce = nonce, s_version = version\<rparr>"

text \<open>\<open>SetDifficulty\<close> holds the bits of its float, \<open>ClientReconnect\<close> and \<open>Ping\<close> a list of values.\<close>

datatype v1_request =
    ReqSubscribe subscribe
  | ReqExtranonceSubscribe
  | ReqAuthorize authorize
  | ReqSetDifficulty u32
  | ReqSetExtranonce set_extranonce
  | ReqConfigure configure
  | ReqSubmit submit
  | ReqNotify notify
  | ReqSetVersionMask u32
  | ReqClientReconnect "json_value list"
  | ReqPing "json_value list"

fun request_method :: "v1_request \<Rightarrow> v1_method" where
  "request_method (ReqSubscribe _) = Subscribe"
| "request_method ReqExtranonceSubscribe = ExtranonceSubscribe"
| "request_method (ReqAuthorize _) = Authorize"
| "request_method (ReqSetDifficulty _) = SetDifficulty"
| "request_method (ReqSetExtranonce _) = SetExtranonce"
| "request_method (ReqConfigure _) = Configure"
| "request_method (ReqSubmit _) = Submit"
| "request_method (ReqNotify _) = Notify"
| "request_method (ReqSetVersionMask _) = SetVersionMask"
| "request_method (ReqClientReconnect _) = ClientReconnect"
| "request_method (ReqPing _) = Ping"

text \<open>\<open>serde_json::to_value\<close> of a request; \<open>None\<close> where the serializer panics.\<close>

definition json_opt :: "('a \<Rightarrow> json_value) \<Rightarrow> 'a option \<Rightarrow> json_value" where
  "json_opt f x = (case x of None \<Rightarrow> JNull | Some v \<Rightarrow> f v)"

definition notify_params :: "v1_libs \<Rightarrow> notify \<Rightarrow> json_value option" where
  "notify_params L n =
     map_option
       (\<lambda>prev_hash. JArray
          [JString (n_job_id n), JString prev_hash, JString (hex_bytes_into L (n_coin_base_1 n)),
           JString (hex_bytes_into L (n_coin_base_2 n)),
           JArray (map (\<lambda>h. JString (hex_bytes_into L h)) (n_merkle_branch n)),
           JString (hex_u32_be_into L (n_version n)), JString (hex_u32_be_into L (n_bits n)),
           JString (hex_u32_be_into L (n_time n)), JBool (n_clean_jobs n)])
       (prev_hash_into L (n_prev_hash n))"

definition submit_params :: "v1_libs \<Rightarrow> submit \<Rightarrow> json_value" where
  "submit_params L s =
     JArray [JString (s_user_name s), JString (s_job_id s), JString (hex_bytes_into L (s_extra_nonce_2 s)),
             JString (hex_u32_be_into L (s_time s)), JString (hex_u32_be_into L (s_nonce s)),
             JString (hex_u32_be_into L (s_version s))]"

fun request_params :: "v1_libs \<Rightarrow> v1_request \<Rightarrow> json_value option" where
  "request_params L (ReqSubscribe s) =
     Some (JArray [json_opt JString (sb_agent_signature s),
                   json_opt (\<lambda>b. JString (hex_bytes_into L b)) (sb_extra_nonce1 s),
                   json_opt JString (sb_url s), json_opt JString (sb_port s)])"
| "request_params L ReqExtranonceSubscribe = Some JNull"
| "request_params L (ReqAuthorize a) = Some (JArray [JString (au_name a), JString (au_password a)])"
| "request_params L (ReqSetDifficulty d) = Some (JArray [ser_f32 L d])"
| "request_params L (ReqSetExtranonce e) =
     Some (JArray [JString (hex_bytes_into L (se_extra_nonce1 e)), json_usize (se_extra_nonce2_size e)])"
| "request_params L (ReqConfigure c) = Some (JArray [JArray (map JString (cf_features c)), cf_map c])"
| "request_params L (ReqSubmit s) = Some (submit_params L s)"
| "request_params L (ReqNotify n) = notify_params L n"
| "request_params L (ReqSetVersionMask m) = Some (JArray [JString (hex_u32_be_into L m)])"
| "request_params L (ReqClientReconnect vs) = Some (JArray vs)"
| "request_params L (ReqPing vs) = Some (JArray vs)"

definition request_payload :: "v1_libs \<Rightarrow> v1_request \<Rightarrow> (v1_method \<times> json_value) option" where
  "request_payload L r = map_option (Pair (request_method r)) (request_params L r)"

text \<open>\<open>serde_json::from_value\<close> of a request's parameters.\<close>

definition de_hex_bytes :: "v1_libs \<Rightarrow> json_value \<Rightarrow> string + bytes" where
  "de_hex_bytes L v = rmap (hex_bytes_from L) (de_string L v)"

definition de_prev_hash :: "v1_libs \<Rightarrow> json_value \<Rightarrow> string + bytes" where
  "de_prev_hash L v = rmap (prev_hash_from L) (de_string L v)"

definition de_hex_u32_be :: "v1_libs \<Rightarrow> json_value \<Rightarrow> string + u32" where
  "de_hex_u32_be L v = rmap (hex_u32_be_from L) (de_string L v)"

definition de_opt :: "(json_value \<Rightarrow> string + 'a) \<Rightarrow> json_value \<Rightarrow> string + 'a option" where
  "de_opt f v = (if v = JNull then Inr None else rmap Some (f v))"

fun de_elems :: "(json_value \<Rightarrow> string + 'a) \<Rightarrow> json_value list \<Rightarrow> string + 'a list" where
  "de_elems f [] = Inr []"
| "de_elems f (v # vs) = rbind (f v) (\<lambda>x. rmap (Cons x) (de_elems f vs))"

definition de_list :: "v1_libs \<Rightarrow> (json_value \<Rightarrow> string + 'a) \<Rightarrow> json_value \<Rightarrow> string + 'a list" where
  "de_list L f v = rbind (de_vec L v) (de_elems f)"

definition subscribe_of_params :: "v1_libs \<Rightarrow> json_value \<Rightarrow> string + subscribe" where
  "subscribe_of_params L v = rbind (de_tuple L 4 v) (\<lambda>vs. case vs of
     [a, b, c, d] \<Rightarrow>
       rbind (de_opt (de_string L) a) (\<lambda>a. rbind (de_opt (de_hex_bytes L) b) (\<lambda>b.
       rbind (de_opt (de_string L) c) (\<lambda>c. rbind (de_opt (de_string L) d) (\<lambda>d.
         Inr \<lparr>sb_agent_signature = a, sb_extra_nonce1 = b, sb_url = c, sb_port = d\<rparr>))))
   | _ \<Rightarrow> Inl ''invalid length'')"

definition authorize_of_params :: "v1_libs \<Rightarrow> json_value \<Rightarrow> string + authorize" where
  "authorize_of_params L v = rbind (de_tuple L 2 v) (\<lambda>vs. case vs of
     [a, b] \<Rightarrow>
       rbind (de_string L a) (\<lambda>a. rbind (de_string L b) (\<lambda>b. Inr \<lparr>au_name = a, au_password = b\<rparr>))
   | _ \<Rightarrow> Inl ''invalid length'')"

definition set_difficulty_of_params :: "v1_libs \<Rightarrow> json_value \<Rightarrow> string + u32" where
  "set_difficulty_of_params L v = rbind (de_tuple L 1 v) (\<lambda>vs. case vs of
     [a] \<Rightarrow> de_f32 L a
   | _ \<Rightarrow> Inl ''invalid length'')"

definition set_extranonce_of_params :: "v1_libs \<Rightarrow> json_value \<Rightarrow> string + set_extranonce" where
  "set_extranonce_of_params L v = rbind (de_tuple L 2 v) (\<lambda>vs. case vs of
     [a, b] \<Rightarrow>
       rbind (de_hex_bytes L a) (\<lambda>a. rbind (de_usize L b) (\<lambda>b.
         Inr \<lparr>se_extra_nonce1 = a, se_extra_nonce2_size = b\<rparr>))
   | _ \<Rightarrow> Inl ''invalid length'')"

definition configure_of_params :: "v1_libs \<Rightarrow> json_value \<Rightarrow> string + configure" where
  "configure_of_params L v = rbind (de_tuple L 2 v) (\<lambda>vs. case vs of
     [a, b] \<Rightarrow> rbind (de_list L (de_string L) a) (\<lambda>a. Inr \<lparr>cf_features = a, cf_map = b\<rparr>)
   | _ \<Rightarrow> Inl ''invalid length'')"

definition submit_of_params :: "v1_libs \<Rightarrow> json_value \<Rightarrow> string + submit" where
  "submit_of_params L v = rbind (de_tuple L 6 v) (\<lambda>vs. case vs of
     [a, b, c, d, e, f] \<Rightarrow>
       rbind (de_string L a) (\<lambda>a. rbind (de_string L b) (\<lambda>b. rbind (de_hex_bytes L c) (\<lambda>c.
       rbind (de_hex_u32_be L d) (\<lambda>d. rbind (de_hex_u32_be L e) (\<lambda>e. rbind (de_hex_u32_be L f) (\<lambda>f.
         Inr \<lparr>s_user_name = a, s_job_id = b, s_extra_nonce_2 = c, s_time = d, s_nonce = e,
              s_version = f\<rparr>))))))
   | _ \<Rightarrow> Inl ''invalid length'')"

definition notify_of_params :: "v1_libs \<Rightarrow> json_value \<Rightarrow> string + notify" where
  "notify_of_params L v = rbind (de_tuple L 9 v) (\<lambda>vs. case vs of
     [a, b, c, d, e, f, g, h, i] \<Rightarrow>
       rbind (de_string L a) (\<lambda>a. rbind (de_prev_hash L b) (\<lambda>b. rbind (de_hex_bytes L c) (\<lambda>c.
       rbind (de_hex_bytes L d) (\<lambda>d. rbind (de_list L (de_hex_bytes L) e) (\<lambda>e.
       rbind (de_hex_u32_be L f) (\<lambda>f. rbind (de_hex_u32_be L g) (\<lambda>g. rbind (de_hex_u32_be L h) (\<lambda>h.
       rbind (de_bool L i) (\<lambda>i.
         Inr \<lparr>n_job_id = a, n_prev_hash = b, n_coin_base_1 = c, n_coin_base_2 = d,
              n_merkle_branch = e, n_version = f, n_bits = g, n_time = h, n_clean_jobs = i\<rparr>)))))))))
   | _ \<Rightarrow> Inl ''invalid length'')"

definition set_version_mask_of_params :: "v1_libs \<Rightarrow> json_value \<Rightarrow> string + u32" where
  "set_version_mask_of_params L v = rbind (de_tuple L 1 v) (\<lambda>vs. case vs of
     [a] \<Rightarrow> de_hex_u32_be L a
   | _ \<Rightarrow> Inl ''invalid length'')"

fun request_of_params :: "v1_libs \<Rightarrow> v1_method \<Rightarrow> json_value \<Rightarrow> string + v1_request" where
  "request_of_params L Subscribe v = rmap ReqSubscribe (subscribe_of_params L v)"
| "request_of_params L ExtranonceSubscribe v =
     (if v = JNull then Inr ReqExtranonceSubscribe else Inl ''expected unit struct'')"
| "request_of_params L Authorize v = rmap ReqAuthorize (authorize_of_params L v)"
| "request_of_params L SetDifficulty v = rmap ReqSetDifficulty (set_difficulty_of_params L v)"
| "request_of_params L SetExtranonce v = rmap ReqSetExtranonce (set_extranonce_of_params L v)"
| "request_of_params L Configure v = rmap ReqConfigure (configure_of_params L v)"
| "request_of_params L Submit v = rmap ReqSubmit (submit_of_params L v)"
| "request_of_params L Notify v = rmap ReqNotify (notify_of_params L v)"
| "request_of_params L SetVersionMask v = rmap ReqSetVersionMask (set_version_mask_of_params L v)"
| "request_of_params L ClientReconnect v = rmap ReqClientReconnect (de_vec L v)"
| "request_of_params L Ping v = rmap ReqPing (de_vec L v)"
| "request_of_params L ResultMethod v = Inl ''not a request''"
| "request_of_params L ErrorMethod v = Inl ''not a request''"

text \<open>
  \<open>TryFrom<rpc::Request>\<close> for the request of method \<open>m\<close>, with its assertion, and
  \<open>TryFrom<rpc::Rpc>\<close> for it paired with the message id.
\<close>

definition request_of_rpc_request :: "v1_libs \<Rightarrow> v1_method \<Rightarrow> v1_rpc_request \<Rightarrow> stratum_error + v1_request" where
  "request_of_rpc_request L m req =
     (if req_method req \<noteq> m then Inl (Panic ''assertion failed'')
      else map_err Serde (request_of_params L m (req_params req)))"

definition request_of_rpc :: "v1_libs \<Rightarrow> v1_method \<Rightarrow> v1_rpc \<Rightarrow> stratum_error + (u32 option \<times> v1_request)" where
  "request_of_rpc L m rpc =
     (case rpc of
        RpcRequest request \<Rightarrow> rmap (Pair (req_id request)) (request_of_rpc_request L m request)
      | RpcResponse _ \<Rightarrow> Inl (V1Error (RpcError (ascii ''BUG: response handled as request''))))"

text \<open>\<open>TryFrom<&StratumResult>\<close> for the results the proxy reads, and for \<open>Response\<close>.\<close>

definition boolean_result :: "v1_libs \<Rightarrow> json_value \<Rightarrow> stratum_error + bool" where
  "boolean_result L v = map_err Serde (de_bool L v)"

definition subscribe_result_of :: "v1_libs \<Rightarrow> json_value \<Rightarrow> stratum_error + subscribe_result" where
  "subscribe_result_of L v = map_err Serde (rbind (de_tuple L 3 v) (\<lambda>vs. case vs of
     [a, b, c] \<Rightarrow>
       rbind (de_vec L a) (\<lambda>a. rbind (de_hex_bytes L b) (\<lambda>b. rbind (de_usize L c) (\<lambda>c.
         Inr \<lparr>sr_subscriptions = a, sr_extra_nonce_1 = b, sr_extra_nonce_2_size = c\<rparr>)))
   | _ \<Rightarrow> Inl ''invalid length''))"

definition result_of_response ::
  "(json_value \<Rightarrow> stratum_error + 'a) \<Rightarrow> v1_rpc_response \<Rightarrow> stratum_error + 'a" where
  "result_of_response from_result resp =
     rbind (ok_or (stratum_result resp) (V1Error (JsonError (ascii ''No result'')))) from_result"

section \<open>Merkle roots\<close>

definition fold_branch_into_merkle_root :: "v1_libs \<Rightarrow> bytes list \<Rightarrow> bytes \<Rightarrow> bytes" where
  "fold_branch_into_merkle_root L branch cb_tx_hash =
     foldl (\<lambda>curr tx_hash. sha256d L (curr @ tx_hash)) cb_tx_hash branch"

definition notify_merkle_root :: "v1_libs \<Rightarrow> notify \<Rightarrow> bytes \<Rightarrow> bytes \<Rightarrow> bytes" where
  "notify_merkle_root L n extranonce1 extranonce2 =
     fold_branch_into_merkle_root L (n_merkle_branch n)
       (sha256d L (n_coin_base_1 n @ extranonce1 @ extranonce2 @ n_coin_base_2 n))"

text \<open>\<open>MerkleBranch::v2_encode\<close>; the inner \<open>None\<close> is the panic of \<open>Seq0_255::from_vec\<close>.\<close>

fun encode_leaves :: "bytes list \<Rightarrow> v2_error + bytes list" where
  "encode_leaves [] = Inr []"
| "encode_leaves (leaf # ls) =
     rbind (uint256_try_from_hex_bytes leaf) (\<lambda>b. rmap (Cons b) (encode_leaves ls))"

definition branch_v2_encode :: "bytes list \<Rightarrow> stratum_error + bytes list option" where
  "branch_v2_encode branch = rmap (sized_from Seq0_255) (map_err V2Error (encode_leaves branch))"

section \<open>An instance of the libraries\<close>

text \<open>Plain hex digits and the plain reading of JSON values; the hash pads or cuts its input.\<close>

definition hex_digit :: "nat \<Rightarrow> u8" where
  "hex_digit n = (if n < 10 then of_nat (48 + n) else of_nat (87 + n))"

definition hex_val :: "u8 \<Rightarrow> nat option" where
  "hex_val c = (let n = unat c in
     if 48 \<le> n \<and> n < 58 then Some (n - 48) else if 97 \<le> n \<and> n < 103 then Some (n - 87) else None)"

definition plain_hex :: "bytes \<Rightarrow> bytes" where
  "plain_hex b = concat (map (\<lambda>x. [hex_digit (unat x div 16), hex_digit (unat x mod 16)]) b)"

fun plain_unhex :: "bytes \<Rightarrow> string + bytes" where
  "plain_unhex (a # b # s) =
     (case (hex_val a, hex_val b) of
        (Some x, Some y) \<Rightarrow> rmap (Cons (of_nat (16 * x + y))) (plain_unhex s)
      | _ \<Rightarrow> Inl ''Invalid character'')"
| "plain_unhex [a] = Inl ''Odd number of digits''"
| "plain_unhex [] = Inr []"

definition plain_libs :: v1_libs where
  "plain_libs =
     \<lparr>hex_decode = plain_unhex, hex_encode = plain_hex,
      from_hex4 = (\<lambda>s. rbind (plain_unhex s) (\<lambda>b. if length b = 4 then Inr b else Inl ''bad length'')),
      to_hex4 = plain_hex,
      de_string = (\<lambda>v. case v of JString s \<Rightarrow> Inr s | _ \<Rightarrow> Inl ''expected a string''),
      de_bool = (\<lambda>v. case v of JBool b \<Rightarrow> Inr b | _ \<Rightarrow> Inl ''expected a boolean''),
      de_usize = (\<lambda>v. case v of JNumber (PosInt n) \<Rightarrow> Inr (unat n) | _ \<Rightarrow> Inl ''expected usize''),
      de_f32 = (\<lambda>v. case v of JNumber (Float x) \<Rightarrow> Inr (ucast x) | _ \<Rightarrow> Inl ''expected f32''),
      de_vec = (\<lambda>v. case v of JArray vs \<Rightarrow> Inr vs | _ \<Rightarrow> Inl ''expected a sequence''),
      de_tuple = (\<lambda>n v. case v of
         JArray vs \<Rightarrow> if length vs = n then Inr vs else Inl ''invalid length''
       | _ \<Rightarrow> Inl ''expected a sequence''),
      ser_f32 = (\<lambda>x. JNumber (Float (ucast x))),
      sha256d = (\<lambda>b. take 32 (b @ replicate 32 0))\<rparr>"

lemma hex_val_digit: "n < 16 \<Longrightarrow> hex_val (hex_digit n) = Some n"
proof -
  assume "n < 16"
  then have "unat (hex_digit n) = (if n < 10 then 48 + n else 87 + n)"
    by (auto simp: hex_digit_def unat_of_nat simp del: of_nat_add)
  with \<open>n < 16\<close> show ?thesis by (auto simp: hex_val_def)
qed

lemma plain_unhex_hex: "plain_unhex (plain_hex b) = Inr b"
proof (induction b)
  case Nil
  then show ?case by (simp add: plain_hex_def)
next
  case (Cons x b)
  have "unat x div 16 < 16" using unat_u8_bound [of x] by (simp add: less_mult_imp_div_less)
  moreover have "of_nat (16 * (unat x div 16) + unat x mod 16) = x"
    by (simp only: mult_div_mod_eq) simp
  ultimately show ?case
    using Cons by (simp add: plain_hex_def hex_val_digit del: of_nat_add of_nat_mult)
qed

lemma length_plain_hex: "length (plain_hex b) = 2 * length b"
  by (induction b) (simp_all add: plain_hex_def)

lemma plain_unhex_length: "plain_unhex s = Inr b \<Longrightarrow> length s = 2 * length b"
  by (induction s arbitrary: b rule: plain_unhex.induct)
    (auto simp: result_simps split: option.splits)

lemma hex_digit_not_x: "n < 16 \<Longrightarrow> hex_digit n \<noteq> 0x78"
proof
  assume "n < 16" and "hex_digit n = 0x78"
  then have "hex_val (0x78 :: u8) = Some n" using hex_val_digit [of n] by simp
  then show False by (simp add: hex_val_def)
qed

lemma plain_hex_no_0x: "take 2 (plain_hex b) \<noteq> ascii ''0x''"
proof (cases b)
  case Nil
  then show ?thesis by (simp add: plain_hex_def ascii_def)
next
  case (Cons x bs)
  have "hex_digit (unat x mod 16) \<noteq> 0x78" by (rule hex_digit_not_x) simp
  then show ?thesis by (simp add: Cons plain_hex_def ascii_def)
qed

lemma ucast_f32: "ucast (ucast x :: u64) = (x :: u32)"
  by (rule bit_word_eqI) (simp add: bit_simps)

lemma plain_libs_contract: "libs_contract plain_libs"
  unfolding libs_contract_def plain_libs_def
  by (simp add: plain_unhex_hex length_plain_hex plain_unhex_length plain_hex_no_0x unat_of_nat
      ucast_f32 min_def)

section \<open>Round trips\<close>

lemma chunks_concat:
  assumes "0 < n" and "list_all (\<lambda>c. length c = n) cs"
  shows "chunks n (concat cs) = cs"
  using assms(2)
proof (induction cs)
  case Nil
  then show ?case by (simp add: chunks.simps)
next
  case (Cons c cs)
  with assms(1) show ?case by (subst chunks.simps) auto
qed

lemma swap_chunks:
  assumes "length p = k * n" and "0 < n"
    and fg: "\<And>c. length c = n \<Longrightarrow> length (g c) = n \<and> f (g c) = c"
  shows "concat (map f (chunks n (concat (map g (chunks n p))))) = p"
    and "length (concat (map g (chunks n p))) = length p"
proof -
  from chunks_all [OF assms(1,2)] have c: "concat (chunks n p) = p"
    and l: "list_all (\<lambda>c. length c = n) (chunks n p)" by simp_all
  from l have "list_all (\<lambda>c. length c = n) (map g (chunks n p))"
    using fg by (simp add: list_all_iff)
  then have "chunks n (concat (map g (chunks n p))) = map g (chunks n p)"
    by (rule chunks_concat [OF assms(2)])
  moreover have "concat (map f (map g (chunks n p))) = concat (chunks n p)"
    by (rule concat_map_words [OF l]) (simp add: fg)
  ultimately show "concat (map f (chunks n (concat (map g (chunks n p))))) = p"
    by (simp add: c)
  have "length (concat (map g cs)) = length (concat cs)" if "list_all (\<lambda>c. length c = n) cs" for cs
    using that fg by (induction cs) auto
  from this [OF l] show "length (concat (map g (chunks n p))) = length p" by (simp add: c)
qed

lemma swap_word:
  "length c = 4 \<Longrightarrow> length (be_bytes 4 (of_le c)) = 4 \<and> le_bytes 4 (of_be (be_bytes 4 (of_le c))) = c"
  "length c = 4 \<Longrightarrow> length (le_bytes 4 (of_be c)) = 4 \<and> be_bytes 4 (of_le (le_bytes 4 (of_be c))) = c"
proof -
  assume c: "length c = 4"
  have "of_le c < 256 ^ 4" "of_be c < 256 ^ 4"
    using of_le_bound [of c] of_le_bound [of "rev c"] c by (simp_all add: of_be_def)
  with c show "length (be_bytes 4 (of_le c)) = 4 \<and> le_bytes 4 (of_be (be_bytes 4 (of_le c))) = c"
    "length (le_bytes 4 (of_be c)) = 4 \<and> be_bytes 4 (of_le (le_bytes 4 (of_be c))) = c"
    using le_bytes_of_le [of c] be_bytes_of_be [of c] by (simp_all add: byte_simps of_be_be_bytes)
qed

lemma libs_hex:
  assumes "libs_contract L"
  shows "hex_decode L (hex_encode L b) = Inr b" and "length (hex_encode L b) = 2 * length b"
    and "hex_decode L s = Inr b \<Longrightarrow> length s = 2 * length b"
  using assms unfolding libs_contract_def by blast+

lemma libs_json:
  assumes "libs_contract L"
  shows "de_string L (JString s) = Inr s" and "de_bool L (JBool b) = Inr b"
    and "n < 2 ^ 64 \<Longrightarrow> de_usize L (json_usize n) = Inr n"
    and "f32_finite x \<Longrightarrow> de_f32 L (ser_f32 L x) = Inr x"
    and "de_vec L (JArray vs) = Inr vs"
    and "length vs = k \<Longrightarrow> de_tuple L k (JArray vs) = Inr vs"
  using assms unfolding libs_contract_def json_usize_def by blast+

lemma hex_bytes_roundtrip: "libs_contract L \<Longrightarrow> hex_bytes_from L (hex_bytes_into L b) = b"
  by (simp add: hex_bytes_from_def hex_bytes_try_from_def hex_bytes_into_def v1_hex_decode_def libs_hex)

lemma trim_0x_id: "take 2 s \<noteq> ascii ''0x'' \<Longrightarrow> trim_0x s = s"
  by (cases s rule: trim_0x.cases) (auto simp: ascii_def)

lemma hex_u32_be_roundtrip: "libs_contract L \<Longrightarrow> hex_u32_be_from L (hex_u32_be_into L x) = x"
proof -
  assume L: "libs_contract L"
  have "length (be_bytes 4 (unat x)) = 4" by simp
  with L have "from_hex4 L (to_hex4 L (be_bytes 4 (unat x))) = Inr (be_bytes 4 (unat x))"
    and "trim_0x (to_hex4 L (be_bytes 4 (unat x))) = to_hex4 L (be_bytes 4 (unat x))"
    unfolding libs_contract_def by (blast intro: trim_0x_id)+
  then show ?thesis
    by (simp add: hex_u32_be_from_def hex_u32_be_try_from_def hex_u32_be_into_def byte_simps of_be_be_bytes)
qed

lemma prev_hash_roundtrip:
  assumes L: "libs_contract L" and p: "length p = 32"
  shows "\<exists>s. prev_hash_into L p = Some s \<and> prev_hash_from L s = p"
proof -
  let ?w = "concat (map (\<lambda>chunk. be_bytes 4 (of_le chunk)) (chunks 4 p))"
  have "length ?w = 32" and "concat (map (\<lambda>chunk. le_bytes 4 (of_be chunk)) (chunks 4 ?w)) = p"
    using swap_chunks [of p 8 4 "\<lambda>c. be_bytes 4 (of_le c)" "\<lambda>c. le_bytes 4 (of_be c)"] p swap_word(1)
    by auto
  then have "prev_hash_from L (hex_encode L ?w) = p"
    by (simp add: prev_hash_from_def prev_hash_try_from_def v1_hex_decode_def libs_hex [OF L])
  moreover have "prev_hash_into L p = Some (hex_encode L ?w)" by (simp add: prev_hash_into_def p)
  ultimately show ?thesis by blast
qed

lemma de_elems_map: "(\<And>x. f (g x) = Inr x) \<Longrightarrow> de_elems f (map g xs) = Inr xs"
  by (induction xs) simp_all

lemma de_hex_roundtrip:
  assumes "libs_contract L"
  shows "de_hex_bytes L (JString (hex_bytes_into L b)) = Inr b"
    and "de_hex_u32_be L (JString (hex_u32_be_into L x)) = Inr x"
  by (simp_all add: de_hex_bytes_def de_hex_u32_be_def libs_json [OF assms] assms hex_bytes_roundtrip
      hex_u32_be_roundtrip)

lemma de_opt_roundtrip:
  assumes "\<And>x. g x \<noteq> JNull \<and> f (g x) = Inr x"
  shows "de_opt f (json_opt g x) = Inr x"
  using assms by (cases x) (simp_all add: de_opt_def json_opt_def)

definition wf_v1_request :: "v1_request \<Rightarrow> bool" where
  "wf_v1_request r =
     (case r of
        ReqSetDifficulty d \<Rightarrow> f32_finite d
      | ReqSetExtranonce e \<Rightarrow> se_extra_nonce2_size e < 2 ^ 64
      | ReqNotify n \<Rightarrow> length (n_prev_hash n) = 32
      | _ \<Rightarrow> True)"

lemma notify_roundtrip:
  assumes L: "libs_contract L" and n: "length (n_prev_hash n) = 32"
  shows "\<exists>v. notify_params L n = Some v \<and> notify_of_params L v = Inr n"
proof -
  from prev_hash_roundtrip [OF L n] obtain s
    where "prev_hash_into L (n_prev_hash n) = Some s" "prev_hash_from L s = n_prev_hash n" by auto
  then show ?thesis
    by (auto simp: notify_params_def notify_of_params_def de_prev_hash_def de_list_def
        libs_json [OF L] de_hex_roundtrip [OF L] de_elems_map)
qed

lemma request_roundtrip:
  assumes L: "libs_contract L" and r: "wf_v1_request r"
  shows "\<exists>v. request_params L r = Some v \<and> request_of_params L (request_method r) v = Inr r"
proof (cases r)
  case (ReqNotify n)
  with r notify_roundtrip [OF L, of n] show ?thesis by (auto simp: wf_v1_request_def)
qed (use r in \<open>auto simp: wf_v1_request_def libs_json [OF L] de_hex_roundtrip [OF L] de_opt_roundtrip
    de_elems_map de_list_def subscribe_of_params_def authorize_of_params_def
    set_difficulty_of_params_def set_extranonce_of_params_def configure_of_params_def
    submit_of_params_def submit_params_def set_version_mask_of_params_def\<close>)

text \<open>
  C32. Every Stratum V1 request survives its JSON form: a request with a 32-byte previous hash, a
  finite difficulty and a size that fits in 64 bits is written without a panic, and the handler of
  its method reads back the same request and message id. In any other method's conversion the
  assertion on the method fails, and a response is refused.
\<close>

theorem v1_request_roundtrip:
  assumes "libs_contract L" and "wf_v1_request r"
  shows "\<exists>v. request_payload L r = Some (request_method r, v) \<and>
    (\<forall>i m. request_of_rpc L m (RpcRequest \<lparr>req_id = i, req_method = request_method r, req_params = v\<rparr>) =
       (if m = request_method r then Inr (i, r) else Inl (Panic ''assertion failed'')))"
proof -
  from request_roundtrip [OF assms] obtain v where "request_params L r = Some v"
    "request_of_params L (request_method r) v = Inr r" by auto
  then show ?thesis
    by (auto simp: request_payload_def request_of_rpc_def request_of_rpc_request_def)
qed

definition example_notify :: notify where
  "example_notify =
     \<lparr>n_job_id = ascii ''job'', n_prev_hash = map of_nat [0..<32], n_coin_base_1 = [1, 2],
      n_coin_base_2 = [3], n_merkle_branch = [replicate 32 7], n_version = 0x20000000,
      n_bits = 0x1d00ffff, n_time = 5, n_clean_jobs = True\<rparr>"

theorem v1_request_roundtrip_witness:
  "libs_contract plain_libs \<and> wf_v1_request (ReqNotify example_notify) \<and>
   (\<exists>v. request_payload plain_libs (ReqNotify example_notify) = Some (Notify, v) \<and>
      request_of_rpc plain_libs Notify (RpcRequest \<lparr>req_id = None, req_method = Notify, req_params = v\<rparr>) =
        Inr (None, ReqNotify example_notify))"
proof -
  have w: "wf_v1_request (ReqNotify example_notify)"
    by (simp add: wf_v1_request_def example_notify_def)
  from v1_request_roundtrip [OF plain_libs_contract w] plain_libs_contract w show ?thesis by auto
qed

text \<open>
  The previous hash of V1: exactly the hex strings of 32 bytes are read, each of the eight
  four-byte words comes out reversed, and printing the result gives the hex form of the bytes that
  were read; every 32-byte hash can be printed and is read back unchanged.
\<close>

theorem prev_hash_codec:
  assumes "libs_contract L"
  shows "(\<forall>s. case v1_hex_decode L s of
            Inl e \<Rightarrow> prev_hash_try_from L s = Inl (HexDecode e)
          | Inr b \<Rightarrow>
              (if length b = 32
               then prev_hash_try_from L s = Inr (concat (map rev (chunks 4 b))) \<and>
                    prev_hash_into L (concat (map rev (chunks 4 b))) = Some (hex_encode L b)
               else prev_hash_from L s = [])) \<and>
         (\<forall>p. length p = 32 \<longrightarrow> (\<exists>s. prev_hash_into L p = Some s \<and> prev_hash_from L s = p))"
proof (intro conjI allI impI)
  fix s
  show "case v1_hex_decode L s of
            Inl e \<Rightarrow> prev_hash_try_from L s = Inl (HexDecode e)
          | Inr b \<Rightarrow>
              (if length b = 32
               then prev_hash_try_from L s = Inr (concat (map rev (chunks 4 b))) \<and>
                    prev_hash_into L (concat (map rev (chunks 4 b))) = Some (hex_encode L b)
               else prev_hash_from L s = [])"
  proof (cases "v1_hex_decode L s")
    case (Inl e)
    then show ?thesis by (simp add: prev_hash_try_from_def)
  next
    case (Inr b)
    show ?thesis
    proof (cases "length b = 32")
      case True
      have "list_all (\<lambda>c. length c = 4) (chunks 4 b)" using chunks_all [of b 8 4] True by simp
      moreover have "le_bytes 4 (of_be c) = rev c" if "length c = 4" for c
        using le_bytes_of_le [of "rev c"] that by (simp add: of_be_def)
      ultimately have eq: "map (\<lambda>chunk. le_bytes 4 (of_be chunk)) (chunks 4 b) = map rev (chunks 4 b)"
        by (simp add: list_all_iff)
      from swap_chunks [of b 8 4 "\<lambda>c. le_bytes 4 (of_be c)" "\<lambda>c. be_bytes 4 (of_le c)"] swap_word(2) True
      have "length (concat (map rev (chunks 4 b))) = 32"
        "concat (map (\<lambda>c. be_bytes 4 (of_le c)) (chunks 4 (concat (map rev (chunks 4 b))))) = b"
        by (auto simp: eq)
      with Inr True show ?thesis by (simp add: prev_hash_try_from_def prev_hash_into_def eq)
    qed (simp add: Inr prev_hash_from_def prev_hash_try_from_def)
  qed
next
  fix p :: bytes
  assume "length p = 32"
  with assms show "\<exists>s. prev_hash_into L p = Some s \<and> prev_hash_from L s = p"
    by (rule prev_hash_roundtrip)
qed

theorem prev_hash_codec_witness:
  "libs_contract plain_libs \<and>
   (\<exists>s. prev_hash_into plain_libs (map of_nat [0..<32]) = Some s \<and>
        prev_hash_from plain_libs s = map of_nat [0..<32])"
  using prev_hash_codec [OF plain_libs_contract] plain_libs_contract by auto

section \<open>Responses after normalization\<close>

text \<open>
  A response that has been read from the wire carries either a result or an error and never
  both: the dispatch on its id then picks the conversion that succeeds. A response with both keeps
  the error only, and one with neither is refused.
\<close>

theorem normalized_response_dispatch:
  assumes "parse_json frame = Inr (RpcResponse r)"
  shows "case (stratum_result r, stratum_err r) of
      (None, None) \<Rightarrow> rpc_try_from parse_json frame = Inl (V1Error (JsonError (ascii ''Invalid JSON-RPC'')))
    | (Some v, None) \<Rightarrow>
        (\<exists>rpc. rpc_try_from parse_json frame = Inr rpc \<and> rpc_get_id rpc = ResultMethod \<and>
               result_of_rpc rpc = Inr (Some (resp_id r), v) \<and> \<not> is_ok (error_of_rpc rpc))
    | (_, Some e) \<Rightarrow>
        (\<exists>rpc. rpc_try_from parse_json frame = Inr rpc \<and> rpc_get_id rpc = ErrorMethod \<and>
               error_of_rpc rpc = Inr (Some (resp_id r), e) \<and> \<not> is_ok (result_of_rpc rpc))"
  using assms
  by (auto simp: rpc_try_from_def json_rpc_normalize_def rpc_get_id_def result_of_rpc_def
      error_of_rpc_def split: option.splits)

definition broken_response :: v1_rpc_response where
  "broken_response = \<lparr>resp_id = 4, stratum_result = Some (JBool True),
     stratum_err = Some (StratumErr 21 (ascii ''Job not found'') None)\<rparr>"

theorem normalized_response_dispatch_witness:
  "\<exists>rpc. rpc_try_from (\<lambda>_. Inr (RpcResponse broken_response)) [] = Inr rpc \<and>
     rpc_get_id rpc = ErrorMethod \<and>
     error_of_rpc rpc = Inr (Some 4, StratumErr 21 (ascii ''Job not found'') None)"
  using normalized_response_dispatch [of "\<lambda>_. Inr (RpcResponse broken_response)" "[]" broken_response]
  by (auto simp: broken_response_def)

end
