(* ===== verification/Frame_Stream.thy ===== *)
theory Frame_Stream
  imports V2_Framing
begin

text \<open>
  Reading frames from a byte stream, as \<open>Framed\<close> of \<open>tokio-util\<close> does with the decoders of \<open>protocols/stratum\<close>: a read is
  appended to the buffer, and the decoder is called until it asks for more.

  The locale \<open>frame_codec\<close> is what a decoder promises; its client lemma says that the frames do not depend on where
  the reads cut the stream. The V1 codec (\<open>V1_Framing\<close>), the V2 codec (\<open>Wire_Session\<close>) and the encrypting codec
  (\<open>Noise_Stream\<close>) keep the promise.
\<close>

section \<open>The reading loop\<close>

text \<open>\<open>None\<close>: the loop does not end. The last component of the result is the error that ended the stream.\<close>

type_synonym ('s, 'e, 'f) frame_decoder = "'s \<Rightarrow> bytes \<Rightarrow> 's \<times> bytes \<times> ('e + 'f option)"
type_synonym ('s, 'e, 'f) frames_read = "'f list \<times> 's \<times> bytes \<times> 'e option"

partial_function (option) drain_frames :: "('s, 'e, 'f) frame_decoder \<Rightarrow> 's \<Rightarrow> bytes \<Rightarrow> ('s, 'e, 'f) frames_read option" where
  "drain_frames dec s buf =
     (case dec s buf of
        (s', buf', Inl e) \<Rightarrow> Some ([], s', buf', Some e)
      | (s', buf', Inr None) \<Rightarrow> Some ([], s', buf', None)
      | (s', buf', Inr (Some frame)) \<Rightarrow> Option.bind (drain_frames dec s' buf') (\<lambda>(frames, r). Some (frame # frames, r)))"

fun feed_frames :: "('s, 'e, 'f) frame_decoder \<Rightarrow> 's \<Rightarrow> bytes \<Rightarrow> bytes list \<Rightarrow> ('s, 'e, 'f) frames_read option" where
  "feed_frames dec s buf [] = Some ([], s, buf, None)"
| "feed_frames dec s buf (piece # pieces) =
     (case drain_frames dec s (buf @ piece) of
        None \<Rightarrow> None
      | Some (frames, s', buf', Some e) \<Rightarrow> Some (frames, s', buf', Some e)
      | Some (frames, s', buf', None) \<Rightarrow> map_option (\<lambda>(frames', r). (frames @ frames', r)) (feed_frames dec s' buf' pieces))"

section \<open>What a decoder promises\<close>

definition wires :: "('m \<Rightarrow> bytes) \<Rightarrow> 'm list \<Rightarrow> bytes" where
  "wires wire ms = concat (map wire ms)"

lemma wires_simps [simp]:
  "wires wire [] = []" "wires wire (m # ms) = wire m @ wires wire ms" "wires wire (ms @ ns) = wires wire ms @ wires wire ns"
  by (simp_all add: wires_def)

text \<open>
  \<open>wire m\<close> are the bytes of the item \<open>m\<close> and \<open>frame m\<close> is what is read from them. A decoder may remember bytes that it has
  taken out of the buffer, such as a length field: \<open>held s\<close>. \<open>unfinished\<close> holds of what may be there, held or in the
  buffer, between two reads; \<open>ready\<close> of the states that fit a buffer; \<open>expects s ms\<close> says that \<open>ms\<close> are items that can
  be read one after the other from the state \<open>s\<close>.
\<close>

locale frame_codec =
  fixes dec :: "('s, 'e, 'f) frame_decoder"
    and held :: "'s \<Rightarrow> bytes"
    and ready :: "'s \<Rightarrow> bytes \<Rightarrow> bool"
    and expects :: "'s \<Rightarrow> 'm list \<Rightarrow> bool"
    and good :: "'m \<Rightarrow> bool"
    and wire :: "'m \<Rightarrow> bytes"
    and frame :: "'m \<Rightarrow> 'f"
    and unfinished :: "bytes \<Rightarrow> bool"
  assumes ready_more: "ready s b \<Longrightarrow> ready s (b @ c)"
    and expects_good: "expects s ms \<Longrightarrow> list_all good ms"
    and unfinished_prefix: "unfinished (b @ c) \<Longrightarrow> unfinished b"
    and unfinished_item: "good m \<Longrightarrow> wire m = b @ c \<Longrightarrow> c \<noteq> [] \<Longrightarrow> unfinished b"
    and finished_item: "good m \<Longrightarrow> \<not> unfinished (wire m @ rest)"
    and waits: "ready s b \<Longrightarrow> expects s ms \<Longrightarrow> unfinished (held s @ b) \<Longrightarrow>
      \<exists>s' b'. dec s b = (s', b', Inr None) \<and> held s' @ b' = held s @ b \<and> ready s' b' \<and> expects s' ms"
    and reads: "ready s b \<Longrightarrow> expects s (m # ms) \<Longrightarrow> held s @ b = wire m @ rest \<Longrightarrow>
      \<exists>s'. dec s b = (s', rest, Inr (Some (frame m))) \<and> held s' = [] \<and> ready s' rest \<and> expects s' ms"
begin

lemma drain_items:
  "ready s b \<Longrightarrow> expects s (ms @ todo) \<Longrightarrow> held s @ b = wires wire ms @ rest \<Longrightarrow> unfinished rest \<Longrightarrow>
    \<exists>s' b'. drain_frames dec s b = Some (map frame ms, s', b', None) \<and> held s' @ b' = rest \<and> ready s' b' \<and> expects s' todo"
proof (induction ms arbitrary: s b)
  case Nil
  with waits [of s b todo] show ?case by (auto simp: drain_frames.simps [of dec s])
next
  case (Cons m ms)
  from reads [of s b m "ms @ todo" "wires wire ms @ rest"] Cons.prems obtain s' where
    "dec s b = (s', wires wire ms @ rest, Inr (Some (frame m)))" "held s' = []" "ready s' (wires wire ms @ rest)"
    "expects s' (ms @ todo)" by auto
  with Cons.IH [of s' "wires wire ms @ rest"] Cons.prems(4) show ?case by (auto simp: drain_frames.simps [of dec s])
qed

text \<open>Where a read ends: after some items and a part of another one.\<close>

lemma stream_cut:
  assumes "a @ b = wires wire ms @ rest" and "list_all good ms" and "unfinished rest"
  shows "\<exists>read todo r. ms = read @ todo \<and> a = wires wire read @ r \<and> r @ b = wires wire todo @ rest \<and> unfinished r"
  using assms
proof (induction ms arbitrary: a)
  case Nil
  then show ?case using unfinished_prefix [of a b] by auto
next
  case (Cons m ms)
  show ?case
  proof (cases "length a < length (wire m)")
    case True
    with Cons.prems(1) obtain c where "a @ c = wire m" by (auto simp: append_eq_append_conv2)
    with True Cons.prems(2) unfinished_item [of m a c] have "unfinished a" by (cases "c = []") auto
    with Cons.prems(1) show ?thesis by (intro exI [of _ "[]"] exI [of _ "m # ms"] exI [of _ a]) simp
  next
    case False
    have "take (length (wire m)) (a @ b) = wire m" unfolding Cons.prems(1) by simp
    with False have "a = wire m @ drop (length (wire m)) a" by simp (metis append_take_drop_id)
    then obtain a' where a': "a = wire m @ a'" "a' @ b = wires wire ms @ rest"
      using Cons.prems(1) by (metis append.assoc same_append_eq wires_simps(2))
    from Cons.IH [OF a'(2)] Cons.prems obtain d todo r where
      "ms = d @ todo" "a' = wires wire d @ r" "r @ b = wires wire todo @ rest" "unfinished r" by auto
    with a'(1) show ?thesis by (intro exI [of _ "m # d"] exI [of _ todo] exI [of _ r]) simp
  qed
qed

lemma feed_items:
  "ready s buf \<Longrightarrow> expects s ms \<Longrightarrow> unfinished (held s @ buf) \<Longrightarrow> held s @ buf @ concat pieces = wires wire ms @ rest \<Longrightarrow>
   unfinished rest \<Longrightarrow>
    \<exists>s' buf'. feed_frames dec s buf pieces = Some (map frame ms, s', buf', None) \<and> held s' @ buf' = rest \<and> expects s' []"
proof (induction pieces arbitrary: s buf ms)
  case Nil
  have "ms = []"
  proof (cases ms)
    case (Cons m ms')
    with Nil.prems(4) have "held s @ buf = wire m @ wires wire ms' @ rest" by simp
    with finished_item [of m "wires wire ms' @ rest"] expects_good [OF Nil.prems(2)] Cons Nil.prems(3) show ?thesis by simp
  qed
  with Nil.prems show ?case by auto
next
  case (Cons piece pieces)
  from Cons.prems(4) have "(held s @ buf @ piece) @ concat pieces = wires wire ms @ rest" by simp
  from stream_cut [OF this expects_good [OF Cons.prems(2)] Cons.prems(5)] obtain d todo r where
    cut: "ms = d @ todo" "held s @ buf @ piece = wires wire d @ r" "r @ concat pieces = wires wire todo @ rest" "unfinished r" by blast
  from drain_items [OF ready_more [OF Cons.prems(1)] _ cut(2,4), of todo] cut(1) Cons.prems(2) obtain s' b' where
    s': "drain_frames dec s (buf @ piece) = Some (map frame d, s', b', None)" "held s' @ b' = r" "ready s' b'" "expects s' todo" by auto
  from Cons.IH [OF s'(3,4)] s'(2) cut(3,4) Cons.prems(5) obtain s'' buf' where
    "feed_frames dec s' b' pieces = Some (map frame todo, s'', buf', None)" "held s'' @ buf' = rest" "expects s'' []" by auto
  with s'(1) cut(1) show ?case by auto
qed

end

end
