(* ===== verification/V1_Framing.thy ===== *)
theory V1_Framing
  imports V1_Messages Frame_Stream
begin

text \<open>
  The frames of Stratum V1, \<open>v1/framing.rs\<close> and \<open>v1/framing/codec.rs\<close>: a frame is a payload, on the wire a line. The codec
  wraps \<open>LinesCodec\<close> of \<open>tokio-util\<close>, a parameter with its documented contract. Reading is the loop of
  \<open>Frame_Stream\<close>.
\<close>

section \<open>Lines\<close>

definition NL :: u8 where "NL = 0x0a"
definition CR :: u8 where "CR = 0x0d"

definition strip_cr :: "bytes \<Rightarrow> bytes" where
  "strip_cr line = (if line \<noteq> [] \<and> last line = CR then butlast line else line)"

text \<open>\<open>'l\<close> is the state of a \<open>LinesCodec\<close>: how much of the buffer it has searched.\<close>

record 'l lines_lib =
  lines_new :: 'l
  lines_decode :: "'l \<Rightarrow> bytes \<Rightarrow> 'l \<times> bytes \<times> (string + bytes option)"

text \<open>
  \<open>searched s b\<close>: what the state has searched is the beginning of \<open>b\<close>, and there is no newline in it. The codec returns
  the first line without its end, with the line removed from the buffer; a line that is no text is removed as well
  and reported.
\<close>

definition lines_contract :: "'l lines_lib \<Rightarrow> ('l \<Rightarrow> bytes \<Rightarrow> bool) \<Rightarrow> bool" where
  "lines_contract L searched \<longleftrightarrow>
     (\<forall>b. searched (lines_new L) b) \<and>
     (\<forall>s b c. searched s b \<longrightarrow> searched s (b @ c)) \<and>
     (\<forall>s b. searched s b \<longrightarrow> NL \<notin> set b \<longrightarrow> (\<exists>s'. lines_decode L s b = (s', b, Inr None) \<and> searched s' b)) \<and>
     (\<forall>s line rest. searched s (line @ NL # rest) \<longrightarrow> NL \<notin> set line \<longrightarrow>
        (\<exists>s' r. lines_decode L s (line @ NL # rest) = (s', rest, r) \<and> (\<forall>b. searched s' b) \<and>
           (if valid_utf8 (strip_cr line) then r = Inr (Some (strip_cr line)) else \<exists>e. r = Inl e)))"

lemma lines_laws:
  assumes "lines_contract L searched"
  shows "searched (lines_new L) b" and "searched s b \<Longrightarrow> searched s (b @ c)"
    and "searched s b \<Longrightarrow> NL \<notin> set b \<Longrightarrow> \<exists>s'. lines_decode L s b = (s', b, Inr None) \<and> searched s' b"
    and "searched s (line @ NL # rest) \<Longrightarrow> NL \<notin> set line \<Longrightarrow> valid_utf8 (strip_cr line) \<Longrightarrow>
      \<exists>s'. lines_decode L s (line @ NL # rest) = (s', rest, Inr (Some (strip_cr line))) \<and> (\<forall>b. searched s' b)"
    and "searched s (line @ NL # rest) \<Longrightarrow> NL \<notin> set line \<Longrightarrow> \<not> valid_utf8 (strip_cr line) \<Longrightarrow>
      \<exists>s' e. lines_decode L s (line @ NL # rest) = (s', rest, Inl e)"
  using assms unfolding lines_contract_def by (blast, blast, blast, metis, metis)

section \<open>Frame and codec\<close>

definition MAX_FRAME_LENGTH :: nat where "MAX_FRAME_LENGTH = 16384"

definition v1_from_serialized_payload :: "bytes \<Rightarrow> 'p payload" where
  "v1_from_serialized_payload payload = SerializedBytes payload"

definition v1_from_serializable_payload :: "'p \<Rightarrow> 'p payload" where
  "v1_from_serializable_payload payload = LazyBytes payload"

text \<open>The frame and what is left of the buffer: nothing.\<close>

definition v1_frame_deserialize :: "bytes \<Rightarrow> 'p payload \<times> bytes" where
  "v1_frame_deserialize src = (v1_from_serialized_payload src, [])"

definition v1_codec_decode ::
    "'l lines_lib \<Rightarrow> 'l \<Rightarrow> bytes \<Rightarrow> 'l \<times> bytes \<times> (stratum_error + 'p payload option)" where
  "v1_codec_decode L s src =
     (case lines_decode L s src of
        (s', src', Inl e) \<Rightarrow> (s', src', Inl (LinesCodec e))
      | (s', src', Inr None) \<Rightarrow> (s', src', Inr None)
      | (s', src', Inr (Some frame_str)) \<Rightarrow> (s', src', Inr (Some (fst (v1_frame_deserialize frame_str)))))"

definition v1_codec_encode :: "'p serialize_fn \<Rightarrow> 'p payload \<Rightarrow> bytes \<Rightarrow> bytes \<times> (stratum_error + unit)" where
  "v1_codec_encode ser item dst =
     (case v1_frame_serialize ser item dst of
        (dst', Inl e) \<Rightarrow> (dst', Inl e)
      | (dst', Inr _) \<Rightarrow> (dst' @ [NL], Inr ()))"

definition v1_codec_default :: "'l lines_lib \<Rightarrow> 'l" where
  "v1_codec_default L = lines_new L"

section \<open>A stream of frames\<close>

abbreviation v1_feed :: "'l lines_lib \<Rightarrow> 'l \<Rightarrow> bytes \<Rightarrow> bytes list \<Rightarrow> ('l, stratum_error, 'p payload) frames_read option" where
  "v1_feed L \<equiv> feed_frames (v1_codec_decode L)"

text \<open>What an encoder may send and have read back: text without a newline that does not end in a carriage return.\<close>

definition one_line :: "bytes \<Rightarrow> bool" where
  "one_line text \<longleftrightarrow> valid_utf8 text \<and> NL \<notin> set text \<and> strip_cr text = text"

abbreviation line_wire :: "bytes \<Rightarrow> bytes" where "line_wire t \<equiv> t @ [NL]"

text \<open>The V1 codec keeps the contract of frame codecs, whatever library of lines it is made with.\<close>

locale v1_wire =
  fixes L :: "'l lines_lib" and searched :: "'l \<Rightarrow> bytes \<Rightarrow> bool"
  assumes lines: "lines_contract L searched"

sublocale v1_wire \<subseteq>
  frame_codec "v1_codec_decode L" "\<lambda>_. []" searched "\<lambda>_. list_all one_line" one_line line_wire SerializedBytes "\<lambda>b. NL \<notin> set b"
proof
  fix s b c ms
  show "searched s b \<Longrightarrow> searched s (b @ c)" by (rule lines_laws(2) [OF lines])
  show "NL \<notin> set (b @ c) \<Longrightarrow> NL \<notin> set b" by simp
  show "searched s b \<Longrightarrow> list_all one_line ms \<Longrightarrow> NL \<notin> set ([] @ b) \<Longrightarrow>
      \<exists>s' b'. v1_codec_decode L s b = (s', b', Inr None) \<and> [] @ b' = [] @ b \<and> searched s' b' \<and> list_all one_line ms"
    using lines_laws(3) [OF lines, of s b] by (auto simp: v1_codec_decode_def)
next
  fix m b c
  assume "one_line m" "line_wire m = b @ c" "c \<noteq> []"
  then show "NL \<notin> set b" by (cases c rule: rev_cases) (auto simp: one_line_def dest: arg_cong [where f = set])
next
  fix s b m ms rest
  assume "searched s b" "list_all one_line (m # ms)" "[] @ b = line_wire m @ rest"
  then show "\<exists>s'. v1_codec_decode L s b = (s', rest, Inr (Some (SerializedBytes m))) \<and> [] = [] \<and> searched s' rest \<and> list_all one_line ms"
    using lines_laws(4) [OF lines, of s m rest]
    by (auto simp: one_line_def v1_codec_decode_def v1_frame_deserialize_def v1_from_serialized_payload_def)
qed auto

context v1_wire
begin

lemma lines_fed:
  assumes "concat pieces = wires line_wire texts @ rest" and "list_all one_line texts" and "NL \<notin> set rest"
  shows "\<exists>s'. v1_feed L (v1_codec_default L) [] pieces = Some (map SerializedBytes texts, s', rest, None)"
  using feed_items [OF lines_laws(1) [OF lines] assms(2) _ _ assms(3), of "[]" pieces] assms(1) by (auto simp: v1_codec_default_def)

end

text \<open>Encoding frames one after the other into one buffer, as \<open>Framed\<close> does between two flushes.\<close>

fun v1_encode_all :: "'p serialize_fn \<Rightarrow> 'p payload list \<Rightarrow> bytes \<Rightarrow> bytes \<times> (stratum_error + unit)" where
  "v1_encode_all ser [] dst = (dst, Inr ())"
| "v1_encode_all ser (f # fs) dst =
     (case v1_codec_encode ser f dst of
        (dst', Inl e) \<Rightarrow> (dst', Inl e)
      | (dst', Inr _) \<Rightarrow> v1_encode_all ser fs dst')"

definition line_of :: "'p serialize_fn \<Rightarrow> 'p payload \<Rightarrow> bytes option" where
  "line_of ser f = (case to_bytes_mut ser f of Inr t \<Rightarrow> if one_line t then Some t else None | Inl _ \<Rightarrow> None)"

lemma line_of_Some: "line_of ser f = Some t \<longleftrightarrow> to_bytes_mut ser f = Inr t \<and> one_line t"
  by (auto simp: line_of_def split: sum.split)

lemma v1_encode_lines:
  "list_all2 (\<lambda>f t. to_bytes_mut ser f = Inr t) fs texts \<Longrightarrow> v1_encode_all ser fs dst = (dst @ wires line_wire texts, Inr ())"
proof (induction fs arbitrary: texts dst)
  case (Cons f fs)
  then obtain t ts where t: "texts = t # ts" "to_bytes_mut ser f = Inr t" "list_all2 (\<lambda>f t. to_bytes_mut ser f = Inr t) fs ts"
    by (auto simp: list_all2_Cons1)
  then have "v1_codec_encode ser f dst = (dst @ t @ [NL], Inr ())"
    by (simp add: v1_codec_encode_def v1_frame_serialize_def serialize_to_writer_def to_bytes_mut_def split: payload.split_asm)
  with Cons.IH [OF t(3)] t(1) show ?case by simp
qed simp

lemma list_all2_texts:
  "list_all (\<lambda>f. line_of ser f \<noteq> None) fs \<Longrightarrow>
     \<exists>texts. list_all2 (\<lambda>f t. to_bytes_mut ser f = Inr t) fs texts \<and> list_all one_line texts"
proof (induction fs)
  case (Cons f fs)
  then obtain t texts where "line_of ser f = Some t" "list_all2 (\<lambda>f t. to_bytes_mut ser f = Inr t) fs texts" "list_all one_line texts"
    by auto
  then show ?case by (intro exI [of _ "t # texts"]) (auto simp: line_of_Some)
qed simp

lemma read_back_frame:
  assumes "to_bytes_mut ser f = Inr t"
  shows "payload_eq ser f (SerializedBytes t)"
  using assms by (simp add: payload_eq_def to_bytes_mut_def split: payload.split_asm)

text \<open>A line that is no text ends the stream with an error; the line is gone, what follows it is kept.\<close>

lemma v1_bad_line:
  assumes "lines_contract L searched" and "searched s (line @ NL # rest)" and "NL \<notin> set line" and "\<not> valid_utf8 (strip_cr line)"
  shows "\<exists>s' e. drain_frames (v1_codec_decode L) s (line @ NL # rest) = Some ([], s', rest, Some (LinesCodec e))"
proof -
  from lines_laws(5) [OF assms] obtain s' e where "lines_decode L s (line @ NL # rest) = (s', rest, Inl e)" by blast
  then show ?thesis by (simp add: drain_frames.simps [of "v1_codec_decode L" s] v1_codec_decode_def)
qed

text \<open>A frame whose payload cannot be serialized takes the frames with it that wait in the buffer to be sent.\<close>

lemma failed_encode_empties_buffer:
  "to_bytes_mut ser f = Inl e \<Longrightarrow> v1_codec_encode ser f dst = ([], Inl e)"
  by (simp add: v1_codec_encode_def v1_frame_serialize_def serialize_to_writer_def to_bytes_mut_def split: payload.split_asm)

section \<open>Properties\<close>

text \<open>
  A stream of V1 frames is read as it was written. Frames whose texts are lines are all encoded, and whichever way
  the bytes are cut on their way, the reader gets equal frames in the same order, makes the same messages
  of them, and has nothing left over.
\<close>

theorem v1_stream_roundtrip:
  fixes L :: "'l lines_lib" and frames :: "v1_rpc payload list"
  assumes "lines_contract L searched" and "list_all (\<lambda>f. line_of ser f \<noteq> None) frames"
    and "v1_encode_all ser frames [] = (wire, outcome)" and "concat pieces = wire"
  shows "outcome = Inr () \<and>
    (\<exists>frames' s'. v1_feed L (v1_codec_default L) [] pieces = Some (frames', s', [], None) \<and>
       list_all2 (payload_eq ser) frames frames' \<and> map (rpc_of_frame ser pj) frames' = map (rpc_of_frame ser pj) frames)"
proof -
  obtain texts where texts: "list_all2 (\<lambda>f t. to_bytes_mut ser f = Inr t) frames texts" "list_all one_line texts"
    using list_all2_texts [OF assms(2)] by blast
  from v1_encode_lines [OF texts(1), of "[]"] assms(3) have wire: "wire = wires line_wire texts" "outcome = Inr ()" by auto
  have "\<exists>s'. v1_feed L (v1_codec_default L) [] pieces = Some (map SerializedBytes texts :: v1_rpc payload list, s', [], None)"
    using v1_wire.lines_fed [OF v1_wire.intro [OF assms(1)] _ texts(2), of pieces "[]"] assms(4) wire by simp
  moreover have "list_all2 (payload_eq ser) frames (map SerializedBytes texts)"
    using texts(1) by (auto simp: list_all2_map2 read_back_frame elim: list_all2_mono)
  moreover have "map (rpc_of_frame ser pj) (map SerializedBytes texts) = map (rpc_of_frame ser pj) frames"
    using texts(1) by (induction rule: list_all2_induct)
      (auto simp: rpc_of_frame_def into_bytes_mut_def to_bytes_mut_def split: payload.split)
  ultimately show ?thesis using wire(2) by blast
qed

text \<open>
  The length of a line is not limited, though the source has a limit of \<open>MAX_FRAME_LENGTH\<close> bytes: whatever a peer
  sends without a newline is kept, all of it, and no error is reported.
\<close>

theorem v1_line_unlimited:
  fixes L :: "'l lines_lib"
  assumes "lines_contract L searched" and "NL \<notin> set (concat pieces)"
  shows "\<exists>s'. (v1_feed L (v1_codec_default L) [] pieces :: ('l, stratum_error, v1_rpc payload) frames_read option) = Some ([], s', concat pieces, None)"
  using v1_wire.lines_fed [OF v1_wire.intro [OF assms(1)], of pieces "[]" "concat pieces"] assms(2) by simp

section \<open>An instance\<close>

definition plain_lines :: "unit lines_lib" where
  "plain_lines =
     \<lparr>lines_new = (),
      lines_decode = (\<lambda>s b.
        if NL \<in> set b
        then let line = takeWhile (\<lambda>x. x \<noteq> NL) b in
             (s, drop (Suc (length line)) b,
              if valid_utf8 (strip_cr line) then Inr (Some (strip_cr line)) else Inl ''Unable to decode input as UTF8'')
        else (s, b, Inr None))\<rparr>"

lemma plain_lines_contract: "lines_contract plain_lines (\<lambda>_ _. True)"
proof -
  have "takeWhile (\<lambda>x. x \<noteq> NL) (line @ NL # rest) = line" if "NL \<notin> set line" for line rest
    using that by (subst takeWhile_append2) auto
  then show ?thesis by (auto simp: lines_contract_def plain_lines_def Let_def)
qed

interpretation plain_v1: v1_wire plain_lines "\<lambda>_ _. True"
  by unfold_locales (rule plain_lines_contract)

definition word_frame :: "bytes \<Rightarrow> v1_rpc payload" where "word_frame t = SerializedBytes t"

theorem v1_stream_roundtrip_witness:
  "\<exists>s'. v1_feed plain_lines (v1_codec_default plain_lines) [] [ascii ''[1'', ascii ''][2]'' @ [NL], ascii ''[3]'' @ [NL]] =
     Some (map word_frame [ascii ''[1][2]'', ascii ''[3]''], s', [], None)"
proof -
  define fs where "fs = map word_frame [ascii ''[1][2]'', ascii ''[3]'']"
  define ser :: "v1_rpc serialize_fn" where "ser = (\<lambda>_. Inl Format)"
  have lines: "list_all (\<lambda>f. line_of ser f \<noteq> None) fs"
    unfolding fs_def ser_def word_frame_def line_of_def to_bytes_mut_def by code_simp
  have wire: "v1_encode_all ser fs [] = (concat [ascii ''[1'', ascii ''][2]'' @ [NL], ascii ''[3]'' @ [NL]], Inr ())"
    unfolding fs_def ser_def word_frame_def by code_simp
  obtain frames' s' where r: "v1_feed plain_lines (v1_codec_default plain_lines) []
      [ascii ''[1'', ascii ''][2]'' @ [NL], ascii ''[3]'' @ [NL]] = Some (frames', s', [], None)"
      "list_all2 (payload_eq ser) fs frames'"
    using v1_stream_roundtrip [OF plain_lines_contract lines wire refl] by blast
  have "x = word_frame t" if "payload_eq ser (word_frame t) x" for t x
    using that by (cases x) (simp_all add: payload_eq_def word_frame_def ser_def to_bytes_mut_def)
  with r(2) have "frames' = fs" by (auto simp: fs_def list_all2_Cons1)
  with r(1) show ?thesis unfolding fs_def by blast
qed

theorem v1_line_unlimited_witness:
  "\<exists>s'. v1_feed plain_lines (v1_codec_default plain_lines) [] (replicate 3 (replicate (MAX_FRAME_LENGTH + 1) 0x20)) =
     Some ([] :: v1_rpc payload list, s', concat (replicate 3 (replicate (MAX_FRAME_LENGTH + 1) 0x20)), None)"
proof -
  have "NL \<notin> set (concat (replicate 3 (replicate (MAX_FRAME_LENGTH + 1) 0x20)))" by (simp add: NL_def)
  from v1_line_unlimited [OF plain_lines_contract this] show ?thesis .
qed

end
