(* ===== verification/Async_Utils.thy ===== *)
theory Async_Utils
  imports Prelude
begin

text \<open>
  \<open>utils-rs/async-utils/src/lib.rs\<close> and \<open>maybe_future.rs\<close>: futures that can be cancelled, futures that may
  hold their value already, and the coarse-grained timer.

  A future is the state it keeps between polls; what a poll does to it is a function, the argument
  of the definitions that poll a future they are given. Wakers are not modelled: a poll is a question,
  and the theorems say how it is answered.
\<close>

section \<open>Polling\<close>

datatype 'a poll = Pending | Ready 'a

type_synonym ('s, 'a) poll_fn = "'s \<Rightarrow> 'a poll \<times> 's"

definition poll_map :: "('a \<Rightarrow> 'b) \<Rightarrow> 'a poll \<Rightarrow> 'b poll" where
  "poll_map f p = (case p of Pending \<Rightarrow> Pending | Ready x \<Rightarrow> Ready (f x))"

lemma poll_map_simps [simp]:
  "poll_map f Pending = Pending" "poll_map f (Ready x) = Ready (f x)"
  by (simp_all add: poll_map_def)

text \<open>The value of the first poll that is ready, and the number of pending polls before it.\<close>

fun first_ready :: "nat \<Rightarrow> ('s, 'a) poll_fn \<Rightarrow> 's \<Rightarrow> (nat \<times> 'a) option" where
  "first_ready 0 pl s = None"
| "first_ready (Suc k) pl s =
     (case pl s of
        (Ready x, _) \<Rightarrow> Some (0, x)
      | (Pending, s') \<Rightarrow> map_option (\<lambda>(n, x). (Suc n, x)) (first_ready k pl s'))"

lemma first_ready_less: "first_ready k pl s = Some (n, x) \<Longrightarrow> n < k"
proof (induction k arbitrary: s n)
  case (Suc k)
  then show ?case by (fastforce split: prod.split_asm poll.split_asm)
qed simp

section \<open>Cancelable\<close>

record ('f, 'c) cancelable =
  ca_ft :: 'f
  ca_cancel_ft :: 'c

definition cancelable_new :: "'f \<Rightarrow> 'c \<Rightarrow> ('f, 'c) cancelable" where
  "cancelable_new ft cancel_ft = \<lparr>ca_ft = ft, ca_cancel_ft = cancel_ft\<rparr>"

definition cancelable_into_inner :: "('f, 'c) cancelable \<Rightarrow> 'f \<times> 'c" where
  "cancelable_into_inner c = (ca_ft c, ca_cancel_ft c)"

definition cancelable_poll ::
    "('f, 'a) poll_fn \<Rightarrow> ('c, 'e) poll_fn \<Rightarrow> (('f, 'c) cancelable, 'e + 'a) poll_fn" where
  "cancelable_poll pf pc this =
     (case pc (ca_cancel_ft this) of
        (Ready res, c') \<Rightarrow> (Ready (Inl res), this\<lparr>ca_cancel_ft := c'\<rparr>)
      | (Pending, c') \<Rightarrow>
          (case pf (ca_ft this) of
             (r, f') \<Rightarrow> (poll_map Inr r, this\<lparr>ca_ft := f', ca_cancel_ft := c'\<rparr>)))"

text \<open>What a cancelled future has to do, from the two futures on their own.\<close>

fun race :: "(nat \<times> 'a) option \<Rightarrow> (nat \<times> 'e) option \<Rightarrow> (nat \<times> ('e + 'a)) option" where
  "race None None = None"
| "race (Some (n, x)) None = Some (n, Inr x)"
| "race None (Some (m, e)) = Some (m, Inl e)"
| "race (Some (n, x)) (Some (m, e)) = (if m \<le> n then Some (m, Inl e) else Some (n, Inr x))"

lemma race_Suc:
  "race (map_option (\<lambda>(n, x). (Suc n, x)) a) (map_option (\<lambda>(n, x). (Suc n, x)) b) =
   map_option (\<lambda>(n, x). (Suc n, x)) (race a b)"
  by (cases a; cases b) auto

lemma race_0:
  "race (Some (0, x)) (map_option (\<lambda>(n, x). (Suc n, x)) b) = Some (0, Inr x)"
  "race a (Some (0, e)) = Some (0, Inl e)"
  by (cases b; auto) (cases a; auto)

lemma cancelable_races:
  "first_ready k (cancelable_poll pf pc) c = race (first_ready k pf (ca_ft c)) (first_ready k pc (ca_cancel_ft c))"
proof (induction k arbitrary: c)
  case (Suc k)
  show ?case
    by (auto simp: cancelable_poll_def [of pf pc c] race_0 race_Suc Suc.IH split: prod.split poll.split)
qed simp

section \<open>MaybeFuture\<close>

datatype ('s, 'a) maybe_future = MfFuture 's | MfReady "'a option"

definition maybe_future_future :: "'s \<Rightarrow> ('s, 'a) maybe_future" where
  "maybe_future_future fut = MfFuture fut"

definition maybe_future_result :: "'a \<Rightarrow> ('s, 'a) maybe_future" where
  "maybe_future_result val = MfReady (Some val)"

text \<open>\<open>Inl\<close> is the panic of a poll after the value was taken.\<close>

definition maybe_future_poll ::
    "('s, 'a) poll_fn \<Rightarrow> ('s, 'a) maybe_future \<Rightarrow> (string + 'a poll) \<times> ('s, 'a) maybe_future" where
  "maybe_future_poll pl mf =
     (case mf of
        MfFuture fut \<Rightarrow> (case pl fut of (r, fut') \<Rightarrow> (Inr r, MfFuture fut'))
      | MfReady (Some v) \<Rightarrow> (Inr (Ready v), MfReady None)
      | MfReady None \<Rightarrow> (Inl ''BUG: MaybeFuture polled after yielding Ready'', MfReady None))"

section \<open>The coarse-grained timer\<close>

text \<open>Instants and durations in nanoseconds; the base is set by the first call.\<close>

definition PRECISION_NS :: u64 where "PRECISION_NS = 100000000"

definition make_grainy :: "nat option \<Rightarrow> nat \<Rightarrow> nat \<Rightarrow> nat \<times> nat option" where
  "make_grainy base_cell now instant =
     (let base = (case base_cell of None \<Rightarrow> now | Some b \<Rightarrow> b) in
      if instant < base then (instant, Some base)
      else
        (let ns = of_nat (instant - base) :: u64;
             ns = ns + PRECISION_NS - 1;
             ns = ns - ns mod PRECISION_NS
         in (base + unat ns, Some base)))"

definition initialize_grainy_timer :: "nat option \<Rightarrow> nat \<Rightarrow> nat option" where
  "initialize_grainy_timer base_cell now = snd (make_grainy base_cell now now)"

text \<open>\<open>grainy_timeout\<close>: the deadline; the clock is read again if the base is not set.\<close>

definition grainy_deadline :: "nat option \<Rightarrow> nat \<Rightarrow> nat \<Rightarrow> nat \<Rightarrow> nat \<times> nat option" where
  "grainy_deadline base_cell now later timeout = make_grainy base_cell later (now + timeout)"

lemma grainy_ns:
  assumes "n + 10 ^ 8 \<le> 2 ^ 64"
  shows "let ns = of_nat n + PRECISION_NS - 1 in unat (ns - ns mod PRECISION_NS) = (n + 99999999) div 10 ^ 8 * 10 ^ 8"
proof -
  define ns where "ns = of_nat n + PRECISION_NS - 1"
  have "ns = of_nat (n + 99999999)" by (simp add: ns_def PRECISION_NS_def)
  then have u: "unat ns = n + 99999999"
    using assms by (simp only: unsigned_of_nat) (simp add: take_bit_nat_eq_self)
  have "unat (ns - ns mod PRECISION_NS) = unat ns - unat (ns mod PRECISION_NS)"
    by (rule unat_sub) (simp add: word_le_nat_alt unat_mod)
  also have "\<dots> = (n + 99999999) - (n + 99999999) mod 10 ^ 8" by (simp add: unat_mod u PRECISION_NS_def)
  also have "\<dots> = (n + 99999999) div 10 ^ 8 * 10 ^ 8" by (rule minus_mod_eq_div_mult)
  finally show ?thesis by (simp add: ns_def Let_def)
qed

lemma make_grainy_grid:
  assumes "b \<le> i" and "i - b + 10 ^ 8 \<le> 2 ^ 64"
  shows "make_grainy (Some b) now i = (b + (i - b + 99999999) div 10 ^ 8 * 10 ^ 8, Some b)"
  using assms grainy_ns [OF assms(2)] by (simp add: make_grainy_def Let_def)

lemma round_up:
  "d \<le> (d + 99999999) div 10 ^ 8 * 10 ^ 8" "(d + 99999999) div 10 ^ 8 * 10 ^ 8 < d + 10 ^ 8"
  "d mod 10 ^ 8 = 0 \<Longrightarrow> (d + 99999999) div 10 ^ 8 * 10 ^ 8 = (d :: nat)"
proof -
  have "(d + 99999999) div 10 ^ 8 * 10 ^ 8 + (d + 99999999) mod 10 ^ 8 = d + 99999999" by (rule div_mult_mod_eq)
  moreover have "(d + 99999999) mod 10 ^ 8 < 10 ^ 8" by simp
  ultimately show "d \<le> (d + 99999999) div 10 ^ 8 * 10 ^ 8" "(d + 99999999) div 10 ^ 8 * 10 ^ 8 < d + 10 ^ 8" by simp_all
next
  assume "d mod 10 ^ 8 = 0"
  then obtain k where "d = 10 ^ 8 * k" by (metis mod_0_imp_dvd dvdE)
  then show "(d + 99999999) div 10 ^ 8 * 10 ^ 8 = d" by simp
qed

section \<open>Properties\<close>

text \<open>
  A cancelled future is a race. Polled at any pace, it becomes ready exactly when the first of the two
  does; it yields the value of the future only if the future was ready strictly before the cancellation,
  and otherwise what the cancellation yields.
\<close>

theorem cancel_is_race:
  "first_ready k (cancelable_poll pf pc) (cancelable_new ft cancel_ft) = race (first_ready k pf ft) (first_ready k pc cancel_ft)"
  by (simp add: cancelable_races cancelable_new_def)

text \<open>
  The coarse-grained timer rounds up to its grid: within $2^{64}$ nanoseconds of the base, a deadline is
  moved to the first point of the grid that is not before it, less than 100 ms later; points of the
  grid stay where they are, and the order of deadlines is kept.
\<close>

theorem grainy_rounds_up:
  assumes "b \<le> i" and "i \<le> j" and "j - b + 10 ^ 8 \<le> 2 ^ 64"
  shows "let g = fst (make_grainy (Some b) now i) in
      i \<le> g \<and> g < i + 10 ^ 8 \<and> (g - b) mod 10 ^ 8 = 0 \<and> g \<le> fst (make_grainy (Some b) now j) \<and>
      ((i - b) mod 10 ^ 8 = 0 \<longrightarrow> g = i)"
proof -
  have i: "i - b + 10 ^ 8 \<le> 2 ^ 64" using assms by simp
  define d where "d = i - b"
  have d: "i = b + d" using assms(1) by (simp add: d_def)
  have "(d + 99999999) div 10 ^ 8 \<le> (j - b + 99999999) div 10 ^ 8"
    using assms by (intro div_le_mono) (simp add: d_def)
  then have mono: "(d + 99999999) div 10 ^ 8 * 10 ^ 8 \<le> (j - b + 99999999) div 10 ^ 8 * 10 ^ 8" by simp
  show ?thesis
    using make_grainy_grid [OF assms(1) i] make_grainy_grid [of b j] assms round_up [of d] mono by (simp add: Let_def d)
qed

theorem grainy_rounds_up_witness:
  "fst (make_grainy (Some 500) 900 700) = 100000500 \<and> 700 \<le> fst (make_grainy (Some 500) 900 700) \<and>
   fst (make_grainy (Some 500) 900 700) \<le> fst (make_grainy (Some 500) 900 300000500)"
proof -
  have "fst (make_grainy (Some 500) 900 700) = 100000500" using make_grainy_grid [of 500 700 900] by simp
  with grainy_rounds_up [of 500 700 300000500 900] show ?thesis by (simp add: Let_def)
qed

text \<open>
  A deadline 584 years after the base is where the addition overflows: with wrapping arithmetic it is
  moved back to the base.
\<close>

lemma grainy_wraps: "fst (make_grainy (Some b) now (b + 2 ^ 64 - 10 ^ 8 + 1)) = b"
  by (simp add: make_grainy_def PRECISION_NS_def Let_def word_of_nat_eq_0_iff)

end
