(* ===== verification/Unvariant.thy ===== *)
theory Unvariant
  imports Async_Utils
begin

text \<open>
  The macros of \<open>utils-rs/unvariant\<close>, which generate the dispatch of a message to the method that handles
  its type. A macro is a compiler: its input is a syntax tree of \<open>syn\<close>, its output is code. The trees hold what the
  macros look at; the code that \<open>#[handler]\<close> and \<open>unvariant!\<close> print is a datatype (\<open>arm\<close>), and \<open>run_match\<close> gives it the
  meaning that a Rust \<open>match\<close> has. The parsers of \<open>syn\<close> for types and \<open>impl\<close> blocks are the parameter
  \<open>syn_lib\<close>. \<open>HandlerFilter\<close>, the future behind \<open>into_handler\<close>, is in the last part of the theory.
\<close>

section \<open>Syntax trees\<close>

datatype rtype =
    TArray rtype
  | TParen rtype
  | TPtr rtype
  | TReference "string option" rtype
  | TPath "path_segment list"
  | TTuple "rtype list"
  | TVerbatim string
  | TOther string
and path_segment = Segment string path_arguments
and path_arguments =
    NoArguments
  | AngleBracketed "generic_argument list"
  | Parenthesized "rtype list" "rtype option"
and generic_argument = LifetimeArgument string | TypeArgument rtype | OtherArgument string

datatype rtoken = Keyword string | Identifier string | Punct string

datatype unvariant_error =
    SynError string
  | VariantTypeError
  | TraitInAsync
  | UnexpectedTokens
  | GenericAsync
  | WhereClause
  | EmptyImpl
  | NotAMethod
  | BadSignature bool
  | CatchAllArguments rtype
  | ReturnTypesDiffer
  | MultipleCatchAll
  | NoCatchAll
  | UnknownIdType
  | NotStructOrEnum

record attribute =
  at_path :: "string list"
  at_args :: "rtoken list option"

datatype fn_arg = Receiver | Typed rtype

record impl_method =
  m_attrs :: "attribute list"
  m_ident :: string
  m_async :: bool
  m_generics :: "string list"
  m_inputs :: "fn_arg list"
  m_output :: "rtype option"

datatype impl_item = ImplMethod impl_method | ImplOther string

record item_impl =
  ii_generics :: "string list"
  ii_where_clause :: "string option"
  ii_self_ty :: rtype
  ii_items :: "impl_item list"

record syn_lib =
  parse_type :: "rtoken list \<Rightarrow> string + rtype \<times> rtoken list"
  parse_impl :: "rtoken list \<Rightarrow> string + item_impl"

section \<open>Types without lifetimes\<close>

definition variant_type_error :: "unvariant_error + 'a" where
  "variant_type_error = Inl VariantTypeError"

text \<open>The \<open>try_fold\<close> over the parts of a type.\<close>

definition fold_static :: "(unvariant_error + bool) list \<Rightarrow> unvariant_error + bool" where
  "fold_static = foldl (\<lambda>acc this. rbind acc (\<lambda>is_static. rmap (\<lambda>this_static. is_static \<and> this_static) this)) (Inr True)"

fun is_static :: "rtype \<Rightarrow> unvariant_error + bool"
  and segment_static :: "path_segment \<Rightarrow> unvariant_error + bool"
  and arguments_static :: "path_arguments \<Rightarrow> unvariant_error + bool"
  and generic_static :: "generic_argument \<Rightarrow> unvariant_error + bool" where
  "is_static (TArray elem) = is_static elem"
| "is_static (TParen elem) = is_static elem"
| "is_static (TPtr elem) = is_static elem"
| "is_static (TReference lifetime elem) =
     (if lifetime \<noteq> None \<and> lifetime \<noteq> Some ''static'' then Inr False else is_static elem)"
| "is_static (TPath segments) = fold_static (map segment_static segments)"
| "is_static (TTuple elems) = variant_type_error"
| "is_static (TVerbatim tokens) = variant_type_error"
| "is_static (TOther kind) = variant_type_error"
| "segment_static (Segment ident arguments) = arguments_static arguments"
| "arguments_static NoArguments = Inr True"
| "arguments_static (AngleBracketed args) = fold_static (map generic_static args)"
| "arguments_static (Parenthesized inputs output) =
     rbind (fold_static (map is_static inputs)) (\<lambda>inputs_static.
     rbind (case output of None \<Rightarrow> Inr True | Some ty \<Rightarrow> is_static ty) (\<lambda>output_static.
     Inr (inputs_static \<and> output_static)))"
| "generic_static (LifetimeArgument lf) = Inr (lf = ''static'')"
| "generic_static (TypeArgument ty) = is_static ty"
| "generic_static (OtherArgument kind) = variant_type_error"

section \<open>Arguments of the handler macro\<close>

record handler_args =
  ha_ty :: rtype
  ha_ty_static :: bool
  ha_use_async :: bool
  ha_use_try :: bool
  ha_handler_suffix :: "string option"
  ha_handler_trait :: "rtype option"

definition peek :: "rtoken \<Rightarrow> rtoken list \<Rightarrow> bool" where
  "peek t input = (case input of [] \<Rightarrow> False | u # _ \<Rightarrow> u = t)"

definition parse_type_or :: "syn_lib \<Rightarrow> rtoken list \<Rightarrow> unvariant_error + rtype \<times> rtoken list" where
  "parse_type_or S input = map_err SynError (parse_type S input)"

definition parse_ident :: "rtoken list \<Rightarrow> unvariant_error + string \<times> rtoken list" where
  "parse_ident input = (case input of Identifier s # rest \<Rightarrow> Inr (s, rest) | _ \<Rightarrow> Inl (SynError ''expected identifier''))"

definition parse_suffix :: "bool \<Rightarrow> rtoken list \<Rightarrow> unvariant_error + string option \<times> rtoken list" where
  "parse_suffix use_async input =
     (if use_async \<and> peek (Identifier ''suffix'') input
      then rmap (\<lambda>(s, rest). (Some s, rest)) (parse_ident (tl input))
      else Inr (None, input))"

definition parse_trait :: "syn_lib \<Rightarrow> bool \<Rightarrow> rtoken list \<Rightarrow> unvariant_error + rtype option \<times> rtoken list" where
  "parse_trait S use_async input =
     (if peek (Keyword ''trait'') input
      then if use_async then Inl TraitInAsync
           else rmap (\<lambda>(ty, rest). (Some ty, rest)) (parse_type_or S (tl input))
      else Inr (None, input))"

definition args_parse :: "syn_lib \<Rightarrow> rtoken list \<Rightarrow> unvariant_error + handler_args \<times> rtoken list" where
  "args_parse S input =
     (let use_async = peek (Keyword ''async'') input;
          input = (if use_async then tl input else input);
          use_try = peek (Keyword ''try'') input;
          input = (if use_try then tl input else input)
      in rbind (parse_type_or S input) (\<lambda>(ty, input).
         rbind (is_static ty) (\<lambda>ty_static.
         rbind (parse_suffix use_async input) (\<lambda>(handler_suffix, input).
         rbind (parse_trait S use_async input) (\<lambda>(handler_trait, input).
         if peek (Punct ''@'') input
         then Inr (\<lparr>ha_ty = ty, ha_ty_static = ty_static, ha_use_async = use_async, ha_use_try = use_try,
                    ha_handler_suffix = handler_suffix, ha_handler_trait = handler_trait\<rparr>, tl input)
         else Inl UnexpectedTokens)))))"

section \<open>Methods of the block\<close>

datatype arm_pattern = PatType rtype | PatCatchAll

definition HANDLE_ATTR :: string where "HANDLE_ATTR = ''handle''"

definition is_handle_attr :: "attribute \<Rightarrow> bool" where
  "is_handle_attr a \<longleftrightarrow> at_path a = [HANDLE_ATTR]"

definition as_method :: "impl_item \<Rightarrow> unvariant_error + impl_method" where
  "as_method i = (case i of ImplMethod m \<Rightarrow> Inr m | ImplOther _ \<Rightarrow> Inl NotAMethod)"

text \<open>A method without a return type returns what the macro writes as \<open>()\<close>.\<close>

definition ty_ret :: "impl_method \<Rightarrow> rtype" where
  "ty_ret m = (case m_output m of None \<Rightarrow> TVerbatim ''()'' | Some ty \<Rightarrow> ty)"

text \<open>\<open>Attribute::parse_args\<close> for a type: the tokens in the parentheses are one type and nothing else.\<close>

definition attr_type :: "syn_lib \<Rightarrow> attribute \<Rightarrow> unvariant_error + rtype" where
  "attr_type S a =
     (case at_args a of
        None \<Rightarrow> Inl (SynError ''expected attribute arguments in parentheses'')
      | Some tokens \<Rightarrow>
          rbind (parse_type_or S tokens) (\<lambda>(ty, rest). if rest = [] then Inr ty else Inl (SynError ''unexpected token'')))"

definition pat_in :: "syn_lib \<Rightarrow> bool \<Rightarrow> rtype \<Rightarrow> impl_method \<Rightarrow> unvariant_error + arm_pattern" where
  "pat_in S use_try ty_variant m =
     (case find is_handle_attr (m_attrs m) of
        Some attr \<Rightarrow>
          if at_args attr = Some [Punct ''_'']
          then if length (m_inputs m) \<noteq> 2 then Inl (CatchAllArguments ty_variant) else Inr PatCatchAll
          else rmap PatType (attr_type S attr)
      | None \<Rightarrow>
          (case m_inputs m of
             [Receiver, Typed ty] \<Rightarrow> Inr (PatType ty)
           | _ \<Rightarrow> Inl (BadSignature use_try)))"

record handler_method =
  hm_ty :: rtype
  hm_method :: string
  hm_await :: bool

record catch_all_handler =
  ca_lifetimes :: "string list"
  ca_method :: string
  ca_await :: bool

definition handler_new :: "rtype \<Rightarrow> impl_method \<Rightarrow> bool \<Rightarrow> handler_method" where
  "handler_new ty m is_async = \<lparr>hm_ty = ty, hm_method = m_ident m, hm_await = is_async\<rparr>"

definition catch_all_new :: "impl_method \<Rightarrow> bool \<Rightarrow> catch_all_handler" where
  "catch_all_new m is_async = \<lparr>ca_lifetimes = m_generics m, ca_method = m_ident m, ca_await = is_async\<rparr>"

record handler_item =
  hi_args :: handler_args
  hi_iimpl :: item_impl
  hi_ty_ret :: rtype
  hi_handlers :: "handler_method list"
  hi_catch_all :: catch_all_handler

text \<open>The methods after the first one.\<close>

fun parse_methods ::
    "syn_lib \<Rightarrow> handler_args \<Rightarrow> rtype \<Rightarrow> impl_item list \<Rightarrow> handler_method list \<Rightarrow> catch_all_handler option \<Rightarrow>
     unvariant_error + handler_method list \<times> catch_all_handler option" where
  "parse_methods S args ret [] handlers catch_all = Inr (handlers, catch_all)"
| "parse_methods S args ret (i # items) handlers catch_all =
     rbind (as_method i) (\<lambda>m.
       if ty_ret m \<noteq> ret then Inl ReturnTypesDiffer
       else rbind (pat_in S (ha_use_try args) (ha_ty args) m) (\<lambda>pat.
         case pat of
           PatType ty \<Rightarrow>
             parse_methods S args ret items (handlers @ [handler_new ty m (ha_use_async args \<and> m_async m)]) catch_all
         | PatCatchAll \<Rightarrow>
             if catch_all \<noteq> None then Inl MultipleCatchAll
             else parse_methods S args ret items handlers (Some (catch_all_new m (ha_use_async args \<and> m_async m)))))"

text \<open>\<open>Item::parse\<close>, after the arguments and the block have been read.\<close>

definition item_of :: "syn_lib \<Rightarrow> handler_args \<Rightarrow> item_impl \<Rightarrow> unvariant_error + handler_item" where
  "item_of S args iimpl =
     (if ha_use_async args \<and> ii_generics iimpl \<noteq> [] then Inl GenericAsync
      else if ii_where_clause iimpl \<noteq> None then Inl WhereClause
      else case ii_items iimpl of
        [] \<Rightarrow> Inl EmptyImpl
      | i # items \<Rightarrow>
          rbind (as_method i) (\<lambda>first.
          rbind (pat_in S (ha_use_try args) (ha_ty args) first) (\<lambda>pat.
          rbind (let first_is_async = ha_use_async args \<and> m_async first in
                 case pat of
                   PatType ty \<Rightarrow> parse_methods S args (ty_ret first) items [handler_new ty first first_is_async] None
                 | PatCatchAll \<Rightarrow> parse_methods S args (ty_ret first) items [] (Some (catch_all_new first first_is_async)))
            (\<lambda>(handlers, catch_all).
               case catch_all of
                 None \<Rightarrow> Inl NoCatchAll
               | Some c \<Rightarrow> Inr \<lparr>hi_args = args, hi_iimpl = iimpl, hi_ty_ret = ty_ret first, hi_handlers = handlers,
                                hi_catch_all = c\<rparr>))))"

definition item_parse :: "syn_lib \<Rightarrow> rtoken list \<Rightarrow> unvariant_error + handler_item" where
  "item_parse S input =
     rbind (args_parse S input) (\<lambda>(args, input).
     rbind (map_err SynError (parse_impl S input)) (item_of S args))"

section \<open>Generated code\<close>

text \<open>
  What a generated call passes on: the converted message, the variant, the variant as \<open>Ok(variant)\<close>, or the error of
  the conversion as \<open>Err(err.into())\<close>.
\<close>

datatype call_arg = PassData | PassVariant | PassOkVariant | PassErr

record gen_call =
  gc_method :: string
  gc_arg :: call_arg
  gc_await :: bool

datatype arm_body =
    TryInto gen_call gen_call
  | IntoCall gen_call
  | PlainCall gen_call

datatype arm = IdArm rtype arm_body | WildcardArm arm_body

definition catch_all_arm :: "bool \<Rightarrow> catch_all_handler \<Rightarrow> arm" where
  "catch_all_arm use_try c =
     WildcardArm (PlainCall \<lparr>gc_method = ca_method c, gc_arg = (if use_try then PassOkVariant else PassVariant),
                            gc_await = ca_await c\<rparr>)"

definition handler_arm :: "bool \<Rightarrow> catch_all_handler \<Rightarrow> handler_method \<Rightarrow> arm" where
  "handler_arm use_try c h =
     (let call = \<lparr>gc_method = hm_method h, gc_arg = PassData, gc_await = hm_await h\<rparr>
      in IdArm (hm_ty h)
           (if use_try then TryInto call \<lparr>gc_method = ca_method c, gc_arg = PassErr, gc_await = ca_await c\<rparr>
            else IntoCall call))"

definition item_arms :: "handler_item \<Rightarrow> arm list" where
  "item_arms item =
     map (handler_arm (ha_use_try (hi_args item)) (hi_catch_all item)) (hi_handlers item) @
     [catch_all_arm (ha_use_try (hi_args item)) (hi_catch_all item)]"

datatype handler_trait = CustomTrait rtype | HandlerTrait rtype rtype

record gen_impl =
  gi_trait :: "handler_trait option"
  gi_self_ty :: rtype
  gi_fn :: string
  gi_async :: bool
  gi_lifetimes :: "string list"
  gi_variant :: rtype
  gi_ret :: rtype
  gi_arms :: "arm list"
  gi_into_handler :: "string option"

definition handler_impl :: "handler_item \<Rightarrow> gen_impl" where
  "handler_impl item =
     \<lparr>gi_trait = Some (case ha_handler_trait (hi_args item) of
                         Some handler_trait \<Rightarrow> CustomTrait handler_trait
                       | None \<Rightarrow> HandlerTrait (ha_ty (hi_args item)) (hi_ty_ret item)),
      gi_self_ty = ii_self_ty (hi_iimpl item), gi_fn = ''handle'', gi_async = False,
      gi_lifetimes = ca_lifetimes (hi_catch_all item), gi_variant = ha_ty (hi_args item), gi_ret = hi_ty_ret item,
      gi_arms = item_arms item, gi_into_handler = None\<rparr>"

definition with_suffix :: "string \<Rightarrow> string option \<Rightarrow> string" where
  "with_suffix name suffix = name @ (case suffix of None \<Rightarrow> [] | Some s \<Rightarrow> s)"

definition async_handler_impl :: "handler_item \<Rightarrow> gen_impl" where
  "async_handler_impl item =
     \<lparr>gi_trait = None, gi_self_ty = ii_self_ty (hi_iimpl item),
      gi_fn = with_suffix ''handle'' (ha_handler_suffix (hi_args item)), gi_async = True,
      gi_lifetimes = ca_lifetimes (hi_catch_all item), gi_variant = ha_ty (hi_args item), gi_ret = hi_ty_ret item,
      gi_arms = item_arms item,
      gi_into_handler =
        (if ha_ty_static (hi_args item) then Some (with_suffix ''into_handler'' (ha_handler_suffix (hi_args item))) else None)\<rparr>"

definition remove_handle_attrs :: "item_impl \<Rightarrow> item_impl" where
  "remove_handle_attrs iimpl =
     iimpl\<lparr>ii_items := map (\<lambda>i. case i of
                               ImplMethod m \<Rightarrow> ImplMethod (m\<lparr>m_attrs := filter (\<lambda>a. \<not> is_handle_attr a) (m_attrs m)\<rparr>)
                             | ImplOther t \<Rightarrow> ImplOther t) (ii_items iimpl)\<rparr>"

definition handler_expand :: "handler_item \<Rightarrow> item_impl \<times> gen_impl" where
  "handler_expand item =
     (remove_handle_attrs (hi_iimpl item),
      if ha_use_async (hi_args item) then async_handler_impl item else handler_impl item)"

section \<open>Meaning of the generated code\<close>

text \<open>
  What the generated code refers to: the constants \<open>Id::ID\<close> of the types, \<open>GetId::get_id\<close>, the conversions from the
  variant into a type, with their errors as the catch-all method takes them, and the methods. What a method
  does to the handler is a part of \<open>'o\<close>.
\<close>

datatype ('v, 'e, 'd) argument = ArgData 'd | ArgVariant 'v | ArgResult "'e + 'v"

record ('id, 'v, 'd, 'e, 'o) dispatch_env =
  de_id :: "rtype \<Rightarrow> 'id"
  de_get_id :: "'v \<Rightarrow> 'id"
  de_try_into :: "rtype \<Rightarrow> 'v \<Rightarrow> 'e + 'd"
  de_into :: "rtype \<Rightarrow> 'v \<Rightarrow> 'd"
  de_call :: "string \<Rightarrow> ('v, 'e, 'd) argument \<Rightarrow> 'o"

fun methods_of :: "impl_item list \<Rightarrow> impl_method list" where
  "methods_of [] = []"
| "methods_of (ImplMethod m # items) = m # methods_of items"
| "methods_of (ImplOther _ # items) = methods_of items"

definition find_method :: "item_impl \<Rightarrow> string \<Rightarrow> impl_method option" where
  "find_method iimpl name = find (\<lambda>m. m_ident m = name) (methods_of (ii_items iimpl))"

definition param_ty :: "impl_method \<Rightarrow> rtype option" where
  "param_ty m = (case m_inputs m of [Receiver, Typed ty] \<Rightarrow> Some ty | _ \<Rightarrow> None)"

text \<open>
  The compiler accepts a call of a method that exists and takes one argument beside \<open>self\<close>, and that is
  awaited exactly if it is \<open>async\<close>: its value is to be the return type.
\<close>

definition call_compiles :: "item_impl \<Rightarrow> gen_call \<Rightarrow> bool" where
  "call_compiles iimpl c =
     (case find_method iimpl (gc_method c) of
        None \<Rightarrow> False
      | Some m \<Rightarrow> param_ty m \<noteq> None \<and> m_async m = gc_await c)"

fun body_compiles :: "item_impl \<Rightarrow> arm_body \<Rightarrow> bool" where
  "body_compiles iimpl (TryInto c d) = (call_compiles iimpl c \<and> call_compiles iimpl d)"
| "body_compiles iimpl (IntoCall c) = call_compiles iimpl c"
| "body_compiles iimpl (PlainCall c) = call_compiles iimpl c"

fun arm_compiles :: "item_impl \<Rightarrow> arm \<Rightarrow> bool" where
  "arm_compiles iimpl (IdArm ty body) = body_compiles iimpl body"
| "arm_compiles iimpl (WildcardArm body) = body_compiles iimpl body"

text \<open>The target of a conversion is inferred: it is the type that the method takes, whatever its annotation says.\<close>

definition target_ty :: "item_impl \<Rightarrow> gen_call \<Rightarrow> rtype" where
  "target_ty iimpl c =
     (case find_method iimpl (gc_method c) of None \<Rightarrow> TVerbatim [] | Some m \<Rightarrow> (case param_ty m of None \<Rightarrow> TVerbatim [] | Some ty \<Rightarrow> ty))"

fun run_body :: "('id, 'v, 'd, 'e, 'o) dispatch_env \<Rightarrow> item_impl \<Rightarrow> 'v \<Rightarrow> arm_body \<Rightarrow> 'o" where
  "run_body D iimpl variant (TryInto c d) =
     (case de_try_into D (target_ty iimpl c) variant of
        Inr data \<Rightarrow> de_call D (gc_method c) (ArgData data)
      | Inl err \<Rightarrow> de_call D (gc_method d) (ArgResult (Inl err)))"
| "run_body D iimpl variant (IntoCall c) = de_call D (gc_method c) (ArgData (de_into D (target_ty iimpl c) variant))"
| "run_body D iimpl variant (PlainCall c) =
     de_call D (gc_method c) (if gc_arg c = PassOkVariant then ArgResult (Inr variant) else ArgVariant variant)"

text \<open>The first arm that matches is taken; \<open>None\<close>: no arm matches.\<close>

fun run_match :: "('id, 'v, 'd, 'e, 'o) dispatch_env \<Rightarrow> item_impl \<Rightarrow> 'v \<Rightarrow> arm list \<Rightarrow> 'o option" where
  "run_match D iimpl variant [] = None"
| "run_match D iimpl variant (IdArm ty body # arms) =
     (if de_id D ty = de_get_id D variant then Some (run_body D iimpl variant body) else run_match D iimpl variant arms)"
| "run_match D iimpl variant (WildcardArm body # arms) = Some (run_body D iimpl variant body)"

text \<open>The generated \<open>handle\<close>; \<open>None\<close> if the compiler refuses it.\<close>

definition run_handle :: "('id, 'v, 'd, 'e, 'o) dispatch_env \<Rightarrow> item_impl \<times> gen_impl \<Rightarrow> 'v \<Rightarrow> 'o option" where
  "run_handle D expansion variant =
     (case expansion of
        (iimpl, gen) \<Rightarrow>
          if list_all (arm_compiles iimpl) (gi_arms gen) then run_match D iimpl variant (gi_arms gen) else None)"

section \<open>What the macro promises\<close>

text \<open>
  The method whose type has the id of the variant gets the converted variant; the catch-all method gets the
  variant if there is none, and the error if the conversion fails.
\<close>

definition pattern_of :: "syn_lib \<Rightarrow> handler_args \<Rightarrow> impl_method \<Rightarrow> unvariant_error + arm_pattern" where
  "pattern_of S args m = pat_in S (ha_use_try args) (ha_ty args) m"

definition handles :: "syn_lib \<Rightarrow> handler_args \<Rightarrow> ('id, 'v, 'd, 'e, 'o) dispatch_env \<Rightarrow> 'v \<Rightarrow> impl_method \<Rightarrow> bool" where
  "handles S args D variant m =
     (case pattern_of S args m of Inr (PatType ty) \<Rightarrow> de_id D ty = de_get_id D variant | _ \<Rightarrow> False)"

definition catches_all :: "syn_lib \<Rightarrow> handler_args \<Rightarrow> impl_method \<Rightarrow> bool" where
  "catches_all S args m = (pattern_of S args m = Inr PatCatchAll)"

definition dispatch :: "syn_lib \<Rightarrow> handler_args \<Rightarrow> ('id, 'v, 'd, 'e, 'o) dispatch_env \<Rightarrow> impl_method list \<Rightarrow> impl_method \<Rightarrow> 'v \<Rightarrow> 'o" where
  "dispatch S args D methods catch_all variant =
     (case find (handles S args D variant) methods of
        None \<Rightarrow> de_call D (m_ident catch_all) (if ha_use_try args then ArgResult (Inr variant) else ArgVariant variant)
      | Some m \<Rightarrow>
          (case param_ty m of
             None \<Rightarrow> de_call D (m_ident m) (ArgVariant variant)
           | Some ty \<Rightarrow>
               if ha_use_try args
               then case de_try_into D ty variant of
                      Inr data \<Rightarrow> de_call D (m_ident m) (ArgData data)
                    | Inl err \<Rightarrow> de_call D (m_ident catch_all) (ArgResult (Inl err))
               else de_call D (m_ident m) (ArgData (de_into D ty variant))))"

text \<open>A block that the macro accepts, and one that the compiler accepts with it.\<close>

definition well_formed_block :: "syn_lib \<Rightarrow> handler_args \<Rightarrow> item_impl \<Rightarrow> impl_method list \<Rightarrow> bool" where
  "well_formed_block S args iimpl methods \<longleftrightarrow>
     \<not> (ha_use_async args \<and> ii_generics iimpl \<noteq> []) \<and> ii_where_clause iimpl = None \<and>
     ii_items iimpl = map ImplMethod methods \<and>
     list_all (\<lambda>m. ty_ret m = ty_ret (hd methods) \<and> is_ok (pattern_of S args m)) methods \<and>
     length (filter (catches_all S args) methods) = 1"

definition callable_block :: "handler_args \<Rightarrow> impl_method list \<Rightarrow> bool" where
  "callable_block args methods \<longleftrightarrow>
     distinct (map m_ident methods) \<and>
     list_all (\<lambda>m. param_ty m \<noteq> None \<and> (m_async m \<longrightarrow> ha_use_async args)) methods"

section \<open>Parsing the block\<close>

definition handlers_of :: "syn_lib \<Rightarrow> handler_args \<Rightarrow> impl_method list \<Rightarrow> handler_method list" where
  "handlers_of S args ms =
     concat (map (\<lambda>m. case pattern_of S args m of
                        Inr (PatType ty) \<Rightarrow> [handler_new ty m (ha_use_async args \<and> m_async m)] | _ \<Rightarrow> []) ms)"

lemma handlers_of_simps [simp]:
  "handlers_of S args [] = []"
  "handlers_of S args (m # ms) =
     (case pattern_of S args m of
        Inr (PatType ty) \<Rightarrow> handler_new ty m (ha_use_async args \<and> m_async m) # handlers_of S args ms
      | _ \<Rightarrow> handlers_of S args ms)"
  by (simp_all add: handlers_of_def split: sum.split arm_pattern.split)

definition catch_alls_of :: "syn_lib \<Rightarrow> handler_args \<Rightarrow> impl_method list \<Rightarrow> catch_all_handler list" where
  "catch_alls_of S args ms =
     map (\<lambda>m. catch_all_new m (ha_use_async args \<and> m_async m)) (filter (catches_all S args) ms)"

definition option_list :: "'a option \<Rightarrow> 'a list" where
  "option_list x = (case x of None \<Rightarrow> [] | Some y \<Rightarrow> [y])"

lemma option_list_simps [simp]: "option_list None = []" "option_list (Some y) = [y]"
  by (simp_all add: option_list_def)

lemma option_list_short [simp]: "option_list x \<noteq> a # b # xs"
  by (cases x) simp_all

lemma ex_methods_Cons:
  "(\<exists>ms. ImplMethod m # items = map ImplMethod ms \<and> P ms) \<longleftrightarrow> (\<exists>ms. items = map ImplMethod ms \<and> P (m # ms))"
  by (auto simp: Cons_eq_map_conv)

text \<open>The loop over the methods: it collects the handlers in order and allows for one catch-all method.\<close>

lemma parse_methods_ok:
  "parse_methods S args ret items hs c = Inr (hs', c') \<longleftrightarrow>
     (\<exists>ms. items = map ImplMethod ms \<and> list_all (\<lambda>m. ty_ret m = ret \<and> is_ok (pattern_of S args m)) ms \<and>
           hs' = hs @ handlers_of S args ms \<and> option_list c' = option_list c @ catch_alls_of S args ms)"
proof (induction items arbitrary: hs c)
  case Nil
  show ?case by (auto simp: catch_alls_of_def option_list_def split: option.splits)
next
  case (Cons i items)
  show ?case
  proof (cases i)
    case (ImplOther t)
    then show ?thesis by (auto simp: as_method_def)
  next
    case (ImplMethod m)
    show ?thesis
    proof (cases "ty_ret m = ret")
      case False
      with ImplMethod show ?thesis by (auto simp: as_method_def)
    next
      case True
      show ?thesis
      proof (cases "pattern_of S args m")
        case (Inl e)
        with ImplMethod True show ?thesis by (auto simp: as_method_def pattern_of_def is_ok_def)
      next
        case (Inr pat)
        note pat = Inr
        have *: "pat_in S (ha_use_try args) (ha_ty args) m = Inr pat" using pat by (simp add: pattern_of_def)
        show ?thesis
        proof (cases pat)
          case (PatType ty)
          with ImplMethod True * pat show ?thesis
            by (simp add: as_method_def Cons.IH ex_methods_Cons is_ok_def catch_alls_of_def catches_all_def)
        next
          case PatCatchAll
          with ImplMethod True * pat show ?thesis
            by (cases c) (simp_all add: as_method_def Cons.IH ex_methods_Cons is_ok_def catch_alls_of_def catches_all_def)
        qed
      qed
    qed
  qed
qed

definition item_for :: "syn_lib \<Rightarrow> handler_args \<Rightarrow> item_impl \<Rightarrow> impl_method list \<Rightarrow> handler_item" where
  "item_for S args iimpl ms =
     \<lparr>hi_args = args, hi_iimpl = iimpl, hi_ty_ret = ty_ret (hd ms), hi_handlers = handlers_of S args ms,
      hi_catch_all = hd (catch_alls_of S args ms)\<rparr>"

lemma option_list_one: "option_list c = [x] \<longleftrightarrow> c = Some x"
  by (cases c) auto

lemma ex_only_one:
  "(\<exists>h c. (\<exists>ms. P ms \<and> Q ms \<and> h = H ms \<and> [c] = C ms) \<and> x = F h c) \<longleftrightarrow>
   (\<exists>ms. P ms \<and> Q ms \<and> (\<exists>c. C ms = [c]) \<and> x = F (H ms) (hd (C ms)))"
  by (metis list.sel(1))

text \<open>The macro accepts exactly the well-formed blocks.\<close>

lemma item_of_ok:
  "item_of S args iimpl = Inr item \<longleftrightarrow> (\<exists>ms. well_formed_block S args iimpl ms \<and> item = item_for S args iimpl ms)"
proof (cases "ii_items iimpl")
  case Nil
  then show ?thesis by (auto simp: item_of_def well_formed_block_def)
next
  case (Cons i items)
  show ?thesis
  proof (cases "ha_use_async args \<and> ii_generics iimpl \<noteq> [] \<or> ii_where_clause iimpl \<noteq> None")
    case True
    then show ?thesis by (auto simp: item_of_def well_formed_block_def)
  next
    case guards: False
    show ?thesis
    proof (cases i)
      case (ImplOther t)
      with Cons guards show ?thesis by (auto simp: item_of_def well_formed_block_def as_method_def Cons_eq_map_conv)
    next
      case (ImplMethod m)
      have whole: "(case pattern_of S args m of Inl e \<Rightarrow> Inl e | Inr pat \<Rightarrow> parse_methods S args (ty_ret m) (i # items) [] None) =
          Inr (handlers, catch_all) \<longleftrightarrow>
        (\<exists>ms. items = map ImplMethod ms \<and> list_all (\<lambda>x. ty_ret x = ty_ret m \<and> is_ok (pattern_of S args x)) (m # ms) \<and>
           handlers = handlers_of S args (m # ms) \<and> option_list catch_all = catch_alls_of S args (m # ms))" for handlers catch_all
        by (cases "pattern_of S args m") (simp_all add: parse_methods_ok ImplMethod ex_methods_Cons is_ok_def del: parse_methods.simps)
      have "item_of S args iimpl = rbind (case pattern_of S args m of Inl e \<Rightarrow> Inl e
            | Inr pat \<Rightarrow> parse_methods S args (ty_ret m) (i # items) [] None)
          (\<lambda>(handlers, catch_all).
             case catch_all of
               None \<Rightarrow> Inl NoCatchAll
             | Some c \<Rightarrow> Inr \<lparr>hi_args = args, hi_iimpl = iimpl, hi_ty_ret = ty_ret m, hi_handlers = handlers, hi_catch_all = c\<rparr>)"
        using guards Cons ImplMethod
        by (auto simp: item_of_def as_method_def pattern_of_def Let_def split: sum.split arm_pattern.split)
      then have "item_of S args iimpl = Inr item \<longleftrightarrow>
          (\<exists>handlers c. (case pattern_of S args m of Inl e \<Rightarrow> Inl e
              | Inr pat \<Rightarrow> parse_methods S args (ty_ret m) (i # items) [] None) = Inr (handlers, Some c) \<and>
             item = \<lparr>hi_args = args, hi_iimpl = iimpl, hi_ty_ret = ty_ret m, hi_handlers = handlers, hi_catch_all = c\<rparr>)"
        by (auto simp: rbind_def split: sum.split_asm prod.split_asm option.split_asm)
      also have "\<dots> \<longleftrightarrow> (\<exists>ms. items = map ImplMethod ms \<and>
          list_all (\<lambda>x. ty_ret x = ty_ret m \<and> is_ok (pattern_of S args x)) (m # ms) \<and>
          (\<exists>c. catch_alls_of S args (m # ms) = [c]) \<and> item = item_for S args iimpl (m # ms))"
        unfolding whole item_for_def option_list_simps list.sel by (rule ex_only_one)
      also have "\<dots> \<longleftrightarrow> (\<exists>ms. well_formed_block S args iimpl ms \<and> item = item_for S args iimpl ms)"
        using guards Cons ImplMethod
        by (auto simp: well_formed_block_def catch_alls_of_def Cons_eq_map_conv length_Suc_conv map_eq_Cons_conv)
      finally show ?thesis .
    qed
  qed
qed

section \<open>Running the expansion\<close>

definition without_handle_attrs :: "impl_method \<Rightarrow> impl_method" where
  "without_handle_attrs m = m\<lparr>m_attrs := filter (\<lambda>a. \<not> is_handle_attr a) (m_attrs m)\<rparr>"

lemma without_handle_attrs_simps [simp]:
  "m_ident (without_handle_attrs m) = m_ident m" "m_async (without_handle_attrs m) = m_async m"
  "param_ty (without_handle_attrs m) = param_ty m"
  by (simp_all add: without_handle_attrs_def param_ty_def)

lemma methods_without_attrs:
  assumes "ii_items iimpl = map ImplMethod ms"
  shows "methods_of (ii_items (remove_handle_attrs iimpl)) = map without_handle_attrs ms"
proof -
  have "methods_of (map ImplMethod xs) = xs" for xs by (induction xs) simp_all
  from this [of "map without_handle_attrs ms"] assms show ?thesis
    by (simp add: remove_handle_attrs_def without_handle_attrs_def comp_def)
qed

lemma find_unique:
  assumes "distinct (map f xs)" and "x \<in> set xs"
  shows "find (\<lambda>y. f y = f x) xs = Some x"
  using assms
proof (induction xs)
  case (Cons a xs)
  then show ?case by (cases "f a = f x") (auto simp: image_iff)
qed simp

lemma find_method_expanded:
  assumes "ii_items iimpl = map ImplMethod ms" and "distinct (map m_ident ms)" and "m \<in> set ms"
  shows "find_method (remove_handle_attrs iimpl) (m_ident m) = Some (without_handle_attrs m)"
  using find_unique [of m_ident "map without_handle_attrs ms" "without_handle_attrs m"] assms
  by (simp add: find_method_def methods_without_attrs comp_def)

text \<open>The match takes the arm of the first method that handles the variant.\<close>

lemma run_match_arms:
  "run_match D I v (map (handler_arm t c) (handlers_of S args ms) @ [catch_all_arm t c]) =
     Some (case find (handles S args D v) ms of
             None \<Rightarrow> de_call D (ca_method c) (if t then ArgResult (Inr v) else ArgVariant v)
           | Some m \<Rightarrow>
               run_body D I v
                 (let call = \<lparr>gc_method = m_ident m, gc_arg = PassData, gc_await = ha_use_async args \<and> m_async m\<rparr>
                  in if t then TryInto call \<lparr>gc_method = ca_method c, gc_arg = PassErr, gc_await = ca_await c\<rparr>
                     else IntoCall call))"
proof (induction ms)
  case Nil
  show ?case by (simp add: catch_all_arm_def)
next
  case (Cons m ms)
  then show ?case
    by (cases "pattern_of S args m")
      (auto simp: handles_def handler_arm_def handler_new_def Let_def split: arm_pattern.split)
qed

lemma handlers_of_origin:
  "h \<in> set (handlers_of S args ms) \<Longrightarrow> \<exists>m \<in> set ms. hm_method h = m_ident m \<and> hm_await h = (ha_use_async args \<and> m_async m)"
  by (auto simp: handlers_of_def handler_new_def split: sum.split_asm arm_pattern.split_asm)

lemma expansion_compiles:
  assumes "ii_items iimpl = map ImplMethod ms" and "callable_block args ms" and "c \<in> set ms"
  shows "list_all (arm_compiles (remove_handle_attrs iimpl))
    (map (handler_arm t (catch_all_new c (ha_use_async args \<and> m_async c))) (handlers_of S args ms) @
     [catch_all_arm t (catch_all_new c (ha_use_async args \<and> m_async c))])"
proof -
  have call: "call_compiles (remove_handle_attrs iimpl) \<lparr>gc_method = m_ident m, gc_arg = a, gc_await = ha_use_async args \<and> m_async m\<rparr>"
    if "m \<in> set ms" for m a
    using find_method_expanded [OF assms(1) _ that] assms(2) that
    by (auto simp: call_compiles_def callable_block_def list_all_iff)
  have arm: "arm_compiles (remove_handle_attrs iimpl) (handler_arm t (catch_all_new c (ha_use_async args \<and> m_async c)) h)"
    if h: "h \<in> set (handlers_of S args ms)" for h
  proof -
    obtain m where m: "m \<in> set ms" "hm_method h = m_ident m" "hm_await h = (ha_use_async args \<and> m_async m)"
      using handlers_of_origin [OF h] by blast
    show ?thesis unfolding handler_arm_def catch_all_new_def Let_def m(2,3)
      using call [OF m(1)] call [OF assms(3)] by simp
  qed
  have "arm_compiles (remove_handle_attrs iimpl) (catch_all_arm t (catch_all_new c (ha_use_async args \<and> m_async c)))"
    unfolding catch_all_arm_def catch_all_new_def using call [OF assms(3)] by simp
  with arm show ?thesis by (simp add: list_all_iff)
qed

text \<open>On a block that macro and compiler accept, the expansion is the dispatch that the macro promises.\<close>

lemma expansion_dispatches:
  assumes "well_formed_block S args iimpl ms" and "callable_block args ms"
  shows "\<exists>c \<in> set ms. catches_all S args c \<and>
    run_handle D (handler_expand (item_for S args iimpl ms)) v = Some (dispatch S args D ms c v)"
proof -
  obtain c where c: "filter (catches_all S args) ms = [c]"
    using assms(1) by (auto simp: well_formed_block_def length_Suc_conv)
  then have mem: "c \<in> set ms" and catch: "catches_all S args c" by (auto simp: filter_eq_Cons_iff)
  have items: "ii_items iimpl = map ImplMethod ms" using assms(1) by (simp add: well_formed_block_def)
  define I where "I = remove_handle_attrs iimpl"
  define ca where "ca = catch_all_new c (ha_use_async args \<and> m_async c)"
  have arms: "run_handle D (handler_expand (item_for S args iimpl ms)) v =
      run_match D I v (map (handler_arm (ha_use_try args) ca) (handlers_of S args ms) @ [catch_all_arm (ha_use_try args) ca])"
  proof -
    have "hd (catch_alls_of S args ms) = ca" using c by (simp add: catch_alls_of_def ca_def)
    with expansion_compiles [OF items assms(2) mem, of "ha_use_try args" S, folded ca_def] show ?thesis
      by (simp add: run_handle_def handler_expand_def item_for_def async_handler_impl_def handler_impl_def item_arms_def I_def)
  qed
  have "run_match D I v (map (handler_arm (ha_use_try args) ca) (handlers_of S args ms) @ [catch_all_arm (ha_use_try args) ca]) =
      Some (dispatch S args D ms c v)"
  proof (cases "find (handles S args D v) ms")
    case None
    then show ?thesis unfolding run_match_arms by (simp add: dispatch_def ca_def catch_all_new_def)
  next
    case (Some m)
    then have m: "m \<in> set ms" by (auto simp: find_Some_iff)
    obtain ty where ty: "param_ty m = Some ty" using assms(2) m by (fastforce simp: callable_block_def list_all_iff)
    have "find_method I (m_ident m) = Some (without_handle_attrs m)"
      using find_method_expanded [OF items _ m] assms(2) by (simp add: I_def callable_block_def)
    with ty Some show ?thesis
      unfolding run_match_arms by (simp add: dispatch_def ca_def catch_all_new_def Let_def target_ty_def split: sum.split)
  qed
  with arms mem catch show ?thesis by auto
qed

section \<open>Lifetimes\<close>

text \<open>All lifetimes that are written in a type.\<close>

fun lifetimes :: "rtype \<Rightarrow> string list"
  and segment_lifetimes :: "path_segment \<Rightarrow> string list"
  and arguments_lifetimes :: "path_arguments \<Rightarrow> string list"
  and generic_lifetimes :: "generic_argument \<Rightarrow> string list" where
  "lifetimes (TArray elem) = lifetimes elem"
| "lifetimes (TParen elem) = lifetimes elem"
| "lifetimes (TPtr elem) = lifetimes elem"
| "lifetimes (TReference lifetime elem) = option_list lifetime @ lifetimes elem"
| "lifetimes (TPath segments) = concat (map segment_lifetimes segments)"
| "lifetimes (TTuple elems) = concat (map lifetimes elems)"
| "lifetimes (TVerbatim tokens) = []"
| "lifetimes (TOther kind) = []"
| "segment_lifetimes (Segment ident arguments) = arguments_lifetimes arguments"
| "arguments_lifetimes NoArguments = []"
| "arguments_lifetimes (AngleBracketed args) = concat (map generic_lifetimes args)"
| "arguments_lifetimes (Parenthesized inputs output) =
     concat (map lifetimes inputs) @ (case output of None \<Rightarrow> [] | Some ty \<Rightarrow> lifetimes ty)"
| "generic_lifetimes (LifetimeArgument lf) = [lf]"
| "generic_lifetimes (TypeArgument ty) = lifetimes ty"
| "generic_lifetimes (OtherArgument kind) = []"

definition only_static :: "string list \<Rightarrow> bool" where
  "only_static lfs = list_all (\<lambda>lf. lf = ''static'') lfs"

lemma only_static_simps [simp]:
  "only_static []" "only_static (x # xs) \<longleftrightarrow> x = ''static'' \<and> only_static xs"
  "only_static (xs @ ys) \<longleftrightarrow> only_static xs \<and> only_static ys"
  by (simp_all add: only_static_def)

lemma fold_static_ok:
  assumes "\<And>x b. x \<in> set xs \<Longrightarrow> f x = Inr b \<Longrightarrow> b = only_static (g x)"
  shows "fold_static (map f xs) = Inr b \<Longrightarrow> b = only_static (concat (map g xs))"
  using assms
proof (induction xs arbitrary: b rule: rev_induct)
  case Nil
  then show ?case by (simp add: fold_static_def)
next
  case (snoc x xs)
  from snoc.prems(1) obtain b1 b2 where "fold_static (map f xs) = Inr b1" "f x = Inr b2" "b = (b1 \<and> b2)"
    by (auto simp: fold_static_def rbind_def rmap_def split: sum.split_asm)
  with snoc.IH [of b1] snoc.prems(2) [of x b2] snoc.prems(2) show ?case by auto
qed

lemma is_static_lifetimes:
  "is_static t = Inr b \<Longrightarrow> b = only_static (lifetimes t)"
  "segment_static sg = Inr b \<Longrightarrow> b = only_static (segment_lifetimes sg)"
  "arguments_static a = Inr b \<Longrightarrow> b = only_static (arguments_lifetimes a)"
  "generic_static g = Inr b \<Longrightarrow> b = only_static (generic_lifetimes g)"
proof (induction t and sg and a and g arbitrary: b and b and b and b
    rule: is_static_segment_static_arguments_static_generic_static.induct)
  case (4 lifetime elem)
  then show ?case by (cases lifetime) (auto split: if_split_asm)
next
  case (5 segments)
  then show ?case using fold_static_ok [of segments segment_static segment_lifetimes b] by simp
next
  case (11 args)
  then show ?case using fold_static_ok [of args generic_static generic_lifetimes b] by simp
next
  case (12 inputs out)
  from 12(3) obtain i where i: "fold_static (map is_static inputs) = Inr i"
    by (auto simp: rbind_def split: sum.split_asm)
  have "i = only_static (concat (map lifetimes inputs))" using fold_static_ok [OF 12(1) i] by simp
  with 12(2) [OF i] 12(3) i show ?case
    by (cases out) (auto simp: rbind_def split: sum.split_asm)
qed (auto simp: variant_type_error_def)

section \<open>Asynchronous handlers\<close>

text \<open>
  \<open>HandlerFilter\<close> keeps the handler, a variant that has not been taken up, and the future of the call in
  progress. The future reaches the handler by a pointer, so a poll \<open>pl\<close> acts on both; \<open>mk\<close> is
  \<open>handle_fn\<close>. \<open>None\<close> is a panic.
\<close>

record ('h, 'v, 'f) handler_filter =
  hf_handler :: 'h
  hf_variant :: "'v option"
  hf_state :: "'f option"

definition handler_filter_new :: "'h \<Rightarrow> ('h, 'v, 'f) handler_filter" where
  "handler_filter_new handler = \<lparr>hf_handler = handler, hf_variant = None, hf_state = None\<rparr>"

definition handler_filter_poll ::
    "('v \<Rightarrow> 'f) \<Rightarrow> ('f \<times> 'h, 'o) poll_fn \<Rightarrow> ('h, 'v, 'f) handler_filter \<Rightarrow> ('o poll \<times> ('h, 'v, 'f) handler_filter) option" where
  "handler_filter_poll mk pl this =
     (let this = (case hf_state this of
                    Some ft \<Rightarrow> this
                  | None \<Rightarrow> this\<lparr>hf_variant := None, hf_state := map_option mk (hf_variant this)\<rparr>)
      in case hf_state this of
           None \<Rightarrow> None
         | Some ft \<Rightarrow> (case pl (ft, hf_handler this) of
                       (p, ft', handler') \<Rightarrow> Some (p, this\<lparr>hf_state := Some ft', hf_handler := handler'\<rparr>)))"

definition handler_filter_input :: "'v \<Rightarrow> ('h, 'v, 'f) handler_filter \<Rightarrow> ('h, 'v, 'f) handler_filter" where
  "handler_filter_input variant this = this\<lparr>hf_state := None, hf_variant := Some variant\<rparr>"

text \<open>
  \<open>AsyncHandler::handle\<close>, of which the caller polls the future at most \<open>k\<close> times before it drops it; the
  result is \<open>None\<close> if it was not ready by then.
\<close>

fun filter_drive ::
    "('v \<Rightarrow> 'f) \<Rightarrow> ('f \<times> 'h, 'o) poll_fn \<Rightarrow> nat \<Rightarrow> ('h, 'v, 'f) handler_filter \<Rightarrow> ('o option \<times> ('h, 'v, 'f) handler_filter) option" where
  "filter_drive mk pl 0 this = Some (None, this)"
| "filter_drive mk pl (Suc k) this =
     (case handler_filter_poll mk pl this of
        None \<Rightarrow> None
      | Some (Ready x, this') \<Rightarrow> Some (Some x, this')
      | Some (Pending, this') \<Rightarrow> filter_drive mk pl k this')"

definition async_handle ::
    "('v \<Rightarrow> 'f) \<Rightarrow> ('f \<times> 'h, 'o) poll_fn \<Rightarrow> nat \<Rightarrow> 'v \<Rightarrow> ('h, 'v, 'f) handler_filter \<Rightarrow> ('o option \<times> ('h, 'v, 'f) handler_filter) option" where
  "async_handle mk pl k variant this = filter_drive mk pl k (handler_filter_input variant this)"

fun async_calls ::
    "('v \<Rightarrow> 'f) \<Rightarrow> ('f \<times> 'h, 'o) poll_fn \<Rightarrow> ('v \<times> nat) list \<Rightarrow> ('h, 'v, 'f) handler_filter \<Rightarrow>
     ('o option list \<times> ('h, 'v, 'f) handler_filter) option" where
  "async_calls mk pl [] this = Some ([], this)"
| "async_calls mk pl ((variant, k) # calls) this =
     (case async_handle mk pl k variant this of
        None \<Rightarrow> None
      | Some (r, this') \<Rightarrow> map_option (\<lambda>(rs, this''). (r # rs, this'')) (async_calls mk pl calls this'))"

text \<open>The same calls of the generated method itself, each a new future on the handler as the last one left it.\<close>

fun drive :: "('f \<times> 'h, 'o) poll_fn \<Rightarrow> nat \<Rightarrow> 'f \<times> 'h \<Rightarrow> 'o option \<times> 'f \<times> 'h" where
  "drive pl 0 s = (None, s)"
| "drive pl (Suc k) s = (case pl s of (Ready x, s') \<Rightarrow> (Some x, s') | (Pending, s') \<Rightarrow> drive pl k s')"

fun direct_calls :: "('v \<Rightarrow> 'f) \<Rightarrow> ('f \<times> 'h, 'o) poll_fn \<Rightarrow> ('v \<times> nat) list \<Rightarrow> 'h \<Rightarrow> 'o option list \<times> 'h" where
  "direct_calls mk pl [] h = ([], h)"
| "direct_calls mk pl ((variant, k) # calls) h =
     (case drive pl k (mk variant, h) of
        (r, ft, h') \<Rightarrow> (case direct_calls mk pl calls h' of (rs, h'') \<Rightarrow> (r # rs, h'')))"

lemma filter_drive_state:
  "hf_state this = Some ft \<Longrightarrow> drive pl k (ft, hf_handler this) = (r, ft', h') \<Longrightarrow>
     \<exists>this'. filter_drive mk pl k this = Some (r, this') \<and> hf_handler this' = h'"
proof (induction k arbitrary: this ft)
  case (Suc k)
  obtain p f' h1 where pl: "pl (ft, hf_handler this) = (p, f', h1)" by (metis prod_cases3)
  show ?case
  proof (cases p)
    case Pending
    with Suc.prems pl Suc.IH [of "this\<lparr>hf_state := Some f', hf_handler := h1\<rparr>" f'] show ?thesis
      by (auto simp: handler_filter_poll_def Let_def)
  next
    case (Ready x)
    with Suc.prems pl show ?thesis by (auto simp: handler_filter_poll_def Let_def)
  qed
qed simp

lemma async_handle_fresh:
  assumes "drive pl k (mk variant, hf_handler this) = (r, ft', h')"
  shows "\<exists>this'. async_handle mk pl k variant this = Some (r, this') \<and> hf_handler this' = h'"
proof (cases k)
  case 0
  with assms show ?thesis by (simp add: async_handle_def handler_filter_input_def)
next
  case (Suc n)
  define started where "started = this\<lparr>hf_variant := None, hf_state := Some (mk variant)\<rparr>"
  have "handler_filter_poll mk pl (handler_filter_input variant this) = handler_filter_poll mk pl started"
    by (simp add: handler_filter_poll_def handler_filter_input_def started_def Let_def)
  then have "async_handle mk pl k variant this = filter_drive mk pl k started"
    by (simp add: async_handle_def Suc)
  with filter_drive_state [of started "mk variant" pl k r ft' h' mk] assms show ?thesis by (simp add: started_def)
qed

lemma async_calls_direct:
  "map_option (\<lambda>(rs, this'). (rs, hf_handler this')) (async_calls mk pl calls this) = Some (direct_calls mk pl calls (hf_handler this))"
proof (induction calls arbitrary: this)
  case (Cons call calls)
  obtain variant k where call: "call = (variant, k)" by fastforce
  obtain r ft h where d: "drive pl k (mk variant, hf_handler this) = (r, ft, h)" by (metis prod_cases3)
  obtain this' where t: "async_handle mk pl k variant this = Some (r, this')" "hf_handler this' = h"
    using async_handle_fresh [of pl k mk variant this, OF d] by blast
  from Cons.IH [of this'] t d show ?case
    by (cases "async_calls mk pl calls this'") (auto simp: call split: prod.splits)
qed simp

section \<open>The macros unvariant! and id\<close>

text \<open>
  An arm of \<open>unvariant!\<close> binds a name; \<open>'b\<close> is its body, an expression that \<open>syn\<close> has parsed. Its parsers of
  expressions and of sequences with terminators are parameters.
\<close>

record 'b uarm =
  ua_ident :: string
  ua_pat :: arm_pattern
  ua_body :: 'b

definition expect_token :: "rtoken \<Rightarrow> rtoken list \<Rightarrow> unvariant_error + rtoken list" where
  "expect_token t input = (if peek t input then Inr (tl input) else Inl (SynError ''unexpected token''))"

definition uarm_parse ::
    "syn_lib \<Rightarrow> (rtoken list \<Rightarrow> string + 'b \<times> rtoken list) \<Rightarrow> rtoken list \<Rightarrow> unvariant_error + 'b uarm \<times> rtoken list" where
  "uarm_parse S parse_expr input =
     rbind (parse_ident input) (\<lambda>(ident, input).
     rbind (expect_token (Punct '':'') input) (\<lambda>input.
     rbind (if peek (Punct ''_'') input then Inr (PatCatchAll, tl input)
            else rmap (\<lambda>(ty, rest). (PatType ty, rest)) (parse_type_or S input)) (\<lambda>(pat, input).
     rbind (expect_token (Punct ''=>'') input) (\<lambda>input.
     rbind (map_err SynError (parse_expr input)) (\<lambda>(body, input).
     Inr (\<lparr>ua_ident = ident, ua_pat = pat, ua_body = body\<rparr>, input))))))"

record 'b uitem =
  ui_variant :: string
  ui_use_try :: bool
  ui_arms :: "'b uarm list"

definition uitem_parse ::
    "(rtoken list \<Rightarrow> unvariant_error + 'b uarm list) \<Rightarrow> rtoken list \<Rightarrow> unvariant_error + 'b uitem" where
  "uitem_parse parse_arms input =
     (let use_try = peek (Keyword ''try'') input;
          input = (if use_try then tl input else input)
      in rbind (parse_ident input) (\<lambda>(variant, content).
         rmap (\<lambda>arms. \<lparr>ui_variant = variant, ui_use_try = use_try, ui_arms = arms\<rparr>) (parse_arms content)))"

text \<open>The generated arms: a conversion into the type of the pattern, or the id itself under a pattern that matches all.\<close>

datatype 'b gen_uarm = ConvertArm rtype bool string 'b | BindIdArm string 'b

definition uarm_tokens :: "'b uitem \<Rightarrow> 'b uarm \<Rightarrow> 'b gen_uarm" where
  "uarm_tokens item a =
     (case ua_pat a of
        PatType ty \<Rightarrow> ConvertArm ty (ui_use_try item) (ua_ident a) (ua_body a)
      | PatCatchAll \<Rightarrow> BindIdArm (ua_ident a) (ua_body a))"

definition unvariant_expand :: "'b uitem \<Rightarrow> 'b gen_uarm list" where
  "unvariant_expand item = map (uarm_tokens item) (ui_arms item)"

text \<open>\<open>run\<close> evaluates a body with its name bound to a value.\<close>

datatype ('id, 'd, 'e) bound = BoundData 'd | BoundResult "'e + 'd" | BoundId 'id

fun run_unvariant ::
    "('id, 'v, 'd, 'e, 'o) dispatch_env \<Rightarrow> (string \<Rightarrow> ('id, 'd, 'e) bound \<Rightarrow> 'b \<Rightarrow> 'o) \<Rightarrow> 'v \<Rightarrow> 'b gen_uarm list \<Rightarrow> 'o option" where
  "run_unvariant D run variant [] = None"
| "run_unvariant D run variant (ConvertArm ty use_try ident body # arms) =
     (if de_id D ty = de_get_id D variant
      then Some (run ident (if use_try then BoundResult (de_try_into D ty variant) else BoundData (de_into D ty variant)) body)
      else run_unvariant D run variant arms)"
| "run_unvariant D run variant (BindIdArm ident body # arms) = Some (run ident (BoundId (de_get_id D variant)) body)"

text \<open>
  The type of an id is that of its literal; an integer without a suffix is a \<open>u32\<close>, as the ids of messages are.
\<close>

datatype id_lit = LitInt string | LitStr | LitByteStr | LitByte | LitChar | LitFloat string | LitBool | LitVerbatim

datatype 'x id_expr = ExprLit id_lit 'x | ExprOther 'x

definition suffix_to_type :: "syn_lib \<Rightarrow> string \<Rightarrow> string \<Rightarrow> rtype option" where
  "suffix_to_type S default_ty suffix =
     (if suffix = [] then Some (TVerbatim default_ty)
      else case parse_type S [Identifier suffix] of Inr (ty, []) \<Rightarrow> Some ty | _ \<Rightarrow> None)"

definition infer_type :: "syn_lib \<Rightarrow> 'x id_expr \<Rightarrow> rtype option" where
  "infer_type S e =
     (case e of
        ExprLit (LitInt suffix) _ \<Rightarrow> suffix_to_type S ''u32'' suffix
      | ExprLit LitStr _ \<Rightarrow> Some (TVerbatim ''&'static str'')
      | ExprLit LitByteStr _ \<Rightarrow> Some (TVerbatim ''&'static [u8]'')
      | ExprLit LitByte _ \<Rightarrow> Some (TVerbatim ''u8'')
      | ExprLit LitChar _ \<Rightarrow> Some (TVerbatim ''char'')
      | ExprLit (LitFloat suffix) _ \<Rightarrow> suffix_to_type S ''f32'' suffix
      | ExprLit LitBool _ \<Rightarrow> Some (TVerbatim ''bool'')
      | ExprLit LitVerbatim _ \<Rightarrow> None
      | ExprOther _ \<Rightarrow> None)"

definition id_args_parse ::
    "syn_lib \<Rightarrow> (rtoken list \<Rightarrow> string + 'x id_expr \<times> rtoken list) \<Rightarrow> rtoken list \<Rightarrow> unvariant_error + ('x id_expr \<times> rtype) \<times> rtoken list" where
  "id_args_parse S parse_expr input =
     rbind (map_err SynError (parse_expr input)) (\<lambda>(e, input).
       if input = [] then rmap (\<lambda>ty. ((e, ty), [])) (ok_or (infer_type S e) UnknownIdType)
       else rbind (expect_token (Keyword ''type'') input) (\<lambda>input.
            rmap (\<lambda>(ty, rest). ((e, ty), rest)) (parse_type_or S input)))"

text \<open>An arm behind one that catches all is never taken.\<close>

lemma unvariant_dead_arms:
  "run_unvariant D run v (arms @ BindIdArm x b # rest) = run_unvariant D run v (arms @ [BindIdArm x b])"
proof (induction arms)
  case (Cons a arms)
  then show ?case by (cases a) simp_all
qed simp

text \<open>
  The type of the variant may be written as a reference without a lifetime, which counts as static; a tuple is refused,
  though the message of the error lists tuples among what is supported.
\<close>

lemma tuple_variant_refused: "is_static (TTuple elems) = Inl VariantTypeError"
  by (simp add: variant_type_error_def)

text \<open>Two ways to write that a method returns nothing are taken for two types.\<close>

lemma unit_written_twice: "m_output m = None \<Longrightarrow> m_output n = Some (TTuple []) \<Longrightarrow> ty_ret m \<noteq> ty_ret n"
  by (simp add: ty_ret_def)

section \<open>Properties\<close>

text \<open>
  C23. What \<open>#[handler]\<close> generates is the dispatch it promises. For every input that the macro accepts, in the synchronous,
  asynchronous and \<open>try\<close> forms, if the compiler accepts the methods too, the expansion compiles, and on every variant
  exactly one method runs: the first one whose type has the id of the variant, with the converted
  variant; the catch-all method, wherever it stands in the block, with the variant if there is none, and
  with the error if the conversion fails.
\<close>

theorem handler_dispatch:
  assumes "item_parse S input = Inr item" and "methods = methods_of (ii_items (hi_iimpl item))"
    and "callable_block (hi_args item) methods"
  shows "\<exists>c \<in> set methods. catches_all S (hi_args item) c \<and>
    run_handle D (handler_expand item) variant = Some (dispatch S (hi_args item) D methods c variant)"
proof -
  from assms(1) obtain args iimpl where "item_of S args iimpl = Inr item"
    by (auto simp: item_parse_def rbind_def map_err_def split: sum.split_asm prod.split_asm)
  then obtain ms where ms: "well_formed_block S args iimpl ms" "item = item_for S args iimpl ms"
    using item_of_ok by blast
  have "methods_of (map ImplMethod xs) = xs" for xs by (induction xs) simp_all
  with ms assms(2) have "methods = ms" "hi_args item = args" by (simp_all add: well_formed_block_def item_for_def)
  with expansion_dispatches [OF ms(1), of D variant] assms(3) ms(2) show ?thesis by simp
qed

text \<open>
  C39. Which blocks the macro accepts: exactly those without a \<open>where\<close> clause, and without generics if asynchronous, that have
  nothing but methods, all with the same return type and each with a type to handle, given
  by an annotation or by its argument, but for exactly one catch-all method. What it accepts it remembers
  in the order of the block.
\<close>

theorem handler_accepts:
  "item_of S args iimpl = Inr item \<longleftrightarrow> (\<exists>ms. well_formed_block S args iimpl ms \<and> item = item_for S args iimpl ms)"
  by (rule item_of_ok)

text \<open>
  An asynchronous handler never mixes up its calls. Whatever the calls, and after however many polls the
  caller drops each of them, finished or not, the handler made by \<open>into_handler\<close> gives the results that as many calls of the
  generated method give, leaves the handler in the same state, and never panics.
\<close>

theorem async_handler_calls:
  "map_option (\<lambda>(rs, this'). (rs, hf_handler this')) (async_calls mk pl calls (handler_filter_new h)) =
     Some (direct_calls mk pl calls h)"
  using async_calls_direct [of mk pl calls "handler_filter_new h"] by (simp add: handler_filter_new_def)

section \<open>An example\<close>

text \<open>A block with two methods and a catch-all method between them, where a type is one identifier.\<close>

definition sample_method :: "attribute list \<Rightarrow> string \<Rightarrow> string \<Rightarrow> impl_method" where
  "sample_method attrs name ty =
     \<lparr>m_attrs = attrs, m_ident = name, m_async = False, m_generics = [],
      m_inputs = [Receiver, Typed (TPath [Segment ty NoArguments])], m_output = None\<rparr>"

definition sample_methods :: "impl_method list" where
  "sample_methods =
     [sample_method [] ''handle_foo'' ''Foo'',
      sample_method [\<lparr>at_path = [''handle''], at_args = Some [Punct ''_'']\<rparr>] ''handle_unknown'' ''Frame'',
      sample_method [\<lparr>at_path = [''handle''], at_args = Some [Identifier ''Bar'']\<rparr>] ''handle_bar'' ''Bar'']"

definition sample_impl :: item_impl where
  "sample_impl =
     \<lparr>ii_generics = [], ii_where_clause = None, ii_self_ty = TPath [Segment ''MyHandler'' NoArguments],
      ii_items = map ImplMethod sample_methods\<rparr>"

definition sample_syn :: syn_lib where
  "sample_syn =
     \<lparr>parse_type = (\<lambda>ts. case ts of Identifier s # rest \<Rightarrow> Inr (TPath [Segment s NoArguments], rest) | _ \<Rightarrow> Inl ''expected type''),
      parse_impl = (\<lambda>_. Inr sample_impl)\<rparr>"

definition sample_env :: "(string, string, string, string, string \<times> (string, string, string) argument) dispatch_env" where
  "sample_env =
     \<lparr>de_id = (\<lambda>ty. case ty of TPath [Segment s _] \<Rightarrow> s | _ \<Rightarrow> []), de_get_id = take 3,
      de_try_into = (\<lambda>ty v. if length v = 3 then Inl ''empty'' else Inr (drop 3 v)), de_into = (\<lambda>ty v. drop 3 v),
      de_call = Pair\<rparr>"

definition sample_args :: handler_args where
  "sample_args =
     \<lparr>ha_ty = TPath [Segment ''Frame'' NoArguments], ha_ty_static = True, ha_use_async = False, ha_use_try = True,
      ha_handler_suffix = None, ha_handler_trait = None\<rparr>"

lemma sample_parsed:
  "\<exists>item. item_parse sample_syn [Keyword ''try'', Identifier ''Frame'', Punct ''@''] = Inr item \<and>
     hi_args item = sample_args \<and> hi_iimpl item = sample_impl"
proof -
  have "well_formed_block sample_syn sample_args sample_impl sample_methods" by code_simp
  then have "item_of sample_syn sample_args sample_impl = Inr (item_for sample_syn sample_args sample_impl sample_methods)"
    using item_of_ok by blast
  moreover have "item_parse sample_syn [Keyword ''try'', Identifier ''Frame'', Punct ''@''] = item_of sample_syn sample_args sample_impl"
    by (simp add: item_parse_def args_parse_def sample_syn_def peek_def parse_type_or_def parse_suffix_def parse_trait_def
        fold_static_def sample_args_def)
  ultimately show ?thesis by (simp add: item_for_def)
qed

theorem handler_dispatch_witness:
  "\<exists>item. item_parse sample_syn [Keyword ''try'', Identifier ''Frame'', Punct ''@''] = Inr item \<and>
     run_handle sample_env (handler_expand item) ''Barx'' = Some (''handle_bar'', ArgData ''x'') \<and>
     run_handle sample_env (handler_expand item) ''Foo'' = Some (''handle_unknown'', ArgResult (Inl ''empty'')) \<and>
     run_handle sample_env (handler_expand item) ''Baz'' = Some (''handle_unknown'', ArgResult (Inr ''Baz''))"
proof -
  obtain item where item: "item_parse sample_syn [Keyword ''try'', Identifier ''Frame'', Punct ''@''] = Inr item"
      "hi_args item = sample_args" "hi_iimpl item = sample_impl" using sample_parsed by blast
  have ms: "sample_methods = methods_of (ii_items (hi_iimpl item))" unfolding item(3) by code_simp
  have ok: "callable_block (hi_args item) sample_methods" unfolding item(2) by code_simp
  have one: "c = sample_method [\<lparr>at_path = [''handle''], at_args = Some [Punct ''_'']\<rparr>] ''handle_unknown'' ''Frame''"
    if "c \<in> set sample_methods" "catches_all sample_syn sample_args c" for c
    using that by (auto simp: sample_methods_def sample_method_def catches_all_def pattern_of_def pat_in_def sample_syn_def attr_type_def
        is_handle_attr_def HANDLE_ATTR_def parse_type_or_def)
  have run: "run_handle sample_env (handler_expand item) v = Some (dispatch sample_syn sample_args sample_env sample_methods
      (sample_method [\<lparr>at_path = [''handle''], at_args = Some [Punct ''_'']\<rparr>] ''handle_unknown'' ''Frame'') v)" for v
    using handler_dispatch [OF item(1) ms ok, of sample_env v] one unfolding item(2) by fastforce
  have "run_handle sample_env (handler_expand item) ''Barx'' = Some (''handle_bar'', ArgData ''x'')" unfolding run by code_simp
  moreover have "run_handle sample_env (handler_expand item) ''Foo'' = Some (''handle_unknown'', ArgResult (Inl ''empty''))"
    unfolding run by code_simp
  moreover have "run_handle sample_env (handler_expand item) ''Baz'' = Some (''handle_unknown'', ArgResult (Inr ''Baz''))"
    unfolding run by code_simp
  ultimately show ?thesis using item(1) by blast
qed

end
