(* ===== verification/Translation.thy ===== *)
theory Translation
  imports V1_Messages V2_Messages Bitcoin_Target
begin

text \<open>
  \<open>stratum-proxy/src/translation.rs\<close>: the state machine that presents a Stratum V1 pool as a
  Stratum V2 server with one standard mining channel, together with \<open>stratum-proxy/src/util.rs\<close>,
  \<open>error.rs\<close> and the frame handling of \<open>server.rs\<close> that feeds it.

  \<open>translation\<close> is the struct \<open>V2ToV1Translation\<close>. A method is a value of type \<open>'a proc\<close>: from a state
  to an outcome and the state left behind. The outcome is the \<open>Result\<close> of the method, or a panic;
  \<open>tbind\<close> is the \<open>?\<close> operator and \<open>on_err\<close> runs code on an error, never on a panic. The function
  pointers in the request map are the tags \<open>result_handler\<close> and \<open>error_handler\<close>.

  Outside the source: the \<open>mpsc\<close> senders. A \<open>sender\<close> keeps the frames it has accepted and the outcomes
  the environment has in store for the next calls of \<open>try_send\<close> (none in store: the frame is
  accepted). \<open>Instant::now()\<close> reads the field \<open>clock\<close>, which the environment advances. The texts that
  \<open>Debug\<close> and foreign \<open>Display\<close> implementations produce are fields of the parameter \<open>tr_env\<close>, next to
  the libraries of Stratum V1. A hash map is an association list. The metrics are the list of the
  calls made; logging is left out.
\<close>

section \<open>Outcomes\<close>

datatype send_error = ChannelFull | ChannelDisconnected

datatype v2_protocol_error =
    PeSetupConnection bytes
  | PeOpenMiningChannel bytes
  | PeOther bytes

text \<open>
  The errors of \<open>error.rs\<close> that the translation produces: of \<open>DownstreamError\<close> and
  \<open>UpstreamError\<close> that is \<open>SendError\<close>; \<open>PxIo\<close> is the conversion of a \<open>TrySendError\<close>,
  \<open>PxBitcoinHashes\<close> an invalid length.
\<close>

datatype px_error =
    PxGeneral bytes
  | PxStratum stratum_error
  | PxBitcoinHashes nat
  | PxJson string
  | PxDownstream bytes
  | PxUpstream bytes
  | PxProtocol v2_protocol_error
  | PxIo send_error

datatype 'a outcome = Done 'a | Fail px_error | Panicked string

record 'f sender =
  sent :: "'f list"
  refusals :: "send_error option list"

definition try_send :: "'f \<Rightarrow> 'f sender \<Rightarrow> (send_error + unit) \<times> 'f sender" where
  "try_send f tx =
     (case refusals tx of
        Some e # rs \<Rightarrow> (Inl e, tx\<lparr>refusals := rs\<rparr>)
      | _ \<Rightarrow> (Inr (), tx\<lparr>sent := sent tx @ [f], refusals := tl (refusals tx)\<rparr>))"

section \<open>State\<close>

datatype tr_state =
    Init | V1Configure | ConnectionSetup | OpenStandardMiningChannelPending
  | V1SubscribeOrAuthorizeFail | Operational

datatype result_handler =
    HandleConfigureResult | HandleExtranonceSubscribeResult | HandleSubscribeResult
  | HandleAuthorizeResult | HandleSubmitResult

datatype error_handler =
    HandleConfigureError | HandleExtranonceSubscribeError | HandleAuthorizeOrSubscribeError
  | HandleSubmitError

record compound_handler =
  v1_stratum_result_handler :: result_handler
  v1_stratum_error_handler :: error_handler
  handler_method :: v1_method
  timestamp_created :: nat

record submit_template =
  tmpl_job_id :: bytes
  tmpl_time :: u32
  tmpl_version :: u32

datatype seq_num = SeqV1 "u32 option" | SeqV2 u32

datatype submit_share = V1ToV2Mapping u32 u32 | QueuedError SubmitSharesError

record tr_options =
  try_enable_xnsub :: bool
  propagate_reconnect_downstream :: bool
  opt_password :: bytes

datatype metric =
    AccountAcceptedShare "u256 option"
  | AccountRejectedShare "u256 option"
  | ObserveV1RequestSuccess v1_method nat
  | ObserveV1RequestError v1_method nat

record translation =
  state :: tr_state
  v1_tx :: "v1_rpc sender"
  v1_req_id :: u32
  v1_req_map :: "(u32 \<times> compound_handler) list"
  v1_extra_nonce1 :: "bytes option"
  v1_extra_nonce2_size :: nat
  v1_authorized :: bool
  v1_xnsub_enabled :: bool
  v1_force_future_jobs :: bool
  v1_deferred_notify :: "notify option"
  v2_tx :: "v2_message frame sender"
  v2_req_id :: u32
  v2_conn_details :: "SetupConnection option"
  v2_channel_details :: "OpenStandardMiningChannel option"
  v2_target :: "u256 option"
  v2_job_id :: u32
  v2_to_v1_job_map :: "(u32 \<times> submit_template) list"
  v2_submit_share_queue :: "submit_share list"
  options :: tr_options
  v1_password :: bytes
  metrics :: "metric list option"
  last_submit :: "nat option"
  clock :: nat

type_synonym 'a proc = "translation \<Rightarrow> 'a outcome \<times> translation"

definition MAX_V1_PASSWORD_SIZE :: nat where "MAX_V1_PASSWORD_SIZE = 128"

text \<open>\<open>ArrayString::push_str\<close> panics when the text does not fit (\<open>None\<close>).\<close>

definition options_new :: "bool \<Rightarrow> bool \<Rightarrow> bytes \<Rightarrow> tr_options option" where
  "options_new xnsub propagate password =
     (if MAX_V1_PASSWORD_SIZE < length password then None
      else Some \<lparr>try_enable_xnsub = xnsub, propagate_reconnect_downstream = propagate,
                 opt_password = password\<rparr>)"

definition options_default :: tr_options where
  "options_default =
     \<lparr>try_enable_xnsub = False, propagate_reconnect_downstream = False, opt_password = []\<rparr>"

definition PROTOCOL_VERSION :: nat where "PROTOCOL_VERSION = 0"
definition CHANNEL_ID :: u32 where "CHANNEL_ID = 0"
definition DEFAULT_GROUP_CHANNEL_ID :: u32 where "DEFAULT_GROUP_CHANNEL_ID = 0"
definition BIP320_N_VERSION_MASK :: u32 where "BIP320_N_VERSION_MASK = 0x1fffe000"
definition BIP320_N_VERSION_MAX_BITS :: nat where "BIP320_N_VERSION_MAX_BITS = 16"

text \<open>The words of a \<open>U256\<close> are stored least significant first.\<close>

definition u256_of_words :: "u64 list \<Rightarrow> u256" where
  "u256_of_words ws = of_nat (foldr (\<lambda>w n. unat w + 2 ^ 64 * n) ws 0)"

definition DIFF1_TARGET :: u256 where
  "DIFF1_TARGET = u256_of_words [0, 0, 0, 0xffff0000]"

definition target_to_diff :: "u256 \<Rightarrow> u256" where
  "target_to_diff target = (if target = 0 then - 1 else DIFF1_TARGET div target)"

definition diff_to_target :: "u256 \<Rightarrow> u256" where
  "diff_to_target diff = (if diff = 0 then - 1 else DIFF1_TARGET div diff)"

definition translation_new ::
  "v1_rpc sender \<Rightarrow> v2_message frame sender \<Rightarrow> tr_options \<Rightarrow> metric list option \<Rightarrow> translation" where
  "translation_new tx1 tx2 opts ms =
     \<lparr>state = Init, v1_tx = tx1, v1_req_id = 0, v1_req_map = [], v1_extra_nonce1 = None,
      v1_extra_nonce2_size = 0, v1_authorized = False, v1_xnsub_enabled = False,
      v1_force_future_jobs = True, v1_deferred_notify = None, v2_tx = tx2, v2_req_id = 0,
      v2_conn_details = None, v2_channel_details = None, v2_target = None, v2_job_id = 0,
      v2_to_v1_job_map = [], v2_submit_share_queue = [], options = opts,
      v1_password = opt_password opts, metrics = ms, last_submit = None, clock = 0\<rparr>"

record tr_env =
  libs :: v1_libs
  fmt_result :: "json_value \<Rightarrow> bytes"
  fmt_error :: "v1_stratum_error \<Rightarrow> bytes"
  fmt_send_error :: "send_error \<Rightarrow> bytes"
  fmt_stratum :: "stratum_error \<Rightarrow> bytes"
  fmt_other :: "px_error \<Rightarrow> bytes"
  fmt_debug :: "px_error \<Rightarrow> bytes"
  fmt_notify :: "px_error \<Rightarrow> u32 option \<Rightarrow> tr_state \<Rightarrow> notify \<Rightarrow> bytes"
  fmt_reconnect :: "json_value list \<Rightarrow> bytes"

section \<open>Running methods\<close>

definition treturn :: "'a \<Rightarrow> 'a proc" where
  "treturn x s = (Done x, s)"

definition fail :: "px_error \<Rightarrow> 'a proc" where
  "fail e s = (Fail e, s)"

definition panic :: "string \<Rightarrow> 'a proc" where
  "panic msg s = (Panicked msg, s)"

definition tbind :: "'a proc \<Rightarrow> ('a \<Rightarrow> 'b proc) \<Rightarrow> 'b proc" where
  "tbind m f s =
     (case m s of
        (Done x, s') \<Rightarrow> f x s'
      | (Fail e, s') \<Rightarrow> (Fail e, s')
      | (Panicked p, s') \<Rightarrow> (Panicked p, s'))"

definition tthen :: "unit proc \<Rightarrow> 'b proc \<Rightarrow> 'b proc" where
  "tthen m n = tbind m (\<lambda>_. n)"

definition on_err :: "'a proc \<Rightarrow> (px_error \<Rightarrow> 'a proc) \<Rightarrow> 'a proc" where
  "on_err m h s = (case m s of (Fail e, s') \<Rightarrow> h e s' | r \<Rightarrow> r)"

definition tget :: "(translation \<Rightarrow> 'a) \<Rightarrow> 'a proc" where
  "tget f s = (Done (f s), s)"

definition tmod :: "(translation \<Rightarrow> translation) \<Rightarrow> unit proc" where
  "tmod f s = (Done (), f s)"

definition tlift :: "px_error + 'a \<Rightarrow> 'a proc" where
  "tlift r = (case r of Inl e \<Rightarrow> fail e | Inr x \<Rightarrow> treturn x)"

text \<open>\<open>expect\<close> on an option, and \<open>try_into().expect(..)\<close> of a sized string.\<close>

definition expect :: "string \<Rightarrow> 'a option \<Rightarrow> 'a proc" where
  "expect msg x = (case x of None \<Rightarrow> panic msg | Some v \<Rightarrow> treturn v)"

definition expect_str :: "sized_type \<Rightarrow> bytes \<Rightarrow> bytes proc" where
  "expect_str n s = expect ''BUG: incorrect error message'' (sized_from n s)"

section \<open>Hash maps\<close>

definition hm_insert :: "'k \<Rightarrow> 'v \<Rightarrow> ('k \<times> 'v) list \<Rightarrow> ('k \<times> 'v) list" where
  "hm_insert k v m = (k, v) # filter (\<lambda>e. fst e \<noteq> k) m"

definition hm_remove :: "'k \<Rightarrow> ('k \<times> 'v) list \<Rightarrow> ('k \<times> 'v) list" where
  "hm_remove k m = filter (\<lambda>e. fst e \<noteq> k) m"

section \<open>Sending\<close>

definition display_error :: "tr_env \<Rightarrow> px_error \<Rightarrow> bytes" where
  "display_error E err =
     (case err of
        PxGeneral m \<Rightarrow> ascii ''General error: '' @ m
      | PxStratum e \<Rightarrow> ascii ''Stratum error: '' @ fmt_stratum E e
      | PxDownstream m \<Rightarrow> ascii ''Downstream error: Error on sending downstream: '' @ m
      | PxUpstream m \<Rightarrow> ascii ''Downstream error: Error on sending upstream: '' @ m
      | PxProtocol (PeSetupConnection m) \<Rightarrow>
          ascii ''Stratum V2 protocol state related error: V2 Setup Connection error: '' @ m
      | PxProtocol (PeOpenMiningChannel m) \<Rightarrow>
          ascii ''Stratum V2 protocol state related error: V2 Open Mining Channel error: '' @ m
      | PxProtocol (PeOther m) \<Rightarrow>
          ascii ''Stratum V2 protocol state related error: V2 Other non-specified Error: '' @ m
      | e \<Rightarrow> fmt_other E e)"

definition setup_connection_error :: "tr_env \<Rightarrow> px_error \<Rightarrow> px_error" where
  "setup_connection_error E e = PxProtocol (PeSetupConnection (display_error E e))"

definition open_mining_channel_error :: "tr_env \<Rightarrow> px_error \<Rightarrow> px_error" where
  "open_mining_channel_error E e = PxProtocol (PeOpenMiningChannel (display_error E e))"

text \<open>\<open>.map_err(f)?\<close>\<close>

definition tmap_err :: "(px_error \<Rightarrow> px_error) \<Rightarrow> 'a proc \<Rightarrow> 'a proc" where
  "tmap_err f m = on_err m (\<lambda>e. fail (f e))"

text \<open>\<open>SeqId::next_id\<close>: the value before it and the value after it.\<close>

definition next_id :: "u32 \<Rightarrow> u32 \<times> u32" where
  "next_id current = (current, current + 1)"

text \<open>\<open>util::submit_message\<close> on either sender; what it converts into a frame is done by the caller.\<close>

definition send_v1 :: "v1_rpc \<Rightarrow> (send_error + unit) proc" where
  "send_v1 rpc s = (let (r, tx) = try_send rpc (v1_tx s) in (Done r, s\<lparr>v1_tx := tx\<rparr>))"

definition send_v2 :: "v2_message frame \<Rightarrow> (send_error + unit) proc" where
  "send_v2 f s = (let (r, tx) = try_send f (v2_tx s) in (Done r, s\<lparr>v2_tx := tx\<rparr>))"

definition v1_method_into_message ::
  "tr_env \<Rightarrow> v1_request \<Rightarrow> result_handler \<Rightarrow> error_handler \<Rightarrow> (u32 \<times> v1_rpc) proc" where
  "v1_method_into_message E req rh eh =
     tbind (expect ''BUG: Cannot convert V1 method into a message'' (request_payload (libs E) req)) (\<lambda>(m, params).
     tbind (tget (\<lambda>s. fst (next_id (v1_req_id s)))) (\<lambda>i.
     tthen (tmod (\<lambda>s. s\<lparr>v1_req_id := snd (next_id (v1_req_id s))\<rparr>)) (
     tbind (tget (\<lambda>s. map_of (v1_req_map s) i)) (\<lambda>old.
     tthen (tmod (\<lambda>s. s\<lparr>v1_req_map := hm_insert i
         \<lparr>v1_stratum_result_handler = rh, v1_stratum_error_handler = eh, handler_method = m,
          timestamp_created = clock s\<rparr> (v1_req_map s)\<rparr>)) (
     case old of
       Some _ \<Rightarrow> panic ''V1 id already exists''
     | None \<Rightarrow> treturn (i, RpcRequest \<lparr>req_id = Some i, req_method = m, req_params = params\<rparr>))))))"

definition submit_v1_request_message ::
  "tr_env \<Rightarrow> v1_request \<Rightarrow> result_handler \<Rightarrow> error_handler \<Rightarrow> u32 proc" where
  "submit_v1_request_message E req rh eh =
     tbind (v1_method_into_message E req rh eh) (\<lambda>(i, rpc).
     tbind (send_v1 rpc) (\<lambda>r. case r of
       Inl e \<Rightarrow> fail (PxUpstream (fmt_send_error E e))
     | Inr u \<Rightarrow> treturn i))"

definition submit_v1_response_message :: "u32 option \<Rightarrow> json_value option \<Rightarrow> unit proc" where
  "submit_v1_response_message message_id result =
     tbind (send_v1 (RpcResponse \<lparr>resp_id = (case message_id of None \<Rightarrow> 0 | Some i \<Rightarrow> i),
                                  stratum_result = result, stratum_err = None\<rparr>)) (\<lambda>r. case r of
       Inl e \<Rightarrow> fail (PxIo e)
     | Inr u \<Rightarrow> treturn ())"

definition submit_v2_message :: "tr_env \<Rightarrow> v2_message \<Rightarrow> unit proc" where
  "submit_v2_message E m =
     (case frame_of_message m of
        Inl _ \<Rightarrow> panic ''BUG: Could convert the message to frame''
      | Inr frame \<Rightarrow>
          tbind (send_v2 frame) (\<lambda>r. case r of
            Inl e \<Rightarrow> fail (PxDownstream (fmt_send_error E e))
          | Inr u \<Rightarrow> treturn ()))"

definition account :: "metric \<Rightarrow> unit proc" where
  "account m = tmod (\<lambda>s. s\<lparr>metrics := map_option (\<lambda>ms. ms @ [m]) (metrics s)\<rparr>)"

section \<open>Jobs\<close>

text \<open>
  \<open>isize::MAX\<close> of a 64-bit target: \<open>BytesMut::with_capacity\<close> and \<open>vec!\<close> panic for more bytes than that. The size
  of the extra nonce is a \<open>usize\<close> that the pool chooses. A sum for the coinbase that does not fit into a
  \<open>usize\<close> panics as well: in the addition where overflow is checked, and where it wraps around, in one
  of the allocations that follow. A size below the limit that the machine has no memory for aborts in the
  allocator; that is not modelled.
\<close>

definition ISIZE_MAX :: nat where "ISIZE_MAX = 2 ^ 63 - 1"

definition with_capacity :: "nat \<Rightarrow> unit proc" where
  "with_capacity n = (if ISIZE_MAX < n then panic ''capacity overflow'' else treturn ())"

definition channel_to_extra_nonce2_bytes :: "u32 \<Rightarrow> nat \<Rightarrow> bytes proc" where
  "channel_to_extra_nonce2_bytes channel_id n =
     tthen (with_capacity n) (
     let channel_id_bytes = le_bytes 4 (unat channel_id)
     in if n < 4 then treturn (take n channel_id_bytes)
        else let padding = n - 4
             in tthen (with_capacity padding) (treturn (channel_id_bytes @ replicate padding 0)))"

definition calculate_merkle_root :: "tr_env \<Rightarrow> notify \<Rightarrow> bytes proc" where
  "calculate_merkle_root E payload =
     tbind (tget v1_extra_nonce1) (\<lambda>en1. case en1 of
       Some extra_nonce1 \<Rightarrow>
         tbind (tget v1_extra_nonce2_size) (\<lambda>n.
         tthen (with_capacity (length (n_coin_base_1 payload) + length extra_nonce1 + n +
                  length (n_coin_base_2 payload))) (
         tbind (channel_to_extra_nonce2_bytes CHANNEL_ID n) (\<lambda>extra_nonce2.
         let coin_base = n_coin_base_1 payload @ extra_nonce1 @ extra_nonce2 @ n_coin_base_2 payload;
             cb_tx_hash = sha256d (libs E) coin_base
         in treturn (fold_branch_into_merkle_root (libs E) (n_merkle_branch payload) cb_tx_hash))))
     | None \<Rightarrow> fail (PxGeneral (ascii ''Extra nonce 1 missing, cannot calculate merkle root'')))"

definition build_set_new_prev_hash :: "u32 \<Rightarrow> notify \<Rightarrow> SetNewPrevHash proc" where
  "build_set_new_prev_hash job_id payload =
     (if length (n_prev_hash payload) \<noteq> 32 then fail (PxBitcoinHashes (length (n_prev_hash payload)))
      else treturn \<lparr>snph_channel_id = CHANNEL_ID, snph_job_id = job_id,
                    snph_prev_hash = n_prev_hash payload, snph_min_ntime = n_time payload,
                    snph_nbits = n_bits payload\<rparr>)"

definition perform_notify :: "tr_env \<Rightarrow> notify \<Rightarrow> unit proc" where
  "perform_notify E payload =
     tbind (calculate_merkle_root E payload) (\<lambda>merkle_root.
     tbind (tget (\<lambda>s. fst (next_id (v2_job_id s)))) (\<lambda>job_id.
     tthen (tmod (\<lambda>s. s\<lparr>v2_job_id := snd (next_id (v2_job_id s))\<rparr>)) (
     tbind (tget (\<lambda>s. v2_to_v1_job_map s = [] \<or> n_clean_jobs payload \<or> v1_force_future_jobs s)) (\<lambda>future_job.
     tbind
       (if future_job
        then tthen (tmod (\<lambda>s. if n_clean_jobs payload then s\<lparr>v2_to_v1_job_map := []\<rparr> else s)) (
             tbind (build_set_new_prev_hash job_id payload) (\<lambda>m. treturn (Some m)))
        else treturn None) (\<lambda>maybe_set_new_prev_hash.
     tbind (tget (\<lambda>s. map_of (v2_to_v1_job_map s) job_id)) (\<lambda>old.
     tthen (tmod (\<lambda>s. s\<lparr>v2_to_v1_job_map := hm_insert job_id
         \<lparr>tmpl_job_id = n_job_id payload, tmpl_time = n_time payload,
          tmpl_version = n_version payload\<rparr> (v2_to_v1_job_map s)\<rparr>)) (
     case old of
       Some _ \<Rightarrow> panic ''V2 id already exists''
     | None \<Rightarrow>
         tthen (submit_v2_message E (M_NewMiningJob
           \<lparr>nmj_channel_id = CHANNEL_ID, nmj_job_id = job_id, nmj_future_job = future_job,
            nmj_version = n_version payload, nmj_merkle_root = merkle_root\<rparr>)) (
         case maybe_set_new_prev_hash of
           Some m \<Rightarrow> submit_v2_message E (M_SetNewPrevHash m)
         | None \<Rightarrow> treturn ()))))))))"

section \<open>Opening and aborting the channel\<close>

definition finalize_open_channel :: "tr_env \<Rightarrow> unit proc" where
  "finalize_open_channel E =
     tbind (tget v2_target) (\<lambda>t.
     tbind (expect ''BUG: initial target still not defined'' t) (\<lambda>target.
     tbind (tget v2_channel_details) (\<lambda>details. case details of
       Some channel_details \<Rightarrow>
         tthen (tmod (\<lambda>s. s\<lparr>state := Operational\<rparr>)) (
         tthen (submit_v2_message E (M_OpenStandardMiningChannelSuccess
           \<lparr>osmcs_req_id = osmc_req_id channel_details, osmcs_channel_id = CHANNEL_ID,
            osmcs_target = uint256_of_u256 target, osmcs_extranonce_prefix = sized_new Bytes0_32,
            osmcs_group_channel_id = DEFAULT_GROUP_CHANNEL_ID\<rparr>)) (
         tbind (tget v1_deferred_notify) (\<lambda>deferred. case deferred of
           Some notify_payload \<Rightarrow>
             tthen (tmod (\<lambda>s. s\<lparr>v1_deferred_notify := None\<rparr>)) (perform_notify E notify_payload)
         | None \<Rightarrow> treturn ())))
     | None \<Rightarrow> fail (PxStratum (V2Error (ChannelNotOperational ''Channel details missing''))))))"

definition send_set_target :: "tr_env \<Rightarrow> unit proc" where
  "send_set_target E =
     tbind (tget v2_target) (\<lambda>t.
     tbind (expect ''BUG: initial target still not defined'' t) (\<lambda>target.
     submit_v2_message E (M_SetTarget \<lparr>st_channel_id = CHANNEL_ID, st_max_target = uint256_of_u256 target\<rparr>)))"

definition abort_open_channel :: "tr_env \<Rightarrow> string \<Rightarrow> unit proc" where
  "abort_open_channel E err_msg =
     tthen (tmod (\<lambda>s. s\<lparr>state := V1SubscribeOrAuthorizeFail, v1_authorized := False,
                        v1_extra_nonce1 := None, v1_extra_nonce2_size := 0\<rparr>)) (
     tbind (tget v2_channel_details) (\<lambda>details. case details of
       Some channel_details \<Rightarrow>
         tbind (expect_str Str0_32 (ascii err_msg)) (\<lambda>code.
         tthen (tmod (\<lambda>s. s\<lparr>v2_channel_details := None\<rparr>)) (
         on_err (submit_v2_message E (M_OpenMiningChannelError
                   \<lparr>omce_req_id = osmc_req_id channel_details, omce_code = code\<rparr>))
           (\<lambda>e. treturn ())))
     | None \<Rightarrow> treturn ()))"

section \<open>Share responses\<close>

text \<open>
  The loop of \<open>submit_queued_share_responses\<close>: every round takes the error at the front of the
  queue off and sends it, and nothing that it calls changes the queue.
\<close>

fun send_queued_errors :: "tr_env \<Rightarrow> submit_share list \<Rightarrow> unit proc" where
  "send_queued_errors E (QueuedError e # q) =
     tthen (tmod (\<lambda>s. s\<lparr>v2_submit_share_queue := q\<rparr>)) (
     tthen (submit_v2_message E (M_SubmitSharesError e)) (send_queued_errors E q))"
| "send_queued_errors E q = treturn ()"

definition submit_queued_share_responses :: "tr_env \<Rightarrow> unit proc" where
  "submit_queued_share_responses E = tbind (tget v2_submit_share_queue) (send_queued_errors E)"

definition submit_share_response :: "tr_env \<Rightarrow> v2_message \<Rightarrow> unit proc" where
  "submit_share_response E m = tthen (submit_v2_message E m) (submit_queued_share_responses E)"

definition get_v2_submit_shares_seq_num :: "u32 option \<Rightarrow> u32 proc" where
  "get_v2_submit_shares_seq_num message_id =
     (case message_id of
        None \<Rightarrow> fail (PxGeneral (ascii ''Missing V1 message id for 'mining.submit' response''))
      | Some i \<Rightarrow>
          tbind (tget v2_submit_share_queue) (\<lambda>queue.
          tthen (tmod (\<lambda>s. s\<lparr>v2_submit_share_queue := tl queue\<rparr>)) (
          case queue of
            V1ToV2Mapping v1_seq_num v2_seq_num # q \<Rightarrow>
              if i = v1_seq_num then treturn v2_seq_num
              else fail (PxGeneral (ascii ''Unexpected V1 message id ('' @ dec_bytes (unat i) @
                                    ascii '') in 'mining.submit' response''))
          | _ \<Rightarrow> fail (PxGeneral (ascii ''Unexpected V1 message id ('' @ dec_bytes (unat i) @
                                  ascii '') in 'mining.submit' response'')))))"

definition accept_shares :: "tr_env \<Rightarrow> u32 option \<Rightarrow> u64 \<Rightarrow> unit proc" where
  "accept_shares E message_id new_shares =
     tbind (get_v2_submit_shares_seq_num message_id) (\<lambda>seq.
     submit_share_response E (M_SubmitSharesSuccess
       \<lparr>ssok_channel_id = CHANNEL_ID, ssok_last_seq_num = seq, ssok_new_submits_accepted_count = 1,
        ssok_new_shares_sum = ucast new_shares\<rparr>))"

text \<open>\<open>err_msg[..err_msg.len().min(32)]\<close>: slicing inside a character panics.\<close>

definition error_code :: "bytes \<Rightarrow> bytes proc" where
  "error_code err_msg =
     (let n = min (length err_msg) 32
      in if is_char_boundary err_msg n then expect_str Str0_32 (take n err_msg)
         else panic ''byte index 32 is not a char boundary'')"

definition reject_shares :: "tr_env \<Rightarrow> u32 \<Rightarrow> seq_num \<Rightarrow> bytes \<Rightarrow> unit proc" where
  "reject_shares E channel_id seq_num_variant err_msg =
     tbind (case seq_num_variant of
              SeqV1 i \<Rightarrow> tbind (get_v2_submit_shares_seq_num i) (\<lambda>n. treturn (n, True))
            | SeqV2 n \<Rightarrow> tget (\<lambda>s. (n, v2_submit_share_queue s = []))) (\<lambda>(seq, submit).
     tbind (tget v2_target) (\<lambda>target.
     tthen (account (AccountRejectedShare target)) (
     tbind (error_code err_msg) (\<lambda>code.
     let msg = \<lparr>sserr_channel_id = channel_id, sserr_seq_num = seq, sserr_code = code\<rparr>
     in if submit then submit_share_response E (M_SubmitSharesError msg)
        else tmod (\<lambda>s. s\<lparr>v2_submit_share_queue := v2_submit_share_queue s @ [QueuedError msg]\<rparr>)))))"

section \<open>Results and errors of V1 requests\<close>

definition setup_refused :: "tr_env \<Rightarrow> unit proc" where
  "setup_refused E =
     tbind (expect_str Str0_255 (ascii ''Cannot negotiate upstream V1 version mask'')) (\<lambda>code.
     submit_v2_message E (M_SetupConnectionError \<lparr>sce_flags = 0, sce_code = code\<rparr>))"

definition handle_configure_result :: "tr_env \<Rightarrow> u32 option \<Rightarrow> json_value \<Rightarrow> unit proc" where
  "handle_configure_result E i payload =
     tbind (tlift (map_err PxJson
              (de_hex_u32_be (libs E) (value_index payload (ascii ''version-rolling.mask''))))) (\<lambda>msk.
     if as_bool (value_index payload (ascii ''version-rolling'')) = Some True \<and> msk = BIP320_N_VERSION_MASK
     then
       tthen (tmod (\<lambda>s. s\<lparr>state := ConnectionSetup\<rparr>)) (
       submit_v2_message E (M_SetupConnectionSuccess
         \<lparr>scs_used_version = of_nat PROTOCOL_VERSION, scs_flags = 0\<rparr>))
     else setup_refused E)"

definition handle_configure_error :: "tr_env \<Rightarrow> u32 option \<Rightarrow> v1_stratum_error \<Rightarrow> unit proc" where
  "handle_configure_error E i payload = setup_refused E"

definition handle_extranonce_subscribe_result :: "tr_env \<Rightarrow> u32 option \<Rightarrow> json_value \<Rightarrow> unit proc" where
  "handle_extranonce_subscribe_result E i payload =
     tbind (tlift (map_err PxStratum (boolean_result (libs E) payload))) (\<lambda>b.
     tmod (\<lambda>s. s\<lparr>v1_xnsub_enabled := b\<rparr>))"

definition handle_extranonce_subscribe_error :: "tr_env \<Rightarrow> u32 option \<Rightarrow> v1_stratum_error \<Rightarrow> unit proc" where
  "handle_extranonce_subscribe_error E i payload = tmod (\<lambda>s. s\<lparr>v1_xnsub_enabled := False\<rparr>)"

definition abort_with :: "tr_env \<Rightarrow> string \<Rightarrow> px_error \<Rightarrow> 'a proc" where
  "abort_with E err_msg e = tbind (abort_open_channel E err_msg) (\<lambda>_. fail e)"

definition handle_subscribe_result :: "tr_env \<Rightarrow> u32 option \<Rightarrow> json_value \<Rightarrow> unit proc" where
  "handle_subscribe_result E i payload =
     tbind (on_err (tlift (map_err PxStratum (subscribe_result_of (libs E) payload)))
              (abort_with E ''Upstream subscribe failed'')) (\<lambda>r.
     tthen (tmod (\<lambda>s. s\<lparr>v1_extra_nonce1 := Some (sr_extra_nonce_1 r),
                        v1_extra_nonce2_size := sr_extra_nonce_2_size r\<rparr>)) (
     tbind (tget (\<lambda>s. v1_authorized s \<and> v2_target s \<noteq> None)) (\<lambda>ready.
     if ready then on_err (finalize_open_channel E) (abort_with E ''Upstream subscribe failed'')
     else treturn ())))"

definition handle_authorize_result :: "tr_env \<Rightarrow> u32 option \<Rightarrow> json_value \<Rightarrow> unit proc" where
  "handle_authorize_result E i payload =
     on_err
       (tbind (tlift (map_err PxStratum (boolean_result (libs E) payload))) (\<lambda>b.
        tthen (tmod (\<lambda>s. s\<lparr>v1_authorized := b\<rparr>)) (
        if b then
          tbind (tget (\<lambda>s. v1_extra_nonce1 s \<noteq> None \<and> v2_target s \<noteq> None)) (\<lambda>ready.
          if ready then finalize_open_channel E else treturn ())
        else fail (PxStratum (V1Error (SubscribeError (ascii ''Authorize result is false'')))))))
       (abort_with E ''Not authorized'')"

definition handle_authorize_or_subscribe_error ::
  "tr_env \<Rightarrow> u32 option \<Rightarrow> v1_stratum_error \<Rightarrow> unit proc" where
  "handle_authorize_or_subscribe_error E i payload =
     tbind (tget state) (\<lambda>st.
     if st \<noteq> V1SubscribeOrAuthorizeFail
     then abort_with E ''Service not ready'' (PxStratum (V1Error (SubscribeError (fmt_error E payload))))
     else treturn ())"

definition handle_submit_result :: "tr_env \<Rightarrow> u32 option \<Rightarrow> json_value \<Rightarrow> unit proc" where
  "handle_submit_result E i payload =
     tbind (tlift (map_err PxStratum (boolean_result (libs E) payload))) (\<lambda>b.
     tbind (tget v2_channel_details) (\<lambda>details.
     tbind (expect ''BUG: V2 channel details missing'' details) (\<lambda>channel_details.
     if b then
       tbind (tget v2_target) (\<lambda>target.
       tthen (account (AccountAcceptedShare target)) (
       tbind (expect ''BUG: difficulty missing'' target) (\<lambda>t. accept_shares E i (ucast t))))
     else reject_shares E CHANNEL_ID (SeqV1 i) (ascii ''ShareRjct:'' @ fmt_result E payload))))"

definition handle_submit_error :: "tr_env \<Rightarrow> u32 option \<Rightarrow> v1_stratum_error \<Rightarrow> unit proc" where
  "handle_submit_error E i payload =
     reject_shares E CHANNEL_ID (SeqV1 i) (ascii ''ShareRjct:'' @ fmt_error E payload)"

fun run_result_handler :: "tr_env \<Rightarrow> result_handler \<Rightarrow> u32 option \<Rightarrow> json_value \<Rightarrow> unit proc" where
  "run_result_handler E HandleConfigureResult = handle_configure_result E"
| "run_result_handler E HandleExtranonceSubscribeResult = handle_extranonce_subscribe_result E"
| "run_result_handler E HandleSubscribeResult = handle_subscribe_result E"
| "run_result_handler E HandleAuthorizeResult = handle_authorize_result E"
| "run_result_handler E HandleSubmitResult = handle_submit_result E"

fun run_error_handler :: "tr_env \<Rightarrow> error_handler \<Rightarrow> u32 option \<Rightarrow> v1_stratum_error \<Rightarrow> unit proc" where
  "run_error_handler E HandleConfigureError = handle_configure_error E"
| "run_error_handler E HandleExtranonceSubscribeError = handle_extranonce_subscribe_error E"
| "run_error_handler E HandleAuthorizeOrSubscribeError = handle_authorize_or_subscribe_error E"
| "run_error_handler E HandleSubmitError = handle_submit_error E"

datatype v1_result_or_error = ResultPayload json_value | ErrorPayload v1_stratum_error

definition visit_stratum_result_or_error :: "tr_env \<Rightarrow> u32 option \<Rightarrow> v1_result_or_error \<Rightarrow> unit proc" where
  "visit_stratum_result_or_error E message_id payload =
     (case message_id of
        None \<Rightarrow> fail (PxStratum (V1Error (RpcError (ascii ''Missing ID in ii_stratum result''))))
      | Some i \<Rightarrow>
          tbind (tget (\<lambda>s. map_of (v1_req_map s) i)) (\<lambda>found. case found of
            None \<Rightarrow> fail (PxStratum (V1Error (RpcError (ascii ''Received invalid ID '' @ dec_bytes (unat i)))))
          | Some h \<Rightarrow>
              tthen (tmod (\<lambda>s. s\<lparr>v1_req_map := hm_remove i (v1_req_map s)\<rparr>)) (
              tbind (tget (\<lambda>s. clock s - timestamp_created h)) (\<lambda>req_duration.
              case payload of
                ResultPayload r \<Rightarrow>
                  tthen (account (ObserveV1RequestSuccess (handler_method h) req_duration))
                    (run_result_handler E (v1_stratum_result_handler h) message_id r)
              | ErrorPayload e \<Rightarrow>
                  tthen (account (ObserveV1RequestError (handler_method h) req_duration))
                    (run_error_handler E (v1_stratum_error_handler h) message_id e)))))"

section \<open>Messages from the V1 pool\<close>

text \<open>
  The cast \<open>f32 as u32\<close>: it truncates towards zero, saturates at both ends, and takes NaN to zero.
\<close>

definition f32_as_u32 :: "u32 \<Rightarrow> u32" where
  "f32_as_u32 x =
     (let n = unat x; e = n div 2 ^ 23 mod 256; m = n mod 2 ^ 23
      in if e = 255 \<and> m \<noteq> 0 then 0
         else if 2 ^ 31 \<le> n \<or> e < 127 then 0
         else if 159 \<le> e then - 1
         else of_nat ((2 ^ 23 + m) * 2 ^ e div 2 ^ 150))"

definition handle_set_difficulty :: "tr_env \<Rightarrow> u32 option \<times> u32 \<Rightarrow> unit proc" where
  "handle_set_difficulty E payload =
     (let diff = f32_as_u32 (snd payload)
      in tthen (tmod (\<lambda>s. s\<lparr>v2_target := Some (diff_to_target (ucast diff))\<rparr>)) (
         tbind (tget (\<lambda>s. v1_authorized s \<and> v1_extra_nonce1 s \<noteq> None)) (\<lambda>ready.
         if ready then
           tbind (tget state) (\<lambda>st.
           if st = OpenStandardMiningChannelPending
           then on_err (finalize_open_channel E) (\<lambda>e. treturn ())
           else on_err (send_set_target E) (\<lambda>e. treturn ()))
         else treturn ())))"

definition handle_set_extranonce :: "tr_env \<Rightarrow> u32 option \<times> set_extranonce \<Rightarrow> unit proc" where
  "handle_set_extranonce E payload =
     tmod (\<lambda>s. s\<lparr>v1_extra_nonce1 := Some (se_extra_nonce1 (snd payload)),
                v1_extra_nonce2_size := se_extra_nonce2_size (snd payload)\<rparr>)"

definition handle_notify :: "tr_env \<Rightarrow> u32 option \<times> notify \<Rightarrow> unit proc" where
  "handle_notify E payload =
     tbind (tget state) (\<lambda>st.
     if st \<noteq> Operational then tmod (\<lambda>s. s\<lparr>v1_deferred_notify := Some (snd payload)\<rparr>)
     else on_err (perform_notify E (snd payload))
            (\<lambda>e. tbind (tget state) (\<lambda>st. fail (PxGeneral (fmt_notify E e (fst payload) st (snd payload))))))"

definition handle_set_version_mask :: "tr_env \<Rightarrow> u32 option \<times> u32 \<Rightarrow> unit proc" where
  "handle_set_version_mask E payload = treturn ()"

definition nth_opt :: "'a list \<Rightarrow> nat \<Rightarrow> 'a option" where
  "nth_opt xs i = (if i < length xs then Some (xs ! i) else None)"

definition reconnect_host :: "json_value list \<Rightarrow> string + bytes" where
  "reconnect_host msg =
     rbind (case nth_opt msg 0 of
              Some (JString host_name) \<Rightarrow> Inr host_name
            | Some _ \<Rightarrow> Inl ''host name not a string''
            | None \<Rightarrow> Inr [])
       (\<lambda>host_name. map_err (\<lambda>_. ''host name string too long'') (sized_try_from Str0_255 host_name))"

definition reconnect_port :: "json_value list \<Rightarrow> string + u16" where
  "reconnect_port msg =
     (case nth_opt msg 1 of
        Some (JNumber port) \<Rightarrow>
          (case as_u64 port of
             Some n \<Rightarrow> if unat n < 2 ^ 16 then Inr (ucast n) else Inl ''invalid u16''
           | None \<Rightarrow> Inl ''invalid u16'')
      | Some (JString port_str) \<Rightarrow> ok_or (parse_u16 port_str) ''invalid number string''
      | Some _ \<Rightarrow> Inl ''port number neither string nor int''
      | None \<Rightarrow> Inr 0)"

definition parse_client_reconnect :: "tr_env \<Rightarrow> json_value list \<Rightarrow> px_error + (bytes \<times> u16)" where
  "parse_client_reconnect E msg =
     rbind (map_err (\<lambda>e. PxGeneral (ascii (''Cannot parse host ('' @ e @ '') in client.reconnect: '')
                                   @ fmt_reconnect E msg)) (reconnect_host msg)) (\<lambda>new_host.
     rbind (map_err (\<lambda>e. PxGeneral (ascii (''Cannot parse port ('' @ e @ '') client.reconnect: '')
                                   @ fmt_reconnect E msg)) (reconnect_port msg)) (\<lambda>new_port.
     Inr (new_host, new_port)))"

definition handle_client_reconnect :: "tr_env \<Rightarrow> u32 option \<times> json_value list \<Rightarrow> unit proc" where
  "handle_client_reconnect E payload =
     tbind (tget (\<lambda>s. propagate_reconnect_downstream (options s))) (\<lambda>propagate.
     if propagate then
       tbind (tlift (map_err (\<lambda>e. PxGeneral (ascii ''visit_client_reconnect failed: '' @ display_error E e))
                (parse_client_reconnect E (snd payload)))) (\<lambda>(new_host, new_port).
       submit_v2_message E (M_Reconnect \<lparr>rc_new_host = new_host, rc_new_port = new_port\<rparr>))
     else treturn ())"

definition handle_ping :: "tr_env \<Rightarrow> u32 option \<times> json_value list \<Rightarrow> unit proc" where
  "handle_ping E payload =
     tmap_err (\<lambda>e. PxGeneral (ascii ''Cannot send ping response to mining.ping: '' @ fmt_debug E e))
       (submit_v1_response_message (fst payload) (Some (JString (ascii ''pong''))))"

definition handle_unknown_v1 :: "px_error + v1_rpc \<Rightarrow> unit proc" where
  "handle_unknown_v1 parsed = treturn ()"

text \<open>
  The dispatch that \<open>#[handler(async try v1::rpc::Rpc suffix _v1)]\<close> generates: the id selects the
  conversion, and a conversion that fails goes to the catch-all method.
\<close>

definition dispatch_v1 :: "tr_env \<Rightarrow> v1_rpc \<Rightarrow> (u32 option \<times> v1_request \<Rightarrow> unit proc) \<Rightarrow> unit proc" where
  "dispatch_v1 E rpc k =
     (case request_of_rpc (libs E) (rpc_get_id rpc) rpc of
        Inl e \<Rightarrow> handle_unknown_v1 (Inl (PxStratum e))
      | Inr p \<Rightarrow> k p)"

fun handle_request_v1 :: "tr_env \<Rightarrow> v1_rpc \<Rightarrow> u32 option \<times> v1_request \<Rightarrow> unit proc" where
  "handle_request_v1 E rpc (i, ReqSetDifficulty d) = handle_set_difficulty E (i, d)"
| "handle_request_v1 E rpc (i, ReqSetExtranonce e) = handle_set_extranonce E (i, e)"
| "handle_request_v1 E rpc (i, ReqNotify n) = handle_notify E (i, n)"
| "handle_request_v1 E rpc (i, ReqSetVersionMask m) = handle_set_version_mask E (i, m)"
| "handle_request_v1 E rpc (i, ReqClientReconnect vs) = handle_client_reconnect E (i, vs)"
| "handle_request_v1 E rpc (i, ReqPing vs) = handle_ping E (i, vs)"
| "handle_request_v1 E rpc (i, r) = handle_unknown_v1 (Inr rpc)"

definition handle_stratum_result :: "tr_env \<Rightarrow> u32 option \<times> json_value \<Rightarrow> unit proc" where
  "handle_stratum_result E payload = visit_stratum_result_or_error E (fst payload) (ResultPayload (snd payload))"

definition handle_stratum_error :: "tr_env \<Rightarrow> u32 option \<times> v1_stratum_error \<Rightarrow> unit proc" where
  "handle_stratum_error E payload = visit_stratum_result_or_error E (fst payload) (ErrorPayload (snd payload))"

definition handle_v1 :: "tr_env \<Rightarrow> v1_rpc \<Rightarrow> unit proc" where
  "handle_v1 E rpc =
     (case rpc_get_id rpc of
        ResultMethod \<Rightarrow>
          (case result_of_rpc rpc of
             Inl e \<Rightarrow> handle_unknown_v1 (Inl (PxStratum e))
           | Inr p \<Rightarrow> handle_stratum_result E p)
      | ErrorMethod \<Rightarrow>
          (case error_of_rpc rpc of
             Inl e \<Rightarrow> handle_unknown_v1 (Inl (PxStratum e))
           | Inr p \<Rightarrow> handle_stratum_error E p)
      | Subscribe \<Rightarrow> handle_unknown_v1 (Inr rpc)
      | ExtranonceSubscribe \<Rightarrow> handle_unknown_v1 (Inr rpc)
      | Authorize \<Rightarrow> handle_unknown_v1 (Inr rpc)
      | Configure \<Rightarrow> handle_unknown_v1 (Inr rpc)
      | Submit \<Rightarrow> handle_unknown_v1 (Inr rpc)
      | _ \<Rightarrow> dispatch_v1 E rpc (handle_request_v1 E rpc))"

section \<open>Messages from the V2 client\<close>

definition version_configure :: "tr_env \<Rightarrow> configure" where
  "version_configure E =
     add_feature (version_rolling_feature (libs E)
       (version_rolling_new BIP320_N_VERSION_MASK BIP320_N_VERSION_MAX_BITS)) configure_new"

definition only_once :: "tr_env \<Rightarrow> SetupConnection \<Rightarrow> unit proc" where
  "only_once E msg =
     tbind (expect_str Str0_255 (ascii ''Connection can be setup only once'')) (\<lambda>code.
     tmap_err (setup_connection_error E)
       (submit_v2_message E (M_SetupConnectionError \<lparr>sce_flags = sc_flags msg, sce_code = code\<rparr>)))"

definition handle_setup_connection :: "tr_env \<Rightarrow> SetupConnection \<Rightarrow> unit proc" where
  "handle_setup_connection E msg =
     tbind (tget state) (\<lambda>st.
     tthen (if st \<noteq> Init then only_once E msg else treturn ()) (
     tthen (tmod (\<lambda>s. s\<lparr>v2_conn_details := Some msg\<rparr>)) (
     tbind (tmap_err (setup_connection_error E)
              (submit_v1_request_message E (ReqConfigure (version_configure E))
                 HandleConfigureResult HandleConfigureError)) (\<lambda>i.
     tmod (\<lambda>s. s\<lparr>state := V1Configure\<rparr>)))))"

definition out_of_sequence :: "tr_env \<Rightarrow> OpenStandardMiningChannel \<Rightarrow> unit proc" where
  "out_of_sequence E msg =
     tbind (expect_str Str0_32 (ascii ''out-of-sequence-message'')) (\<lambda>code.
     tmap_err (open_mining_channel_error E)
       (submit_v2_message E (M_OpenMiningChannelError \<lparr>omce_req_id = osmc_req_id msg, omce_code = code\<rparr>)))"

definition subscribe_request :: "SetupConnection \<Rightarrow> v1_request" where
  "subscribe_request conn_details =
     ReqSubscribe \<lparr>sb_agent_signature = Some (fw_ver (sc_device conn_details)), sb_extra_nonce1 = None,
       sb_url = Some (sc_endpoint_host conn_details @ ascii '':'' @
                      dec_bytes (unat (sc_endpoint_port conn_details))),
       sb_port = None\<rparr>"

definition subscribe_and_authorize ::
  "tr_env \<Rightarrow> OpenStandardMiningChannel \<Rightarrow> SetupConnection \<Rightarrow> unit proc" where
  "subscribe_and_authorize E msg conn_details =
     tbind (submit_v1_request_message E (subscribe_request conn_details)
              HandleSubscribeResult HandleAuthorizeOrSubscribeError) (\<lambda>i.
     tbind (tget (\<lambda>s. try_enable_xnsub (options s))) (\<lambda>xnsub.
     tthen
       (if xnsub then
          tbind (tmap_err (open_mining_channel_error E)
            (submit_v1_request_message E ReqExtranonceSubscribe
               HandleExtranonceSubscribeResult HandleExtranonceSubscribeError)) (\<lambda>i. treturn ())
        else treturn ()) (
     tbind (tget v1_password) (\<lambda>password.
     tbind (tmap_err (open_mining_channel_error E)
       (submit_v1_request_message E (ReqAuthorize \<lparr>au_name = osmc_user msg, au_password = password\<rparr>)
          HandleAuthorizeResult HandleAuthorizeOrSubscribeError)) (\<lambda>i. treturn ())))))"

definition handle_open_standard_mining_channel :: "tr_env \<Rightarrow> OpenStandardMiningChannel \<Rightarrow> unit proc" where
  "handle_open_standard_mining_channel E msg =
     tbind (tget state) (\<lambda>st.
     tthen
       (if st \<noteq> ConnectionSetup \<and> st \<noteq> V1SubscribeOrAuthorizeFail then out_of_sequence E msg
        else treturn ()) (
     tbind (tget v2_conn_details) (\<lambda>details. case details of
       None \<Rightarrow> treturn ()
     | Some conn_details \<Rightarrow>
         tthen (tmod (\<lambda>s. s\<lparr>v2_channel_details := Some msg, state := OpenStandardMiningChannelPending\<rparr>))
           (subscribe_and_authorize E msg conn_details))))"

definition unrecognized_channel :: "u32 \<Rightarrow> bytes" where
  "unrecognized_channel channel_id = ascii ''Unrecognized channel ID '' @ dec_bytes (unat channel_id)"

definition text_of :: "bytes \<Rightarrow> string" where
  "text_of s = map (\<lambda>b. char_of (unat b)) s"

definition handle_submit_shares_standard :: "tr_env \<Rightarrow> SubmitSharesStandard \<Rightarrow> unit proc" where
  "handle_submit_shares_standard E msg =
     tthen (tmod (\<lambda>s. s\<lparr>last_submit := Some (clock s)\<rparr>)) (
     if sss_channel_id msg \<noteq> CHANNEL_ID then
       tthen (on_err (reject_shares E (sss_channel_id msg) (SeqV2 (sss_seq_num msg))
                        (unrecognized_channel (sss_channel_id msg))) (\<lambda>e. treturn ())) (
       fail (PxStratum (General (text_of (unrecognized_channel (sss_channel_id msg))))))
     else
       tbind (tget v2_channel_details) (\<lambda>details.
       tbind (expect ''BUG: Missing channel details'' details) (\<lambda>channel_details.
       tbind (tget v1_extra_nonce2_size) (\<lambda>extra_nonce2_size.
       tbind (tget (\<lambda>s. map_of (v2_to_v1_job_map s) (sss_job_id msg))) (\<lambda>tmpl.
       on_err
         (tbind (tlift (ok_or tmpl (PxGeneral (ascii ''V2 Job ID not present '' @
                   dec_bytes (unat (sss_job_id msg)) @ ascii '' in registry'')))) (\<lambda>v1_submit_template.
          tbind (channel_to_extra_nonce2_bytes CHANNEL_ID extra_nonce2_size) (\<lambda>extra_nonce2.
          tbind (submit_v1_request_message E
                   (ReqSubmit (submit_new (osmc_user channel_details) (tmpl_job_id v1_submit_template) extra_nonce2
                      (sss_ntime msg) (sss_nonce msg) (sss_version msg AND BIP320_N_VERSION_MASK)))
                   HandleSubmitResult HandleSubmitError) (\<lambda>v1_seq_num.
          tmod (\<lambda>s. s\<lparr>v2_submit_share_queue :=
                  v2_submit_share_queue s @ [V1ToV2Mapping v1_seq_num (sss_seq_num msg)]\<rparr>)))))
         (\<lambda>e. on_err (reject_shares E (sss_channel_id msg) (SeqV2 (sss_seq_num msg)) (display_error E e))
                 (\<lambda>e. treturn ())))))))"

definition handle_unknown_v2 :: "tr_env \<Rightarrow> px_error + v2_message frame \<Rightarrow> unit proc" where
  "handle_unknown_v2 E parsed =
     (case parsed of
        Inr f \<Rightarrow> treturn ()
      | Inl e \<Rightarrow> fail (PxProtocol (PeOther (ascii ''Broken stratum v2 frame received: '' @ fmt_debug E e))))"

fun handle_message_v2 :: "tr_env \<Rightarrow> v2_message frame \<Rightarrow> v2_message \<Rightarrow> unit proc" where
  "handle_message_v2 E f (M_SetupConnection m) = handle_setup_connection E m"
| "handle_message_v2 E f (M_OpenStandardMiningChannel m) = handle_open_standard_mining_channel E m"
| "handle_message_v2 E f (M_SubmitSharesStandard m) = handle_submit_shares_standard E m"
| "handle_message_v2 E f m = handle_unknown_v2 E (Inr f)"

definition dispatch_v2 :: "tr_env \<Rightarrow> msg_kind \<Rightarrow> v2_message frame \<Rightarrow> unit proc" where
  "dispatch_v2 E k f =
     (case message_of_frame k f of
        Inl e \<Rightarrow> handle_unknown_v2 E (Inl (PxStratum e))
      | Inr m \<Rightarrow> handle_message_v2 E f m)"

definition handle_v2 :: "tr_env \<Rightarrow> v2_message frame \<Rightarrow> unit proc" where
  "handle_v2 E f =
     (if get_id f = msg_id K_SetupConnection then dispatch_v2 E K_SetupConnection f
      else if get_id f = msg_id K_OpenStandardMiningChannel then dispatch_v2 E K_OpenStandardMiningChannel f
      else if get_id f = msg_id K_SubmitSharesStandard then dispatch_v2 E K_SubmitSharesStandard f
      else handle_unknown_v2 E (Inr f))"

section \<open>Frames of the two connections\<close>

text \<open>\<open>ConnTranslation::v1_handle_frame\<close> and \<open>v2_handle_frame\<close> of \<open>server.rs\<close>.\<close>

definition v1_handle_frame ::
  "tr_env \<Rightarrow> v1_rpc serialize_fn \<Rightarrow> (bytes \<Rightarrow> string + v1_rpc) \<Rightarrow> v1_rpc payload \<Rightarrow> unit proc" where
  "v1_handle_frame E ser parse_json frame =
     tbind (tlift (map_err PxStratum (rpc_of_frame ser parse_json frame))) (handle_v1 E)"

definition v2_handle_frame :: "tr_env \<Rightarrow> v2_message frame \<Rightarrow> unit proc" where
  "v2_handle_frame E f =
     (if extension_type (frame_header f) = BASE then handle_v2 E f else treturn ())"

end
