(* ===== verification/Unvariant_Dispatch.thy ===== *)
theory Unvariant_Dispatch
  imports Unvariant Translation
begin

text \<open>
  The two blocks of \<open>translation.rs\<close> under \<open>#[handler]\<close>: expanded by the macro, they are the dispatchers \<open>handle_v1\<close> and
  \<open>handle_v2\<close> of the translation. The blocks are given as the macro sees them, by the names, argument types and
  annotations of their methods in the order of the file.
\<close>

definition type_path :: "string list \<Rightarrow> rtype" where
  "type_path segments = TPath (map (\<lambda>s. Segment s NoArguments) segments)"

definition result_of :: "rtype \<Rightarrow> rtype" where
  "result_of ty = TPath [Segment ''Result'' (AngleBracketed [TypeArgument ty])]"

definition async_method :: "attribute list \<Rightarrow> string \<Rightarrow> rtype \<Rightarrow> impl_method" where
  "async_method attrs name ty =
     \<lparr>m_attrs = attrs, m_ident = name, m_async = True, m_generics = [], m_inputs = [Receiver, Typed ty],
      m_output = Some (result_of (rtype.TTuple []))\<rparr>"

definition catch_all_attr :: attribute where
  "catch_all_attr = \<lparr>at_path = [''handle''], at_args = Some [Punct ''_'']\<rparr>"

definition translation_block :: "impl_method list \<Rightarrow> item_impl" where
  "translation_block methods =
     \<lparr>ii_generics = [], ii_where_clause = None, ii_self_ty = type_path [''V2ToV1Translation''], ii_items = map ImplMethod methods\<rparr>"

definition async_try_args :: "rtype \<Rightarrow> string \<Rightarrow> handler_args" where
  "async_try_args ty suffix =
     \<lparr>ha_ty = ty, ha_ty_static = True, ha_use_async = True, ha_use_try = True, ha_handler_suffix = Some suffix,
      ha_handler_trait = None\<rparr>"

section \<open>Messages of the pool\<close>

definition rpc_ty :: rtype where "rpc_ty = type_path [''v1'', ''rpc'', ''Rpc'']"

definition with_id :: "string list \<Rightarrow> rtype" where
  "with_id segments = rtype.TTuple [type_path [''MessageId''], type_path segments]"

definition stratum_result_ty :: rtype where "stratum_result_ty = with_id [''v1'', ''rpc'', ''StratumResult'']"
definition stratum_error_ty :: rtype where "stratum_error_ty = with_id [''v1'', ''rpc'', ''StratumError'']"
definition request_ty :: "string \<Rightarrow> rtype" where "request_ty name = with_id [''v1'', ''messages'', name]"

definition v1_methods :: "impl_method list" where
  "v1_methods =
     [async_method [] ''handle_stratum_result'' stratum_result_ty,
      async_method [] ''handle_stratum_error'' stratum_error_ty,
      async_method [] ''handle_set_difficulty'' (request_ty ''SetDifficulty''),
      async_method [] ''handle_set_extranonce'' (request_ty ''SetExtranonce''),
      async_method [] ''handle_notify'' (request_ty ''Notify''),
      async_method [] ''handle_set_version_mask'' (request_ty ''SetVersionMask''),
      async_method [] ''handle_client_reconnect'' (request_ty ''ClientReconnect''),
      async_method [] ''handle_ping'' (request_ty ''Ping''),
      async_method [catch_all_attr] ''handle_unknown_v1'' (result_of rpc_ty)]"

text \<open>The ids of the types, as \<open>impl_request!\<close> and \<open>v1/rpc.rs\<close> declare them, and the conversions.\<close>

definition v1_type_ids :: "(rtype \<times> v1_method) list" where
  "v1_type_ids =
     [(stratum_result_ty, ResultMethod), (stratum_error_ty, ErrorMethod), (request_ty ''SetDifficulty'', SetDifficulty),
      (request_ty ''SetExtranonce'', SetExtranonce), (request_ty ''Notify'', Notify),
      (request_ty ''SetVersionMask'', SetVersionMask), (request_ty ''ClientReconnect'', ClientReconnect),
      (request_ty ''Ping'', Ping)]"

datatype v1_data =
    ResultData "u32 option \<times> json_value"
  | ErrorData "u32 option \<times> v1_stratum_error"
  | RequestData "u32 option \<times> v1_request"

definition v1_convert :: "tr_env \<Rightarrow> v1_method \<Rightarrow> v1_rpc \<Rightarrow> stratum_error + v1_data" where
  "v1_convert E method rpc =
     (case method of
        ResultMethod \<Rightarrow> rmap ResultData (result_of_rpc rpc)
      | ErrorMethod \<Rightarrow> rmap ErrorData (error_of_rpc rpc)
      | _ \<Rightarrow> rmap RequestData (request_of_rpc (libs E) method rpc))"

text \<open>
  The bodies of the methods. Rust's types admit no argument but the one each takes; here, any other would be a panic.
\<close>

definition on_data :: "('d \<Rightarrow> 'a option) \<Rightarrow> ('a \<Rightarrow> unit proc) \<Rightarrow> ('v, 'e, 'd) argument \<Rightarrow> unit proc" where
  "on_data take_data body a =
     (case a of ArgData d \<Rightarrow> (case take_data d of Some p \<Rightarrow> body p | None \<Rightarrow> panic ''ill-typed'') | _ \<Rightarrow> panic ''ill-typed'')"

definition on_result :: "('e + 'v \<Rightarrow> unit proc) \<Rightarrow> ('v, 'e, 'd) argument \<Rightarrow> unit proc" where
  "on_result body a = (case a of ArgResult r \<Rightarrow> body r | _ \<Rightarrow> panic ''ill-typed'')"

definition v1_bodies :: "tr_env \<Rightarrow> (string \<times> ((v1_rpc, px_error, v1_data) argument \<Rightarrow> unit proc)) list" where
  "v1_bodies E =
     [(''handle_stratum_result'', on_data (\<lambda>d. case d of ResultData p \<Rightarrow> Some p | _ \<Rightarrow> None) (handle_stratum_result E)),
      (''handle_stratum_error'', on_data (\<lambda>d. case d of ErrorData p \<Rightarrow> Some p | _ \<Rightarrow> None) (handle_stratum_error E)),
      (''handle_set_difficulty'',
       on_data (\<lambda>d. case d of RequestData (i, ReqSetDifficulty x) \<Rightarrow> Some (i, x) | _ \<Rightarrow> None) (handle_set_difficulty E)),
      (''handle_set_extranonce'',
       on_data (\<lambda>d. case d of RequestData (i, ReqSetExtranonce x) \<Rightarrow> Some (i, x) | _ \<Rightarrow> None) (handle_set_extranonce E)),
      (''handle_notify'', on_data (\<lambda>d. case d of RequestData (i, ReqNotify x) \<Rightarrow> Some (i, x) | _ \<Rightarrow> None) (handle_notify E)),
      (''handle_set_version_mask'',
       on_data (\<lambda>d. case d of RequestData (i, ReqSetVersionMask x) \<Rightarrow> Some (i, x) | _ \<Rightarrow> None) (handle_set_version_mask E)),
      (''handle_client_reconnect'',
       on_data (\<lambda>d. case d of RequestData (i, ReqClientReconnect x) \<Rightarrow> Some (i, x) | _ \<Rightarrow> None) (handle_client_reconnect E)),
      (''handle_ping'', on_data (\<lambda>d. case d of RequestData (i, ReqPing x) \<Rightarrow> Some (i, x) | _ \<Rightarrow> None) (handle_ping E)),
      (''handle_unknown_v1'', on_result handle_unknown_v1)]"

definition call_body :: "(string \<times> (('v, 'e, 'd) argument \<Rightarrow> unit proc)) list \<Rightarrow> string \<Rightarrow> ('v, 'e, 'd) argument \<Rightarrow> unit proc" where
  "call_body bodies name a = (case map_of bodies name of Some body \<Rightarrow> body a | None \<Rightarrow> panic ''no such method'')"

definition v1_env :: "tr_env \<Rightarrow> (v1_method, v1_rpc, v1_data, px_error, unit proc) dispatch_env" where
  "v1_env E =
     \<lparr>de_id = (\<lambda>ty. case map_of v1_type_ids ty of Some m \<Rightarrow> m | None \<Rightarrow> Subscribe), de_get_id = rpc_get_id,
      de_try_into = (\<lambda>ty rpc. case map_of v1_type_ids ty of
                       Some m \<Rightarrow> map_err PxStratum (v1_convert E m rpc)
                     | None \<Rightarrow> Inl (PxStratum (Panic ''no such conversion''))),
      de_into = (\<lambda>ty rpc. RequestData (None, ReqExtranonceSubscribe)), de_call = call_body (v1_bodies E)\<rparr>"

definition v1_args :: handler_args where "v1_args = async_try_args rpc_ty ''_v1''"

section \<open>Messages of the miner\<close>

definition v2_message_ty :: "string \<Rightarrow> rtype" where "v2_message_ty name = type_path [''v2'', ''messages'', name]"
definition frame_ty :: rtype where "frame_ty = type_path [''v2'', ''framing'', ''Frame'']"

definition v2_methods :: "impl_method list" where
  "v2_methods =
     [async_method [] ''handle_setup_connection'' (v2_message_ty ''SetupConnection''),
      async_method [] ''handle_open_standard_mining_channel'' (v2_message_ty ''OpenStandardMiningChannel''),
      async_method [] ''handle_submit_shares_standard'' (v2_message_ty ''SubmitSharesStandard''),
      async_method [catch_all_attr] ''handle_unknown_v2'' (result_of frame_ty)]"

definition v2_type_kinds :: "(rtype \<times> msg_kind) list" where
  "v2_type_kinds =
     [(v2_message_ty ''SetupConnection'', K_SetupConnection),
      (v2_message_ty ''OpenStandardMiningChannel'', K_OpenStandardMiningChannel),
      (v2_message_ty ''SubmitSharesStandard'', K_SubmitSharesStandard)]"

definition v2_bodies :: "tr_env \<Rightarrow> (string \<times> ((v2_message frame, px_error, v2_message) argument \<Rightarrow> unit proc)) list" where
  "v2_bodies E =
     [(''handle_setup_connection'',
       on_data (\<lambda>d. case d of M_SetupConnection x \<Rightarrow> Some x | _ \<Rightarrow> None) (handle_setup_connection E)),
      (''handle_open_standard_mining_channel'',
       on_data (\<lambda>d. case d of M_OpenStandardMiningChannel x \<Rightarrow> Some x | _ \<Rightarrow> None) (handle_open_standard_mining_channel E)),
      (''handle_submit_shares_standard'',
       on_data (\<lambda>d. case d of M_SubmitSharesStandard x \<Rightarrow> Some x | _ \<Rightarrow> None) (handle_submit_shares_standard E)),
      (''handle_unknown_v2'', on_result (handle_unknown_v2 E))]"

definition v2_env :: "tr_env \<Rightarrow> (u8, v2_message frame, v2_message, px_error, unit proc) dispatch_env" where
  "v2_env E =
     \<lparr>de_id = (\<lambda>ty. case map_of v2_type_kinds ty of Some k \<Rightarrow> msg_id k | None \<Rightarrow> 0), de_get_id = get_id,
      de_try_into = (\<lambda>ty f. case map_of v2_type_kinds ty of
                       Some k \<Rightarrow> map_err PxStratum (message_of_frame k f)
                     | None \<Rightarrow> Inl (PxStratum (Panic ''no such conversion''))),
      de_into = (\<lambda>ty f. M_Reconnect \<lparr>rc_new_host = [], rc_new_port = 0\<rparr>), de_call = call_body (v2_bodies E)\<rparr>"

definition v2_args :: handler_args where "v2_args = async_try_args frame_ty ''_v2''"

section \<open>The conversions\<close>

lemma request_of_rpc_kind: "request_of_rpc L m rpc = Inr (i, r) \<Longrightarrow> request_method r = m"
  by (cases m) (auto simp: request_of_rpc_def request_of_rpc_request_def rbind_def rmap_def map_err_def
      split: v1_rpc.split_asm sum.split_asm if_split_asm)

lemma message_of_frame_kind: "message_of_frame k f = Inr m \<Longrightarrow> kind_of m = k"
  by (auto simp: message_of_frame_def result_simps dest: message_of_bytes_exact)

lemmas block_defs = translation_block_def async_method_def catch_all_attr_def type_path_def result_of_def with_id_def
  async_try_args_def

lemma v1_block_ok: "well_formed_block S v1_args (translation_block v1_methods) v1_methods" "callable_block v1_args v1_methods"
  by (simp_all add: well_formed_block_def callable_block_def v1_methods_def v1_args_def block_defs ty_ret_def pattern_of_def pat_in_def
      is_handle_attr_def HANDLE_ATTR_def is_ok_def catches_all_def param_ty_def)

lemma v2_block_ok: "well_formed_block S v2_args (translation_block v2_methods) v2_methods" "callable_block v2_args v2_methods"
  by (simp_all add: well_formed_block_def callable_block_def v2_methods_def v2_args_def block_defs ty_ret_def pattern_of_def pat_in_def
      is_handle_attr_def HANDLE_ATTR_def is_ok_def catches_all_def param_ty_def)

section \<open>The dispatchers\<close>

lemma async_method_simps [simp]:
  "m_ident (async_method attrs n ty) = n" "param_ty (async_method attrs n ty) = Some ty"
  "handles S args D v (async_method [] n ty) \<longleftrightarrow> de_id D ty = de_get_id D v"
  "\<not> handles S args D v (async_method [catch_all_attr] n ty)"
  "\<not> catches_all S args (async_method [] n ty)"
  by (simp_all add: async_method_def catch_all_attr_def param_ty_def handles_def catches_all_def pattern_of_def pat_in_def
      is_handle_attr_def HANDLE_ATTR_def)

lemma v1_ids:
  "map_of v1_type_ids stratum_result_ty = Some ResultMethod" "map_of v1_type_ids stratum_error_ty = Some ErrorMethod"
  "map_of v1_type_ids (request_ty ''SetDifficulty'') = Some SetDifficulty"
  "map_of v1_type_ids (request_ty ''SetExtranonce'') = Some SetExtranonce"
  "map_of v1_type_ids (request_ty ''Notify'') = Some Notify"
  "map_of v1_type_ids (request_ty ''SetVersionMask'') = Some SetVersionMask"
  "map_of v1_type_ids (request_ty ''ClientReconnect'') = Some ClientReconnect"
  "map_of v1_type_ids (request_ty ''Ping'') = Some Ping"
  by (simp_all add: v1_type_ids_def stratum_result_ty_def stratum_error_ty_def request_ty_def with_id_def type_path_def)

lemma v1_bodies_at:
  "map_of (v1_bodies E) ''handle_stratum_result'' = Some (on_data (\<lambda>d. case d of ResultData p \<Rightarrow> Some p | _ \<Rightarrow> None) (handle_stratum_result E))"
  "map_of (v1_bodies E) ''handle_stratum_error'' = Some (on_data (\<lambda>d. case d of ErrorData p \<Rightarrow> Some p | _ \<Rightarrow> None) (handle_stratum_error E))"
  "map_of (v1_bodies E) ''handle_set_difficulty'' =
     Some (on_data (\<lambda>d. case d of RequestData (i, ReqSetDifficulty x) \<Rightarrow> Some (i, x) | _ \<Rightarrow> None) (handle_set_difficulty E))"
  "map_of (v1_bodies E) ''handle_set_extranonce'' =
     Some (on_data (\<lambda>d. case d of RequestData (i, ReqSetExtranonce x) \<Rightarrow> Some (i, x) | _ \<Rightarrow> None) (handle_set_extranonce E))"
  "map_of (v1_bodies E) ''handle_notify'' =
     Some (on_data (\<lambda>d. case d of RequestData (i, ReqNotify x) \<Rightarrow> Some (i, x) | _ \<Rightarrow> None) (handle_notify E))"
  "map_of (v1_bodies E) ''handle_set_version_mask'' =
     Some (on_data (\<lambda>d. case d of RequestData (i, ReqSetVersionMask x) \<Rightarrow> Some (i, x) | _ \<Rightarrow> None) (handle_set_version_mask E))"
  "map_of (v1_bodies E) ''handle_client_reconnect'' =
     Some (on_data (\<lambda>d. case d of RequestData (i, ReqClientReconnect x) \<Rightarrow> Some (i, x) | _ \<Rightarrow> None) (handle_client_reconnect E))"
  "map_of (v1_bodies E) ''handle_ping'' =
     Some (on_data (\<lambda>d. case d of RequestData (i, ReqPing x) \<Rightarrow> Some (i, x) | _ \<Rightarrow> None) (handle_ping E))"
  "map_of (v1_bodies E) ''handle_unknown_v1'' = Some (on_result handle_unknown_v1)"
  by (simp_all add: v1_bodies_def)

lemma v1_env_simps:
  "de_get_id (v1_env E) = rpc_get_id"
  "map_of v1_type_ids ty = Some m \<Longrightarrow> de_id (v1_env E) ty = m"
  "map_of v1_type_ids ty = Some m \<Longrightarrow> de_try_into (v1_env E) ty rpc = map_err PxStratum (v1_convert E m rpc)"
  "map_of (v1_bodies E) name = Some body \<Longrightarrow> de_call (v1_env E) name = body"
  by (simp_all add: v1_env_def call_body_def fun_eq_iff)

lemma v1_find:
  "find (handles S args (v1_env E) rpc) v1_methods =
     (case rpc_get_id rpc of
        ResultMethod \<Rightarrow> Some (async_method [] ''handle_stratum_result'' stratum_result_ty)
      | ErrorMethod \<Rightarrow> Some (async_method [] ''handle_stratum_error'' stratum_error_ty)
      | SetDifficulty \<Rightarrow> Some (async_method [] ''handle_set_difficulty'' (request_ty ''SetDifficulty''))
      | SetExtranonce \<Rightarrow> Some (async_method [] ''handle_set_extranonce'' (request_ty ''SetExtranonce''))
      | Notify \<Rightarrow> Some (async_method [] ''handle_notify'' (request_ty ''Notify''))
      | SetVersionMask \<Rightarrow> Some (async_method [] ''handle_set_version_mask'' (request_ty ''SetVersionMask''))
      | ClientReconnect \<Rightarrow> Some (async_method [] ''handle_client_reconnect'' (request_ty ''ClientReconnect''))
      | Ping \<Rightarrow> Some (async_method [] ''handle_ping'' (request_ty ''Ping''))
      | _ \<Rightarrow> None)"
  unfolding v1_methods_def find.simps async_method_simps v1_env_simps(1) v1_ids [THEN v1_env_simps(2)]
  by (cases "rpc_get_id rpc") simp_all

lemma v1_use_try: "ha_use_try v1_args"
  by (simp add: v1_args_def async_try_args_def)

lemmas v1_calls = v1_bodies_at [THEN v1_env_simps(4)]
lemmas v1_run = dispatch_def v1_find v1_use_try v1_calls v1_ids [THEN v1_env_simps(3)] v1_convert_def on_data_def on_result_def
  handle_v1_def dispatch_v1_def

lemma v1_dispatch:
  "dispatch S v1_args (v1_env E) v1_methods (async_method [catch_all_attr] ''handle_unknown_v1'' ty) rpc = handle_v1 E rpc"
proof (cases "request_of_rpc (libs E) (rpc_get_id rpc) rpc")
  case (Inl e)
  then show ?thesis by (cases "rpc_get_id rpc") (simp_all add: v1_run split: sum.split)
next
  case (Inr p)
  obtain i r where p: "p = (i, r)" by fastforce
  with Inr have k: "rpc_get_id rpc = request_method r" using request_of_rpc_kind by metis
  from Inr show ?thesis unfolding p k by (cases r) (simp_all add: k v1_run)
qed

lemma v2_ids:
  "map_of v2_type_kinds (v2_message_ty ''SetupConnection'') = Some K_SetupConnection"
  "map_of v2_type_kinds (v2_message_ty ''OpenStandardMiningChannel'') = Some K_OpenStandardMiningChannel"
  "map_of v2_type_kinds (v2_message_ty ''SubmitSharesStandard'') = Some K_SubmitSharesStandard"
  by (simp_all add: v2_type_kinds_def v2_message_ty_def type_path_def)

lemma v2_env_simps:
  "de_get_id (v2_env E) = get_id"
  "map_of v2_type_kinds ty = Some k \<Longrightarrow> de_id (v2_env E) ty = msg_id k"
  "map_of v2_type_kinds ty = Some k \<Longrightarrow> de_try_into (v2_env E) ty f = map_err PxStratum (message_of_frame k f)"
  "map_of (v2_bodies E) name = Some body \<Longrightarrow> de_call (v2_env E) name = body"
  by (simp_all add: v2_env_def call_body_def fun_eq_iff)

lemma v2_bodies_at:
  "map_of (v2_bodies E) ''handle_setup_connection'' =
     Some (on_data (\<lambda>d. case d of M_SetupConnection x \<Rightarrow> Some x | _ \<Rightarrow> None) (handle_setup_connection E))"
  "map_of (v2_bodies E) ''handle_open_standard_mining_channel'' =
     Some (on_data (\<lambda>d. case d of M_OpenStandardMiningChannel x \<Rightarrow> Some x | _ \<Rightarrow> None) (handle_open_standard_mining_channel E))"
  "map_of (v2_bodies E) ''handle_submit_shares_standard'' =
     Some (on_data (\<lambda>d. case d of M_SubmitSharesStandard x \<Rightarrow> Some x | _ \<Rightarrow> None) (handle_submit_shares_standard E))"
  "map_of (v2_bodies E) ''handle_unknown_v2'' = Some (on_result (handle_unknown_v2 E))"
  by (simp_all add: v2_bodies_def)

lemma v2_find:
  "find (handles S args (v2_env E) f) v2_methods =
     (if get_id f = msg_id K_SetupConnection
      then Some (async_method [] ''handle_setup_connection'' (v2_message_ty ''SetupConnection''))
      else if get_id f = msg_id K_OpenStandardMiningChannel
      then Some (async_method [] ''handle_open_standard_mining_channel'' (v2_message_ty ''OpenStandardMiningChannel''))
      else if get_id f = msg_id K_SubmitSharesStandard
      then Some (async_method [] ''handle_submit_shares_standard'' (v2_message_ty ''SubmitSharesStandard''))
      else None)"
  unfolding v2_methods_def find.simps async_method_simps v2_env_simps(1) v2_ids [THEN v2_env_simps(2)]
  by (simp only: eq_commute [of "msg_id k" "get_id f" for k]) simp

lemma v2_use_try: "ha_use_try v2_args"
  by (simp add: v2_args_def async_try_args_def)

text \<open>What the method for a type makes of a message, in one step.\<close>

lemma dispatch_found:
  assumes "find (handles S args D v) ms = Some (async_method [] n ty)" and "ha_use_try args"
  shows "dispatch S args D ms (async_method a c cty) v =
    (case de_try_into D ty v of Inr x \<Rightarrow> de_call D n (ArgData x) | Inl e \<Rightarrow> de_call D c (ArgResult (Inl e)))"
  using assms by (simp add: dispatch_def split: sum.split)

lemma v2_found:
  assumes "map_of v2_type_kinds ty = Some k" and "\<And>d. kind_of d = k \<Longrightarrow> de_call (v2_env E) n (ArgData d) = handle_message_v2 E f d"
  shows "(case de_try_into (v2_env E) ty f of
      Inr d \<Rightarrow> de_call (v2_env E) n (ArgData d)
    | Inl e \<Rightarrow> de_call (v2_env E) ''handle_unknown_v2'' (ArgResult (Inl e))) = dispatch_v2 E k f"
  using assms message_of_frame_kind [of k f]
  by (auto simp: v2_env_simps(3) v2_bodies_at [THEN v2_env_simps(4)] on_result_def dispatch_v2_def split: sum.split)

lemma v2_dispatch:
  "dispatch S v2_args (v2_env E) v2_methods (async_method [catch_all_attr] ''handle_unknown_v2'' ty) f = handle_v2 E f"
proof -
  have c1: "de_call (v2_env E) ''handle_setup_connection'' (ArgData d) = handle_message_v2 E f d" if "kind_of d = K_SetupConnection" for d
    using that by (cases d) (simp_all add: v2_bodies_at [THEN v2_env_simps(4)] on_data_def)
  have c2: "de_call (v2_env E) ''handle_open_standard_mining_channel'' (ArgData d) = handle_message_v2 E f d"
    if "kind_of d = K_OpenStandardMiningChannel" for d
    using that by (cases d) (simp_all add: v2_bodies_at [THEN v2_env_simps(4)] on_data_def)
  have c3: "de_call (v2_env E) ''handle_submit_shares_standard'' (ArgData d) = handle_message_v2 E f d"
    if "kind_of d = K_SubmitSharesStandard" for d
    using that by (cases d) (simp_all add: v2_bodies_at [THEN v2_env_simps(4)] on_data_def)
  note found = dispatch_found [OF _ v2_use_try, where D = "v2_env E" and ms = v2_methods]
  consider (conn) "get_id f = msg_id K_SetupConnection"
    | (channel) "get_id f \<noteq> msg_id K_SetupConnection" "get_id f = msg_id K_OpenStandardMiningChannel"
    | (share) "get_id f \<noteq> msg_id K_SetupConnection" "get_id f \<noteq> msg_id K_OpenStandardMiningChannel"
        "get_id f = msg_id K_SubmitSharesStandard"
    | (other) "get_id f \<noteq> msg_id K_SetupConnection" "get_id f \<noteq> msg_id K_OpenStandardMiningChannel"
        "get_id f \<noteq> msg_id K_SubmitSharesStandard" by blast
  then show ?thesis
  proof cases
    case conn
    then show ?thesis by (subst found, simp only: v2_find if_True) (simp add: v2_found [OF v2_ids(1) c1] handle_v2_def)
  next
    case channel
    then show ?thesis
      by (subst found, simp only: v2_find if_True if_False) (simp add: v2_found [OF v2_ids(2) c2] handle_v2_def)
  next
    case share
    then show ?thesis
      by (subst found, simp only: v2_find if_True if_False) (simp add: v2_found [OF v2_ids(3) c3] handle_v2_def)
  next
    case other
    then show ?thesis
      by (simp add: dispatch_def v2_find v2_use_try handle_v2_def v2_bodies_at(4) [THEN v2_env_simps(4)] on_result_def)
  qed
qed

section \<open>Properties\<close>

text \<open>
  C18. The dispatch of the translation is what its macro generates. The macro accepts both blocks of
  \<open>translation.rs\<close> and makes the methods \<open>handle_v1\<close> and \<open>handle_v2\<close>; for every message of the pool and every frame of the
  miner, running the expansion is the dispatcher of the translation, of which the connection properties speak.
\<close>

theorem translation_dispatch:
  "(\<exists>item. item_of S v1_args (translation_block v1_methods) = Inr item \<and> gi_fn (snd (handler_expand item)) = ''handle_v1'' \<and>
     run_handle (v1_env E) (handler_expand item) rpc = Some (handle_v1 E rpc)) \<and>
   (\<exists>item. item_of S v2_args (translation_block v2_methods) = Inr item \<and> gi_fn (snd (handler_expand item)) = ''handle_v2'' \<and>
     run_handle (v2_env E) (handler_expand item) f = Some (handle_v2 E f))"
proof
  let ?c = "async_method [catch_all_attr] ''handle_unknown_v1'' (result_of rpc_ty)"
  have one: "c = ?c" if "c \<in> set v1_methods" "catches_all S v1_args c" for c
    using that by (auto simp: v1_methods_def)
  have "gi_fn (snd (handler_expand (item_for S v1_args (translation_block v1_methods) v1_methods))) = ''handle_v1''"
    by (simp add: handler_expand_def item_for_def v1_args_def async_try_args_def async_handler_impl_def with_suffix_def)
  moreover have "run_handle (v1_env E) (handler_expand (item_for S v1_args (translation_block v1_methods) v1_methods)) rpc = Some (handle_v1 E rpc)"
    using expansion_dispatches [OF v1_block_ok(1) [of S] v1_block_ok(2), of "v1_env E" rpc] one v1_dispatch by fastforce
  ultimately show "\<exists>item. item_of S v1_args (translation_block v1_methods) = Inr item \<and> gi_fn (snd (handler_expand item)) = ''handle_v1'' \<and>
      run_handle (v1_env E) (handler_expand item) rpc = Some (handle_v1 E rpc)"
    using item_of_ok v1_block_ok(1) by blast
next
  let ?c = "async_method [catch_all_attr] ''handle_unknown_v2'' (result_of frame_ty)"
  have one: "c = ?c" if "c \<in> set v2_methods" "catches_all S v2_args c" for c
    using that by (auto simp: v2_methods_def)
  have "gi_fn (snd (handler_expand (item_for S v2_args (translation_block v2_methods) v2_methods))) = ''handle_v2''"
    by (simp add: handler_expand_def item_for_def v2_args_def async_try_args_def async_handler_impl_def with_suffix_def)
  moreover have "run_handle (v2_env E) (handler_expand (item_for S v2_args (translation_block v2_methods) v2_methods)) f = Some (handle_v2 E f)"
    using expansion_dispatches [OF v2_block_ok(1) [of S] v2_block_ok(2), of "v2_env E" f] one v2_dispatch by fastforce
  ultimately show "\<exists>item. item_of S v2_args (translation_block v2_methods) = Inr item \<and> gi_fn (snd (handler_expand item)) = ''handle_v2'' \<and>
      run_handle (v2_env E) (handler_expand item) f = Some (handle_v2 E f)"
    using item_of_ok v2_block_ok(1) by blast
qed

end
