(* ===== verification/Noise_Auth.thy ===== *)
theory Noise_Auth
  imports V1_Messages
begin

text \<open>
  \<open>protocols/stratum/src/v2/noise/auth.rs\<close> and \<open>auth/formats.rs\<close>: the certificate by which an authority
  vouches for the static key of a server, the message that carries its signature inside the
  handshake, and the files in which keys, certificates and the security bundle are kept.

  Keys and signatures are their bytes. Outside the source, and hence fields of \<open>noise_libs\<close>: the
  signatures of \<open>ed25519_dalek\<close> with the serde form of its public keys, Base58 with checksum
  (\<open>bs58\<close>), X25519, the JSON parser and printer, and the text of a time. A \<open>SystemTime\<close> is the number of
  nanoseconds since the Unix epoch.
\<close>

section \<open>Libraries\<close>

type_synonym system_time = int

record auth_keypair =
  kp_public :: bytes
  kp_secret :: bytes

record noise_libs =
  verify_strict :: "bytes \<Rightarrow> bytes \<Rightarrow> bytes \<Rightarrow> string + unit"
  dalek_sign :: "auth_keypair \<Rightarrow> bytes \<Rightarrow> bytes"
  public_key_sval :: "bytes \<Rightarrow> sval"
  public_key_from_bytes :: "bytes \<Rightarrow> string + bytes"
  secret_key_from_bytes :: "bytes \<Rightarrow> string + bytes"
  signature_from_bytes :: "bytes \<Rightarrow> string + bytes"
  b58_encode :: "bytes \<Rightarrow> bytes"
  b58_decode :: "bytes \<Rightarrow> string + bytes"
  x25519_base :: "bytes \<Rightarrow> bytes"
  json_parse :: "bytes \<Rightarrow> string + json_value"
  json_print :: "json_value \<Rightarrow> bytes"
  fmt_time :: "system_time \<Rightarrow> string"

section \<open>Validity\<close>

record signed_part_header =
  sph_version :: u16
  sph_valid_from :: u32
  sph_not_valid_after :: u32

definition SIGNED_PART_VERSION :: u16 where "SIGNED_PART_VERSION = 0"

definition signed_part_header_new :: "u32 \<Rightarrow> u32 \<Rightarrow> signed_part_header" where
  "signed_part_header_new from_time until =
     \<lparr>sph_version = SIGNED_PART_VERSION, sph_valid_from = from_time, sph_not_valid_after = until\<rparr>"

text \<open>\<open>duration_since\<close> fails before the epoch; \<open>as_secs() as u32\<close> keeps the low 32 bits.\<close>

definition system_time_to_unix_time_u32 :: "noise_libs \<Rightarrow> system_time \<Rightarrow> stratum_error + u32" where
  "system_time_to_unix_time_u32 L t =
     (if t < 0
      then Inl (Noise (''Cannot convert system time to unix timestamp: '' @ fmt_time L t))
      else Inr (of_int (t div 10 ^ 9)))"

definition unix_time_u32_to_system_time :: "u32 \<Rightarrow> system_time" where
  "unix_time_u32_to_system_time unix_timestamp = uint unix_timestamp * 10 ^ 9"

text \<open>The sum of a \<open>SystemTime\<close> and a \<open>Duration\<close> panics, here \<open>None\<close>, when its seconds do not fit 63 bits.\<close>

definition with_duration :: "noise_libs \<Rightarrow> system_time \<Rightarrow> int \<Rightarrow> (stratum_error + signed_part_header) option" where
  "with_duration L now valid_for =
     (let not_valid_after = now + valid_for in
      if 2 ^ 63 \<le> not_valid_after div 10 ^ 9 then None
      else Some (
        rbind (system_time_to_unix_time_u32 L now) (\<lambda>from_time.
        rbind (system_time_to_unix_time_u32 L not_valid_after) (\<lambda>until.
        Inr (signed_part_header_new from_time until)))))"

definition dec_string :: "nat \<Rightarrow> string" where
  "dec_string n = map (\<lambda>b. char_of (unat b)) (dec_bytes n)"

definition verify_expiration :: "noise_libs \<Rightarrow> signed_part_header \<Rightarrow> system_time \<Rightarrow> stratum_error + system_time" where
  "verify_expiration L h now =
     rbind (system_time_to_unix_time_u32 L now) (\<lambda>now_timestamp.
       if now_timestamp < sph_valid_from h
       then Inl (Noise (''Certificate not yet valid, valid from: '' @ dec_string (unat (sph_valid_from h)) @
                        '', now: '' @ fmt_time L now))
       else if sph_not_valid_after h < now_timestamp
       then Inl (Noise (''Certificate expired, not valid after: '' @ dec_string (unat (sph_valid_from h)) @
                        '', now: '' @ fmt_time L now))
       else Inr (unix_time_u32_to_system_time (sph_not_valid_after h)))"

section \<open>Signing\<close>

record signed_part =
  sp_header :: signed_part_header
  sp_pubkey :: bytes
  sp_authority_public_key :: bytes

definition sv_header :: "signed_part_header \<Rightarrow> sval" where
  "sv_header h = VStruct ''SignedPartHeader''
     [VU16 (sph_version h), VU32 (sph_valid_from h), VU32 (sph_not_valid_after h)]"

text \<open>A \<open>Vec<u8>\<close> and a slice of bytes are sequences to serde.\<close>

definition sv_vec_u8 :: "bytes \<Rightarrow> sval" where
  "sv_vec_u8 b = VSeq (Some (length b)) (map VU8 b)"

definition sv_signed_part :: "noise_libs \<Rightarrow> signed_part \<Rightarrow> sval" where
  "sv_signed_part L p = VStruct ''SignedPart''
     [sv_header (sp_header p), sv_vec_u8 (sp_pubkey p), public_key_sval L (sp_authority_public_key p)]"

definition serialize_to_buf :: "noise_libs \<Rightarrow> signed_part \<Rightarrow> stratum_error + bytes" where
  "serialize_to_buf L p = map_err V2Serialization (to_vec (sv_signed_part L p))"

definition sign_with :: "noise_libs \<Rightarrow> signed_part \<Rightarrow> auth_keypair \<Rightarrow> stratum_error + bytes" where
  "sign_with L p keypair =
     (if kp_public keypair \<noteq> sp_authority_public_key p then Inl (Panic ''BUG: Signing Authority public key'')
      else rmap (dalek_sign L keypair) (serialize_to_buf L p))"

definition verify_signed_part :: "noise_libs \<Rightarrow> signed_part \<Rightarrow> bytes \<Rightarrow> stratum_error + unit" where
  "verify_signed_part L p signature =
     rbind (serialize_to_buf L p)
       (\<lambda>buf. map_err NoiseSignature (verify_strict L (sp_authority_public_key p) buf signature))"

section \<open>The message in the handshake\<close>

record signature_noise_message =
  snm_header :: signed_part_header
  snm_signature :: bytes

text \<open>
  \<open>sig_serialize\<close> hands the 64 bytes over as a sequence, \<open>sig_deserialize\<close> asks for a byte string.
\<close>

definition sv_signature_message :: "signature_noise_message \<Rightarrow> sval" where
  "sv_signature_message m = VStruct ''SignatureNoiseMessage''
     [sv_header (snm_header m), sv_vec_u8 (snm_signature m)]"

definition serialize_to_bytes_mut :: "signature_noise_message \<Rightarrow> stratum_error + bytes" where
  "serialize_to_bytes_mut m = map_err V2Serialization (to_vec (sv_signature_message m))"

definition read_header :: "signed_part_header reader" where
  "read_header =
     rd_bind read_u16 (\<lambda>v. rd_bind read_u32 (\<lambda>f. rd_map (\<lambda>t.
       \<lparr>sph_version = v, sph_valid_from = f, sph_not_valid_after = t\<rparr>) read_u32))"

definition sig_deserialize :: "noise_libs \<Rightarrow> bytes reader" where
  "sig_deserialize L =
     rd_bind (read_len LenU16) (\<lambda>sz. rd_bind (read_bytes sz) (\<lambda>v.
       case signature_from_bytes L v of Inl e \<Rightarrow> rd_fail (Custom e) | Inr s \<Rightarrow> rd_ret s))"

text \<open>\<open>from_slice\<close> for a type whose reader is not one of the data model alone.\<close>

definition read_slice :: "'a reader \<Rightarrow> bytes \<Rightarrow> ser_error + 'a" where
  "read_slice p bs = rbind (p bs) (\<lambda>(v, rest). if rest = [] then Inr v else Inl TrailingBytes)"

definition signature_message_try_from :: "noise_libs \<Rightarrow> bytes \<Rightarrow> stratum_error + signature_noise_message" where
  "signature_message_try_from L data =
     map_err V2Serialization (read_slice
       (rd_bind read_header (\<lambda>h. rd_map (\<lambda>s. \<lparr>snm_header = h, snm_signature = s\<rparr>) (sig_deserialize L))) data)"

section \<open>Certificates\<close>

record certificate =
  signed_part_header :: signed_part_header
  cert_public_key :: bytes
  cert_authority_public_key :: bytes
  cert_signature :: bytes

definition certificate_new :: "signed_part \<Rightarrow> bytes \<Rightarrow> certificate" where
  "certificate_new p signature =
     \<lparr>signed_part_header = sp_header p, cert_public_key = sp_pubkey p,
      cert_authority_public_key = sp_authority_public_key p, cert_signature = signature\<rparr>"

definition certificate_part :: "certificate \<Rightarrow> signed_part" where
  "certificate_part c =
     \<lparr>sp_header = signed_part_header c, sp_pubkey = cert_public_key c,
      sp_authority_public_key = cert_authority_public_key c\<rparr>"

definition validate_certificate :: "noise_libs \<Rightarrow> certificate \<Rightarrow> system_time \<Rightarrow> stratum_error + system_time" where
  "validate_certificate L c now =
     rbind (verify_signed_part L (certificate_part c) (cert_signature c))
       (\<lambda>_. verify_expiration L (signed_part_header c) now)"

definition from_noise_message :: "signature_noise_message \<Rightarrow> bytes \<Rightarrow> bytes \<Rightarrow> certificate" where
  "from_noise_message m pubkey authority =
     certificate_new
       \<lparr>sp_header = snm_header m, sp_pubkey = pubkey, sp_authority_public_key = authority\<rparr> (snm_signature m)"

definition build_noise_message :: "certificate \<Rightarrow> signature_noise_message" where
  "build_noise_message c = \<lparr>snm_header = signed_part_header c, snm_signature = cert_signature c\<rparr>"

section \<open>Files\<close>

text \<open>
  \<open>impl_basic_type!\<close>, \<open>generate_ed25519_structs!\<close> and \<open>generate_noise_keypair_structs!\<close>: a key or
  signature is a Base58 string, in a file the only field of an object. \<open>from_bytes\<close> is the
  conversion of the wrapped type; for the noise keys it is \<open>Inr\<close>.
\<close>

definition encoded_into_string :: "noise_libs \<Rightarrow> bytes \<Rightarrow> bytes" where
  "encoded_into_string L v = b58_encode L v"

definition encoded_try_from :: "noise_libs \<Rightarrow> (bytes \<Rightarrow> string + bytes) \<Rightarrow> bytes \<Rightarrow> stratum_error + bytes" where
  "encoded_try_from L from_bytes s =
     rbind (map_err NoiseEncoding (b58_decode L s)) (\<lambda>b. map_err NoiseSignature (from_bytes b))"

text \<open>
  What a derived \<open>Deserialize\<close> makes of a JSON value: an object with every field exactly once and
  any others ignored, or an array of the fields in order.
\<close>

definition json_field :: "(bytes \<times> json_value) list \<Rightarrow> string \<Rightarrow> string + json_value" where
  "json_field m name =
     (case filter (\<lambda>e. fst e = ascii name) m of
        [] \<Rightarrow> Inl (''missing field '' @ name)
      | [e] \<Rightarrow> Inr (snd e)
      | _ \<Rightarrow> Inl (''duplicate field '' @ name))"

fun json_fields :: "(bytes \<times> json_value) list \<Rightarrow> string list \<Rightarrow> string + json_value list" where
  "json_fields m [] = Inr []"
| "json_fields m (name # names) = rbind (json_field m name) (\<lambda>v. rmap (Cons v) (json_fields m names))"

definition json_struct :: "string list \<Rightarrow> json_value \<Rightarrow> string + json_value list" where
  "json_struct names v =
     (case v of
        JObject m \<Rightarrow> json_fields m names
      | JArray vs \<Rightarrow> if length vs = length names then Inr vs else Inl ''invalid length''
      | _ \<Rightarrow> Inl ''invalid type'')"

definition json_uint :: "nat \<Rightarrow> json_value \<Rightarrow> string + nat" where
  "json_uint bits v =
     (case v of
        JNumber (PosInt n) \<Rightarrow> if unat n < 2 ^ bits then Inr (unat n) else Inl ''invalid value''
      | _ \<Rightarrow> Inl ''invalid type'')"

definition encoded_of_json ::
    "noise_libs \<Rightarrow> (stratum_error \<Rightarrow> string) \<Rightarrow> (bytes \<Rightarrow> string + bytes) \<Rightarrow> json_value \<Rightarrow> string + bytes" where
  "encoded_of_json L show_err from_bytes v =
     (case v of
        JString s \<Rightarrow> map_err show_err (encoded_try_from L from_bytes s)
      | _ \<Rightarrow> Inl ''invalid type'')"

definition format_to_json :: "noise_libs \<Rightarrow> string \<Rightarrow> bytes \<Rightarrow> json_value" where
  "format_to_json L name b = JObject [(ascii name, JString (encoded_into_string L b))]"

definition format_of_json ::
    "noise_libs \<Rightarrow> (stratum_error \<Rightarrow> string) \<Rightarrow> string \<Rightarrow> (bytes \<Rightarrow> string + bytes) \<Rightarrow> json_value \<Rightarrow> string + bytes" where
  "format_of_json L show_err name from_bytes v =
     rbind (json_struct [name] v) (\<lambda>vs. encoded_of_json L show_err from_bytes (hd vs))"

definition header_to_json :: "signed_part_header \<Rightarrow> json_value" where
  "header_to_json h = JObject
     [(ascii ''version'', JNumber (PosInt (ucast (sph_version h)))),
      (ascii ''valid_from'', JNumber (PosInt (ucast (sph_valid_from h)))),
      (ascii ''not_valid_after'', JNumber (PosInt (ucast (sph_not_valid_after h))))]"

definition header_of_json :: "json_value \<Rightarrow> string + signed_part_header" where
  "header_of_json v =
     rbind (json_struct [''version'', ''valid_from'', ''not_valid_after''] v) (\<lambda>vs.
     rbind (json_uint 16 (vs ! 0)) (\<lambda>ver. rbind (json_uint 32 (vs ! 1)) (\<lambda>f. rbind (json_uint 32 (vs ! 2)) (\<lambda>t.
     Inr \<lparr>sph_version = of_nat ver, sph_valid_from = of_nat f, sph_not_valid_after = of_nat t\<rparr>))))"

definition certificate_to_json :: "noise_libs \<Rightarrow> certificate \<Rightarrow> json_value" where
  "certificate_to_json L c = JObject
     [(ascii ''signed_part_header'', header_to_json (signed_part_header c)),
      (ascii ''public_key'', format_to_json L ''noise_public_key'' (cert_public_key c)),
      (ascii ''authority_public_key'', format_to_json L ''ed25519_public_key'' (cert_authority_public_key c)),
      (ascii ''signature'', format_to_json L ''ed25519_signature'' (cert_signature c))]"

definition certificate_of_json :: "noise_libs \<Rightarrow> (stratum_error \<Rightarrow> string) \<Rightarrow> json_value \<Rightarrow> string + certificate" where
  "certificate_of_json L show_err v =
     rbind (json_struct [''signed_part_header'', ''public_key'', ''authority_public_key'', ''signature''] v) (\<lambda>vs.
     rbind (header_of_json (vs ! 0)) (\<lambda>h.
     rbind (format_of_json L show_err ''noise_public_key'' Inr (vs ! 1)) (\<lambda>pk.
     rbind (format_of_json L show_err ''ed25519_public_key'' (public_key_from_bytes L) (vs ! 2)) (\<lambda>ca.
     rbind (format_of_json L show_err ''ed25519_signature'' (signature_from_bytes L) (vs ! 3)) (\<lambda>s.
     Inr \<lparr>signed_part_header = h, cert_public_key = pk, cert_authority_public_key = ca, cert_signature = s\<rparr>)))))"

definition certificate_try_from ::
    "noise_libs \<Rightarrow> (stratum_error \<Rightarrow> string) \<Rightarrow> bytes \<Rightarrow> stratum_error + certificate" where
  "certificate_try_from L show_err s =
     map_err Serde (rbind (json_parse L s) (certificate_of_json L show_err))"

definition certificate_into_string :: "noise_libs \<Rightarrow> certificate \<Rightarrow> bytes" where
  "certificate_into_string L c = json_print L (certificate_to_json L c)"

section \<open>The bundle of a server\<close>

record server_security_bundle =
  ssb_certificate :: certificate
  ssb_secret_key :: bytes

text \<open>\<open>copy_from_slice\<close> into an array of 32 bytes panics on any other length.\<close>

definition validate_secret_key :: "noise_libs \<Rightarrow> server_security_bundle \<Rightarrow> stratum_error + unit" where
  "validate_secret_key L b =
     (if length (ssb_secret_key b) \<noteq> 32 then Inl (Panic ''source slice length does not match destination slice length'')
      else if x25519_base L (ssb_secret_key b) = cert_public_key (ssb_certificate b) then Inr ()
      else Inl (Noise ''Inconsistent secret and public key in security bundle''))"

definition bundle_new :: "noise_libs \<Rightarrow> certificate \<Rightarrow> bytes \<Rightarrow> stratum_error + server_security_bundle" where
  "bundle_new L c secret_key =
     (let bundle = \<lparr>ssb_certificate = c, ssb_secret_key = secret_key\<rparr>
      in rmap (\<lambda>_. bundle) (validate_secret_key L bundle))"

definition bundle_to_json :: "noise_libs \<Rightarrow> server_security_bundle \<Rightarrow> json_value" where
  "bundle_to_json L b = JObject
     [(ascii ''certificate'', certificate_to_json L (ssb_certificate b)),
      (ascii ''secret_key'', format_to_json L ''noise_secret_key'' (ssb_secret_key b))]"

definition bundle_of_json :: "noise_libs \<Rightarrow> (stratum_error \<Rightarrow> string) \<Rightarrow> json_value \<Rightarrow> string + server_security_bundle" where
  "bundle_of_json L show_err v =
     rbind (json_struct [''certificate'', ''secret_key''] v) (\<lambda>vs.
     rbind (certificate_of_json L show_err (vs ! 0)) (\<lambda>c.
     rbind (format_of_json L show_err ''noise_secret_key'' Inr (vs ! 1)) (\<lambda>k.
     Inr \<lparr>ssb_certificate = c, ssb_secret_key = k\<rparr>)))"

definition read_from_string ::
    "noise_libs \<Rightarrow> (stratum_error \<Rightarrow> string) \<Rightarrow> bytes \<Rightarrow> stratum_error + server_security_bundle" where
  "read_from_string L show_err raw =
     rbind (map_err Serde (rbind (json_parse L raw) (bundle_of_json L show_err)))
       (\<lambda>bundle. rmap (\<lambda>_. bundle) (validate_secret_key L bundle))"

definition read_from_strings ::
    "noise_libs \<Rightarrow> (stratum_error \<Rightarrow> string) \<Rightarrow> bytes \<Rightarrow> bytes \<Rightarrow> stratum_error + server_security_bundle" where
  "read_from_strings L show_err cert key =
     rbind (map_err Serde (rbind (json_parse L cert) (certificate_of_json L show_err))) (\<lambda>c.
     rbind (map_err Serde (rbind (json_parse L key) (format_of_json L show_err ''noise_secret_key'' Inr))) (\<lambda>k.
     bundle_new L c k))"

definition validate_by_time :: "noise_libs \<Rightarrow> server_security_bundle \<Rightarrow> system_time \<Rightarrow> stratum_error + system_time" where
  "validate_by_time L b now =
     map_err (\<lambda>_. Noise ''Time validation failed'') (validate_certificate L (ssb_certificate b) now)"

section \<open>Expiration\<close>

lemma unix_time_below:
  assumes "0 \<le> t" and "t < 2 ^ 32 * 10 ^ 9"
  shows "system_time_to_unix_time_u32 L t = Inr (of_int (t div 10 ^ 9)) \<and>
    uint (of_int (t div 10 ^ 9) :: u32) = t div 10 ^ 9"
proof -
  have "0 \<le> t div 10 ^ 9" "t div 10 ^ 9 < 2 ^ 32" using assms by simp_all
  then show ?thesis using assms by (simp add: system_time_to_unix_time_u32_def uint_word_of_int)
qed

lemma verify_expiration_iff:
  assumes "0 \<le> now" and "now < 2 ^ 32 * 10 ^ 9"
  shows "is_ok (verify_expiration L h now) \<longleftrightarrow>
    uint (sph_valid_from h) \<le> now div 10 ^ 9 \<and> now div 10 ^ 9 \<le> uint (sph_not_valid_after h)"
  using unix_time_below [OF assms, of L]
  by (auto simp: verify_expiration_def word_less_def is_ok_iff)

lemma verify_expiration_ok:
  "verify_expiration L h now = Inr t \<Longrightarrow> t = unix_time_u32_to_system_time (sph_not_valid_after h)"
  by (auto simp: verify_expiration_def result_simps split: if_splits)

section \<open>Serialized forms\<close>

lemma has_tys_bytes: "has_tys (map VU8 b) (replicate (length b) TU8)"
  by (induction b) simp_all

definition ty_signed_part :: sty where
  "ty_signed_part = TStruct ''SignedPart'' [TStruct ''SignedPartHeader'' [TU16, TU32, TU32], TSeq TU8, TBytes]"

text \<open>A key of the authority is written as a byte string.\<close>

definition key_format :: "noise_libs \<Rightarrow> bool" where
  "key_format L \<longleftrightarrow> (\<forall>k. length k = 32 \<longrightarrow> public_key_sval L k = VBytes k)"

definition wf_signed_part :: "signed_part \<Rightarrow> bool" where
  "wf_signed_part p \<longleftrightarrow> length (sp_pubkey p) < 65536 \<and> length (sp_authority_public_key p) = 32"

lemma signed_part_ty:
  "key_format L \<Longrightarrow> wf_signed_part p \<Longrightarrow> has_ty (sv_signed_part L p) ty_signed_part"
  by (simp add: key_format_def wf_signed_part_def sv_signed_part_def ty_signed_part_def sv_header_def
      sv_vec_u8_def has_tys_bytes)

lemma serialize_to_buf_wf:
  "key_format L \<Longrightarrow> wf_signed_part p \<Longrightarrow> serialize_to_buf L p = Inr (serialized (sv_signed_part L p))"
  using serialize_has_ty [OF signed_part_ty] by (simp add: serialize_to_buf_def to_vec_def)

lemma sv_signed_part_inject:
  assumes "key_format L" and "wf_signed_part p" and "wf_signed_part q"
    and "sv_signed_part L p = sv_signed_part L q"
  shows "p = q"
proof -
  have "map VU8 (sp_pubkey p) = map VU8 (sp_pubkey q) \<Longrightarrow> sp_pubkey p = sp_pubkey q"
    by (rule injD [OF inj_mapI]) (auto intro: injI)
  with assms show ?thesis
    by (cases p; cases q; cases "sp_header p"; cases "sp_header q")
      (auto simp: sv_signed_part_def sv_header_def sv_vec_u8_def key_format_def wf_signed_part_def)
qed

text \<open>What is signed determines what was signed.\<close>

lemma serialize_to_buf_inject:
  assumes "key_format L" and "wf_signed_part p" and "wf_signed_part q"
    and "serialize_to_buf L p = Inr b" and "serialize_to_buf L q = Inr b"
  shows "p = q"
proof -
  have "serialized (sv_signed_part L p) @ [] = serialized (sv_signed_part L q) @ []"
    using assms serialize_to_buf_wf by simp
  from v2_value.prefix_free [OF signed_part_ty signed_part_ty this] assms(1-3)
  have "sv_signed_part L p = sv_signed_part L q" by blast
  with assms(1-3) show ?thesis by (rule sv_signed_part_inject)
qed

lemma writes_header: "writes (serialize (sv_header h)) read_header h"
proof -
  have "writes (and_write (serialize_u16 (sph_version h)) (and_write (serialize_u32 (sph_valid_from h))
      (serialize_u32 (sph_not_valid_after h)))) read_header h"
    unfolding read_header_def
    by (intro writes_bind [OF writes_u16] writes_bind [OF writes_u32] writes_map_eq [OF writes_u32]) simp
  moreover have "serialize (sv_header h) = and_write (serialize_u16 (sph_version h))
      (and_write (serialize_u32 (sph_valid_from h)) (serialize_u32 (sph_not_valid_after h)))"
    by (simp add: sv_header_def and_write_def serialize_u16_def serialize_u32_def write_all_def)
  ultimately show ?thesis by simp
qed

lemma serialize_vec_u8: "serialize_all (map VU8 b) = Inr b"
  by (induction b) (simp_all add: serialize_u8_def write_all_def and_write_def)

lemma writes_signature:
  assumes "length s < 65536" and "signature_from_bytes L s = Inr s"
  shows "writes (serialize (sv_vec_u8 s)) (sig_deserialize L) s"
proof -
  have "writes (and_write (serialize_len LenU16 (length s)) (write_all s)) (sig_deserialize L) s"
    unfolding sig_deserialize_def using assms
    by (intro writes_bind_len writes_bind_nil [OF writes_read_bytes]) (simp_all add: len_cap_def)
  moreover have "serialize (sv_vec_u8 s) = and_write (serialize_len LenU16 (length s)) (write_all s)"
    by (simp add: sv_vec_u8_def serialize_vec_u8 write_all_def)
  ultimately show ?thesis by simp
qed

lemma read_slice_reads: "reads p bs x \<Longrightarrow> read_slice p bs = Inr x"
  by (auto simp: reads_def read_slice_def dest: spec [of _ "[]"])

lemma signature_message_roundtrip:
  assumes "length (snm_signature m) < 65536" and "signature_from_bytes L (snm_signature m) = Inr (snm_signature m)"
  shows "\<exists>b. serialize_to_bytes_mut m = Inr b \<and> signature_message_try_from L b = Inr m \<and>
    length b = 12 + length (snm_signature m)"
proof -
  have "writes (and_write (serialize (sv_header (snm_header m))) (serialize (sv_vec_u8 (snm_signature m))))
      (rd_bind read_header (\<lambda>h. rd_map (\<lambda>s. \<lparr>snm_header = h, snm_signature = s\<rparr>) (sig_deserialize L))) m"
    by (intro writes_bind [OF writes_header] writes_map_eq [OF writes_signature [OF assms]]) simp
  moreover have "to_vec (sv_signature_message m) =
      and_write (serialize (sv_header (snm_header m))) (serialize (sv_vec_u8 (snm_signature m)))"
    by (auto simp: to_vec_def sv_signature_message_def and_write_def rbind_def rmap_def split: sum.splits)
  moreover have "to_vec (sv_signature_message m) = Inr b \<Longrightarrow> length b = 12 + length (snm_signature m)" for b
    using assms(1)
    by (auto simp: to_vec_def sv_signature_message_def sv_header_def sv_vec_u8_def serialize_vec_u8 and_write_def
        serialize_u16_def serialize_u32_def serialize_len_def u16_try_from_def write_all_def)
  ultimately show ?thesis
    by (auto simp: writes_def serialize_to_bytes_mut_def signature_message_try_from_def dest: read_slice_reads)
qed

section \<open>Certificates end to end\<close>

text \<open>A key pair as \<open>ed25519_dalek\<close> makes it: what it signs is verified and read back.\<close>

definition keypair_ok :: "noise_libs \<Rightarrow> auth_keypair \<Rightarrow> bool" where
  "keypair_ok L kp \<longleftrightarrow>
     length (kp_public kp) = 32 \<and>
     (\<forall>m. length (dalek_sign L kp m) = 64 \<and> signature_from_bytes L (dalek_sign L kp m) = Inr (dalek_sign L kp m) \<and>
          verify_strict L (kp_public kp) m (dalek_sign L kp m) = Inr ())"

lemma signed_certificate:
  assumes "key_format L" and "keypair_ok L kp" and "wf_signed_part p" and "sp_authority_public_key p = kp_public kp"
  shows "\<exists>signature. sign_with L p kp = Inr signature \<and> length signature = 64 \<and>
    signature_from_bytes L signature = Inr signature \<and> verify_signed_part L p signature = Inr ()"
  using assms serialize_to_buf_wf [OF assms(1,3)]
  by (simp add: sign_with_def verify_signed_part_def keypair_ok_def)

lemma accepted_certificate:
  assumes "key_format L" and "keypair_ok L kp" and "wf_signed_part p" and "sp_authority_public_key p = kp_public kp"
  shows "\<exists>s data. sign_with L p kp = Inr s \<and>
    serialize_to_bytes_mut (build_noise_message (certificate_new p s)) = Inr data \<and> length data = 76 \<and>
    signature_message_try_from L data = Inr (build_noise_message (certificate_new p s)) \<and>
    (\<forall>now. validate_certificate L
       (from_noise_message (build_noise_message (certificate_new p s)) (sp_pubkey p) (kp_public kp)) now =
       verify_expiration L (sp_header p) now)"
proof -
  from signed_certificate [OF assms] obtain s where s: "sign_with L p kp = Inr s" "length s = 64"
    "signature_from_bytes L s = Inr s" "verify_signed_part L p s = Inr ()" by auto
  let ?m = "build_noise_message (certificate_new p s)"
  have m: "snm_signature ?m = s" "snm_header ?m = sp_header p"
    by (simp_all add: build_noise_message_def certificate_new_def)
  from signature_message_roundtrip [of ?m L] s(2,3) m obtain b
    where b: "serialize_to_bytes_mut ?m = Inr b" "signature_message_try_from L b = Inr ?m" "length b = 76" by auto
  have "certificate_part (from_noise_message ?m (sp_pubkey p) (kp_public kp)) = p"
    using m assms(4) by (simp add: from_noise_message_def certificate_new_def certificate_part_def)
  with s(4) m have "validate_certificate L (from_noise_message ?m (sp_pubkey p) (kp_public kp)) now =
      verify_expiration L (sp_header p) now" for now
    by (simp add: validate_certificate_def from_noise_message_def certificate_new_def)
  with s(1) b show ?thesis by blast
qed

text \<open>Signatures that verify under the key \<open>ca\<close> are those made for the parts in \<open>parts\<close>.\<close>

definition only_signed :: "noise_libs \<Rightarrow> bytes \<Rightarrow> signed_part set \<Rightarrow> bool" where
  "only_signed L ca parts \<longleftrightarrow>
     (\<forall>p \<in> parts. wf_signed_part p) \<and>
     (\<forall>m s. verify_strict L ca m s = Inr () \<longrightarrow> (\<exists>p \<in> parts. serialize_to_buf L p = Inr m))"

lemma verified_part_signed:
  assumes "key_format L" and "only_signed L ca parts" and "wf_signed_part p"
    and "sp_authority_public_key p = ca" and "verify_signed_part L p s = Inr ()"
  shows "p \<in> parts"
proof -
  from assms(5) obtain b where b: "serialize_to_buf L p = Inr b" "verify_strict L ca b s = Inr ()"
    using assms(4) by (auto simp: verify_signed_part_def result_simps)
  with assms(2) obtain q where "q \<in> parts" "serialize_to_buf L q = Inr b" "wf_signed_part q"
    by (auto simp: only_signed_def)
  with serialize_to_buf_inject [OF assms(1,3) _ b(1)] show ?thesis by auto
qed

text \<open>Instances of the library for the examples: a signature is a checksum-free copy of its message's start.\<close>

definition toy_sign :: "auth_keypair \<Rightarrow> bytes \<Rightarrow> bytes" where
  "toy_sign kp m = take 64 (m @ replicate 64 0)"

definition toy_noise_libs :: noise_libs where
  "toy_noise_libs =
     \<lparr>verify_strict = (\<lambda>k m s. if s = toy_sign \<lparr>kp_public = k, kp_secret = []\<rparr> m then Inr () else Inl ''mismatch''),
      dalek_sign = toy_sign, public_key_sval = VBytes,
      public_key_from_bytes = (\<lambda>b. if length b = 32 then Inr b else Inl ''length''),
      secret_key_from_bytes = (\<lambda>b. if length b = 32 then Inr b else Inl ''length''),
      signature_from_bytes = (\<lambda>b. if length b = 64 then Inr b else Inl ''length''),
      b58_encode = (\<lambda>b. b), b58_decode = Inr, x25519_base = (\<lambda>b. b),
      json_parse = (\<lambda>_. Inl ''not parsed''), json_print = (\<lambda>_. []), fmt_time = (\<lambda>_. ''time'')\<rparr>"

lemma toy_libs_ok: "key_format toy_noise_libs" "length (kp_public kp) = 32 \<Longrightarrow> keypair_ok toy_noise_libs kp"
  by (auto simp: key_format_def keypair_ok_def toy_noise_libs_def toy_sign_def min_def)

definition example_part :: signed_part where
  "example_part = \<lparr>sp_header = signed_part_header_new 10 20, sp_pubkey = replicate 32 1,
     sp_authority_public_key = replicate 32 2\<rparr>"

definition example_keypair :: auth_keypair where
  "example_keypair = \<lparr>kp_public = replicate 32 2, kp_secret = replicate 32 3\<rparr>"

text \<open>
  A certificate that an authority has signed is accepted: its noise message is written
  and read back, although it is written as a sequence and read as a byte string; together with the
  static key that the handshake provides it makes a certificate that validates at exactly the
  times of its header.
\<close>

theorem certificate_accepted:
  assumes "key_format L" and "keypair_ok L kp" and "wf_signed_part p" and "sp_authority_public_key p = kp_public kp"
  shows "\<exists>signature data m.
    sign_with L p kp = Inr signature \<and>
    serialize_to_bytes_mut (build_noise_message (certificate_new p signature)) = Inr data \<and>
    signature_message_try_from L data = Inr m \<and>
    (\<forall>now. validate_certificate L (from_noise_message m (sp_pubkey p) (kp_public kp)) now =
       verify_expiration L (sp_header p) now) \<and>
    (\<forall>now. 0 \<le> now \<longrightarrow> now < 2 ^ 32 * 10 ^ 9 \<longrightarrow>
       is_ok (validate_certificate L (from_noise_message m (sp_pubkey p) (kp_public kp)) now) =
       (uint (sph_valid_from (sp_header p)) \<le> now div 10 ^ 9 \<and> now div 10 ^ 9 \<le> uint (sph_not_valid_after (sp_header p))))"
  using accepted_certificate [OF assms] verify_expiration_iff by fastforce

theorem certificate_accepted_witness:
  "\<exists>signature data m.
    sign_with toy_noise_libs example_part example_keypair = Inr signature \<and>
    serialize_to_bytes_mut (build_noise_message (certificate_new example_part signature)) = Inr data \<and>
    signature_message_try_from toy_noise_libs data = Inr m \<and>
    is_ok (validate_certificate toy_noise_libs (from_noise_message m (replicate 32 1) (replicate 32 2)) (15 * 10 ^ 9)) \<and>
    \<not> is_ok (validate_certificate toy_noise_libs (from_noise_message m (replicate 32 1) (replicate 32 2)) (21 * 10 ^ 9))"
proof -
  have a: "keypair_ok toy_noise_libs example_keypair" "wf_signed_part example_part"
    "sp_authority_public_key example_part = kp_public example_keypair"
    by (simp_all add: toy_libs_ok wf_signed_part_def example_part_def example_keypair_def)
  from certificate_accepted [OF toy_libs_ok(1) a] obtain signature data m where
    "sign_with toy_noise_libs example_part example_keypair = Inr signature"
    "serialize_to_bytes_mut (build_noise_message (certificate_new example_part signature)) = Inr data"
    "signature_message_try_from toy_noise_libs data = Inr m" and
    v: "\<And>now. 0 \<le> now \<Longrightarrow> now < 2 ^ 32 * 10 ^ 9 \<Longrightarrow>
       is_ok (validate_certificate toy_noise_libs
         (from_noise_message m (sp_pubkey example_part) (kp_public example_keypair)) now) =
       (uint (sph_valid_from (sp_header example_part)) \<le> now div 10 ^ 9 \<and>
        now div 10 ^ 9 \<le> uint (sph_not_valid_after (sp_header example_part)))"
    by auto
  with v [of "15 * 10 ^ 9"] v [of "21 * 10 ^ 9"] show ?thesis
    by (auto simp: example_part_def example_keypair_def signed_part_header_new_def)
qed

text \<open>
  A certificate speaks for one static key only. If the signatures that verify under the
  authority's key are those it made for the parts in a set, then a certificate that validates, for
  whatever static key the handshake has authenticated, names a part of that set: the same key, the
  same validity, and a time within it.
\<close>

lemma certificate_binds_key:
  assumes "key_format L" and "only_signed L ca parts" and "length ca = 32" and "length key < 65536"
    and "validate_certificate L (from_noise_message m key ca) now = Inr t"
  shows "\<lparr>sp_header = snm_header m, sp_pubkey = key, sp_authority_public_key = ca\<rparr> \<in> parts \<and>
    is_ok (verify_expiration L (snm_header m) now) \<and>
    t = unix_time_u32_to_system_time (sph_not_valid_after (snm_header m))"
proof -
  let ?p = "\<lparr>sp_header = snm_header m, sp_pubkey = key, sp_authority_public_key = ca\<rparr>"
  have "certificate_part (from_noise_message m key ca) = ?p"
    by (simp add: certificate_part_def from_noise_message_def certificate_new_def)
  with assms(5) have v: "verify_signed_part L ?p (snm_signature m) = Inr ()" "verify_expiration L (snm_header m) now = Inr t"
    by (auto simp: validate_certificate_def from_noise_message_def certificate_new_def result_simps)
  have "?p \<in> parts"
    by (rule verified_part_signed [OF assms(1,2) _ _ v(1)]) (simp_all add: wf_signed_part_def assms(3,4))
  with v(2) show ?thesis by (simp add: is_ok_iff verify_expiration_ok)
qed

text \<open>
  Times are truncated to 32 bits: a certificate that is valid at some time is valid again
  $2^{32}$ seconds later, whatever its end of validity says.
\<close>

theorem expiration_wraps:
  assumes "0 \<le> now"
  shows "is_ok (verify_expiration L h (now + 2 ^ 32 * 10 ^ 9)) = is_ok (verify_expiration L h now)"
proof -
  have d: "(now + 2 ^ 32 * 10 ^ 9) div 10 ^ 9 = now div 10 ^ 9 + 2 ^ 32" by simp
  have w: "(of_int (now div 10 ^ 9 + 2 ^ 32) :: u32) = of_int (now div 10 ^ 9)"
    by (simp add: of_int_add)
  have "system_time_to_unix_time_u32 L (now + 2 ^ 32 * 10 ^ 9) = Inr (of_int (now div 10 ^ 9))"
    unfolding system_time_to_unix_time_u32_def d w using assms by simp
  moreover have "system_time_to_unix_time_u32 L now = Inr (of_int (now div 10 ^ 9))"
    using assms by (simp add: system_time_to_unix_time_u32_def)
  ultimately show ?thesis by (simp add: verify_expiration_def is_ok_iff)
qed

theorem expiration_wraps_witness:
  "is_ok (verify_expiration toy_noise_libs (signed_part_header_new 10 20) (15 * 10 ^ 9 + 2 ^ 32 * 10 ^ 9))"
  using expiration_wraps [of "15 * 10 ^ 9" toy_noise_libs "signed_part_header_new 10 20"]
  by (simp add: verify_expiration_iff signed_part_header_new_def)

section \<open>Files and bundles\<close>

definition file_libs :: "noise_libs \<Rightarrow> bool" where
  "file_libs L \<longleftrightarrow> (\<forall>b. b58_decode L (b58_encode L b) = Inr b)"

definition wf_certificate :: "noise_libs \<Rightarrow> certificate \<Rightarrow> bool" where
  "wf_certificate L c \<longleftrightarrow>
     public_key_from_bytes L (cert_authority_public_key c) = Inr (cert_authority_public_key c) \<and>
     signature_from_bytes L (cert_signature c) = Inr (cert_signature c)"

lemma unat_ucast_u64:
  "unat (ucast (x :: u16) :: u64) = unat x" "unat (ucast (y :: u32) :: u64) = unat y"
  using unsigned_less [of x, where ?'a = nat] unsigned_less [of y, where ?'a = nat] by (simp_all add: unsigned_ucast_eq take_bit_nat_eq_self)

lemma header_json: "header_of_json (header_to_json h) = Inr h"
proof -
  have "unat (sph_version h) < 2 ^ 16" "unat (sph_valid_from h) < 2 ^ 32" "unat (sph_not_valid_after h) < 2 ^ 32"
    using unsigned_less [of "sph_version h", where ?'a = nat] unsigned_less [of "sph_valid_from h", where ?'a = nat]
      unsigned_less [of "sph_not_valid_after h", where ?'a = nat] by simp_all
  then show ?thesis
    by (simp add: header_of_json_def header_to_json_def json_struct_def json_field_def json_uint_def ascii_def
        unat_ucast_u64)
qed

lemma format_json:
  assumes "file_libs L" and "from_bytes b = Inr b"
  shows "format_of_json L show_err name from_bytes (format_to_json L name b) = Inr b"
  using assms
  by (simp add: format_of_json_def format_to_json_def json_struct_def json_field_def encoded_of_json_def
      encoded_try_from_def encoded_into_string_def file_libs_def)

lemma certificate_json:
  assumes "file_libs L" and "wf_certificate L c"
  shows "certificate_of_json L show_err (certificate_to_json L c) = Inr c"
proof -
  have "json_struct [''signed_part_header'', ''public_key'', ''authority_public_key'', ''signature'']
      (certificate_to_json L c) = Inr [header_to_json (signed_part_header c),
      format_to_json L ''noise_public_key'' (cert_public_key c),
      format_to_json L ''ed25519_public_key'' (cert_authority_public_key c),
      format_to_json L ''ed25519_signature'' (cert_signature c)]"
    by (simp add: certificate_to_json_def json_struct_def json_field_def ascii_def)
  with assms show ?thesis
    by (simp add: certificate_of_json_def header_json format_json wf_certificate_def)
qed

lemma bundle_json:
  assumes "file_libs L" and "wf_certificate L (ssb_certificate b)"
  shows "bundle_of_json L show_err (bundle_to_json L b) = Inr b"
proof -
  have "json_struct [''certificate'', ''secret_key''] (bundle_to_json L b) =
      Inr [certificate_to_json L (ssb_certificate b), format_to_json L ''noise_secret_key'' (ssb_secret_key b)]"
    by (simp add: bundle_to_json_def json_struct_def json_field_def ascii_def)
  then show ?thesis
    using certificate_json [OF assms] format_json [OF assms(1)] by (simp add: bundle_of_json_def)
qed

text \<open>
  A server's bundle survives its file, and only consistent bundles are loaded: the one read back is
  the one written when the secret key belongs to the certified static key, and the file is refused
  otherwise.
\<close>

theorem bundle_file:
  assumes "file_libs L" and "json_parse L (json_print L (bundle_to_json L b)) = Inr (bundle_to_json L b)"
    and "wf_certificate L (ssb_certificate b)" and "length (ssb_secret_key b) = 32"
  shows "read_from_string L show_err (json_print L (bundle_to_json L b)) =
    (if x25519_base L (ssb_secret_key b) = cert_public_key (ssb_certificate b) then Inr b
     else Inl (Noise ''Inconsistent secret and public key in security bundle''))"
  using assms bundle_json [OF assms(1,3)] by (simp add: read_from_string_def validate_secret_key_def)

definition example_bundle :: server_security_bundle where
  "example_bundle = \<lparr>ssb_certificate = certificate_new example_part (replicate 64 0), ssb_secret_key = replicate 32 1\<rparr>"

definition one_file_libs :: noise_libs where
  "one_file_libs = toy_noise_libs\<lparr>json_parse := (\<lambda>_. Inr (bundle_to_json toy_noise_libs example_bundle))\<rparr>"

theorem bundle_file_witness:
  "read_from_string one_file_libs (\<lambda>_. []) (json_print one_file_libs (bundle_to_json one_file_libs example_bundle)) =
     Inr example_bundle"
proof -
  have "file_libs one_file_libs" "wf_certificate one_file_libs (ssb_certificate example_bundle)"
    "length (ssb_secret_key example_bundle) = 32"
    "x25519_base one_file_libs (ssb_secret_key example_bundle) = cert_public_key (ssb_certificate example_bundle)"
    by (simp_all add: file_libs_def wf_certificate_def one_file_libs_def toy_noise_libs_def example_bundle_def
        certificate_new_def example_part_def)
  moreover have "bundle_to_json one_file_libs b = bundle_to_json toy_noise_libs b" for b
    by (simp add: bundle_to_json_def certificate_to_json_def format_to_json_def encoded_into_string_def
        one_file_libs_def)
  then have "json_parse one_file_libs (json_print one_file_libs (bundle_to_json one_file_libs example_bundle)) =
      Inr (bundle_to_json one_file_libs example_bundle)"
    by (simp add: one_file_libs_def)
  ultimately show ?thesis using bundle_file by simp
qed

end
