(* ===== verification/Noise_Handshake.thy ===== *)
theory Noise_Handshake
  imports Noise_Auth
begin

text \<open>
  \<open>protocols/stratum/src/v2/noise.rs\<close>, \<open>noise/negotiation.rs\<close> and \<open>noise/handshake.rs\<close>: the negotiation
  of the encryption algorithm, the two parties of the Noise handshake as state machines with
  one \<open>step\<close> per message, and the loop that drives either of them over a framed stream.

  The cryptography is that of the crate \<open>snow\<close>, the record \<open>snow_lib\<close>: \<open>'h\<close> is its \<open>HandshakeState\<close>
  and \<open>'t\<close> its \<open>TransportState\<close>; random keys are part of these functions. A failing \<open>expect\<close> is the
  error \<open>Panic\<close>. The stream is what the calls of \<open>next\<close> and \<open>send\<close> return, timeouts included.
\<close>

section \<open>Negotiation\<close>

datatype encryption_algorithm = AESGCM | ChaChaPoly

definition NEGOTIATION_MAGIC :: u32 where
  "NEGOTIATION_MAGIC = of_nat (of_le (ascii ''STR2''))"

definition alg_repr :: "encryption_algorithm \<Rightarrow> u32" where
  "alg_repr a = (case a of AESGCM \<Rightarrow> of_nat (of_le (ascii ''AESG'')) | ChaChaPoly \<Rightarrow> of_nat (of_le (ascii ''CHCH'')))"

definition alg_of_repr :: "u32 \<Rightarrow> encryption_algorithm option" where
  "alg_of_repr n = (if n = alg_repr AESGCM then Some AESGCM else if n = alg_repr ChaChaPoly then Some ChaChaPoly else None)"

definition alg_debug :: "encryption_algorithm \<Rightarrow> string" where
  "alg_debug a = (case a of AESGCM \<Rightarrow> ''AESGCM'' | ChaChaPoly \<Rightarrow> ''ChaChaPoly'')"

definition noise_params :: "encryption_algorithm \<Rightarrow> string" where
  "noise_params chosen_algorithm = ''Noise_NX_25519_'' @ alg_debug chosen_algorithm @ ''_BLAKE2s''"

record negotiation_message =
  nm_magic :: u32
  encryption_algos :: "encryption_algorithm list"

definition negotiation_message_new :: "encryption_algorithm list \<Rightarrow> stratum_error + negotiation_message" where
  "negotiation_message_new algs =
     (if 255 < length algs then Inl (Panic ''BUG: cannot convert EncryptionAlgorithm vector'')
      else Inr \<lparr>nm_magic = NEGOTIATION_MAGIC, encryption_algos = algs\<rparr>)"

definition sv_negotiation :: "negotiation_message \<Rightarrow> sval" where
  "sv_negotiation m = VStruct ''NegotiationMessage''
     [VU32 (nm_magic m), VNewtype ''Seq0_255''
        (VSeq (Some (length (encryption_algos m))) (map (\<lambda>a. VU32 (alg_repr a)) (encryption_algos m)))]"

definition read_algorithm :: "encryption_algorithm reader" where
  "read_algorithm = rd_bind read_u32 (\<lambda>n. case alg_of_repr n of
     None \<Rightarrow> rd_fail (Custom ''invalid value'') | Some a \<Rightarrow> rd_ret a)"

definition read_negotiation :: "negotiation_message reader" where
  "read_negotiation =
     rd_bind read_u32 (\<lambda>magic. rd_map (\<lambda>algs. \<lparr>nm_magic = magic, encryption_algos = algs\<rparr>)
       (deserialize_sized_seq 0 255 LenU8 (\<lambda>sz. read_elems sz read_algorithm)))"

record prologue =
  initiator_msg :: "negotiation_message option"
  responder_msg :: "negotiation_message option"

definition prologue_default :: prologue where
  "prologue_default = \<lparr>initiator_msg = None, responder_msg = None\<rparr>"

definition sv_option :: "('a \<Rightarrow> sval) \<Rightarrow> 'a option \<Rightarrow> sval" where
  "sv_option f x = (case x of None \<Rightarrow> VNone | Some v \<Rightarrow> VSome (f v))"

definition sv_prologue :: "prologue \<Rightarrow> sval" where
  "sv_prologue p = VStruct ''Prologue''
     [sv_option sv_negotiation (initiator_msg p), sv_option sv_negotiation (responder_msg p)]"

record encryption_negotiation =
  chosen_algorithm :: encryption_algorithm
  en_prologue :: prologue

section \<open>The Noise library\<close>

record ('h, 't) snow_lib =
  parse_params :: "string \<Rightarrow> bool"
  snow_initiator :: "string \<Rightarrow> bytes \<Rightarrow> string + 'h"
  snow_responder :: "string \<Rightarrow> bytes \<Rightarrow> bytes \<Rightarrow> string + 'h"
  hs_write_message :: "'h \<Rightarrow> bytes \<Rightarrow> 'h \<times> (string + bytes)"
  hs_read_message :: "'h \<Rightarrow> bytes \<Rightarrow> 'h \<times> (string + bytes)"
  get_remote_static :: "'h \<Rightarrow> bytes option"
  into_transport_mode :: "'h \<Rightarrow> string + 't"
  t_write_message :: "'t \<Rightarrow> bytes \<Rightarrow> 't \<times> (string + bytes)"
  t_read_message :: "'t \<Rightarrow> bytes \<Rightarrow> 't \<times> (string + bytes)"

definition MAX_MESSAGE_SIZE :: nat where "MAX_MESSAGE_SIZE = 65535"
definition TAGLEN :: nat where "TAGLEN = 16"
definition MAX_PAYLOAD_SIZE :: nat where "MAX_PAYLOAD_SIZE = MAX_MESSAGE_SIZE - TAGLEN"

text \<open>\<open>NoiseParamsBuilder::new\<close>: the text of the parameters has to parse.\<close>

definition params_builder_new :: "('h, 't) snow_lib \<Rightarrow> encryption_algorithm \<Rightarrow> stratum_error + string" where
  "params_builder_new S a =
     (if parse_params S (noise_params a) then Inr (noise_params a)
      else Inl (Panic ''BUG: cannot parse noise parameters''))"

definition expect_ok :: "string \<Rightarrow> string + 'a \<Rightarrow> stratum_error + 'a" where
  "expect_ok msg r = map_err (\<lambda>_. Panic msg) r"

section \<open>Steps\<close>

datatype step_result =
    ReceiveMessage
  | NextStep bytes
  | ExpectReply bytes
  | NoMoreReply bytes
  | StepDone "certificate option"

text \<open>\<open>?\<close> inside a method that returns with the state \<open>s\<close> as it is.\<close>

definition or_return :: "stratum_error + 'a \<Rightarrow> 's \<Rightarrow> ('a \<Rightarrow> (stratum_error + 'b) \<times> 's) \<Rightarrow> (stratum_error + 'b) \<times> 's" where
  "or_return r s k = (case r of Inl e \<Rightarrow> (Inl e, s) | Inr x \<Rightarrow> k x)"

definition some_message :: "bytes option \<Rightarrow> stratum_error + bytes" where
  "some_message in_msg = ok_or in_msg (Noise ''No message arrived'')"

definition some_state :: "'h option \<Rightarrow> stratum_error + 'h" where
  "some_state h = ok_or h (Noise ''Handshake state shouldn't be None'')"

subsection \<open>The initiator\<close>

record 'h initiator =
  i_stage :: nat
  i_handshake_state :: "'h option"
  i_algorithms :: "encryption_algorithm list"
  i_authority_public_key :: bytes

definition initiator_new :: "bytes \<Rightarrow> encryption_algorithm list \<Rightarrow> 'h initiator" where
  "initiator_new authority algs =
     \<lparr>i_stage = 0, i_handshake_state = None, i_algorithms = algs, i_authority_public_key = authority\<rparr>"

definition verify_remote_static_key_signature ::
    "('h, 't) snow_lib \<Rightarrow> noise_libs \<Rightarrow> system_time \<Rightarrow> 'h initiator \<Rightarrow> bytes \<Rightarrow> stratum_error + certificate" where
  "verify_remote_static_key_signature S L now ini signature_noise_message =
     rbind (some_state (i_handshake_state ini)) (\<lambda>h.
     rbind (ok_or (get_remote_static S h) (Panic ''BUG: remote static has not been provided yet'')) (\<lambda>remote_static_key.
     rbind (signature_message_try_from L signature_noise_message) (\<lambda>m.
     let c = from_noise_message m remote_static_key (i_authority_public_key ini)
     in rmap (\<lambda>_. c) (validate_certificate L c now))))"

definition initiator_build_handshake_state ::
    "('h, 't) snow_lib \<Rightarrow> encryption_negotiation \<Rightarrow> stratum_error + 'h" where
  "initiator_build_handshake_state S negotiation =
     rbind (params_builder_new S (chosen_algorithm negotiation)) (\<lambda>params.
     rbind (map_err V2Serialization (to_vec (sv_prologue (en_prologue negotiation)))) (\<lambda>pro.
     expect_ok ''BUG: cannot build initiator'' (snow_initiator S params pro)))"

definition initiator_step_0 :: "'h initiator \<Rightarrow> bytes \<Rightarrow> (stratum_error + step_result) \<times> 'h initiator" where
  "initiator_step_0 ini noise_bytes =
     or_return (negotiation_message_new (i_algorithms ini)) ini (\<lambda>msg.
     or_return (map_err V2Serialization (to_vec (sv_negotiation msg))) ini (\<lambda>b.
     (Inr (ExpectReply (noise_bytes @ b)), ini\<lparr>i_stage := i_stage ini + 1\<rparr>)))"

definition initiator_step_1 ::
    "('h, 't) snow_lib \<Rightarrow> 'h initiator \<Rightarrow> bytes option \<Rightarrow> bytes \<Rightarrow> (stratum_error + step_result) \<times> 'h initiator" where
  "initiator_step_1 S ini in_msg noise_bytes =
     or_return (some_message in_msg) ini (\<lambda>msg.
     or_return (map_err V2Serialization (read_slice read_negotiation msg)) ini (\<lambda>m.
     if length (encryption_algos m) \<noteq> 1
     then (Inl (Noise ''Wrong number of algorithms arrived (expected 1)''), ini)
     else
       or_return (initiator_build_handshake_state S
           \<lparr>chosen_algorithm = hd (encryption_algos m),
            en_prologue = prologue_default\<lparr>responder_msg := Some m\<rparr>\<rparr>) ini (\<lambda>h.
       case hs_write_message S h [] of
         (h', Inl e) \<Rightarrow> (Inl (NoiseProtocol e), ini\<lparr>i_handshake_state := Some h'\<rparr>)
       | (h', Inr b) \<Rightarrow>
           (Inr (ExpectReply (noise_bytes @ b)),
            ini\<lparr>i_handshake_state := Some h', i_stage := i_stage ini + 1\<rparr>))))"

definition initiator_step_2 ::
    "('h, 't) snow_lib \<Rightarrow> noise_libs \<Rightarrow> system_time \<Rightarrow> 'h initiator \<Rightarrow> bytes option \<Rightarrow>
     (stratum_error + step_result) \<times> 'h initiator" where
  "initiator_step_2 S L now ini in_msg =
     or_return (some_message in_msg) ini (\<lambda>msg.
     or_return (some_state (i_handshake_state ini)) ini (\<lambda>h.
     case hs_read_message S h msg of
       (h', Inl e) \<Rightarrow> (Inl (NoiseProtocol e), ini\<lparr>i_handshake_state := Some h'\<rparr>)
     | (h', Inr b) \<Rightarrow>
         let ini' = ini\<lparr>i_handshake_state := Some h'\<rparr>
         in or_return (verify_remote_static_key_signature S L now ini' b) ini' (\<lambda>c.
            (Inr (StepDone (Some c)), ini'\<lparr>i_stage := i_stage ini + 1\<rparr>))))"

definition initiator_step ::
    "('h, 't) snow_lib \<Rightarrow> noise_libs \<Rightarrow> system_time \<Rightarrow> 'h initiator \<Rightarrow> bytes option \<Rightarrow> bytes \<Rightarrow>
     (stratum_error + step_result) \<times> 'h initiator" where
  "initiator_step S L now ini in_msg noise_bytes =
     (if i_stage ini = 0 then initiator_step_0 ini noise_bytes
      else if i_stage ini = 1 then initiator_step_1 S ini in_msg noise_bytes
      else if i_stage ini = 2 then initiator_step_2 S L now ini in_msg
      else (Inl (Panic ''BUG: No more steps that can be done by the Initiator in Noise handshake''), ini))"

subsection \<open>The responder\<close>

record 'h responder =
  r_stage :: nat
  r_static_private :: bytes
  r_algorithms :: "encryption_algorithm list"
  r_handshake_state :: "'h option"
  r_signature_noise_message :: bytes

definition responder_new :: "bytes \<Rightarrow> bytes \<Rightarrow> encryption_algorithm list \<Rightarrow> 'h responder" where
  "responder_new private signature_noise_message algs =
     \<lparr>r_stage = 0, r_static_private = private, r_algorithms = algs, r_handshake_state = None,
      r_signature_noise_message = signature_noise_message\<rparr>"

definition responder_build_handshake_state ::
    "('h, 't) snow_lib \<Rightarrow> bytes \<Rightarrow> encryption_negotiation \<Rightarrow> stratum_error + 'h" where
  "responder_build_handshake_state S private negotiation =
     rbind (params_builder_new S (chosen_algorithm negotiation)) (\<lambda>params.
     rbind (if en_prologue negotiation = prologue_default then Inr []
            else map_err V2Serialization (to_vec (sv_prologue (en_prologue negotiation)))) (\<lambda>pro.
     expect_ok ''BUG: cannot build responder'' (snow_responder S params pro private)))"

definition choose_algorithm ::
    "encryption_algorithm list \<Rightarrow> encryption_algorithm list \<Rightarrow> stratum_error + encryption_algorithm" where
  "choose_algorithm own algs =
     (if AESGCM \<in> set algs then Inr AESGCM
      else ok_or (find (\<lambda>x. x \<in> set own) algs) (Noise ''No algorithms provided''))"

definition responder_step_1 ::
    "('h, 't) snow_lib \<Rightarrow> 'h responder \<Rightarrow> bytes option \<Rightarrow> bytes \<Rightarrow> (stratum_error + step_result) \<times> 'h responder" where
  "responder_step_1 S rsp in_msg noise_bytes =
     or_return (some_message in_msg) rsp (\<lambda>msg.
     case read_slice read_negotiation msg of
       Inr m \<Rightarrow>
         or_return (choose_algorithm (r_algorithms rsp) (encryption_algos m)) rsp (\<lambda>a.
         or_return (negotiation_message_new [a]) rsp (\<lambda>reply.
         or_return (map_err V2Serialization (to_vec (sv_negotiation reply))) rsp (\<lambda>b.
         or_return (responder_build_handshake_state S (r_static_private rsp)
             \<lparr>chosen_algorithm = a, en_prologue = prologue_default\<lparr>responder_msg := Some reply\<rparr>\<rparr>) rsp (\<lambda>h.
         (Inr (ExpectReply (noise_bytes @ b)),
          rsp\<lparr>r_handshake_state := Some h, r_stage := r_stage rsp + 1\<rparr>)))))
     | Inl e \<Rightarrow>
         or_return (responder_build_handshake_state S (r_static_private rsp)
             \<lparr>chosen_algorithm = ChaChaPoly, en_prologue = prologue_default\<rparr>) rsp (\<lambda>h.
         (Inr (NextStep msg), rsp\<lparr>r_handshake_state := Some h, r_stage := r_stage rsp + 1\<rparr>)))"

definition responder_step_2 ::
    "('h, 't) snow_lib \<Rightarrow> 'h responder \<Rightarrow> bytes option \<Rightarrow> bytes \<Rightarrow> (stratum_error + step_result) \<times> 'h responder" where
  "responder_step_2 S rsp in_msg noise_bytes =
     or_return (some_message in_msg) rsp (\<lambda>msg.
     or_return (some_state (r_handshake_state rsp)) rsp (\<lambda>h.
     case hs_read_message S h msg of
       (h', Inl e) \<Rightarrow> (Inl (NoiseProtocol e), rsp\<lparr>r_handshake_state := Some h'\<rparr>)
     | (h', Inr _) \<Rightarrow>
         (case hs_write_message S h' (r_signature_noise_message rsp) of
            (h'', Inl e) \<Rightarrow> (Inl (NoiseProtocol e), rsp\<lparr>r_handshake_state := Some h''\<rparr>)
          | (h'', Inr b) \<Rightarrow>
              (Inr (NoMoreReply (noise_bytes @ b)),
               rsp\<lparr>r_handshake_state := Some h'', r_stage := r_stage rsp + 1\<rparr>))))"

definition responder_step ::
    "('h, 't) snow_lib \<Rightarrow> 'h responder \<Rightarrow> bytes option \<Rightarrow> bytes \<Rightarrow> (stratum_error + step_result) \<times> 'h responder" where
  "responder_step S rsp in_msg noise_bytes =
     (if r_stage rsp = 0 then (Inr ReceiveMessage, rsp\<lparr>r_stage := r_stage rsp + 1\<rparr>)
      else if r_stage rsp = 1 then responder_step_1 S rsp in_msg noise_bytes
      else if r_stage rsp = 2 then responder_step_2 S rsp in_msg noise_bytes
      else if r_stage rsp = 3 then (Inr (StepDone None), rsp\<lparr>r_stage := r_stage rsp + 1\<rparr>)
      else (Inl (Panic ''BUG: No more steps that can be done by the Responder in Noise handshake''), rsp))"

section \<open>The loop\<close>

datatype received = RecvFrame bytes | RecvError stratum_error | RecvClosed | RecvTimeout

record hs_stream =
  incoming :: "received list"
  send_errors :: "stratum_error option list"
  outgoing :: "bytes list"

definition receive_message :: "hs_stream \<Rightarrow> (stratum_error + bytes) \<times> hs_stream" where
  "receive_message st =
     (let st' = st\<lparr>incoming := tl (incoming st)\<rparr>
      in case incoming st of
           RecvFrame b # _ \<Rightarrow> (Inr b, st')
         | RecvError e # _ \<Rightarrow> (Inl e, st')
         | RecvTimeout # _ \<Rightarrow> (Inl Timeout, st')
         | _ \<Rightarrow> (Inl (Handshake ''Noise handshake Connection shutdown''), st'))"

definition send_message :: "bytes \<Rightarrow> hs_stream \<Rightarrow> (stratum_error + unit) \<times> hs_stream" where
  "send_message b st =
     (let st' = st\<lparr>send_errors := tl (send_errors st)\<rparr>
      in case send_errors st of
           Some e # _ \<Rightarrow> (Inl e, st')
         | _ \<Rightarrow> (Inr (), st'\<lparr>outgoing := outgoing st @ [b]\<rparr>))"

text \<open>
  \<open>complete_handshake\<close> for any implementation of the trait \<open>Step\<close>; \<open>None\<close> is a loop that does not end.
\<close>

partial_function (option) complete_handshake ::
    "('s \<Rightarrow> bytes option \<Rightarrow> bytes \<Rightarrow> (stratum_error + step_result) \<times> 's) \<Rightarrow> 's \<Rightarrow> bytes option \<Rightarrow> hs_stream \<Rightarrow>
     ((stratum_error + certificate option) \<times> 's \<times> hs_stream) option" where
  "complete_handshake step s in_msg st =
     (case step s in_msg [] of
        (Inl e, s') \<Rightarrow> Some (Inl e, s', st)
      | (Inr ReceiveMessage, s') \<Rightarrow>
          (case receive_message st of
             (Inl e, st') \<Rightarrow> Some (Inl e, s', st')
           | (Inr m, st') \<Rightarrow> complete_handshake step s' (Some m) st')
      | (Inr (NextStep m), s') \<Rightarrow> complete_handshake step s' (Some m) st
      | (Inr (ExpectReply b), s') \<Rightarrow>
          (case send_message b st of
             (Inl e, st') \<Rightarrow> Some (Inl e, s', st')
           | (Inr _, st') \<Rightarrow>
               (case receive_message st' of
                  (Inl e, st'') \<Rightarrow> Some (Inl e, s', st'')
                | (Inr m, st'') \<Rightarrow> complete_handshake step s' (Some m) st''))
      | (Inr (NoMoreReply b), s') \<Rightarrow>
          (case send_message b st of
             (Inl e, st') \<Rightarrow> Some (Inl e, s', st')
           | (Inr _, st') \<Rightarrow> complete_handshake step s' None st')
      | (Inr (StepDone c), s') \<Rightarrow> Some (Inr c, s', st))"

text \<open>\<open>TransportMode::try_from\<close> of a finished handshake and \<open>Handshake::run\<close>.\<close>

definition transport_mode_try_from :: "('h, 't) snow_lib \<Rightarrow> 'h option \<Rightarrow> stratum_error + 't" where
  "transport_mode_try_from S h =
     rbind (ok_or h (Panic ''BUG: into_handshake_state shouldn't be called before negotiation'')) (\<lambda>h.
     map_err NoiseProtocol (into_transport_mode S h))"

definition handshake_run ::
    "('h, 't) snow_lib \<Rightarrow> ('s \<Rightarrow> bytes option \<Rightarrow> bytes \<Rightarrow> (stratum_error + step_result) \<times> 's) \<Rightarrow> ('s \<Rightarrow> 'h option) \<Rightarrow>
     's \<Rightarrow> hs_stream \<Rightarrow> ((stratum_error + 't) \<times> hs_stream) option" where
  "handshake_run S step state_of s st =
     map_option (\<lambda>(r, s', st'). (rbind r (\<lambda>_. transport_mode_try_from S (state_of s')), st'))
       (complete_handshake step s None st)"

definition connect_with_cert ::
    "('h, 't) snow_lib \<Rightarrow> noise_libs \<Rightarrow> system_time \<Rightarrow> 'h initiator \<Rightarrow> hs_stream \<Rightarrow>
     ((stratum_error + 't \<times> certificate) \<times> hs_stream) option" where
  "connect_with_cert S L now ini st =
     map_option (\<lambda>(r, s', st'). (rbind r (\<lambda>c.
         rbind (ok_or c (Panic ''BUG: remote end certificate not provided!'')) (\<lambda>c.
         rmap (\<lambda>t. (t, c)) (transport_mode_try_from S (i_handshake_state s')))), st'))
       (complete_handshake (initiator_step S L now) ini None st)"

section \<open>The loop ends\<close>

text \<open>
  The trait \<open>Step\<close> as the loop relies on it: every step that succeeds brings the party closer to
  its end.
\<close>

locale handshake_party =
  fixes step :: "'s \<Rightarrow> bytes option \<Rightarrow> bytes \<Rightarrow> (stratum_error + step_result) \<times> 's"
    and rank :: "'s \<Rightarrow> nat"
  assumes progress: "step s m b = (Inr r, s') \<Longrightarrow> (\<exists>c. r = StepDone c) \<or> rank s' < rank s"
begin

lemma loop_ends: "\<exists>y. complete_handshake step s m st = Some y"
proof (induction "rank s" arbitrary: s m st rule: less_induct)
  case less
  show ?case
  proof (cases "step s m []")
    case (Pair r s')
    note [simp] = Pair
    show ?thesis
    proof (cases r)
      case (Inl e)
      then show ?thesis by (subst complete_handshake.simps) simp
    next
      case (Inr x)
      then have IH: "\<exists>y. complete_handshake step s' m' st' = Some y" if "\<nexists>c. x = StepDone c" for m' st'
        using progress [of s m "[]" x s'] that less by simp
      show ?thesis
        using Inr IH
        by (subst complete_handshake.simps) (cases x; auto split: prod.splits sum.splits)
    qed
  qed
qed

text \<open>A result comes from the last step, in a state with every property the steps keep.\<close>

lemma loop_result:
  assumes keep: "\<And>s m b r s'. P s \<Longrightarrow> step s m b = (Inr r, s') \<Longrightarrow> P s'"
  shows "P s \<Longrightarrow> complete_handshake step s m st = Some (Inr c, s'', st'') \<Longrightarrow>
    \<exists>s1 m1. P s1 \<and> step s1 m1 [] = (Inr (StepDone c), s'')"
proof (induction "rank s" arbitrary: s m st rule: less_induct)
  case less
  obtain r s' where r: "step s m [] = (r, s')" by fastforce
  show ?case
  proof (cases r)
    case (Inl e)
    with less.prems r show ?thesis by (subst (asm) complete_handshake.simps) simp
  next
    case (Inr x)
    have IH: "(\<nexists>c. x = StepDone c) \<longrightarrow> complete_handshake step s' m' st' = Some (Inr c, s'', st'') \<longrightarrow>
        (\<exists>s1 m1. P s1 \<and> step s1 m1 [] = (Inr (StepDone c), s''))" for m' st'
      using progress [of s m "[]" x s'] keep [of s m "[]" x s'] less r Inr by blast
    with less.prems r Inr show ?thesis
      by (subst (asm) complete_handshake.simps) (cases x; auto split: prod.split_asm sum.split_asm)
  qed
qed

end

interpretation ini: handshake_party "initiator_step S L now" "\<lambda>i. 3 - i_stage i"
  for S :: "('h, 't) snow_lib" and L now
proof
  fix s m b r s'
  assume "initiator_step S L now s m b = (Inr r, s')"
  then show "(\<exists>c. r = StepDone c) \<or> 3 - i_stage s' < 3 - i_stage s"
    by (auto simp: initiator_step_def initiator_step_0_def initiator_step_1_def initiator_step_2_def or_return_def
        Let_def split: if_split_asm prod.split_asm sum.split_asm)
qed

interpretation rsp: handshake_party "responder_step S" "\<lambda>r. 4 - r_stage r"
  for S :: "('h, 't) snow_lib"
proof
  fix s m b r s'
  assume "responder_step S s m b = (Inr r, s')"
  then show "(\<exists>c. r = StepDone c) \<or> 4 - r_stage s' < 4 - r_stage s"
    by (auto simp: responder_step_def responder_step_1_def responder_step_2_def or_return_def
        split: if_split_asm prod.split_asm sum.split_asm)
qed

section \<open>Negotiation messages on the wire\<close>

lemma alg_of_repr_repr [simp]: "alg_of_repr (alg_repr a) = Some a"
proof -
  have "alg_repr AESGCM = 0x47534541" "alg_repr ChaChaPoly = 0x48434843"
    by (simp_all add: alg_repr_def ascii_def)
  then show ?thesis by (cases a) (simp_all add: alg_of_repr_def)
qed

definition wf_negotiation :: "negotiation_message \<Rightarrow> bool" where
  "wf_negotiation m \<longleftrightarrow> length (encryption_algos m) \<le> 255"

lemma writes_algorithms:
  "writes (serialize_all (map (\<lambda>a. VU32 (alg_repr a)) algs)) (read_elems (length algs) read_algorithm) algs"
proof (induction algs)
  case Nil
  then show ?case by (simp add: writes_ret)
next
  case (Cons a algs)
  have "writes (serialize_u32 (alg_repr a)) read_algorithm a"
    unfolding read_algorithm_def by (rule writes_bind_nil [OF writes_u32]) simp
  then show ?case using Cons by (simp add: writes_bind writes_map)
qed

lemma writes_negotiation:
  assumes "wf_negotiation m"
  shows "writes (serialize (sv_negotiation m)) read_negotiation m"
proof -
  let ?n = "length (encryption_algos m)"
  have "serialize (sv_negotiation m) = and_write (serialize_u32 (nm_magic m)) (and_write (serialize_len LenU8 ?n)
      (serialize_all (map (\<lambda>a. VU32 (alg_repr a)) (encryption_algos m))))"
    by (simp add: sv_negotiation_def newtype_len_type_def and_write_def rbind_def split: sum.splits)
  moreover have "writes \<dots> read_negotiation m"
    unfolding read_negotiation_def using assms
    by (intro writes_bind [OF writes_u32] writes_map_eq [where x = "encryption_algos m"] writes_sized)
      (simp_all add: wf_negotiation_def len_cap_def writes_algorithms)
  ultimately show ?thesis by simp
qed

lemma negotiation_roundtrip:
  assumes "wf_negotiation m"
  shows "\<exists>b. to_vec (sv_negotiation m) = Inr b \<and> read_slice read_negotiation b = Inr m"
  using writes_negotiation [OF assms] by (auto simp: writes_def to_vec_def dest: read_slice_reads)

lemma prologue_written:
  assumes "wf_negotiation m"
  shows "\<exists>b. to_vec (sv_prologue (prologue_default\<lparr>responder_msg := Some m\<rparr>)) = Inr b"
  using negotiation_roundtrip [OF assms]
  by (auto simp: to_vec_def sv_prologue_def sv_option_def prologue_default_def and_write_def serialize_bool_def
      write_all_def)

section \<open>Rounds of the loop\<close>

text \<open>A stream on which nothing fails.\<close>

definition quiet :: "received list \<Rightarrow> bytes list \<Rightarrow> hs_stream" where
  "quiet ins outs = \<lparr>incoming = ins, send_errors = [], outgoing = outs\<rparr>"

lemma loop_rounds:
  "step s m [] = (Inr ReceiveMessage, s') \<Longrightarrow>
     complete_handshake step s m (quiet (RecvFrame r # ins) outs) = complete_handshake step s' (Some r) (quiet ins outs)"
  "step s m [] = (Inr (ExpectReply b), s') \<Longrightarrow>
     complete_handshake step s m (quiet (RecvFrame r # ins) outs) =
     complete_handshake step s' (Some r) (quiet ins (outs @ [b]))"
  "step s m [] = (Inr (NoMoreReply b), s') \<Longrightarrow>
     complete_handshake step s m (quiet ins outs) = complete_handshake step s' None (quiet ins (outs @ [b]))"
  "step s m [] = (Inr (StepDone c), s') \<Longrightarrow> complete_handshake step s m st = Some (Inr c, s', st)"
  by (subst complete_handshake.simps; simp add: receive_message_def send_message_def quiet_def Let_def)+

section \<open>Two parties\<close>

text \<open>
  The NX pattern as \<open>snow\<close> implements it: parties with the same parameters and prologue read what
  the other one writes, the initiator learns the responder's static key, and both end in transport
  states that are connected. \<open>pub\<close> gives the public key to a private one.
\<close>

definition nx_exchange ::
    "('h, 't) snow_lib \<Rightarrow> (bytes \<Rightarrow> bytes) \<Rightarrow> ('t \<Rightarrow> 't \<Rightarrow> bool) \<Rightarrow> string \<Rightarrow> bytes \<Rightarrow> bytes \<Rightarrow> bytes \<Rightarrow> bool" where
  "nx_exchange S pub paired params pro priv payload \<longleftrightarrow>
     (\<exists>hi hr hi1 hr1 hi2 hr2 m1 m2 ti tr.
        snow_initiator S params pro = Inr hi \<and> snow_responder S params pro priv = Inr hr \<and>
        hs_write_message S hi [] = (hi1, Inr m1) \<and> hs_read_message S hr m1 = (hr1, Inr []) \<and>
        hs_write_message S hr1 payload = (hr2, Inr m2) \<and> hs_read_message S hi1 m2 = (hi2, Inr payload) \<and>
        get_remote_static S hi2 = Some (pub priv) \<and>
        into_transport_mode S hi2 = Inr ti \<and> into_transport_mode S hr2 = Inr tr \<and> paired ti tr)"

definition snow_nx :: "('h, 't) snow_lib \<Rightarrow> (bytes \<Rightarrow> bytes) \<Rightarrow> ('t \<Rightarrow> 't \<Rightarrow> bool) \<Rightarrow> bool" where
  "snow_nx S pub paired \<longleftrightarrow>
     (\<forall>a. parse_params S (noise_params a)) \<and>
     (\<forall>a pro priv payload. length priv = 32 \<longrightarrow> length payload + 96 \<le> MAX_MESSAGE_SIZE \<longrightarrow>
        nx_exchange S pub paired (noise_params a) pro priv payload)"

definition negotiation_bytes :: "encryption_algorithm list \<Rightarrow> bytes" where
  "negotiation_bytes algs = serialized (sv_negotiation \<lparr>nm_magic = NEGOTIATION_MAGIC, encryption_algos = algs\<rparr>)"

lemma negotiation_bytes:
  assumes "length algs \<le> 255"
  shows "to_vec (sv_negotiation \<lparr>nm_magic = NEGOTIATION_MAGIC, encryption_algos = algs\<rparr>) = Inr (negotiation_bytes algs)"
    and "read_slice read_negotiation (negotiation_bytes algs) =
      Inr \<lparr>nm_magic = NEGOTIATION_MAGIC, encryption_algos = algs\<rparr>"
  using negotiation_roundtrip [of "\<lparr>nm_magic = NEGOTIATION_MAGIC, encryption_algos = algs\<rparr>"] assms
  by (auto simp: wf_negotiation_def negotiation_bytes_def to_vec_def serialized_def)

definition chosen_prologue :: "encryption_algorithm \<Rightarrow> prologue" where
  "chosen_prologue a = prologue_default\<lparr>responder_msg := Some \<lparr>nm_magic = NEGOTIATION_MAGIC, encryption_algos = [a]\<rparr>\<rparr>"

lemma chosen_prologue:
  obtains b where "to_vec (sv_prologue (chosen_prologue a)) = Inr b"
  using prologue_written [of "\<lparr>nm_magic = NEGOTIATION_MAGIC, encryption_algos = [a]\<rparr>"]
  by (auto simp: chosen_prologue_def wf_negotiation_def)

lemma initiator_completes:
  assumes "length algs \<le> 255" and "params_builder_new S a = Inr (noise_params a)"
    and "to_vec (sv_prologue (chosen_prologue a)) = Inr pro"
    and h: "snow_initiator S (noise_params a) pro = Inr h" "hs_write_message S h [] = (h1, Inr m1)"
      "hs_read_message S h1 m2 = (h2, Inr data)" "get_remote_static S h2 = Some key" "into_transport_mode S h2 = Inr t"
    and msg: "signature_message_try_from L data = Inr m"
    and valid: "is_ok (validate_certificate L (from_noise_message m key ca) now)"
  shows "connect_with_cert S L now (initiator_new ca algs)
      (quiet [RecvFrame (negotiation_bytes [a]), RecvFrame m2] []) =
    Some (Inr (t, from_noise_message m key ca), quiet [] [negotiation_bytes algs, m1])"
proof -
  let ?i = "initiator_new ca algs"
  let ?i1 = "?i\<lparr>i_stage := 1\<rparr>" and ?i2 = "?i\<lparr>i_stage := 2, i_handshake_state := Some h1\<rparr>"
    and ?i3 = "?i\<lparr>i_stage := 3, i_handshake_state := Some h2\<rparr>"
  have I0: "initiator_step S L now ?i None [] = (Inr (ExpectReply (negotiation_bytes algs)), ?i1)"
    using assms(1) by (simp add: initiator_step_def initiator_step_0_def initiator_new_def
        negotiation_message_new_def or_return_def negotiation_bytes)
  have I1: "initiator_step S L now ?i1 (Some (negotiation_bytes [a])) [] = (Inr (ExpectReply m1), ?i2)"
    using assms(2,3) h(1,2)
    by (simp add: initiator_step_def initiator_step_1_def initiator_new_def or_return_def some_message_def
        negotiation_bytes initiator_build_handshake_state_def expect_ok_def chosen_prologue_def)
  have I2: "initiator_step S L now ?i2 (Some m2) [] = (Inr (StepDone (Some (from_noise_message m key ca))), ?i3)"
    using h(3,4) msg valid
    by (auto simp: initiator_step_def initiator_step_2_def initiator_new_def or_return_def some_message_def
        some_state_def verify_remote_static_key_signature_def Let_def is_ok_iff)
  have "complete_handshake (initiator_step S L now) ?i None
      (quiet [RecvFrame (negotiation_bytes [a]), RecvFrame m2] []) =
      Some (Inr (Some (from_noise_message m key ca)), ?i3, quiet [] [negotiation_bytes algs, m1])"
    unfolding loop_rounds(2) [of "initiator_step S L now", OF I0] loop_rounds(2) [of "initiator_step S L now", OF I1]
      loop_rounds(4) [of "initiator_step S L now", OF I2] by simp
  then show ?thesis using h(5) by (simp add: connect_with_cert_def transport_mode_try_from_def)
qed

lemma responder_completes:
  assumes "length offered \<le> 255" and "params_builder_new S a = Inr (noise_params a)"
    and "to_vec (sv_prologue (chosen_prologue a)) = Inr pro" and "choose_algorithm own offered = Inr a"
    and h: "snow_responder S (noise_params a) pro priv = Inr h" "hs_read_message S h m1 = (h1, Inr b)"
      "hs_write_message S h1 data = (h2, Inr m2)" "into_transport_mode S h2 = Inr t"
  shows "handshake_run S (responder_step S) r_handshake_state (responder_new priv data own)
      (quiet [RecvFrame (negotiation_bytes offered), RecvFrame m1] []) =
    Some (Inr t, quiet [] [negotiation_bytes [a], m2])"
proof -
  let ?r = "responder_new priv data own"
  let ?r1 = "?r\<lparr>r_stage := 1\<rparr>" and ?r2 = "?r\<lparr>r_stage := 2, r_handshake_state := Some h\<rparr>"
    and ?r3 = "?r\<lparr>r_stage := 3, r_handshake_state := Some h2\<rparr>" and ?r4 = "?r\<lparr>r_stage := 4, r_handshake_state := Some h2\<rparr>"
  have R0: "responder_step S ?r None [] = (Inr ReceiveMessage, ?r1)"
    by (simp add: responder_step_def responder_new_def)
  have R1: "responder_step S ?r1 (Some (negotiation_bytes offered)) [] = (Inr (ExpectReply (negotiation_bytes [a])), ?r2)"
    using assms(1-4) h(1)
    by (simp add: responder_step_def responder_step_1_def responder_new_def or_return_def some_message_def
        negotiation_bytes negotiation_message_new_def responder_build_handshake_state_def expect_ok_def
        chosen_prologue_def prologue_default_def)
  have R2: "responder_step S ?r2 (Some m1) [] = (Inr (NoMoreReply m2), ?r3)"
    using h(2,3) by (simp add: responder_step_def responder_step_2_def responder_new_def or_return_def
        some_message_def some_state_def)
  have R3: "responder_step S ?r3 None [] = (Inr (StepDone None), ?r4)"
    by (simp add: responder_step_def responder_new_def)
  have "complete_handshake (responder_step S) ?r None
      (quiet [RecvFrame (negotiation_bytes offered), RecvFrame m1] []) =
      Some (Inr None, ?r4, quiet [] [negotiation_bytes [a], m2])"
    unfolding loop_rounds(1) [of "responder_step S", OF R0] loop_rounds(2) [of "responder_step S", OF R1]
      loop_rounds(3) [of "responder_step S", OF R2] loop_rounds(4) [of "responder_step S", OF R3] by simp
  then show ?thesis using h(4) by (simp add: handshake_run_def transport_mode_try_from_def)
qed

text \<open>
  The whole handshake when the responder receives the negotiation message of the list
  \<open>offered\<close>, whether or not the initiator sent it.
\<close>

lemma handshake_completes:
  assumes S: "snow_nx S pub paired" and len: "length algs \<le> 255" "length offered \<le> 255"
    and choice: "choose_algorithm own offered = Inr a"
    and priv: "length priv = 32" and data: "length data + 96 \<le> MAX_MESSAGE_SIZE"
    and msg: "signature_message_try_from L data = Inr m"
    and valid: "is_ok (validate_certificate L (from_noise_message m (pub priv) ca) now)"
  shows "\<exists>m1 m2 ti tr.
    connect_with_cert S L now (initiator_new ca algs)
        (quiet [RecvFrame (negotiation_bytes [a]), RecvFrame m2] []) =
      Some (Inr (ti, from_noise_message m (pub priv) ca), quiet [] [negotiation_bytes algs, m1]) \<and>
    handshake_run S (responder_step S) r_handshake_state (responder_new priv data own)
        (quiet [RecvFrame (negotiation_bytes offered), RecvFrame m1] []) =
      Some (Inr tr, quiet [] [negotiation_bytes [a], m2]) \<and> paired ti tr"
proof -
  obtain pro where pro: "to_vec (sv_prologue (chosen_prologue a)) = Inr pro" by (rule chosen_prologue)
  have params: "params_builder_new S a = Inr (noise_params a)"
    using S by (simp add: snow_nx_def params_builder_new_def)
  have "nx_exchange S pub paired (noise_params a) pro priv data"
    using S priv data by (simp add: snow_nx_def)
  then show ?thesis
    unfolding nx_exchange_def
    by (elim exE conjE)
      (intro exI conjI initiator_completes [OF len(1) params pro _ _ _ _ _ msg valid]
        responder_completes [OF len(2) params pro choice]; assumption)
qed

end
