(* ===== verification/Noise_Parties.thy ===== *)
theory Noise_Parties
  imports Noise_Handshake
begin

text \<open>
  The two parties of the Noise handshake as a whole: whatever the peer and the network do, the loop
  ends, and never with a panic; between two honest parties it ends in connected transport
  states and with the server's certificate; and the initiator finishes only for a static key
  that the authority has signed.
\<close>

section \<open>Panics\<close>

definition panicking :: "stratum_error \<Rightarrow> bool" where
  "panicking e \<longleftrightarrow> e = V2Serialization Unreachable \<or> (\<exists>p. e = Panic p)"

text \<open>The errors of the stream itself are no panics.\<close>

definition calm :: "hs_stream \<Rightarrow> bool" where
  "calm st \<longleftrightarrow> (\<forall>e. RecvError e \<in> set (incoming st) \<longrightarrow> \<not> panicking e) \<and>
     (\<forall>e. Some e \<in> set (send_errors st) \<longrightarrow> \<not> panicking e)"

lemma in_set_tl: "x \<in> set (tl xs) \<Longrightarrow> x \<in> set xs"
  by (cases xs) auto

lemma calm_receive:
  assumes "calm st" and "receive_message st = (r, st')"
  shows "calm st' \<and> (\<forall>e. r = Inl e \<longrightarrow> \<not> panicking e)"
  using assms
  by (auto simp: receive_message_def Let_def calm_def panicking_def dest: in_set_tl
      split: list.split_asm received.split_asm)

lemma calm_send:
  assumes "calm st" and "send_message b st = (r, st')"
  shows "calm st' \<and> (\<forall>e. r = Inl e \<longrightarrow> \<not> panicking e)"
  using assms
  by (auto simp: send_message_def Let_def calm_def dest: in_set_tl split: list.split_asm option.split_asm)

lemmas calm_states = calm_receive [THEN conjunct1] calm_send [THEN conjunct1]

lemma calm_errors:
  "calm st \<Longrightarrow> receive_message st = (Inl e, st') \<Longrightarrow> \<not> panicking e"
  "calm st \<Longrightarrow> send_message b st = (Inl e, st') \<Longrightarrow> \<not> panicking e"
  using calm_receive calm_send by blast+

text \<open>A party that stays within states whose steps do not panic.\<close>

locale handshake_party_safe = handshake_party +
  fixes ok :: "'a \<Rightarrow> bool"
  assumes ok_step: "ok s \<Longrightarrow> step s m b = (Inr r, s') \<Longrightarrow> (\<exists>c. r = StepDone c) \<or> ok s'"
    and ok_error: "ok s \<Longrightarrow> step s m b = (Inl e, s') \<Longrightarrow> \<not> panicking e"
begin

lemma loop_safe:
  "ok s \<Longrightarrow> calm st \<Longrightarrow> complete_handshake step s m st = Some (Inl e, s'', st'') \<Longrightarrow> \<not> panicking e"
proof (induction "rank s" arbitrary: s m st rule: less_induct)
  case less
  obtain r s' where r: "step s m [] = (r, s')" by fastforce
  show ?case
  proof (cases r)
    case (Inl e')
    with less.prems r ok_error show ?thesis by (subst (asm) complete_handshake.simps) auto
  next
    case (Inr x)
    have "\<not> panicking e" if "\<nexists>c. x = StepDone c" "calm st'" "complete_handshake step s' m' st' = Some (Inl e, s'', st'')"
      for m' st'
      using progress [of s m "[]" x s'] ok_step [of s m "[]" x s'] that less r Inr by blast
    then have IH: "(\<nexists>c. x = StepDone c) \<longrightarrow> calm st' \<longrightarrow>
        complete_handshake step s' m' st' = Some (Inl e, s'', st'') \<longrightarrow> \<not> panicking e" for m' st'
      by blast
    show ?thesis
    proof (cases x)
      case (ExpectReply b)
      with less.prems r Inr IH show ?thesis
        by (subst (asm) complete_handshake.simps)
          (auto split: prod.split_asm sum.split_asm dest: calm_errors calm_states; blast dest: calm_errors calm_states)
    qed (use less.prems r Inr IH in \<open>subst (asm) complete_handshake.simps;
      force split: prod.split_asm sum.split_asm dest: calm_errors calm_states\<close>)+
  qed
qed

end

section \<open>No message makes a party panic\<close>

lemma not_panicking [simp]:
  "\<not> panicking (Noise x)" "\<not> panicking (NoiseProtocol x)" "\<not> panicking (NoiseSignature x)"
  "panicking (V2Serialization e) \<longleftrightarrow> e = Unreachable" "panicking (Panic p)"
  by (simp_all add: panicking_def)

lemma read_slice_no_panic: "no_panic p \<Longrightarrow> read_slice p bs \<noteq> Inl Unreachable"
  by (auto simp: no_panic_def read_slice_def result_simps split: if_split_asm)

lemma no_panic_read_negotiation: "no_panic read_negotiation"
  unfolding read_negotiation_def read_algorithm_def
  by (intro no_panic_intros) (auto intro!: no_panic_intros split: option.splits)

lemma signature_message_no_panic: "signature_message_try_from L data = Inl e \<Longrightarrow> \<not> panicking e"
proof -
  have "no_panic (rd_bind read_header (\<lambda>h. rd_map (\<lambda>s. \<lparr>snm_header = h, snm_signature = s\<rparr>) (sig_deserialize L)))"
    unfolding read_header_def sig_deserialize_def
    by (intro no_panic_intros) (auto intro!: no_panic_intros split: sum.splits)
  from read_slice_no_panic [OF this, of data] show "signature_message_try_from L data = Inl e \<Longrightarrow> \<not> panicking e"
    by (auto simp: signature_message_try_from_def map_err_def split: sum.split_asm)
qed

lemma verify_expiration_no_panic: "verify_expiration L h now = Inl e \<Longrightarrow> \<not> panicking e"
  by (auto simp: verify_expiration_def system_time_to_unix_time_u32_def result_simps split: if_split_asm)

lemma serialize_len_no_panic: "serialize_len I n \<noteq> Inl Unreachable"
  by (cases I) (auto simp: serialize_len_def u8_try_from_def u16_try_from_def serialize_u8_def serialize_u16_def
      write_all_def)

lemma serialize_to_buf_no_panic:
  assumes "key_format L" and "length (sp_authority_public_key p) = 32" and "serialize_to_buf L p = Inl e"
  shows "\<not> panicking e"
proof (cases "length (sp_pubkey p) < 65536")
  case True
  with assms serialize_to_buf_wf [of L p] show ?thesis by (simp add: wf_signed_part_def)
next
  case False
  then have "serialize_len LenU16 (length (sp_pubkey p)) = Inl Overlong"
    by (simp add: serialize_len_def u16_try_from_def)
  then have "serialize (sv_signed_part L p) = Inl Overlong"
    by (simp add: sv_signed_part_def sv_vec_u8_def sv_header_def and_write_def serialize_u16_def serialize_u32_def
        write_all_def)
  with assms(3) show ?thesis by (auto simp: serialize_to_buf_def to_vec_def)
qed

lemma validate_no_panic:
  assumes "key_format L" and "length ca = 32" and "validate_certificate L (from_noise_message m key ca) now = Inl e"
  shows "\<not> panicking e"
proof -
  let ?p = "certificate_part (from_noise_message m key ca)"
  have "length (sp_authority_public_key ?p) = 32"
    using assms(2) by (simp add: certificate_part_def from_noise_message_def certificate_new_def)
  note serialize_to_buf_no_panic [OF assms(1) this]
  with assms(3) show ?thesis
    by (auto simp: validate_certificate_def verify_signed_part_def rbind_def map_err_def
        split: sum.split_asm dest: verify_expiration_no_panic)
qed

text \<open>
  What the parties rely on: \<open>snow\<close> knows the parameters and builds its states, and an
  initiator that has read the responder's message knows its static key.
\<close>

definition awaiting_reply :: "('h, 't) snow_lib \<Rightarrow> 'h \<Rightarrow> bool" where
  "awaiting_reply S h \<longleftrightarrow>
     (\<exists>a pro h0 m. snow_initiator S (noise_params a) pro = Inr h0 \<and> hs_write_message S h0 [] = (h, Inr m))"

definition snow_sound :: "('h, 't) snow_lib \<Rightarrow> bool" where
  "snow_sound S \<longleftrightarrow>
     (\<forall>a. parse_params S (noise_params a)) \<and>
     (\<forall>a pro. is_ok (snow_initiator S (noise_params a) pro)) \<and>
     (\<forall>a pro priv. length priv = 32 \<longrightarrow> is_ok (snow_responder S (noise_params a) pro priv)) \<and>
     (\<forall>h m h' b. awaiting_reply S h \<longrightarrow> hs_read_message S h m = (h', Inr b) \<longrightarrow> get_remote_static S h' \<noteq> None)"

definition initiator_ok :: "('h, 't) snow_lib \<Rightarrow> noise_libs \<Rightarrow> 'h initiator \<Rightarrow> bool" where
  "initiator_ok S L i \<longleftrightarrow>
     snow_sound S \<and> key_format L \<and> length (i_authority_public_key i) = 32 \<and> length (i_algorithms i) \<le> 255 \<and>
     i_stage i \<le> 2 \<and> (i_stage i = 2 \<longrightarrow> (\<exists>h. i_handshake_state i = Some h \<and> awaiting_reply S h))"

definition responder_ok :: "('h, 't) snow_lib \<Rightarrow> 'h responder \<Rightarrow> bool" where
  "responder_ok S r \<longleftrightarrow> snow_sound S \<and> length (r_static_private r) = 32 \<and> r_stage r \<le> 3"

lemma build_states:
  assumes "snow_sound S" and "wf_negotiation m" and "encryption_algos m = [a]"
  shows "\<exists>h pro. initiator_build_handshake_state S
      \<lparr>chosen_algorithm = a, en_prologue = prologue_default\<lparr>responder_msg := Some m\<rparr>\<rparr> = Inr h \<and>
      snow_initiator S (noise_params a) pro = Inr h"
    and "length priv = 32 \<Longrightarrow> \<exists>h. responder_build_handshake_state S priv
      \<lparr>chosen_algorithm = a, en_prologue = prologue_default\<lparr>responder_msg := Some m\<rparr>\<rparr> = Inr h"
    and "length priv = 32 \<Longrightarrow> \<exists>h. responder_build_handshake_state S priv
      \<lparr>chosen_algorithm = b, en_prologue = prologue_default\<rparr> = Inr h"
proof -
  from prologue_written [OF assms(2)] obtain pro
    where pro: "to_vec (sv_prologue (prologue_default\<lparr>responder_msg := Some m\<rparr>)) = Inr pro" ..
  from assms(1) have p: "params_builder_new S c = Inr (noise_params c)" for c
    by (simp add: snow_sound_def params_builder_new_def)
  from assms(1) have "\<exists>h. snow_initiator S (noise_params a) pro = Inr h"
    by (simp add: snow_sound_def is_ok_iff)
  then obtain h where "snow_initiator S (noise_params a) pro = Inr h" ..
  with pro p show "\<exists>h pro. initiator_build_handshake_state S
      \<lparr>chosen_algorithm = a, en_prologue = prologue_default\<lparr>responder_msg := Some m\<rparr>\<rparr> = Inr h \<and>
      snow_initiator S (noise_params a) pro = Inr h"
    by (auto simp: initiator_build_handshake_state_def expect_ok_def)
  show "\<exists>h. responder_build_handshake_state S priv
      \<lparr>chosen_algorithm = a, en_prologue = prologue_default\<lparr>responder_msg := Some m\<rparr>\<rparr> = Inr h" if "length priv = 32"
    using assms(1) that pro p
    by (simp add: snow_sound_def is_ok_iff responder_build_handshake_state_def expect_ok_def prologue_default_def
        result_simps)
  show "\<exists>h. responder_build_handshake_state S priv \<lparr>chosen_algorithm = b, en_prologue = prologue_default\<rparr> = Inr h"
    if "length priv = 32"
    using assms(1) that p
    by (simp add: snow_sound_def is_ok_iff responder_build_handshake_state_def expect_ok_def result_simps)
qed

text \<open>A step that leaves the party in a good state, or fails without a panic.\<close>

definition good_step :: "('s \<Rightarrow> bool) \<Rightarrow> (stratum_error + step_result) \<times> 's \<Rightarrow> bool" where
  "good_step ok x \<longleftrightarrow>
     (case x of (Inr r, s') \<Rightarrow> (\<exists>c. r = StepDone c) \<or> ok s' | (Inl e, s') \<Rightarrow> \<not> panicking e)"

lemma good_step_simps [simp]:
  "good_step ok (Inl e, s) \<longleftrightarrow> \<not> panicking e" "good_step ok (Inr (StepDone c), s)"
  "good_step ok (Inr (ExpectReply b), s) \<longleftrightarrow> ok s" "good_step ok (Inr (NoMoreReply b), s) \<longleftrightarrow> ok s"
  "good_step ok (Inr (NextStep b), s) \<longleftrightarrow> ok s" "good_step ok (Inr ReceiveMessage, s) \<longleftrightarrow> ok s"
  by (simp_all add: good_step_def)

lemma good_return:
  assumes "\<And>e. r = Inl e \<Longrightarrow> \<not> panicking e" and "\<And>x. r = Inr x \<Longrightarrow> good_step ok (k x)"
  shows "good_step ok (or_return r s k)"
  using assms by (cases r) (simp_all add: or_return_def)

lemma some_no_panic [simp]: "some_message m = Inl e \<Longrightarrow> \<not> panicking e" "some_state h = Inl e \<Longrightarrow> \<not> panicking e"
  by (auto simp: some_message_def some_state_def ok_or_def split: option.split_asm)

lemma read_negotiation_no_panic:
  "map_err V2Serialization (read_slice read_negotiation msg) = Inl e \<Longrightarrow> \<not> panicking e"
  using read_slice_no_panic [OF no_panic_read_negotiation, of msg]
  by (auto simp: map_err_def split: sum.split_asm)

lemma initiator_step_1_good:
  assumes "initiator_ok S L s" and "i_stage s = 1"
  shows "good_step (initiator_ok S L) (initiator_step_1 S s m b)"
  unfolding initiator_step_1_def
proof (intro good_return)
  fix msg n
  show "good_step (initiator_ok S L) (if length (encryption_algos n) \<noteq> 1
      then (Inl (Noise ''Wrong number of algorithms arrived (expected 1)''), s)
      else or_return (initiator_build_handshake_state S \<lparr>chosen_algorithm = hd (encryption_algos n),
          en_prologue = prologue_default\<lparr>responder_msg := Some n\<rparr>\<rparr>) s (\<lambda>h.
        case hs_write_message S h [] of
          (h', Inl e) \<Rightarrow> (Inl (NoiseProtocol e), s\<lparr>i_handshake_state := Some h'\<rparr>)
        | (h', Inr o1) \<Rightarrow> (Inr (ExpectReply (b @ o1)), s\<lparr>i_handshake_state := Some h', i_stage := i_stage s + 1\<rparr>)))"
  proof (cases "length (encryption_algos n) = 1")
    case True
    then obtain a where a: "encryption_algos n = [a]" by (cases "encryption_algos n") auto
    have "snow_sound S" "wf_negotiation n" using assms(1) a by (simp_all add: initiator_ok_def wf_negotiation_def)
    from build_states(1) [OF this a] obtain h pro where "initiator_build_handshake_state S
        \<lparr>chosen_algorithm = a, en_prologue = prologue_default\<lparr>responder_msg := Some n\<rparr>\<rparr> = Inr h"
      "snow_initiator S (noise_params a) pro = Inr h" by auto
    with assms a show ?thesis
      by (auto simp: or_return_def initiator_ok_def awaiting_reply_def split: prod.split sum.split)
  qed simp
qed (simp_all add: read_negotiation_no_panic)

lemma verify_no_panic:
  assumes "initiator_ok S L s" and "i_handshake_state s' = Some h" and "get_remote_static S h \<noteq> None"
    and "i_authority_public_key s' = i_authority_public_key s"
    and "verify_remote_static_key_signature S L now s' d = Inl e"
  shows "\<not> panicking e"
  using assms
  by (auto simp: verify_remote_static_key_signature_def some_state_def initiator_ok_def Let_def rbind_def rmap_def
      split: sum.split_asm dest: signature_message_no_panic validate_no_panic)

lemma initiator_step_2_good:
  assumes "initiator_ok S L s" and "i_stage s = 2"
  shows "good_step (initiator_ok S L) (initiator_step_2 S L now s m)"
proof -
  from assms obtain h where h: "i_handshake_state s = Some h" "awaiting_reply S h" by (auto simp: initiator_ok_def)
  have "get_remote_static S h' \<noteq> None" if "hs_read_message S h y = (h', Inr d)" for y h' d
  proof -
    have "snow_sound S" using assms(1) by (simp add: initiator_ok_def)
    with h(2) that show ?thesis unfolding snow_sound_def by blast
  qed
  then have "\<not> panicking e" if "hs_read_message S h y = (h', Inr d)"
    "verify_remote_static_key_signature S L now (s\<lparr>i_handshake_state := Some h'\<rparr>) d = Inl e" for y h' d e
    using verify_no_panic [OF assms(1) _ _ _ that(2)] that(1) by simp
  with h(1) show ?thesis
    unfolding initiator_step_2_def Let_def
    by (intro good_return) (auto simp: some_state_def split: prod.split sum.split intro!: good_return)
qed

interpretation ini_safe: handshake_party_safe "initiator_step S L now" "\<lambda>i. 3 - i_stage i" "initiator_ok S L"
  for S :: "('h, 't) snow_lib" and L now
proof
  have good: "good_step (initiator_ok S L) (initiator_step S L now s m b)" if "initiator_ok S L s" for s m b
  proof -
    have "i_stage s \<le> 2" using that by (simp add: initiator_ok_def)
    then have "i_stage s = 0 \<or> i_stage s = 1 \<or> i_stage s = 2" by arith
    then show ?thesis
      using that
      by (elim disjE) (auto simp: initiator_step_def initiator_step_1_good initiator_step_2_good initiator_step_0_def
          negotiation_message_new_def initiator_ok_def negotiation_bytes or_return_def)
  qed
  fix s m b r s' e
  assume ok: "initiator_ok S L s"
  show "(\<exists>c. r = StepDone c) \<or> initiator_ok S L s'" if "initiator_step S L now s m b = (Inr r, s')"
    using good [OF ok, of m b] that by (simp add: good_step_def)
  show "\<not> panicking e" if "initiator_step S L now s m b = (Inl e, s')"
    using good [OF ok, of m b] that by simp
qed

lemma responder_step_1_good:
  assumes "responder_ok S s" and "r_stage s = 1"
  shows "good_step (responder_ok S) (responder_step_1 S s m b)"
proof -
  have s: "snow_sound S" "length (r_static_private s) = 32" using assms(1) by (simp_all add: responder_ok_def)
  have "good_step (responder_ok S) (or_return (choose_algorithm (r_algorithms s) algs) s (\<lambda>a.
      or_return (negotiation_message_new [a]) s (\<lambda>reply.
      or_return (map_err V2Serialization (to_vec (sv_negotiation reply))) s (\<lambda>out.
      or_return (responder_build_handshake_state S (r_static_private s)
        \<lparr>chosen_algorithm = a, en_prologue = prologue_default\<lparr>responder_msg := Some reply\<rparr>\<rparr>) s (\<lambda>h.
      (Inr (ExpectReply (b @ out)), s\<lparr>r_handshake_state := Some h, r_stage := r_stage s + 1\<rparr>))))))" for algs
  proof (rule good_return)
    fix a
    let ?m = "\<lparr>nm_magic = NEGOTIATION_MAGIC, encryption_algos = [a]\<rparr>"
    from build_states(2) [OF s(1) _ _ s(2), of ?m a] obtain h where "responder_build_handshake_state S (r_static_private s)
        \<lparr>chosen_algorithm = a, en_prologue = prologue_default\<lparr>responder_msg := Some ?m\<rparr>\<rparr> = Inr h"
      by (auto simp: wf_negotiation_def)
    with assms negotiation_bytes(1) [of "[a]"]
    show "good_step (responder_ok S) (or_return (negotiation_message_new [a]) s (\<lambda>reply.
      or_return (map_err V2Serialization (to_vec (sv_negotiation reply))) s (\<lambda>out.
      or_return (responder_build_handshake_state S (r_static_private s)
        \<lparr>chosen_algorithm = a, en_prologue = prologue_default\<lparr>responder_msg := Some reply\<rparr>\<rparr>) s (\<lambda>h.
      (Inr (ExpectReply (b @ out)), s\<lparr>r_handshake_state := Some h, r_stage := r_stage s + 1\<rparr>)))))"
      by (simp add: or_return_def negotiation_message_new_def responder_ok_def)
  qed (auto simp: choose_algorithm_def ok_or_def split: if_split_asm option.split_asm)
  moreover obtain h where "responder_build_handshake_state S (r_static_private s)
      \<lparr>chosen_algorithm = ChaChaPoly, en_prologue = prologue_default\<rparr> = Inr h"
    using build_states(3) [OF s(1) _ _ s(2), of "\<lparr>nm_magic = 0, encryption_algos = [AESGCM]\<rparr>" AESGCM ChaChaPoly]
    by (auto simp: wf_negotiation_def)
  ultimately show ?thesis
    using assms unfolding responder_step_1_def
    by (intro good_return) (auto simp: or_return_def responder_ok_def split: sum.split)
qed

lemma responder_step_2_good:
  assumes "responder_ok S s" and "r_stage s = 2"
  shows "good_step (responder_ok S) (responder_step_2 S s m b)"
  using assms unfolding responder_step_2_def
  by (intro good_return) (auto simp: responder_ok_def split: prod.split sum.split)

interpretation rsp_safe: handshake_party_safe "responder_step S" "\<lambda>r. 4 - r_stage r" "responder_ok S"
  for S :: "('h, 't) snow_lib"
proof
  have good: "good_step (responder_ok S) (responder_step S s m b)" if "responder_ok S s" for s m b
  proof -
    have "r_stage s \<le> 3" using that by (simp add: responder_ok_def)
    then have "r_stage s = 0 \<or> r_stage s = 1 \<or> r_stage s = 2 \<or> r_stage s = 3" by arith
    then show ?thesis
      using that
      by (elim disjE) (auto simp: responder_step_def responder_step_1_good responder_step_2_good responder_ok_def)
  qed
  fix s m b r s' e
  assume ok: "responder_ok S s"
  show "(\<exists>c. r = StepDone c) \<or> responder_ok S s'" if "responder_step S s m b = (Inr r, s')"
    using good [OF ok, of m b] that by (simp add: good_step_def)
  show "\<not> panicking e" if "responder_step S s m b = (Inl e, s')"
    using good [OF ok, of m b] that by simp
qed

section \<open>Authentication\<close>

lemma initiator_step_authority:
  "initiator_step S L now s m b = (Inr r, s') \<Longrightarrow> i_authority_public_key s' = i_authority_public_key s"
  by (auto simp: initiator_step_def initiator_step_0_def initiator_step_1_def initiator_step_2_def or_return_def
      Let_def split: if_split_asm prod.split_asm sum.split_asm)

lemma initiator_step_certificate:
  assumes "initiator_step S L now s m b = (Inr (StepDone c), s')"
  shows "\<exists>h key msg cert t. i_handshake_state s' = Some h \<and> get_remote_static S h = Some key \<and> c = Some cert \<and>
    cert = from_noise_message msg key (i_authority_public_key s) \<and> validate_certificate L cert now = Inr t"
  using assms
  by (auto simp: initiator_step_def initiator_step_0_def initiator_step_1_def initiator_step_2_def or_return_def
      verify_remote_static_key_signature_def some_state_def Let_def result_simps
      split: if_split_asm prod.split_asm sum.split_asm; blast)

section \<open>Example libraries\<close>

text \<open>
  A Noise library without cryptography: the responder's message starts with its static key, and a
  transport message is the payload with a tag that counts the messages.
\<close>

definition toy_tag :: "nat \<Rightarrow> bytes" where
  "toy_tag n = replicate TAGLEN (of_nat n)"

definition toy_snow :: "(bool \<times> bytes, nat \<times> nat) snow_lib" where
  "toy_snow =
     \<lparr>parse_params = (\<lambda>_. True),
      snow_initiator = (\<lambda>_ _. Inr (True, [])),
      snow_responder = (\<lambda>_ _ key. Inr (False, key)),
      hs_write_message = (\<lambda>(ini, key) b. ((ini, key), Inr (if ini then b else key @ b))),
      hs_read_message = (\<lambda>(ini, key) m.
        if \<not> ini then ((ini, key), Inr m)
        else if length m < 32 then ((ini, key), Inl ''decrypt'') else ((ini, take 32 m), Inr (drop 32 m))),
      get_remote_static = (\<lambda>(ini, key). if ini \<and> length key = 32 then Some key else None),
      into_transport_mode = (\<lambda>_. Inr (0, 0)),
      t_write_message = (\<lambda>(w, r) b.
        if MAX_PAYLOAD_SIZE < length b then ((w, r), Inl ''input'') else ((w + 1, r), Inr (b @ toy_tag w))),
      t_read_message = (\<lambda>(w, r) c.
        if TAGLEN \<le> length c \<and> drop (length c - TAGLEN) c = toy_tag r
        then ((w, r + 1), Inr (take (length c - TAGLEN) c)) else ((w, r), Inl ''decrypt''))\<rparr>"

definition toy_paired :: "nat \<times> nat \<Rightarrow> nat \<times> nat \<Rightarrow> bool" where
  "toy_paired t u \<longleftrightarrow> fst t = snd u \<and> snd t = fst u"

lemma toy_snow_nx: "snow_nx toy_snow (\<lambda>k. k) toy_paired"
proof -
  have "nx_exchange toy_snow (\<lambda>k. k) toy_paired params pro priv payload" if "length priv = 32" for params pro priv payload
    unfolding nx_exchange_def
  proof (intro exI conjI)
    show "snow_initiator toy_snow params pro = Inr (True, [])" "snow_responder toy_snow params pro priv = Inr (False, priv)"
      "hs_write_message toy_snow (True, []) [] = ((True, []), Inr [])"
      "hs_read_message toy_snow (False, priv) [] = ((False, priv), Inr [])"
      "hs_write_message toy_snow (False, priv) payload = ((False, priv), Inr (priv @ payload))"
      "hs_read_message toy_snow (True, []) (priv @ payload) = ((True, priv), Inr payload)"
      "get_remote_static toy_snow (True, priv) = Some priv"
      "into_transport_mode toy_snow (True, priv) = Inr (0, 0)" "into_transport_mode toy_snow (False, priv) = Inr (0, 0)"
      "toy_paired (0, 0) (0, 0)"
      using that by (auto simp: toy_snow_def toy_paired_def)
  qed
  then show ?thesis by (simp add: snow_nx_def) (simp add: toy_snow_def)
qed

lemma toy_snow_sound: "snow_sound toy_snow"
  by (auto simp: snow_sound_def awaiting_reply_def toy_snow_def split: if_split_asm)

text \<open>A library that accepts the authority's one signature, the encoding of the part itself.\<close>

definition strict_libs :: noise_libs where
  "strict_libs = toy_noise_libs\<lparr>verify_strict := (\<lambda>k m s.
     if k = replicate 32 2 \<and> serialize_to_buf toy_noise_libs example_part = Inr m then Inr () else Inl ''refused'')\<rparr>"

lemma serialize_to_buf_strict: "serialize_to_buf strict_libs p = serialize_to_buf toy_noise_libs p"
  by (simp add: serialize_to_buf_def sv_signed_part_def strict_libs_def)

lemma verify_strict_libs:
  "verify_strict strict_libs k m s = Inr () \<longleftrightarrow> k = replicate 32 2 \<and> serialize_to_buf toy_noise_libs example_part = Inr m"
  by (simp add: strict_libs_def)

lemma example_server:
  obtains data m where "signature_message_try_from toy_noise_libs data = Inr m" "length data \<le> 1024"
    "is_ok (validate_certificate toy_noise_libs
       (from_noise_message m (x25519_base toy_noise_libs (replicate 32 1)) (replicate 32 2)) (15 * 10 ^ 9))"
proof -
  have a: "keypair_ok toy_noise_libs example_keypair" "wf_signed_part example_part"
    "sp_authority_public_key example_part = kp_public example_keypair"
    by (simp_all add: toy_libs_ok wf_signed_part_def example_part_def example_keypair_def)
  have k: "x25519_base toy_noise_libs (replicate 32 1) = sp_pubkey example_part" "kp_public example_keypair = replicate 32 2"
    by (simp_all add: toy_noise_libs_def example_part_def example_keypair_def)
  have "is_ok (verify_expiration toy_noise_libs (sp_header example_part) (15 * 10 ^ 9))"
    by (subst verify_expiration_iff) (simp_all add: example_part_def signed_part_header_new_def)
  with accepted_certificate [OF toy_libs_ok(1) a] k that show ?thesis by fastforce
qed

section \<open>Properties\<close>

text \<open>
  C16. The handshake ends for both parties, whatever the network delivers, refuses or delays: with a
  result or with an error, and never with a panic.
\<close>

theorem handshake_total:
  assumes "snow_sound S" and "key_format L" and "length ca = 32" and "length algs \<le> 255" and "length priv = 32"
    and "calm st"
  shows "(\<exists>r i st'. complete_handshake (initiator_step S L now) (initiator_new ca algs) None st = Some (r, i, st') \<and>
            (\<forall>e. r = Inl e \<longrightarrow> \<not> panicking e)) \<and>
         (\<exists>r i st'. complete_handshake (responder_step S) (responder_new priv data own) None st = Some (r, i, st') \<and>
            (\<forall>e. r = Inl e \<longrightarrow> \<not> panicking e))"
proof -
  have i: "initiator_ok S L (initiator_new ca algs)" and r: "responder_ok S (responder_new priv data own)"
    using assms by (simp_all add: initiator_ok_def initiator_new_def responder_ok_def responder_new_def)
  obtain x1 x2 x3 where x: "complete_handshake (initiator_step S L now) (initiator_new ca algs) None st = Some (x1, x2, x3)"
    using ini.loop_ends [of S L now "initiator_new ca algs" None st] by auto
  obtain y1 y2 y3 where y: "complete_handshake (responder_step S) (responder_new priv data own) None st = Some (y1, y2, y3)"
    using rsp.loop_ends [of S "responder_new priv data own" None st] by auto
  show ?thesis
    using x y ini_safe.loop_safe [OF i assms(6)] rsp_safe.loop_safe [OF r assms(6)] by blast
qed

theorem handshake_total_witness:
  "\<exists>r i st'. complete_handshake (responder_step toy_snow) (responder_new (replicate 32 1) [] [ChaChaPoly]) None
     (quiet [RecvFrame [1, 2, 3], RecvTimeout] []) = Some (r, i, st') \<and> (\<forall>e. r = Inl e \<longrightarrow> \<not> panicking e)"
  using handshake_total [OF toy_snow_sound toy_libs_ok(1), of "replicate 32 2" "[AESGCM]" "replicate 32 1"
      "quiet [RecvFrame [1, 2, 3], RecvTimeout] []"]
  by (simp add: calm_def quiet_def)

text \<open>
  Between two honest parties the handshake succeeds. Each receives what the other one sends, in
  four messages; they agree on the algorithm that the responder chose, the initiator ends up with
  the server's certificate, validated for the static key it has talked to, and the transport
  states are connected.
\<close>

theorem handshake_agreement:
  assumes "snow_nx S (x25519_base L) paired" and "length algs \<le> 255" and "choose_algorithm own algs = Inr a"
    and "length priv = 32" and "length data \<le> 1024" and "signature_message_try_from L data = Inr m"
    and "is_ok (validate_certificate L (from_noise_message m (x25519_base L priv) ca) now)"
  shows "\<exists>m1 m2 ti tr.
    connect_with_cert S L now (initiator_new ca algs) (quiet [RecvFrame (negotiation_bytes [a]), RecvFrame m2] []) =
      Some (Inr (ti, from_noise_message m (x25519_base L priv) ca), quiet [] [negotiation_bytes algs, m1]) \<and>
    handshake_run S (responder_step S) r_handshake_state (responder_new priv data own)
        (quiet [RecvFrame (negotiation_bytes algs), RecvFrame m1] []) =
      Some (Inr tr, quiet [] [negotiation_bytes [a], m2]) \<and> paired ti tr"
  using handshake_completes [OF assms(1,2,2-4) _ assms(6,7)] assms(5) by (simp add: MAX_MESSAGE_SIZE_def)

lemma toy_snow_x25519: "snow_nx toy_snow (x25519_base toy_noise_libs) toy_paired"
  using toy_snow_nx by (simp add: toy_noise_libs_def)

theorem handshake_agreement_witness:
  "\<exists>data m m1 m2 ti tr.
    connect_with_cert toy_snow toy_noise_libs (15 * 10 ^ 9) (initiator_new (replicate 32 2) [ChaChaPoly, AESGCM])
        (quiet [RecvFrame (negotiation_bytes [AESGCM]), RecvFrame m2] []) =
      Some (Inr (ti, from_noise_message m (replicate 32 1) (replicate 32 2)),
        quiet [] [negotiation_bytes [ChaChaPoly, AESGCM], m1]) \<and>
    handshake_run toy_snow (responder_step toy_snow) r_handshake_state (responder_new (replicate 32 1) data [AESGCM])
        (quiet [RecvFrame (negotiation_bytes [ChaChaPoly, AESGCM]), RecvFrame m1] []) =
      Some (Inr tr, quiet [] [negotiation_bytes [AESGCM], m2]) \<and> toy_paired ti tr"
proof -
  obtain data m where d: "signature_message_try_from toy_noise_libs data = Inr m" "length data \<le> 1024"
    "is_ok (validate_certificate toy_noise_libs
       (from_noise_message m (x25519_base toy_noise_libs (replicate 32 1)) (replicate 32 2)) (15 * 10 ^ 9))"
    by (rule example_server)
  have c: "choose_algorithm [AESGCM] [ChaChaPoly, AESGCM] = Inr AESGCM" by (simp add: choose_algorithm_def)
  have x: "x25519_base toy_noise_libs b = b" for b by (simp add: toy_noise_libs_def)
  from handshake_agreement [OF toy_snow_x25519 _ c _ d(2,1,3)] show ?thesis by (simp add: x) blast
qed

text \<open>
  The negotiation is not protected: if the network replaces the initiator's list by
  another one, the handshake completes all the same and both use the algorithm the responder
  chose from the list it was shown, since the prologue of neither party contains the list.
\<close>

theorem negotiation_downgrade:
  assumes "snow_nx S (x25519_base L) paired" and "length algs \<le> 255" and "ChaChaPoly \<in> set own"
    and "length priv = 32" and "length data \<le> 1024" and "signature_message_try_from L data = Inr m"
    and "is_ok (validate_certificate L (from_noise_message m (x25519_base L priv) ca) now)"
  shows "\<exists>m1 m2 ti tr.
    connect_with_cert S L now (initiator_new ca algs)
        (quiet [RecvFrame (negotiation_bytes [ChaChaPoly]), RecvFrame m2] []) =
      Some (Inr (ti, from_noise_message m (x25519_base L priv) ca), quiet [] [negotiation_bytes algs, m1]) \<and>
    handshake_run S (responder_step S) r_handshake_state (responder_new priv data own)
        (quiet [RecvFrame (negotiation_bytes [ChaChaPoly]), RecvFrame m1] []) =
      Some (Inr tr, quiet [] [negotiation_bytes [ChaChaPoly], m2]) \<and> paired ti tr"
proof -
  have "choose_algorithm own [ChaChaPoly] = Inr ChaChaPoly" using assms(3) by (simp add: choose_algorithm_def)
  with handshake_completes [OF assms(1,2) _ _ assms(4) _ assms(6,7)] assms(5) show ?thesis
    by (simp add: MAX_MESSAGE_SIZE_def)
qed

theorem negotiation_downgrade_witness:
  "\<exists>data m m1 m2 ti tr.
    connect_with_cert toy_snow toy_noise_libs (15 * 10 ^ 9) (initiator_new (replicate 32 2) [AESGCM, ChaChaPoly])
        (quiet [RecvFrame (negotiation_bytes [ChaChaPoly]), RecvFrame m2] []) =
      Some (Inr (ti, from_noise_message m (replicate 32 1) (replicate 32 2)),
        quiet [] [negotiation_bytes [AESGCM, ChaChaPoly], m1]) \<and>
    handshake_run toy_snow (responder_step toy_snow) r_handshake_state
        (responder_new (replicate 32 1) data [AESGCM, ChaChaPoly])
        (quiet [RecvFrame (negotiation_bytes [ChaChaPoly]), RecvFrame m1] []) =
      Some (Inr tr, quiet [] [negotiation_bytes [ChaChaPoly], m2])"
proof -
  obtain data m where d: "signature_message_try_from toy_noise_libs data = Inr m" "length data \<le> 1024"
    "is_ok (validate_certificate toy_noise_libs
       (from_noise_message m (x25519_base toy_noise_libs (replicate 32 1)) (replicate 32 2)) (15 * 10 ^ 9))"
    by (rule example_server)
  have x: "x25519_base toy_noise_libs b = b" for b by (simp add: toy_noise_libs_def)
  from negotiation_downgrade [OF toy_snow_x25519 _ _ _ d(2,1,3), of "[AESGCM, ChaChaPoly]" "[AESGCM, ChaChaPoly]"]
  show ?thesis by (simp add: x) blast
qed

text \<open>
  C5. The initiator finishes for certified servers only. Whatever the network does, a handshake that
  ends with a certificate has authenticated a static key in the Noise pattern, and that very key
  is one for which the authority made a signature, with a validity that contains the present time.
\<close>

theorem initiator_authenticates:
  assumes "key_format L" and "only_signed L ca parts" and "length ca = 32"
    and "\<forall>h k. get_remote_static S h = Some k \<longrightarrow> length k = 32"
    and "complete_handshake (initiator_step S L now) (initiator_new ca algs) None st = Some (Inr c, i, st')"
  shows "\<exists>h key cert. i_handshake_state i = Some h \<and> get_remote_static S h = Some key \<and> c = Some cert \<and>
    cert_public_key cert = key \<and> certificate_part cert \<in> parts \<and>
    is_ok (verify_expiration L (signed_part_header cert) now)"
proof -
  have "\<exists>s m. i_authority_public_key s = ca \<and> initiator_step S L now s m [] = (Inr (StepDone c), i)"
    by (rule ini.loop_result [OF _ _ assms(5)]) (simp_all add: initiator_step_authority initiator_new_def)
  then obtain s m where s: "i_authority_public_key s = ca" "initiator_step S L now s m [] = (Inr (StepDone c), i)"
    by blast
  from initiator_step_certificate [OF s(2)] s(1) obtain h key msg t where
    h: "i_handshake_state i = Some h" "get_remote_static S h = Some key" "c = Some (from_noise_message msg key ca)"
    and v: "validate_certificate L (from_noise_message msg key ca) now = Inr t" by auto
  from assms(4) h(2) have "length key < 65536" by auto
  from certificate_binds_key [OF assms(1-3) this v] h show ?thesis
    by (auto simp: from_noise_message_def certificate_new_def certificate_part_def)
qed

lemma strict_server:
  "\<exists>data m. signature_message_try_from strict_libs data = Inr m \<and> length data = 76 \<and>
     is_ok (validate_certificate strict_libs (from_noise_message m (replicate 32 1) (replicate 32 2)) (15 * 10 ^ 9))"
proof -
  have wf: "wf_signed_part example_part" by (simp add: wf_signed_part_def example_part_def)
  let ?m = "\<lparr>snm_header = sp_header example_part, snm_signature = replicate 64 0\<rparr>"
  let ?c = "from_noise_message ?m (replicate 32 1) (replicate 32 2)"
  have "signature_from_bytes strict_libs (replicate 64 0) = Inr (replicate 64 0)"
    by (simp add: strict_libs_def toy_noise_libs_def)
  then have d: "\<exists>data. signature_message_try_from strict_libs data = Inr ?m \<and> length data = 76"
    using signature_message_roundtrip [of ?m strict_libs] by auto
  have "certificate_part ?c = example_part"
    by (simp add: certificate_part_def from_noise_message_def certificate_new_def example_part_def)
  moreover have "verify_signed_part strict_libs example_part s = Inr ()" for s
    using serialize_to_buf_wf [OF toy_libs_ok(1) wf]
    by (simp add: verify_signed_part_def serialize_to_buf_strict) (simp add: strict_libs_def example_part_def)
  ultimately have "validate_certificate strict_libs ?c now = verify_expiration strict_libs (sp_header example_part) now" for now
    by (simp add: validate_certificate_def from_noise_message_def certificate_new_def)
  then have "is_ok (validate_certificate strict_libs ?c (15 * 10 ^ 9))"
    by (simp add: verify_expiration_iff example_part_def signed_part_header_new_def)
  with d show ?thesis by blast
qed

theorem initiator_authenticates_witness:
  "\<exists>c i st st'. complete_handshake (initiator_step toy_snow strict_libs (15 * 10 ^ 9))
       (initiator_new (replicate 32 2) [AESGCM]) None st = Some (Inr (Some c), i, st') \<and>
     certificate_part c \<in> {example_part}"
proof -
  from strict_server obtain data m where d: "signature_message_try_from strict_libs data = Inr m"
    "length data + 96 \<le> MAX_MESSAGE_SIZE"
    "is_ok (validate_certificate strict_libs (from_noise_message m (replicate 32 1) (replicate 32 2)) (15 * 10 ^ 9))"
    by (auto simp: MAX_MESSAGE_SIZE_def)
  have "choose_algorithm [AESGCM] [AESGCM] = Inr AESGCM" by (simp add: choose_algorithm_def)
  from handshake_completes [OF toy_snow_nx _ _ this _ d(2,1,3), of "[AESGCM]"]
  have "\<exists>st ti c st1. connect_with_cert toy_snow strict_libs (15 * 10 ^ 9) (initiator_new (replicate 32 2) [AESGCM]) st =
      Some (Inr (ti, c), st1)" by (simp, elim exE conjE) (rule exI | assumption)+
  then obtain st ti c st1 where "connect_with_cert toy_snow strict_libs (15 * 10 ^ 9) (initiator_new (replicate 32 2) [AESGCM]) st =
      Some (Inr (ti, c), st1)" by (elim exE)
  then obtain i where r: "complete_handshake (initiator_step toy_snow strict_libs (15 * 10 ^ 9))
      (initiator_new (replicate 32 2) [AESGCM]) None st = Some (Inr (Some c), i, st1)"
    by (auto simp: connect_with_cert_def result_simps)
  have "key_format strict_libs" using toy_libs_ok(1) by (simp add: key_format_def strict_libs_def)
  moreover have "only_signed strict_libs (replicate 32 2) {example_part}"
    by (auto simp: only_signed_def serialize_to_buf_strict verify_strict_libs wf_signed_part_def)
      (simp_all add: example_part_def)
  moreover have "\<forall>h k. get_remote_static toy_snow h = Some k \<longrightarrow> length k = 32"
    by (auto simp: toy_snow_def split: if_split_asm)
  ultimately have "certificate_part c \<in> {example_part}"
    using initiator_authenticates [OF _ _ _ _ r, of "{example_part}"] by auto
  with r show ?thesis by blast
qed

end
