(* ===== verification/Noise_Codec.thy ===== *)
theory Noise_Codec
  imports V2_Messages Noise_Parties
begin

text \<open>
  \<open>protocols/stratum/src/v2/noise/codec.rs\<close> and the transport mode of \<open>noise.rs\<close>: the codec that frames,
  encrypts and decrypts noise messages, and the compound codec that puts the codec of the
  protocol on top of it.

  Two connected ends are a FIFO queue of messages: encoding a message at one end appends it, decoding
  at the other end removes the oldest one. The queue is the abstract state, and \<open>in_flight\<close> relates
  it to the transport states of the ends and the bytes between them.
\<close>

section \<open>Transport mode\<close>

definition transport_read :: "('h, 't) snow_lib \<Rightarrow> 't \<Rightarrow> bytes \<Rightarrow> bytes \<Rightarrow> 't \<times> (stratum_error + bytes)" where
  "transport_read S t encrypted_msg decrypted_msg =
     (case t_read_message S t encrypted_msg of
        (t', Inl e) \<Rightarrow> (t', Inl (NoiseProtocol e))
      | (t', Inr b) \<Rightarrow> (t', Inr (decrypted_msg @ b)))"

definition transport_write :: "('h, 't) snow_lib \<Rightarrow> 't \<Rightarrow> bytes \<Rightarrow> bytes \<Rightarrow> 't \<times> (stratum_error + bytes)" where
  "transport_write S t plain_msg encrypted_msg =
     (case t_write_message S t plain_msg of
        (t', Inl e) \<Rightarrow> (t', Inl (NoiseProtocol e))
      | (t', Inr b) \<Rightarrow> (t', Inr (encrypted_msg @ b)))"

section \<open>The noise codec\<close>

datatype 't noise_state = HandShakeMode | Transport 't

record ('s, 't) noise_codec =
  nc_codec :: 's
  nc_state :: "'t noise_state"

definition noise_codec_default :: "'s \<Rightarrow> ('s, 't) noise_codec" where
  "noise_codec_default s0 = \<lparr>nc_codec = s0, nc_state = HandShakeMode\<rparr>"

definition set_transport_mode :: "'t \<Rightarrow> ('s, 't) noise_codec \<Rightarrow> stratum_error + ('s, 't) noise_codec" where
  "set_transport_mode t c =
     (case nc_state c of
        Transport _ \<Rightarrow> Inl (Panic ''BUG: codec is already in transport mode!'')
      | HandShakeMode \<Rightarrow> Inr (c\<lparr>nc_state := Transport t\<rparr>))"

definition is_in_transport_mode :: "('s, 't) noise_codec \<Rightarrow> bool" where
  "is_in_transport_mode c = (case nc_state c of Transport _ \<Rightarrow> True | HandShakeMode \<Rightarrow> False)"

definition noise_decode ::
    "('h, 't) snow_lib \<Rightarrow> 's ld_codec \<Rightarrow> ('s, 't) noise_codec \<Rightarrow> bytes \<Rightarrow>
     ('s, 't) noise_codec \<times> bytes \<times> (stratum_error + bytes option)" where
  "noise_decode S ldc c src =
     (case ldc (nc_codec c) src of
        (s', src', Inl e) \<Rightarrow> (c\<lparr>nc_codec := s'\<rparr>, src', Inl (IoError e))
      | (s', src', Inr noise_msg) \<Rightarrow>
          (case nc_state c of
             HandShakeMode \<Rightarrow> (c\<lparr>nc_codec := s'\<rparr>, src', Inr noise_msg)
           | Transport t \<Rightarrow>
               (case noise_msg of
                  None \<Rightarrow> (c\<lparr>nc_codec := s'\<rparr>, src', Inr None)
                | Some msg \<Rightarrow>
                    (case transport_read S t msg [] of
                       (t', r) \<Rightarrow> (c\<lparr>nc_codec := s', nc_state := Transport t'\<rparr>, src', rmap Some r)))))"

definition noise_encode ::
    "('h, 't) snow_lib \<Rightarrow> (bytes \<Rightarrow> bytes \<Rightarrow> string + bytes) \<Rightarrow> ('s, 't) noise_codec \<Rightarrow> bytes \<Rightarrow> bytes \<Rightarrow>
     ('s, 't) noise_codec \<times> (stratum_error + bytes)" where
  "noise_encode S lde c item dst =
     (case nc_state c of
        HandShakeMode \<Rightarrow> (c, map_err IoError (lde item dst))
      | Transport t \<Rightarrow>
          if MAX_PAYLOAD_SIZE < length item
          then (c, Inl (Panic ''TODO: noise transport doesn't currently support messages bigger than 65519''))
          else
            (case transport_write S t item [] of
               (t', Inl e) \<Rightarrow> (c\<lparr>nc_state := Transport t'\<rparr>, Inl e)
             | (t', Inr b) \<Rightarrow> (c\<lparr>nc_state := Transport t'\<rparr>, map_err IoError (lde b dst))))"

section \<open>The compound codec\<close>

record ('s, 't, 'u) compound_codec =
  cc_noise_codec :: "('s, 't) noise_codec option"
  cc_l2_codec :: 'u

definition compound_codec_new ::
    "'u \<Rightarrow> ('s, 't) noise_codec option \<Rightarrow> stratum_error + ('s, 't, 'u) compound_codec" where
  "compound_codec_new u0 noise_codec =
     (case noise_codec of
        Some c \<Rightarrow>
          if is_in_transport_mode c then Inr \<lparr>cc_noise_codec = noise_codec, cc_l2_codec = u0\<rparr>
          else Inl (Panic ''BUG: noise codec is not in tranport mode, cannot build CompoundCodec!'')
      | None \<Rightarrow> Inr \<lparr>cc_noise_codec = None, cc_l2_codec = u0\<rparr>)"

definition compound_decode ::
    "('h, 't) snow_lib \<Rightarrow> 's ld_codec \<Rightarrow> ('u \<Rightarrow> bytes \<Rightarrow> 'u \<times> bytes \<times> (stratum_error + 'f option)) \<Rightarrow>
     ('s, 't, 'u) compound_codec \<Rightarrow> bytes \<Rightarrow> ('s, 't, 'u) compound_codec \<times> bytes \<times> (stratum_error + 'f option)" where
  "compound_decode S ldc l2_decode c src =
     (case cc_noise_codec c of
        Some n \<Rightarrow>
          (case noise_decode S ldc n src of
             (n', src', Inl e) \<Rightarrow> (c\<lparr>cc_noise_codec := Some n'\<rparr>, src', Inl e)
           | (n', src', Inr None) \<Rightarrow> (c\<lparr>cc_noise_codec := Some n'\<rparr>, src', Inr None)
           | (n', src', Inr (Some noise_bytes)) \<Rightarrow>
               (case l2_decode (cc_l2_codec c) noise_bytes of
                  (u', rest, r) \<Rightarrow> (c\<lparr>cc_noise_codec := Some n', cc_l2_codec := u'\<rparr>, src', r)))
      | None \<Rightarrow>
          (case l2_decode (cc_l2_codec c) src of (u', src', r) \<Rightarrow> (c\<lparr>cc_l2_codec := u'\<rparr>, src', r)))"

definition compound_encode ::
    "('h, 't) snow_lib \<Rightarrow> (bytes \<Rightarrow> bytes \<Rightarrow> string + bytes) \<Rightarrow> ('f \<Rightarrow> bytes \<Rightarrow> (stratum_error + unit) \<times> bytes) \<Rightarrow>
     ('s, 't, 'u) compound_codec \<Rightarrow> 'f \<Rightarrow> bytes \<Rightarrow> ('s, 't, 'u) compound_codec \<times> (stratum_error + bytes)" where
  "compound_encode S lde l2_encode c item dst =
     (case l2_encode item [] of
        (Inl e, _) \<Rightarrow> (c, Inl e)
      | (Inr _, l2_encoded_frame) \<Rightarrow>
          (case cc_noise_codec c of
             Some n \<Rightarrow>
               (case noise_encode S lde n l2_encoded_frame dst of
                  (n', r) \<Rightarrow> (c\<lparr>cc_noise_codec := Some n'\<rparr>, r))
           | None \<Rightarrow> (c, Inr (dst @ l2_encoded_frame))))"

text \<open>\<open>TransportMode::into_framed\<close>: the codec changes, the buffers of the stream are kept.\<close>

record 'c framed_parts =
  fp_codec :: 'c
  read_buf :: bytes
  write_buf :: bytes

definition into_framed ::
    "'t \<Rightarrow> ('s, 't) noise_codec framed_parts \<Rightarrow> (('s, 't) noise_codec \<Rightarrow> stratum_error + 'c) \<Rightarrow>
     stratum_error + 'c framed_parts" where
  "into_framed t parts build_codec =
     rbind (set_transport_mode t (fp_codec parts)) (\<lambda>n.
     rbind (build_codec n) (\<lambda>c.
     Inr \<lparr>fp_codec = c, read_buf = read_buf parts, write_buf = write_buf parts\<rparr>))"

section \<open>What the libraries promise\<close>

text \<open>
  Connected transport states: what one end writes the other one reads, and both stay
  connected; a message has at most 65535 bytes.
\<close>

definition secure_channel :: "('h, 't) snow_lib \<Rightarrow> ('t \<Rightarrow> 't \<Rightarrow> bool) \<Rightarrow> bool" where
  "secure_channel S paired \<longleftrightarrow>
     (\<forall>t u b. paired t u \<longrightarrow> length b \<le> MAX_PAYLOAD_SIZE \<longrightarrow>
        (\<exists>t' u' c. t_write_message S t b = (t', Inr c) \<and> length c \<le> MAX_MESSAGE_SIZE \<and>
           t_read_message S u c = (u', Inr b) \<and> paired t' u'))"

text \<open>\<open>LengthDelimitedCodec\<close> with a little-endian length field of two bytes at offset 0.\<close>

definition two_byte_delimited :: "'s ld_codec \<Rightarrow> 's \<Rightarrow> (bytes \<Rightarrow> bytes \<Rightarrow> string + bytes) \<Rightarrow> bool" where
  "two_byte_delimited ldc s0 lde \<longleftrightarrow>
     (\<forall>src. length src < 2 \<longrightarrow> ldc s0 src = (s0, src, Inr None)) \<and>
     (\<forall>body rest. length body \<le> 65535 \<longrightarrow> ldc s0 (le_bytes 2 (length body) @ body @ rest) = (s0, rest, Inr (Some body))) \<and>
     (\<forall>body dst. length body \<le> 65535 \<longrightarrow> lde body dst = Inr (dst @ le_bytes 2 (length body) @ body))"

section \<open>Messages in flight\<close>

definition connected :: "'s \<Rightarrow> 'u \<Rightarrow> 't \<Rightarrow> ('s, 't, 'u) compound_codec" where
  "connected s0 u0 t = \<lparr>cc_noise_codec = Some \<lparr>nc_codec = s0, nc_state = Transport t\<rparr>, cc_l2_codec = u0\<rparr>"

text \<open>
  \<open>in_flight S paired t u q buf\<close>: the bytes \<open>buf\<close> are noise messages that, read in order from the
  state \<open>u\<close>, are the payloads \<open>q\<close>, and lead to a state that is connected to \<open>t\<close>.
\<close>

inductive in_flight :: "('h, 't) snow_lib \<Rightarrow> ('t \<Rightarrow> 't \<Rightarrow> bool) \<Rightarrow> 't \<Rightarrow> 't \<Rightarrow> bytes list \<Rightarrow> bytes \<Rightarrow> bool"
  for S paired t where
  flight_empty: "paired t u \<Longrightarrow> in_flight S paired t u [] []"
| flight_message: "t_read_message S u c = (u', Inr b) \<Longrightarrow> length c \<le> MAX_MESSAGE_SIZE \<Longrightarrow>
    in_flight S paired t u' q buf \<Longrightarrow> in_flight S paired t u (b # q) (le_bytes 2 (length c) @ c @ buf)"

inductive_cases flight_emptyE: "in_flight S paired t u [] buf"
inductive_cases flight_messageE: "in_flight S paired t u (b # q) buf"

lemma flight_append:
  assumes "in_flight S paired t u q buf" and "secure_channel S paired" and "length b \<le> MAX_PAYLOAD_SIZE"
  shows "\<exists>t' c. t_write_message S t b = (t', Inr c) \<and> length c \<le> MAX_MESSAGE_SIZE \<and>
    in_flight S paired t' u (q @ [b]) (buf @ le_bytes 2 (length c) @ c)"
  using assms(1)
proof (induction rule: in_flight.induct)
  case (flight_empty u)
  with assms(2,3) obtain t' u' c where c: "t_write_message S t b = (t', Inr c)" "length c \<le> MAX_MESSAGE_SIZE"
    "t_read_message S u c = (u', Inr b)" "paired t' u'"
    unfolding secure_channel_def by blast
  from flight_message [OF c(3,2) in_flight.flight_empty [of paired, OF c(4)]] c(1,2) show ?case by auto
next
  case (flight_message u c u' b' q buf)
  then obtain t' c' where "t_write_message S t b = (t', Inr c')" "length c' \<le> MAX_MESSAGE_SIZE"
    "in_flight S paired t' u' (q @ [b]) (buf @ le_bytes 2 (length c') @ c')" by blast
  with in_flight.flight_message [OF flight_message.hyps(1,2)] show ?case by fastforce
qed

section \<open>A link as a queue\<close>

text \<open>
  The abstract specification: a queue of messages under an arbitrary interleaving of sends and
  receives. A concrete link stops at the first error of an operation.
\<close>

datatype 'a link_op = Send 'a | Recv

fun queue_run :: "'a link_op list \<Rightarrow> 'a list \<Rightarrow> 'a option list \<times> 'a list" where
  "queue_run [] q = ([], q)"
| "queue_run (Send m # ops) q = queue_run ops (q @ [m])"
| "queue_run (Recv # ops) [] = (let (r, q') = queue_run ops [] in (None # r, q'))"
| "queue_run (Recv # ops) (m # q) = (let (r, q') = queue_run ops q in (Some m # r, q'))"

fun link_run ::
    "('a \<Rightarrow> 'c \<Rightarrow> 'e + 'c) \<Rightarrow> ('c \<Rightarrow> 'e + 'f option \<times> 'c) \<Rightarrow> 'a link_op list \<Rightarrow> 'c \<Rightarrow> 'e + 'f option list \<times> 'c" where
  "link_run snd_op rcv_op [] c = Inr ([], c)"
| "link_run snd_op rcv_op (Send m # ops) c = rbind (snd_op m c) (link_run snd_op rcv_op ops)"
| "link_run snd_op rcv_op (Recv # ops) c =
     rbind (rcv_op c) (\<lambda>(f, c'). rmap (\<lambda>(fs, c''). (f # fs, c'')) (link_run snd_op rcv_op ops c'))"

locale fifo_link =
  fixes snd_op :: "'a \<Rightarrow> 'c \<Rightarrow> 'e + 'c"
    and rcv_op :: "'c \<Rightarrow> 'e + 'f option \<times> 'c"
    and holds :: "'c \<Rightarrow> 'a list \<Rightarrow> bool"
    and sendable :: "'a \<Rightarrow> bool"
    and carries :: "'f \<Rightarrow> 'a \<Rightarrow> bool"
  assumes send_appends: "holds c q \<Longrightarrow> sendable m \<Longrightarrow> \<exists>c'. snd_op m c = Inr c' \<and> holds c' (q @ [m])"
    and recv_empty: "holds c [] \<Longrightarrow> rcv_op c = Inr (None, c)"
    and recv_oldest: "holds c (m # q) \<Longrightarrow> \<exists>f c'. rcv_op c = Inr (Some f, c') \<and> carries f m \<and> holds c' q"
begin

lemma run_refines:
  assumes "holds c q" and "\<forall>m. Send m \<in> set ops \<longrightarrow> sendable m"
  shows "\<exists>fs c'. link_run snd_op rcv_op ops c = Inr (fs, c') \<and>
    list_all2 (rel_option carries) fs (fst (queue_run ops q)) \<and> holds c' (snd (queue_run ops q))"
  using assms
proof (induction ops q arbitrary: c rule: queue_run.induct)
  case (2 m ops q)
  from send_appends [OF 2(2), of m] 2(3) obtain c' where "snd_op m c = Inr c'" "holds c' (q @ [m])" by auto
  with 2(1) [of c'] 2(3) show ?case by simp
next
  case (3 ops)
  from recv_empty [OF 3(2)] 3(1) [OF 3(2)] 3(3) show ?case by (auto split: prod.split)
next
  case (4 ops m q)
  from recv_oldest [OF 4(2)] obtain f c' where "rcv_op c = Inr (Some f, c')" "carries f m" "holds c' q" by blast
  with 4(1) [of c'] 4(3) show ?case by (auto split: prod.split)
qed simp

end

section \<open>The encrypted link\<close>

text \<open>
  One direction of a connection: the codec of the sender, the codec of the receiver and the bytes
  between them.
\<close>

type_synonym ('s, 't, 'u) noise_link = "('s, 't, 'u) compound_codec \<times> ('s, 't, 'u) compound_codec \<times> bytes"

definition noise_send ::
    "('h, 't) snow_lib \<Rightarrow> (bytes \<Rightarrow> bytes \<Rightarrow> string + bytes) \<Rightarrow> v2_message \<Rightarrow> ('s, 't, 'u) noise_link \<Rightarrow>
     stratum_error + ('s, 't, 'u) noise_link" where
  "noise_send S lde m = (\<lambda>(c, d, buf).
     rbind (frame_of_message m) (\<lambda>f.
       case compound_encode S lde (codec_encode serialize_message) c f buf of
         (c', r) \<Rightarrow> rmap (\<lambda>buf'. (c', d, buf')) r))"

definition noise_recv ::
    "('h, 't) snow_lib \<Rightarrow> 's ld_codec \<Rightarrow> 'u ld_codec \<Rightarrow> ('s, 't, 'u) noise_link \<Rightarrow>
     stratum_error + v2_message frame option \<times> ('s, 't, 'u) noise_link" where
  "noise_recv S ldc ldc2 = (\<lambda>(c, d, buf).
     case compound_decode S ldc (codec_decode ldc2) d buf of
       (d', buf', r) \<Rightarrow> rmap (\<lambda>f. (f, c, d', buf')) r)"

definition message_bytes :: "v2_message \<Rightarrow> bytes" where
  "message_bytes m = (case frame_of_message m of Inl _ \<Rightarrow> [] | Inr f \<Rightarrow> snd (codec_encode serialize_message f []))"

definition fits_noise :: "v2_message \<Rightarrow> bool" where
  "fits_noise m \<longleftrightarrow> wf_msg m \<and> length (message_bytes m) \<le> MAX_PAYLOAD_SIZE"

definition frame_is :: "v2_message frame \<Rightarrow> v2_message \<Rightarrow> bool" where
  "frame_is f m \<longleftrightarrow> get_id f = msg_id (kind_of m) \<and> extension_type (frame_header f) = msg_extension (kind_of m) \<and>
     message_of_frame (kind_of m) f = Inr m"

lemma message_bytes_wire:
  assumes "wf_msg m" and "length_delimited ldc2 u0 lim" and "2 ^ 18 \<le> lim"
  obtains f g where "frame_of_message m = Inr f" "codec_encode serialize_message f [] = (Inr (), message_bytes m)"
    "codec_decode ldc2 u0 (message_bytes m) = (u0, [], Inr (Some g))" "frame_is g m"
  using message_on_wire [OF assms, of "[]"] by (auto simp: message_bytes_def frame_is_def)

lemma length_message_bytes:
  assumes "wf_msg m"
  shows "length (message_bytes m) = HEADER_SIZE + length (serialized (msg_sval m))"
proof -
  let ?f = "\<lparr>frame_header = \<lparr>is_channel_message = is_channel_msg (kind_of m), extension_type = msg_extension (kind_of m),
              msg_type = msg_id (kind_of m), msg_length = None\<rparr>, frame_payload = LazyBytes m\<rparr>"
  have "serialize_to_writer serialize_message (frame_payload ?f) = Inr (serialized (msg_sval m))"
    using serialize_message_wf [OF assms] by (simp add: serialize_to_writer_def)
  from frame_serialize_into [OF this, of "[]"] show ?thesis
    by (simp add: message_bytes_def frame_of_message_def from_serializable_payload_def header_new_def MAX_LEN_def
        codec_encode_def length_header_bytes)
qed

text \<open>The libraries keep their promises and the bytes of the link are the messages of the queue.\<close>

definition link_ok ::
    "('h, 't) snow_lib \<Rightarrow> ('t \<Rightarrow> 't \<Rightarrow> bool) \<Rightarrow> 's ld_codec \<Rightarrow> 's \<Rightarrow> (bytes \<Rightarrow> bytes \<Rightarrow> string + bytes) \<Rightarrow> 'u ld_codec \<Rightarrow> 'u \<Rightarrow>
     bool" where
  "link_ok S paired ldc s0 lde ldc2 u0 \<longleftrightarrow>
     secure_channel S paired \<and> two_byte_delimited ldc s0 lde \<and> (\<exists>lim. 2 ^ 18 \<le> lim \<and> length_delimited ldc2 u0 lim)"

definition link_holds ::
    "('h, 't) snow_lib \<Rightarrow> ('t \<Rightarrow> 't \<Rightarrow> bool) \<Rightarrow> 's ld_codec \<Rightarrow> 's \<Rightarrow> (bytes \<Rightarrow> bytes \<Rightarrow> string + bytes) \<Rightarrow> 'u ld_codec \<Rightarrow> 'u \<Rightarrow>
     ('s, 't, 'u) noise_link \<Rightarrow> v2_message list \<Rightarrow> bool" where
  "link_holds S paired ldc s0 lde ldc2 u0 l q \<longleftrightarrow>
     link_ok S paired ldc s0 lde ldc2 u0 \<and> (\<forall>m \<in> set q. wf_msg m) \<and>
     (\<exists>t u buf. l = (connected s0 u0 t, connected s0 u0 u, buf) \<and> in_flight S paired t u (map message_bytes q) buf)"

lemma link_send:
  assumes "link_holds S paired ldc s0 lde ldc2 u0 l q" and "fits_noise m"
  shows "\<exists>l'. noise_send S lde m l = Inr l' \<and> link_holds S paired ldc s0 lde ldc2 u0 l' (q @ [m])"
proof -
  from assms(1) obtain t u buf where l: "l = (connected s0 u0 t, connected s0 u0 u, buf)"
    "in_flight S paired t u (map message_bytes q) buf" "\<forall>m \<in> set q. wf_msg m" and ok: "link_ok S paired ldc s0 lde ldc2 u0"
    by (auto simp: link_holds_def)
  from ok obtain lim where lim: "length_delimited ldc2 u0 lim" "2 ^ 18 \<le> lim" by (auto simp: link_ok_def)
  from assms(2) have m: "wf_msg m" "length (message_bytes m) \<le> MAX_PAYLOAD_SIZE" by (simp_all add: fits_noise_def)
  obtain f g where f: "frame_of_message m = Inr f" "codec_encode serialize_message f [] = (Inr (), message_bytes m)"
    by (rule message_bytes_wire [OF m(1) lim])
  from flight_append [OF l(2) _ m(2)] ok obtain t' c where c: "t_write_message S t (message_bytes m) = (t', Inr c)"
    "length c \<le> MAX_MESSAGE_SIZE" "in_flight S paired t' u (map message_bytes (q @ [m])) (buf @ le_bytes 2 (length c) @ c)"
    by (auto simp: link_ok_def)
  from ok c(2) have "lde c buf = Inr (buf @ le_bytes 2 (length c) @ c)"
    by (simp add: link_ok_def two_byte_delimited_def MAX_MESSAGE_SIZE_def)
  with f c(1) m(2) l(1)
  have "noise_send S lde m l = Inr (connected s0 u0 t', connected s0 u0 u, buf @ le_bytes 2 (length c) @ c)"
    by (simp add: noise_send_def compound_encode_def connected_def noise_encode_def transport_write_def)
  with c(3) l(3) m(1) ok show ?thesis by (auto simp: link_holds_def)
qed

lemma link_recv_empty:
  assumes "link_holds S paired ldc s0 lde ldc2 u0 l []"
  shows "noise_recv S ldc ldc2 l = Inr (None, l)"
  using assms
  by (auto simp: link_holds_def link_ok_def two_byte_delimited_def noise_recv_def compound_decode_def connected_def
      noise_decode_def elim: flight_emptyE)

lemma link_recv_oldest:
  assumes "link_holds S paired ldc s0 lde ldc2 u0 l (m # q)"
  shows "\<exists>f l'. noise_recv S ldc ldc2 l = Inr (Some f, l') \<and> frame_is f m \<and> link_holds S paired ldc s0 lde ldc2 u0 l' q"
proof -
  from assms obtain t u buf where l: "l = (connected s0 u0 t, connected s0 u0 u, buf)"
    "in_flight S paired t u (message_bytes m # map message_bytes q) buf" "wf_msg m" "\<forall>m \<in> set q. wf_msg m"
    and ok: "link_ok S paired ldc s0 lde ldc2 u0"
    by (auto simp: link_holds_def)
  from ok obtain lim where lim: "length_delimited ldc2 u0 lim" "2 ^ 18 \<le> lim" by (auto simp: link_ok_def)
  obtain g where g: "codec_decode ldc2 u0 (message_bytes m) = (u0, [], Inr (Some g))" "frame_is g m"
    by (rule message_bytes_wire [OF l(3) lim])
  from l(2) obtain c u' buf' where c: "t_read_message S u c = (u', Inr (message_bytes m))" "length c \<le> MAX_MESSAGE_SIZE"
    "in_flight S paired t u' (map message_bytes q) buf'" "buf = le_bytes 2 (length c) @ c @ buf'"
    by (rule flight_messageE) blast
  from ok c(2,4) have "ldc s0 buf = (s0, buf', Inr (Some c))"
    by (simp add: link_ok_def two_byte_delimited_def MAX_MESSAGE_SIZE_def)
  with g(1) c(1) l(1) have "noise_recv S ldc ldc2 l = Inr (Some g, connected s0 u0 t, connected s0 u0 u', buf')"
    by (simp add: noise_recv_def compound_decode_def connected_def noise_decode_def transport_read_def)
  with g(2) c(3) l(4) ok show ?thesis by (auto simp: link_holds_def)
qed

text \<open>A message that does not fit is the end of the task that sends it.\<close>

lemma oversized_message_panics:
  assumes "link_ok S paired ldc s0 lde ldc2 u0" and "wf_msg m" and "MAX_PAYLOAD_SIZE < length (message_bytes m)"
  shows "\<exists>e. noise_send S lde m (connected s0 u0 t, d, buf) = Inl (Panic e)"
proof -
  from assms(1) obtain lim where "length_delimited ldc2 u0 lim" "2 ^ 18 \<le> lim" by (auto simp: link_ok_def)
  then obtain f where "frame_of_message m = Inr f" "codec_encode serialize_message f [] = (Inr (), message_bytes m)"
    by (rule message_bytes_wire [OF assms(2)])
  with assms(3) show ?thesis by (simp add: noise_send_def compound_encode_def connected_def noise_encode_def)
qed

interpretation nl: fifo_link "noise_send S lde" "noise_recv S ldc ldc2" "link_holds S paired ldc s0 lde ldc2 u0"
    fits_noise frame_is
  for S :: "('h, 't) snow_lib" and lde ldc ldc2 paired s0 u0
  by unfold_locales (rule link_send link_recv_empty link_recv_oldest; assumption)+

lemma into_framed_connected:
  "into_framed t \<lparr>fp_codec = noise_codec_default s0, read_buf = r, write_buf = w\<rparr> (\<lambda>n. compound_codec_new u0 (Some n)) =
    Inr \<lparr>fp_codec = connected s0 u0 t, read_buf = r, write_buf = w\<rparr>"
  by (simp add: into_framed_def noise_codec_default_def set_transport_mode_def compound_codec_new_def
      is_in_transport_mode_def connected_def)

lemma link_refines_queue:
  assumes "link_ok S paired ldc s0 lde ldc2 u0" and "paired t u" and "\<forall>m. Send m \<in> set ops \<longrightarrow> fits_noise m"
  shows "\<exists>fs l. link_run (noise_send S lde) (noise_recv S ldc ldc2) ops (connected s0 u0 t, connected s0 u0 u, []) = Inr (fs, l) \<and>
    list_all2 (rel_option frame_is) fs (fst (queue_run ops []))"
proof -
  have "link_holds S paired ldc s0 lde ldc2 u0 (connected s0 u0 t, connected s0 u0 u, []) []"
    using assms(1,2) by (auto simp: link_holds_def intro: flight_empty)
  from nl.run_refines [OF this assms(3)] show ?thesis by blast
qed

text \<open>A noise length delimited codec with no state, and the codec of the example.\<close>

definition noise_ld :: "unit ld_codec" where
  "noise_ld s src =
     (if length src < 2 then (s, src, Inr None)
      else
        let n = of_le (take 2 src) in
        if length src < 2 + n then (s, src, Inr None)
        else (s, drop (2 + n) src, Inr (Some (take n (drop 2 src)))))"

definition noise_lde :: "bytes \<Rightarrow> bytes \<Rightarrow> string + bytes" where
  "noise_lde body dst =
     (if 65535 < length body then Inl ''frame size too big'' else Inr (dst @ le_bytes 2 (length body) @ body))"

lemma two_byte_delimited_noise_ld: "two_byte_delimited noise_ld () noise_lde"
  by (auto simp: two_byte_delimited_def noise_ld_def noise_lde_def of_le_le_bytes)

lemma secure_channel_toy: "secure_channel toy_snow toy_paired"
  by (auto simp: secure_channel_def toy_snow_def toy_paired_def toy_tag_def TAGLEN_def MAX_PAYLOAD_SIZE_def
      MAX_MESSAGE_SIZE_def)

lemma example_message_fits: "fits_noise example_message"
proof -
  have w: "wf_msg example_message"
    by (simp add: example_message_def wf_SubmitSharesError_def wf_str_def in_bounds_def)
  have "serialize_message example_message = Inr [3, 0, 0, 0, 9, 0, 0, 0, 2, 0x6f, 0x6b]"
    by code_simp
  with serialize_message_wf [OF w] have "serialized (msg_sval example_message) = [3, 0, 0, 0, 9, 0, 0, 0, 2, 0x6f, 0x6b]"
    by simp
  then have "length (serialized (msg_sval example_message)) = 11" by simp
  then show ?thesis
    using w length_message_bytes [OF w]
    by (simp add: fits_noise_def MAX_PAYLOAD_SIZE_def MAX_MESSAGE_SIZE_def TAGLEN_def HEADER_SIZE_def)
qed

lemma link_ok_example: "link_ok toy_snow toy_paired noise_ld () noise_lde (simple_ld (2 ^ 18)) ()"
  using secure_channel_toy two_byte_delimited_noise_ld length_delimited_simple_ld by (auto simp: link_ok_def)

end
