(* ===== verification/Noise_Server.thy ===== *)
theory Noise_Server
  imports Noise_Codec
begin

text \<open>
  The two ends of a secured connection: \<open>Initiator::connect_with_codec\<close> and
  \<open>Responder::accept_with_codec\<close> of \<open>protocols/stratum/src/v2/noise.rs\<close>, and what a server does with its
  security bundle, \<open>build_framed_tcp\<close> of \<open>noise/auth/formats.rs\<close>.

  \<open>parts\<close> is what \<open>into_parts\<close> returns when the handshake is over: the noise codec and the bytes of the
  stream that are read or not yet written. The property composes certificate, handshake, codecs and
  messages.
\<close>

section \<open>Operations\<close>

definition connect_with_codec ::
    "('h, 't) snow_lib \<Rightarrow> noise_libs \<Rightarrow> system_time \<Rightarrow> 'h initiator \<Rightarrow> ('s, 't) noise_codec framed_parts \<Rightarrow>
     (('s, 't) noise_codec \<Rightarrow> stratum_error + 'c) \<Rightarrow> hs_stream \<Rightarrow> ((stratum_error + 'c framed_parts) \<times> hs_stream) option" where
  "connect_with_codec S L now ini parts build_codec st =
     map_option (\<lambda>(r, st'). (rbind r (\<lambda>t. into_framed t parts build_codec), st'))
       (handshake_run S (initiator_step S L now) i_handshake_state ini st)"

definition connect_with_codec_and_cert ::
    "('h, 't) snow_lib \<Rightarrow> noise_libs \<Rightarrow> system_time \<Rightarrow> 'h initiator \<Rightarrow> ('s, 't) noise_codec framed_parts \<Rightarrow>
     (('s, 't) noise_codec \<Rightarrow> stratum_error + 'c) \<Rightarrow> hs_stream \<Rightarrow>
     ((stratum_error + 'c framed_parts \<times> certificate) \<times> hs_stream) option" where
  "connect_with_codec_and_cert S L now ini parts build_codec st =
     map_option (\<lambda>(r, st'). (rbind r (\<lambda>(t, certificate).
         rmap (\<lambda>framed. (framed, certificate)) (into_framed t parts build_codec)), st'))
       (connect_with_cert S L now ini st)"

text \<open>\<open>Initiator::connect\<close>: the codec is the compound codec over the codec of Stratum V2.\<close>

definition initiator_connect ::
    "('h, 't) snow_lib \<Rightarrow> noise_libs \<Rightarrow> system_time \<Rightarrow> 'u \<Rightarrow> 'h initiator \<Rightarrow> ('s, 't) noise_codec framed_parts \<Rightarrow> hs_stream \<Rightarrow>
     ((stratum_error + ('s, 't, 'u) compound_codec framed_parts) \<times> hs_stream) option" where
  "initiator_connect S L now u0 ini parts st =
     connect_with_codec S L now ini parts (\<lambda>noise_codec. compound_codec_new u0 (Some noise_codec)) st"

text \<open>
  \<open>accept_with_codec\<close> wraps the socket in a fresh noise codec, \<open>accept_parts_with_codec\<close> takes over the
  codec and buffers of an earlier phase; what follows is the same.
\<close>

definition responder_accept_with_codec ::
    "('h, 't) snow_lib \<Rightarrow> 'h responder \<Rightarrow> ('s, 't) noise_codec framed_parts \<Rightarrow>
     (('s, 't) noise_codec \<Rightarrow> stratum_error + 'c) \<Rightarrow> hs_stream \<Rightarrow> ((stratum_error + 'c framed_parts) \<times> hs_stream) option" where
  "responder_accept_with_codec S rsp parts build_codec st =
     map_option (\<lambda>(r, st'). (rbind r (\<lambda>t. into_framed t parts build_codec), st'))
       (handshake_run S (responder_step S) r_handshake_state rsp st)"

definition build_framed_tcp ::
    "('h, 't) snow_lib \<Rightarrow> 'u \<Rightarrow> server_security_bundle \<Rightarrow> ('s, 't) noise_codec framed_parts \<Rightarrow> hs_stream \<Rightarrow>
     ((stratum_error + ('s, 't, 'u) compound_codec framed_parts) \<times> hs_stream) option" where
  "build_framed_tcp S u0 bundle parts st =
     (case serialize_to_bytes_mut (build_noise_message (ssb_certificate bundle)) of
        Inl e \<Rightarrow> Some (Inl e, st)
      | Inr signature_noise_message \<Rightarrow>
          responder_accept_with_codec S (responder_new (ssb_secret_key bundle) signature_noise_message [AESGCM, ChaChaPoly])
            parts (\<lambda>noise_codec. compound_codec_new u0 (Some noise_codec)) st)"

section \<open>A server with a valid bundle\<close>

lemma choose_supported:
  assumes "algs \<noteq> []"
  obtains a where "choose_algorithm [AESGCM, ChaChaPoly] algs = Inr a" and "a \<in> set algs"
proof -
  obtain x xs where x: "algs = x # xs" using assms by (cases algs) auto
  show ?thesis
  proof (cases "AESGCM \<in> set algs")
    case True then show ?thesis by (intro that [of AESGCM]) (simp_all add: choose_algorithm_def)
  next
    case False
    with x have "x = ChaChaPoly" by (cases x) auto
    with x False show ?thesis by (intro that [of ChaChaPoly]) (simp_all add: choose_algorithm_def)
  qed
qed

lemma rebuilt_certificate:
  "from_noise_message (build_noise_message c) (cert_public_key c) (cert_authority_public_key c) = c"
  by (simp add: from_noise_message_def build_noise_message_def certificate_new_def)

lemma bundle_handshake:
  fixes S :: "('h, 't) snow_lib"
  assumes S: "snow_nx S (x25519_base L) paired"
    and key: "validate_secret_key L bundle = Inr ()" and valid: "is_ok (validate_by_time L bundle now)"
    and sig: "length (cert_signature (ssb_certificate bundle)) = 64" "wf_certificate L (ssb_certificate bundle)"
    and algs: "algs \<noteq> []" "length algs \<le> 255"
  shows "\<exists>a m1 m2 ti tr data. a \<in> set algs \<and>
    connect_with_cert S L now (initiator_new (cert_authority_public_key (ssb_certificate bundle)) algs)
        (quiet [RecvFrame (negotiation_bytes [a]), RecvFrame m2] []) =
      Some (Inr (ti, ssb_certificate bundle), quiet [] [negotiation_bytes algs, m1]) \<and>
    serialize_to_bytes_mut (build_noise_message (ssb_certificate bundle)) = Inr data \<and>
    handshake_run S (responder_step S) r_handshake_state (responder_new (ssb_secret_key bundle) data [AESGCM, ChaChaPoly])
        (quiet [RecvFrame (negotiation_bytes algs), RecvFrame m1] []) =
      Some (Inr tr, quiet [] [negotiation_bytes [a], m2]) \<and> paired ti tr"
proof -
  let ?c = "ssb_certificate bundle"
  obtain a where a: "choose_algorithm [AESGCM, ChaChaPoly] algs = Inr a" "a \<in> set algs"
    by (rule choose_supported [OF algs(1)])
  from key have k: "length (ssb_secret_key bundle) = 32" "x25519_base L (ssb_secret_key bundle) = cert_public_key ?c"
    by (auto simp: validate_secret_key_def split: if_splits)
  from signature_message_roundtrip [of "build_noise_message ?c" L] sig
  obtain data where d: "serialize_to_bytes_mut (build_noise_message ?c) = Inr data"
    "signature_message_try_from L data = Inr (build_noise_message ?c)" "length data = 76"
    by (auto simp: build_noise_message_def wf_certificate_def)
  have v: "is_ok (validate_certificate L (from_noise_message (build_noise_message ?c)
      (x25519_base L (ssb_secret_key bundle)) (cert_authority_public_key ?c)) now)"
    using valid by (simp add: k(2) rebuilt_certificate validate_by_time_def is_ok_iff result_simps)
  from handshake_completes [OF S algs(2) algs(2) a(1) k(1) _ d(2) v] d(1,3) a(2) k(2)
  show ?thesis by (fastforce simp: MAX_MESSAGE_SIZE_def rebuilt_certificate)
qed

section \<open>Property\<close>

text \<open>
  C4. A client that trusts the authority and a server with a valid bundle get a secured connection, and
  the connection is a pair of FIFO queues of messages. The handshake succeeds on both sides with one
  of the client's algorithms, the client holds the server's certificate, the bytes left over from the
  handshake are kept, and in either direction the codecs implement the abstract queue: for every
  interleaving of sends and receives no operation fails, and the receiver obtains exactly the
  messages that the queue returns, in order and each once, and nothing when the queue is empty. The
  hypotheses: the libraries do what they document (\<open>snow_nx\<close>, \<open>link_ok\<close>, the transport states are
  connected both ways), the bundle is consistent and valid now, and the messages sent have
  well-formed fields and fit a noise message.
\<close>

theorem secured_connection:
  fixes S :: "('h, 't) snow_lib"
  assumes "snow_nx S (x25519_base L) paired" and "\<forall>t u. paired t u \<longrightarrow> paired u t"
    and "link_ok S paired ldc s0 lde ldc2 u0"
    and "validate_secret_key L bundle = Inr ()" and "is_ok (validate_by_time L bundle now)"
    and "length (cert_signature (ssb_certificate bundle)) = 64" and "wf_certificate L (ssb_certificate bundle)"
    and "algs \<noteq> []" and "length algs \<le> 255"
  shows "\<exists>a m1 m2 client server. a \<in> set algs \<and>
    connect_with_codec_and_cert S L now (initiator_new (cert_authority_public_key (ssb_certificate bundle)) algs)
        \<lparr>fp_codec = noise_codec_default s0, read_buf = rc, write_buf = wc\<rparr> (\<lambda>n. compound_codec_new u0 (Some n))
        (quiet [RecvFrame (negotiation_bytes [a]), RecvFrame m2] []) =
      Some (Inr (\<lparr>fp_codec = client, read_buf = rc, write_buf = wc\<rparr>, ssb_certificate bundle),
        quiet [] [negotiation_bytes algs, m1]) \<and>
    build_framed_tcp S u0 bundle \<lparr>fp_codec = noise_codec_default s0, read_buf = rs, write_buf = ws\<rparr>
        (quiet [RecvFrame (negotiation_bytes algs), RecvFrame m1] []) =
      Some (Inr \<lparr>fp_codec = server, read_buf = rs, write_buf = ws\<rparr>, quiet [] [negotiation_bytes [a], m2]) \<and>
    (\<forall>ops. (\<forall>m. Send m \<in> set ops \<longrightarrow> fits_noise m) \<longrightarrow>
      (\<forall>(here, there) \<in> {(client, server), (server, client)}. \<exists>fs l.
        link_run (noise_send S lde) (noise_recv S ldc ldc2) ops (here, there, []) = Inr (fs, l) \<and>
        list_all2 (rel_option frame_is) fs (fst (queue_run ops []))))"
proof -
  from bundle_handshake [OF assms(1,4-9)] obtain a m1 m2 ti tr data where h: "a \<in> set algs"
    "connect_with_cert S L now (initiator_new (cert_authority_public_key (ssb_certificate bundle)) algs)
        (quiet [RecvFrame (negotiation_bytes [a]), RecvFrame m2] []) =
      Some (Inr (ti, ssb_certificate bundle), quiet [] [negotiation_bytes algs, m1])"
    "serialize_to_bytes_mut (build_noise_message (ssb_certificate bundle)) = Inr data"
    "handshake_run S (responder_step S) r_handshake_state (responder_new (ssb_secret_key bundle) data [AESGCM, ChaChaPoly])
        (quiet [RecvFrame (negotiation_bytes algs), RecvFrame m1] []) =
      Some (Inr tr, quiet [] [negotiation_bytes [a], m2])" and p: "paired ti tr" "paired tr ti"
    using assms(2) by blast
  note q = link_refines_queue [OF assms(3) p(1)] link_refines_queue [OF assms(3) p(2)]
  show ?thesis
    by (rule exI [of _ a], rule exI [of _ m1], rule exI [of _ m2], rule exI [of _ "connected s0 u0 ti"],
        rule exI [of _ "connected s0 u0 tr"])
      (use h q in \<open>simp add: connect_with_codec_and_cert_def build_framed_tcp_def responder_accept_with_codec_def
         into_framed_connected\<close>)
qed

lemma example_bundle_ok:
  obtains b where "validate_secret_key toy_noise_libs b = Inr ()"
    "is_ok (validate_by_time toy_noise_libs b (15 * 10 ^ 9))"
    "length (cert_signature (ssb_certificate b)) = 64" "wf_certificate toy_noise_libs (ssb_certificate b)"
    "cert_authority_public_key (ssb_certificate b) = replicate 32 2"
proof -
  have a: "keypair_ok toy_noise_libs example_keypair" "wf_signed_part example_part"
    "sp_authority_public_key example_part = kp_public example_keypair"
    by (simp_all add: toy_libs_ok wf_signed_part_def example_part_def example_keypair_def)
  from signed_certificate [OF toy_libs_ok(1) a] obtain s where s: "length s = 64"
    "verify_signed_part toy_noise_libs example_part s = Inr ()" by auto
  let ?b = "\<lparr>ssb_certificate = certificate_new example_part s, ssb_secret_key = replicate 32 1\<rparr>"
  have "certificate_part (certificate_new example_part s) = example_part"
    by (simp add: certificate_part_def certificate_new_def)
  then have "validate_certificate toy_noise_libs (certificate_new example_part s) (15 * 10 ^ 9) =
      verify_expiration toy_noise_libs (sp_header example_part) (15 * 10 ^ 9)"
    using s(2) by (simp add: validate_certificate_def) (simp add: certificate_new_def)
  moreover have "is_ok (verify_expiration toy_noise_libs (sp_header example_part) (15 * 10 ^ 9))"
    by (subst verify_expiration_iff) (simp_all add: example_part_def signed_part_header_new_def)
  ultimately have "is_ok (validate_by_time toy_noise_libs ?b (15 * 10 ^ 9))"
    by (simp add: validate_by_time_def is_ok_iff result_simps)
  moreover have "validate_secret_key toy_noise_libs ?b = Inr ()" "wf_certificate toy_noise_libs (ssb_certificate ?b)"
    using s(1) by (simp_all add: validate_secret_key_def wf_certificate_def certificate_new_def toy_noise_libs_def example_part_def)
  ultimately show ?thesis using s(1) by (intro that [of ?b]) (simp_all add: certificate_new_def example_part_def)
qed

theorem secured_connection_witness:
  "\<exists>cert m1 m2 client server fs l fs' l'.
    connect_with_codec_and_cert toy_snow toy_noise_libs (15 * 10 ^ 9) (initiator_new (replicate 32 2) [ChaChaPoly])
        \<lparr>fp_codec = noise_codec_default (), read_buf = [7], write_buf = []\<rparr> (\<lambda>n. compound_codec_new () (Some n))
        (quiet [RecvFrame (negotiation_bytes [ChaChaPoly]), RecvFrame m2] []) =
      Some (Inr (\<lparr>fp_codec = client, read_buf = [7], write_buf = []\<rparr>, cert),
        quiet [] [negotiation_bytes [ChaChaPoly], m1]) \<and>
    link_run (noise_send toy_snow noise_lde) (noise_recv toy_snow noise_ld (simple_ld (2 ^ 18)))
       [Recv, Send example_message, Recv, Recv] (client, server, []) = Inr (fs, l) \<and>
    list_all2 (rel_option frame_is) fs [None, Some example_message, None] \<and>
    link_run (noise_send toy_snow noise_lde) (noise_recv toy_snow noise_ld (simple_ld (2 ^ 18)))
       [Send example_message, Recv] (server, client, []) = Inr (fs', l') \<and>
    list_all2 (rel_option frame_is) fs' [Some example_message]"
proof -
  obtain server_bundle where b: "validate_secret_key toy_noise_libs server_bundle = Inr ()"
    "is_ok (validate_by_time toy_noise_libs server_bundle (15 * 10 ^ 9))"
    "length (cert_signature (ssb_certificate server_bundle)) = 64" "wf_certificate toy_noise_libs (ssb_certificate server_bundle)"
    "cert_authority_public_key (ssb_certificate server_bundle) = replicate 32 2"
    by (rule example_bundle_ok)
  have sym: "\<forall>t u. toy_paired t u \<longrightarrow> toy_paired u t" by (simp add: toy_paired_def)
  have sent: "\<forall>m. Send m \<in> set [Recv, Send example_message, Recv, Recv] \<longrightarrow> fits_noise m"
    "\<forall>m. Send m \<in> set [Send example_message, Recv] \<longrightarrow> fits_noise m"
    by (simp_all add: example_message_fits)
  have algs: "[ChaChaPoly] \<noteq> []" "length [ChaChaPoly] \<le> 255" by simp_all
  from secured_connection [OF toy_snow_x25519 sym link_ok_example b(1-4) algs, of "[7]" "[]" "[]" "[]"]
  obtain a m1 m2 client server where c: "a \<in> set [ChaChaPoly]"
    "connect_with_codec_and_cert toy_snow toy_noise_libs (15 * 10 ^ 9)
        (initiator_new (cert_authority_public_key (ssb_certificate server_bundle)) [ChaChaPoly])
        \<lparr>fp_codec = noise_codec_default (), read_buf = [7], write_buf = []\<rparr> (\<lambda>n. compound_codec_new () (Some n))
        (quiet [RecvFrame (negotiation_bytes [a]), RecvFrame m2] []) =
      Some (Inr (\<lparr>fp_codec = client, read_buf = [7], write_buf = []\<rparr>, ssb_certificate server_bundle),
        quiet [] [negotiation_bytes [ChaChaPoly], m1])"
    and q: "\<forall>ops. (\<forall>m. Send m \<in> set ops \<longrightarrow> fits_noise m) \<longrightarrow>
      (\<forall>(here, there) \<in> {(client, server), (server, client)}. \<exists>fs l.
        link_run (noise_send toy_snow noise_lde) (noise_recv toy_snow noise_ld (simple_ld (2 ^ 18))) ops (here, there, []) =
          Inr (fs, l) \<and> list_all2 (rel_option frame_is) fs (fst (queue_run ops [])))"
    by (elim exE conjE) (rule that; assumption)
  from bspec [OF mp [OF spec [OF q] sent(1)], of "(client, server)"] obtain fs l where
    "link_run (noise_send toy_snow noise_lde) (noise_recv toy_snow noise_ld (simple_ld (2 ^ 18)))
       [Recv, Send example_message, Recv, Recv] (client, server, []) = Inr (fs, l)"
    "list_all2 (rel_option frame_is) fs [None, Some example_message, None]" by auto
  moreover from bspec [OF mp [OF spec [OF q] sent(2)], of "(server, client)"] obtain fs' l' where
    "link_run (noise_send toy_snow noise_lde) (noise_recv toy_snow noise_ld (simple_ld (2 ^ 18)))
       [Send example_message, Recv] (server, client, []) = Inr (fs', l')"
    "list_all2 (rel_option frame_is) fs' [Some example_message]" by auto
  moreover from c b(5) have "a = ChaChaPoly" by simp
  ultimately show ?thesis using c(2) unfolding b(5) \<open>a = ChaChaPoly\<close>
    by blast
qed

end
