(* ===== verification/Proxy_Protocol.thy ===== *)
theory Proxy_Protocol
  imports Text
begin

text \<open>
  The PROXY protocol of the wire crate: \<open>protocols/wire/src/proxy.rs\<close>, \<open>proxy/error.rs\<close>,
  \<open>proxy/codec.rs\<close>, \<open>proxy/codec/v1.rs\<close>, \<open>proxy/codec/v2.rs\<close> and \<open>proxy/codec/v2/proto.rs\<close>.

  A decoder is a function from its state and the buffer to a result, the next state and the
  buffer that is left, also after an error. A stream is the list of what its reads return: an
  I/O error, or bytes, none of them at its end. \<open>tokio_util\<close>'s \<open>Framed\<close> is not part of the
  repository: its \<open>next\<close> is an argument, with what it documents in \<open>framed_contract\<close>. The text
  form of an IPv6 address is an argument too (\<open>parse6\<close>, \<open>print6\<close>); that of IPv4 is in \<open>Text\<close>.

  Main facts: both codecs read back what they write; both are incremental decoders (a locale),
  so how the bytes arrive in pieces does not matter; a header written by \<open>Connector\<close> is
  accepted by \<open>Acceptor::accept_auto\<close> in any split, with the right addresses and the rest of
  the stream intact; without a header the stream passes unchanged or is refused, as configured.
\<close>

section \<open>Errors and addresses\<close>

datatype proto_error =
    ProtoHeader string
  | AddressIp4 string
  | AddressIp6 string

datatype proxy_error =
    Proxy string
  | ProxyV2 proto_error
  | ProxyIo string
  | ProxyUtf8
  | IPAddress
  | Port
  | InvalidState string
  | ProxyPanic string

text \<open>The octets of the address and the port; for IPv6 also the flow info and the scope id.\<close>

datatype socket_addr =
    SockV4 bytes u16
  | SockV6 bytes u16 u32 u32

fun addr_ip :: "socket_addr \<Rightarrow> bytes" where
  "addr_ip (SockV4 a p) = a"
| "addr_ip (SockV6 a p f s) = a"

fun addr_port :: "socket_addr \<Rightarrow> u16" where
  "addr_port (SockV4 a p) = p"
| "addr_port (SockV6 a p f s) = p"

datatype socket_type = Ipv4 | Ipv6 | Unknown

record proxy_info =
  pi_type :: socket_type
  pi_source :: "socket_addr option"
  pi_destination :: "socket_addr option"

definition proxy_info_default :: proxy_info where
  "proxy_info_default = \<lparr>pi_type = Unknown, pi_source = None, pi_destination = None\<rparr>"

definition MAX_HEADER_SIZE :: nat where "MAX_HEADER_SIZE = 536"

fun proxy_info_try_from :: "socket_addr option \<Rightarrow> socket_addr option \<Rightarrow> proxy_error + proxy_info" where
  "proxy_info_try_from (Some (SockV4 a p)) (Some (SockV4 b q)) =
     Inr \<lparr>pi_type = Ipv4, pi_source = Some (SockV4 a p), pi_destination = Some (SockV4 b q)\<rparr>"
| "proxy_info_try_from (Some (SockV6 a p f s)) (Some (SockV6 b q g t)) =
     Inr \<lparr>pi_type = Ipv6, pi_source = Some (SockV6 a p f s), pi_destination = Some (SockV6 b q g t)\<rparr>"
| "proxy_info_try_from None None =
     Inr \<lparr>pi_type = Unknown, pi_source = None, pi_destination = None\<rparr>"
| "proxy_info_try_from _ _ = Inl (Proxy ''Inconsistent source and destination addresses'')"

section \<open>Version 1\<close>

record v1_codec =
  v1_next_pos :: nat
  v1_pass_header :: bool

definition v1_new :: v1_codec where
  "v1_new = \<lparr>v1_next_pos = 0, v1_pass_header = False\<rparr>"

definition v1_new_with_pass_header :: "bool \<Rightarrow> v1_codec" where
  "v1_new_with_pass_header pass = \<lparr>v1_next_pos = 0, v1_pass_header = pass\<rparr>"

type_synonym ip_parser = "bytes \<Rightarrow> bytes option"

text \<open>The fields are parsed in the order of the source, so the first error is the one reported.\<close>

definition parse_addresses ::
    "ip_parser \<Rightarrow> (bytes \<Rightarrow> u16 \<Rightarrow> socket_addr) \<Rightarrow> bytes list \<Rightarrow> proxy_error + (socket_addr \<times> socket_addr)" where
  "parse_addresses parse mk parts =
     rbind (ok_or (parse (parts ! 2)) IPAddress) (\<lambda>sa.
     rbind (ok_or (parse_u16 (parts ! 4)) Port) (\<lambda>sp.
     rbind (ok_or (parse (parts ! 3)) IPAddress) (\<lambda>da.
     rbind (ok_or (parse_u16 (parts ! 5)) Port) (\<lambda>dp.
     Inr (mk sa sp, mk da dp)))))"

text \<open>
  The header line. The outer error is an early return, which leaves the buffer alone; the
  inner result is \<open>res\<close>, after which the line is taken out of the buffer even if \<open>res\<close> is an
  error.
\<close>

definition v1_parse :: "ip_parser \<Rightarrow> bytes \<Rightarrow> proxy_error + (proxy_error + proxy_info)" where
  "v1_parse parse6 line =
     (let parts = split_on 0x20 line in
      if parts ! 0 \<noteq> ascii ''PROXY'' then Inl (Proxy ''Protocol tag is wrong'')
      else if length parts < 2 then Inl (Proxy ''At least two parts are needed'')
      else if parts ! 1 = ascii ''UNKNOWN'' then
        Inr (Inr \<lparr>pi_type = Unknown, pi_source = None, pi_destination = None\<rparr>)
      else if parts ! 1 = ascii ''TCP4'' \<and> length parts = 6 then
        rbind (parse_addresses parse_ipv4 SockV4 parts) (\<lambda>(s, d).
          Inr (Inr \<lparr>pi_type = Ipv4, pi_source = Some s, pi_destination = Some d\<rparr>))
      else if parts ! 1 = ascii ''TCP6'' \<and> length parts = 6 then
        rbind (parse_addresses parse6 (\<lambda>a p. SockV6 a p 0 0) parts) (\<lambda>(s, d).
          Inr (Inr \<lparr>pi_type = Ipv6, pi_source = Some s, pi_destination = Some d\<rparr>))
      else Inr (Inl (Proxy ''Invalid proxy header v1'')))"

type_synonym 's decoding = "(proxy_error + proxy_info option) \<times> 's \<times> bytes"

definition v1_decode :: "ip_parser \<Rightarrow> v1_codec \<Rightarrow> bytes \<Rightarrow> v1_codec decoding" where
  "v1_decode parse6 c buf =
     (if length buf < v1_next_pos c then (Inl (ProxyPanic ''range start index out of range''), c, buf)
      else
        case find_crlf (drop (v1_next_pos c) buf) of
          Some p \<Rightarrow>
            let eol = p + v1_next_pos c; line = take eol buf in
            if \<not> valid_utf8 line then (Inl ProxyUtf8, c, buf)
            else
              (case v1_parse parse6 line of
                 Inl e \<Rightarrow> (Inl e, c, buf)
               | Inr res \<Rightarrow>
                   (rmap Some res, c, if v1_pass_header c then buf else drop (eol + 2) buf))
        | None \<Rightarrow>
            if length buf < MAX_HEADER_SIZE
            then (Inr None, c\<lparr>v1_next_pos := (if buf = [] then 0 else length buf - 1)\<rparr>, buf)
            else (Inl (Proxy ''Proxy header v1 does not contain EOL''), c, buf))"

definition print_ip :: "(bytes \<Rightarrow> bytes) \<Rightarrow> socket_addr \<Rightarrow> bytes" where
  "print_ip print6 s = (case s of SockV4 a _ \<Rightarrow> print_ipv4 a | SockV6 a _ _ _ \<Rightarrow> print6 a)"

definition v1_encode :: "(bytes \<Rightarrow> bytes) \<Rightarrow> proxy_info \<Rightarrow> proxy_error + bytes" where
  "v1_encode print6 item =
     (case pi_type item of
        Unknown \<Rightarrow> Inr (ascii ''PROXY '' @ ascii ''UNKNOWN'' @ [0x0d, 0x0a])
      | t \<Rightarrow>
          (case (pi_source item, pi_destination item) of
             (Some s, Some d) \<Rightarrow>
               Inr (ascii ''PROXY '' @ (if t = Ipv4 then ascii ''TCP4'' else ascii ''TCP6'') @
                    [0x20] @ print_ip print6 s @ [0x20] @ print_ip print6 d @
                    [0x20] @ dec_bytes (unat (addr_port s)) @ [0x20] @
                    dec_bytes (unat (addr_port d)) @ [0x0d, 0x0a])
           | _ \<Rightarrow> Inl (ProxyPanic ''BUG: Source IP missing'')))"

section \<open>Version 2\<close>

definition SIGNATURE :: bytes where
  "SIGNATURE = [0x0D, 0x0A, 0x0D, 0x0A, 0x00, 0x0D, 0x0A, 0x51, 0x55, 0x49, 0x54, 0x0A]"

definition PROXY_VERSION :: u8 where "PROXY_VERSION = 0x2"
definition COMMAND_PROXY :: u8 where "COMMAND_PROXY = 0x1"
definition VERSION_COMMAND :: u8 where "VERSION_COMMAND = 0x21"
definition PROTOCOL_UNSPEC :: u8 where "PROTOCOL_UNSPEC = 0x00"
definition PROTOCOL_TCP_IP4 :: u8 where "PROTOCOL_TCP_IP4 = 0x11"
definition PROTOCOL_UDP_IP4 :: u8 where "PROTOCOL_UDP_IP4 = 0x12"
definition PROTOCOL_TCP_IP6 :: u8 where "PROTOCOL_TCP_IP6 = 0x21"
definition PROTOCOL_UDP_IP6 :: u8 where "PROTOCOL_UDP_IP6 = 0x22"
definition PROTOCOL_UNIX_SOCKET :: u8 where "PROTOCOL_UNIX_SOCKET = 0x31"
definition PROTOCOL_UNIX_DATAGRAM :: u8 where "PROTOCOL_UNIX_DATAGRAM = 0x32"

definition VALID_PROTOCOLS :: "u8 list" where
  "VALID_PROTOCOLS =
     [PROTOCOL_UNSPEC, PROTOCOL_TCP_IP4, PROTOCOL_TCP_IP6, PROTOCOL_UDP_IP4, PROTOCOL_UDP_IP6,
      PROTOCOL_UNIX_SOCKET, PROTOCOL_UNIX_DATAGRAM]"

definition SIZE_HEADER :: nat where "SIZE_HEADER = 16"
definition SIZE_ADDRESSES_IP4 :: u16 where "SIZE_ADDRESSES_IP4 = 12"
definition SIZE_ADDRESSES_IP6 :: u16 where "SIZE_ADDRESSES_IP6 = 36"

record proto_header =
  ph_version_and_command :: u8
  ph_protocol :: u8
  ph_len :: u16

definition proto_header_new :: "socket_type \<Rightarrow> proto_header" where
  "proto_header_new t =
     (let (protocol, len) =
        (case t of
           Unknown \<Rightarrow> (PROTOCOL_UNSPEC, 0)
         | Ipv4 \<Rightarrow> (PROTOCOL_TCP_IP4, SIZE_ADDRESSES_IP4)
         | Ipv6 \<Rightarrow> (PROTOCOL_TCP_IP6, SIZE_ADDRESSES_IP6))
      in \<lparr>ph_version_and_command = VERSION_COMMAND, ph_protocol = protocol, ph_len = len\<rparr>)"

text \<open>The buffer is consumed up to the field that was found wrong.\<close>

definition proto_header_deserialize :: "bytes \<Rightarrow> (proto_error + proto_header) \<times> bytes" where
  "proto_header_deserialize buf =
     (if length buf < SIZE_HEADER then (Inl (ProtoHeader ''Too few bytes''), buf)
      else if take 12 buf \<noteq> SIGNATURE then (Inl (ProtoHeader ''Invalid signature''), buf)
      else
        let vc = buf ! 12; protocol = buf ! 13 in
        if drop_bit 4 (vc AND 0xF0) \<noteq> PROXY_VERSION then
          (Inl (ProtoHeader ''Invalid Version''), drop 13 buf)
        else if COMMAND_PROXY < vc AND 0x0F then
          (Inl (ProtoHeader ''Invalid command''), drop 13 buf)
        else if protocol \<notin> set VALID_PROTOCOLS then
          (Inl (ProtoHeader ''Invalid network protocol specified''), drop 14 buf)
        else
          (Inr \<lparr>ph_version_and_command = vc, ph_protocol = protocol,
                ph_len = of_nat (of_be (take 2 (drop 14 buf)))\<rparr>,
           drop SIZE_HEADER buf))"

definition proto_header_serialize :: "proto_header \<Rightarrow> bytes" where
  "proto_header_serialize h =
     SIGNATURE @ [ph_version_and_command h, ph_protocol h] @ be_bytes 2 (unat (ph_len h))"

record ip4_addresses =
  i4_src_addr :: u32
  i4_dst_addr :: u32
  i4_src_port :: u16
  i4_dst_port :: u16

definition ip4_of_socks :: "bytes \<Rightarrow> u16 \<Rightarrow> bytes \<Rightarrow> u16 \<Rightarrow> ip4_addresses" where
  "ip4_of_socks sa sp da dp =
     \<lparr>i4_src_addr = of_nat (of_be sa), i4_dst_addr = of_nat (of_be da),
      i4_src_port = sp, i4_dst_port = dp\<rparr>"

definition socks_of_ip4 :: "ip4_addresses \<Rightarrow> socket_addr \<times> socket_addr" where
  "socks_of_ip4 a =
     (SockV4 (be_bytes 4 (unat (i4_src_addr a))) (i4_src_port a),
      SockV4 (be_bytes 4 (unat (i4_dst_addr a))) (i4_dst_port a))"

definition ip4_serialize :: "ip4_addresses \<Rightarrow> bytes" where
  "ip4_serialize a =
     be_bytes 4 (unat (i4_src_addr a)) @ be_bytes 4 (unat (i4_dst_addr a)) @
     be_bytes 2 (unat (i4_src_port a)) @ be_bytes 2 (unat (i4_dst_port a))"

definition ip4_deserialize :: "bytes \<Rightarrow> proto_error + ip4_addresses" where
  "ip4_deserialize buf =
     (if length buf < unat SIZE_ADDRESSES_IP4
      then Inl (AddressIp4 ''Too short for IP4 addresses block'')
      else Inr \<lparr>i4_src_addr = of_nat (of_be (take 4 buf)),
                i4_dst_addr = of_nat (of_be (take 4 (drop 4 buf))),
                i4_src_port = of_nat (of_be (take 2 (drop 8 buf))),
                i4_dst_port = of_nat (of_be (take 2 (drop 10 buf)))\<rparr>)"

record ip6_addresses =
  i6_src_addr :: bytes
  i6_dst_addr :: bytes
  i6_src_port :: u16
  i6_dst_port :: u16

text \<open>The flow info and the scope id of an IPv6 address have no place in the block.\<close>

definition ip6_of_socks :: "bytes \<Rightarrow> u16 \<Rightarrow> bytes \<Rightarrow> u16 \<Rightarrow> ip6_addresses" where
  "ip6_of_socks sa sp da dp =
     \<lparr>i6_src_addr = sa, i6_dst_addr = da, i6_src_port = sp, i6_dst_port = dp\<rparr>"

definition socks_of_ip6 :: "ip6_addresses \<Rightarrow> socket_addr \<times> socket_addr" where
  "socks_of_ip6 a =
     (SockV6 (i6_src_addr a) (i6_src_port a) 0 0, SockV6 (i6_dst_addr a) (i6_dst_port a) 0 0)"

definition ip6_serialize :: "ip6_addresses \<Rightarrow> bytes" where
  "ip6_serialize a =
     i6_src_addr a @ i6_dst_addr a @
     be_bytes 2 (unat (i6_src_port a)) @ be_bytes 2 (unat (i6_dst_port a))"

definition ip6_deserialize :: "bytes \<Rightarrow> proto_error + ip6_addresses" where
  "ip6_deserialize buf =
     (if length buf < unat SIZE_ADDRESSES_IP6
      then Inl (AddressIp6 ''Too short for IP6 addresses block'')
      else Inr \<lparr>i6_src_addr = take 16 buf, i6_dst_addr = take 16 (drop 16 buf),
                i6_src_port = of_nat (of_be (take 2 (drop 32 buf))),
                i6_dst_port = of_nat (of_be (take 2 (drop 34 buf)))\<rparr>)"

record v2_codec =
  v2_socket_type :: "socket_type option"
  v2_remains :: nat

definition v2_new :: v2_codec where
  "v2_new = \<lparr>v2_socket_type = None, v2_remains = 0\<rparr>"

definition v2_info :: "socket_type \<Rightarrow> bytes \<Rightarrow> proto_error + proxy_info" where
  "v2_info t data =
     (case t of
        Ipv4 \<Rightarrow>
          rmap (\<lambda>a. case socks_of_ip4 a of (s, d) \<Rightarrow>
                  \<lparr>pi_type = t, pi_source = Some s, pi_destination = Some d\<rparr>) (ip4_deserialize data)
      | Ipv6 \<Rightarrow>
          rmap (\<lambda>a. case socks_of_ip6 a of (s, d) \<Rightarrow>
                  \<lparr>pi_type = t, pi_source = Some s, pi_destination = Some d\<rparr>) (ip6_deserialize data)
      | Unknown \<Rightarrow> Inr \<lparr>pi_type = t, pi_source = None, pi_destination = None\<rparr>)"

text \<open>
  The loop of \<open>decode\<close> runs at most twice: the first pass reads the header and sets the socket
  type, the second reads the address block.
\<close>

definition v2_decode_addresses :: "socket_type \<Rightarrow> v2_codec \<Rightarrow> bytes \<Rightarrow> v2_codec decoding" where
  "v2_decode_addresses t c buf =
     (if 0 < v2_remains c \<and> length buf < v2_remains c then (Inr None, c, buf)
      else
        case v2_info t (take (v2_remains c) buf) of
          Inl e \<Rightarrow> (Inl (ProxyV2 e), c, drop (v2_remains c) buf)
        | Inr info \<Rightarrow>
            (Inr (Some info), \<lparr>v2_socket_type = None, v2_remains = 0\<rparr>, drop (v2_remains c) buf))"

definition v2_decode :: "v2_codec \<Rightarrow> bytes \<Rightarrow> v2_codec decoding" where
  "v2_decode c buf =
     (case v2_socket_type c of
        Some t \<Rightarrow> v2_decode_addresses t c buf
      | None \<Rightarrow>
          if length buf < SIZE_HEADER then (Inr None, c, buf)
          else
            case proto_header_deserialize buf of
              (Inl e, buf') \<Rightarrow> (Inl (ProxyV2 e), c, buf')
            | (Inr h, buf') \<Rightarrow>
                let t = (if ph_protocol h = PROTOCOL_TCP_IP4 then Ipv4
                         else if ph_protocol h = PROTOCOL_TCP_IP6 then Ipv6 else Unknown)
                in v2_decode_addresses t \<lparr>v2_socket_type = Some t, v2_remains = unat (ph_len h)\<rparr> buf')"

text \<open>The bytes written, with the error if there is one: the header is out before the check.\<close>

definition v2_encode :: "proxy_info \<Rightarrow> (proxy_error + unit) \<times> bytes" where
  "v2_encode item =
     (let h = proto_header_serialize (proto_header_new (pi_type item)) in
      case pi_type item of
        Ipv4 \<Rightarrow>
          (case (pi_source item, pi_destination item) of
             (Some (SockV4 sa sp), Some (SockV4 da dp)) \<Rightarrow>
               (Inr (), h @ ip4_serialize (ip4_of_socks sa sp da dp))
           | _ \<Rightarrow> (Inl (Proxy ''Both V4 addresses must be present''), h))
      | Ipv6 \<Rightarrow>
          (case (pi_source item, pi_destination item) of
             (Some (SockV6 sa sp _ _), Some (SockV6 da dp _ _)) \<Rightarrow>
               (Inr (), h @ ip6_serialize (ip6_of_socks sa sp da dp))
           | _ \<Rightarrow> (Inl (Proxy ''Both V4 addresses must be present''), h))
      | Unknown \<Rightarrow> (Inr (), h))"

section \<open>Incremental decoders\<close>

definition outcome :: "'s decoding \<Rightarrow> (proxy_error + proxy_info option) \<times> bytes" where
  "outcome d = (case d of (r, s, b) \<Rightarrow> (r, b))"

lemma outcome_simp [simp]: "outcome (r, s, b) = (r, b)"
  by (simp add: outcome_def)

text \<open>A buffer that grows by one piece at a time until the decoder is done with it.\<close>

fun feed :: "('s \<Rightarrow> bytes \<Rightarrow> 's decoding) \<Rightarrow> 's \<Rightarrow> bytes \<Rightarrow> bytes list \<Rightarrow>
    (proxy_error + proxy_info option) \<times> bytes \<times> bytes list" where
  "feed dec s buf [] = (case dec s buf of (r, s', b) \<Rightarrow> (r, b, []))"
| "feed dec s buf (c # cs) =
     (case dec s buf of
        (Inr None, s', b) \<Rightarrow> feed dec s' (b @ c) cs
      | (r, s', b) \<Rightarrow> (r, b, c # cs))"

text \<open>
  What a decoder promises: if it asks for more, it goes on from where it is as it would have
  from the start with more bytes; if it accepts, more bytes would not have changed that. The
  relation \<open>ok\<close> says which buffers may meet a state.
\<close>

locale incremental_decoder =
  fixes dec :: "'s \<Rightarrow> bytes \<Rightarrow> 's decoding"
    and ok :: "'s \<Rightarrow> bytes \<Rightarrow> bool"
  assumes wait: "ok s a \<Longrightarrow> dec s a = (Inr None, s', a') \<Longrightarrow>
      ok s' (a' @ b) \<and> outcome (dec s' (a' @ b)) = outcome (dec s (a @ b))"
    and accept: "ok s a \<Longrightarrow> dec s a = (Inr (Some x), s', a') \<Longrightarrow>
      outcome (dec s (a @ b)) = (Inr (Some x), a' @ b)"
begin

lemma feed_accepts:
  "ok s buf \<Longrightarrow> feed dec s buf cs = (Inr (Some x), b, cs') \<Longrightarrow>
   \<exists>used. cs = used @ cs' \<and> outcome (dec s (buf @ concat used)) = (Inr (Some x), b)"
proof (induction cs arbitrary: s buf)
  case Nil
  then show ?case by (auto split: prod.splits)
next
  case (Cons c cs)
  obtain r s' a' where d: "dec s buf = (r, s', a')" by (cases "dec s buf") auto
  show ?case
  proof (cases "r = Inr None")
    case True
    with Cons.prems d have f: "feed dec s' (a' @ c) cs = (Inr (Some x), b, cs')" by simp
    from wait [OF Cons.prems(1) d [unfolded True], of c] have ok: "ok s' (a' @ c)" by simp
    from Cons.IH [OF ok f] obtain used where
      "cs = used @ cs'" "outcome (dec s' (a' @ c @ concat used)) = (Inr (Some x), b)" by auto
    with wait [OF Cons.prems(1) d [unfolded True], of "c @ concat used"]
    show ?thesis by (intro exI [of _ "c # used"]) simp
  next
    case False
    with Cons.prems d have "r = Inr (Some x)" "a' = b" "c # cs = cs'"
      by (auto split: sum.splits option.splits)
    with d show ?thesis by (intro exI [of _ "[]"]) simp
  qed
qed

lemma feed_header_from:
  assumes acc: "\<And>r. outcome (dec s0 (h @ r)) = (Inr (Some x), r)"
    and pre: "\<And>a b. h = a @ b \<Longrightarrow> b \<noteq> [] \<Longrightarrow> fst (dec s0 a) = Inr None"
  shows "ok s buf \<Longrightarrow> (\<And>y. outcome (dec s (buf @ y)) = outcome (dec s0 (got @ y))) \<Longrightarrow>
    got @ concat cs = h @ rest \<Longrightarrow>
    \<exists>b cs'. feed dec s buf cs = (Inr (Some x), b, cs') \<and> b @ concat cs' = rest"
proof (induction cs arbitrary: s buf got)
  case Nil
  then have "outcome (dec s buf) = (Inr (Some x), rest)"
    using acc [of rest] Nil(2) [of "[]"] by simp
  then show ?case by (cases "dec s buf") auto
next
  case (Cons c cs)
  obtain r s' a' where d: "dec s buf = (r, s', a')" by (cases "dec s buf") auto
  show ?case
  proof (cases "\<exists>t. got = h @ t")
    case True
    then obtain t where t: "got = h @ t" by blast
    then have "outcome (dec s buf) = (Inr (Some x), t)"
      using Cons.prems(2) [of "[]"] acc [of t] by simp
    with d t Cons.prems(3) show ?thesis by simp
  next
    case False
    with Cons.prems(3) obtain t where t: "h = got @ t" "t \<noteq> []"
      by (auto simp: append_eq_append_conv2)
    have "fst (dec s buf) = fst (outcome (dec s buf))" by (cases "dec s buf") simp
    also have "\<dots> = fst (dec s0 got)"
      using Cons.prems(2) [of "[]"] by (cases "dec s0 got") simp
    also have "\<dots> = Inr None" by (rule pre [OF t])
    finally have r: "r = Inr None" using d by simp
    note w = wait [OF Cons.prems(1) d [unfolded r]]
    have "\<exists>b cs'. feed dec s' (a' @ c) cs = (Inr (Some x), b, cs') \<and> b @ concat cs' = rest"
    proof (rule Cons.IH [of _ _ "got @ c"])
      show "ok s' (a' @ c)" using w by blast
      show "outcome (dec s' ((a' @ c) @ y)) = outcome (dec s0 ((got @ c) @ y))" for y
        using w [of "c @ y"] Cons.prems(2) [of "c @ y"] by simp
      show "(got @ c) @ concat cs = h @ rest" using Cons.prems(3) by simp
    qed
    with d r show ?thesis by simp
  qed
qed

lemma feed_header:
  assumes "\<And>r. outcome (dec s (h @ r)) = (Inr (Some x), r)"
    and "\<And>a b. h = a @ b \<Longrightarrow> b \<noteq> [] \<Longrightarrow> fst (dec s a) = Inr None"
    and "ok s []" and "concat cs = h @ rest"
  shows "\<exists>b cs'. feed dec s [] cs = (Inr (Some x), b, cs') \<and> b @ concat cs' = rest"
  by (rule feed_header_from [OF assms(1,2,3), where got = "[]"]) (simp_all add: assms(4))

end

subsection \<open>Version 1 is one\<close>

lemma find_crlf_extend: "find_crlf a = Some i \<Longrightarrow> find_crlf (a @ b) = Some i"
  by (induction a arbitrary: i rule: find_crlf.induct) (auto split: if_splits)

lemma find_crlf_resume:
  "find_crlf a = None \<Longrightarrow> a \<noteq> [] \<Longrightarrow>
   find_crlf (a @ b) = map_option (\<lambda>p. p + (length a - 1)) (find_crlf (last a # b))"
  by (induction a rule: find_crlf.induct) (auto split: if_splits simp: option.map_comp comp_def option.map_ident)

definition v1_ok :: "v1_codec \<Rightarrow> bytes \<Rightarrow> bool" where
  "v1_ok c buf \<longleftrightarrow>
     v1_next_pos c \<le> length buf \<and>
     (\<forall>b. find_crlf (buf @ b) =
          map_option (\<lambda>p. p + v1_next_pos c) (find_crlf (drop (v1_next_pos c) buf @ b)))"

text \<open>The decoder without its bookmark: it looks for the end of the line from the start.\<close>

definition v1_oneshot :: "ip_parser \<Rightarrow> bool \<Rightarrow> bytes \<Rightarrow> (proxy_error + proxy_info option) \<times> bytes" where
  "v1_oneshot parse6 pass buf =
     (case find_crlf buf of
        Some eol \<Rightarrow>
          if \<not> valid_utf8 (take eol buf) then (Inl ProxyUtf8, buf)
          else
            (case v1_parse parse6 (take eol buf) of
               Inl e \<Rightarrow> (Inl e, buf)
             | Inr res \<Rightarrow> (rmap Some res, if pass then buf else drop (eol + 2) buf))
      | None \<Rightarrow>
          if length buf < MAX_HEADER_SIZE then (Inr None, buf)
          else (Inl (Proxy ''Proxy header v1 does not contain EOL''), buf))"

lemma v1_decode_oneshot:
  assumes "v1_ok c buf"
  shows "outcome (v1_decode parse6 c buf) = v1_oneshot parse6 (v1_pass_header c) buf"
proof -
  from assms have "find_crlf buf =
      map_option (\<lambda>p. p + v1_next_pos c) (find_crlf (drop (v1_next_pos c) buf))"
    "\<not> length buf < v1_next_pos c"
    unfolding v1_ok_def by (metis append_Nil2, simp)
  then show ?thesis
    by (cases "find_crlf (drop (v1_next_pos c) buf)")
      (auto simp: v1_decode_def v1_oneshot_def Let_def outcome_def split: sum.splits)
qed

lemma v1_ok_start: "v1_next_pos c = 0 \<Longrightarrow> v1_ok c buf"
  by (simp add: v1_ok_def option.map_ident)

lemma v1_decode_waits:
  assumes "v1_ok c a" and "v1_decode parse6 c a = (Inr None, c', a')"
  shows "a' = a \<and> v1_pass_header c' = v1_pass_header c \<and> v1_ok c' (a @ b) \<and> find_crlf a = None"
proof -
  from assms(2) have n: "find_crlf (drop (v1_next_pos c) a) = None" "a' = a"
    "c' = c\<lparr>v1_next_pos := (if a = [] then 0 else length a - 1)\<rparr>"
    by (auto simp: v1_decode_def Let_def result_simps split: if_splits option.splits sum.splits)
  from assms(1) n(1) have f: "find_crlf a = None"
    unfolding v1_ok_def by (metis append_Nil2 option.simps(8))
  show ?thesis
  proof (cases "a = []")
    case True
    with n f show ?thesis by (simp add: v1_ok_start)
  next
    case False
    then have "drop (length a - 1) a = [last a]"
      by (metis append_butlast_last_id append_eq_conv_conj length_butlast)
    with False n f find_crlf_resume [OF f False] show ?thesis
      by (simp add: v1_ok_def)
  qed
qed

interpretation v1: incremental_decoder "v1_decode parse6" v1_ok for parse6
proof
  fix s s' a a' b
  assume ok: "v1_ok s a" and d: "v1_decode parse6 s a = (Inr None, s', a')"
  note w = v1_decode_waits [OF ok d]
  have ok': "v1_ok s (a @ b)"
    using ok by (auto simp: v1_ok_def)
  show "v1_ok s' (a' @ b) \<and>
      outcome (v1_decode parse6 s' (a' @ b)) = outcome (v1_decode parse6 s (a @ b))"
    using w [of b] v1_decode_oneshot [OF ok'] by (simp add: v1_decode_oneshot)
next
  fix s s' a a' b x
  assume ok: "v1_ok s a" and d: "v1_decode parse6 s a = (Inr (Some x), s', a')"
  have ok': "v1_ok s (a @ b)"
    using ok by (auto simp: v1_ok_def)
  have o: "v1_oneshot parse6 (v1_pass_header s) a = (Inr (Some x), a')"
    using v1_decode_oneshot [OF ok, of parse6] d by simp
  then obtain i where i: "find_crlf a = Some i"
    by (auto simp: v1_oneshot_def split: option.splits if_splits)
  with find_crlf_Some [OF i] find_crlf_extend [OF i, of b] o
  have "v1_oneshot parse6 (v1_pass_header s) (a @ b) = (Inr (Some x), a' @ b)"
    by (auto simp: v1_oneshot_def split: if_splits sum.splits)
  then show "outcome (v1_decode parse6 s (a @ b)) = (Inr (Some x), a' @ b)"
    by (simp add: v1_decode_oneshot [OF ok'])
qed

subsection \<open>Version 2 is one\<close>

lemma proto_header_deserialize_extend:
  "16 \<le> length a \<Longrightarrow> proto_header_deserialize (a @ b) =
     (case proto_header_deserialize a of (r, a') \<Rightarrow> (r, a' @ b))"
  by (auto simp: proto_header_deserialize_def SIZE_HEADER_def Let_def nth_append)

lemma v2_addresses_extend:
  "\<not> (0 < v2_remains c \<and> length a < v2_remains c) \<Longrightarrow>
   v2_decode_addresses t c (a @ b) = (case v2_decode_addresses t c a of (r, s, a') \<Rightarrow> (r, s, a' @ b))"
  by (cases "v2_remains c = 0") (auto simp: v2_decode_addresses_def split: sum.splits)

lemma v2_addresses_cases:
  assumes "v2_decode_addresses t c a = (r, c', a')"
  shows "(r = Inr None \<and> 0 < v2_remains c \<and> length a < v2_remains c \<and> c' = c \<and> a' = a) \<or>
         (r \<noteq> Inr None \<and> \<not> (0 < v2_remains c \<and> length a < v2_remains c))"
  using assms by (auto simp: v2_decode_addresses_def split: if_splits sum.splits)

lemma v2_decode_header:
  assumes "v2_socket_type s = None" and "\<not> length a < SIZE_HEADER"
    and "v2_decode s a = (Inr x, s', a')"
  obtains t n c where
    "\<And>y. v2_decode s (a @ y) = v2_decode_addresses t \<lparr>v2_socket_type = Some t, v2_remains = n\<rparr> (c @ y)"
proof -
  obtain r c where h: "proto_header_deserialize a = (r, c)" by (cases "proto_header_deserialize a")
  from assms h obtain hd where r: "r = Inr hd" by (auto simp: v2_decode_def split: sum.splits)
  from assms(1,2) h r show thesis
    using proto_header_deserialize_extend [of a]
    by (intro that [of "if ph_protocol hd = PROTOCOL_TCP_IP4 then Ipv4
                        else if ph_protocol hd = PROTOCOL_TCP_IP6 then Ipv6 else Unknown"
            "unat (ph_len hd)" c])
      (simp add: v2_decode_def SIZE_HEADER_def Let_def)
qed

lemma v2_decode_waits:
  assumes d: "v2_decode s a = (Inr None, s', a')"
  shows "outcome (v2_decode s' (a' @ b)) = outcome (v2_decode s (a @ b))"
proof (cases "v2_socket_type s")
  case (Some t)
  with d v2_addresses_cases [of t s a] show ?thesis by (auto simp: v2_decode_def)
next
  case None
  show ?thesis
  proof (cases "length a < SIZE_HEADER")
    case True
    with None d show ?thesis by (auto simp: v2_decode_def)
  next
    case False
    obtain t n c where e: "\<And>y. v2_decode s (a @ y) =
        v2_decode_addresses t \<lparr>v2_socket_type = Some t, v2_remains = n\<rparr> (c @ y)"
      using v2_decode_header [OF None False d] by blast
    from d e [of "[]"]
    have "v2_decode_addresses t \<lparr>v2_socket_type = Some t, v2_remains = n\<rparr> c = (Inr None, s', a')"
      by simp
    from v2_addresses_cases [OF this]
    have "s' = \<lparr>v2_socket_type = Some t, v2_remains = n\<rparr>" "a' = c" by simp_all
    then show ?thesis by (simp add: e) (simp add: v2_decode_def)
  qed
qed

lemma v2_decode_accepts:
  assumes d: "v2_decode s a = (Inr (Some x), s', a')"
  shows "outcome (v2_decode s (a @ b)) = (Inr (Some x), a' @ b)"
proof (cases "v2_socket_type s")
  case (Some t)
  with d v2_addresses_cases [of t s a] v2_addresses_extend [of s a t b] show ?thesis
    by (auto simp: v2_decode_def)
next
  case None
  with d have l: "\<not> length a < SIZE_HEADER" by (auto simp: v2_decode_def)
  obtain t n c where e: "\<And>y. v2_decode s (a @ y) =
      v2_decode_addresses t \<lparr>v2_socket_type = Some t, v2_remains = n\<rparr> (c @ y)"
    using v2_decode_header [OF None l d] by blast
  from d e [of "[]"]
  have a: "v2_decode_addresses t \<lparr>v2_socket_type = Some t, v2_remains = n\<rparr> c = (Inr (Some x), s', a')"
    by simp
  from v2_addresses_cases [OF a] a show ?thesis
    using v2_addresses_extend [of "\<lparr>v2_socket_type = Some t, v2_remains = n\<rparr>" c t b]
    by (simp add: e)
qed

interpretation v2: incremental_decoder v2_decode "\<lambda>_ _. True"
  by unfold_locales (simp_all add: v2_decode_waits v2_decode_accepts)

section \<open>Headers read back\<close>

text \<open>
  The address pairs a header can carry: both IPv4, both IPv6 (without flow info and scope), or
  none.
\<close>

fun wf_addr :: "socket_type \<Rightarrow> socket_addr option \<Rightarrow> bool" where
  "wf_addr Ipv4 (Some (SockV4 a p)) = (length a = 4)"
| "wf_addr Ipv6 (Some (SockV6 a p f s)) = (length a = 16 \<and> f = 0 \<and> s = 0)"
| "wf_addr Unknown None = True"
| "wf_addr _ _ = False"

definition wf_info :: "proxy_info \<Rightarrow> bool" where
  "wf_info i \<longleftrightarrow> wf_addr (pi_type i) (pi_source i) \<and> wf_addr (pi_type i) (pi_destination i)"

lemma wf_addr_cases:
  assumes "wf_addr t x" "wf_addr t y"
  obtains (v4) a p b q where "t = Ipv4" "x = Some (SockV4 a p)" "y = Some (SockV4 b q)"
      "length a = 4" "length b = 4"
  | (v6) a p b q where "t = Ipv6" "x = Some (SockV6 a p 0 0)" "y = Some (SockV6 b q 0 0)"
      "length a = 16" "length b = 16"
  | (unknown) "t = Unknown" "x = None" "y = None"
  using assms by (cases "(t, x)" rule: wf_addr.cases; cases "(t, y)" rule: wf_addr.cases) auto

lemma wf_info_cases:
  assumes "wf_info i"
  obtains (v4) a p b q where
      "i = \<lparr>pi_type = Ipv4, pi_source = Some (SockV4 a p), pi_destination = Some (SockV4 b q)\<rparr>"
      "length a = 4" "length b = 4"
  | (v6) a p b q where
      "i = \<lparr>pi_type = Ipv6, pi_source = Some (SockV6 a p 0 0), pi_destination = Some (SockV6 b q 0 0)\<rparr>"
      "length a = 16" "length b = 16"
  | (unknown) "i = \<lparr>pi_type = Unknown, pi_source = None, pi_destination = None\<rparr>"
proof -
  from assms have "wf_addr (pi_type i) (pi_source i)" "wf_addr (pi_type i) (pi_destination i)"
    by (simp_all add: wf_info_def)
  then show thesis
  proof (cases rule: wf_addr_cases)
    case (v4 a p b q)
    then show ?thesis by (intro that(1) [of a p b q] proxy_info.equality) simp_all
  next
    case (v6 a p b q)
    then show ?thesis by (intro that(2) [of a p b q] proxy_info.equality) simp_all
  next
    case unknown
    then show ?thesis by (intro that(3) proxy_info.equality) simp_all
  qed
qed

text \<open>What the standard library promises of the text form of an IPv6 address.\<close>

definition ipv6_text :: "ip_parser \<Rightarrow> (bytes \<Rightarrow> bytes) \<Rightarrow> bool" where
  "ipv6_text parse6 print6 \<longleftrightarrow>
     (\<forall>a. length a = 16 \<longrightarrow>
        parse6 (print6 a) = Some a \<and> length (print6 a) \<le> 45 \<and>
        list_all (\<lambda>b. 0x2e \<le> b \<and> b \<le> 0x7F) (print6 a))"

text \<open>A text form with these properties: two letters per octet.\<close>

definition simple_print6 :: "bytes \<Rightarrow> bytes" where
  "simple_print6 a = concat (map (\<lambda>b. [of_nat (97 + unat b div 16), of_nat (97 + unat b mod 16)]) a)"

fun simple_parse6 :: ip_parser where
  "simple_parse6 [] = Some []"
| "simple_parse6 (h # l # r) =
     map_option (\<lambda>bs. of_nat ((unat h - 97) * 16 + (unat l - 97)) # bs) (simple_parse6 r)"
| "simple_parse6 _ = None"

lemma unat_letter: "d < 16 \<Longrightarrow> unat (of_nat (97 + d) :: u8) = 97 + d"
  by (simp only: unat_of_nat) simp

lemma simple_print6_props:
  "simple_parse6 (simple_print6 a) = Some a \<and> length (simple_print6 a) = 2 * length a \<and>
   list_all (\<lambda>b. 0x2e \<le> b \<and> b \<le> 0x7F) (simple_print6 a)"
proof (induction a)
  case (Cons b a)
  have d: "unat b div 16 < 16" "unat b mod 16 < 16" using unat_u8_bound [of b] by auto
  have "(of_nat ((unat (of_nat (97 + unat b div 16) :: u8) - 97) * 16 +
      (unat (of_nat (97 + unat b mod 16) :: u8) - 97)) :: u8) = b"
    unfolding unat_letter [OF d(1)] unat_letter [OF d(2)] by simp
  moreover have "list_all (\<lambda>b. 0x2e \<le> b \<and> b \<le> 0x7F) [of_nat (97 + unat b div 16) :: u8, of_nat (97 + unat b mod 16)]"
    unfolding word_le_nat_alt list.pred_inject unat_letter [OF d(1)] unat_letter [OF d(2)]
    using d by simp
  ultimately show ?case
    using Cons unfolding simple_print6_def by simp
qed (simp add: simple_print6_def)

lemma ipv6_text_simple: "ipv6_text simple_parse6 simple_print6"
  by (simp add: ipv6_text_def simple_print6_props)

subsection \<open>Version 1\<close>

definition v1_line :: "(bytes \<Rightarrow> bytes) \<Rightarrow> proxy_info \<Rightarrow> bytes" where
  "v1_line print6 i =
     (case (pi_type i, pi_source i, pi_destination i) of
        (Unknown, _, _) \<Rightarrow> ascii ''PROXY'' @ 0x20 # ascii ''UNKNOWN''
      | (t, Some s, Some d) \<Rightarrow>
          ascii ''PROXY'' @ 0x20 # (if t = Ipv4 then ascii ''TCP4'' else ascii ''TCP6'') @
          0x20 # print_ip print6 s @ 0x20 # print_ip print6 d @
          0x20 # dec_bytes (unat (addr_port s)) @ 0x20 # dec_bytes (unat (addr_port d))
      | _ \<Rightarrow> [])"

lemma ascii_tags:
  "ascii ''PROXY '' = [0x50, 0x52, 0x4f, 0x58, 0x59, 0x20]"
  "ascii ''PROXY'' = [0x50, 0x52, 0x4f, 0x58, 0x59]"
  "ascii ''TCP4'' = [0x54, 0x43, 0x50, 0x34]" "ascii ''TCP6'' = [0x54, 0x43, 0x50, 0x36]"
  "ascii ''UNKNOWN'' = [0x55, 0x4e, 0x4b, 0x4e, 0x4f, 0x57, 0x4e]"
  by (simp_all add: ascii_def)

lemma v1_encode_line:
  "wf_info i \<Longrightarrow> v1_encode print6 i = Inr (v1_line print6 i @ [0x0d, 0x0a])"
  by (erule wf_info_cases) (simp_all add: v1_encode_def v1_line_def ascii_tags)

text \<open>Printed fields are ASCII and contain no space and no carriage return.\<close>

definition clean :: "bytes \<Rightarrow> bool" where
  "clean s \<longleftrightarrow> 0x20 \<notin> set s \<and> 0x0d \<notin> set s \<and> list_all (\<lambda>b. b \<le> 0x7F) s"

lemma clean_dec: "clean (dec_bytes n)"
  using dec_bytes_digits [of n] digit_ascii by (auto simp: clean_def dec_bytes_no_sep list_all_iff)

lemma clean_ipv4: "clean (print_ipv4 a)"
  by (simp add: clean_def print_ipv4_chars)

lemma clean_ipv6: "ipv6_text parse6 print6 \<Longrightarrow> length a = 16 \<Longrightarrow> clean (print6 a)"
  unfolding ipv6_text_def clean_def list_all_iff by fastforce

lemma length_dec_u16: "length (dec_bytes (unat (p :: u16))) \<le> 5"
proof -
  have "n < 10 ^ Suc k \<Longrightarrow> length (dec_bytes n) \<le> Suc k" for n k
  proof (induction k arbitrary: n)
    case 0
    then show ?case by (subst dec_bytes.simps) simp
  next
    case (Suc k)
    then have "n div 10 < 10 ^ Suc k" by (simp add: less_mult_imp_div_less)
    from Suc.IH [OF this] show ?case by (subst dec_bytes.simps) auto
  qed
  from this [of "unat p" 4] show ?thesis using unat_u16_bound [of p] by simp
qed

lemma length_print_ipv4: "length (print_ipv4 a) \<le> 15"
  using dec_bytes_small [OF unat_u8_bound, of "a ! 0"] dec_bytes_small [OF unat_u8_bound, of "a ! 1"]
    dec_bytes_small [OF unat_u8_bound, of "a ! 2"] dec_bytes_small [OF unat_u8_bound, of "a ! 3"]
  by (simp add: print_ipv4_def)

lemma v1_parse_line:
  assumes "ipv6_text parse6 print6" and "wf_info i"
  shows "v1_parse parse6 (v1_line print6 i) = Inr (Inr i)"
  using assms(2)
proof (cases rule: wf_info_cases)
  case (v4 a p b q)
  then show ?thesis
    using clean_ipv4 clean_dec
    by (simp add: v1_parse_def v1_line_def print_ip_def split_on_append split_on_single clean_def
        ascii_tags parse_addresses_def parse_print_ipv4 parse_u16_dec dec_bytes_no_sep)
next
  case (v6 a p b q)
  moreover have "0x20 \<notin> set (print6 a)" "0x20 \<notin> set (print6 b)"
    using clean_ipv6 [OF assms(1)] v6 by (auto simp: clean_def)
  ultimately show ?thesis
    using assms(1) unfolding ipv6_text_def
    by (simp add: v1_parse_def v1_line_def print_ip_def split_on_append split_on_single
        ascii_tags parse_addresses_def parse_u16_dec dec_bytes_no_sep)
next
  case unknown
  then show ?thesis by (simp add: v1_parse_def v1_line_def ascii_tags)
qed

lemma v1_line_shape:
  assumes "ipv6_text parse6 print6" and "wf_info i"
  shows "0x0d \<notin> set (v1_line print6 i) \<and> valid_utf8 (v1_line print6 i) \<and> length (v1_line print6 i) < 200"
proof -
  have "0x0d \<notin> set (v1_line print6 i) \<and> list_all (\<lambda>b. b \<le> 0x7F) (v1_line print6 i) \<and>
      length (v1_line print6 i) < 200"
    using assms(2)
  proof (cases rule: wf_info_cases)
    case (v4 a p b q)
    then show ?thesis
      using clean_ipv4 [of a] clean_ipv4 [of b] clean_dec [of "unat p"] clean_dec [of "unat q"]
        length_dec_u16 [of p] length_dec_u16 [of q] length_print_ipv4 [of a] length_print_ipv4 [of b]
      by (simp add: v1_line_def print_ip_def ascii_tags clean_def)
  next
    case (v6 a p b q)
    moreover have "length (print6 a) \<le> 45" "length (print6 b) \<le> 45"
      using assms(1) v6 by (auto simp: ipv6_text_def)
    ultimately show ?thesis
      using clean_ipv6 [OF assms(1), of a] clean_ipv6 [OF assms(1), of b] clean_dec [of "unat p"]
        clean_dec [of "unat q"] length_dec_u16 [of p] length_dec_u16 [of q]
      by (simp add: v1_line_def print_ip_def ascii_tags clean_def)
  next
    case unknown
    then show ?thesis by (simp add: v1_line_def ascii_tags)
  qed
  then show ?thesis using valid_utf8_ascii_bytes by blast
qed

lemma find_crlf_no_cr: "0x0d \<notin> set (butlast a) \<Longrightarrow> find_crlf a = None"
  by (induction a rule: find_crlf.induct) (auto split: if_splits)

lemma v1_header_accept:
  assumes "ipv6_text parse6 print6" and "wf_info i"
  shows "outcome (v1_decode parse6 v1_new ((v1_line print6 i @ [0x0d, 0x0a]) @ r)) = (Inr (Some i), r)"
proof -
  note sh = v1_line_shape [OF assms]
  from find_crlf_append [of "v1_line print6 i" r] sh
  have "find_crlf ((v1_line print6 i @ [0x0d, 0x0a]) @ r) = Some (length (v1_line print6 i))" by simp
  then show ?thesis
    using sh v1_parse_line [OF assms] v1_decode_oneshot [OF v1_ok_start]
    by (simp add: v1_new_def v1_oneshot_def)
qed

lemma v1_header_waits:
  assumes "ipv6_text parse6 print6" and "wf_info i"
    and "v1_line print6 i @ [0x0d, 0x0a] = a @ b" and "b \<noteq> []"
  shows "fst (v1_decode parse6 v1_new a) = Inr None"
proof -
  note sh = v1_line_shape [OF assms(1,2)]
  obtain b' x where b: "b = b' @ [x]" using assms(4) by (metis rev_exhaust)
  with assms(3) have "(v1_line print6 i @ [0x0d]) @ [0x0a] = (a @ b') @ [x]" by simp
  then have e: "v1_line print6 i @ [0x0d] = a @ b'" by blast
  have "0x0d \<notin> set (butlast a)"
  proof
    assume "0x0d \<in> set (butlast a)"
    then have "0x0d \<in> set (butlast (a @ b'))" by (auto simp: butlast_append dest: in_set_butlastD)
    with e sh show False by (metis butlast_snoc)
  qed
  then have "find_crlf a = None" by (rule find_crlf_no_cr)
  moreover have "length a < MAX_HEADER_SIZE"
    using arg_cong [OF e, of length] sh by (simp add: MAX_HEADER_SIZE_def)
  moreover have "fst (v1_decode parse6 v1_new a) = fst (outcome (v1_decode parse6 v1_new a))"
    by (cases "v1_decode parse6 v1_new a") simp
  ultimately show ?thesis
    using v1_decode_oneshot [OF v1_ok_start, of v1_new parse6 a] by (simp add: v1_new_def v1_oneshot_def)
qed

subsection \<open>Version 2\<close>

lemmas proto_consts =
  SIGNATURE_def PROXY_VERSION_def COMMAND_PROXY_def VERSION_COMMAND_def PROTOCOL_UNSPEC_def
  PROTOCOL_TCP_IP4_def PROTOCOL_UDP_IP4_def PROTOCOL_TCP_IP6_def PROTOCOL_UDP_IP6_def
  PROTOCOL_UNIX_SOCKET_def PROTOCOL_UNIX_DATAGRAM_def VALID_PROTOCOLS_def SIZE_HEADER_def
  SIZE_ADDRESSES_IP4_def SIZE_ADDRESSES_IP6_def

lemma length_proto_header: "length (proto_header_serialize h) = 16"
  by (simp add: proto_header_serialize_def SIGNATURE_def)

lemma proto_header_read:
  "proto_header_deserialize (proto_header_serialize (proto_header_new t) @ r) = (Inr (proto_header_new t), r)"
proof -
  define h where "h = proto_header_new t"
  have f: "ph_version_and_command h = 0x21" "ph_protocol h \<in> set VALID_PROTOCOLS"
    by (auto simp: h_def proto_header_new_def Let_def proto_consts split: socket_type.splits)
  have "be_bytes 2 (unat (ph_len h)) = [be_bytes 2 (unat (ph_len h)) ! 0, be_bytes 2 (unat (ph_len h)) ! 1]"
    by (rule nth_equalityI) (auto simp: less_Suc_eq numeral_2_eq_2)
  then obtain x y where xy: "be_bytes 2 (unat (ph_len h)) = [x, y]" by metis
  have "of_nat (of_be [x, y]) = ph_len h"
    using of_nat_of_be_u16 [of "ph_len h"] by (simp only: xy)
  with f show ?thesis
    unfolding h_def [symmetric]
    by (simp add: proto_header_deserialize_def proto_header_serialize_def xy SIZE_HEADER_def
        SIGNATURE_def PROXY_VERSION_def COMMAND_PROXY_def Let_def)
qed

lemma ip4_read:
  assumes "length a = 4" and "length b = 4"
  shows "ip4_deserialize (ip4_serialize (ip4_of_socks a p b q)) = Inr (ip4_of_socks a p b q)"
    and "length (ip4_serialize (ip4_of_socks a p b q)) = 12"
    and "socks_of_ip4 (ip4_of_socks a p b q) = (SockV4 a p, SockV4 b q)"
proof -
  have n: "be_bytes 4 (unat (of_nat (of_be c) :: u32)) = c" if "length c = 4" for c
    using that of_le_bound [of "rev c"] by (simp add: of_be_def be_bytes_def unat_of_nat byte_simps)
  show "ip4_deserialize (ip4_serialize (ip4_of_socks a p b q)) = Inr (ip4_of_socks a p b q)"
    using assms
    by (simp add: ip4_deserialize_def ip4_serialize_def ip4_of_socks_def SIZE_ADDRESSES_IP4_def n byte_simps)
  show "length (ip4_serialize (ip4_of_socks a p b q)) = 12"
    by (simp add: ip4_serialize_def)
  show "socks_of_ip4 (ip4_of_socks a p b q) = (SockV4 a p, SockV4 b q)"
    using assms by (simp add: socks_of_ip4_def ip4_of_socks_def n)
qed

lemma ip6_read:
  assumes "length a = 16" and "length b = 16"
  shows "ip6_deserialize (ip6_serialize (ip6_of_socks a p b q)) = Inr (ip6_of_socks a p b q)"
    and "length (ip6_serialize (ip6_of_socks a p b q)) = 36"
    and "socks_of_ip6 (ip6_of_socks a p b q) = (SockV6 a p 0 0, SockV6 b q 0 0)"
  using assms
  by (simp_all add: ip6_deserialize_def ip6_serialize_def ip6_of_socks_def socks_of_ip6_def
      SIZE_ADDRESSES_IP6_def byte_simps)

text \<open>The address block of a header and the header's own sixteen bytes.\<close>

lemma v2_encode_parts:
  assumes "wf_info i"
  obtains body where
    "v2_encode i = (Inr (), proto_header_serialize (proto_header_new (pi_type i)) @ body)"
    "length body = unat (ph_len (proto_header_new (pi_type i)))"
    "v2_info (pi_type i) body = Inr i"
  using assms
proof (cases rule: wf_info_cases)
  case (v4 a p b q)
  with ip4_read [OF v4(2,3), of p q] show ?thesis
    by (intro that [of "ip4_serialize (ip4_of_socks a p b q)"])
      (simp_all add: v2_encode_def proto_header_new_def v2_info_def SIZE_ADDRESSES_IP4_def)
next
  case (v6 a p b q)
  with ip6_read [OF v6(2,3), of p q] show ?thesis
    by (intro that [of "ip6_serialize (ip6_of_socks a p b q)"])
      (simp_all add: v2_encode_def proto_header_new_def v2_info_def SIZE_ADDRESSES_IP6_def)
next
  case unknown
  then show ?thesis
    by (intro that [of "[]"]) (simp_all add: v2_encode_def proto_header_new_def v2_info_def)
qed

lemma v2_header_step:
  "v2_decode v2_new (proto_header_serialize (proto_header_new t) @ r) =
     v2_decode_addresses t
       \<lparr>v2_socket_type = Some t, v2_remains = unat (ph_len (proto_header_new t))\<rparr> r"
proof -
  have "ph_protocol (proto_header_new t) =
      (case t of Unknown \<Rightarrow> PROTOCOL_UNSPEC | Ipv4 \<Rightarrow> PROTOCOL_TCP_IP4 | Ipv6 \<Rightarrow> PROTOCOL_TCP_IP6)"
    by (cases t) (simp_all add: proto_header_new_def)
  then show ?thesis
    using length_proto_header [of "proto_header_new t"]
    by (cases t) (simp_all add: v2_decode_def v2_new_def SIZE_HEADER_def proto_header_read
        proto_consts Let_def)
qed

lemma v2_header_accept:
  assumes "wf_info i" and "v2_encode i = (Inr (), h)"
  shows "outcome (v2_decode v2_new (h @ r)) = (Inr (Some i), r)"
proof -
  obtain body where b: "h = proto_header_serialize (proto_header_new (pi_type i)) @ body"
    "length body = unat (ph_len (proto_header_new (pi_type i)))" "v2_info (pi_type i) body = Inr i"
    using v2_encode_parts [OF assms(1)] assms(2) by (metis prod.inject)
  then show ?thesis
    using v2_header_step [of "pi_type i" "body @ r"] by (simp add: v2_decode_addresses_def)
qed

lemma v2_header_waits:
  assumes "wf_info i" and "v2_encode i = (Inr (), h)" and "h = a @ c" and "c \<noteq> []"
  shows "fst (v2_decode v2_new a) = Inr None"
proof -
  let ?s = "proto_header_serialize (proto_header_new (pi_type i))"
  obtain body where b: "h = ?s @ body"
    "length body = unat (ph_len (proto_header_new (pi_type i)))" "v2_info (pi_type i) body = Inr i"
    using v2_encode_parts [OF assms(1)] assms(2) by (metis prod.inject)
  show ?thesis
  proof (cases "length a < 16")
    case True
    then show ?thesis by (simp add: v2_decode_def v2_new_def SIZE_HEADER_def)
  next
    case False
    note l = length_proto_header [of "proto_header_new (pi_type i)"]
    have "take 16 a = take 16 h" "drop 16 h = drop 16 a @ c"
      using False assms(3) by simp_all
    then have "take 16 a = ?s" and d: "body = drop 16 a @ c"
      using b(1) l by simp_all
    then have a: "a = ?s @ drop 16 a" using append_take_drop_id [of 16 a] by simp
    have "length (drop 16 a) < length body" using d assms(4) by simp
    then show ?thesis using b(2)
      unfolding arg_cong [OF a, of "\<lambda>x. fst (v2_decode v2_new x)"]
      by (simp add: v2_header_step v2_decode_addresses_def)
  qed
qed

section \<open>Properties\<close>

text \<open>
  Round trip of both versions under any fragmentation: for a consistent pair of addresses
  both encoders succeed, and whenever the pieces in which bytes arrive add up to the header
  followed by anything else, feeding them to the decoder one at a time yields the same
  addresses, with exactly the bytes after the header left over.
\<close>

theorem proxy_header_roundtrip:
  assumes "ipv6_text parse6 print6" and "wf_info i"
  shows "\<exists>h1 h2. v1_encode print6 i = Inr h1 \<and> v2_encode i = (Inr (), h2) \<and>
    (\<forall>cs rest. concat cs = h1 @ rest \<longrightarrow>
       (\<exists>b cs'. feed (v1_decode parse6) v1_new [] cs = (Inr (Some i), b, cs') \<and> b @ concat cs' = rest)) \<and>
    (\<forall>cs rest. concat cs = h2 @ rest \<longrightarrow>
       (\<exists>b cs'. feed v2_decode v2_new [] cs = (Inr (Some i), b, cs') \<and> b @ concat cs' = rest))"
proof -
  let ?h1 = "v1_line print6 i @ [0x0d, 0x0a]"
  obtain h2 where h2: "v2_encode i = (Inr (), h2)"
    using v2_encode_parts [OF assms(2)] by metis
  have ok: "v1_ok v1_new []" by (simp add: v1_ok_start v1_new_def)
  have "\<exists>b cs'. feed (v1_decode parse6) v1_new [] cs = (Inr (Some i), b, cs') \<and> b @ concat cs' = rest"
    if "concat cs = ?h1 @ rest" for cs rest
    using v1.feed_header [OF v1_header_accept [OF assms] v1_header_waits [OF assms] ok that] .
  moreover have "\<exists>b cs'. feed v2_decode v2_new [] cs = (Inr (Some i), b, cs') \<and> b @ concat cs' = rest"
    if "concat cs = h2 @ rest" for cs rest
    using v2.feed_header [OF v2_header_accept [OF assms(2) h2] v2_header_waits [OF assms(2) h2] _ that]
    by simp
  ultimately show ?thesis
    using v1_encode_line [OF assms(2)] h2 by blast
qed

definition example_info :: proxy_info where
  "example_info =
     \<lparr>pi_type = Ipv4, pi_source = Some (SockV4 [127, 0, 0, 1] 80),
      pi_destination = Some (SockV4 [127, 0, 0, 2] 443)\<rparr>"

theorem proxy_header_roundtrip_witness:
  "ipv6_text simple_parse6 simple_print6 \<and> wf_info example_info \<and>
   (\<exists>h2. v2_encode example_info = (Inr (), h2) \<and>
     (\<exists>b cs'. feed v2_decode v2_new [] [take 5 h2, drop 5 h2 @ [1]] = (Inr (Some example_info), b, cs') \<and>
        b @ concat cs' = [1]))"
proof -
  have w: "wf_info example_info" by (simp add: wf_info_def example_info_def)
  from proxy_header_roundtrip [OF ipv6_text_simple w] obtain h2 where
    h2: "v2_encode example_info = (Inr (), h2)" and
    f: "\<forall>cs rest. concat cs = h2 @ rest \<longrightarrow>
       (\<exists>b cs'. feed v2_decode v2_new [] cs = (Inr (Some example_info), b, cs') \<and> b @ concat cs' = rest)"
    by blast
  have "concat [take 5 h2, drop 5 h2 @ [1]] = h2 @ [1]" by simp
  with f h2 ipv6_text_simple w show ?thesis by blast
qed

text \<open>
  Fragmentation never makes a header acceptable: if a decoder fed with pieces accepts, then
  given all the pieces it used at once it accepts the same addresses and leaves the same bytes.
\<close>

theorem proxy_feed_accepts:
  "(feed (v1_decode parse6) v1_new [] cs = (Inr (Some i), b, cs') \<longrightarrow>
      (\<exists>used. cs = used @ cs' \<and> outcome (v1_decode parse6 v1_new (concat used)) = (Inr (Some i), b))) \<and>
   (feed v2_decode v2_new [] cs = (Inr (Some i), b, cs') \<longrightarrow>
      (\<exists>used. cs = used @ cs' \<and> outcome (v2_decode v2_new (concat used)) = (Inr (Some i), b)))"
proof -
  have ok: "v1_ok v1_new []" by (simp add: v1_ok_start v1_new_def)
  show ?thesis
    using v1.feed_accepts [OF ok] v2.feed_accepts [of v2_new "[]"] by auto
qed

theorem proxy_feed_accepts_witness:
  "\<exists>used. [ascii ''PROXY UNK'', ascii ''NOWN'' @ [0x0d, 0x0a, 7]] = used @ [] \<and>
     outcome (v1_decode simple_parse6 v1_new (concat used)) = (Inr (Some proxy_info_default), [7])"
proof -
  have "feed (v1_decode simple_parse6) v1_new [] [ascii ''PROXY UNK'', ascii ''NOWN'' @ [0x0d, 0x0a, 7]] =
      (Inr (Some proxy_info_default), [7], [])"
    by code_simp
  then show ?thesis
    by (rule mp [OF conjunct1 [OF proxy_feed_accepts]])
qed

text \<open>
  The version 1 codec is good for one header only: a successful decode does not reset the
  position where the search goes on, so that the next call on a buffer shorter than that
  position panics on a slice out of range.
\<close>

theorem v1_decode_reuse_panics:
  assumes "v1_decode parse6 c buf = (Inr (Some i), c', rest)" and "length rest < v1_next_pos c"
  shows "c' = c \<and> (\<exists>m. v1_decode parse6 c' rest = (Inl (ProxyPanic m), c', rest))"
proof -
  from assms(1) have "c' = c"
    by (auto simp: v1_decode_def Let_def split: if_splits option.splits sum.splits)
  with assms(2) show ?thesis by (simp add: v1_decode_def)
qed

theorem v1_decode_reuse_panics_witness:
  "\<exists>c rest. v1_decode simple_parse6 c (ascii ''PROXY UNKNOWN'' @ [0x0d, 0x0a, 7]) =
      (Inr (Some proxy_info_default), c, rest) \<and>
    (\<exists>m. v1_decode simple_parse6 c rest = (Inl (ProxyPanic m), c, rest))"
proof -
  let ?c = "\<lparr>v1_next_pos = 4, v1_pass_header = False\<rparr>"
  have d: "v1_decode simple_parse6 ?c (ascii ''PROXY UNKNOWN'' @ [0x0d, 0x0a, 7]) =
      (Inr (Some proxy_info_default), ?c, [7])"
    by code_simp
  have "length [7 :: u8] < v1_next_pos ?c" by simp
  from v1_decode_reuse_panics [OF d this] d show ?thesis by blast
qed

end
