(* ===== verification/Proxy_Acceptor.thy ===== *)
theory Proxy_Acceptor
  imports Proxy_Protocol
begin

text \<open>
  Accepting and opening connections with a PROXY header, \<open>protocols/wire/src/proxy.rs\<close>:
  \<open>Acceptor\<close>, \<open>AcceptorBuilder\<close>, \<open>ProxyStream\<close> and \<open>Connector\<close>.

  A stream is the list of the results of its reads. The two instances of \<open>Framed::next\<close> (one
  per codec) are the arguments \<open>next1\<close> and \<open>next2\<close>; \<open>framed_contract\<close> states that they call
  the decoder on what has been read, read more while it asks for more, and report the end of
  the stream. The number of bytes a \<open>write\<close> takes is an argument as well.
\<close>

section \<open>Streams\<close>

type_synonym reads = "(string + bytes) list"

text \<open>What a stream has to offer: everything before its end or the first error.\<close>

fun stream_data :: "reads \<Rightarrow> bytes" where
  "stream_data [] = []"
| "stream_data (Inl e # rs) = []"
| "stream_data (Inr c # rs) = (if c = [] then [] else c @ stream_data rs)"

record proxy_stream =
  ps_inner :: reads
  ps_buf :: bytes
  ps_source :: "socket_addr option"
  ps_destination :: "socket_addr option"

type_synonym 's framed_next =
  "'s \<Rightarrow> bytes \<Rightarrow> reads \<Rightarrow> (proxy_error + proxy_info) option \<times> bytes \<times> reads"

definition framed_contract :: "'s framed_next \<Rightarrow> ('s \<Rightarrow> bytes \<Rightarrow> 's decoding) \<Rightarrow> bool" where
  "framed_contract next dec \<longleftrightarrow>
     (\<forall>s buf rs.
        case dec s buf of
          (Inl e, s', b) \<Rightarrow> next s buf rs = (Some (Inl e), b, rs)
        | (Inr (Some x), s', b) \<Rightarrow> next s buf rs = (Some (Inr x), b, rs)
        | (Inr None, s', b) \<Rightarrow>
            (case rs of
               Inl e # rs' \<Rightarrow> next s buf rs = (Some (Inl (ProxyIo e)), b, rs')
             | Inr (c # cs) # rs' \<Rightarrow> next s buf rs = next s' (b @ c # cs) rs'
             | _ \<Rightarrow>
                 next s buf rs =
                   (if b = [] then None else Some (Inl (ProxyIo ''bytes remaining on stream'')), b, tl rs)))"

text \<open>An implementation with this behaviour.\<close>

fun simple_framed :: "('s \<Rightarrow> bytes \<Rightarrow> 's decoding) \<Rightarrow> 's framed_next" where
  "simple_framed dec s buf [] =
     (case dec s buf of
        (Inl e, s', b) \<Rightarrow> (Some (Inl e), b, [])
      | (Inr (Some x), s', b) \<Rightarrow> (Some (Inr x), b, [])
      | (Inr None, s', b) \<Rightarrow>
          (if b = [] then None else Some (Inl (ProxyIo ''bytes remaining on stream'')), b, []))"
| "simple_framed dec s buf (r # rs) =
     (case dec s buf of
        (Inl e, s', b) \<Rightarrow> (Some (Inl e), b, r # rs)
      | (Inr (Some x), s', b) \<Rightarrow> (Some (Inr x), b, r # rs)
      | (Inr None, s', b) \<Rightarrow>
          (case r of
             Inl e \<Rightarrow> (Some (Inl (ProxyIo e)), b, rs)
           | Inr c \<Rightarrow>
               if c = [] then
                 (if b = [] then None else Some (Inl (ProxyIo ''bytes remaining on stream'')), b, rs)
               else simple_framed dec s' (b @ c) rs))"

lemma framed_contract_simple: "framed_contract (simple_framed dec) dec"
  unfolding framed_contract_def
proof (intro allI)
  fix s buf rs
  show "case dec s buf of
          (Inl e, s', b) \<Rightarrow> simple_framed dec s buf rs = (Some (Inl e), b, rs)
        | (Inr None, s', b) \<Rightarrow>
            (case rs of
               Inl e # rs' \<Rightarrow> simple_framed dec s buf rs = (Some (Inl (ProxyIo e)), b, rs')
             | Inr (c # cs) # rs' \<Rightarrow> simple_framed dec s buf rs = simple_framed dec s' (b @ c # cs) rs'
             | _ \<Rightarrow>
                 simple_framed dec s buf rs =
                   (if b = [] then None else Some (Inl (ProxyIo ''bytes remaining on stream'')), b, tl rs))
        | (Inr (Some x), s', b) \<Rightarrow> simple_framed dec s buf rs = (Some (Inr x), b, rs)"
    by (cases rs) (auto split: prod.splits sum.splits option.splits list.splits)
qed

section \<open>Acceptor\<close>

datatype protocol_version = PV1 | PV2

record protocol_config =
  pc_require_proxy_header :: bool
  pc_versions :: "protocol_version list"

definition V1_TAG :: bytes where "V1_TAG = ascii ''PROXY ''"
definition V2_TAG :: bytes where "V2_TAG = SIGNATURE"
definition COMMON_HEADER_PREFIX_LEN :: nat where "COMMON_HEADER_PREFIX_LEN = 5"

definition try_from_stream_to_proxy_stream ::
    "bool \<Rightarrow> reads \<Rightarrow> bytes \<Rightarrow> proxy_error + proxy_stream" where
  "try_from_stream_to_proxy_stream require rs buf =
     (if require then Inl (Proxy ''Proxy protocol is required'')
      else Inr \<lparr>ps_inner = rs, ps_buf = buf, ps_source = None, ps_destination = None\<rparr>)"

definition accept_with_codec ::
    "bool \<Rightarrow> 's framed_next \<Rightarrow> 's \<Rightarrow> bytes \<Rightarrow> reads \<Rightarrow> proxy_error + proxy_stream" where
  "accept_with_codec require next codec read_buf rs =
     (case next codec read_buf rs of
        (None, b, rs') \<Rightarrow> Inl (Proxy ''Stream terminated'')
      | (Some (Inr info), b, rs') \<Rightarrow>
          Inr \<lparr>ps_inner = rs', ps_buf = b, ps_source = pi_source info,
               ps_destination = pi_destination info\<rparr>
      | (Some (Inl e), b, rs') \<Rightarrow> try_from_stream_to_proxy_stream require rs' b)"

text \<open>The reading loop of \<open>accept_auto\<close>.\<close>

fun read_prefix :: "bytes \<Rightarrow> reads \<Rightarrow> proxy_error + (bytes \<times> reads)" where
  "read_prefix buf [] = Inr (buf, [])"
| "read_prefix buf (r # rs) =
     (if COMMON_HEADER_PREFIX_LEN \<le> length buf then Inr (buf, r # rs)
      else
        case r of
          Inl e \<Rightarrow> Inl (ProxyIo e)
        | Inr c \<Rightarrow> if c = [] then Inr (buf, rs) else read_prefix (buf @ c) rs)"

definition accept_auto ::
    "bool \<Rightarrow> v1_codec framed_next \<Rightarrow> v2_codec framed_next \<Rightarrow> reads \<Rightarrow> proxy_error + proxy_stream" where
  "accept_auto require next1 next2 stream =
     rbind (read_prefix [] stream) (\<lambda>(buf, rs).
       if length buf < COMMON_HEADER_PREFIX_LEN then try_from_stream_to_proxy_stream require rs buf
       else if take COMMON_HEADER_PREFIX_LEN buf = take COMMON_HEADER_PREFIX_LEN V1_TAG then
         accept_with_codec require next1 v1_new buf rs
       else if take COMMON_HEADER_PREFIX_LEN buf = take COMMON_HEADER_PREFIX_LEN V2_TAG then
         accept_with_codec require next2 v2_new buf rs
       else try_from_stream_to_proxy_stream require rs buf)"

definition accept_v1 ::
    "bool \<Rightarrow> v1_codec framed_next \<Rightarrow> reads \<Rightarrow> proxy_error + proxy_stream" where
  "accept_v1 require next1 stream = accept_with_codec require next1 v1_new [] stream"

definition accept_v2 ::
    "bool \<Rightarrow> v2_codec framed_next \<Rightarrow> reads \<Rightarrow> proxy_error + proxy_stream" where
  "accept_v2 require next2 stream = accept_with_codec require next2 v2_new [] stream"

datatype build_method = BuildSkip | BuildAuto | BuildV1 | BuildV2

definition acceptor_builder_new :: "protocol_config \<Rightarrow> proxy_error + build_method" where
  "acceptor_builder_new config =
     (case pc_versions config of
        [] \<Rightarrow>
          if pc_require_proxy_header config then Inl (ProxyPanic ''BUG: inconsistent config'')
          else Inr BuildSkip
      | [v] \<Rightarrow>
          if pc_require_proxy_header config
          then Inr (case v of PV1 \<Rightarrow> BuildV1 | PV2 \<Rightarrow> BuildV2)
          else Inr BuildAuto
      | _ \<Rightarrow> Inr BuildAuto)"

definition acceptor_build ::
    "protocol_config \<Rightarrow> build_method \<Rightarrow> v1_codec framed_next \<Rightarrow> v2_codec framed_next \<Rightarrow> reads \<Rightarrow>
     proxy_error + proxy_stream" where
  "acceptor_build config m next1 next2 stream =
     (case m of
        BuildSkip \<Rightarrow>
          Inr \<lparr>ps_inner = stream, ps_buf = [], ps_source = None, ps_destination = None\<rparr>
      | BuildAuto \<Rightarrow> accept_auto (pc_require_proxy_header config) next1 next2 stream
      | BuildV1 \<Rightarrow> accept_v1 (pc_require_proxy_header config) next1 stream
      | BuildV2 \<Rightarrow> accept_v2 (pc_require_proxy_header config) next2 stream)"

section \<open>Connector and ProxyStream\<close>

text \<open>A single \<open>write\<close>: an error, or the number of bytes it took. The result has what went out.\<close>

definition write_proxy_header ::
    "protocol_version \<Rightarrow> (bytes \<Rightarrow> bytes) \<Rightarrow> (bytes \<Rightarrow> string + nat) \<Rightarrow>
     socket_addr option \<Rightarrow> socket_addr option \<Rightarrow> (proxy_error + unit) \<times> bytes" where
  "write_proxy_header version print6 write_fn source destination =
     (case proxy_info_try_from source destination of
        Inl e \<Rightarrow> (Inl e, [])
      | Inr info \<Rightarrow>
          (case (case version of
                   PV1 \<Rightarrow> v1_encode print6 info
                 | PV2 \<Rightarrow> (case v2_encode info of (Inl e, b) \<Rightarrow> Inl e | (Inr u, b) \<Rightarrow> Inr b)) of
             Inl e \<Rightarrow> (Inl e, [])
           | Inr data \<Rightarrow>
               (case write_fn data of
                  Inl e \<Rightarrow> (Inl (ProxyIo e), [])
                | Inr n \<Rightarrow> (Inr (), take n data))))"

definition try_into_inner :: "proxy_stream \<Rightarrow> proxy_error + reads" where
  "try_into_inner ps =
     (if ps_buf ps = [] then Inr (ps_inner ps)
      else Inl (InvalidState ''Cannot return inner steam because buffer is not empty''))"

definition stream_proxy_info :: "proxy_stream \<Rightarrow> proxy_error + proxy_info" where
  "stream_proxy_info ps = proxy_info_try_from (ps_source ps) (ps_destination ps)"

section \<open>Framed reading of a decoder\<close>

lemma framed_step:
  assumes "framed_contract next dec"
  shows "dec s buf = (Inl e, s', b) \<Longrightarrow> next s buf rs = (Some (Inl e), b, rs)"
    and "dec s buf = (Inr (Some x), s', b) \<Longrightarrow> next s buf rs = (Some (Inr x), b, rs)"
    and "dec s buf = (Inr None, s', b) \<Longrightarrow> next s buf (Inl m # rs) = (Some (Inl (ProxyIo m)), b, rs)"
    and "dec s buf = (Inr None, s', b) \<Longrightarrow> c \<noteq> [] \<Longrightarrow> next s buf (Inr c # rs) = next s' (b @ c) rs"
    and "dec s buf = (Inr None, s', b) \<Longrightarrow> fst (next s buf []) \<noteq> Some (Inr x)"
    and "dec s buf = (Inr None, s', b) \<Longrightarrow> fst (next s buf (Inr [] # rs)) \<noteq> Some (Inr x)"
proof -
  note c = spec [OF spec [OF spec [OF assms [unfolded framed_contract_def], of s], of buf]]
  show "dec s buf = (Inl e, s', b) \<Longrightarrow> next s buf rs = (Some (Inl e), b, rs)"
    "dec s buf = (Inr (Some x), s', b) \<Longrightarrow> next s buf rs = (Some (Inr x), b, rs)"
    using c [of rs] by simp_all
  show "dec s buf = (Inr None, s', b) \<Longrightarrow> next s buf (Inl m # rs) = (Some (Inl (ProxyIo m)), b, rs)"
    using c [of "Inl m # rs"] by simp
  show "dec s buf = (Inr None, s', b) \<Longrightarrow> c \<noteq> [] \<Longrightarrow> next s buf (Inr c # rs) = next s' (b @ c) rs"
    using c [of "Inr c # rs"] by (cases c) simp_all
  show "dec s buf = (Inr None, s', b) \<Longrightarrow> fst (next s buf []) \<noteq> Some (Inr x)"
    using c [of "[]"] by simp
  show "dec s buf = (Inr None, s', b) \<Longrightarrow> fst (next s buf (Inr [] # rs)) \<noteq> Some (Inr x)"
    using c [of "Inr [] # rs"] by simp
qed

lemma framed_feed:
  assumes "framed_contract next dec"
  shows "feed dec s buf cs = (Inr (Some x), b, cs') \<Longrightarrow> [] \<notin> set cs \<Longrightarrow>
    next s buf (map Inr cs @ tail) = (Some (Inr x), b, map Inr cs' @ tail)"
proof (induction cs arbitrary: s buf)
  case Nil
  then show ?case using framed_step(2) [OF assms] by (auto split: prod.splits)
next
  case (Cons c cs)
  obtain r s' a where d: "dec s buf = (r, s', a)" by (cases "dec s buf") auto
  show ?case
  proof (cases "r = Inr None")
    case True
    with Cons d framed_step(4) [OF assms, of s buf s' a c] show ?thesis by auto
  next
    case False
    with Cons.prems d have "r = Inr (Some x)" "a = b" "cs' = c # cs"
      by (auto split: sum.splits option.splits)
    with d framed_step(2) [OF assms, of s buf x s' a] show ?thesis by simp
  qed
qed

context incremental_decoder
begin

lemma framed_accepts:
  assumes "framed_contract next dec"
  shows "ok s buf \<Longrightarrow> next s buf rs = (Some (Inr x), b, rs') \<Longrightarrow>
    \<exists>used. outcome (dec s (buf @ used)) = (Inr (Some x), b) \<and> stream_data rs = used @ stream_data rs'"
proof (induction rs arbitrary: s buf)
  case Nil
  obtain r s' a where d: "dec s buf = (r, s', a)" by (cases "dec s buf") auto
  show ?case
  proof (cases r)
    case (Inr y)
    then show ?thesis
      using d Nil.prems framed_step(2,5) [OF assms, of s buf] by (cases y) auto
  qed (use d Nil.prems framed_step(1) [OF assms, of s buf] in auto)
next
  case (Cons r rs)
  obtain q s' a where d: "dec s buf = (q, s', a)" by (cases "dec s buf") auto
  consider e where "q = Inl e" | y where "q = Inr (Some y)" | "q = Inr None"
    by (metis old.sum.exhaust not_None_eq)
  then show ?case
  proof cases
    case (1 e)
    with d Cons.prems framed_step(1) [OF assms, of s buf e s' a "r # rs"] show ?thesis by simp
  next
    case (2 y)
    with d Cons.prems framed_step(2) [OF assms, of s buf y s' a "r # rs"] show ?thesis by auto
  next
    case 3
    note dn = d [unfolded 3]
    show ?thesis
    proof (cases r)
      case (Inl m)
      with Cons.prems framed_step(3) [OF assms dn] show ?thesis by simp
    next
      case (Inr c)
      show ?thesis
      proof (cases "c = []")
        case True
        with Inr Cons.prems framed_step(6) [OF assms dn] show ?thesis by (metis fst_conv)
      next
        case False
        with Inr Cons.prems(2) framed_step(4) [OF assms dn] have
          n: "next s' (a @ c) rs = (Some (Inr x), b, rs')" by simp
        from wait [OF Cons.prems(1) dn, of c] have "ok s' (a @ c)" by simp
        from Cons.IH [OF this n] obtain used where
          "outcome (dec s' (a @ c @ used)) = (Inr (Some x), b)" "stream_data rs = used @ stream_data rs'"
          by auto
        with wait [OF Cons.prems(1) dn, of "c @ used"] Inr False show ?thesis
          by (intro exI [of _ "c @ used"]) simp
      qed
    qed
  qed
qed

end

section \<open>Reading the first bytes\<close>

lemma read_prefix_pieces:
  assumes "[] \<notin> set cs"
  obtains buf cs' where "read_prefix got (map Inr cs) = Inr (buf, map Inr cs')"
    "got @ concat cs = buf @ concat cs'" "[] \<notin> set cs'"
    "5 \<le> length buf \<or> cs' = []"
proof -
  have "\<exists>buf cs'. read_prefix got (map Inr cs) = Inr (buf, map Inr cs') \<and>
      got @ concat cs = buf @ concat cs' \<and> [] \<notin> set cs' \<and> (5 \<le> length buf \<or> cs' = [])"
    using assms
  proof (induction cs arbitrary: got)
    case Nil
    then show ?case by (intro exI [of _ got] exI [of _ "[]"]) simp
  next
    case (Cons c cs)
    show ?case
    proof (cases "5 \<le> length got")
      case True
      with Cons.prems show ?thesis
        by (intro exI [of _ got] exI [of _ "c # cs"]) (simp add: COMMON_HEADER_PREFIX_LEN_def)
    next
      case False
      with Cons.prems Cons.IH [of "got @ c"] show ?thesis
        by (auto simp: COMMON_HEADER_PREFIX_LEN_def)
    qed
  qed
  with that show thesis by blast
qed

lemma stream_data_map: "[] \<notin> set cs \<Longrightarrow> stream_data (map Inr cs) = concat cs"
  by (induction cs) auto

lemma read_prefix_full:
  "read_prefix got rs = Inr (buf, rs') \<Longrightarrow> 5 \<le> length buf \<Longrightarrow>
   got @ stream_data rs = buf @ stream_data rs'"
  by (induction got rs rule: read_prefix.induct)
    (auto simp: COMMON_HEADER_PREFIX_LEN_def split: if_splits sum.splits)

lemma take_common:
  assumes "a @ x = b @ y" and "n \<le> length a" and "n \<le> length b"
  shows "take n a = take n b"
  using arg_cong [OF assms(1), of "take n"] assms(2,3) by simp

lemma feed_suffix:
  "feed dec s buf cs = (r, b, cs') \<Longrightarrow> \<exists>us. cs = us @ cs'"
proof (induction cs arbitrary: s buf)
  case Nil
  then show ?case by (auto split: prod.splits)
next
  case (Cons c cs)
  then show ?case
    by (auto split: prod.splits sum.splits option.splits) (metis append_Cons)+
qed

lemma accept_with_codec_ok:
  "next s buf rs = (Some (Inr i), b, rs') \<Longrightarrow>
   accept_with_codec require next s buf rs =
     Inr \<lparr>ps_inner = rs', ps_buf = b, ps_source = pi_source i, ps_destination = pi_destination i\<rparr>"
  by (simp add: accept_with_codec_def)

lemma accept_with_codec_required:
  assumes "accept_with_codec True next s buf rs = Inr ps"
  obtains i where "next s buf rs = (Some (Inr i), ps_buf ps, ps_inner ps)"
    "ps_source ps = pi_source i" "ps_destination ps = pi_destination i"
  using assms
  by (auto simp: accept_with_codec_def try_from_stream_to_proxy_stream_def
      split: prod.splits option.splits sum.splits)

text \<open>
  An accepted header, whatever the version: its decoder, the header fed from the start of the
  stream, and what is left.
\<close>

lemma accept_header:
  assumes "framed_contract next dec" and "incremental_decoder dec ok" and "ok s buf"
    and "\<And>r. outcome (dec s (h @ r)) = (Inr (Some i), r)"
    and "\<And>a b. h = a @ b \<Longrightarrow> b \<noteq> [] \<Longrightarrow> fst (dec s a) = Inr None"
    and "buf @ concat cs = h @ payload" and "[] \<notin> set cs"
  shows "\<exists>ps. accept_with_codec require next s buf (map Inr cs) = Inr ps \<and>
    ps_source ps = pi_source i \<and> ps_destination ps = pi_destination i \<and>
    ps_buf ps @ stream_data (ps_inner ps) = payload"
proof -
  obtain b cs' where f: "feed dec s buf cs = (Inr (Some i), b, cs')" "b @ concat cs' = payload"
  proof -
    have "\<exists>b cs'. feed dec s buf cs = (Inr (Some i), b, cs') \<and> b @ concat cs' = payload"
      by (rule incremental_decoder.feed_header_from [OF assms(2,4) _ assms(3) refl assms(6)])
        (rule assms(5))
    with that show thesis by blast
  qed
  have "next s buf (map Inr cs) = (Some (Inr i), b, map Inr cs')"
    using framed_feed [OF assms(1) f(1) assms(7), of "[]"] by simp
  moreover have "[] \<notin> set cs'"
    using feed_suffix [OF f(1)] assms(7) by auto
  ultimately show ?thesis
    using f(2) by (simp add: accept_with_codec_ok stream_data_map)
qed

lemma accept_auto_tagged:
  assumes "[] \<notin> set cs" and "concat cs = h @ payload" and "5 \<le> length h"
  obtains buf cs' where "buf @ concat cs' = h @ payload" "[] \<notin> set cs'"
    "take 5 h = take 5 V1_TAG \<Longrightarrow>
     accept_auto require next1 next2 (map Inr cs) = accept_with_codec require next1 v1_new buf (map Inr cs')"
    "take 5 h = take 5 V2_TAG \<Longrightarrow>
     accept_auto require next1 next2 (map Inr cs) = accept_with_codec require next2 v2_new buf (map Inr cs')"
proof -
  obtain buf cs' where r: "read_prefix [] (map Inr cs) = Inr (buf, map Inr cs')"
    "concat cs = buf @ concat cs'" "[] \<notin> set cs'" "5 \<le> length buf \<or> cs' = []"
    using read_prefix_pieces [OF assms(1), of "[]"] by auto
  have e: "buf @ concat cs' = h @ payload" using r(2) assms(2) by simp
  have l: "5 \<le> length buf"
    using r(4) arg_cong [OF e, of length] assms(3) by auto
  have "take 5 V1_TAG \<noteq> take 5 V2_TAG" by (simp add: V1_TAG_def V2_TAG_def SIGNATURE_def ascii_tags)
  with take_common [OF e l assms(3)] l r e that [of buf cs'] show thesis
    by (simp add: accept_auto_def COMMON_HEADER_PREFIX_LEN_def)
qed

lemma v1_header_tag:
  "wf_info i \<Longrightarrow> take 5 (v1_line print6 i) = take 5 V1_TAG \<and> 5 \<le> length (v1_line print6 i)"
  by (erule wf_info_cases) (simp_all add: v1_line_def ascii_tags V1_TAG_def)

lemma v2_header_tag:
  assumes "wf_info i" and "v2_encode i = (Inr (), h)"
  shows "take 5 h = take 5 V2_TAG \<and> 5 \<le> length h"
proof -
  obtain body where "h = proto_header_serialize (proto_header_new (pi_type i)) @ body"
    using v2_encode_parts [OF assms(1)] assms(2) by (metis prod.inject)
  then show ?thesis by (simp add: proto_header_serialize_def SIGNATURE_def V2_TAG_def)
qed

lemma proxy_info_ends:
  "proxy_info_try_from s d = Inr i \<Longrightarrow> pi_source i = s"
  "proxy_info_try_from s d = Inr i \<Longrightarrow> pi_destination i = d"
  by (cases "(s, d)" rule: proxy_info_try_from.cases; force)+

section \<open>Properties\<close>

text \<open>
  From connector to acceptor: when \<open>Connector::write_proxy_header\<close> writes its whole header
  for a consistent pair of addresses, in either version, and the peer sends any payload after
  it, then \<open>Acceptor::accept_auto\<close> accepts the stream however it is cut into pieces, whether or
  not a header is required; it reports exactly the two addresses, and what can be read from the
  accepted stream is exactly the payload.
\<close>

lemma connector_accepted:
  assumes "framed_contract next1 (v1_decode parse6)" and "framed_contract next2 v2_decode"
    and "ipv6_text parse6 print6"
    and "proxy_info_try_from source destination = Inr i" and "wf_info i"
    and "write_proxy_header version print6 (\<lambda>data. Inr (length data)) source destination = (Inr (), h)"
    and "[] \<notin> set cs" and "concat cs = h @ payload"
  shows "\<exists>ps. accept_auto require next1 next2 (map Inr cs) = Inr ps \<and>
    ps_source ps = source \<and> ps_destination ps = destination \<and>
    ps_buf ps @ stream_data (ps_inner ps) = payload"
proof -
  note ends = proxy_info_ends [OF assms(4)]
  show ?thesis
  proof (cases version)
    case PV1
    then have h: "h = v1_line print6 i @ [0x0d, 0x0a]"
      using assms(4,6) v1_encode_line [OF assms(5)] by (simp add: write_proxy_header_def)
    have tag: "take 5 h = take 5 V1_TAG" "5 \<le> length h"
      using v1_header_tag [OF assms(5), of print6] by (simp_all add: h)
    obtain buf cs' where b: "buf @ concat cs' = h @ payload" "[] \<notin> set cs'"
      "accept_auto require next1 next2 (map Inr cs) = accept_with_codec require next1 v1_new buf (map Inr cs')"
      by (rule accept_auto_tagged [OF assms(7,8) tag(2), of require next1 next2]) (use tag(1) in blast)
    have "v1_ok v1_new buf" by (simp add: v1_ok_start v1_new_def)
    from accept_header [OF assms(1) v1.incremental_decoder_axioms this
        v1_header_accept [OF assms(3,5)] v1_header_waits [OF assms(3,5)] b(1) [unfolded h] b(2)]
    show ?thesis by (simp add: b(3) ends)
  next
    case PV2
    have h: "v2_encode i = (Inr (), h)"
    proof -
      obtain body where e: "v2_encode i = (Inr (), proto_header_serialize (proto_header_new (pi_type i)) @ body)"
        by (rule v2_encode_parts [OF assms(5)])
      with PV2 assms(4,6) show ?thesis by (simp add: write_proxy_header_def)
    qed
    have tag: "take 5 h = take 5 V2_TAG" "5 \<le> length h"
      using v2_header_tag [OF assms(5) h] by simp_all
    obtain buf cs' where b: "buf @ concat cs' = h @ payload" "[] \<notin> set cs'"
      "accept_auto require next1 next2 (map Inr cs) = accept_with_codec require next2 v2_new buf (map Inr cs')"
      by (rule accept_auto_tagged [OF assms(7,8) tag(2), of require next1 next2]) (use tag(1) in blast)
    from accept_header [OF assms(2) v2.incremental_decoder_axioms TrueI
        v2_header_accept [OF assms(5) h] v2_header_waits [OF assms(5) h] b(1,2)]
    show ?thesis by (simp add: b(3) ends)
  qed
qed

lemma connector_accepted_example:
  "\<exists>ps. accept_auto True (simple_framed (v1_decode simple_parse6)) (simple_framed v2_decode)
      (map Inr [[0x50], ascii ''ROXY UNKNO'', ascii ''WN'' @ [0x0d, 0x0a], [1, 2]]) = Inr ps \<and>
    ps_source ps = None \<and> ps_destination ps = None \<and> ps_buf ps @ stream_data (ps_inner ps) = [1, 2]"
proof -
  have i: "proxy_info_try_from None None = Inr proxy_info_default"
    by (simp add: proxy_info_default_def)
  have w: "wf_info proxy_info_default" by (simp add: wf_info_def proxy_info_default_def)
  have h: "write_proxy_header PV1 simple_print6 (\<lambda>data. Inr (length data)) None None =
      (Inr (), ascii ''PROXY UNKNOWN'' @ [0x0d, 0x0a])"
    by code_simp
  have c: "concat [[0x50], ascii ''ROXY UNKNO'', ascii ''WN'' @ [0x0d, 0x0a], [1, 2]] =
      (ascii ''PROXY UNKNOWN'' @ [0x0d, 0x0a]) @ [1, 2]"
    by code_simp
  have n: "[] \<notin> set [[0x50], ascii ''ROXY UNKNO'', ascii ''WN'' @ [0x0d, 0x0a], [1, 2 :: u8]]"
    by (simp add: ascii_def)
  show ?thesis
    by (rule connector_accepted [OF framed_contract_simple framed_contract_simple ipv6_text_simple i w h n c])
qed

text \<open>
  C33. Enforcement: when the configuration requires a PROXY header, a stream that the configured
  acceptor lets through starts with one. Some initial part of the stream's data is a header
  that the version 1 or the version 2 decoder accepts on its own, the reported addresses are
  those of this header, and the rest of the data is what the accepted stream will deliver.
\<close>

theorem required_header_enforced:
  assumes "framed_contract next1 (v1_decode parse6)" and "framed_contract next2 v2_decode"
    and "pc_require_proxy_header config" and "acceptor_builder_new config = Inr m"
    and "acceptor_build config m next1 next2 stream = Inr ps"
  shows "\<exists>data i. (outcome (v1_decode parse6 v1_new data) = (Inr (Some i), ps_buf ps) \<or>
                 outcome (v2_decode v2_new data) = (Inr (Some i), ps_buf ps)) \<and>
    ps_source ps = pi_source i \<and> ps_destination ps = pi_destination i \<and>
    stream_data stream = data @ stream_data (ps_inner ps)"
proof -
  let ?goal = "\<lambda>buf rs. \<exists>used i.
    (outcome (v1_decode parse6 v1_new (buf @ used)) = (Inr (Some i), ps_buf ps) \<or>
     outcome (v2_decode v2_new (buf @ used)) = (Inr (Some i), ps_buf ps)) \<and>
    ps_source ps = pi_source i \<and> ps_destination ps = pi_destination i \<and>
    stream_data rs = used @ stream_data (ps_inner ps)"
  have v1: "?goal buf rs" if acc: "accept_with_codec True next1 v1_new buf rs = Inr ps" for buf rs
  proof -
    obtain i where i: "next1 v1_new buf rs = (Some (Inr i), ps_buf ps, ps_inner ps)"
      "ps_source ps = pi_source i" "ps_destination ps = pi_destination i"
      by (rule accept_with_codec_required [OF acc])
    have "v1_ok v1_new buf" by (simp add: v1_ok_start v1_new_def)
    from v1.framed_accepts [OF assms(1) this i(1)] i(2,3) show ?thesis by blast
  qed
  have v2: "?goal buf rs" if acc: "accept_with_codec True next2 v2_new buf rs = Inr ps" for buf rs
  proof -
    obtain i where i: "next2 v2_new buf rs = (Some (Inr i), ps_buf ps, ps_inner ps)"
      "ps_source ps = pi_source i" "ps_destination ps = pi_destination i"
      by (rule accept_with_codec_required [OF acc])
    from v2.framed_accepts [OF assms(2) TrueI i(1)] i(2,3) show ?thesis by blast
  qed
  have "\<exists>buf rs. stream_data stream = buf @ stream_data rs \<and> ?goal buf rs"
  proof -
    consider "m = BuildAuto" | "m = BuildV1" | "m = BuildV2"
      using assms(3,4) by (cases m) (auto simp: acceptor_builder_new_def split: list.splits protocol_version.splits)
    then show ?thesis
    proof cases
      case 1
      with assms(3,5) obtain buf rs where
        p: "read_prefix [] stream = Inr (buf, rs)" "5 \<le> length buf" and
        a: "accept_with_codec True next1 v1_new buf rs = Inr ps \<or>
            accept_with_codec True next2 v2_new buf rs = Inr ps"
        by (auto simp: acceptor_build_def accept_auto_def result_simps COMMON_HEADER_PREFIX_LEN_def
            try_from_stream_to_proxy_stream_def split: if_splits)
      from read_prefix_full [OF p] v1 v2 a show ?thesis by fastforce
    next
      case 2
      with assms(3,5) v1 [of "[]" stream] show ?thesis
        by (intro exI [of _ "[]"] exI [of _ stream]) (simp add: acceptor_build_def accept_v1_def)
    next
      case 3
      with assms(3,5) v2 [of "[]" stream] show ?thesis
        by (intro exI [of _ "[]"] exI [of _ stream]) (simp add: acceptor_build_def accept_v2_def)
    qed
  qed
  then show ?thesis by (metis append.assoc)
qed

theorem required_header_enforced_witness:
  "\<exists>data i. (outcome (v1_decode simple_parse6 v1_new data) = (Inr (Some i), [9]) \<or>
            outcome (v2_decode v2_new data) = (Inr (Some i), [9])) \<and>
    None = pi_source i \<and> None = pi_destination i \<and>
    stream_data [Inr (SIGNATURE @ [0x21]), Inr [0, 0, 0, 9]] = data @ stream_data []"
proof -
  let ?cfg = "\<lparr>pc_require_proxy_header = True, pc_versions = [PV2]\<rparr>"
  let ?ps = "\<lparr>ps_inner = [], ps_buf = [9], ps_source = None, ps_destination = None\<rparr>"
  have m: "acceptor_builder_new ?cfg = Inr BuildV2" by (simp add: acceptor_builder_new_def)
  have b: "acceptor_build ?cfg BuildV2 (simple_framed (v1_decode simple_parse6)) (simple_framed v2_decode)
      [Inr (SIGNATURE @ [0x21]), Inr [0, 0, 0, 9]] = Inr ?ps"
    by code_simp
  have r: "pc_require_proxy_header ?cfg" by simp
  from required_header_enforced [OF framed_contract_simple framed_contract_simple r m b]
  show ?thesis by simp
qed

text \<open>
  Pass-through: when no header is required and the first five bytes are neither tag, the
  stream is accepted without addresses and delivers every byte that was sent; when a header is
  required, the same stream is refused.
\<close>

theorem untagged_stream:
  assumes "[] \<notin> set cs"
    and "take 5 (concat cs) \<noteq> take 5 V1_TAG" and "take 5 (concat cs) \<noteq> take 5 V2_TAG"
  shows "accept_auto True next1 next2 (map Inr cs) = Inl (Proxy ''Proxy protocol is required'') \<and>
    (\<exists>ps. accept_auto False next1 next2 (map Inr cs) = Inr ps \<and> ps_source ps = None \<and>
       ps_destination ps = None \<and> ps_buf ps @ stream_data (ps_inner ps) = concat cs)"
proof -
  obtain buf cs' where r: "read_prefix [] (map Inr cs) = Inr (buf, map Inr cs')"
    "concat cs = buf @ concat cs'" "[] \<notin> set cs'" "5 \<le> length buf \<or> cs' = []"
    using read_prefix_pieces [OF assms(1), of "[]"] by auto
  have "accept_auto req next1 next2 (map Inr cs) = try_from_stream_to_proxy_stream req (map Inr cs') buf" for req
  proof (cases "length buf < 5")
    case True
    then show ?thesis by (simp add: accept_auto_def r(1) COMMON_HEADER_PREFIX_LEN_def)
  next
    case False
    then have "take 5 buf = take 5 (concat cs)" using r(2) by simp
    with False assms(2,3) show ?thesis
      by (simp add: accept_auto_def r(1) COMMON_HEADER_PREFIX_LEN_def)
  qed
  with r(2,3) show ?thesis
    by (simp add: try_from_stream_to_proxy_stream_def stream_data_map)
qed

theorem untagged_stream_witness:
  "\<exists>ps. accept_auto False (simple_framed (v1_decode simple_parse6)) (simple_framed v2_decode)
       (map Inr [[0x7b], ascii ''stratum'']) = Inr ps \<and>
     ps_buf ps @ stream_data (ps_inner ps) = 0x7b # ascii ''stratum''"
proof -
  have "[] \<notin> set [[0x7b], ascii ''stratum'']"
    "take 5 (concat [[0x7b], ascii ''stratum'']) \<noteq> take 5 V1_TAG"
    "take 5 (concat [[0x7b], ascii ''stratum'']) \<noteq> take 5 V2_TAG"
    by (simp_all add: ascii_def V1_TAG_def V2_TAG_def SIGNATURE_def)
  from untagged_stream [OF this, of "simple_framed (v1_decode simple_parse6)" "simple_framed v2_decode"]
  show ?thesis by auto
qed

text \<open>
  A stream that starts with the version 2 signature but goes on with another version number
  is accepted without addresses when no header is required, yet not unchanged: the first 13
  bytes are gone.
\<close>

theorem rejected_v2_header_loses_bytes:
  assumes "framed_contract next2 v2_decode"
    and "16 \<le> length data" and "take 12 data = SIGNATURE"
    and "drop_bit 4 (data ! 12 AND 0xF0) \<noteq> PROXY_VERSION"
  shows "accept_auto False next1 next2 [Inr data] =
    Inr \<lparr>ps_inner = [], ps_buf = drop 13 data, ps_source = None, ps_destination = None\<rparr>"
proof -
  have d: "v2_decode v2_new data = (Inl (ProxyV2 (ProtoHeader ''Invalid Version'')), v2_new, drop 13 data)"
    using assms(2-4)
    by (simp add: v2_decode_def v2_new_def proto_header_deserialize_def SIZE_HEADER_def Let_def)
  have "take 5 data = take 5 SIGNATURE"
    using arg_cong [OF assms(3), of "take 5"] by simp
  then have t: "take 5 data = take 5 V2_TAG" "take 5 data \<noteq> take 5 V1_TAG"
    by (simp_all add: V2_TAG_def V1_TAG_def SIGNATURE_def ascii_tags)
  have "data \<noteq> []" using assms(2) by auto
  with t assms(2) framed_step(1) [OF assms(1) d, of "[]"] show ?thesis
    by (simp add: accept_auto_def COMMON_HEADER_PREFIX_LEN_def accept_with_codec_def
        try_from_stream_to_proxy_stream_def)
qed

theorem rejected_v2_header_loses_bytes_witness:
  "accept_auto False (simple_framed (v1_decode simple_parse6)) (simple_framed v2_decode) [Inr (SIGNATURE @ [0x31, 0, 0, 0, 5])] =
    Inr \<lparr>ps_inner = [], ps_buf = [0, 0, 0, 5], ps_source = None, ps_destination = None\<rparr>"
proof -
  have "16 \<le> length (SIGNATURE @ [0x31, 0, 0, 0, 5])" "take 12 (SIGNATURE @ [0x31, 0, 0, 0, 5]) = SIGNATURE"
    "drop_bit 4 ((SIGNATURE @ [0x31, 0, 0, 0, 5]) ! 12 AND 0xF0) \<noteq> PROXY_VERSION"
    by (simp_all add: SIGNATURE_def PROXY_VERSION_def)
  from rejected_v2_header_loses_bytes [OF framed_contract_simple this, of "simple_framed (v1_decode simple_parse6)"]
  show ?thesis
    by (simp add: SIGNATURE_def)
qed

text \<open>
  \<open>write_proxy_header\<close> makes a single \<open>write\<close>: if the socket takes only \<open>n\<close> bytes of the
  header, the call still succeeds, and only those bytes have been sent.
\<close>

theorem connector_partial_write:
  assumes "proxy_info_try_from source destination = Inr i" and "wf_info i"
  shows "\<exists>h. write_proxy_header version print6 (\<lambda>data. Inr (length data)) source destination = (Inr (), h) \<and>
    write_proxy_header version print6 (\<lambda>data. Inr n) source destination = (Inr (), take n h)"
proof -
  obtain body where "v2_encode i = (Inr (), proto_header_serialize (proto_header_new (pi_type i)) @ body)"
    by (rule v2_encode_parts [OF assms(2)])
  with assms v1_encode_line [OF assms(2), of print6] show ?thesis
    by (cases version) (simp_all add: write_proxy_header_def)
qed

theorem connector_partial_write_witness:
  "write_proxy_header PV1 simple_print6 (\<lambda>data. Inr 5) None None = (Inr (), ascii ''PROXY'')"
proof -
  have i: "proxy_info_try_from None None = Inr proxy_info_default"
    by (simp add: proxy_info_default_def)
  have w: "wf_info proxy_info_default" by (simp add: wf_info_def proxy_info_default_def)
  have "write_proxy_header PV1 simple_print6 (\<lambda>data. Inr (length data)) None None =
      (Inr (), ascii ''PROXY UNKNOWN'' @ [0x0d, 0x0a])"
    by code_simp
  with connector_partial_write [OF i w, of PV1 simple_print6 5] show ?thesis
    by (simp add: ascii_def)
qed

end
