(* ===== verification/Noise_Proxy.thy ===== *)
theory Noise_Proxy
  imports Noise_Server Proxy_Acceptor
begin

text \<open>
  \<open>noise-proxy/src\<close>: the security context of a server (\<open>frontend.rs\<close>), the connector of a client
  (\<open>connector.rs\<close>), and the proxy that takes encrypted V1 connections, with an optional PROXY header in
  front, and relays their frames to a plain upstream server (\<open>lib.rs\<close>).

  The texts of errors, the sockets and the files are outside the source. What the network does to
  a connection is the record \<open>np_network\<close>; the frames of the handshake, cut out of the accepted
  stream by \<open>Framed\<close>, are the argument \<open>frames_of\<close>. The metrics are the label under which the end of a
  connection is counted.
\<close>

section \<open>The security context\<close>

text \<open>\<open>NpPanic\<close> is a panic of the code below, not an error value.\<close>

datatype noise_proxy_error =
    KeySerializationError string
  | NpIoError string
  | NoiseInitError string
  | TimeValidationError
  | NpProxy proxy_error
  | NpPanic string

record security_context =
  sc_certificate :: certificate
  sc_secret_key :: bytes

definition from_certificate_and_secret_key :: "certificate \<Rightarrow> bytes \<Rightarrow> security_context" where
  "from_certificate_and_secret_key certificate secret_key = \<lparr>sc_certificate = certificate, sc_secret_key = secret_key\<rparr>"

definition context_validate_by_time ::
    "noise_libs \<Rightarrow> security_context \<Rightarrow> system_time \<Rightarrow> noise_proxy_error + system_time" where
  "context_validate_by_time L ctx now = map_err (\<lambda>_. TimeValidationError) (validate_certificate L (sc_certificate ctx) now)"

definition static_secret_try_from ::
    "noise_libs \<Rightarrow> (stratum_error \<Rightarrow> string) \<Rightarrow> bytes \<Rightarrow> stratum_error + bytes" where
  "static_secret_try_from L show_err s =
     map_err Serde (rbind (json_parse L s) (format_of_json L show_err ''noise_secret_key'' Inr))"

definition context_read_from_strings ::
    "noise_libs \<Rightarrow> (stratum_error \<Rightarrow> string) \<Rightarrow> bytes \<Rightarrow> bytes \<Rightarrow> noise_proxy_error + security_context" where
  "context_read_from_strings L show_err certificate secret_key =
     rbind (map_err (\<lambda>e. KeySerializationError (show_err e)) (certificate_try_from L show_err certificate)) (\<lambda>cert.
     rbind (map_err (\<lambda>e. KeySerializationError (show_err e)) (static_secret_try_from L show_err secret_key)) (\<lambda>key.
     Inr (from_certificate_and_secret_key cert key)))"

text \<open>Both files are opened before either is read; a file is what opening and reading it gives.\<close>

definition context_read_from_file ::
    "noise_libs \<Rightarrow> (stratum_error \<Rightarrow> string) \<Rightarrow> string + (string + bytes) \<Rightarrow> string + (string + bytes) \<Rightarrow>
     noise_proxy_error + security_context" where
  "context_read_from_file L show_err certificate_file secret_key_file =
     rbind (map_err NpIoError certificate_file) (\<lambda>cert_file.
     rbind (map_err NpIoError secret_key_file) (\<lambda>key_file.
     rbind (map_err NpIoError cert_file) (\<lambda>cert_string.
     rbind (map_err NpIoError key_file) (\<lambda>key_string.
     context_read_from_strings L show_err cert_string key_string))))"

definition noise_init_error :: "(stratum_error \<Rightarrow> string) \<Rightarrow> stratum_error \<Rightarrow> noise_proxy_error" where
  "noise_init_error show_err e = (case e of Panic p \<Rightarrow> NpPanic p | _ \<Rightarrow> NoiseInitError (show_err e))"

definition context_build_framed_tcp ::
    "('h, 't) snow_lib \<Rightarrow> (stratum_error \<Rightarrow> string) \<Rightarrow> 'u \<Rightarrow> security_context \<Rightarrow> ('s, 't) noise_codec framed_parts \<Rightarrow>
     hs_stream \<Rightarrow> ((noise_proxy_error + ('s, 't, 'u) compound_codec framed_parts) \<times> hs_stream) option" where
  "context_build_framed_tcp S show_err u0 ctx parts st =
     (case serialize_to_bytes_mut (build_noise_message (sc_certificate ctx)) of
        Inl e \<Rightarrow> Some (Inl (KeySerializationError (show_err e)), st)
      | Inr signature_noise_message \<Rightarrow>
          map_option (\<lambda>(r, st'). (map_err (noise_init_error show_err) r, st'))
            (responder_accept_with_codec S (responder_new (sc_secret_key ctx) signature_noise_message [AESGCM, ChaChaPoly])
               parts (\<lambda>noise_codec. compound_codec_new u0 (Some noise_codec)) st))"

section \<open>The connector\<close>

definition connector_connect ::
    "('h, 't) snow_lib \<Rightarrow> noise_libs \<Rightarrow> system_time \<Rightarrow> 'u \<Rightarrow> bytes \<Rightarrow> ('s, 't) noise_codec framed_parts \<Rightarrow> hs_stream \<Rightarrow>
     ((stratum_error + ('s, 't, 'u) compound_codec framed_parts) \<times> hs_stream) option" where
  "connector_connect S L now u0 upstream_authority_public_key parts st =
     connect_with_codec S L now (initiator_new upstream_authority_public_key [AESGCM]) parts
       (\<lambda>noise_codec. compound_codec_new u0 (Some noise_codec)) st"

section \<open>A connection of the proxy\<close>

text \<open>
  The addresses for the PROXY header that goes upstream: those of the header received, if it has both, and
  the ends of the downstream socket otherwise.
\<close>

definition upstream_addresses ::
    "socket_addr option \<Rightarrow> socket_addr option \<Rightarrow> socket_addr \<Rightarrow> socket_addr \<Rightarrow> socket_addr option \<times> socket_addr option" where
  "upstream_addresses source destination direct_peer local_addr =
     (case (source, destination) of
        (Some src, Some dst) \<Rightarrow> (Some src, Some dst)
      | _ \<Rightarrow> (Some direct_peer, Some local_addr))"

record np_network =
  nw_downstream :: reads
  nw_local_addr :: "string + socket_addr"
  nw_connect :: "string + unit"
  nw_write :: "bytes \<Rightarrow> string + nat"

definition connect_upstream ::
    "(bytes \<Rightarrow> bytes) \<Rightarrow> protocol_version option \<Rightarrow> socket_addr \<Rightarrow> np_network \<Rightarrow> proxy_info \<Rightarrow> socket_addr \<Rightarrow>
     (noise_proxy_error + unit) \<times> bytes" where
  "connect_upstream print6 upstream_version direct_peer nw info local_addr =
     (case nw_connect nw of
        Inl e \<Rightarrow> (Inl (NpIoError e), [])
      | Inr _ \<Rightarrow>
          (case upstream_version of
             None \<Rightarrow> (Inr (), [])
           | Some version \<Rightarrow>
               (case upstream_addresses (pi_source info) (pi_destination info) direct_peer local_addr of
                  (src, dst) \<Rightarrow>
                    (case write_proxy_header version print6 (nw_write nw) src dst of
                       (r, out) \<Rightarrow> (map_err NpProxy r, out)))))"

text \<open>
  One direction of the relay: what arrives until the stream ends or the tripwire fires, and for each
  send whether it succeeds. Errors of either kind are passed over.
\<close>

fun relay :: "('e + 'f) list \<Rightarrow> bool list \<Rightarrow> 'f list" where
  "relay [] sends = []"
| "relay (Inl e # items) sends = relay items sends"
| "relay (Inr f # items) (False # sends) = relay items sends"
| "relay (Inr f # items) sends = f # relay items (tl sends)"

record ('c, 'f) np_session =
  se_codec :: 'c
  se_header :: bytes
  se_upstream :: "'f list"
  se_downstream :: "'f list"

definition noise_proxy_handle ::
    "('h, 't) snow_lib \<Rightarrow> (stratum_error \<Rightarrow> string) \<Rightarrow> 'u \<Rightarrow> security_context \<Rightarrow>
     (proxy_stream \<Rightarrow> ('s, 't) noise_codec framed_parts \<times> hs_stream) \<Rightarrow>
     protocol_config \<Rightarrow> build_method \<Rightarrow> v1_codec framed_next \<Rightarrow> v2_codec framed_next \<Rightarrow> (bytes \<Rightarrow> bytes) \<Rightarrow>
     protocol_version option \<Rightarrow> socket_addr \<Rightarrow> np_network \<Rightarrow> ('e + 'f) list \<times> bool list \<Rightarrow> ('e + 'f) list \<times> bool list \<Rightarrow>
     (string \<times> (noise_proxy_error + (('s, 't, 'u) compound_codec framed_parts, 'f) np_session)) option" where
  "noise_proxy_handle S show_err u0 ctx frames_of config m next1 next2 print6 upstream_version direct_peer nw down up =
     (case acceptor_build config m next1 next2 (nw_downstream nw) of
        Inl e \<Rightarrow> Some (''proxy'', Inl (NpProxy e))
      | Inr ps \<Rightarrow>
          (case stream_proxy_info ps of
             Inl _ \<Rightarrow> Some ([], Inl (NpPanic ''BUG: Inconsistent proxy information''))
           | Inr info \<Rightarrow>
               (case nw_local_addr nw of
                  Inl e \<Rightarrow> Some (''early'', Inl (NpIoError e))
                | Inr local_addr \<Rightarrow>
                    (case context_build_framed_tcp S show_err u0 ctx (fst (frames_of ps)) (snd (frames_of ps)) of
                       None \<Rightarrow> None
                     | Some (Inl e, _) \<Rightarrow> Some (''downstream_noise'', Inl e)
                     | Some (Inr codec, _) \<Rightarrow>
                         (case connect_upstream print6 upstream_version direct_peer nw info local_addr of
                            (Inl e, _) \<Rightarrow> Some (''upstream_noise'', Inl e)
                          | (Inr _, out) \<Rightarrow>
                              Some (''ok'', Inr \<lparr>se_codec = codec, se_header = out,
                                se_upstream = relay (fst down) (snd down),
                                se_downstream = relay (fst up) (snd up)\<rparr>))))))"

section \<open>Accepted addresses are consistent\<close>

lemma v1_parse_consistent:
  assumes "v1_parse parse6 line = Inr (Inr i)"
  shows "is_ok (proxy_info_try_from (pi_source i) (pi_destination i))"
  using assms
  by (auto simp: v1_parse_def parse_addresses_def Let_def rbind_def is_ok_iff
      split: if_split_asm sum.split_asm prod.split_asm)

lemma v1_decode_consistent:
  assumes "outcome (v1_decode parse6 c buf) = (Inr (Some i), b)"
  shows "is_ok (proxy_info_try_from (pi_source i) (pi_destination i))"
  using assms
  by (auto simp: v1_decode_def outcome_def Let_def rmap_def rbind_def dest: v1_parse_consistent
      split: if_split_asm option.split_asm sum.split_asm)

lemma v2_info_consistent: "v2_info t d = Inr i \<Longrightarrow> is_ok (proxy_info_try_from (pi_source i) (pi_destination i))"
  by (cases t) (auto simp: v2_info_def rmap_def rbind_def socks_of_ip4_def socks_of_ip6_def is_ok_iff split: sum.split_asm)

lemma v2_decode_consistent:
  assumes "outcome (v2_decode c buf) = (Inr (Some i), b)"
  shows "is_ok (proxy_info_try_from (pi_source i) (pi_destination i))"
  using assms v2_info_consistent
  by (fastforce simp: v2_decode_def v2_decode_addresses_def outcome_def Let_def
      split: if_split_asm option.split_asm sum.split_asm prod.split_asm)

lemma accept_with_codec_consistent:
  assumes "accept_with_codec require nxt s buf rs = Inr ps"
    and "\<And>i b rs'. nxt s buf rs = (Some (Inr i), b, rs') \<Longrightarrow> is_ok (proxy_info_try_from (pi_source i) (pi_destination i))"
  shows "is_ok (stream_proxy_info ps)"
proof (cases "nxt s buf rs")
  case (fields r b rs')
  with assms show ?thesis
    by (auto simp: accept_with_codec_def try_from_stream_to_proxy_stream_def stream_proxy_info_def is_ok_iff
        split: option.split_asm sum.split_asm if_split_asm)
qed

lemma accepted_consistent:
  assumes "framed_contract next1 (v1_decode parse6)" and "framed_contract next2 v2_decode"
    and "acceptor_build config m next1 next2 stream = Inr ps"
  shows "is_ok (stream_proxy_info ps)"
proof -
  have v1: "is_ok (stream_proxy_info ps)" if "accept_with_codec req next1 v1_new buf rs = Inr ps" for req buf rs
  proof (rule accept_with_codec_consistent [OF that])
    fix i b rs'
    assume "next1 v1_new buf rs = (Some (Inr i), b, rs')"
    from v1.framed_accepts [OF assms(1) _ this] show "is_ok (proxy_info_try_from (pi_source i) (pi_destination i))"
      by (auto simp: v1_ok_start v1_new_def intro: v1_decode_consistent)
  qed
  have v2: "is_ok (stream_proxy_info ps)" if "accept_with_codec req next2 v2_new buf rs = Inr ps" for req buf rs
  proof (rule accept_with_codec_consistent [OF that])
    fix i b rs'
    assume "next2 v2_new buf rs = (Some (Inr i), b, rs')"
    from v2.framed_accepts [OF assms(2) TrueI this] show "is_ok (proxy_info_try_from (pi_source i) (pi_destination i))"
      by (auto intro: v2_decode_consistent)
  qed
  have none: "is_ok (stream_proxy_info ps)" if "try_from_stream_to_proxy_stream req rs buf = Inr ps" for req rs buf
    using that by (auto simp: try_from_stream_to_proxy_stream_def stream_proxy_info_def is_ok_iff split: if_split_asm)
  have skip: "is_ok (stream_proxy_info \<lparr>ps_inner = rs, ps_buf = [], ps_source = None, ps_destination = None\<rparr>)" for rs
    by (simp add: stream_proxy_info_def is_ok_iff)
  have auto: "is_ok (stream_proxy_info ps)" if "accept_auto req next1 next2 stream = Inr ps" for req
    using that by (auto simp: accept_auto_def rbind_def split: sum.split_asm if_split_asm dest: v1 v2 none)
  from assms(3) skip show ?thesis
    by (cases m) (auto simp: acceptor_build_def accept_v1_def accept_v2_def dest: v1 v2 auto)
qed

lemma acceptor_no_panic: "acceptor_build config m next1 next2 stream \<noteq> Inl (ProxyPanic p)"
proof -
  have r: "read_prefix buf rs \<noteq> Inl (ProxyPanic p)" for buf rs
    by (induction buf rs rule: read_prefix.induct) (auto split: sum.split)
  have b: "accept_with_codec req nxt s buf rs \<noteq> Inl (ProxyPanic p)" for req nxt and s :: v1_codec and buf rs
    by (auto simp: accept_with_codec_def try_from_stream_to_proxy_stream_def split: prod.split option.split sum.split)
  have c: "accept_with_codec req nxt s buf rs \<noteq> Inl (ProxyPanic p)" for req nxt and s :: v2_codec and buf rs
    by (auto simp: accept_with_codec_def try_from_stream_to_proxy_stream_def split: prod.split option.split sum.split)
  from b c r [of "[]" stream] show ?thesis
    by (auto simp: acceptor_build_def accept_auto_def accept_v1_def accept_v2_def rbind_def
        try_from_stream_to_proxy_stream_def split: build_method.split sum.split)
qed

lemma write_header_no_panic: "fst (write_proxy_header version print6 w source destination) \<noteq> Inl (ProxyPanic p)"
  by (cases "(source, destination)" rule: proxy_info_try_from.cases; cases version)
    (auto simp: write_proxy_header_def v1_encode_def v2_encode_def Let_def split: sum.split)

section \<open>The responder's side is total\<close>

lemma responder_step_state:
  assumes "2 \<le> r_stage s \<longrightarrow> r_handshake_state s \<noteq> None" and "responder_step S s m b = (Inr r, s')"
  shows "2 \<le> r_stage s' \<longrightarrow> r_handshake_state s' \<noteq> None"
  using assms
  by (auto simp: responder_step_def responder_step_1_def responder_step_2_def or_return_def
      split: if_split_asm prod.split_asm sum.split_asm)

lemma responder_run_total:
  fixes S :: "('h, 't) snow_lib"
  assumes "snow_sound S" and "length priv = 32" and "calm st"
  shows "\<exists>r st'. handshake_run S (responder_step S) r_handshake_state (responder_new priv data own) st = Some (r, st') \<and>
    (\<forall>e. r = Inl e \<longrightarrow> \<not> panicking e)"
proof -
  have ok: "responder_ok S (responder_new priv data own)"
    using assms by (simp add: responder_ok_def responder_new_def)
  obtain r s st' where r: "complete_handshake (responder_step S) (responder_new priv data own) None st = Some (r, s, st')"
    using rsp.loop_ends [of S "responder_new priv data own" None st] by auto
  show ?thesis
  proof (cases r)
    case (Inl e)
    with r rsp_safe.loop_safe [OF ok assms(3)] show ?thesis by (auto simp: handshake_run_def)
  next
    case (Inr c)
    note fin = r [unfolded Inr]
    have "\<exists>s1 m1. (2 \<le> r_stage s1 \<longrightarrow> r_handshake_state s1 \<noteq> None) \<and> responder_step S s1 m1 [] = (Inr (StepDone c), s)"
      by (rule rsp.loop_result [where P = "\<lambda>s. 2 \<le> r_stage s \<longrightarrow> r_handshake_state s \<noteq> None", OF _ _ fin])
        (erule (1) responder_step_state, simp add: responder_new_def)
    then obtain h where "r_handshake_state s = Some h"
      by (auto simp: responder_step_def responder_step_1_def responder_step_2_def or_return_def
          split: if_split_asm prod.split_asm sum.split_asm)
    with fin show ?thesis
      by (auto simp: handshake_run_def transport_mode_try_from_def map_err_def split: sum.split)
  qed
qed

definition np_panicking :: "noise_proxy_error \<Rightarrow> bool" where
  "np_panicking e \<longleftrightarrow> (\<exists>p. e = NpPanic p \<or> e = NpProxy (ProxyPanic p))"

lemma context_build_total:
  fixes S :: "('h, 't) snow_lib"
  assumes "snow_sound S" and "length (sc_secret_key ctx) = 32" and "calm st" and "nc_state (fp_codec parts) = HandShakeMode"
  shows "\<exists>r st'. context_build_framed_tcp S show_err u0 ctx parts st = Some (r, st') \<and> (\<forall>e. r = Inl e \<longrightarrow> \<not> np_panicking e)"
proof (cases "serialize_to_bytes_mut (build_noise_message (sc_certificate ctx))")
  case (Inr data)
  let ?new = "\<lambda>noise_codec. compound_codec_new u0 (Some noise_codec)"
  from responder_run_total [OF assms(1-3), of data "[AESGCM, ChaChaPoly]"] obtain r st' where
    r: "handshake_run S (responder_step S) r_handshake_state (responder_new (sc_secret_key ctx) data [AESGCM, ChaChaPoly]) st =
      Some (r, st')" "\<forall>e. r = Inl e \<longrightarrow> \<not> panicking e" by blast
  have "\<exists>f. into_framed t parts ?new = Inr f" for t
    using assms(4) by (simp add: into_framed_def set_transport_mode_def compound_codec_new_def is_in_transport_mode_def)
  then have "\<forall>p. rbind r (\<lambda>t. into_framed t parts ?new) \<noteq> Inl (Panic p)"
    using r(2) by (cases r) (auto simp: panicking_def, metis sum.distinct(1))
  then have "\<forall>e. map_err (noise_init_error show_err) (rbind r (\<lambda>t. into_framed t parts ?new)) = Inl e \<longrightarrow> \<not> np_panicking e"
    by (auto simp: map_err_def noise_init_error_def np_panicking_def split: sum.split stratum_error.split)
  with Inr r(1) show ?thesis by (simp add: context_build_framed_tcp_def responder_accept_with_codec_def)
qed (simp add: context_build_framed_tcp_def np_panicking_def)

section \<open>Properties\<close>

text \<open>
  Every connection of the noise proxy comes to an orderly end: whatever the peer sends in place of
  a PROXY header or of handshake messages and however the sockets fail, the task finishes with a
  session or with an error value and never panics. The assertion on the proxy information cannot
  fail, because both decoders produce pairs of addresses of one family.
\<close>

theorem noise_proxy_orderly:
  fixes S :: "('h, 't) snow_lib"
  assumes "framed_contract next1 (v1_decode parse6)" and "framed_contract next2 v2_decode"
    and "snow_sound S" and "length (sc_secret_key ctx) = 32"
    and "\<And>ps. calm (snd (frames_of ps)) \<and> nc_state (fp_codec (fst (frames_of ps))) = HandShakeMode"
  shows "\<exists>label r. noise_proxy_handle S show_err u0 ctx frames_of config m next1 next2 print6 version direct_peer nw down up =
      Some (label, r) \<and> (\<forall>e. r = Inl e \<longrightarrow> \<not> np_panicking e)"
proof (cases "acceptor_build config m next1 next2 (nw_downstream nw)")
  case (Inl e)
  with acceptor_no_panic [of config m next1 next2 "nw_downstream nw"] show ?thesis
    by (auto simp: noise_proxy_handle_def np_panicking_def)
next
  case (Inr ps)
  from accepted_consistent [OF assms(1,2) Inr] obtain info where i: "stream_proxy_info ps = Inr info"
    by (auto simp: is_ok_iff)
  from context_build_total [OF assms(3,4), of "snd (frames_of ps)" "fst (frames_of ps)" show_err u0] assms(5) [of ps]
  obtain r st' where r: "context_build_framed_tcp S show_err u0 ctx (fst (frames_of ps)) (snd (frames_of ps)) = Some (r, st')"
    "\<forall>e. r = Inl e \<longrightarrow> \<not> np_panicking e" by blast
  have c: "\<not> np_panicking e" if "connect_upstream print6 version direct_peer nw info a = (Inl e, out)" for a e out
    using that write_header_no_panic
    by (auto simp: connect_upstream_def np_panicking_def map_err_def split: sum.split_asm option.split_asm prod.split_asm)
      (metis fst_conv)
  show ?thesis
    using Inr i r c by (auto simp: noise_proxy_handle_def np_panicking_def split: sum.split prod.split)
qed

definition example_context :: security_context where
  "example_context = from_certificate_and_secret_key (certificate_new example_part (replicate 64 0)) (replicate 32 1)"

definition example_frames :: "proxy_stream \<Rightarrow> (unit, nat \<times> nat) noise_codec framed_parts \<times> hs_stream" where
  "example_frames ps =
     (\<lparr>fp_codec = noise_codec_default (), read_buf = ps_buf ps, write_buf = []\<rparr>, quiet [RecvFrame [1, 2, 3], RecvClosed] [])"

definition example_network :: np_network where
  "example_network = \<lparr>nw_downstream = [Inr (ascii ''PROXY UNKNOWN'' @ [0x0d, 0x0a])],
     nw_local_addr = Inr (SockV4 [127, 0, 0, 1] 3333), nw_connect = Inl ''refused'', nw_write = (\<lambda>b. Inr (length b))\<rparr>"

theorem noise_proxy_orderly_witness:
  "\<exists>label r. noise_proxy_handle toy_snow (\<lambda>_. []) () example_context example_frames
      \<lparr>pc_require_proxy_header = False, pc_versions = [PV1]\<rparr> BuildAuto (simple_framed (v1_decode simple_parse6))
      (simple_framed v2_decode) simple_print6 None (SockV4 [10, 0, 0, 1] 5000) example_network
      ([Inr (1 :: nat)], []) ([] :: (string + nat) list, []) = Some (label, r) \<and>
    (\<forall>e. r = Inl e \<longrightarrow> \<not> np_panicking e)"
proof -
  have "length (sc_secret_key example_context) = 32"
    by (simp add: example_context_def from_certificate_and_secret_key_def)
  moreover have "calm (snd (example_frames ps)) \<and> nc_state (fp_codec (fst (example_frames ps))) = HandShakeMode" for ps
    by (simp add: example_frames_def calm_def quiet_def noise_codec_default_def)
  ultimately show ?thesis
    by (rule noise_proxy_orderly [OF framed_contract_simple framed_contract_simple toy_snow_sound])
qed

section \<open>Addresses on the way upstream\<close>

text \<open>
  The header sent upstream names the client of the header received, for every cut of both streams into
  pieces.
\<close>

lemma forwarded_addresses:
  assumes "framed_contract next1 (v1_decode parse6)" and "framed_contract next2 v2_decode" and "ipv6_text parse6 print6"
    and "proxy_info_try_from (Some a) (Some b) = Inr i" and "wf_info i"
    and "write_proxy_header v print6 (\<lambda>data. Inr (length data)) (Some a) (Some b) = (Inr (), h)"
    and "[] \<notin> set cs" and "concat cs = h @ payload" and "accept_auto require next1 next2 (map Inr cs) = Inr ps"
    and "upstream_addresses (ps_source ps) (ps_destination ps) direct_peer local_addr = (src, dst)"
    and "write_proxy_header v' print6 (\<lambda>data. Inr (length data)) src dst = (Inr (), h')"
    and "[] \<notin> set cs'" and "concat cs' = h' @ payload'"
  shows "(src, dst) = (Some a, Some b) \<and>
    (\<exists>ps'. accept_auto require' next1 next2 (map Inr cs') = Inr ps' \<and> ps_source ps' = Some a \<and>
       ps_destination ps' = Some b \<and> ps_buf ps' @ stream_data (ps_inner ps') = payload')"
proof -
  from connector_accepted [OF assms(1-8), of require] assms(9)
  have s: "ps_source ps = Some a" "ps_destination ps = Some b" by auto
  with assms(10) have d: "(src, dst) = (Some a, Some b)" by (simp add: upstream_addresses_def)
  with connector_accepted [OF assms(1-5) _ assms(12,13), of v' require'] assms(11) show ?thesis by simp
qed

end
