(* ===== verification/Server_Controller.thy ===== *)
theory Server_Controller
  imports Prelude
begin

text \<open>
  \<open>stratum-proxy/src/server/controller.rs\<close>: the counter of connected clients, which is at the same time
  the future that a server awaits before it terminates, and the controller around it.

  The counter is shared by the tasks of all connections and the task of the server. Each atomic
  access to it is a step of its own, and the steps of the tasks interleave: a connection that ends
  runs \<open>decrease\<close> (\<open>fetch_sub\<close>, \<open>load\<close>, then the waker is taken under its lock), the server polls
  (\<open>load\<close>, then the waker is stored under the lock). The waker is the only one there is, that
  of the server's task, hence a flag.
\<close>

section \<open>The counter\<close>

record client_counter =
  cc_client_counter :: u64
  cc_waker :: bool

definition client_counter_default :: client_counter where
  "client_counter_default = \<lparr>cc_client_counter = 0, cc_waker = False\<rparr>"

definition client_counter_clone :: "client_counter \<Rightarrow> client_counter" where
  "client_counter_clone c = c\<lparr>cc_client_counter := cc_client_counter c + 1\<rparr>"

text \<open>The progress of the server's task: it accepts connections, then awaits the counter.\<close>

datatype waiter = Serving | Polling | SawClients | Asleep | Returned

definition wake :: "waiter \<Rightarrow> waiter" where
  "wake w = (case w of Asleep \<Rightarrow> Polling | _ \<Rightarrow> w)"

fun counter_poll :: "client_counter \<Rightarrow> waiter \<Rightarrow> client_counter \<times> waiter" where
  "counter_poll c Polling = (c, if cc_client_counter c = 0 then Returned else SawClients)"
| "counter_poll c SawClients = (c\<lparr>cc_waker := True\<rparr>, Asleep)"
| "counter_poll c w = (c, w)"

text \<open>The progress of a connection's task: \<open>Underflow\<close> is the failed assertion.\<close>

datatype client = Connected | Subtracted | SawZero | Dropped | Underflow

fun decrease :: "client_counter \<Rightarrow> waiter \<Rightarrow> client \<Rightarrow> client_counter \<times> waiter \<times> client" where
  "decrease c w Connected =
     (c\<lparr>cc_client_counter := cc_client_counter c - 1\<rparr>, w,
      if cc_client_counter c = 0 then Underflow else Subtracted)"
| "decrease c w Subtracted = (c, w, if cc_client_counter c = 0 then SawZero else Dropped)"
| "decrease c w SawZero = (c\<lparr>cc_waker := False\<rparr>, if cc_waker c then wake w else w, Dropped)"
| "decrease c w h = (c, w, h)"

section \<open>The controller\<close>

datatype termination_method = LazyTermination | ImmediateTermination

record controller =
  co_client_counter :: client_counter
  co_termination_method :: termination_method

definition controller_default :: controller where
  "controller_default = \<lparr>co_client_counter = client_counter_default, co_termination_method = LazyTermination\<rparr>"

definition request_immediate_termination :: "controller \<Rightarrow> controller" where
  "request_immediate_termination co = co\<lparr>co_termination_method := ImmediateTermination\<rparr>"

definition counter_for_new_client :: "controller \<Rightarrow> controller" where
  "counter_for_new_client co = co\<lparr>co_client_counter := client_counter_clone (co_client_counter co)\<rparr>"

text \<open>\<open>wait_for_termination(None)\<close>: nothing to wait for, or the first poll of the counter.\<close>

definition wait_for_termination :: "controller \<Rightarrow> waiter" where
  "wait_for_termination co =
     (case co_termination_method co of ImmediateTermination \<Rightarrow> Returned | LazyTermination \<Rightarrow> Polling)"

section \<open>Interleavings\<close>

record tasks =
  ts_controller :: controller
  ts_waiter :: waiter
  ts_clients :: "client list"

definition tasks_init :: tasks where
  "tasks_init = \<lparr>ts_controller = controller_default, ts_waiter = Serving, ts_clients = []\<rparr>"

inductive task_step :: "tasks \<Rightarrow> tasks \<Rightarrow> bool" where
  accept_client: "ts_waiter s = Serving \<Longrightarrow>
    task_step s (s\<lparr>ts_controller := counter_for_new_client (ts_controller s), ts_clients := ts_clients s @ [Connected]\<rparr>)"
| tripwire: "ts_waiter s = Serving \<Longrightarrow>
    task_step s (s\<lparr>ts_controller := request_immediate_termination (ts_controller s),
      ts_waiter := wait_for_termination (request_immediate_termination (ts_controller s))\<rparr>)"
| notified: "ts_waiter s = Serving \<Longrightarrow> task_step s (s\<lparr>ts_waiter := wait_for_termination (ts_controller s)\<rparr>)"
| poll: "ts_waiter s \<in> {Polling, SawClients} \<Longrightarrow>
    counter_poll (co_client_counter (ts_controller s)) (ts_waiter s) = (c, w) \<Longrightarrow>
    task_step s (s\<lparr>ts_controller := (ts_controller s)\<lparr>co_client_counter := c\<rparr>, ts_waiter := w\<rparr>)"
| leave: "i < length (ts_clients s) \<Longrightarrow> ts_clients s ! i \<in> {Connected, Subtracted, SawZero} \<Longrightarrow>
    decrease (co_client_counter (ts_controller s)) (ts_waiter s) (ts_clients s ! i) = (c, w, h) \<Longrightarrow>
    task_step s (s\<lparr>ts_controller := (ts_controller s)\<lparr>co_client_counter := c\<rparr>, ts_waiter := w,
      ts_clients := (ts_clients s)[i := h]\<rparr>)"

inductive reachable :: "tasks \<Rightarrow> bool" where
  init: "reachable tasks_init"
| step: "reachable s \<Longrightarrow> task_step s s' \<Longrightarrow> reachable s'"

section \<open>The counter counts the clients\<close>

lemma sum_list_update:
  fixes f :: "'a \<Rightarrow> nat"
  shows "i < length xs \<Longrightarrow> sum_list (map f (xs[i := y])) + f (xs ! i) = sum_list (map f xs) + f y"
proof (induction xs arbitrary: i)
  case (Cons x xs)
  then show ?case by (cases i) (simp_all add: algebra_simps)
qed simp

abbreviation ts_counter :: "tasks \<Rightarrow> client_counter" where
  "ts_counter s \<equiv> co_client_counter (ts_controller s)"

definition connected_clients :: "tasks \<Rightarrow> nat" where
  "connected_clients s = sum_list (map (\<lambda>h. if h = Connected then 1 else 0) (ts_clients s))"

lemma connected_clients_pos:
  "connected_clients s \<noteq> 0 \<longleftrightarrow> Connected \<in> set (ts_clients s)"
  by (auto simp: connected_clients_def split: if_splits)

lemma connected_clients_le: "connected_clients s \<le> length (ts_clients s)"
proof -
  have "sum_list (map (\<lambda>h. if h = Connected then 1 else 0) hs) \<le> length hs" for hs :: "client list"
    by (induction hs) auto
  then show ?thesis by (simp add: connected_clients_def)
qed

lemma connected_clients_update:
  assumes "i < length (ts_clients s)"
  shows "connected_clients (s\<lparr>ts_controller := co, ts_waiter := w, ts_clients := (ts_clients s)[i := h]\<rparr>) +
    (if ts_clients s ! i = Connected then 1 else 0) = connected_clients s + (if h = Connected then 1 else 0)"
  using sum_list_update [OF assms, of "\<lambda>h. if h = Connected then 1 else 0" h] by (simp add: connected_clients_def)

lemma reachable_count:
  assumes "reachable s"
  shows "cc_client_counter (ts_counter s) = of_nat (connected_clients s)"
  using assms
proof (induction rule: reachable.induct)
  case init
  show ?case by (simp add: tasks_init_def controller_default_def client_counter_default_def connected_clients_def)
next
  case (step s s')
  from step(2) show ?case
  proof cases
    case accept_client
    with step(3) show ?thesis
      by (simp add: counter_for_new_client_def client_counter_clone_def connected_clients_def)
  next
    case (poll c w)
    with step(3) show ?thesis by (cases "ts_waiter s") (auto simp: connected_clients_def)
  next
    case (leave i c w h)
    let ?one = "if ts_clients s ! i = Connected then 1 else 0"
    have c: "cc_client_counter c = cc_client_counter (ts_counter s) - ?one" "h \<noteq> Connected"
      using leave(3,4) by (auto split: if_splits)
    have "connected_clients s' + ?one = connected_clients s"
      using connected_clients_update [OF leave(2), where h = h] leave(1) c(2) by simp
    then have "(of_nat (connected_clients s') :: u64) + of_nat ?one = of_nat (connected_clients s)"
      by (metis of_nat_add)
    then have "(of_nat (connected_clients s') :: u64) = of_nat (connected_clients s) - of_nat ?one"
      by (metis add_diff_cancel_right')
    moreover have "cc_client_counter (ts_counter s') = cc_client_counter c" using leave(1) by simp
    ultimately show ?thesis using step(3) c(1) by simp
  qed (use step(3) in \<open>auto simp: connected_clients_def request_immediate_termination_def\<close>)
qed

lemma count_zero:
  assumes "reachable s" and "length (ts_clients s) < 2 ^ 64"
  shows "cc_client_counter (ts_counter s) = 0 \<longleftrightarrow> Connected \<notin> set (ts_clients s)"
proof -
  have "connected_clients s < 2 ^ 64" using connected_clients_le [of s] assms(2) by simp
  then have "(of_nat (connected_clients s) :: u64) = 0 \<longleftrightarrow> connected_clients s = 0"
    by (auto simp: word_of_nat_eq_0_iff dest: dvd_imp_le)
  then show ?thesis using reachable_count [OF assms(1)] connected_clients_pos [of s] by auto
qed

lemma step_clients: "task_step s s' \<Longrightarrow> length (ts_clients s) \<le> length (ts_clients s')"
  by (cases rule: task_step.cases) auto

lemma reachable_no_underflow:
  assumes "reachable s" and "length (ts_clients s) < 2 ^ 64"
  shows "Underflow \<notin> set (ts_clients s)"
  using assms
proof (induction rule: reachable.induct)
  case init
  show ?case by (simp add: tasks_init_def)
next
  case (step s s')
  have len: "length (ts_clients s) < 2 ^ 64" using step_clients [OF step(2)] step(4) by simp
  from step(2) show ?case
  proof cases
    case (leave i c w h)
    have "ts_clients s ! i = Connected \<Longrightarrow> Connected \<in> set (ts_clients s)" using leave(2) nth_mem by metis
    with leave(3,4) count_zero [OF step(1) len] have "h \<noteq> Underflow" by (auto split: if_splits)
    with leave(1) step(3) [OF len] show ?thesis by (auto dest!: set_update_subset_insert [THEN subsetD])
  qed (use step(3) [OF len] in auto)
qed

section \<open>Termination\<close>

text \<open>What is left to do: every step of a task that runs after the server has stopped uses some of it.\<close>

fun client_work :: "client \<Rightarrow> nat" where
  "client_work Connected = 9"
| "client_work Subtracted = 6"
| "client_work SawZero = 3"
| "client_work h = 0"

fun waiter_work :: "waiter \<Rightarrow> nat" where
  "waiter_work Polling = 2"
| "waiter_work SawClients = 1"
| "waiter_work w = 0"

definition work :: "tasks \<Rightarrow> nat" where
  "work s = sum_list (map client_work (ts_clients s)) + waiter_work (ts_waiter s)"

lemma step_work:
  assumes "task_step s s'" and "ts_waiter s \<noteq> Serving"
  shows "work s' < work s \<and> ts_waiter s' \<noteq> Serving"
  using assms(1)
proof cases
  case (poll c w)
  with assms(2) show ?thesis by (auto simp: work_def split: if_splits)
next
  case (leave i c w h)
  have "sum_list (map client_work (ts_clients s')) + client_work (ts_clients s ! i) =
      sum_list (map client_work (ts_clients s)) + client_work h"
    using sum_list_update [OF leave(2), of client_work h] leave(1) by simp
  moreover have "client_work h + waiter_work w < client_work (ts_clients s ! i) + waiter_work (ts_waiter s) \<and> w \<noteq> Serving"
    using leave(3,4) assms(2) by (cases "ts_waiter s") (auto simp: wake_def split: if_splits)
  ultimately show ?thesis using leave(1) by (simp add: work_def)
qed (use assms(2) in auto)

text \<open>
  A connection that looks for the waker while the server is between the load and the store of a poll finds
  none and misses the server. Without such a step, a task that sleeps, or is about to, will be woken.
\<close>

definition missed :: "tasks \<Rightarrow> tasks \<Rightarrow> bool" where
  "missed s s' \<longleftrightarrow> ts_waiter s = SawClients \<and>
     list_ex (\<lambda>(h, h'). h = SawZero \<and> h' = Dropped) (zip (ts_clients s) (ts_clients s'))"

definition kept_step :: "tasks \<Rightarrow> tasks \<Rightarrow> bool" where
  "kept_step s s' \<longleftrightarrow> task_step s s' \<and> \<not> missed s s'"

lemma missedI:
  "ts_waiter s = SawClients \<Longrightarrow> i < length (ts_clients s) \<Longrightarrow> ts_clients s ! i = SawZero \<Longrightarrow>
   ts_clients s' = (ts_clients s)[i := Dropped] \<Longrightarrow> missed s s'"
  by (auto simp: missed_def list_ex_iff set_zip intro!: exI [of _ i])

definition leaving :: "client \<Rightarrow> bool" where
  "leaving h \<longleftrightarrow> h = Connected \<or> h = Subtracted \<or> h = SawZero"

definition will_wake :: "tasks \<Rightarrow> bool" where
  "will_wake s \<longleftrightarrow>
     (ts_waiter s = SawClients \<or> ts_waiter s = Asleep \<longrightarrow> (\<exists>h \<in> set (ts_clients s). leaving h)) \<and>
     (ts_waiter s = Asleep \<longrightarrow> cc_waker (ts_counter s))"

lemma mem_update_other: "x \<in> set xs \<Longrightarrow> x \<noteq> xs ! i \<Longrightarrow> x \<in> set (xs[i := y])"
  by (metis in_set_conv_nth length_list_update nth_list_update_neq)

lemma will_wakeI:
  "will_wake s \<Longrightarrow> leaving h \<Longrightarrow> h \<in> set (ts_clients s') \<Longrightarrow> ts_waiter s' = ts_waiter s \<Longrightarrow>
   cc_waker (ts_counter s') = cc_waker (ts_counter s) \<Longrightarrow> will_wake s'"
  by (auto simp: will_wake_def)

lemma step_will_wake:
  assumes "reachable s" and "kept_step s s'" and "will_wake s" and "length (ts_clients s) < 2 ^ 64"
  shows "will_wake s'"
proof -
  have zero: "cc_client_counter (ts_counter s) = 0 \<longleftrightarrow> Connected \<notin> set (ts_clients s)"
    by (rule count_zero [OF assms(1,4)])
  from assms(2) have "task_step s s'" and kept: "\<not> missed s s'" by (simp_all add: kept_step_def)
  then show ?thesis
  proof cases
    case (poll c w)
    consider "ts_waiter s = Polling" | "ts_waiter s = SawClients" using poll(2) by auto
    then show ?thesis
    proof cases
      case 1
      with poll(1,3) zero show ?thesis by (auto simp: will_wake_def leaving_def)
    next
      case 2
      with poll(1,3) assms(3) show ?thesis by (auto simp: will_wake_def)
    qed
  next
    case (leave i c w h)
    have m: "h \<in> set (ts_clients s')" using leave(1,2) by (simp add: set_update_memI)
    consider "ts_clients s ! i = Connected" | "ts_clients s ! i = Subtracted" | "ts_clients s ! i = SawZero"
      using leave(3) by auto
    then show ?thesis
    proof cases
      case 1
      then have "Connected \<in> set (ts_clients s)" using leave(2) nth_mem by force
      with zero leave(4) 1 have "leaving h" "w = ts_waiter s" "cc_waker c = cc_waker (ts_counter s)"
        by (auto simp: leaving_def)
      with will_wakeI [OF assms(3) _ m] leave(1) show ?thesis by simp
    next
      case 2
      with leave(4) have w: "w = ts_waiter s" "c = ts_counter s" by auto
      have "\<exists>h \<in> set (ts_clients s'). leaving h"
      proof (cases "cc_client_counter (ts_counter s) = 0")
        case True
        with 2 leave(4) m show ?thesis by (auto simp: leaving_def)
      next
        case False
        with zero 2 leave(1) have "Connected \<in> set (ts_clients s')" by (simp add: mem_update_other)
        then show ?thesis by (auto simp: leaving_def)
      qed
      with will_wakeI [OF assms(3)] w leave(1) show ?thesis by auto
    next
      case 3
      then have "ts_waiter s \<noteq> SawClients" using kept missedI [of s i s'] leave by auto
      with 3 leave(4) assms(3) have "w \<noteq> SawClients" "w \<noteq> Asleep"
        by (cases "ts_waiter s"; auto simp: will_wake_def wake_def split: if_splits)+
      with leave(1) show ?thesis by (simp add: will_wake_def)
    qed
  qed (simp_all add: will_wake_def wait_for_termination_def split: termination_method.split)
qed

text \<open>A task that has something to do can do it.\<close>

lemma client_can_step:
  assumes "h \<in> set (ts_clients s)" and "leaving h"
  shows "\<exists>s'. task_step s s'"
proof -
  from assms(1) obtain i where i: "i < length (ts_clients s)" "ts_clients s ! i = h" by (auto simp: in_set_conv_nth)
  obtain c w h' where "decrease (ts_counter s) (ts_waiter s) (ts_clients s ! i) = (c, w, h')" by (rule prod_cases3)
  from leave [OF i(1) _ this] i(2) assms(2) show ?thesis by (auto simp: leaving_def)
qed

lemma waiter_can_step:
  assumes "ts_waiter s \<in> {Polling, SawClients}"
  shows "\<exists>s'. task_step s s'"
  using poll [OF assms] by (metis surj_pair)

lemma step_reachable: "task_step\<^sup>*\<^sup>* s s' \<Longrightarrow> reachable s \<Longrightarrow> reachable s'"
  by (induction rule: rtranclp_induct) (auto intro: reachable.step)

lemma stopped_steps:
  "task_step\<^sup>*\<^sup>* s s' \<Longrightarrow> ts_waiter s \<noteq> Serving \<Longrightarrow>
    ts_waiter s' \<noteq> Serving \<and> work s' \<le> work s \<and> length (ts_clients s') = length (ts_clients s)"
proof (induction rule: rtranclp_induct)
  case (step s1 s2)
  then have "length (ts_clients s2) = length (ts_clients s1)" by (auto elim: task_step.cases)
  with step step_work [OF step(2)] show ?case by auto
qed simp

text \<open>A server that waits for its clients has not returned while one of them is connected.\<close>

lemma step_not_early:
  assumes "reachable s" and "length (ts_clients s) < 2 ^ 64" and "task_step s s'" and "ts_waiter s \<noteq> Serving"
    and "ts_waiter s = Returned \<Longrightarrow> Connected \<notin> set (ts_clients s)" and "ts_waiter s' = Returned"
  shows "Connected \<notin> set (ts_clients s')"
  using assms(3)
proof cases
  case (poll c w)
  with assms(6) count_zero [OF assms(1,2)] show ?thesis by (auto split: if_splits)
next
  case (leave i c w h)
  have "h \<noteq> Connected" "ts_waiter s = Returned"
    using leave(3,4) assms(6) leave(1) by (auto simp: wake_def split: if_splits waiter.splits)
  with leave(1) assms(5) show ?thesis by (auto dest!: set_update_subset_insert [THEN subsetD])
qed (use assms(4) in auto)

lemma waits_for_clients:
  assumes "task_step\<^sup>*\<^sup>* s s'" and "reachable s" and "ts_waiter s = Polling" and "length (ts_clients s) < 2 ^ 64"
  shows "ts_waiter s' = Returned \<longrightarrow> Connected \<notin> set (ts_clients s')"
  using assms(1)
proof (induction rule: rtranclp_induct)
  case base
  then show ?case by (simp add: assms(3))
next
  case (step s1 s2)
  have "ts_waiter s1 \<noteq> Serving" "length (ts_clients s1) < 2 ^ 64"
    using stopped_steps [OF step(1)] assms(3,4) by simp_all
  with step_not_early [OF step_reachable [OF step(1) assms(2)] _ step(2)] step.IH show ?case by blast
qed

lemma kept_will_wake:
  assumes "kept_step\<^sup>*\<^sup>* s s'" and "reachable s" and "ts_waiter s = Polling" and "length (ts_clients s) < 2 ^ 64"
  shows "task_step\<^sup>*\<^sup>* s s' \<and> will_wake s'"
  using assms(1)
proof (induction rule: rtranclp_induct)
  case base
  then show ?case by (simp add: assms(3) will_wake_def)
next
  case (step s1 s2)
  then have s1: "task_step\<^sup>*\<^sup>* s s1" "will_wake s1" "task_step s1 s2" by (simp_all add: kept_step_def)
  have "length (ts_clients s1) < 2 ^ 64" using stopped_steps [OF s1(1)] assms(3,4) by simp
  from step_will_wake [OF step_reachable [OF s1(1) assms(2)] step(2) s1(2) this] s1(1,3) show ?case by simp
qed

lemma stuck_state:
  assumes "reachable s" and "length (ts_clients s) < 2 ^ 64" and "ts_waiter s \<noteq> Serving" and "\<nexists>s'. task_step s s'"
  shows "set (ts_clients s) \<subseteq> {Dropped}" and "ts_waiter s = Returned \<or> ts_waiter s = Asleep"
proof -
  show "set (ts_clients s) \<subseteq> {Dropped}"
  proof
    fix h
    assume h: "h \<in> set (ts_clients s)"
    with client_can_step [OF h] assms(4) reachable_no_underflow [OF assms(1,2)] show "h \<in> {Dropped}"
      by (cases h) (auto simp: leaving_def)
  qed
  show "ts_waiter s = Returned \<or> ts_waiter s = Asleep"
    using assms(3,4) waiter_can_step [of s] by (cases "ts_waiter s") auto
qed

section \<open>Properties\<close>

text \<open>
  C27. The counter is exact under every interleaving: it is the number of connections that have not
  begun to leave (modulo the width of \<open>usize\<close>), and no connection ever finds it at zero, so that the
  assertion against underflow never fails.
\<close>

theorem client_counter_exact:
  assumes "reachable s"
  shows "cc_client_counter (co_client_counter (ts_controller s)) = of_nat (length (filter (\<lambda>h. h = Connected) (ts_clients s))) \<and>
    (length (ts_clients s) < 2 ^ 64 \<longrightarrow> Underflow \<notin> set (ts_clients s))"
proof
  have "sum_list (map (\<lambda>h. if h = Connected then 1 else 0) hs) = length (filter (\<lambda>h. h = Connected) hs)" for hs :: "client list"
    by (induction hs) auto
  then show "cc_client_counter (ts_counter s) = of_nat (length (filter (\<lambda>h. h = Connected) (ts_clients s)))"
    using reachable_count [OF assms] by (simp add: connected_clients_def)
  show "length (ts_clients s) < 2 ^ 64 \<longrightarrow> Underflow \<notin> set (ts_clients s)"
    by (rule impI) (rule reachable_no_underflow [OF assms])
qed

text \<open>
  C29. Graceful termination, under every interleaving of the atomic accesses. Once the server waits for its
  clients, every run of the remaining tasks is finite, with a bound fixed at that moment, and the server
  does not return while a client is connected. When no task can move any more, all clients are gone, and the
  server has returned, or it sleeps; it has returned unless a connection looked for the waker between the load
  and the store of a poll.
\<close>

theorem graceful_termination:
  assumes "reachable s" and "ts_waiter s = Polling" and "length (ts_clients s) < 2 ^ 64" and "task_step\<^sup>*\<^sup>* s s'"
  shows "(\<forall>s''. task_step s' s'' \<longrightarrow> work s'' < work s') \<and> work s' \<le> work s \<and>
    (ts_waiter s' = Returned \<longrightarrow> Connected \<notin> set (ts_clients s')) \<and>
    ((\<nexists>s''. task_step s' s'') \<longrightarrow>
       set (ts_clients s') \<subseteq> {Dropped} \<and> (ts_waiter s' = Returned \<or> ts_waiter s' = Asleep) \<and>
       (kept_step\<^sup>*\<^sup>* s s' \<longrightarrow> ts_waiter s' = Returned))"
proof -
  note st = stopped_steps [OF assms(4)] step_reachable [OF assms(4,1)]
  have w: "ts_waiter s' \<noteq> Serving" "work s' \<le> work s" "length (ts_clients s') < 2 ^ 64" using st(1) assms(2,3) by simp_all
  have "ts_waiter s' = Returned" if "\<nexists>s''. task_step s' s''" "kept_step\<^sup>*\<^sup>* s s'"
    using stuck_state [OF st(2) w(3,1) that(1)] kept_will_wake [OF that(2) assms(1-3)]
    by (auto simp: will_wake_def leaving_def)
  with step_work [of s'] w waits_for_clients [OF assms(4,1-3)] stuck_state [OF st(2) w(3,1)] show ?thesis by blast
qed

definition one_client :: "u64 \<Rightarrow> bool \<Rightarrow> waiter \<Rightarrow> client \<Rightarrow> tasks" where
  "one_client n k w h =
     \<lparr>ts_controller = \<lparr>co_client_counter = \<lparr>cc_client_counter = n, cc_waker = k\<rparr>, co_termination_method = LazyTermination\<rparr>,
      ts_waiter = w, ts_clients = [h]\<rparr>"

lemma one_client_steps:
  "task_step (one_client 1 False Serving Connected) (one_client 1 False Polling Connected)"
  "task_step (one_client 1 False Polling Connected) (one_client 1 False SawClients Connected)"
  "task_step (one_client 1 False SawClients Connected) (one_client 0 False SawClients Subtracted)"
  "task_step (one_client 0 False SawClients Subtracted) (one_client 0 False SawClients SawZero)"
  "task_step (one_client 0 False SawClients SawZero) (one_client 0 False SawClients Dropped)"
  "task_step (one_client 0 False SawClients Dropped) (one_client 0 True Asleep Dropped)"
  using notified [of "one_client 1 False Serving Connected"]
    poll [of "one_client 1 False Polling Connected"]
    leave [of 0 "one_client 1 False SawClients Connected"]
    leave [of 0 "one_client 0 False SawClients Subtracted"]
    leave [of 0 "one_client 0 False SawClients SawZero"]
    poll [of "one_client 0 False SawClients Dropped"]
  by (simp_all add: one_client_def wait_for_termination_def)

lemma one_client_woken:
  "kept_step (one_client 1 False Polling Connected) (one_client 1 False SawClients Connected)"
  "kept_step (one_client 1 False SawClients Connected) (one_client 0 False SawClients Subtracted)"
  "kept_step (one_client 0 False SawClients Subtracted) (one_client 0 True Asleep Subtracted)"
  "kept_step (one_client 0 True Asleep Subtracted) (one_client 0 True Asleep SawZero)"
  "kept_step (one_client 0 True Asleep SawZero) (one_client 0 False Polling Dropped)"
  "kept_step (one_client 0 False Polling Dropped) (one_client 0 False Returned Dropped)"
  using one_client_steps(2,3) poll [of "one_client 0 False SawClients Subtracted"]
    leave [of 0 "one_client 0 True Asleep Subtracted"] leave [of 0 "one_client 0 True Asleep SawZero"]
    poll [of "one_client 0 False Polling Dropped"]
  by (simp_all add: kept_step_def missed_def one_client_def wake_def)

lemma one_client_reachable: "reachable (one_client 1 False Serving Connected)"
proof -
  have "task_step tasks_init (one_client 1 False Serving Connected)"
    using accept_client [of tasks_init]
    by (simp add: tasks_init_def one_client_def controller_default_def client_counter_default_def
        counter_for_new_client_def client_counter_clone_def)
  with reachable.init show ?thesis by (rule reachable.step)
qed

lemma one_client_stuck:
  "\<not> task_step (one_client 0 True Asleep Dropped) s'" "\<not> task_step (one_client 0 False Returned Dropped) s'"
  by (auto elim!: task_step.cases simp: one_client_def)

text \<open>
  C30. The wake-up can be lost: \<open>poll\<close> reads the counter before it stores the waker, and a connection
  that leaves in between finds no waker to wake. All clients are gone, and the server sleeps
  for ever.
\<close>

theorem lost_wakeup:
  "\<exists>s. reachable s \<and> ts_waiter s = Asleep \<and> set (ts_clients s) = {Dropped} \<and>
     cc_client_counter (co_client_counter (ts_controller s)) = 0 \<and> (\<nexists>s'. task_step s s')"
proof -
  have "reachable (one_client 0 True Asleep Dropped)"
    by (rule one_client_reachable one_client_steps reachable.step)+
  with one_client_stuck(1) show ?thesis by (intro exI [of _ "one_client 0 True Asleep Dropped"]) (simp add: one_client_def)
qed

theorem client_counter_exact_witness:
  "cc_client_counter (co_client_counter (ts_controller (one_client 1 False Serving Connected))) = 1 \<and>
   Underflow \<notin> set (ts_clients (one_client 1 False Serving Connected))"
  using client_counter_exact [OF one_client_reachable] by (simp add: one_client_def)

text \<open>The server falls asleep while its client leaves, is woken by it and returns.\<close>

theorem graceful_termination_witness:
  "kept_step\<^sup>*\<^sup>* (one_client 1 False Polling Connected) (one_client 0 False Returned Dropped) \<and>
   work (one_client 0 False Returned Dropped) \<le> work (one_client 1 False Polling Connected) \<and>
   Connected \<notin> set (ts_clients (one_client 0 False Returned Dropped)) \<and>
   ts_waiter (one_client 0 False Returned Dropped) = Returned"
proof -
  let ?s = "one_client 1 False Polling Connected" and ?t = "one_client 0 False Returned Dropped"
  have r: "reachable ?s" by (rule one_client_reachable one_client_steps(1) reachable.step)+
  have k: "kept_step\<^sup>*\<^sup>* ?s ?t"
    by (rule one_client_woken rtranclp.rtrancl_refl converse_rtranclp_into_rtranclp [where r = kept_step])+
  have l: "length (ts_clients ?s) < 2 ^ 64" "ts_waiter ?s = Polling" by (simp_all add: one_client_def)
  from kept_will_wake [OF k r l(2,1)] have "task_step\<^sup>*\<^sup>* ?s ?t" by simp
  from graceful_termination [OF r l(2,1) this] k one_client_stuck(2) show ?thesis by blast
qed

end
