(* ===== verification/Wire_Client.thy ===== *)
theory Wire_Client
  imports Text
begin

text \<open>
  The client side of the wire crate, \<open>protocols/wire/src/client.rs\<close>: textual \<open>host:port\<close> addresses,
  the Fibonacci backoff, and the reconnecting client.

  Durations and instants are numbers of nanoseconds. What the outside decides in a call of
  \<open>Client::next\<close> is its argument: the three readings of the clock and the outcome of the
  connection attempt. The \<open>Backoff\<close> trait is a locale, interpreted for \<open>DefaultBackoff\<close>; the
  client's facts are proved in it.
\<close>

section \<open>Addresses\<close>

datatype address = Address bytes u16

definition address_from_str :: "bytes \<Rightarrow> unit + address" where
  "address_from_str src =
     (case find_byte 0x3a src of
        None \<Rightarrow> Inl ()
      | Some col_pos \<Rightarrow>
          if col_pos = 0 then Inl ()
          else
            (case parse_u16 (drop (col_pos + 1) src) of
               None \<Rightarrow> Inl ()
             | Some port \<Rightarrow> Inr (Address (take col_pos src) port)))"

definition address_display :: "address \<Rightarrow> bytes" where
  "address_display a = (case a of Address host port \<Rightarrow> host @ [0x3a] @ dec_bytes (unat port))"

section \<open>Backoff\<close>

record default_backoff =
  bo_current :: u32
  bo_prev :: u32
  bo_unit :: nat
  bo_max :: nat

text \<open>\<open>Duration * u32\<close> panics when the seconds do not fit 64 bits.\<close>

definition duration_mul :: "nat \<Rightarrow> u32 \<Rightarrow> nat option" where
  "duration_mul d k = (if d * unat k < 2 ^ 64 * 10 ^ 9 then Some (d * unat k) else None)"

definition backoff_reset :: "default_backoff \<Rightarrow> default_backoff" where
  "backoff_reset b = b\<lparr>bo_current := 1, bo_prev := 0\<rparr>"

definition backoff_new :: "nat \<Rightarrow> nat \<Rightarrow> default_backoff" where
  "backoff_new unit_d max_d =
     backoff_reset \<lparr>bo_current = 0, bo_prev = 0, bo_unit = unit_d, bo_max = max_d\<rparr>"

text \<open>100 milliseconds and 5 seconds.\<close>

definition default_unit :: nat where "default_unit = 100 * 10 ^ 6"
definition default_max :: nat where "default_max = 5 * 10 ^ 9"

definition backoff_default :: default_backoff where
  "backoff_default = backoff_new default_unit default_max"

definition backoff_next :: "default_backoff \<Rightarrow> (nat \<times> default_backoff) option" where
  "backoff_next b =
     (case duration_mul (bo_unit b) (bo_current b) of
        None \<Rightarrow> None
      | Some res \<Rightarrow>
          if bo_max b \<le> res then Some (bo_max b, b)
          else Some (res, b\<lparr>bo_current := bo_current b + bo_prev b, bo_prev := bo_current b\<rparr>))"

section \<open>Client\<close>

record 'b client =
  cl_addr :: address
  cl_backoff :: 'b
  cl_next_delay :: "(nat \<times> nat) option"
  cl_retries :: u32
  cl_start_time :: "nat option"

definition with_backoff :: "address \<Rightarrow> 'b \<Rightarrow> 'b client" where
  "with_backoff addr b =
     \<lparr>cl_addr = addr, cl_backoff = b, cl_next_delay = None, cl_retries = 0, cl_start_time = None\<rparr>"

definition client_new :: "address \<Rightarrow> default_backoff client" where
  "client_new addr = with_backoff addr backoff_default"

definition set_addr :: "'b client \<Rightarrow> address \<Rightarrow> 'b client" where
  "set_addr c addr = c\<lparr>cl_addr := addr\<rparr>"

definition set_backoff :: "'b client \<Rightarrow> 'b \<Rightarrow> 'b client" where
  "set_backoff c b = c\<lparr>cl_backoff := b\<rparr>"

record attempt_error =
  ae_next_attempt_in :: nat
  ae_retries :: u32
  ae_start_time :: nat
  ae_error :: string

text \<open>
  One attempt: the clock when \<open>next\<close> is called, when the pending delay is looked at and when
  the attempt has failed, and its outcome (an I/O error or a connection).
\<close>

record 'conn attempt =
  at_called :: nat
  at_checked :: nat
  at_finished :: nat
  at_outcome :: "string + 'conn"

definition sleep_time :: "'b client \<Rightarrow> nat \<Rightarrow> nat" where
  "sleep_time c now =
     (case cl_next_delay c of
        None \<Rightarrow> 0
      | Some (t, delay) \<Rightarrow>
          let since_last_attempt = now - t in
          if since_last_attempt < delay then delay - since_last_attempt else 0)"

text \<open>The result, and the client afterwards; \<open>None\<close> is a panic of the backoff.\<close>

definition client_next ::
    "('b \<Rightarrow> (nat \<times> 'b) option) \<Rightarrow> ('b \<Rightarrow> 'b) \<Rightarrow> 'b client \<Rightarrow> 'conn attempt \<Rightarrow>
     ((attempt_error + 'conn) \<times> 'b client) option" where
  "client_next bnext breset c a =
     (let start = (case cl_start_time c of None \<Rightarrow> at_called a | Some t \<Rightarrow> t);
          c = c\<lparr>cl_start_time := Some start, cl_next_delay := None\<rparr>
      in case at_outcome a of
           Inr conn \<Rightarrow>
             Some (Inr conn, c\<lparr>cl_backoff := breset (cl_backoff c), cl_retries := 0, cl_start_time := None\<rparr>)
         | Inl err \<Rightarrow>
             (case bnext (cl_backoff c) of
                None \<Rightarrow> None
              | Some (d, b) \<Rightarrow>
                  let c = c\<lparr>cl_backoff := b, cl_next_delay := Some (at_finished a, d),
                            cl_retries := cl_retries c + 1\<rparr>
                  in Some (Inl \<lparr>ae_next_attempt_in = d, ae_retries = cl_retries c,
                                ae_start_time = start, ae_error = err\<rparr>, c)))"

primrec client_run ::
    "('b \<Rightarrow> (nat \<times> 'b) option) \<Rightarrow> ('b \<Rightarrow> 'b) \<Rightarrow> 'b client \<Rightarrow> 'conn attempt list \<Rightarrow>
     ((attempt_error + 'conn) list \<times> 'b client) option" where
  "client_run bnext breset c [] = Some ([], c)"
| "client_run bnext breset c (a # as) =
     (case client_next bnext breset c a of
        None \<Rightarrow> None
      | Some (r, c') \<Rightarrow>
          (case client_run bnext breset c' as of
             None \<Rightarrow> None
           | Some (rs, c'') \<Rightarrow> Some (r # rs, c'')))"

section \<open>The contract of a backoff\<close>

text \<open>
  \<open>at k b\<close>: the backoff \<open>b\<close> has been asked \<open>k\<close> times since it was reset. The \<open>k\<close>-th delay is
  \<open>delay k\<close>.
\<close>

locale backoff =
  fixes bnext :: "'b \<Rightarrow> (nat \<times> 'b) option"
    and breset :: "'b \<Rightarrow> 'b"
    and "at" :: "nat \<Rightarrow> 'b \<Rightarrow> bool"
    and delay :: "nat \<Rightarrow> nat"
  assumes at_reset: "at k b \<Longrightarrow> at 0 (breset b)"
    and at_next: "at k b \<Longrightarrow> \<exists>b'. bnext b = Some (delay k, b') \<and> at (Suc k) b'"
begin

text \<open>A client after \<open>k\<close> failures in a row, the first of them called at \<open>t0\<close>.\<close>

definition failed :: "nat \<Rightarrow> nat \<Rightarrow> 'b client \<Rightarrow> bool" where
  "failed k t0 c \<longleftrightarrow>
     at k (cl_backoff c) \<and> cl_retries c = of_nat k \<and>
     cl_start_time c = (if k = 0 then None else Some t0)"

lemma next_fails:
  assumes "failed k t0 c" and "at_outcome a = Inl e" and "k = 0 \<Longrightarrow> t0 = at_called a"
  shows "\<exists>c'. client_next bnext breset c a =
      Some (Inl \<lparr>ae_next_attempt_in = delay k, ae_retries = of_nat (Suc k), ae_start_time = t0,
                 ae_error = e\<rparr>, c') \<and> failed (Suc k) t0 c'"
proof -
  from assms(1) have "at k (cl_backoff c)" by (simp add: failed_def)
  from at_next [OF this] obtain b' where
    b': "bnext (cl_backoff c) = Some (delay k, b')" "at (Suc k) b'" by blast
  with assms show ?thesis by (auto simp: client_next_def failed_def Let_def)
qed

lemma next_connects:
  assumes "failed k t0 c" and "at_outcome a = Inr conn"
  shows "\<exists>c'. client_next bnext breset c a = Some (Inr conn, c') \<and> failed 0 t1 c'"
  using assms at_reset by (auto simp: client_next_def failed_def Let_def)

text \<open>The reports of a series of failures that starts after \<open>k\<close> others.\<close>

definition reported :: "nat \<Rightarrow> nat \<Rightarrow> 'conn attempt list \<Rightarrow> (attempt_error + 'conn) list \<Rightarrow> bool" where
  "reported k t0 as rs \<longleftrightarrow>
     list_all2 (\<lambda>(i, a) r. \<exists>e. at_outcome a = Inl e \<and> r =
        Inl \<lparr>ae_next_attempt_in = delay (k + i), ae_retries = of_nat (Suc (k + i)), ae_start_time = t0, ae_error = e\<rparr>)
       (enumerate 0 as) rs"

lemma reported_nth:
  "reported k t0 as rs \<longleftrightarrow> length rs = length as \<and>
     (\<forall>i < length as. \<exists>e. at_outcome (as ! i) = Inl e \<and> rs ! i =
        Inl \<lparr>ae_next_attempt_in = delay (k + i), ae_retries = of_nat (Suc (k + i)), ae_start_time = t0, ae_error = e\<rparr>)"
  by (auto simp: reported_def list_all2_conv_all_nth nth_enumerate_eq)

lemma reported_Cons:
  assumes "at_outcome a = Inl e" and "reported (Suc k) t0 as rs"
  shows "reported k t0 (a # as)
    (Inl \<lparr>ae_next_attempt_in = delay k, ae_retries = of_nat (Suc k), ae_start_time = t0, ae_error = e\<rparr> # rs)"
  using assms by (auto simp: reported_nth less_Suc_eq_0_disj)

lemma run_fails:
  "failed k t0 c \<Longrightarrow> list_all (\<lambda>a. \<exists>e. at_outcome a = Inl e) as \<Longrightarrow>
   (k = 0 \<Longrightarrow> as \<noteq> [] \<Longrightarrow> t0 = at_called (hd as)) \<Longrightarrow>
   \<exists>rs c'. client_run bnext breset c as = Some (rs, c') \<and> failed (k + length as) t0 c' \<and> reported k t0 as rs"
proof (induction as arbitrary: k c)
  case Nil
  then show ?case by (simp add: reported_nth)
next
  case (Cons a as)
  from Cons.prems obtain e c1 where e: "at_outcome a = Inl e" and
    n: "client_next bnext breset c a =
      Some (Inl \<lparr>ae_next_attempt_in = delay k, ae_retries = of_nat (Suc k), ae_start_time = t0,
                 ae_error = e\<rparr>, c1)" and f: "failed (Suc k) t0 c1"
    using next_fails [of k t0 c a] by auto
  from Cons.IH [OF f] Cons.prems(2) obtain rs c' where
    "client_run bnext breset c1 as = Some (rs, c')" "failed (Suc k + length as) t0 c'" "reported (Suc k) t0 as rs"
    by auto
  with n reported_Cons [OF e] show ?case by simp
qed

lemma run_append:
  "client_run bnext breset c as = Some (rs, c1) \<Longrightarrow> client_run bnext breset c1 bs = Some (rs', c') \<Longrightarrow>
   client_run bnext breset c (as @ bs) = Some (rs @ rs', c')"
  by (induction as arbitrary: c rs) (auto split: option.split_asm prod.split_asm)

text \<open>Failures, a success and failures again: the second series is reported like the first.\<close>

lemma run_fails_again:
  assumes "failed 0 t0 c" and "list_all (\<lambda>a. \<exists>e. at_outcome a = Inl e) as" and "as \<noteq> [] \<Longrightarrow> t0 = at_called (hd as)"
    and "at_outcome ok = Inr conn" and "list_all (\<lambda>a. \<exists>e. at_outcome a = Inl e) bs" and "bs \<noteq> [] \<Longrightarrow> t1 = at_called (hd bs)"
  shows "\<exists>rs rs' c'. client_run bnext breset c (as @ ok # bs) = Some (rs @ Inr conn # rs', c') \<and>
    reported 0 t0 as rs \<and> reported 0 t1 bs rs'"
proof -
  from run_fails [OF assms(1,2,3)] obtain rs c1 where
    1: "client_run bnext breset c as = Some (rs, c1)" "failed (length as) t0 c1" "reported 0 t0 as rs" by auto
  from next_connects [OF 1(2) assms(4), of t1] obtain c2 where
    2: "client_next bnext breset c1 ok = Some (Inr conn, c2)" "failed 0 t1 c2" by blast
  from run_fails [OF 2(2) assms(5,6)] obtain rs' c' where
    3: "client_run bnext breset c2 bs = Some (rs', c')" "reported 0 t1 bs rs'" by auto
  have "client_run bnext breset c1 (ok # bs) = Some (Inr conn # rs', c')" using 2(1) 3(1) by simp
  from run_append [OF 1(1) this] 1(3) 3(2) show ?thesis by blast
qed

end

section \<open>The Fibonacci backoff keeps the contract\<close>

fun fib :: "nat \<Rightarrow> nat" where
  "fib 0 = 0"
| "fib (Suc 0) = 1"
| "fib (Suc (Suc n)) = fib (Suc n) + fib n"

lemma fib_mono: "fib n \<le> fib (Suc n)"
  by (induction n rule: fib.induct) simp_all

lemma fib_le: "m \<le> n \<Longrightarrow> fib m \<le> fib n"
  by (rule lift_Suc_mono_le [of fib]) (simp_all add: fib_mono)

definition fib_delay :: "nat \<Rightarrow> nat \<Rightarrow> nat \<Rightarrow> nat" where
  "fib_delay u m k = min (u * fib (Suc k)) m"

text \<open>
  The state after \<open>k\<close> calls: two neighbouring Fibonacci numbers, reached after at most \<open>k\<close>
  steps; fewer if the largest delay has been reached.
\<close>

definition fib_at :: "nat \<Rightarrow> nat \<Rightarrow> nat \<Rightarrow> default_backoff \<Rightarrow> bool" where
  "fib_at u m k b \<longleftrightarrow>
     bo_unit b = u \<and> bo_max b = m \<and>
     (\<exists>j \<le> k. unat (bo_current b) = fib (Suc j) \<and> unat (bo_prev b) = fib j \<and>
             (j = k \<or> m \<le> u * fib (Suc j)))"

text \<open>The largest delay is reached before the 32-bit counters or the duration overflow.\<close>

definition sane_backoff :: "nat \<Rightarrow> nat \<Rightarrow> bool" where
  "sane_backoff u m \<longleftrightarrow> m \<le> u * 2 ^ 31 \<and> u * 2 ^ 32 \<le> 2 ^ 64 * 10 ^ 9 \<and> 0 < u"

lemma fib_at_next:
  assumes "sane_backoff u m" and "fib_at u m k b"
  shows "\<exists>b'. backoff_next b = Some (fib_delay u m k, b') \<and> fib_at u m (Suc k) b'"
proof -
  from assms(2) obtain j where j: "j \<le> k" "unat (bo_current b) = fib (Suc j)" "unat (bo_prev b) = fib j"
    "j = k \<or> m \<le> u * fib (Suc j)" and b: "bo_unit b = u" "bo_max b = m"
    by (auto simp: fib_at_def)
  have "u * unat (bo_current b) < u * 2 ^ 32"
    using assms(1) unat_u32_bound [of "bo_current b"] by (simp add: sane_backoff_def)
  also have "\<dots> \<le> 2 ^ 64 * 10 ^ 9"
    using assms(1) by (simp only: sane_backoff_def)
  finally have mul: "duration_mul u (bo_current b) = Some (u * fib (Suc j))"
    by (simp only: duration_mul_def j(2) if_True)
  show ?thesis
  proof (cases "m \<le> u * fib (Suc j)")
    case True
    have "u * fib (Suc j) \<le> u * fib (Suc k)" using fib_le [of "Suc j" "Suc k"] j(1) by simp
    with True have "m \<le> u * fib (Suc k)" by (rule le_trans)
    then have "fib_delay u m k = m" unfolding fib_delay_def by (rule min.absorb2)
    moreover have "fib_at u m (Suc k) b" using j b True by (auto simp: fib_at_def intro!: exI [of _ j])
    ultimately show ?thesis using True mul b by (simp add: backoff_next_def)
  next
    case False
    with j(4) have jk: "j = k" by simp
    have "u * fib (Suc j) < u * 2 ^ 31"
      using False assms(1) unfolding sane_backoff_def by linarith
    then have small: "fib (Suc j) < 2 ^ 31" by simp
    let ?b = "b\<lparr>bo_current := bo_current b + bo_prev b, bo_prev := bo_current b\<rparr>"
    have "unat (bo_current b + bo_prev b) = fib (Suc j) + fib j"
      using small fib_mono [of j] j(2,3) by (simp add: unat_word_ariths)
    then have "fib_at u m (Suc k) ?b"
      using j b jk by (auto simp: fib_at_def intro!: exI [of _ "Suc j"])
    moreover have "fib_delay u m k = u * fib (Suc j)" using False jk by (simp add: fib_delay_def)
    ultimately show ?thesis using False mul b by (simp add: backoff_next_def)
  qed
qed

lemma fib_at_reset: "fib_at u m k b \<Longrightarrow> fib_at u m 0 (backoff_reset b)"
  by (simp add: fib_at_def backoff_reset_def)

lemma fib_at_new: "fib_at u m 0 (backoff_new u m)"
  by (simp add: fib_at_def backoff_new_def backoff_reset_def)

lemma sane_default: "sane_backoff default_unit default_max"
  by (simp add: sane_backoff_def default_unit_def default_max_def)

interpretation fib_backoff: backoff backoff_next backoff_reset
  "fib_at default_unit default_max" "fib_delay default_unit default_max"
  by unfold_locales (blast intro: fib_at_reset, blast intro: fib_at_next [OF sane_default])

lemma failed_new: "fib_backoff.failed 0 t0 (client_new addr)"
  using fib_at_new
  by (simp add: fib_backoff.failed_def client_new_def with_backoff_def backoff_default_def)

section \<open>Properties\<close>

text \<open>
  C34. A new client that fails \<open>n\<close> times in a row never panics and reports, at the \<open>i\<close>-th
  failure (counting from 0), the error of the attempt, the start time of the first attempt, \<open>i + 1\<close> retries,
  and a wait of \<open>100 ms\<close> times the Fibonacci number \<open>fib (i + 1)\<close>, capped at five seconds. A success
  is returned and resets the client: the failures after it are reported from the shortest wait, the
  first retry and a new start time on.
\<close>

theorem client_backoff_sequence:
  assumes "list_all (\<lambda>a. \<exists>e. at_outcome a = Inl e) as" and "as \<noteq> []" and "at_outcome ok = Inr conn"
    and "list_all (\<lambda>a. \<exists>e. at_outcome a = Inl e) bs" and "bs \<noteq> []"
  shows "\<exists>rs rs' c. client_run backoff_next backoff_reset (client_new addr) (as @ ok # bs) = Some (rs @ Inr conn # rs', c) \<and>
    length rs = length as \<and> length rs' = length bs \<and>
    (\<forall>i < length as. \<exists>e. at_outcome (as ! i) = Inl e \<and> rs ! i =
       Inl \<lparr>ae_next_attempt_in = min (default_unit * fib (Suc i)) default_max, ae_retries = of_nat (Suc i),
            ae_start_time = at_called (hd as), ae_error = e\<rparr>) \<and>
    (\<forall>i < length bs. \<exists>e. at_outcome (bs ! i) = Inl e \<and> rs' ! i =
       Inl \<lparr>ae_next_attempt_in = min (default_unit * fib (Suc i)) default_max, ae_retries = of_nat (Suc i),
            ae_start_time = at_called (hd bs), ae_error = e\<rparr>)"
proof -
  from fib_backoff.run_fails_again [OF failed_new assms(1) refl assms(3,4) refl, of addr] obtain rs rs' c where
    "client_run backoff_next backoff_reset (client_new addr) (as @ ok # bs) = Some (rs @ Inr conn # rs', c)"
    "fib_backoff.reported 0 (at_called (hd as)) as rs" "fib_backoff.reported 0 (at_called (hd bs)) bs rs'"
    by blast
  then show ?thesis
    unfolding fib_backoff.reported_nth fib_delay_def
    by (intro exI [of _ rs] exI [of _ rs'] exI [of _ c]) simp
qed

definition example_attempt :: "nat \<Rightarrow> (string + unit) \<Rightarrow> unit attempt" where
  "example_attempt t r = \<lparr>at_called = t, at_checked = t, at_finished = t + 1, at_outcome = r\<rparr>"

text \<open>Three failures, a success and a failure: waits of 100, 100 and 200 milliseconds, then 100 again.\<close>

theorem client_backoff_sequence_witness:
  "\<exists>rs rs' c. client_run backoff_next backoff_reset (client_new (Address [0x61] 1))
      (map (\<lambda>t. example_attempt t (Inl ''refused'')) [5, 9, 11] @ example_attempt 20 (Inr ()) #
       [example_attempt 30 (Inl ''refused'')]) = Some (rs @ Inr () # rs', c) \<and>
    rs ! 2 = Inl \<lparr>ae_next_attempt_in = 200000000, ae_retries = 3, ae_start_time = 5, ae_error = ''refused''\<rparr> \<and>
    rs' ! 0 = Inl \<lparr>ae_next_attempt_in = 100000000, ae_retries = 1, ae_start_time = 30, ae_error = ''refused''\<rparr>"
proof -
  let ?as = "map (\<lambda>t. example_attempt t (Inl ''refused'')) [5, 9, 11]" and ?bs = "[example_attempt 30 (Inl ''refused'')]"
  have f: "list_all (\<lambda>a. \<exists>e. at_outcome a = Inl e) ?as" "?as \<noteq> []" "at_outcome (example_attempt 20 (Inr ())) = Inr ()"
    "list_all (\<lambda>a. \<exists>e. at_outcome a = Inl e) ?bs" "?bs \<noteq> []" by (simp_all add: example_attempt_def)
  from client_backoff_sequence [OF f, of "Address [0x61] 1"] obtain rs rs' c where
    r: "client_run backoff_next backoff_reset (client_new (Address [0x61] 1)) (?as @ example_attempt 20 (Inr ()) # ?bs) =
      Some (rs @ Inr () # rs', c)"
    "\<forall>i < length ?as. \<exists>e. at_outcome (?as ! i) = Inl e \<and> rs ! i =
       Inl \<lparr>ae_next_attempt_in = min (default_unit * fib (Suc i)) default_max, ae_retries = of_nat (Suc i),
            ae_start_time = at_called (hd ?as), ae_error = e\<rparr>"
    "\<forall>i < length ?bs. \<exists>e. at_outcome (?bs ! i) = Inl e \<and> rs' ! i =
       Inl \<lparr>ae_next_attempt_in = min (default_unit * fib (Suc i)) default_max, ae_retries = of_nat (Suc i),
            ae_start_time = at_called (hd ?bs), ae_error = e\<rparr>"
    by blast
  from r(2) have "rs ! 2 = Inl \<lparr>ae_next_attempt_in = 200000000, ae_retries = 3, ae_start_time = 5, ae_error = ''refused''\<rparr>"
    by (elim allE [of _ 2]) (simp add: example_attempt_def default_unit_def default_max_def numeral_2_eq_2)
  moreover from r(3) have "rs' ! 0 = Inl \<lparr>ae_next_attempt_in = 100000000, ae_retries = 1, ae_start_time = 30, ae_error = ''refused''\<rparr>"
    by (simp add: example_attempt_def default_unit_def default_max_def)
  ultimately show ?thesis using r(1) by blast
qed

text \<open>
  Attempts are spaced: with a clock that does not run backwards, an attempt that follows a
  failed one starts to connect no earlier than the failure plus the wait that the failure
  reported, and it never sleeps longer than that wait.
\<close>

theorem client_waits_out_delay:
  assumes "client_next bnext breset c a = Some (Inl err, c')"
    and "at_finished a \<le> at_checked a'"
  shows "at_finished a + ae_next_attempt_in err \<le> at_checked a' + sleep_time c' (at_checked a') \<and>
         sleep_time c' (at_checked a') \<le> ae_next_attempt_in err"
  using assms
  by (auto simp: client_next_def sleep_time_def Let_def split: sum.splits option.splits)

theorem client_waits_out_delay_witness:
  "\<exists>err c'. client_next backoff_next backoff_reset (client_new (Address [0x61] 1))
       (example_attempt 5 (Inl ''refused'')) = Some (Inl err, c') \<and>
     6 + ae_next_attempt_in err \<le> 10 + sleep_time c' 10"
proof -
  obtain err c' where n: "client_next backoff_next backoff_reset (client_new (Address [0x61] 1))
       (example_attempt 5 (Inl ''refused'')) = Some (Inl err, c')"
    by (simp add: client_next_def client_new_def with_backoff_def backoff_default_def backoff_new_def
        backoff_reset_def backoff_next_def duration_mul_def default_unit_def default_max_def
        example_attempt_def Let_def)
  have "at_finished (example_attempt 5 (Inl ''refused'')) \<le> at_checked (example_attempt 10 (Inr ()))"
    by (simp add: example_attempt_def)
  from client_waits_out_delay [OF n this] n show ?thesis by (auto simp: example_attempt_def)
qed

text \<open>
  Addresses survive their text form exactly when the host is not empty and has no colon:
  then parsing the displayed address gives it back; a host that is empty or has a colon (such
  as an IPv6 literal) is never the host of a parsed address.
\<close>

theorem address_roundtrip:
  "(address_from_str (address_display (Address host port)) = Inr (Address host port) \<longleftrightarrow>
      host \<noteq> [] \<and> 0x3a \<notin> set host) \<and>
   (\<forall>s. address_from_str s = Inr (Address host port) \<longrightarrow> host \<noteq> [] \<and> 0x3a \<notin> set host)"
proof -
  have parsed: "host \<noteq> [] \<and> 0x3a \<notin> set host" if "address_from_str s = Inr (Address host port)" for s
    using that
    by (auto simp: address_from_str_def split: option.splits if_splits dest!: find_byte_Some)
  moreover have "address_from_str (address_display (Address host port)) = Inr (Address host port)"
    if "host \<noteq> []" "0x3a \<notin> set host"
    using that find_byte_append [of "0x3a" host "dec_bytes (unat port)"] parse_u16_dec [of port]
    by (simp add: address_from_str_def address_display_def)
  ultimately show ?thesis by blast
qed

theorem address_roundtrip_witness:
  "address_from_str (address_display (Address [0x61, 0x62] 443)) = Inr (Address [0x61, 0x62] 443)"
  using address_roundtrip [of "[0x61, 0x62]" 443] by simp

end
