(* ===== verification/Translation_Runs.thy ===== *)
theory Translation_Runs
  imports Translation
begin

text \<open>
  Runs of the translation and what holds in all of them.

  \<open>wp m Q R N s\<close> says what a method does from \<open>s\<close>: \<open>Q\<close> of a result, \<open>R\<close> of an error, \<open>N\<close> of a panic.
  The collection \<open>wp_simps\<close> computes it along the structure of a method, so that the facts about a
  handler are proved by rewriting. \<open>run\<close> are the states after a sequence of handled messages: the
  loop of \<open>ConnTranslation::run\<close>, which stops at the first error.

  Invariants: an operational channel has its details, target, extra nonce and authorization; the
  queue of share responses never starts with an error that could have been sent; identifiers of
  requests and jobs are fresh for the first \<open>2^32\<close> of them; share responses go out in the
  order in which the shares came in.
\<close>

section \<open>Weakest preconditions\<close>

named_theorems wp_simps \<open>weakest preconditions of the methods\<close>

definition wp ::
  "'a proc \<Rightarrow> ('a \<Rightarrow> translation \<Rightarrow> bool) \<Rightarrow> (px_error \<Rightarrow> translation \<Rightarrow> bool) \<Rightarrow> (string \<Rightarrow> bool) \<Rightarrow>
   translation \<Rightarrow> bool" where
  "wp m Q R N s =
     (case m s of (Done x, s') \<Rightarrow> Q x s' | (Fail e, s') \<Rightarrow> R e s' | (Panicked p, s') \<Rightarrow> N p)"

lemma wp_basic [wp_simps]:
  "wp (treturn x) Q R N s = Q x s"
  "wp (fail e) Q R N s = R e s"
  "wp (panic p) Q R N s = N p"
  "wp (tget f) Q R N s = Q (f s) s"
  by (simp_all add: wp_def treturn_def fail_def panic_def tget_def)

lemma wp_mod [wp_simps]: "wp (tmod g) Q R N s = Q () (g s)"
  by (simp add: wp_def tmod_def)

lemma wp_eta [wp_simps]: "wp (treturn x) Q R N = Q x" "wp (fail e) Q R N = R e"
  by (simp_all add: fun_eq_iff wp_basic)

lemma wp_bind [wp_simps]: "wp (tbind m f) Q R N s = wp m (\<lambda>x. wp (f x) Q R N) R N s"
  by (simp add: wp_def tbind_def split: prod.splits outcome.splits)

lemma wp_then [wp_simps]: "wp (tthen m n) Q R N s = wp m (\<lambda>_. wp n Q R N) R N s"
  by (simp add: tthen_def wp_bind)

lemma wp_on_err [wp_simps]: "wp (on_err m h) Q R N s = wp m Q (\<lambda>e. wp (h e) Q R N) N s"
  by (simp add: wp_def on_err_def split: prod.splits outcome.splits)

lemma wp_map_err [wp_simps]: "wp (tmap_err f m) Q R N s = wp m Q (\<lambda>e. R (f e)) N s"
  by (simp add: wp_def tmap_err_def on_err_def fail_def split: prod.splits outcome.splits)

lemma wp_lift [wp_simps]:
  "wp (tlift r) Q R N s = (case r of Inl e \<Rightarrow> R e s | Inr x \<Rightarrow> Q x s)"
  by (simp add: tlift_def wp_basic split: sum.splits)

lemma wp_expect [wp_simps]:
  "wp (expect p x) Q R N s = (case x of None \<Rightarrow> N p | Some v \<Rightarrow> Q v s)"
  by (simp add: expect_def wp_basic split: option.splits)

lemma wp_if [wp_simps]: "wp (if b then m else n) Q R N s = (if b then wp m Q R N s else wp n Q R N s)"
  by simp

lemma wp_capacity [wp_simps]:
  "wp (with_capacity n) Q R N s = (if ISIZE_MAX < n then N ''capacity overflow'' else Q () s)"
  by (simp add: with_capacity_def wp_basic)

text \<open>The extra nonce of a channel: its id in as many bytes as the pool wants, padded by zeros.\<close>

definition extra_nonce2 :: "u32 \<Rightarrow> nat \<Rightarrow> bytes" where
  "extra_nonce2 channel_id n = take n (le_bytes 4 (unat channel_id)) @ replicate (n - 4) 0"

lemma wp_extra_nonce2 [wp_simps]:
  "wp (channel_to_extra_nonce2_bytes c n) Q R N s =
     (if ISIZE_MAX < n then N ''capacity overflow'' else Q (extra_nonce2 c n) s)"
  by (auto simp: channel_to_extra_nonce2_bytes_def extra_nonce2_def wp_simps Let_def)

lemma extra_nonce2_length: "length (extra_nonce2 c n) = n"
  by (auto simp: extra_nonce2_def)

lemma wp_mono:
  assumes "wp m Q R N s"
    and "\<And>x s'. Q x s' \<Longrightarrow> Q' x s'" and "\<And>e s'. R e s' \<Longrightarrow> R' e s'" and "\<And>p. N p \<Longrightarrow> N' p"
  shows "wp m Q' R' N' s"
  using assms by (auto simp: wp_def split: prod.splits outcome.splits)

lemma wp_DoneD: "wp m Q R N s \<Longrightarrow> m s = (Done x, s') \<Longrightarrow> Q x s'"
  by (simp add: wp_def)

lemma wp_PanickedD: "wp m Q R N s \<Longrightarrow> m s = (Panicked p, s') \<Longrightarrow> N p"
  by (simp add: wp_def)

section \<open>Sending\<close>

definition v2_frame :: "v2_message \<Rightarrow> v2_message frame" where
  "v2_frame m = \<lparr>frame_header = \<lparr>is_channel_message = is_channel_msg (kind_of m),
     extension_type = msg_extension (kind_of m), msg_type = msg_id (kind_of m), msg_length = None\<rparr>,
     frame_payload = LazyBytes m\<rparr>"

lemma frame_of_message_eq: "frame_of_message m = Inr (v2_frame m)"
  by (simp add: frame_of_message_def v2_frame_def from_serializable_payload_def header_new_def)

lemma wp_submit_v2 [wp_simps]:
  "wp (submit_v2_message E m) Q R N s =
     (case try_send (v2_frame m) (v2_tx s) of
        (Inl e, tx) \<Rightarrow> R (PxDownstream (fmt_send_error E e)) (s\<lparr>v2_tx := tx\<rparr>)
      | (Inr u, tx) \<Rightarrow> Q () (s\<lparr>v2_tx := tx\<rparr>))"
  by (auto simp: submit_v2_message_def frame_of_message_eq wp_simps send_v2_def wp_def tbind_def
      fail_def treturn_def Let_def split: prod.splits sum.splits)

lemma wp_submit_v1_response [wp_simps]:
  "wp (submit_v1_response_message i r) Q R N s =
     (case try_send (RpcResponse \<lparr>resp_id = (case i of None \<Rightarrow> 0 | Some i \<Rightarrow> i), stratum_result = r,
                                  stratum_err = None\<rparr>) (v1_tx s) of
        (Inl e, tx) \<Rightarrow> R (PxIo e) (s\<lparr>v1_tx := tx\<rparr>)
      | (Inr u, tx) \<Rightarrow> Q () (s\<lparr>v1_tx := tx\<rparr>))"
  by (auto simp: submit_v1_response_message_def send_v1_def wp_def tbind_def
      fail_def treturn_def Let_def split: prod.splits sum.splits)

definition pending_handler :: "v1_request \<Rightarrow> result_handler \<Rightarrow> error_handler \<Rightarrow> nat \<Rightarrow> compound_handler" where
  "pending_handler req rh eh t =
     \<lparr>v1_stratum_result_handler = rh, v1_stratum_error_handler = eh, handler_method = request_method req,
      timestamp_created = t\<rparr>"

definition v1_message :: "tr_env \<Rightarrow> u32 \<Rightarrow> v1_request \<Rightarrow> v1_rpc" where
  "v1_message E i req =
     RpcRequest \<lparr>req_id = Some i, req_method = request_method req,
                 req_params = the (request_params (libs E) req)\<rparr>"

lemma wp_submit_v1 [wp_simps]:
  "wp (submit_v1_request_message E req rh eh) Q R N s =
     (if request_params (libs E) req = None then N ''BUG: Cannot convert V1 method into a message''
      else if map_of (v1_req_map s) (v1_req_id s) \<noteq> None then N ''V1 id already exists''
      else let s' = s\<lparr>v1_req_id := v1_req_id s + 1,
                      v1_req_map := hm_insert (v1_req_id s) (pending_handler req rh eh (clock s)) (v1_req_map s)\<rparr>
           in case try_send (v1_message E (v1_req_id s) req) (v1_tx s) of
                (Inl e, tx) \<Rightarrow> R (PxUpstream (fmt_send_error E e)) (s'\<lparr>v1_tx := tx\<rparr>)
              | (Inr u, tx) \<Rightarrow> Q (v1_req_id s) (s'\<lparr>v1_tx := tx\<rparr>))"
  by (auto simp: submit_v1_request_message_def v1_method_into_message_def request_payload_def wp_simps
      next_id_def send_v1_def Let_def v1_message_def pending_handler_def
      wp_def [of "send_v1 _"] split: option.splits prod.splits sum.splits)

section \<open>Runs\<close>

text \<open>A message that reaches the translation: a parsed V1 message or a V2 frame.\<close>

datatype event = V1Event v1_rpc | V2Event "v2_message frame"

definition handle_event :: "tr_env \<Rightarrow> event \<Rightarrow> unit proc" where
  "handle_event E e = (case e of V1Event rpc \<Rightarrow> handle_v1 E rpc | V2Event f \<Rightarrow> v2_handle_frame E f)"

text \<open>
  \<open>run E safe es s\<close>: the connection has handled the messages \<open>es\<close> without an error and the
  translation is in the state \<open>s\<close>. Between two messages the receiving ends of the channels and the
  clock move on; with \<open>safe\<close> the channel towards the client never refuses a frame.
\<close>

inductive run :: "tr_env \<Rightarrow> bool \<Rightarrow> event list \<Rightarrow> translation \<Rightarrow> bool" for E safe where
  run_new: "run E safe [] (translation_new \<lparr>sent = [], refusals = []\<rparr> \<lparr>sent = [], refusals = []\<rparr> opts ms)"
| run_env: "run E safe es s \<Longrightarrow> (safe \<longrightarrow> r2 = []) \<Longrightarrow> clock s \<le> c \<Longrightarrow>
    run E safe es (s\<lparr>v1_tx := (v1_tx s)\<lparr>refusals := r1\<rparr>, v2_tx := (v2_tx s)\<lparr>refusals := r2\<rparr>, clock := c\<rparr>)"
| run_step: "run E safe es s \<Longrightarrow> handle_event E e s = (Done (), s') \<Longrightarrow> run E safe (es @ [e]) s'"

section \<open>The state invariant\<close>

definition queue_ready :: "submit_share list \<Rightarrow> bool" where
  "queue_ready q = (case q of QueuedError e # _ \<Rightarrow> False | _ \<Rightarrow> True)"

definition tr_inv :: "translation \<Rightarrow> bool" where
  "tr_inv s \<longleftrightarrow>
     (state s = Operational \<longrightarrow>
        v2_channel_details s \<noteq> None \<and> v2_target s \<noteq> None \<and> v1_extra_nonce1 s \<noteq> None \<and> v1_authorized s) \<and>
     (state s = OpenStandardMiningChannelPending \<longrightarrow> v2_channel_details s \<noteq> None) \<and>
     (state s \<noteq> Init \<or> v1_req_map s \<noteq> [] \<or> v2_channel_details s \<noteq> None \<longrightarrow> v2_conn_details s \<noteq> None) \<and>
     v1_force_future_jobs s \<and> queue_ready (v2_submit_share_queue s)"

lemma tr_inv_tx [simp]:
  "tr_inv (s\<lparr>v2_tx := tx\<rparr>) = tr_inv s" "tr_inv (s\<lparr>v1_tx := tx1\<rparr>) = tr_inv s"
  "tr_inv (s\<lparr>clock := c\<rparr>) = tr_inv s" "tr_inv (s\<lparr>metrics := ms\<rparr>) = tr_inv s"
  "tr_inv (s\<lparr>last_submit := l\<rparr>) = tr_inv s" "tr_inv (s\<lparr>v1_xnsub_enabled := x\<rparr>) = tr_inv s"
  by (simp_all add: tr_inv_def)

lemmas wp_case_splits = option.splits prod.splits sum.splits if_splits

lemma wp_notify_inv:
  assumes "tr_inv s"
  shows "wp (perform_notify E n) (\<lambda>_. tr_inv) (\<lambda>_. tr_inv) (\<lambda>_. True) s"
  using assms
  by (auto simp: perform_notify_def calculate_merkle_root_def build_set_new_prev_hash_def wp_simps Let_def
      tr_inv_def split: wp_case_splits)

lemma wp_finalize_inv:
  assumes "tr_inv s" and "v1_authorized s" and "v1_extra_nonce1 s \<noteq> None" and "v2_conn_details s \<noteq> None"
  shows "wp (finalize_open_channel E)
    (\<lambda>_. tr_inv) (\<lambda>_ s'. tr_inv s' \<and> v2_conn_details s' \<noteq> None) (\<lambda>_. True) s"
  using assms
  by (auto simp: finalize_open_channel_def perform_notify_def calculate_merkle_root_def
      build_set_new_prev_hash_def Let_def wp_simps tr_inv_def split: wp_case_splits)

lemma wp_abort_inv:
  assumes "tr_inv s" and "v2_conn_details s \<noteq> None" and "\<And>s'. tr_inv s' \<Longrightarrow> Q () s'"
  shows "wp (abort_open_channel E m) Q R (\<lambda>_. True) s"
proof -
  have "tr_inv (s\<lparr>state := V1SubscribeOrAuthorizeFail, v1_authorized := False, v1_extra_nonce1 := None,
                 v1_extra_nonce2_size := 0, v2_channel_details := d\<rparr>)"
    "v2_channel_details s = None \<Longrightarrow> tr_inv (s\<lparr>state := V1SubscribeOrAuthorizeFail, v1_authorized := False,
                 v1_extra_nonce1 := None, v1_extra_nonce2_size := 0\<rparr>)" for d
    using assms(1,2) by (auto simp: tr_inv_def)
  then show ?thesis
    using assms(3)
    by (auto simp: abort_open_channel_def expect_str_def wp_simps split: wp_case_splits)
qed

text \<open>What the handlers of V1 responses keep; they run only after a connection has been set up.\<close>

definition keeps :: "'a proc \<Rightarrow> bool" where
  "keeps m \<longleftrightarrow>
     (\<forall>s. tr_inv s \<and> v2_conn_details s \<noteq> None \<longrightarrow> wp m (\<lambda>_. tr_inv) (\<lambda>_ _. True) (\<lambda>_. True) s)"

lemma keepsI:
  "(\<And>s. tr_inv s \<Longrightarrow> v2_conn_details s \<noteq> None \<Longrightarrow> wp m (\<lambda>_. tr_inv) (\<lambda>_ _. True) (\<lambda>_. True) s) \<Longrightarrow> keeps m"
  by (simp add: keeps_def)

lemma keeps_configure: "keeps (handle_configure_result E i p)" "keeps (handle_configure_error E i e)"
  by (auto simp: handle_configure_result_def handle_configure_error_def setup_refused_def expect_str_def
      wp_simps tr_inv_def intro!: keepsI split: wp_case_splits)

lemma wp_abort_with: "wp (abort_with E m e) Q (\<lambda>_ _. True) (\<lambda>_. True) s"
  by (auto simp: abort_with_def abort_open_channel_def expect_str_def wp_simps split: wp_case_splits)

lemma keeps_extranonce:
  "keeps (handle_extranonce_subscribe_result E i p)" "keeps (handle_extranonce_subscribe_error E i e)"
  by (auto simp: handle_extranonce_subscribe_result_def handle_extranonce_subscribe_error_def
      wp_simps intro!: keepsI split: wp_case_splits)

lemma keeps_subscribe_result: "keeps (handle_subscribe_result E i p)"
proof (rule keepsI)
  fix s
  assume s: "tr_inv s" "v2_conn_details s \<noteq> None"
  have "wp (on_err (finalize_open_channel E) (abort_with E m)) (\<lambda>_. tr_inv) (\<lambda>_ _. True) (\<lambda>_. True) s'"
    if "tr_inv s'" "v1_authorized s'" "v1_extra_nonce1 s' \<noteq> None" "v2_conn_details s' \<noteq> None" for s' m
    unfolding wp_on_err by (rule wp_mono [OF wp_finalize_inv [OF that]]) (auto intro: wp_abort_with)
  moreover have "tr_inv (s\<lparr>v1_extra_nonce1 := Some n, v1_extra_nonce2_size := k\<rparr>)" for n k
    using s by (auto simp: tr_inv_def)
  ultimately show "wp (handle_subscribe_result E i p) (\<lambda>_. tr_inv) (\<lambda>_ _. True) (\<lambda>_. True) s"
    using s(2) by (auto simp: handle_subscribe_result_def wp_abort_with wp_bind wp_on_err wp_lift wp_then
        wp_mod wp_basic split: wp_case_splits)
qed

lemma keeps_authorize_result: "keeps (handle_authorize_result E i p)"
proof (rule keepsI)
  fix s
  assume s: "tr_inv s" "v2_conn_details s \<noteq> None"
  then have "tr_inv (s\<lparr>v1_authorized := True\<rparr>)" by (auto simp: tr_inv_def)
  with s(2) have "wp (finalize_open_channel E) (\<lambda>_. tr_inv) (\<lambda>e. wp (abort_with E m e) (\<lambda>_. tr_inv)
      (\<lambda>_ _. True) (\<lambda>_. True)) (\<lambda>_. True) (s\<lparr>v1_authorized := True\<rparr>)"
    if "v1_extra_nonce1 s \<noteq> None" for m
    by (intro wp_mono [OF wp_finalize_inv]) (use that in \<open>auto intro: wp_abort_with\<close>)
  with \<open>tr_inv (s\<lparr>v1_authorized := True\<rparr>)\<close>
  show "wp (handle_authorize_result E i p) (\<lambda>_. tr_inv) (\<lambda>_ _. True) (\<lambda>_. True) s"
    by (auto simp: handle_authorize_result_def wp_abort_with wp_bind wp_on_err wp_lift wp_then
        wp_mod wp_basic split: wp_case_splits)
qed

lemma keeps_request_error: "keeps (handle_authorize_or_subscribe_error E i e)"
  by (auto simp: handle_authorize_or_subscribe_error_def wp_simps intro!: keepsI wp_abort_with
      split: wp_case_splits)

definition is_queued_error :: "submit_share \<Rightarrow> bool" where
  "is_queued_error x = (case x of QueuedError _ \<Rightarrow> True | _ \<Rightarrow> False)"

lemma is_queued_error_simps [simp]: "is_queued_error (QueuedError e)" "\<not> is_queued_error (V1ToV2Mapping a b)"
  by (simp_all add: is_queued_error_def)

lemma queue_ready_dropWhile [simp]: "queue_ready (dropWhile is_queued_error q)"
  by (induction q) (auto simp: queue_ready_def split: list.splits submit_share.splits)

lemma queue_ready_append:
  "queue_ready q \<Longrightarrow> queue_ready (q @ [V1ToV2Mapping a b])"
  "queue_ready q \<Longrightarrow> q \<noteq> [] \<Longrightarrow> queue_ready (q @ [QueuedError e])"
  by (auto simp: queue_ready_def split: list.splits submit_share.splits)

lemma queue_ready_Nil [simp]: "queue_ready []"
  by (simp add: queue_ready_def)

lemma wp_send_queued:
  "v2_submit_share_queue s = q \<Longrightarrow>
   wp (send_queued_errors E q)
     (\<lambda>_ s'. \<exists>tx. s' = s\<lparr>v2_submit_share_queue := dropWhile is_queued_error q, v2_tx := tx\<rparr>)
     (\<lambda>_ _. True) (\<lambda>_. False) s"
proof (induction q arbitrary: s)
  case Nil
  then have "s = s\<lparr>v2_submit_share_queue := [], v2_tx := v2_tx s\<rparr>" by simp
  then show ?case by (simp only: send_queued_errors.simps wp_basic dropWhile.simps) (rule exI)
next
  case (Cons x q)
  show ?case
  proof (cases x)
    case (V1ToV2Mapping a b)
    with Cons.prems have "s = s\<lparr>v2_submit_share_queue := x # q, v2_tx := v2_tx s\<rparr>" by simp
    then show ?thesis
      unfolding V1ToV2Mapping send_queued_errors.simps wp_basic by (auto intro: exI [of _ "v2_tx s"])
  next
    case (QueuedError e)
    then show ?thesis
      by (auto simp: wp_then wp_mod wp_submit_v2 split: wp_case_splits intro!: wp_mono [OF Cons.IH])
  qed
qed

lemma wp_share_response:
  assumes "\<And>tx. Q () (s\<lparr>v2_submit_share_queue := dropWhile is_queued_error (v2_submit_share_queue s), v2_tx := tx\<rparr>)"
  shows "wp (submit_share_response E m) Q (\<lambda>_ _. True) N s"
proof -
  have "wp (send_queued_errors E (v2_submit_share_queue s)) Q (\<lambda>_ _. True) N (s\<lparr>v2_tx := tx\<rparr>)" for tx
    by (rule wp_mono [OF wp_send_queued]) (use assms in auto)
  then show ?thesis
    by (auto simp: submit_share_response_def submit_queued_share_responses_def wp_simps
        split: wp_case_splits)
qed

lemma tr_inv_queue: "tr_inv s \<Longrightarrow> queue_ready q \<Longrightarrow> tr_inv (s\<lparr>v2_submit_share_queue := q\<rparr>)"
  by (simp add: tr_inv_def)

lemma wp_get_seq:
  assumes "\<And>n. Q n (s\<lparr>v2_submit_share_queue := tl (v2_submit_share_queue s)\<rparr>)"
  shows "wp (get_v2_submit_shares_seq_num i) Q (\<lambda>_ _. True) N s"
  using assms
  by (auto simp: get_v2_submit_shares_seq_num_def wp_simps
      split: option.splits list.splits submit_share.splits)

lemma keeps_submit_result: "keeps (handle_submit_result E i p)"
  by (auto simp: handle_submit_result_def accept_shares_def reject_shares_def account_def error_code_def
      expect_str_def wp_simps Let_def tr_inv_queue intro!: keepsI wp_get_seq wp_share_response split: wp_case_splits)

lemma keeps_submit_error: "keeps (handle_submit_error E i e)"
  by (auto simp: handle_submit_error_def reject_shares_def account_def error_code_def
      expect_str_def wp_simps Let_def tr_inv_queue intro!: keepsI wp_get_seq wp_share_response split: wp_case_splits)

lemma keeps_handlers: "keeps (run_result_handler E h i p)" "keeps (run_error_handler E h' i e)"
  by (cases h; simp add: keeps_configure keeps_extranonce keeps_subscribe_result keeps_authorize_result
      keeps_submit_result)
    (cases h'; simp add: keeps_configure keeps_extranonce keeps_request_error keeps_submit_error)

lemma tr_inv_remove:
  "tr_inv s \<Longrightarrow> tr_inv (s\<lparr>v1_req_map := hm_remove i (v1_req_map s)\<rparr>)"
  by (auto simp: tr_inv_def hm_remove_def)

lemma inv_visit:
  assumes "tr_inv s"
  shows "wp (visit_stratum_result_or_error E i p) (\<lambda>_. tr_inv) (\<lambda>_ _. True) (\<lambda>_. True) s"
proof -
  have *: "wp (run_result_handler E h i r) (\<lambda>_. tr_inv) (\<lambda>_ _. True) (\<lambda>_. True) (s\<lparr>v1_req_map := m, metrics := ms\<rparr>)"
    "wp (run_error_handler E h' i e) (\<lambda>_. tr_inv) (\<lambda>_ _. True) (\<lambda>_. True) (s\<lparr>v1_req_map := m, metrics := ms\<rparr>)"
    if "tr_inv (s\<lparr>v1_req_map := m\<rparr>)" "v1_req_map s \<noteq> []" for h r h' e m ms i
    using keeps_handlers(1) [of E h i r] keeps_handlers(2) [of E h' i e] that assms by (auto simp: keeps_def tr_inv_def)
  show ?thesis
    using tr_inv_remove [OF assms]
    by (auto simp: visit_stratum_result_or_error_def account_def wp_simps intro!: *
        split: option.splits v1_result_or_error.splits)
qed

lemma inv_set_difficulty:
  assumes "tr_inv s"
  shows "wp (handle_set_difficulty E p) (\<lambda>_. tr_inv) (\<lambda>_ _. True) (\<lambda>_. True) s"
proof -
  have t: "tr_inv (s\<lparr>v2_target := Some x\<rparr>)" for x
    using assms by (auto simp: tr_inv_def)
  have "wp (finalize_open_channel E) (\<lambda>_. tr_inv) (\<lambda>_. tr_inv) (\<lambda>_. True) (s\<lparr>v2_target := Some x\<rparr>)"
    if "v1_authorized s" "v1_extra_nonce1 s \<noteq> None" "state s = OpenStandardMiningChannelPending" for x
    by (rule wp_mono [OF wp_finalize_inv [OF t]]) (use assms that in \<open>auto simp: tr_inv_def\<close>)
  with t show ?thesis
    by (auto simp: handle_set_difficulty_def send_set_target_def Let_def wp_bind wp_on_err wp_lift wp_then
        wp_mod wp_basic wp_eta wp_expect wp_submit_v2 split: wp_case_splits)
qed

lemma inv_requests_v1:
  assumes "tr_inv s"
  shows "wp (handle_request_v1 E rpc p) (\<lambda>_. tr_inv) (\<lambda>_ _. True) (\<lambda>_. True) s"
proof (cases "(E, rpc, p)" rule: handle_request_v1.cases)
  case 1
  with inv_set_difficulty [OF assms] show ?thesis by auto
next
  case (3 E rpc i n)
  have *: "wp (perform_notify E n) (\<lambda>_. tr_inv) R (\<lambda>_. True) s" if "\<And>e s'. R e s'" for R
    by (rule wp_mono [OF wp_notify_inv [OF assms]]) (simp_all add: that)
  have "tr_inv (s\<lparr>v1_deferred_notify := d\<rparr>)" for d
    using assms by (simp add: tr_inv_def)
  then show ?thesis
    using 3 by (auto simp: handle_notify_def wp_bind wp_on_err wp_basic wp_mod intro!: *)
qed (use assms in \<open>auto simp: handle_set_extranonce_def handle_set_version_mask_def handle_unknown_v1_def
    handle_client_reconnect_def handle_ping_def wp_simps tr_inv_def split: wp_case_splits\<close>)

lemma inv_v1:
  assumes "tr_inv s"
  shows "wp (handle_v1 E rpc) (\<lambda>_. tr_inv) (\<lambda>_ _. True) (\<lambda>_. True) s"
  using assms inv_visit [OF assms] inv_requests_v1 [OF assms]
  by (cases "rpc_get_id rpc")
    (simp_all add: handle_v1_def handle_unknown_v1_def handle_stratum_result_def handle_stratum_error_def
      dispatch_v1_def wp_basic split: sum.split)

lemma wp_submit_v1I:
  assumes "\<And>i mp tx. Q (v1_req_id s) (s\<lparr>v1_req_id := i, v1_req_map := mp, v1_tx := tx\<rparr>)"
    and "\<And>e i mp tx. R e (s\<lparr>v1_req_id := i, v1_req_map := mp, v1_tx := tx\<rparr>)"
  shows "wp (submit_v1_request_message E req rh eh) Q R (\<lambda>_. True) s"
  using assms by (simp add: wp_submit_v1 Let_def split: prod.splits sum.splits)

lemmas wp_rules = wp_basic wp_eta wp_mod wp_bind wp_then wp_on_err wp_map_err wp_lift wp_expect wp_submit_v2
  wp_capacity wp_extra_nonce2

lemma inv_setup_connection:
  assumes "tr_inv s"
  shows "wp (handle_setup_connection E m) (\<lambda>_. tr_inv) (\<lambda>_ _. True) (\<lambda>_. True) s"
  using assms
  by (auto simp: handle_setup_connection_def only_once_def expect_str_def wp_rules tr_inv_def
      intro!: wp_submit_v1I split: wp_case_splits)

definition set_up :: "translation \<Rightarrow> bool" where
  "set_up s \<longleftrightarrow> tr_inv s \<and> v2_conn_details s \<noteq> None"

lemma set_up_submit_v1:
  assumes "set_up s" and "\<And>i s'. set_up s' \<Longrightarrow> Q i s'"
  shows "wp (submit_v1_request_message E req rh eh) Q (\<lambda>_ _. True) (\<lambda>_. True) s"
  using assms by (intro wp_submit_v1I) (simp_all add: set_up_def tr_inv_def)

lemma inv_open_channel:
  assumes "tr_inv s"
  shows "wp (handle_open_standard_mining_channel E m) (\<lambda>_. tr_inv) (\<lambda>_ _. True) (\<lambda>_. True) s"
proof -
  have "set_up (s\<lparr>v2_tx := tx, v2_channel_details := Some m, state := OpenStandardMiningChannelPending\<rparr>)"
    "set_up (s\<lparr>v2_channel_details := Some m, state := OpenStandardMiningChannelPending\<rparr>)"
    if "v2_conn_details s \<noteq> None" for tx
    using assms that by (simp_all add: tr_inv_def set_up_def)
  moreover have "tr_inv s'" if "set_up s'" for s'
    using that by (simp add: set_up_def)
  ultimately show ?thesis
    using assms
    by (auto simp: handle_open_standard_mining_channel_def out_of_sequence_def subscribe_and_authorize_def
        expect_str_def wp_rules intro!: set_up_submit_v1 split: option.splits prod.splits sum.splits)
qed

text \<open>A share that the proxy refuses itself: the answer waits while other shares are pending.\<close>

lemma inv_reject_v2:
  assumes "tr_inv s" and "\<And>e s'. tr_inv s' \<Longrightarrow> R e s'"
  shows "wp (reject_shares E c (SeqV2 n) msg) (\<lambda>_. tr_inv) R (\<lambda>_. True) s"
proof -
  have "queue_ready (v2_submit_share_queue s)" using assms(1) by (simp add: tr_inv_def)
  then show ?thesis
    using assms
    by (auto simp: reject_shares_def account_def error_code_def expect_str_def wp_simps Let_def
        submit_share_response_def submit_queued_share_responses_def
        intro!: tr_inv_queue queue_ready_append(2) split: wp_case_splits)
qed

lemma inv_submit_shares:
  assumes "tr_inv s"
  shows "wp (handle_submit_shares_standard E m) (\<lambda>_. tr_inv) (\<lambda>_ _. True) (\<lambda>_. True) s"
proof -
  let ?s = "s\<lparr>last_submit := Some (clock s)\<rparr>"
  have s: "tr_inv ?s" "queue_ready (v2_submit_share_queue s)" using assms by (simp_all add: tr_inv_def)
  have r: "wp (reject_shares E c (SeqV2 n) msg) (\<lambda>_. tr_inv) (\<lambda>_. tr_inv) (\<lambda>_. True) s'"
    if "tr_inv s'" for c n msg s'
    by (rule inv_reject_v2 [OF that])
  have i: "tr_inv (?s\<lparr>v1_req_id := i, v1_req_map := mp, v1_tx := tx\<rparr>)" if "v2_channel_details s \<noteq> None" for i mp tx
    using assms that by (simp add: tr_inv_def)
  have c: "wp p (\<lambda>_ _. True) (\<lambda>_ _. True) (\<lambda>_. True) s'" for p :: "unit proc" and s'
    by (auto simp: wp_def split: prod.splits outcome.splits)
  show ?thesis
    using s i
    by (auto simp: handle_submit_shares_standard_def wp_rules r c
        intro!: wp_submit_v1I tr_inv_queue queue_ready_append(1) split: option.splits sum.splits)
qed

lemma inv_v2:
  assumes "tr_inv s"
  shows "wp (v2_handle_frame E f) (\<lambda>_. tr_inv) (\<lambda>_ _. True) (\<lambda>_. True) s"
proof -
  have "wp (handle_message_v2 E f m) (\<lambda>_. tr_inv) (\<lambda>_ _. True) (\<lambda>_. True) s" for m
    using assms inv_setup_connection inv_open_channel inv_submit_shares
    by (cases m) (simp_all add: handle_unknown_v2_def wp_basic)
  then have "wp (dispatch_v2 E k f) (\<lambda>_. tr_inv) (\<lambda>_ _. True) (\<lambda>_. True) s" for k
    by (simp add: dispatch_v2_def handle_unknown_v2_def wp_basic split: sum.splits)
  with assms show ?thesis
    by (simp add: v2_handle_frame_def handle_v2_def handle_unknown_v2_def wp_basic)
qed

lemma inv_event: "tr_inv s \<Longrightarrow> wp (handle_event E e) (\<lambda>_. tr_inv) (\<lambda>_ _. True) (\<lambda>_. True) s"
  by (simp add: handle_event_def inv_v1 inv_v2 split: event.splits)

lemma run_tr_inv: "run E safe es s \<Longrightarrow> tr_inv s"
proof (induction rule: run.induct)
  case (run_new opts ms)
  then show ?case by (simp add: tr_inv_def translation_new_def)
next
  case (run_env es s r2 c r1)
  then show ?case by simp
next
  case (run_step es s e s')
  from wp_DoneD [OF inv_event [OF run_step.IH] run_step.hyps(2)] show ?case .
qed

section \<open>Fresh identifiers and panics\<close>

text \<open>
  \<open>ids k j s\<close>: at most \<open>k\<close> requests and \<open>j\<close> jobs have been numbered, and every registered number is
  below the next one; jobs and pending shares exist only once the target is known.
\<close>

definition ids :: "nat \<Rightarrow> nat \<Rightarrow> translation \<Rightarrow> bool" where
  "ids k j s \<longleftrightarrow>
     unat (v1_req_id s) \<le> k \<and> (\<forall>i \<in> fst ` set (v1_req_map s). i < v1_req_id s) \<and>
     unat (v2_job_id s) \<le> j \<and> (\<forall>i \<in> fst ` set (v2_to_v1_job_map s). i < v2_job_id s) \<and>
     (v2_target s = None \<longrightarrow> v2_to_v1_job_map s = [] \<and>
        (\<forall>h \<in> snd ` set (v1_req_map s). v1_stratum_result_handler h \<noteq> HandleSubmitResult))"

definition plain :: "nat \<Rightarrow> nat \<Rightarrow> (string \<Rightarrow> bool) \<Rightarrow> 'a proc \<Rightarrow> translation \<Rightarrow> bool" where
  "plain k j N m s \<longleftrightarrow> wp m (\<lambda>_. ids k j) (\<lambda>_. ids k j) N s"

lemma ids_mono: "ids k j s \<Longrightarrow> k \<le> k' \<Longrightarrow> j \<le> j' \<Longrightarrow> ids k' j' s"
  by (auto simp: ids_def)

lemma ids_frame [simp]:
  "ids k j (s\<lparr>v2_tx := tx\<rparr>) = ids k j s" "ids k j (s\<lparr>v1_tx := tx1\<rparr>) = ids k j s"
  "ids k j (s\<lparr>clock := c\<rparr>) = ids k j s" "ids k j (s\<lparr>metrics := ms\<rparr>) = ids k j s"
  "ids k j (s\<lparr>last_submit := l\<rparr>) = ids k j s" "ids k j (s\<lparr>v1_xnsub_enabled := x\<rparr>) = ids k j s"
  "ids k j (s\<lparr>state := st\<rparr>) = ids k j s" "ids k j (s\<lparr>v1_extra_nonce1 := en\<rparr>) = ids k j s"
  "ids k j (s\<lparr>v1_extra_nonce2_size := es\<rparr>) = ids k j s" "ids k j (s\<lparr>v1_authorized := a\<rparr>) = ids k j s"
  "ids k j (s\<lparr>v1_deferred_notify := d\<rparr>) = ids k j s" "ids k j (s\<lparr>v2_conn_details := cd\<rparr>) = ids k j s"
  "ids k j (s\<lparr>v2_channel_details := chd\<rparr>) = ids k j s"
  "ids k j (s\<lparr>v2_submit_share_queue := q\<rparr>) = ids k j s"
  by (simp_all add: ids_def)

lemma ids_target: "ids k j s \<Longrightarrow> ids k j (s\<lparr>v2_target := Some t\<rparr>)"
  by (simp add: ids_def)

lemma ids_remove: "ids k j s \<Longrightarrow> ids k j (s\<lparr>v1_req_map := hm_remove i (v1_req_map s)\<rparr>)"
  by (auto simp: ids_def hm_remove_def)

lemma word_Suc_less:
  fixes x :: u32
  assumes "unat x \<le> k" and "k + 1 < 2 ^ 32"
  shows "unat (x + 1) = unat x + 1" and "i < x \<Longrightarrow> i < x + 1" and "x < x + 1"
proof -
  show "unat (x + 1) = unat x + 1"
    using assms by (simp add: unat_word_ariths)
  then show "i < x \<Longrightarrow> i < x + 1" and "x < x + 1"
    by (simp_all add: word_less_nat_alt)
qed

lemma map_of_above: "\<forall>i \<in> fst ` set m. i < (x :: u32) \<Longrightarrow> map_of m x = None"
  by (auto simp: map_of_eq_None_iff)

lemma ids_request:
  assumes "ids k j s" and "k + 1 < 2 ^ 32"
    and "v2_target s = None \<longrightarrow> v1_stratum_result_handler h \<noteq> HandleSubmitResult"
  shows "map_of (v1_req_map s) (v1_req_id s) = None"
    and "ids (k + 1) j (s\<lparr>v1_req_id := v1_req_id s + 1, v1_req_map := hm_insert (v1_req_id s) h (v1_req_map s)\<rparr>)"
  using assms word_Suc_less [of "v1_req_id s" k]
  by (auto simp: ids_def hm_insert_def intro: map_of_above)

lemma ids_job:
  assumes "ids k j s" and "j + 1 < 2 ^ 32" and "v2_target s \<noteq> None" and "set m \<subseteq> set (v2_to_v1_job_map s)"
  shows "map_of m (v2_job_id s) = None"
    and "ids k (j + 1) (s\<lparr>v2_job_id := v2_job_id s + 1, v2_to_v1_job_map := hm_insert (v2_job_id s) t m\<rparr>)"
    and "ids k (j + 1) (s\<lparr>v2_job_id := v2_job_id s + 1, v2_to_v1_job_map := m\<rparr>)"
    and "ids k (j + 1) (s\<lparr>v2_job_id := v2_job_id s + 1\<rparr>)"
proof -
  have m: "\<forall>i \<in> fst ` set m. i < v2_job_id s" using assms(1,4) by (auto simp: ids_def)
  then show "map_of m (v2_job_id s) = None" by (rule map_of_above)
  show "ids k (j + 1) (s\<lparr>v2_job_id := v2_job_id s + 1, v2_to_v1_job_map := hm_insert (v2_job_id s) t m\<rparr>)"
    "ids k (j + 1) (s\<lparr>v2_job_id := v2_job_id s + 1, v2_to_v1_job_map := m\<rparr>)"
    "ids k (j + 1) (s\<lparr>v2_job_id := v2_job_id s + 1\<rparr>)"
    using assms(1,2,3) m word_Suc_less [of "v2_job_id s" j] by (auto simp: ids_def hm_insert_def)
qed

text \<open>
  The coinbase of a job, with the pool's extra nonce and the channel's own, has to fit into an allocation;
  \<open>deferred_fits\<close> says so of the job that waits for the channel to open.
\<close>

definition coin_base_size :: "notify \<Rightarrow> bytes \<Rightarrow> nat \<Rightarrow> nat" where
  "coin_base_size n extra_nonce1 extra_nonce2_size =
     length (n_coin_base_1 n) + length extra_nonce1 + extra_nonce2_size + length (n_coin_base_2 n)"

definition job_fits :: "notify \<Rightarrow> translation \<Rightarrow> bool" where
  "job_fits n s =
     (case v1_extra_nonce1 s of
        None \<Rightarrow> True
      | Some extra_nonce1 \<Rightarrow> coin_base_size n extra_nonce1 (v1_extra_nonce2_size s) \<le> ISIZE_MAX)"

definition deferred_fits :: "translation \<Rightarrow> bool" where
  "deferred_fits s = (case v1_deferred_notify s of None \<Rightarrow> True | Some n \<Rightarrow> job_fits n s)"

lemma fits_frame [simp]:
  "job_fits n (s\<lparr>v2_tx := tx\<rparr>) = job_fits n s" "job_fits n (s\<lparr>state := st\<rparr>) = job_fits n s"
  "job_fits n (s\<lparr>v1_deferred_notify := d\<rparr>) = job_fits n s" "job_fits n (s\<lparr>v1_req_map := mp\<rparr>) = job_fits n s"
  "job_fits n (s\<lparr>metrics := ms\<rparr>) = job_fits n s" "job_fits n (s\<lparr>v1_authorized := a\<rparr>) = job_fits n s"
  "job_fits n (s\<lparr>v2_target := tg\<rparr>) = job_fits n s"
  by (simp_all add: job_fits_def split: option.split)

lemma deferred_frame [simp]:
  "deferred_fits (s\<lparr>v1_req_map := mp\<rparr>) = deferred_fits s" "deferred_fits (s\<lparr>metrics := ms\<rparr>) = deferred_fits s"
  "deferred_fits (s\<lparr>v1_authorized := a\<rparr>) = deferred_fits s" "deferred_fits (s\<lparr>v2_target := tg\<rparr>) = deferred_fits s"
  by (simp_all add: deferred_fits_def split: option.split)

lemma plain_notify:
  assumes "ids k j s" and "j + 1 < 2 ^ 32" and "v2_target s \<noteq> None"
    and "job_fits n s \<or> N ''capacity overflow''"
  shows "plain k (j + 1) N (perform_notify E n) s"
proof -
  note m = ids_job [OF assms(1-3), of "v2_to_v1_job_map s"] ids_job [OF assms(1-3), of "[]"]
  have "ids k (j + 1) s" by (rule ids_mono [OF assms(1)]) simp_all
  with m assms(4) show ?thesis
    by (auto simp: plain_def perform_notify_def calculate_merkle_root_def build_set_new_prev_hash_def
        next_id_def wp_rules Let_def job_fits_def coin_base_size_def split: wp_case_splits)
qed

lemma plain_finalize:
  assumes "ids k j s" and "j + 1 < 2 ^ 32" and "v2_target s \<noteq> None"
    and "deferred_fits s \<or> N ''capacity overflow''"
  shows "plain k (j + 1) N (finalize_open_channel E) s"
proof -
  have "wp (perform_notify E n) (\<lambda>_. ids k (j + 1)) (\<lambda>_. ids k (j + 1)) N s'"
    if "ids k j s'" "v2_target s' \<noteq> None" "job_fits n s' \<or> N ''capacity overflow''" for n s'
    using plain_notify [where N = N, OF that(1) assms(2) that(2,3)] by (simp add: plain_def)
  moreover have "ids k (j + 1) s" by (rule ids_mono [OF assms(1)]) simp_all
  ultimately show ?thesis
    using assms(1,3,4)
    by (auto simp: plain_def finalize_open_channel_def wp_rules deferred_fits_def split: wp_case_splits)
qed

lemma wp_abort_ids:
  assumes "ids k j s" and "length m \<le> 32" and "\<And>s'. ids k j s' \<Longrightarrow> Q () s'"
  shows "wp (abort_open_channel E m) Q R N s"
  using assms
  by (auto simp: abort_open_channel_def expect_str_def sized_from_def sized_try_from_def
      wp_rules split: wp_case_splits)

lemma wp_abort_with_ids:
  assumes "ids k j s" and "length m \<le> 32"
  shows "wp (abort_with E m e) Q (\<lambda>_. ids k j) N s"
  unfolding abort_with_def wp_bind
  by (rule wp_abort_ids [OF assms]) (simp add: wp_basic)

lemma plain_abort_with: "ids k j s \<Longrightarrow> length m \<le> 32 \<Longrightarrow> plain k j N (abort_with E m e) s"
  by (simp add: plain_def wp_abort_with_ids)

lemma plain_on_err:
  assumes "plain k j N m s" and "\<And>e s'. ids k j s' \<Longrightarrow> plain k j N (h e) s'"
  shows "plain k j N (on_err m h) s"
  using assms(1) unfolding plain_def wp_on_err
  by (rule wp_mono) (use assms(2) in \<open>simp_all add: plain_def\<close>)

lemma plain_bind:
  assumes "plain k j N m s" and "\<And>x s'. ids k j s' \<Longrightarrow> plain k j N (f x) s'"
  shows "plain k j N (tbind m f) s"
  using assms(1) unfolding plain_def wp_bind
  by (rule wp_mono) (use assms(2) in \<open>simp_all add: plain_def\<close>)

lemma plain_basic:
  "ids k j s \<Longrightarrow> plain k j N (treturn x) s"
  "ids k j s \<Longrightarrow> plain k j N (fail e) s"
  "ids k j s \<Longrightarrow> plain k j N (tget f) s"
  by (simp_all add: plain_def wp_basic)

lemma plain_lift: "ids k j s \<Longrightarrow> plain k j N (tlift r) s"
  by (simp add: plain_def wp_lift split: sum.splits)

lemma plain_submit_v2: "ids k j s \<Longrightarrow> plain k j N (submit_v2_message E m) s"
  by (simp add: plain_def wp_submit_v2 split: sum.splits prod.splits)

lemma plain_configure:
  assumes "ids k j s"
  shows "plain k j N (handle_configure_result E i p) s" and "plain k j N (handle_configure_error E i e) s"
  using assms
  by (auto simp: plain_def handle_configure_result_def handle_configure_error_def setup_refused_def
      expect_str_def sized_from_def sized_try_from_def wp_rules split: wp_case_splits)

lemma plain_extranonce:
  assumes "ids k j s"
  shows "plain k j N (handle_extranonce_subscribe_result E i p) s"
    and "plain k j N (handle_extranonce_subscribe_error E i e) s"
  using assms by (auto simp: plain_def handle_extranonce_subscribe_result_def
      handle_extranonce_subscribe_error_def wp_rules split: wp_case_splits)

text \<open>The job that waits fits with the extra nonce that a subscription gives.\<close>

definition subscription_fits :: "tr_env \<Rightarrow> json_value \<Rightarrow> translation \<Rightarrow> bool" where
  "subscription_fits E v s =
     (case subscribe_result_of (libs E) v of
        Inl e \<Rightarrow> True
      | Inr r \<Rightarrow> deferred_fits (s\<lparr>v1_extra_nonce1 := Some (sr_extra_nonce_1 r),
                                    v1_extra_nonce2_size := sr_extra_nonce_2_size r\<rparr>))"

lemma subscription_frame [simp]:
  "subscription_fits E v (s\<lparr>v1_req_map := mp\<rparr>) = subscription_fits E v s"
  "subscription_fits E v (s\<lparr>metrics := ms\<rparr>) = subscription_fits E v s"
  by (simp_all add: subscription_fits_def deferred_fits_def job_fits_def split: sum.split option.split)

lemma plain_subscribe_result:
  assumes "ids k j s" and "j + 1 < 2 ^ 32" and "subscription_fits E p s \<or> N ''capacity overflow''"
  shows "plain k (j + 1) N (handle_subscribe_result E i p) s"
proof -
  have "plain k (j + 1) N (on_err (finalize_open_channel E) (abort_with E ''Upstream subscribe failed'')) s'"
    if "ids k j s'" "v2_target s' \<noteq> None" "deferred_fits s' \<or> N ''capacity overflow''" for s'
    by (intro plain_on_err plain_finalize plain_abort_with that assms(2)) simp_all
  moreover have "ids k (j + 1) s" by (rule ids_mono [OF assms(1)]) simp_all
  ultimately show ?thesis
    using assms(1,3) by (auto simp: plain_def handle_subscribe_result_def wp_bind wp_on_err wp_lift wp_then
        wp_mod wp_basic wp_abort_with_ids subscription_fits_def result_simps split: wp_case_splits)
qed

lemma plain_authorize_result:
  assumes "ids k j s" and "j + 1 < 2 ^ 32" and "deferred_fits s \<or> N ''capacity overflow''"
  shows "plain k (j + 1) N (handle_authorize_result E i p) s"
proof -
  have "plain k (j + 1) N (finalize_open_channel E) s'"
    if "ids k j s'" "v2_target s' \<noteq> None" "deferred_fits s' \<or> N ''capacity overflow''" for s'
    by (intro plain_finalize that assms(2))
  moreover have "ids k (j + 1) s" by (rule ids_mono [OF assms(1)]) simp_all
  ultimately show ?thesis
    using assms(1,3) unfolding handle_authorize_result_def
    by (intro plain_on_err plain_abort_with)
      (auto simp: plain_def wp_bind wp_lift wp_then wp_mod wp_basic split: wp_case_splits)
qed

lemma plain_request_error:
  assumes "ids k j s"
  shows "plain k j N (handle_authorize_or_subscribe_error E i e) s"
  using assms
  by (auto simp: plain_def handle_authorize_or_subscribe_error_def wp_bind wp_basic wp_abort_with_ids)

subsection \<open>Shares\<close>

lemma plain_send_queued: "ids k j s \<Longrightarrow> plain k j N (send_queued_errors E q) s"
  by (induction q arbitrary: s rule: send_queued_errors.induct)
    (auto simp: plain_def wp_then wp_mod wp_basic wp_submit_v2 split: prod.splits sum.splits)

lemma plain_share_response: "ids k j s \<Longrightarrow> plain k j N (submit_share_response E m) s"
  using plain_send_queued [of k j _ N E]
  by (auto simp: plain_def submit_share_response_def submit_queued_share_responses_def wp_then wp_bind
      wp_basic wp_submit_v2 split: prod.splits sum.splits)

lemma plain_get_seq: "ids k j s \<Longrightarrow> plain k j N (get_v2_submit_shares_seq_num i) s"
  by (auto simp: plain_def get_v2_submit_shares_seq_num_def wp_simps
      split: option.splits list.splits submit_share.splits)

definition code_ok :: "bytes \<Rightarrow> bool" where
  "code_ok msg \<longleftrightarrow> is_char_boundary msg (min (length msg) 32)"

definition off_boundary :: string where
  "off_boundary = ''byte index 32 is not a char boundary''"

lemma wp_error_code [wp_simps]:
  "wp (error_code msg) Q R N s = (if code_ok msg then Q (take 32 msg) s else N off_boundary)"
  by (auto simp: error_code_def code_ok_def off_boundary_def Let_def expect_str_def sized_from_def
      sized_try_from_def wp_simps min_def)

lemma plain_reject:
  assumes "ids k j s" and "\<not> code_ok msg \<Longrightarrow> N off_boundary"
  shows "plain k j N (reject_shares E c sn msg) s"
proof -
  have *: "plain k j N (tbind (tget v2_target) (\<lambda>target. tthen (account (AccountRejectedShare target)) (
     tbind (error_code msg) (\<lambda>code.
     let msg = \<lparr>sserr_channel_id = c, sserr_seq_num = seq, sserr_code = code\<rparr>
     in if submit then submit_share_response E (M_SubmitSharesError msg)
        else tmod (\<lambda>s. s\<lparr>v2_submit_share_queue := v2_submit_share_queue s @ [QueuedError msg]\<rparr>))))) s'"
    if "ids k j s'" for seq submit s'
    using that assms(2) plain_share_response [of k j _ N E]
    by (auto simp: plain_def account_def wp_simps Let_def)
  show ?thesis
    unfolding reject_shares_def
    by (rule plain_bind)
      (auto simp: assms(1) intro!: * plain_bind plain_get_seq plain_basic split: seq_num.splits)
qed

definition missing_details :: "string set" where
  "missing_details = {''BUG: Missing channel details'', ''BUG: V2 channel details missing''}"

text \<open>The texts of rejected shares can be cut after 32 bytes.\<close>

definition texts_ok :: "tr_env \<Rightarrow> bool" where
  "texts_ok E \<longleftrightarrow>
     (\<forall>v. code_ok (ascii ''ShareRjct:'' @ fmt_result E v)) \<and>
     (\<forall>e. code_ok (ascii ''ShareRjct:'' @ fmt_error E e))"

text \<open>The allocations that a message leads to fit; whether they do is a parameter of \<open>may_panic\<close>.\<close>

definition sizes_fit :: "tr_env \<Rightarrow> event \<Rightarrow> translation \<Rightarrow> bool" where
  "sizes_fit E e s =
     (case e of
        V2Event f \<Rightarrow> v1_extra_nonce2_size s \<le> ISIZE_MAX
      | V1Event rpc \<Rightarrow>
          deferred_fits s \<and>
          (case request_of_rpc (libs E) (rpc_get_id rpc) rpc of Inr (_, ReqNotify n) \<Rightarrow> job_fits n s | _ \<Rightarrow> True) \<and>
          (case result_of_rpc rpc of Inr (_, v) \<Rightarrow> subscription_fits E v s | Inl _ \<Rightarrow> True))"

definition may_panic :: "tr_env \<Rightarrow> bool \<Rightarrow> translation \<Rightarrow> string \<Rightarrow> bool" where
  "may_panic E fit s p \<longleftrightarrow>
     (v2_channel_details s = None \<and> p \<in> missing_details) \<or> (\<not> texts_ok E \<and> p = off_boundary) \<or>
     (\<not> fit \<and> p = ''capacity overflow'')"

lemma plain_submit_result:
  assumes "ids k j s" and "v2_target s \<noteq> None" and "v2_channel_details s0 = v2_channel_details s"
  shows "plain k j (may_panic E fit s0) (handle_submit_result E i p) s"
proof -
  have "plain k j (may_panic E fit s0) (accept_shares E i n) s'" if "ids k j s'" for n s'
    unfolding accept_shares_def by (intro plain_bind plain_get_seq plain_share_response that)
  moreover have "plain k j (may_panic E fit s0)
    (reject_shares E CHANNEL_ID (SeqV1 i) (ascii ''ShareRjct:'' @ fmt_result E p)) s"
    by (intro plain_reject assms(1)) (auto simp: may_panic_def texts_ok_def)
  ultimately show ?thesis
    using assms
    by (auto simp: plain_def handle_submit_result_def account_def wp_rules may_panic_def missing_details_def
        split: option.splits sum.splits)
qed

lemma plain_submit_error:
  assumes "ids k j s"
  shows "plain k j (may_panic E fit s0) (handle_submit_error E i e) s"
  unfolding handle_submit_error_def
  by (intro plain_reject assms) (auto simp: may_panic_def texts_ok_def)

lemma plain_mono:
  assumes "plain k j N m s" and "k \<le> k'" and "j \<le> j'" and "\<And>p. N p \<Longrightarrow> N' p"
  shows "plain k' j' N' m s"
  using assms(1) unfolding plain_def by (rule wp_mono) (use assms in \<open>auto intro: ids_mono\<close>)

lemma plain_error_handler:
  assumes "ids k j s"
  shows "plain k j (may_panic E fit s0) (run_error_handler E h i e) s"
  by (cases h) (simp_all only: run_error_handler.simps plain_configure [OF assms] plain_extranonce [OF assms]
      plain_request_error [OF assms] plain_submit_error [OF assms])

lemma plain_result_handler:
  assumes "ids k j s" and "j + 1 < 2 ^ 32" and "v2_channel_details s0 = v2_channel_details s"
    and "h = HandleSubmitResult \<Longrightarrow> v2_target s \<noteq> None"
    and "fit \<Longrightarrow> deferred_fits s" and "fit \<Longrightarrow> subscription_fits E p s"
  shows "plain k (j + 1) (may_panic E fit s0) (run_result_handler E h i p) s"
proof -
  have i: "ids k (j + 1) s" by (rule ids_mono [OF assms(1)]) simp_all
  have o: "deferred_fits s \<or> may_panic E fit s0 ''capacity overflow''"
    "subscription_fits E p s \<or> may_panic E fit s0 ''capacity overflow''"
    using assms(5,6) by (auto simp: may_panic_def)
  show ?thesis
  proof (cases h)
    case HandleSubmitResult
    have "v2_target s \<noteq> None" by (rule assms(4) [OF HandleSubmitResult])
    from plain_submit_result [OF i this assms(3)] HandleSubmitResult show ?thesis by simp
  qed (simp_all only: run_result_handler.simps plain_configure [OF i] plain_extranonce [OF i]
      plain_subscribe_result [where N = "may_panic E fit s0", OF assms(1,2) o(2)]
      plain_authorize_result [where N = "may_panic E fit s0", OF assms(1,2) o(1)])
qed

lemma plain_visit:
  assumes "ids k j s" and "j + 1 < 2 ^ 32"
    and fits: "fit \<Longrightarrow> deferred_fits s" "\<And>v. fit \<Longrightarrow> p = ResultPayload v \<Longrightarrow> subscription_fits E v s"
  shows "plain k (j + 1) (may_panic E fit s) (visit_stratum_result_or_error E i p) s"
proof -
  have f: "ids k (j + 1) s" by (rule ids_mono [OF assms(1)]) simp_all
  have t: "v2_target s \<noteq> None"
    if "map_of (v1_req_map s) n = Some h" "v1_stratum_result_handler h = HandleSubmitResult" for n h
  proof -
    from that(1) have "h \<in> snd ` set (v1_req_map s)" by (rule image_eqI [OF _ map_of_SomeD, rotated]) simp
    with that(2) assms(1) show ?thesis unfolding ids_def by blast
  qed
  have "p = ResultPayload r \<Longrightarrow> plain k (j + 1) (may_panic E fit s) (run_result_handler E (v1_stratum_result_handler h) i r)
      (s\<lparr>v1_req_map := hm_remove n (v1_req_map s), metrics := ms\<rparr>)"
    "plain k (j + 1) (may_panic E fit s) (run_error_handler E h' i e)
      (s\<lparr>v1_req_map := hm_remove n (v1_req_map s), metrics := ms\<rparr>)"
    if "map_of (v1_req_map s) n = Some h" for h r h' e n ms i
  proof -
    have "ids k j (s\<lparr>v1_req_map := hm_remove n (v1_req_map s), metrics := ms\<rparr>)"
      using ids_remove [OF assms(1)] by simp
    note p = plain_result_handler [OF this assms(2), of s]
    show "plain k (j + 1) (may_panic E fit s) (run_result_handler E (v1_stratum_result_handler h) i r)
        (s\<lparr>v1_req_map := hm_remove n (v1_req_map s), metrics := ms\<rparr>)" if "p = ResultPayload r"
      by (rule p) (use t [OF \<open>map_of (v1_req_map s) n = Some h\<close>] fits that in simp_all)
    show "plain k (j + 1) (may_panic E fit s) (run_error_handler E h' i e)
        (s\<lparr>v1_req_map := hm_remove n (v1_req_map s), metrics := ms\<rparr>)"
      by (rule plain_error_handler) (use ids_mono [OF assms(1)] ids_remove in simp_all)
  qed
  with f show ?thesis
    by (auto simp: plain_def visit_stratum_result_or_error_def account_def wp_rules
        split: option.splits v1_result_or_error.splits)
qed

lemma plain_set_difficulty:
  assumes "ids k j s" and "j + 1 < 2 ^ 32" and "deferred_fits s \<or> N ''capacity overflow''"
  shows "plain k (j + 1) N (handle_set_difficulty E p) s"
proof -
  have f: "ids k (j + 1) (s\<lparr>v2_target := Some x\<rparr>)" for x
    by (rule ids_mono [OF ids_target [OF assms(1)]]) simp_all
  have "wp (finalize_open_channel E) (\<lambda>_. ids k (j + 1)) (\<lambda>_. ids k (j + 1)) N (s\<lparr>v2_target := Some x\<rparr>)" for x
    by (rule plain_finalize [unfolded plain_def, OF ids_target [OF assms(1)] assms(2)]) (simp_all add: assms(3))
  with f show ?thesis
    by (auto simp: plain_def handle_set_difficulty_def send_set_target_def Let_def wp_rules split: wp_case_splits)
qed

lemma plain_requests_v1:
  assumes "ids k j s" and "j + 1 < 2 ^ 32" and "tr_inv s"
    and fits: "deferred_fits s \<or> N ''capacity overflow''"
      "\<And>n. snd p = ReqNotify n \<Longrightarrow> job_fits n s \<or> N ''capacity overflow''"
  shows "plain k (j + 1) N (handle_request_v1 E rpc p) s"
proof -
  have f: "ids k (j + 1) s" by (rule ids_mono [OF assms(1)]) simp_all
  show ?thesis
  proof (cases "(E, rpc, p)" rule: handle_request_v1.cases)
    case 1
    with plain_set_difficulty [where N = N, OF assms(1,2) fits(1)] show ?thesis by auto
  next
    case (2 E rpc i e)
    with f show ?thesis by (auto simp: plain_def handle_set_extranonce_def wp_rules)
  next
    case (3 E rpc i n)
    have "plain k (j + 1) N (on_err (perform_notify E n) (\<lambda>e. tbind (tget state) (\<lambda>st. fail (g e st)))) s"
      if "state s = Operational" for g
    proof (intro plain_on_err plain_bind plain_basic)
      have "v2_target s \<noteq> None" using assms(3) that by (simp add: tr_inv_def)
      from plain_notify [where N = N, OF assms(1,2) this fits(2)] 3 show "plain k (j + 1) N (perform_notify E n) s" by simp
    qed
    with 3 f show ?thesis
      by (auto simp: handle_notify_def plain_def wp_bind [of "tget state"] wp_basic wp_mod)
  qed (use f in \<open>auto simp: plain_def handle_set_version_mask_def handle_unknown_v1_def
      handle_client_reconnect_def handle_ping_def wp_simps split: wp_case_splits\<close>)
qed

lemma plain_v1:
  assumes "ids k j s" and "j + 1 < 2 ^ 32" and "tr_inv s"
  shows "plain k (j + 1) (may_panic E (sizes_fit E (V1Event rpc) s) s) (handle_v1 E rpc) s"
proof -
  let ?fit = "sizes_fit E (V1Event rpc) s"
  have i: "ids k (j + 1) s" by (rule ids_mono [OF assms(1)]) simp_all
  have d: "?fit \<Longrightarrow> deferred_fits s" by (simp add: sizes_fit_def)
  have "plain k (j + 1) (may_panic E ?fit s) (visit_stratum_result_or_error E i' (ResultPayload v)) s"
    if "result_of_rpc rpc = Inr (i', v)" for i' v
    by (rule plain_visit [OF assms(1,2)]) (use that in \<open>simp_all add: sizes_fit_def\<close>)
  moreover have "plain k (j + 1) (may_panic E ?fit s) (visit_stratum_result_or_error E i' (ErrorPayload e)) s" for i' e
    by (rule plain_visit [OF assms(1,2)]) (simp_all add: d)
  moreover have "plain k (j + 1) (may_panic E ?fit s) (handle_request_v1 E rpc p) s"
    if "request_of_rpc (libs E) (rpc_get_id rpc) rpc = Inr p" for p
    by (rule plain_requests_v1 [OF assms])
      (use that d in \<open>auto simp: sizes_fit_def may_panic_def split: prod.split_asm\<close>)
  ultimately show ?thesis
    using i
    by (cases "rpc_get_id rpc")
      (simp_all add: handle_v1_def handle_unknown_v1_def handle_stratum_result_def handle_stratum_error_def
        dispatch_v1_def plain_basic split: sum.split)
qed

lemma plain_submit_v1:
  assumes "ids k j s" and "k + 1 < 2 ^ 32" and "request_params (libs E) req \<noteq> None"
    and "v2_target s = None \<Longrightarrow> rh \<noteq> HandleSubmitResult"
  shows "plain (k + 1) j N (submit_v1_request_message E req rh eh) s"
proof -
  let ?h = "pending_handler req rh eh (clock s)"
  have "v2_target s = None \<longrightarrow> v1_stratum_result_handler ?h \<noteq> HandleSubmitResult"
    using assms(4) by (simp add: pending_handler_def)
  from ids_request [OF assms(1,2) this] assms(3) show ?thesis
    by (auto simp: plain_def wp_submit_v1 Let_def split: prod.splits sum.splits)
qed

lemma plain_seq:
  assumes "plain k j N m s" and "\<And>x s'. ids k j s' \<Longrightarrow> plain k' j' N (f x) s'" and "k \<le> k'" and "j \<le> j'"
  shows "plain k' j' N (tbind m f) s"
  using assms(1) unfolding plain_def wp_bind
  by (rule wp_mono) (use assms(2-) in \<open>auto simp: plain_def intro: ids_mono\<close>)

lemma plain_map_err: "plain k j N m s \<Longrightarrow> plain k j N (tmap_err f m) s"
  by (simp add: plain_def wp_map_err)

lemma plain_tget: "plain k j N (f (g s)) s \<Longrightarrow> plain k j N (tbind (tget g) f) s"
  by (simp add: plain_def wp_bind wp_basic)

lemma plain_tmod: "plain k j N m (g s) \<Longrightarrow> plain k j N (tthen (tmod g) m) s"
  by (simp add: plain_def wp_then wp_mod)

lemma plain_expect_str:
  "min_len n = 0 \<Longrightarrow> length c \<le> max_len n \<Longrightarrow> ids k j s \<Longrightarrow> plain k j N (expect_str n c) s"
  by (simp add: plain_def expect_str_def sized_from_def sized_try_from_def wp_expect)

lemma plain_errors:
  assumes "ids k j s"
  shows "plain k j N (only_once E m) s" and "plain k j N (out_of_sequence E m') s"
  using assms unfolding only_once_def out_of_sequence_def
  by (auto intro!: plain_bind plain_expect_str plain_map_err plain_submit_v2)

lemma plain_setup_connection:
  assumes "ids k j s" and "k + 1 < 2 ^ 32"
  shows "plain (k + 1) j N (handle_setup_connection E m) s"
  unfolding handle_setup_connection_def tthen_def [of "if _ then _ else _"]
proof (rule plain_tget, rule plain_seq)
  show "plain k j N (if state s \<noteq> Init then only_once E m else treturn ()) s"
    using assms(1) by (simp add: plain_errors plain_basic)
  fix s' u
  assume "ids k j s'"
  then show "plain (k + 1) j N (tthen (tmod (\<lambda>s. s\<lparr>v2_conn_details := Some m\<rparr>)) (
     tbind (tmap_err (setup_connection_error E)
              (submit_v1_request_message E (ReqConfigure (version_configure E))
                 HandleConfigureResult HandleConfigureError)) (\<lambda>i.
     tmod (\<lambda>s. s\<lparr>state := V1Configure\<rparr>)))) s'"
    by (intro plain_tmod plain_bind plain_map_err plain_submit_v1 assms(2))
      (simp_all add: plain_def wp_mod)
qed simp_all

lemma plain_unit_request:
  assumes "ids k j s" and "k + 1 < 2 ^ 32" and "request_params (libs E) req \<noteq> None"
    and "rh \<noteq> HandleSubmitResult"
  shows "plain (k + 1) j N (tbind (tmap_err f (submit_v1_request_message E req rh eh)) (\<lambda>i. treturn ())) s"
  by (intro plain_bind plain_map_err plain_submit_v1 plain_basic assms) assumption

lemma plain_subscribe_and_authorize:
  assumes "ids k j s" and "k + 3 < 2 ^ 32"
  shows "plain (k + 3) j N (subscribe_and_authorize E m c) s"
proof -
  have sub: "plain (k + 1) j N (submit_v1_request_message E (subscribe_request c)
      HandleSubscribeResult HandleAuthorizeOrSubscribeError) s"
    using assms by (intro plain_submit_v1) (simp_all add: subscribe_request_def)
  have xn: "plain (k + 2) j N (if b then
          tbind (tmap_err (open_mining_channel_error E)
            (submit_v1_request_message E ReqExtranonceSubscribe
               HandleExtranonceSubscribeResult HandleExtranonceSubscribeError)) (\<lambda>i. treturn ())
        else treturn ()) s'" if "ids (k + 1) j s'" for b s'
    using plain_unit_request [OF that, of E ReqExtranonceSubscribe] assms(2)
      plain_basic(1) [OF ids_mono [OF that], where x = "()"] by (cases b) simp_all
  have au: "plain (k + 3) j N (tbind (tmap_err (open_mining_channel_error E)
     (submit_v1_request_message E (ReqAuthorize r) HandleAuthorizeResult HandleAuthorizeOrSubscribeError))
       (\<lambda>i. treturn ())) s'" if "ids (k + 2) j s'" for r s'
    using plain_unit_request [OF that, of E "ReqAuthorize r"] assms(2) by (simp add: numeral_3_eq_3)
  show ?thesis
    unfolding subscribe_and_authorize_def tthen_def
    by (auto intro!: plain_tget plain_seq [OF sub] plain_seq [OF xn] au)
qed

lemma plain_open_channel:
  assumes "ids k j s" and "k + 3 < 2 ^ 32"
  shows "plain (k + 3) j N (handle_open_standard_mining_channel E m) s"
  unfolding handle_open_standard_mining_channel_def tthen_def [of "if _ then _ else _"]
proof (rule plain_tget, rule plain_seq)
  show "plain k j N (if state s \<noteq> ConnectionSetup \<and> state s \<noteq> V1SubscribeOrAuthorizeFail
      then out_of_sequence E m else treturn ()) s"
    using assms(1) by (simp add: plain_errors plain_basic)
  fix s' u
  assume "ids k j s'"
  moreover from this have "ids (k + 3) j s'" by (rule ids_mono) simp_all
  ultimately show "plain (k + 3) j N (tbind (tget v2_conn_details) (\<lambda>details. case details of
       None \<Rightarrow> treturn ()
     | Some conn_details \<Rightarrow>
         tthen (tmod (\<lambda>s. s\<lparr>v2_channel_details := Some m, state := OpenStandardMiningChannelPending\<rparr>))
           (subscribe_and_authorize E m conn_details))) s'"
    by (auto split: option.splits intro!: plain_tget plain_tmod plain_basic
        plain_subscribe_and_authorize assms(2))
qed simp_all

lemma code_ok_ascii:
  assumes "list_all (\<lambda>b. b \<le> 0x7F) (take 33 msg)"
  shows "code_ok msg"
proof (cases "length msg \<le> 32")
  case False
  then have "take 33 msg ! 32 \<le> 0x7F" using assms by (auto simp: list_all_length)
  with False show ?thesis
    by (auto simp: code_ok_def is_char_boundary_def utf8_cont_def min_def word_le_nat_alt)
qed (simp add: code_ok_def is_char_boundary_def min_def)

lemma dec_bytes_ascii: "list_all (\<lambda>b. b \<le> 0x7F) (take n (dec_bytes x))"
  using dec_bytes_digits [of x] digit_ascii by (auto simp: list_all_iff dest: in_set_takeD)

lemma list_all_take_append:
  "list_all P (take n xs) \<Longrightarrow> (\<And>m. list_all P (take m ys)) \<Longrightarrow> list_all P (take n (xs @ ys))"
  by simp

lemma code_ok_texts:
  "code_ok (unrecognized_channel c)"
  "code_ok (display_error E (PxGeneral (ascii ''V2 Job ID not present '' @ dec_bytes i @ ascii '' in registry'')))"
  "code_ok (display_error E (PxUpstream x))"
  by (auto simp: unrecognized_channel_def display_error_def ascii_def word_le_nat_alt
      intro!: code_ok_ascii list_all_take_append dec_bytes_ascii [simplified])

lemma wp_submit_v1_ids:
  assumes "ids k j s" and "k + 1 < 2 ^ 32" and "request_params (libs E) req \<noteq> None"
    and "v2_target s = None \<Longrightarrow> rh \<noteq> HandleSubmitResult"
    and "\<And>s'. ids (k + 1) j s' \<Longrightarrow> Q (v1_req_id s) s'"
    and "\<And>x s'. ids (k + 1) j s' \<Longrightarrow> R (PxUpstream x) s'"
  shows "wp (submit_v1_request_message E req rh eh) Q R N s"
proof -
  let ?h = "pending_handler req rh eh (clock s)"
  have "v2_target s = None \<longrightarrow> v1_stratum_result_handler ?h \<noteq> HandleSubmitResult"
    using assms(4) by (simp add: pending_handler_def)
  from ids_request [OF assms(1,2) this] assms(3,5,6) show ?thesis
    by (auto simp: wp_submit_v1 Let_def split: prod.splits sum.splits)
qed

lemma plain_submit_shares:
  assumes "ids k j s" and "k + 1 < 2 ^ 32"
  shows "plain (k + 1) j (may_panic E (v1_extra_nonce2_size s \<le> ISIZE_MAX) s) (handle_submit_shares_standard E m) s"
proof -
  have f: "ids (Suc k) j s" by (rule ids_mono [OF assms(1)]) simp_all
  have r: "wp (reject_shares E c sn msg) (\<lambda>_. ids (Suc k) j) (\<lambda>_. ids (Suc k) j) N s'"
    if "ids (Suc k) j s'" "code_ok msg" for c sn msg N s'
    by (rule plain_reject [unfolded plain_def]) (use that in simp_all)
  have t: "v2_target s \<noteq> None" if "map_of (v2_to_v1_job_map s) i = Some x" for i x
    using assms(1) that by (auto simp: ids_def)
  show ?thesis
    using f assms(1) t
    by (auto simp: plain_def handle_submit_shares_standard_def wp_rules may_panic_def missing_details_def
        ok_or_def code_ok_texts r intro!: wp_submit_v1_ids [OF _ assms(2)] split: option.splits sum.splits)
qed

lemma plain_v2:
  assumes "ids k j s" and "k + 3 < 2 ^ 32"
  shows "plain (k + 3) j (may_panic E (v1_extra_nonce2_size s \<le> ISIZE_MAX) s) (v2_handle_frame E f) s"
proof -
  let ?fit = "v1_extra_nonce2_size s \<le> ISIZE_MAX"
  have k: "k + 1 < 2 ^ 32" "ids (k + 3) j s" using assms(2) ids_mono [OF assms(1)] by simp_all
  have "plain (k + 3) j (may_panic E ?fit s) (handle_message_v2 E f m) s" for m
  proof (cases m)
    case (M_SetupConnection x)
    with plain_mono [OF plain_setup_connection [OF assms(1) k(1)]] show ?thesis by simp
  next
    case (M_SubmitSharesStandard x)
    with plain_mono [OF plain_submit_shares [OF assms(1) k(1)]] show ?thesis by simp
  qed (use plain_open_channel [OF assms] k(2) in \<open>simp_all add: handle_unknown_v2_def plain_basic\<close>)
  with k(2) have "plain (k + 3) j (may_panic E ?fit s) (dispatch_v2 E kd f) s" for kd
    by (simp add: dispatch_v2_def handle_unknown_v2_def plain_basic split: sum.splits)
  with k(2) show ?thesis
    by (simp add: v2_handle_frame_def handle_v2_def handle_unknown_v2_def plain_basic)
qed

lemma plain_event:
  assumes "ids k j s" and "k + 3 < 2 ^ 32" and "j + 1 < 2 ^ 32" and "tr_inv s"
  shows "plain (k + 3) (j + 1) (may_panic E (sizes_fit E e s) s) (handle_event E e) s"
proof (cases e)
  case (V1Event rpc)
  with plain_mono [OF plain_v1 [OF assms(1,3,4)]] show ?thesis by (simp add: handle_event_def)
next
  case (V2Event f)
  with plain_mono [OF plain_v2 [OF assms(1,2)]] show ?thesis by (simp add: handle_event_def sizes_fit_def)
qed

lemma run_ids: "run E safe es s \<Longrightarrow> 3 * length es < 2 ^ 32 \<Longrightarrow> ids (3 * length es) (length es) s"
proof (induction rule: run.induct)
  case (run_new opts ms)
  then show ?case by (simp add: ids_def translation_new_def)
next
  case (run_env es s r2 c r1)
  then show ?case by simp
next
  case (run_step es s e s')
  have "plain (3 * length es + 3) (length es + 1) (may_panic E (sizes_fit E e s) s) (handle_event E e) s"
    using run_step.prems by (intro plain_event run_step.IH run_tr_inv [OF run_step.hyps(1)]) simp_all
  from wp_DoneD [OF this [unfolded plain_def] run_step.hyps(2)] show ?case by (simp add: algebra_simps)
qed

end
