(* ===== verification/Translation_Shares.thy ===== *)
theory Translation_Shares
  imports Translation_Runs
begin

text \<open>
  The order of share responses. \<open>shares\<close> are the sequence numbers of the shares received from the
  client, \<open>answers\<close> those of the responses sent to it, \<open>queued\<close> those in the queue. As long as the
  channel towards the client accepts what it is given, the responses followed by the queue are
  the shares, in the order in which they came: no share is answered twice, out of turn or
  forgotten.

  \<open>maintains I m\<close> says that a method keeps a predicate on every path; the collection of its rules
  follows the structure of methods. The methods that answer shares are treated apart: between
  taking an entry off the queue and sending its response, a response is owed.
\<close>

section \<open>Shares, answers and the queue\<close>

fun answer_of_message :: "v2_message \<Rightarrow> u32 list" where
  "answer_of_message (M_SubmitSharesSuccess m) = [ssok_last_seq_num m]"
| "answer_of_message (M_SubmitSharesError m) = [sserr_seq_num m]"
| "answer_of_message _ = []"

definition answer_of :: "v2_message frame \<Rightarrow> u32 list" where
  "answer_of f = (case frame_payload f of LazyBytes m \<Rightarrow> answer_of_message m | SerializedBytes _ \<Rightarrow> [])"

definition answers :: "translation \<Rightarrow> u32 list" where
  "answers s = concat (map answer_of (sent (v2_tx s)))"

fun queued_seq :: "submit_share \<Rightarrow> u32" where
  "queued_seq (V1ToV2Mapping _ n) = n"
| "queued_seq (QueuedError m) = sserr_seq_num m"

definition queued :: "translation \<Rightarrow> u32 list" where
  "queued s = map queued_seq (v2_submit_share_queue s)"

definition share_of :: "event \<Rightarrow> u32 list" where
  "share_of e =
     (case e of
        V1Event _ \<Rightarrow> []
      | V2Event f \<Rightarrow>
          if extension_type (frame_header f) = BASE \<and> get_id f = msg_id K_SubmitSharesStandard
          then (case message_of_frame K_SubmitSharesStandard f of
                  Inr (M_SubmitSharesStandard m) \<Rightarrow> [sss_seq_num m]
                | _ \<Rightarrow> [])
          else [])"

definition shares :: "event list \<Rightarrow> u32 list" where
  "shares es = concat (map share_of es)"

text \<open>\<open>acct L s\<close>: \<open>L\<close> is answered or queued; \<open>owes n L s\<close>: between the two, \<open>n\<close> has to be answered.\<close>

definition acct :: "u32 list \<Rightarrow> translation \<Rightarrow> bool" where
  "acct L s \<longleftrightarrow> refusals (v2_tx s) = [] \<and> answers s @ queued s = L"

definition owes :: "u32 \<Rightarrow> u32 list \<Rightarrow> translation \<Rightarrow> bool" where
  "owes n L s \<longleftrightarrow> refusals (v2_tx s) = [] \<and> answers s @ n # queued s = L"

lemma acct_frame [simp]:
  "acct L (s\<lparr>v1_tx := tx1\<rparr>) = acct L s" "acct L (s\<lparr>clock := c\<rparr>) = acct L s"
  "acct L (s\<lparr>metrics := ms\<rparr>) = acct L s" "acct L (s\<lparr>last_submit := l\<rparr>) = acct L s"
  "acct L (s\<lparr>v1_xnsub_enabled := x\<rparr>) = acct L s" "acct L (s\<lparr>state := st\<rparr>) = acct L s"
  "acct L (s\<lparr>v1_extra_nonce1 := en\<rparr>) = acct L s" "acct L (s\<lparr>v1_extra_nonce2_size := es\<rparr>) = acct L s"
  "acct L (s\<lparr>v1_authorized := a\<rparr>) = acct L s" "acct L (s\<lparr>v1_deferred_notify := d\<rparr>) = acct L s"
  "acct L (s\<lparr>v2_conn_details := cd\<rparr>) = acct L s" "acct L (s\<lparr>v2_channel_details := chd\<rparr>) = acct L s"
  "acct L (s\<lparr>v2_target := tg\<rparr>) = acct L s" "acct L (s\<lparr>v1_req_id := i\<rparr>) = acct L s"
  "acct L (s\<lparr>v1_req_map := mp\<rparr>) = acct L s" "acct L (s\<lparr>v2_job_id := ji\<rparr>) = acct L s"
  "acct L (s\<lparr>v2_to_v1_job_map := jm\<rparr>) = acct L s" "owes n L (s\<lparr>metrics := ms\<rparr>) = owes n L s"
  by (simp_all add: acct_def owes_def answers_def queued_def)

lemma try_send_accepts:
  "refusals tx = [] \<Longrightarrow> try_send f tx = (Inr (), tx\<lparr>sent := sent tx @ [f], refusals := []\<rparr>)"
  by (simp add: try_send_def)

lemma answer_of_frame [simp]: "answer_of (v2_frame m) = answer_of_message m"
  by (simp add: answer_of_def v2_frame_def)

section \<open>Methods that do not answer shares\<close>

named_theorems maintain_intros \<open>rules for maintains\<close>

definition maintains :: "(translation \<Rightarrow> bool) \<Rightarrow> 'a proc \<Rightarrow> bool" where
  "maintains I m \<longleftrightarrow> (\<forall>s. I s \<longrightarrow> I (snd (m s)))"

lemma maintainsD: "maintains I m \<Longrightarrow> I s \<Longrightarrow> wp m (\<lambda>_. I) (\<lambda>_. I) (\<lambda>_. True) s"
  by (force simp: maintains_def wp_def split: prod.split outcome.split)

lemma maintainsI: "(\<And>s. I s \<Longrightarrow> I (snd (m s))) \<Longrightarrow> maintains I m"
  by (simp add: maintains_def)

lemma maintains_basic [maintain_intros]:
  "maintains I (treturn x)" "maintains I (fail e)" "maintains I (panic p)" "maintains I (tget f)"
  by (simp_all add: maintains_def treturn_def fail_def panic_def tget_def)

lemma maintains_mod [maintain_intros]: "(\<And>s. I s \<Longrightarrow> I (g s)) \<Longrightarrow> maintains I (tmod g)"
  by (simp add: maintains_def tmod_def)

lemma maintains_bind [maintain_intros]:
  assumes "maintains I m" and "\<And>x. maintains I (f x)"
  shows "maintains I (tbind m f)"
proof (rule maintainsI)
  fix s
  assume "I s"
  with assms(1) have "I (snd (m s))" by (simp add: maintains_def)
  with assms(2) show "I (snd (tbind m f s))"
    by (cases "m s") (simp add: tbind_def maintains_def split: outcome.split)
qed

lemma maintains_then [maintain_intros]: "maintains I m \<Longrightarrow> maintains I n \<Longrightarrow> maintains I (tthen m n)"
  by (simp add: tthen_def maintains_bind)

lemma maintains_on_err [maintain_intros]:
  assumes "maintains I m" and "\<And>e. maintains I (h e)"
  shows "maintains I (on_err m h)"
proof (rule maintainsI)
  fix s
  assume "I s"
  with assms(1) have "I (snd (m s))" by (simp add: maintains_def)
  with assms(2) show "I (snd (on_err m h s))"
    by (cases "m s") (simp add: on_err_def maintains_def split: outcome.split)
qed

lemma maintains_map_err [maintain_intros]: "maintains I m \<Longrightarrow> maintains I (tmap_err f m)"
  by (simp add: tmap_err_def maintains_on_err maintains_basic)

lemma maintains_lift [maintain_intros]: "maintains I (tlift r)"
  by (simp add: tlift_def maintains_basic split: sum.splits)

lemma maintains_expect [maintain_intros]: "maintains I (expect p x)"
  by (simp add: expect_def maintains_basic split: option.splits)

lemma maintains_capacity [maintain_intros]: "maintains I (with_capacity n)"
  by (simp add: with_capacity_def maintains_basic)

lemma maintains_extra_nonce2 [maintain_intros]: "maintains I (channel_to_extra_nonce2_bytes c n)"
  by (simp add: channel_to_extra_nonce2_bytes_def Let_def maintains_then maintains_capacity maintains_basic)

lemma maintains_expect_str [maintain_intros]: "maintains I (expect_str n c)"
  by (simp add: expect_str_def maintains_expect)

lemma maintains_if [maintain_intros]: "maintains I m \<Longrightarrow> maintains I n \<Longrightarrow> maintains I (if b then m else n)"
  by simp

lemma maintains_option [maintain_intros]:
  "maintains I m \<Longrightarrow> (\<And>x. maintains I (f x)) \<Longrightarrow> maintains I (case v of None \<Rightarrow> m | Some x \<Rightarrow> f x)"
  by (simp split: option.splits)

lemma maintains_sum [maintain_intros]:
  "(\<And>x. maintains I (f x)) \<Longrightarrow> (\<And>y. maintains I (g y)) \<Longrightarrow> maintains I (case v of Inl x \<Rightarrow> f x | Inr y \<Rightarrow> g y)"
  by (simp split: sum.splits)

lemma maintains_done:
  assumes "maintains I m" and "I s"
  shows "wp m (\<lambda>_. I) (\<lambda>_ _. True) (\<lambda>_. True) s"
  using maintainsD [OF assms] by (rule wp_mono) simp_all

text \<open>
  A predicate is blind to everything but shares when it does not look at the fields that the other methods
  change, and when messages that answer no share keep it. Such a predicate is kept by
  every method that has nothing to do with shares.
\<close>

locale share_blind =
  fixes I :: "translation \<Rightarrow> bool"
  assumes I_frame:
      "I (s\<lparr>v1_tx := tx1\<rparr>) = I s" "I (s\<lparr>v1_xnsub_enabled := x\<rparr>) = I s" "I (s\<lparr>state := st\<rparr>) = I s"
      "I (s\<lparr>v1_extra_nonce1 := en\<rparr>) = I s" "I (s\<lparr>v1_extra_nonce2_size := es\<rparr>) = I s"
      "I (s\<lparr>v1_authorized := a\<rparr>) = I s" "I (s\<lparr>v1_deferred_notify := d\<rparr>) = I s"
      "I (s\<lparr>v2_conn_details := cd\<rparr>) = I s" "I (s\<lparr>v2_channel_details := chd\<rparr>) = I s"
      "I (s\<lparr>v1_req_id := i\<rparr>) = I s" "I (s\<lparr>v1_req_map := mp\<rparr>) = I s" "I (s\<lparr>v2_job_id := ji\<rparr>) = I s"
      "I (s\<lparr>v2_to_v1_job_map := jm\<rparr>) = I s" "I (s\<lparr>last_submit := l\<rparr>) = I s"
    and I_target: "I s \<Longrightarrow> I (s\<lparr>v2_target := Some (diff_to_target (ucast (diff :: u32)))\<rparr>)"
    and I_send: "answer_of_message m = [] \<Longrightarrow> I s \<Longrightarrow> I (s\<lparr>v2_tx := snd (try_send (v2_frame m) (v2_tx s))\<rparr>)"
begin

lemma submit_v2: "answer_of_message m = [] \<Longrightarrow> maintains I (submit_v2_message E m)"
  using I_send
  by (force simp: maintains_def submit_v2_message_def frame_of_message_eq tbind_def send_v2_def Let_def
      fail_def treturn_def split: prod.split sum.split)

lemma send_v1: "maintains I (send_v1 r)"
  by (simp add: maintains_def send_v1_def Let_def I_frame split: prod.split)

lemma submit_v1: "maintains I (submit_v1_request_message E req rh eh)"
  unfolding submit_v1_request_message_def v1_method_into_message_def
  by (intro maintain_intros; (simp only: split_paired_all prod.case)?; (intro maintain_intros send_v1)?; simp add: I_frame)

lemma submit_v1_response: "maintains I (submit_v1_response_message i r)"
  unfolding submit_v1_response_message_def by (intro maintain_intros send_v1)

lemmas I_intros = maintain_intros submit_v2 submit_v1 submit_v1_response

lemma notify: "maintains I (perform_notify E n)"
  unfolding perform_notify_def calculate_merkle_root_def build_set_new_prev_hash_def Let_def
  by (intro I_intros; simp add: I_frame)

lemma finalize: "maintains I (finalize_open_channel E)"
  unfolding finalize_open_channel_def by (intro I_intros notify; simp add: I_frame)

lemma abort: "maintains I (abort_open_channel E m)"
  unfolding abort_open_channel_def by (intro I_intros; simp add: I_frame)

lemma abort_with: "maintains I (abort_with E m e)"
  unfolding abort_with_def by (intro I_intros abort)

lemma requests:
  "maintains I (handle_set_difficulty E p)" "maintains I (handle_set_extranonce E q)"
  "maintains I (handle_notify E r)" "maintains I (handle_client_reconnect E t)"
  "maintains I (handle_ping E t)" "maintains I (handle_setup_connection E u)"
  "maintains I (handle_open_standard_mining_channel E v)"
  unfolding handle_set_difficulty_def handle_set_extranonce_def handle_notify_def send_set_target_def
    handle_client_reconnect_def handle_ping_def handle_setup_connection_def only_once_def
    handle_open_standard_mining_channel_def out_of_sequence_def subscribe_and_authorize_def Let_def
  by (intro I_intros notify finalize abort_with;
      simp add: I_intros notify finalize abort_with I_frame I_target split: prod.splits)+

lemma results:
  "maintains I (handle_configure_result E i p)" "maintains I (handle_configure_error E i e)"
  "maintains I (handle_extranonce_subscribe_result E i p)"
  "maintains I (handle_extranonce_subscribe_error E i e)"
  "maintains I (handle_subscribe_result E i p)" "maintains I (handle_authorize_result E i p)"
  "maintains I (handle_authorize_or_subscribe_error E i e)"
  unfolding handle_configure_result_def handle_configure_error_def setup_refused_def
    handle_extranonce_subscribe_result_def handle_extranonce_subscribe_error_def
    handle_subscribe_result_def handle_authorize_result_def handle_authorize_or_subscribe_error_def
  by (intro I_intros finalize abort_with; simp add: I_frame)+

lemma other_message:
  assumes "k \<noteq> K_SubmitSharesStandard" and "I s"
  shows "wp (dispatch_v2 E k f) (\<lambda>_. I) (\<lambda>_ _. True) (\<lambda>_. True) s"
proof (cases "message_of_frame k f")
  case (Inr m)
  then have "kind_of m = k"
    by (auto simp: message_of_frame_def result_simps dest: message_of_bytes_exact)
  with Inr assms show ?thesis
    by (cases m) (simp_all add: dispatch_v2_def maintains_done requests handle_unknown_v2_def wp_basic)
qed (use assms in \<open>simp add: dispatch_v2_def handle_unknown_v2_def wp_basic\<close>)

lemma v2_event:
  assumes "I s"
    and share: "\<And>m. share_of (V2Event f) = [sss_seq_num m] \<Longrightarrow>
      wp (handle_submit_shares_standard E m) (\<lambda>_. J) (\<lambda>_ _. True) (\<lambda>_. True) s"
    and other: "\<And>s'. share_of (V2Event f) = [] \<Longrightarrow> I s' \<Longrightarrow> J s'"
  shows "wp (v2_handle_frame E f) (\<lambda>_. J) (\<lambda>_ _. True) (\<lambda>_. True) s"
proof (cases "extension_type (frame_header f) = BASE \<and> get_id f = msg_id K_SubmitSharesStandard")
  case True
  have "wp (dispatch_v2 E K_SubmitSharesStandard f) (\<lambda>_. J) (\<lambda>_ _. True) (\<lambda>_. True) s"
  proof (cases "message_of_frame K_SubmitSharesStandard f")
    case (Inr m)
    then have "kind_of m = K_SubmitSharesStandard"
      by (auto simp: message_of_frame_def result_simps dest: message_of_bytes_exact)
    with True Inr share show ?thesis by (cases m) (simp_all add: dispatch_v2_def share_of_def)
  qed (use assms(1) other in \<open>simp add: dispatch_v2_def handle_unknown_v2_def wp_basic share_of_def\<close>)
  with True show ?thesis by (simp add: v2_handle_frame_def handle_v2_def)
next
  case False
  then have J: "I s' \<Longrightarrow> J s'" for s' using other by (auto simp: share_of_def)
  have "wp (v2_handle_frame E f) (\<lambda>_. I) (\<lambda>_ _. True) (\<lambda>_. True) s"
    using False assms(1) other_message
    by (auto simp: v2_handle_frame_def handle_v2_def handle_unknown_v2_def wp_basic)
  then show ?thesis by (rule wp_mono) (simp_all add: J)
qed

end

text \<open>Where the methods that answer shares keep such a predicate too, every message of the pool does.\<close>

locale share_answering = share_blind +
  assumes I_observe: "I s \<Longrightarrow> I (s\<lparr>metrics := map_option (\<lambda>ms. ms @ [ObserveV1RequestSuccess m t]) (metrics s)\<rparr>)"
      "I s \<Longrightarrow> I (s\<lparr>metrics := map_option (\<lambda>ms. ms @ [ObserveV1RequestError m t]) (metrics s)\<rparr>)"
    and submit_result: "I s \<Longrightarrow> wp (handle_submit_result E i p) (\<lambda>_. I) (\<lambda>_ _. True) (\<lambda>_. True) s"
    and submit_error: "I s \<Longrightarrow> wp (handle_submit_error E i e) (\<lambda>_. I) (\<lambda>_ _. True) (\<lambda>_. True) s"
begin

lemma handlers:
  assumes "I s"
  shows "wp (run_result_handler E h i p) (\<lambda>_. I) (\<lambda>_ _. True) (\<lambda>_. True) s"
    and "wp (run_error_handler E h' i e) (\<lambda>_. I) (\<lambda>_ _. True) (\<lambda>_. True) s"
  by (cases h; simp add: assms results maintains_done submit_result)
    (cases h'; simp add: assms results maintains_done submit_error)

lemma visit:
  assumes "I s"
  shows "wp (visit_stratum_result_or_error E i p) (\<lambda>_. I) (\<lambda>_ _. True) (\<lambda>_. True) s"
proof -
  have "I (s\<lparr>v1_req_map := m\<rparr>)" for m using assms by (simp add: I_frame)
  with assms show ?thesis
    using I_observe [where s = "s\<lparr>v1_req_map := m\<rparr>" for m]
    by (auto simp: visit_stratum_result_or_error_def account_def wp_rules handlers
        split: option.splits v1_result_or_error.splits)
qed

lemma v1_event:
  assumes "I s"
  shows "wp (handle_v1 E rpc) (\<lambda>_. I) (\<lambda>_ _. True) (\<lambda>_. True) s"
proof -
  have "wp (handle_request_v1 E rpc p) (\<lambda>_. I) (\<lambda>_ _. True) (\<lambda>_. True) s" for p
    by (cases "(E, rpc, p)" rule: handle_request_v1.cases)
      (auto simp: assms maintains_done requests handle_set_version_mask_def handle_unknown_v1_def wp_basic)
  with assms show ?thesis
    by (cases "rpc_get_id rpc")
      (simp_all add: handle_v1_def handle_unknown_v1_def handle_stratum_result_def handle_stratum_error_def
        dispatch_v1_def wp_basic visit split: sum.split)
qed

end

section \<open>Methods that answer shares\<close>

lemma wp_send_queued_acct:
  "acct L s \<Longrightarrow> v2_submit_share_queue s = q \<Longrightarrow>
   wp (send_queued_errors E q) (\<lambda>_. acct L) R (\<lambda>_. True) s"
proof (induction E q arbitrary: s rule: send_queued_errors.induct)
  case (1 E e q)
  then have "acct L (s\<lparr>v2_submit_share_queue := q, v2_tx := (v2_tx s)
      \<lparr>sent := sent (v2_tx s) @ [v2_frame (M_SubmitSharesError e)], refusals := []\<rparr>\<rparr>)"
    and r: "refusals (v2_tx s) = []"
    by (auto simp: acct_def answers_def queued_def)
  from 1(1) [OF this(1)] r show ?case
    by (simp add: wp_then wp_mod wp_submit_v2 try_send_accepts)
qed (simp_all add: wp_basic)

lemma wp_answer:
  assumes "owes n L s" and "answer_of_message m = [n]"
  shows "wp (submit_share_response E m) (\<lambda>_. acct L) R (\<lambda>_. True) s"
proof -
  let ?s = "s\<lparr>v2_tx := (v2_tx s)\<lparr>sent := sent (v2_tx s) @ [v2_frame m], refusals := []\<rparr>\<rparr>"
  have "acct L ?s" and r: "refusals (v2_tx s) = []"
    using assms by (auto simp: acct_def owes_def answers_def queued_def)
  from wp_send_queued_acct [OF this(1) refl, of E R] r show ?thesis
    by (simp add: submit_share_response_def submit_queued_share_responses_def wp_then wp_bind wp_basic
        wp_submit_v2 try_send_accepts)
qed

lemma wp_take_seq:
  assumes "acct L s" and "\<And>n s'. owes n L s' \<Longrightarrow> Q n s'"
  shows "wp (get_v2_submit_shares_seq_num i) Q (\<lambda>_ _. True) (\<lambda>_. True) s"
proof -
  have "owes b L (s\<lparr>v2_submit_share_queue := q\<rparr>)" if "v2_submit_share_queue s = V1ToV2Mapping a b # q" for a b q
    using assms(1) that by (simp add: acct_def owes_def answers_def queued_def)
  with assms(2) show ?thesis
    by (auto simp: get_v2_submit_shares_seq_num_def wp_simps split: option.splits list.splits submit_share.splits)
qed

lemma wp_reject_v1:
  assumes "acct L s"
  shows "wp (reject_shares E c (SeqV1 i) msg) (\<lambda>_. acct L) (\<lambda>_ _. True) (\<lambda>_. True) s"
  using assms
  by (auto simp: reject_shares_def account_def error_code_def expect_str_def wp_simps Let_def
      intro!: wp_take_seq [of L] wp_answer split: option.splits)

lemma wp_reject_v2:
  assumes "acct L s"
  shows "wp (reject_shares E c (SeqV2 n) msg) (\<lambda>_. acct (L @ [n])) R (\<lambda>_. True) s"
proof -
  have "owes n (L @ [n]) s" if "v2_submit_share_queue s = []"
    using assms that by (simp add: acct_def owes_def queued_def)
  moreover have "acct (L @ [n]) (s\<lparr>metrics := ms, v2_submit_share_queue := v2_submit_share_queue s @
      [QueuedError \<lparr>sserr_channel_id = c, sserr_seq_num = n, sserr_code = x\<rparr>]\<rparr>)" for ms x
    using assms by (simp add: acct_def answers_def queued_def)
  ultimately show ?thesis
    by (auto simp: reject_shares_def account_def error_code_def expect_str_def wp_simps Let_def
        intro!: wp_answer split: option.splits)
qed

lemma wp_submit_result_acct:
  assumes "acct L s"
  shows "wp (handle_submit_result E i p) (\<lambda>_. acct L) (\<lambda>_ _. True) (\<lambda>_. True) s"
  using assms
  by (auto simp: handle_submit_result_def accept_shares_def account_def wp_rules
      intro!: wp_take_seq [of L] wp_answer wp_reject_v1 split: option.splits sum.splits)

lemma acct_send:
  "answer_of_message m = [] \<Longrightarrow> acct L s \<Longrightarrow> acct L (s\<lparr>v2_tx := snd (try_send (v2_frame m) (v2_tx s))\<rparr>)"
  by (simp add: acct_def answers_def queued_def try_send_accepts)

interpretation acct: share_answering "acct L" for L
  by unfold_locales
    (simp_all add: acct_send wp_submit_result_acct wp_reject_v1 handle_submit_error_def)

lemma acct_push:
  "acct L s \<Longrightarrow> q = v2_submit_share_queue s @ [V1ToV2Mapping i n] \<Longrightarrow>
   acct (L @ [n]) (s\<lparr>v2_submit_share_queue := q\<rparr>)"
  by (simp add: acct_def answers_def queued_def)

lemma wp_submit_shares_acct:
  assumes "acct L s"
  shows "wp (handle_submit_shares_standard E m) (\<lambda>_. acct (L @ [sss_seq_num m])) (\<lambda>_ _. True) (\<lambda>_. True) s"
  using assms
  by (auto simp: handle_submit_shares_standard_def wp_rules
      intro!: wp_submit_v1I acct_push wp_mono [OF wp_reject_v2] split: option.splits sum.splits)

lemma wp_v2_acct:
  assumes "acct L s"
  shows "wp (v2_handle_frame E f) (\<lambda>_. acct (L @ share_of (V2Event f))) (\<lambda>_ _. True) (\<lambda>_. True) s"
  using assms by (rule acct.v2_event) (use wp_submit_shares_acct [OF assms] in auto)

lemma run_acct: "run E True es s \<Longrightarrow> acct (shares es) s"
proof (induction rule: run.induct)
  case (run_new opts ms)
  then show ?case by (simp add: acct_def answers_def queued_def shares_def translation_new_def)
next
  case (run_env es s r2 c r1)
  then show ?case by (simp add: acct_def answers_def queued_def)
next
  case (run_step es s e s')
  have "wp (handle_event E e) (\<lambda>_. acct (shares es @ share_of e)) (\<lambda>_ _. True) (\<lambda>_. True) s"
    using acct.v1_event [OF run_step.IH] wp_v2_acct [OF run_step.IH]
    by (cases e) (simp_all add: handle_event_def share_of_def)
  from wp_DoneD [OF this run_step.hyps(2)] show ?case by (simp add: shares_def)
qed

end
