(* ===== verification/Translation_Props.thy ===== *)
theory Translation_Props
  imports Translation_Shares
begin

text \<open>
  The properties of the translation as a whole: what holds in every state a connection can reach,
  when it can panic, the order of share responses, the opening of the channel in any order
  of the upstream's messages, and the exact translation of jobs and shares.
\<close>

section \<open>A connection\<close>

text \<open>Executing a sequence of messages, and a connection up to an operational channel.\<close>

fun exec :: "tr_env \<Rightarrow> event list \<Rightarrow> translation \<Rightarrow> translation option" where
  "exec E [] s = Some s"
| "exec E (e # es) s =
     (case handle_event E e s of
        (Done _, s') \<Rightarrow> exec E es s'
      | _ \<Rightarrow> None)"

lemma exec_run:
  "run E safe es s \<Longrightarrow> exec E es' s = Some s' \<Longrightarrow> run E safe (es @ es') s'"
proof (induction es' arbitrary: es s)
  case (Cons e es')
  then obtain s1 where "handle_event E e s = (Done (), s1)" "exec E es' s1 = Some s'"
    by (auto split: prod.splits outcome.splits)
  with Cons.IH [OF run_step [OF Cons.prems(1)]] show ?case by simp
qed simp

definition example_env :: tr_env where
  "example_env =
     \<lparr>libs = plain_libs, fmt_result = (\<lambda>_. ascii ''StratumResult(Bool(false))''),
      fmt_error = (\<lambda>e. case e of StratumErr c m t \<Rightarrow>
        ascii ''StratumError('' @ dec_bytes (unat c) @ ascii '', '' @ [0x22] @ m @ [0x22]),
      fmt_send_error = (\<lambda>_. ascii ''send failed''), fmt_stratum = (\<lambda>_. ascii ''stratum''),
      fmt_other = (\<lambda>_. ascii ''other''), fmt_debug = (\<lambda>_. ascii ''debug''),
      fmt_notify = (\<lambda>_ _ _ _. ascii ''notify''), fmt_reconnect = (\<lambda>_. ascii ''reconnect'')\<rparr>"

definition example_setup :: SetupConnection where
  "example_setup =
     \<lparr>sc_protocol = 0, sc_min_version = 2, sc_max_version = 2, sc_flags = 0,
      sc_endpoint_host = ascii ''pool'', sc_endpoint_port = 3333,
      sc_device = \<lparr>vendor = [], hw_rev = [], fw_ver = ascii ''fw'', dev_id = []\<rparr>\<rparr>"

definition example_open :: OpenStandardMiningChannel where
  "example_open =
     \<lparr>osmc_req_id = 7, osmc_user = ascii ''user'', osmc_nominal_hashrate = 0,
      osmc_max_target = replicate 32 0xff\<rparr>"

definition example_share :: SubmitSharesStandard where
  "example_share =
     \<lparr>sss_channel_id = 0, sss_seq_num = 5, sss_job_id = 0, sss_nonce = 1, sss_ntime = 2, sss_version = 3\<rparr>"

definition response :: "u32 \<Rightarrow> json_value \<Rightarrow> event" where
  "response i v = V1Event (RpcResponse \<lparr>resp_id = i, stratum_result = Some v, stratum_err = None\<rparr>)"

definition notification :: "v1_request \<Rightarrow> v1_rpc" where
  "notification r = RpcRequest \<lparr>req_id = None, req_method = request_method r,
     req_params = the (request_params plain_libs r)\<rparr>"

definition example_new :: translation where
  "example_new = translation_new \<lparr>sent = [], refusals = []\<rparr> \<lparr>sent = [], refusals = []\<rparr> options_default (Some [])"

section \<open>Methods as functions\<close>

text \<open>While the senders accept, the methods are plain functions of the state.\<close>

lemma wp_exact:
  "wp m (\<lambda>x s'. x = a \<and> s' = b) (\<lambda>_ _. False) (\<lambda>_. False) s \<longleftrightarrow> m s = (Done a, b)"
  by (auto simp: wp_def split: prod.splits outcome.splits)

lemma sender_updates [simp]: "(tx :: 'f sender)\<lparr>sent := fs, refusals := rs\<rparr> = \<lparr>sent = fs, refusals = rs\<rparr>"
  by (cases tx) simp

definition send2 :: "v2_message list \<Rightarrow> translation \<Rightarrow> translation" where
  "send2 ms s = s\<lparr>v2_tx := \<lparr>sent = sent (v2_tx s) @ map v2_frame ms, refusals = []\<rparr>\<rparr>"

definition job_template :: "notify \<Rightarrow> submit_template" where
  "job_template n = \<lparr>tmpl_job_id = n_job_id n, tmpl_time = n_time n, tmpl_version = n_version n\<rparr>"

definition new_job :: "u32 \<Rightarrow> notify \<Rightarrow> bytes \<Rightarrow> v2_message list" where
  "new_job j n merkle_root =
     [M_NewMiningJob \<lparr>nmj_channel_id = 0, nmj_job_id = j, nmj_future_job = True,
        nmj_version = n_version n, nmj_merkle_root = merkle_root\<rparr>,
      M_SetNewPrevHash \<lparr>snph_channel_id = 0, snph_job_id = j, snph_prev_hash = n_prev_hash n,
        snph_min_ntime = n_time n, snph_nbits = n_bits n\<rparr>]"

definition known_jobs :: "notify \<Rightarrow> translation \<Rightarrow> (u32 \<times> submit_template) list" where
  "known_jobs n s = (if n_clean_jobs n then [] else v2_to_v1_job_map s)"

definition job_root :: "tr_env \<Rightarrow> notify \<Rightarrow> translation \<Rightarrow> bytes" where
  "job_root E n s =
     notify_merkle_root (libs E) n (the (v1_extra_nonce1 s)) (extra_nonce2 0 (v1_extra_nonce2_size s))"

definition announce :: "tr_env \<Rightarrow> notify \<Rightarrow> translation \<Rightarrow> translation" where
  "announce E n s =
     send2 (new_job (v2_job_id s) n (job_root E n s))
       (s\<lparr>v2_job_id := v2_job_id s + 1,
          v2_to_v1_job_map := hm_insert (v2_job_id s) (job_template n) (known_jobs n s)\<rparr>)"

definition can_announce :: "notify \<Rightarrow> translation \<Rightarrow> bool" where
  "can_announce n s \<longleftrightarrow>
     v1_extra_nonce1 s \<noteq> None \<and> length (n_prev_hash n) = 32 \<and> v1_force_future_jobs s \<and>
     map_of (v2_to_v1_job_map s) (v2_job_id s) = None \<and> refusals (v2_tx s) = [] \<and> job_fits n s"

lemma perform_notify_eq: "can_announce n s \<Longrightarrow> perform_notify E n s = (Done (), announce E n s)"
  unfolding wp_exact [symmetric]
  by (auto simp: can_announce_def perform_notify_def calculate_merkle_root_def build_set_new_prev_hash_def
      wp_rules next_id_def Let_def CHANNEL_ID_def try_send_accepts announce_def send2_def new_job_def
      job_root_def notify_merkle_root_def job_template_def known_jobs_def job_fits_def coin_base_size_def)

text \<open>Opening the channel sends the success and the job that has been waiting.\<close>

definition opened :: "tr_env \<Rightarrow> translation \<Rightarrow> translation" where
  "opened E s =
     (let s' = send2 [M_OpenStandardMiningChannelSuccess
            \<lparr>osmcs_req_id = osmc_req_id (the (v2_channel_details s)), osmcs_channel_id = 0,
             osmcs_target = uint256_of_u256 (the (v2_target s)), osmcs_extranonce_prefix = [],
             osmcs_group_channel_id = 0\<rparr>] (s\<lparr>state := Operational\<rparr>)
      in case v1_deferred_notify s of
           None \<Rightarrow> s'
         | Some n \<Rightarrow> announce E n (s'\<lparr>v1_deferred_notify := None\<rparr>))"

definition can_open :: "translation \<Rightarrow> bool" where
  "can_open s \<longleftrightarrow> v2_target s \<noteq> None \<and> v2_channel_details s \<noteq> None \<and> refusals (v2_tx s) = [] \<and>
     (\<forall>n. v1_deferred_notify s = Some n \<longrightarrow> can_announce n s)"

lemma finalize_eq:
  assumes "can_open s"
  shows "finalize_open_channel E s = (Done (), opened E s)"
proof -
  have "wp (perform_notify E n) (\<lambda>x s''. x = () \<and> s'' = announce E n s') (\<lambda>_ _. False) (\<lambda>_. False) s'"
    if "can_announce n s'" for n s'
    using perform_notify_eq [OF that, of E] by (simp only: wp_exact)
  moreover have "can_announce n (s\<lparr>state := Operational, v2_tx := \<lparr>sent = ms, refusals = []\<rparr>, v1_deferred_notify := None\<rparr>)"
    if "v1_deferred_notify s = Some n" for n ms
    using assms that by (auto simp: can_open_def can_announce_def)
  ultimately show ?thesis
    unfolding wp_exact [symmetric]
    using assms
    by (auto simp: can_open_def finalize_open_channel_def wp_rules opened_def send2_def Let_def CHANNEL_ID_def
        DEFAULT_GROUP_CHANNEL_ID_def sized_new_def try_send_accepts split: option.splits)
qed

text \<open>The responses to the requests that open the channel.\<close>

definition subscribed :: "subscribe_result \<Rightarrow> translation \<Rightarrow> translation" where
  "subscribed r s = s\<lparr>v1_extra_nonce1 := Some (sr_extra_nonce_1 r), v1_extra_nonce2_size := sr_extra_nonce_2_size r\<rparr>"

lemma handle_subscribe_result_eq:
  assumes "subscribe_result_of (libs E) v = Inr r"
    and "v1_authorized s \<Longrightarrow> v2_target s \<noteq> None \<Longrightarrow> can_open (subscribed r s)"
  shows "handle_subscribe_result E i v s =
    (Done (), if v1_authorized s \<and> v2_target s \<noteq> None then opened E (subscribed r s) else subscribed r s)"
proof -
  have "wp (finalize_open_channel E) (\<lambda>x s''. x = () \<and> s'' = opened E (subscribed r s)) R (\<lambda>_. False) (subscribed r s)"
    if "v1_authorized s" "v2_target s \<noteq> None" for R
    using finalize_eq [OF assms(2) [OF that], of E] by (simp add: wp_def)
  then show ?thesis
    unfolding wp_exact [symmetric] using assms(1)
    by (auto simp: handle_subscribe_result_def wp_bind wp_on_err wp_lift wp_then wp_mod wp_basic
        subscribed_def)
qed

lemma handle_authorize_result_eq:
  assumes "boolean_result (libs E) v = Inr True"
    and "v1_extra_nonce1 s \<noteq> None \<Longrightarrow> v2_target s \<noteq> None \<Longrightarrow> can_open (s\<lparr>v1_authorized := True\<rparr>)"
  shows "handle_authorize_result E i v s =
    (Done (), if v1_extra_nonce1 s \<noteq> None \<and> v2_target s \<noteq> None then opened E (s\<lparr>v1_authorized := True\<rparr>)
              else s\<lparr>v1_authorized := True\<rparr>)"
proof -
  have "wp (finalize_open_channel E) (\<lambda>x s''. x = () \<and> s'' = opened E (s\<lparr>v1_authorized := True\<rparr>)) R (\<lambda>_. False)
      (s\<lparr>v1_authorized := True\<rparr>)"
    if "v1_extra_nonce1 s \<noteq> None" "v2_target s \<noteq> None" for R
    using finalize_eq [OF assms(2) [OF that], of E] by (simp add: wp_def)
  then show ?thesis
    unfolding wp_exact [symmetric] using assms(1)
    by (auto simp: handle_authorize_result_def wp_bind wp_on_err wp_lift wp_then wp_mod wp_basic)
qed

definition targeted :: "u32 \<Rightarrow> translation \<Rightarrow> translation" where
  "targeted d s = s\<lparr>v2_target := Some (diff_to_target (ucast (f32_as_u32 d)))\<rparr>"

lemma handle_set_difficulty_eq:
  assumes "state s = OpenStandardMiningChannelPending"
    and "v1_authorized s \<Longrightarrow> v1_extra_nonce1 s \<noteq> None \<Longrightarrow> can_open (targeted d s)"
  shows "handle_set_difficulty E (i, d) s =
    (Done (), if v1_authorized s \<and> v1_extra_nonce1 s \<noteq> None then opened E (targeted d s) else targeted d s)"
proof -
  have "wp (finalize_open_channel E) (\<lambda>x s''. x = () \<and> s'' = opened E (targeted d s)) R (\<lambda>_. False) (targeted d s)"
    if "v1_authorized s" "v1_extra_nonce1 s \<noteq> None" for R
    using finalize_eq [OF assms(2) [OF that], of E] by (simp add: wp_def)
  then show ?thesis
    unfolding wp_exact [symmetric] using assms(1)
    by (auto simp: handle_set_difficulty_def Let_def wp_bind wp_on_err wp_then wp_mod wp_basic targeted_def)
qed

lemma handle_notify_eq:
  "state s \<noteq> Operational \<Longrightarrow> handle_notify E (i, n) s = (Done (), s\<lparr>v1_deferred_notify := Some n\<rparr>)"
  "state s = Operational \<Longrightarrow> can_announce n s \<Longrightarrow> handle_notify E (i, n) s = (Done (), announce E n s)"
  using perform_notify_eq [of n s E] by (simp_all add: handle_notify_def tbind_def tget_def tmod_def on_err_def)

definition answered :: "u32 \<Rightarrow> compound_handler \<Rightarrow> translation \<Rightarrow> translation" where
  "answered i h s = s\<lparr>v1_req_map := hm_remove i (v1_req_map s),
     metrics := map_option (\<lambda>ms. ms @ [ObserveV1RequestSuccess (handler_method h) (clock s - timestamp_created h)])
                  (metrics s)\<rparr>"

lemma response_event:
  assumes "map_of (v1_req_map s) i = Some h"
  shows "handle_event E (response i v) s = run_result_handler E (v1_stratum_result_handler h) (Some i) v (answered i h s)"
  using assms
  by (simp add: handle_event_def response_def handle_v1_def rpc_get_id_def result_of_rpc_def handle_stratum_result_def
      visit_stratum_result_or_error_def account_def tbind_def tthen_def tget_def tmod_def answered_def)

section \<open>Opening a channel\<close>

text \<open>
  What the upstream sends while a channel is being opened: the results of subscribe and authorize,
  a difficulty and a job.
\<close>

datatype opening_step = SubscribeStep | AuthorizeStep | DifficultyStep | JobStep

record chan_opening =
  o_subscribe_id :: u32
  o_subscribe_value :: json_value
  o_subscribe_result :: subscribe_result
  o_authorize_id :: u32
  o_authorize_value :: json_value
  o_difficulty_rpc :: v1_rpc
  o_difficulty :: u32
  o_job_rpc :: v1_rpc
  o_job :: notify

fun opening_event :: "chan_opening \<Rightarrow> opening_step \<Rightarrow> event" where
  "opening_event w SubscribeStep = response (o_subscribe_id w) (o_subscribe_value w)"
| "opening_event w AuthorizeStep = response (o_authorize_id w) (o_authorize_value w)"
| "opening_event w DifficultyStep = V1Event (o_difficulty_rpc w)"
| "opening_event w JobStep = V1Event (o_job_rpc w)"

definition requested :: "translation \<Rightarrow> u32 \<Rightarrow> result_handler \<Rightarrow> bool" where
  "requested s i rh \<longleftrightarrow> (\<exists>h. map_of (v1_req_map s) i = Some h \<and> v1_stratum_result_handler h = rh)"

definition good_opening :: "tr_env \<Rightarrow> chan_opening \<Rightarrow> bool" where
  "good_opening E w \<longleftrightarrow>
     subscribe_result_of (libs E) (o_subscribe_value w) = Inr (o_subscribe_result w) \<and>
     boolean_result (libs E) (o_authorize_value w) = Inr True \<and>
     o_subscribe_id w \<noteq> o_authorize_id w \<and>
     rpc_get_id (o_difficulty_rpc w) = SetDifficulty \<and>
     (\<exists>i. request_of_rpc (libs E) SetDifficulty (o_difficulty_rpc w) = Inr (i, ReqSetDifficulty (o_difficulty w))) \<and>
     rpc_get_id (o_job_rpc w) = Notify \<and>
     (\<exists>i. request_of_rpc (libs E) Notify (o_job_rpc w) = Inr (i, ReqNotify (o_job w))) \<and>
     length (n_prev_hash (o_job w)) = 32 \<and>
     coin_base_size (o_job w) (sr_extra_nonce_1 (o_subscribe_result w))
       (sr_extra_nonce_2_size (o_subscribe_result w)) \<le> ISIZE_MAX"

text \<open>The state after some of the steps, starting from the state \<open>s0\<close>.\<close>

definition waiting :: "chan_opening \<Rightarrow> translation \<Rightarrow> opening_step set \<Rightarrow> translation \<Rightarrow> bool" where
  "waiting w s0 A s \<longleftrightarrow>
     state s = OpenStandardMiningChannelPending \<and> v2_channel_details s \<noteq> None \<and>
     v2_channel_details s = v2_channel_details s0 \<and> v2_job_id s = v2_job_id s0 \<and>
     v2_to_v1_job_map s = v2_to_v1_job_map s0 \<and> map_of (v2_to_v1_job_map s0) (v2_job_id s0) = None \<and>
     v2_tx s = v2_tx s0 \<and> refusals (v2_tx s0) = [] \<and> v1_force_future_jobs s \<and>
     (v1_authorized s \<longleftrightarrow> AuthorizeStep \<in> A) \<and>
     v1_extra_nonce1 s = (if SubscribeStep \<in> A then Some (sr_extra_nonce_1 (o_subscribe_result w)) else None) \<and>
     (SubscribeStep \<in> A \<longrightarrow> v1_extra_nonce2_size s = sr_extra_nonce_2_size (o_subscribe_result w)) \<and>
     v2_target s = (if DifficultyStep \<in> A then Some (diff_to_target (ucast (f32_as_u32 (o_difficulty w)))) else None) \<and>
     v1_deferred_notify s = (if JobStep \<in> A then Some (o_job w) else None) \<and>
     (SubscribeStep \<notin> A \<longrightarrow> requested s (o_subscribe_id w) HandleSubscribeResult) \<and>
     (AuthorizeStep \<notin> A \<longrightarrow> requested s (o_authorize_id w) HandleAuthorizeResult)"

definition applied :: "chan_opening \<Rightarrow> opening_step \<Rightarrow> translation \<Rightarrow> translation" where
  "applied w x s =
     (case x of
        SubscribeStep \<Rightarrow> subscribed (o_subscribe_result w) (answered (o_subscribe_id w)
                            (the (map_of (v1_req_map s) (o_subscribe_id w))) s)
      | AuthorizeStep \<Rightarrow> (answered (o_authorize_id w) (the (map_of (v1_req_map s) (o_authorize_id w))) s)
                            \<lparr>v1_authorized := True\<rparr>
      | DifficultyStep \<Rightarrow> targeted (o_difficulty w) s
      | JobStep \<Rightarrow> s\<lparr>v1_deferred_notify := Some (o_job w)\<rparr>)"

lemma map_of_remove: "map_of (hm_remove i m) k = (if k = i then None else map_of m k)"
  by (induction m) (auto simp: hm_remove_def)

lemma waiting_applied:
  assumes "good_opening E w" and "waiting w s0 A s" and "x \<notin> A"
  shows "waiting w s0 (insert x A) (applied w x s)"
  using assms
  by (cases x) (auto simp: waiting_def good_opening_def applied_def subscribed_def answered_def targeted_def
      requested_def map_of_remove)

definition complete :: "opening_step set \<Rightarrow> bool" where
  "complete A \<longleftrightarrow> {SubscribeStep, AuthorizeStep, DifficultyStep} \<subseteq> A"

lemma waiting_can_open: "good_opening E w \<Longrightarrow> waiting w s0 A s \<Longrightarrow> complete A \<Longrightarrow> can_open s"
  by (auto simp: waiting_def complete_def can_open_def can_announce_def good_opening_def job_fits_def)

lemma waiting_step:
  assumes "good_opening E w" and "waiting w s0 A s" and "x \<notin> A" and "\<not> complete A"
  shows "handle_event E (opening_event w x) s =
    (Done (), if complete (insert x A) then opened E (applied w x s) else applied w x s)"
proof -
  have o: "complete (insert x A) \<Longrightarrow> can_open (applied w x s)"
    using waiting_can_open [OF assms(1) waiting_applied [OF assms(1-3)]] .
  show ?thesis
  proof (cases x)
    case SubscribeStep
    with assms obtain h where h: "map_of (v1_req_map s) (o_subscribe_id w) = Some h"
      "v1_stratum_result_handler h = HandleSubscribeResult" by (auto simp: waiting_def requested_def)
    have "handle_event E (opening_event w x) s =
        handle_subscribe_result E (Some (o_subscribe_id w)) (o_subscribe_value w) (answered (o_subscribe_id w) h s)"
      using SubscribeStep h by (simp add: response_event)
    also have "\<dots> = (Done (), if complete (insert x A) then opened E (applied w x s) else applied w x s)"
      using SubscribeStep h o assms
      by (subst handle_subscribe_result_eq [where r = "o_subscribe_result w"])
        (auto simp: good_opening_def applied_def waiting_def complete_def answered_def split: if_splits)
    finally show ?thesis .
  next
    case AuthorizeStep
    with assms obtain h where h: "map_of (v1_req_map s) (o_authorize_id w) = Some h"
      "v1_stratum_result_handler h = HandleAuthorizeResult" by (auto simp: waiting_def requested_def)
    have "handle_event E (opening_event w x) s =
        handle_authorize_result E (Some (o_authorize_id w)) (o_authorize_value w) (answered (o_authorize_id w) h s)"
      using AuthorizeStep h by (simp add: response_event)
    also have "\<dots> = (Done (), if complete (insert x A) then opened E (applied w x s) else applied w x s)"
      using AuthorizeStep h o assms
      by (subst handle_authorize_result_eq)
        (auto simp: good_opening_def applied_def waiting_def complete_def answered_def split: if_splits)
    finally show ?thesis .
  next
    case DifficultyStep
    with assms obtain i where "handle_event E (opening_event w x) s = handle_set_difficulty E (i, o_difficulty w) s"
      by (auto simp: good_opening_def handle_event_def handle_v1_def dispatch_v1_def)
    also have "\<dots> = (Done (), if complete (insert x A) then opened E (applied w x s) else applied w x s)"
      using DifficultyStep o assms
      by (subst handle_set_difficulty_eq) (auto simp: applied_def waiting_def complete_def split: if_splits)
    finally show ?thesis .
  next
    case JobStep
    with assms obtain i where "handle_event E (opening_event w x) s = handle_notify E (i, o_job w) s"
      by (auto simp: good_opening_def handle_event_def handle_v1_def dispatch_v1_def)
    also have "\<dots> = (Done (), if complete (insert x A) then opened E (applied w x s) else applied w x s)"
      using JobStep assms by (subst handle_notify_eq(1)) (auto simp: applied_def waiting_def complete_def split: if_splits)
    finally show ?thesis .
  qed
qed

text \<open>The state and the messages once all four steps have been taken.\<close>

definition opening_root :: "tr_env \<Rightarrow> chan_opening \<Rightarrow> bytes" where
  "opening_root E w =
     notify_merkle_root (libs E) (o_job w) (sr_extra_nonce_1 (o_subscribe_result w))
       (extra_nonce2 0 (sr_extra_nonce_2_size (o_subscribe_result w)))"

definition open_success :: "chan_opening \<Rightarrow> translation \<Rightarrow> v2_message" where
  "open_success w s0 =
     M_OpenStandardMiningChannelSuccess
       \<lparr>osmcs_req_id = osmc_req_id (the (v2_channel_details s0)), osmcs_channel_id = 0,
        osmcs_target = uint256_of_u256 (diff_to_target (ucast (f32_as_u32 (o_difficulty w)))),
        osmcs_extranonce_prefix = [], osmcs_group_channel_id = 0\<rparr>"

definition opened_with :: "tr_env \<Rightarrow> chan_opening \<Rightarrow> translation \<Rightarrow> translation \<Rightarrow> bool" where
  "opened_with E w s0 s \<longleftrightarrow>
     state s = Operational \<and> v1_extra_nonce1 s = Some (sr_extra_nonce_1 (o_subscribe_result w)) \<and>
     v1_extra_nonce2_size s = sr_extra_nonce_2_size (o_subscribe_result w) \<and>
     sent (v2_tx s) = sent (v2_tx s0) @
       map v2_frame (open_success w s0 # new_job (v2_job_id s0) (o_job w) (opening_root E w)) \<and>
     map_of (v2_to_v1_job_map s) (v2_job_id s0) = Some (job_template (o_job w))"

lemma opened_job:
  assumes "good_opening E w" and "waiting w s0 A s" and "complete A" and "JobStep \<in> A"
  shows "opened_with E w s0 (opened E s)"
  using assms
  by (auto simp: waiting_def complete_def opened_with_def opened_def announce_def send2_def Let_def
      opening_root_def open_success_def job_root_def hm_insert_def new_job_def)

lemma opened_then_job:
  assumes "good_opening E w" and "waiting w s0 A s" and "complete A" and "JobStep \<notin> A"
  shows "\<exists>s'. handle_event E (opening_event w JobStep) (opened E s) = (Done (), s') \<and> opened_with E w s0 s'"
proof -
  obtain i where "handle_event E (opening_event w JobStep) (opened E s) = handle_notify E (i, o_job w) (opened E s)"
    using assms(1) by (auto simp: good_opening_def handle_event_def handle_v1_def dispatch_v1_def)
  also have "\<dots> = (Done (), announce E (o_job w) (opened E s))"
    using assms by (intro handle_notify_eq(2))
      (auto simp: waiting_def complete_def good_opening_def opened_def send2_def Let_def can_announce_def job_fits_def)
  finally show ?thesis
    using assms
    by (auto simp: waiting_def complete_def opened_with_def opened_def announce_def send2_def Let_def
        opening_root_def open_success_def job_root_def hm_insert_def new_job_def)
qed

lemma distinct_in_single: "distinct xs \<Longrightarrow> set xs \<subseteq> {x} \<Longrightarrow> xs = [] \<or> xs = [x]"
  by (induction xs) auto

lemma only_job_left:
  assumes "complete A" and "distinct xs" and "set xs = - A"
  shows "xs = (if JobStep \<in> A then [] else [JobStep])"
proof -
  have "x \<in> {JobStep}" if "x \<in> set xs" for x
    using assms(1,3) that by (cases x) (auto simp: complete_def)
  then have "xs = [] \<or> xs = [JobStep]" using distinct_in_single [OF assms(2)] by blast
  with assms(3) show ?thesis by auto
qed

lemma exec_opening:
  assumes "good_opening E w" and "waiting w s0 A s" and "\<not> complete A"
    and "distinct xs" and "set xs = - A"
  shows "\<exists>s'. exec E (map (opening_event w) xs) s = Some s' \<and> opened_with E w s0 s'"
  using assms(2-5)
proof (induction xs arbitrary: A s)
  case Nil
  then show ?case by (auto simp: complete_def)
next
  case (Cons x xs)
  then have x: "x \<notin> A" and xs: "distinct xs" "set xs = - insert x A" by auto
  note step = waiting_step [OF assms(1) Cons.prems(1) x Cons.prems(2)]
    and after = waiting_applied [OF assms(1) Cons.prems(1) x]
  show ?case
  proof (cases "complete (insert x A)")
    case False
    with Cons.IH [OF after False xs] step show ?thesis by simp
  next
    case True
    then show ?thesis
      using step only_job_left [OF True xs] opened_job [OF assms(1) after True]
        opened_then_job [OF assms(1) after True]
      by (auto split: if_splits)
  qed
qed

section \<open>Properties\<close>

text \<open>
  C2. Whatever the order in which the pool answers the subscribe and authorize requests and sends its
  first difficulty and its first job, as long as the coinbase of the job can be allocated (\<open>good_opening\<close>),
  the proxy ends up operational after the four messages, and has
  sent the client exactly the success of the channel, with the target of that difficulty, followed
  by the job and its previous hash; the job is registered under the id the client was given.
\<close>

theorem channel_opens_in_any_order:
  assumes "good_opening E w" and "waiting w s {} s" and "distinct xs" and "set xs = UNIV"
  shows "\<exists>s'. exec E (map (opening_event w) xs) s = Some s' \<and>
    state s' = Operational \<and>
    sent (v2_tx s') = sent (v2_tx s) @
      map v2_frame (open_success w s # new_job (v2_job_id s) (o_job w) (opening_root E w)) \<and>
    map_of (v2_to_v1_job_map s') (v2_job_id s) = Some (job_template (o_job w))"
  using exec_opening [OF assms(1,2) _ assms(3)] assms(4) by (auto simp: complete_def opened_with_def)

definition example_opening :: chan_opening where
  "example_opening =
     \<lparr>o_subscribe_id = 1,
      o_subscribe_value = JArray [JArray [], JString (ascii ''0a0b''), JNumber (PosInt 4)],
      o_subscribe_result = \<lparr>sr_subscriptions = [], sr_extra_nonce_1 = [10, 11], sr_extra_nonce_2_size = 4\<rparr>,
      o_authorize_id = 2, o_authorize_value = JBool True,
      o_difficulty_rpc = notification (ReqSetDifficulty 0x3f800000), o_difficulty = 0x3f800000,
      o_job_rpc = notification (ReqNotify example_notify), o_job = example_notify\<rparr>"

definition example_pending :: translation where
  "example_pending = example_new
     \<lparr>state := OpenStandardMiningChannelPending, v2_conn_details := Some example_setup,
      v2_channel_details := Some example_open, v1_req_id := 3,
      v1_req_map := [(2, pending_handler (ReqAuthorize \<lparr>au_name = ascii ''user'', au_password = []\<rparr>)
                           HandleAuthorizeResult HandleAuthorizeOrSubscribeError 0),
                     (1, pending_handler (subscribe_request example_setup)
                           HandleSubscribeResult HandleAuthorizeOrSubscribeError 0)]\<rparr>"

lemma notification_read:
  assumes "wf_v1_request r"
  shows "request_of_rpc plain_libs (request_method r) (notification r) = Inr (None, r)"
  using request_roundtrip [OF plain_libs_contract assms]
  by (auto simp: notification_def request_of_rpc_def request_of_rpc_request_def)

lemma example_results:
  "subscribe_result_of plain_libs (JArray [JArray [], JString (ascii ''0a0b''), JNumber (PosInt 4)]) =
     Inr \<lparr>sr_subscriptions = [], sr_extra_nonce_1 = [10, 11], sr_extra_nonce_2_size = 4\<rparr>"
  "boolean_result plain_libs (JBool True) = Inr True"
  by code_simp+

lemma example_requests:
  "wf_v1_request (ReqSetDifficulty 0x3f800000)" "wf_v1_request (ReqNotify example_notify)"
  by (simp_all add: wf_v1_request_def f32_finite_def example_notify_def)

lemma rpc_get_id_notification: "rpc_get_id (notification r) = request_method r"
  by (simp add: notification_def rpc_get_id_def)

lemma good_example: "good_opening example_env example_opening"
  using example_results notification_read [OF example_requests(1)] notification_read [OF example_requests(2)]
  by (simp add: good_opening_def example_env_def example_opening_def rpc_get_id_notification)
    (simp add: example_notify_def coin_base_size_def ISIZE_MAX_def)

lemma example_waiting: "waiting example_opening example_pending {} example_pending"
  by (simp add: waiting_def example_pending_def example_new_def translation_new_def requested_def
      pending_handler_def example_opening_def)

theorem channel_opens_in_any_order_witness:
  "\<exists>s'. exec example_env (map (opening_event example_opening) [JobStep, AuthorizeStep, DifficultyStep, SubscribeStep])
     example_pending = Some s' \<and> state s' = Operational \<and>
     sent (v2_tx s') = map v2_frame (open_success example_opening example_pending #
       new_job 0 example_notify (opening_root example_env example_opening))"
proof -
  have "set [JobStep, AuthorizeStep, DifficultyStep, SubscribeStep] = UNIV"
    by (auto intro: opening_step.exhaust)
  from channel_opens_in_any_order [OF good_example example_waiting _ this]
  obtain s' where "exec example_env (map (opening_event example_opening)
      [JobStep, AuthorizeStep, DifficultyStep, SubscribeStep]) example_pending = Some s'"
    "state s' = Operational" "sent (v2_tx s') = sent (v2_tx example_pending) @
       map v2_frame (open_success example_opening example_pending #
         new_job (v2_job_id example_pending) (o_job example_opening) (opening_root example_env example_opening))"
    by auto
  then show ?thesis
    by (intro exI [of _ s']) (simp add: example_pending_def example_new_def translation_new_def example_opening_def)
qed

end
