(* ===== verification/Translation_Correct.thy ===== *)
theory Translation_Correct
  imports Translation_Props
begin

text \<open>
  Correctness of the translation on whole connections: the invariant of the reachable states, the
  panics a peer can provoke, the order of share responses, and what becomes of a share, a job and a
  difficulty. The first part states the methods that send V1 requests as plain functions, as
  \<open>Translation_Props\<close> does for the others.
\<close>

section \<open>Frames of the client\<close>

definition handled :: "v2_message \<Rightarrow> bool" where
  "handled m \<longleftrightarrow> kind_of m \<in> {K_SetupConnection, K_OpenStandardMiningChannel, K_SubmitSharesStandard}"

lemma message_of_v2_frame: "wf_msg m \<Longrightarrow> message_of_frame (kind_of m) (v2_frame m) = Inr m"
  by (simp add: message_of_frame_def v2_frame_def into_bytes_mut_def serialize_message_wf message_of_serialized)

lemma frame_event:
  assumes "wf_msg m" and "handled m"
  shows "handle_event E (V2Event (v2_frame m)) s = handle_message_v2 E (v2_frame m) m s"
proof -
  have "extension_type (frame_header (v2_frame m)) = BASE" "get_id (v2_frame m) = msg_id (kind_of m)"
    using assms(2) by (auto simp: handled_def v2_frame_def get_id_def)
  then show ?thesis
    using assms(2) message_of_v2_frame [OF assms(1)]
    by (auto simp: handled_def handle_event_def v2_handle_frame_def handle_v2_def dispatch_v2_def)
qed

section \<open>Requests to the pool\<close>

definition request_sent :: "tr_env \<Rightarrow> v1_request \<Rightarrow> result_handler \<Rightarrow> error_handler \<Rightarrow> translation \<Rightarrow> translation" where
  "request_sent E req rh eh s =
     s\<lparr>v1_req_id := v1_req_id s + 1,
       v1_req_map := hm_insert (v1_req_id s) (pending_handler req rh eh (clock s)) (v1_req_map s),
       v1_tx := \<lparr>sent = sent (v1_tx s) @ [v1_message E (v1_req_id s) req], refusals = []\<rparr>\<rparr>"

definition can_request :: "tr_env \<Rightarrow> v1_request \<Rightarrow> translation \<Rightarrow> bool" where
  "can_request E req s \<longleftrightarrow>
     request_params (libs E) req \<noteq> None \<and> map_of (v1_req_map s) (v1_req_id s) = None \<and> refusals (v1_tx s) = []"

lemma submit_v1_eq:
  "can_request E req s \<Longrightarrow>
     submit_v1_request_message E req rh eh s = (Done (v1_req_id s), request_sent E req rh eh s)"
  unfolding wp_exact [symmetric]
  by (simp add: wp_submit_v1 can_request_def request_sent_def try_send_accepts Let_def)

lemma handle_setup_connection_eq:
  assumes "state s = Init" and "can_request E (ReqConfigure (version_configure E)) s"
  shows "handle_setup_connection E m s =
    (Done (), (request_sent E (ReqConfigure (version_configure E)) HandleConfigureResult HandleConfigureError
                 (s\<lparr>v2_conn_details := Some m\<rparr>))\<lparr>state := V1Configure\<rparr>)"
proof -
  have "can_request E (ReqConfigure (version_configure E)) (s\<lparr>v2_conn_details := Some m\<rparr>)"
    using assms(2) by (simp add: can_request_def)
  with assms(1) show ?thesis
    by (simp add: handle_setup_connection_def tbind_def tthen_def tget_def tmod_def treturn_def tmap_err_def
        on_err_def submit_v1_eq)
qed

lemma handle_configure_result_eq:
  assumes "de_hex_u32_be (libs E) (value_index v (ascii ''version-rolling.mask'')) = Inr BIP320_N_VERSION_MASK"
    and "as_bool (value_index v (ascii ''version-rolling'')) = Some True" and "refusals (v2_tx s) = []"
  shows "handle_configure_result E i v s =
    (Done (), send2 [M_SetupConnectionSuccess \<lparr>scs_used_version = 0, scs_flags = 0\<rparr>] (s\<lparr>state := ConnectionSetup\<rparr>))"
  unfolding wp_exact [symmetric]
  using assms by (simp add: handle_configure_result_def wp_rules try_send_accepts send2_def PROTOCOL_VERSION_def)

text \<open>Opening a channel sends subscribe and authorize.\<close>

definition open_requested :: "tr_env \<Rightarrow> OpenStandardMiningChannel \<Rightarrow> SetupConnection \<Rightarrow> translation \<Rightarrow> translation" where
  "open_requested E m c s =
     request_sent E (ReqAuthorize \<lparr>au_name = osmc_user m, au_password = v1_password s\<rparr>)
       HandleAuthorizeResult HandleAuthorizeOrSubscribeError
       (request_sent E (subscribe_request c) HandleSubscribeResult HandleAuthorizeOrSubscribeError
         (s\<lparr>v2_channel_details := Some m, state := OpenStandardMiningChannelPending\<rparr>))"

lemma handle_open_eq:
  assumes "state s = ConnectionSetup" and "v2_conn_details s = Some c" and "\<not> try_enable_xnsub (options s)"
    and "can_request E (subscribe_request c) s"
    and "can_request E (ReqAuthorize \<lparr>au_name = osmc_user m, au_password = v1_password s\<rparr>)
           (request_sent E (subscribe_request c) HandleSubscribeResult HandleAuthorizeOrSubscribeError s)"
  shows "handle_open_standard_mining_channel E m s = (Done (), open_requested E m c s)"
proof -
  let ?s = "s\<lparr>v2_channel_details := Some m, state := OpenStandardMiningChannelPending\<rparr>"
  have "can_request E (subscribe_request c) ?s" using assms(4) by (simp add: can_request_def)
  moreover have "can_request E (ReqAuthorize \<lparr>au_name = osmc_user m, au_password = v1_password s\<rparr>)
      (request_sent E (subscribe_request c) HandleSubscribeResult HandleAuthorizeOrSubscribeError ?s)"
    using assms(5) by (simp add: can_request_def request_sent_def)
  moreover have "options (request_sent E r rh eh s') = options s'" "v1_password (request_sent E r rh eh s') = v1_password s'"
    for r rh eh s' by (simp_all add: request_sent_def)
  ultimately show ?thesis
    using assms(1-3)
    by (simp add: handle_open_standard_mining_channel_def subscribe_and_authorize_def tbind_def tthen_def tget_def
        tmod_def treturn_def tmap_err_def on_err_def submit_v1_eq open_requested_def)
qed

section \<open>Shares\<close>

definition share_request :: "SubmitSharesStandard \<Rightarrow> submit_template \<Rightarrow> translation \<Rightarrow> v1_request" where
  "share_request m t s =
     ReqSubmit \<lparr>s_user_name = osmc_user (the (v2_channel_details s)), s_job_id = tmpl_job_id t,
       s_extra_nonce_2 = extra_nonce2 0 (v1_extra_nonce2_size s),
       s_time = sss_ntime m, s_nonce = sss_nonce m, s_version = sss_version m AND 0x1fffe000\<rparr>"

lemma extra_nonce2_eq:
  assumes "n \<le> ISIZE_MAX"
  shows "channel_to_extra_nonce2_bytes c n s = (Done (extra_nonce2 c n), s)"
  unfolding wp_exact [symmetric] using assms by (simp add: wp_extra_nonce2)

definition share_forwarded :: "tr_env \<Rightarrow> SubmitSharesStandard \<Rightarrow> submit_template \<Rightarrow> translation \<Rightarrow> translation" where
  "share_forwarded E m t s =
     (request_sent E (share_request m t s) HandleSubmitResult HandleSubmitError (s\<lparr>last_submit := Some (clock s)\<rparr>))
       \<lparr>v2_submit_share_queue := v2_submit_share_queue s @ [V1ToV2Mapping (v1_req_id s) (sss_seq_num m)]\<rparr>"

lemma handle_share_eq:
  assumes "sss_channel_id m = 0" and "v2_channel_details s \<noteq> None"
    and "map_of (v2_to_v1_job_map s) (sss_job_id m) = Some t" and "can_request E (share_request m t s) s"
    and "v1_extra_nonce2_size s \<le> ISIZE_MAX"
  shows "handle_submit_shares_standard E m s = (Done (), share_forwarded E m t s)"
proof -
  let ?s = "s\<lparr>last_submit := Some (clock s)\<rparr>"
  have "can_request E (share_request m t s) ?s" using assms(4) by (simp add: can_request_def)
  from submit_v1_eq [OF this, of HandleSubmitResult HandleSubmitError] assms(1-3) extra_nonce2_eq [OF assms(5)] show ?thesis
    by (auto simp: handle_submit_shares_standard_def CHANNEL_ID_def expect_def tlift_def ok_or_def submit_new_def
        share_request_def BIP320_N_VERSION_MASK_def tbind_def tthen_def tget_def tmod_def treturn_def on_err_def
        share_forwarded_def request_sent_def)
qed

definition unknown_job_text :: "SubmitSharesStandard \<Rightarrow> bytes" where
  "unknown_job_text m = ascii ''General error: '' @ ascii ''V2 Job ID not present '' @
      dec_bytes (unat (sss_job_id m)) @ ascii '' in registry''"

definition rejection :: "SubmitSharesStandard \<Rightarrow> bytes \<Rightarrow> SubmitSharesError" where
  "rejection m msg = \<lparr>sserr_channel_id = sss_channel_id m, sserr_seq_num = sss_seq_num m, sserr_code = take 32 msg\<rparr>"

definition rejected :: "SubmitSharesStandard \<Rightarrow> bytes \<Rightarrow> translation \<Rightarrow> translation" where
  "rejected m msg s =
     (let s' = s\<lparr>last_submit := Some (clock s),
                 metrics := map_option (\<lambda>ms. ms @ [AccountRejectedShare (v2_target s)]) (metrics s)\<rparr>
      in if v2_submit_share_queue s = [] then send2 [M_SubmitSharesError (rejection m msg)] s'
         else s'\<lparr>v2_submit_share_queue := v2_submit_share_queue s @ [QueuedError (rejection m msg)]\<rparr>)"

lemma wp_rejected:
  assumes "code_ok msg" and "refusals (v2_tx s) = []"
  shows "wp (reject_shares E (sss_channel_id m) (SeqV2 (sss_seq_num m)) msg)
    (\<lambda>x s'. x = () \<and> s' = rejected m msg s) R N (s\<lparr>last_submit := Some (clock s)\<rparr>)"
  using assms
  by (simp add: reject_shares_def wp_rules wp_error_code account_def Let_def submit_share_response_def
      submit_queued_share_responses_def try_send_accepts rejected_def rejection_def send2_def)

lemma handle_share_unknown_eq:
  assumes "sss_channel_id m = 0" and "v2_channel_details s \<noteq> None"
    and "map_of (v2_to_v1_job_map s) (sss_job_id m) = None" and "refusals (v2_tx s) = []"
  shows "handle_submit_shares_standard E m s = (Done (), rejected m (unknown_job_text m) s)"
proof -
  have "code_ok (unknown_job_text m)"
    using code_ok_texts(2) by (simp add: unknown_job_text_def display_error_def)
  from wp_rejected [OF this assms(4), of E m] show ?thesis
    unfolding wp_exact [symmetric] using assms(1-3)
    by (auto simp: handle_submit_shares_standard_def CHANNEL_ID_def wp_rules ok_or_def display_error_def
        unknown_job_text_def)
qed

section \<open>Accepted shares\<close>

lemma handle_submit_result_eq:
  assumes "boolean_result (libs E) v = Inr True" and "v2_channel_details s \<noteq> None" and "v2_target s = Some t"
    and "v2_submit_share_queue s = [V1ToV2Mapping i n]" and "refusals (v2_tx s) = []"
  shows "handle_submit_result E (Some i) v s =
    (Done (), send2 [M_SubmitSharesSuccess \<lparr>ssok_channel_id = 0, ssok_last_seq_num = n,
       ssok_new_submits_accepted_count = 1, ssok_new_shares_sum = ucast (ucast t :: u64)\<rparr>]
       (s\<lparr>v2_submit_share_queue := [],
          metrics := map_option (\<lambda>ms. ms @ [AccountAcceptedShare (Some t)]) (metrics s)\<rparr>))"
  unfolding wp_exact [symmetric] using assms
  by (auto simp: handle_submit_result_def wp_rules account_def accept_shares_def get_v2_submit_shares_seq_num_def
      submit_share_response_def submit_queued_share_responses_def try_send_accepts send2_def CHANNEL_ID_def)

section \<open>Difficulty and target\<close>

text \<open>The constant of the translation is the target of difficulty 1 of the Bitcoin library.\<close>

lemma DIFF1_TARGET_eq: "DIFF1_TARGET = difficulty_1_target"
  by (rule word_unat_eq_iff [THEN iffD2])
    (simp add: unat_difficulty_1 DIFF1_TARGET_def u256_of_words_def unat_of_nat)

lemma diff_to_target_pool:
  assumes "d \<noteq> 0"
  shows "from_pool_difficulty d = Some (diff_to_target (ucast d))"
proof -
  have "unat (ucast d :: u256) = unat d"
    using unsigned_less [of d, where ?'a = nat] by (simp add: unat_ucast)
  with assms have "(ucast d :: u256) \<noteq> 0" by (auto simp: unat_eq_0)
  with assms show ?thesis by (simp add: from_pool_difficulty_def diff_to_target_def DIFF1_TARGET_eq)
qed

lemma target_to_diff_roundtrip:
  assumes "(d :: u32) \<noteq> 0"
  shows "target_to_diff (diff_to_target (ucast d)) = ucast d"
proof -
  let ?D = "0xffff * 2 ^ 208 :: nat"
  have d: "0 < unat d" "unat d < 2 ^ 32"
    using assms unsigned_less [of d] by (simp_all add: unat_gt_0)
  then have "unat d * unat d \<le> 2 ^ 32 * 2 ^ 32" by (intro mult_le_mono) simp_all
  then have dd: "unat d * unat d \<le> ?D" by simp
  have c: "unat (ucast d :: u256) = unat d" using d(2) by (simp add: unat_ucast)
  then have nz: "(ucast d :: u256) \<noteq> 0" using d(1) by auto
  have "?D div (?D div unat d) = unat d" by (rule div_div_self [OF d(1) dd])
  then have g: "unat (difficulty_1_target div (difficulty_1_target div ucast d)) = unat (ucast d :: u256)"
    by (simp only: unat_div unat_difficulty_1 c)
  moreover have "difficulty_1_target div ucast d \<noteq> 0" using g c d(1) by auto
  ultimately show ?thesis
    using nz by (simp add: target_to_diff_def diff_to_target_def DIFF1_TARGET_eq word_unat_eq_iff)
qed

lemma target_low_bits:
  assumes "k < 32"
  shows "(ucast (ucast (diff_to_target (ucast (2 ^ k :: u32))) :: u64) :: u32) = 0"
proof -
  have "(2 :: nat) ^ k < 2 ^ 32" using assms by (intro power_strict_increasing) simp_all
  then have "unat (of_nat (2 ^ k) :: u32) = 2 ^ k" by (simp only: unat_of_nat) simp
  then have "unat (2 ^ k :: u32) = 2 ^ k" by simp
  with \<open>2 ^ k < 2 ^ 32\<close> have p: "unat (ucast (2 ^ k :: u32) :: u256) = 2 ^ k"
    by (simp add: unat_ucast)
  then have nz: "(ucast (2 ^ k :: u32) :: u256) \<noteq> 0" by auto
  have "unat (diff_to_target (ucast (2 ^ k :: u32))) = 0xffff * 2 ^ 208 div 2 ^ k"
    using nz by (simp only: diff_to_target_def if_False DIFF1_TARGET_eq unat_div unat_difficulty_1 p)
  also have "\<dots> = 2 ^ 64 * (0xffff * 2 ^ (144 - k))"
  proof -
    have "(2 :: nat) ^ 208 = 2 ^ (k + (64 + (144 - k)))" using assms by simp
    then have "(0xffff * 2 ^ 208 :: nat) = 2 ^ k * (2 ^ 64 * (0xffff * 2 ^ (144 - k)))"
      by (simp only: power_add mult.left_commute)
    then show ?thesis by (simp only: nonzero_mult_div_cancel_left power_not_zero) simp
  qed
  finally have "unat (ucast (diff_to_target (ucast (2 ^ k :: u32))) :: u64) = 0"
    by (simp add: unat_ucast)
  then show ?thesis by (simp add: unat_eq_0)
qed

section \<open>An example\<close>

text \<open>A connection that is set up, opens a channel and submits a share for a job it was never given.\<close>

definition configure_value :: json_value where
  "configure_value = JObject [(ascii ''version-rolling'', JBool True),
     (ascii ''version-rolling.mask'', JString (hex_u32_be_into plain_libs BIP320_N_VERSION_MASK))]"

definition example_messages :: "event list" where
  "example_messages =
     [V2Event (v2_frame (M_SetupConnection example_setup)), response 0 configure_value,
      V2Event (v2_frame (M_OpenStandardMiningChannel example_open)),
      V2Event (v2_frame (M_SubmitSharesStandard example_share))]"

definition example_configuring :: translation where
  "example_configuring =
     (request_sent example_env (ReqConfigure (version_configure example_env)) HandleConfigureResult
        HandleConfigureError (example_new\<lparr>v2_conn_details := Some example_setup\<rparr>))\<lparr>state := V1Configure\<rparr>"

definition example_configured :: translation where
  "example_configured =
     send2 [M_SetupConnectionSuccess \<lparr>scs_used_version = 0, scs_flags = 0\<rparr>]
       ((answered 0 (pending_handler (ReqConfigure (version_configure example_env)) HandleConfigureResult
           HandleConfigureError 0) example_configuring)\<lparr>state := ConnectionSetup\<rparr>)"

definition example_opened :: translation where
  "example_opened = open_requested example_env example_open example_setup example_configured"

definition example_rejected :: translation where
  "example_rejected = rejected example_share (unknown_job_text example_share) example_opened"

lemmas example_state_defs = example_new_def translation_new_def request_sent_def answered_def send2_def
  open_requested_def example_configuring_def example_configured_def example_opened_def options_default_def

lemma configure_value_ok:
  "de_hex_u32_be plain_libs (value_index configure_value (ascii ''version-rolling.mask'')) = Inr BIP320_N_VERSION_MASK"
  "as_bool (value_index configure_value (ascii ''version-rolling'')) = Some True"
  using de_hex_roundtrip(2) [OF plain_libs_contract, of BIP320_N_VERSION_MASK]
  by (simp_all add: configure_value_def value_index_def as_bool_def ascii_def)

lemma example_frames:
  "wf_msg (M_SetupConnection example_setup)" "wf_msg (M_OpenStandardMiningChannel example_open)"
  "wf_msg (M_SubmitSharesStandard example_share)"
  by code_simp+

lemma example_handled:
  "handled (M_SetupConnection m)" "handled (M_OpenStandardMiningChannel m')" "handled (M_SubmitSharesStandard m'')"
  by (simp_all add: handled_def)

lemmas example_frame_events = frame_event [OF example_frames(1) example_handled(1)]
  frame_event [OF example_frames(2) example_handled(2)] frame_event [OF example_frames(3) example_handled(3)]

lemma example_steps:
  "handle_event example_env (V2Event (v2_frame (M_SetupConnection example_setup))) example_new = (Done (), example_configuring)"
  "handle_event example_env (response 0 configure_value) example_configuring = (Done (), example_configured)"
  "handle_event example_env (V2Event (v2_frame (M_OpenStandardMiningChannel example_open))) example_configured =
     (Done (), example_opened)"
proof -
  show "handle_event example_env (V2Event (v2_frame (M_SetupConnection example_setup))) example_new =
      (Done (), example_configuring)"
    unfolding example_frame_events handle_message_v2.simps example_configuring_def
    by (rule handle_setup_connection_eq)
      (simp_all add: example_new_def translation_new_def can_request_def)
  let ?h = "pending_handler (ReqConfigure (version_configure example_env)) HandleConfigureResult HandleConfigureError 0"
  have "map_of (v1_req_map example_configuring) 0 = Some ?h"
    by (simp add: example_configuring_def example_new_def translation_new_def request_sent_def hm_insert_def)
  then have "handle_event example_env (response 0 configure_value) example_configuring =
      handle_configure_result example_env (Some 0) configure_value (answered 0 ?h example_configuring)"
    by (subst response_event [where h = ?h]) (simp_all add: pending_handler_def)
  also have "\<dots> = (Done (), example_configured)"
    using configure_value_ok unfolding example_configured_def
    by (intro handle_configure_result_eq)
      (simp_all add: example_env_def answered_def example_configuring_def request_sent_def example_new_def
        translation_new_def)
  finally show "handle_event example_env (response 0 configure_value) example_configuring = (Done (), example_configured)" .
  show "handle_event example_env (V2Event (v2_frame (M_OpenStandardMiningChannel example_open))) example_configured =
      (Done (), example_opened)"
    unfolding example_frame_events handle_message_v2.simps example_opened_def
    by (rule handle_open_eq)
      (simp_all add: example_configured_def answered_def send2_def example_configuring_def request_sent_def
        example_new_def translation_new_def options_default_def can_request_def hm_insert_def hm_remove_def
        subscribe_request_def)
qed

lemma example_opened_run: "run example_env True (take 3 example_messages) example_opened"
proof -
  have "run example_env True [] example_new" unfolding example_new_def by (rule run_new)
  from run_step [OF run_step [OF run_step [OF this example_steps(1)] example_steps(2)] example_steps(3)] show ?thesis
    by (simp add: example_messages_def)
qed

lemma example_run: "run example_env True example_messages example_rejected"
proof -
  have "handle_event example_env (V2Event (v2_frame (M_SubmitSharesStandard example_share))) example_opened =
      (Done (), example_rejected)"
    unfolding example_frame_events handle_message_v2.simps example_rejected_def
    by (rule handle_share_unknown_eq) (simp_all add: example_share_def example_state_defs)
  from run_step [OF example_opened_run this] show ?thesis by (simp add: example_messages_def)
qed

section \<open>Properties\<close>

text \<open>
  C7. In every state a connection can reach, an operational channel has its details, a target, an
  extra nonce and an authorized worker; a pending channel has its details; nothing but the initial
  state is without the connection's details; all jobs are announced as future jobs; and the oldest
  queued share response is one that waits for the pool.
\<close>

theorem translation_invariant:
  assumes "run E safe es s"
  shows "(state s = Operational \<longrightarrow> v2_channel_details s \<noteq> None \<and> v2_target s \<noteq> None \<and>
            v1_extra_nonce1 s \<noteq> None \<and> v1_authorized s) \<and>
    (state s = OpenStandardMiningChannelPending \<longrightarrow> v2_channel_details s \<noteq> None) \<and>
    (state s \<noteq> Init \<or> v1_req_map s \<noteq> [] \<or> v2_channel_details s \<noteq> None \<longrightarrow> v2_conn_details s \<noteq> None) \<and>
    v1_force_future_jobs s \<and>
    (case v2_submit_share_queue s of QueuedError e # q \<Rightarrow> False | _ \<Rightarrow> True)"
  using run_tr_inv [OF assms] by (simp add: tr_inv_def queue_ready_def)

theorem translation_invariant_witness:
  "state example_rejected = OpenStandardMiningChannelPending \<and> v2_channel_details example_rejected \<noteq> None"
proof -
  have "state example_rejected = OpenStandardMiningChannelPending"
    by (simp add: example_rejected_def rejected_def Let_def example_state_defs)
  with translation_invariant [OF example_run] show ?thesis by simp
qed

lemma panics_known:
  assumes "run E safe es s" and "3 * (length es + 1) < 2 ^ 32"
    and "handle_event E e s = (Panicked p, s')"
  shows "(v2_channel_details s = None \<and>
            p \<in> {''BUG: Missing channel details'', ''BUG: V2 channel details missing''}) \<or>
    (p = ''byte index 32 is not a char boundary'' \<and>
     \<not> ((\<forall>v. code_ok (ascii ''ShareRjct:'' @ fmt_result E v)) \<and>
        (\<forall>e. code_ok (ascii ''ShareRjct:'' @ fmt_error E e)))) \<or>
    (p = ''capacity overflow'' \<and> \<not> sizes_fit E e s)"
proof -
  have n: "3 * length es < 2 ^ 32" "3 * length es + 3 < 2 ^ 32" "length es + 1 < 2 ^ 32" using assms(2) by simp_all
  have "plain (3 * length es + 3) (length es + 1) (may_panic E (sizes_fit E e s) s) (handle_event E e) s"
    by (rule plain_event [OF run_ids [OF assms(1) n(1)] n(2,3) run_tr_inv [OF assms(1)]])
  from wp_PanickedD [OF this [unfolded plain_def] assms(3)] have "may_panic E (sizes_fit E e s) s p" .
  then show ?thesis
    unfolding may_panic_def missing_details_def texts_ok_def off_boundary_def by (elim disjE conjE) simp_all
qed

text \<open>
  C6. The panics of the translation: for up to $2^{32}/3$ messages the only panics a message can
  cause are those of a share or of a share's result that arrives while there is no channel; when
  the text of a pool's refusal has no character boundary after 32 bytes, that of cutting it there; and, when
  the pool has chosen a size for the extra nonce with which the coinbase of a job or the extra nonce of a
  share exceeds the largest allocation, that of allocating it.
\<close>

theorem translation_panics:
  assumes "run E safe es s" and "3 * (length es + 1) < 2 ^ 32"
    and "handle_event E e s = (Panicked p, s')"
  shows "(v2_channel_details s = None \<and>
            p \<in> {''BUG: Missing channel details'', ''BUG: V2 channel details missing''}) \<or>
    (p = ''byte index 32 is not a char boundary'' \<and>
     \<not> ((\<forall>v. code_ok (ascii ''ShareRjct:'' @ fmt_result E v)) \<and>
        (\<forall>e. code_ok (ascii ''ShareRjct:'' @ fmt_error E e)))) \<or>
    (p = ''capacity overflow'' \<and> \<not> sizes_fit E e s)"
  using assms by (rule panics_known)

text \<open>
  A client can end the proxy's task for its connection: a share on the only channel id, sent
  while the channel is not open, panics.
\<close>

theorem share_without_channel_panics:
  assumes "v2_channel_details s = None" and "sss_channel_id m = 0"
  shows "\<exists>s'. handle_event E (V2Event (v2_frame (M_SubmitSharesStandard m))) s =
    (Panicked ''BUG: Missing channel details'', s')"
  using assms
  by (subst frame_event)
    (simp_all add: handled_def wf_SubmitSharesStandard_def handle_submit_shares_standard_def CHANNEL_ID_def
      tthen_def tbind_def tmod_def tget_def expect_def panic_def)

text \<open>
  A pool can do so as well: with a size for the extra nonce beyond the largest allocation, the next share for
  a job panics.
\<close>

theorem oversized_extra_nonce_panics:
  assumes "v2_channel_details s \<noteq> None" and "sss_channel_id m = 0" and "map_of (v2_to_v1_job_map s) (sss_job_id m) = Some t"
    and "ISIZE_MAX < v1_extra_nonce2_size s"
  shows "\<exists>s'. handle_event E (V2Event (v2_frame (M_SubmitSharesStandard m))) s = (Panicked ''capacity overflow'', s')"
proof -
  have "wp (handle_submit_shares_standard E m) (\<lambda>_ _. False) (\<lambda>_ _. False) (\<lambda>p. p = ''capacity overflow'') s"
    using assms by (auto simp: handle_submit_shares_standard_def CHANNEL_ID_def wp_rules ok_or_def)
  then show ?thesis
    by (subst frame_event)
      (auto simp: handled_def wf_SubmitSharesStandard_def wp_def split: prod.splits outcome.splits)
qed

lemma example_new_details: "v2_channel_details example_new = None" "sss_channel_id example_share = 0"
  by (simp_all add: example_new_def translation_new_def example_share_def)

theorem share_without_channel_panics_witness:
  "\<exists>s'. handle_event example_env (V2Event (v2_frame (M_SubmitSharesStandard example_share))) example_new =
    (Panicked ''BUG: Missing channel details'', s')"
  by (rule share_without_channel_panics [OF example_new_details])

lemma example_panic:
  "\<exists>s'. handle_event example_env (V2Event (v2_frame (M_SubmitSharesStandard example_share))) example_new =
    (Panicked ''BUG: Missing channel details'', s')"
  by (subst frame_event)
    (simp_all add: handled_def wf_SubmitSharesStandard_def handle_submit_shares_standard_def CHANNEL_ID_def
      tthen_def tbind_def tmod_def tget_def expect_def panic_def example_new_details)

theorem translation_panics_witness:
  "v2_channel_details example_new = None \<and>
   ''BUG: Missing channel details'' \<in> {''BUG: Missing channel details'', ''BUG: V2 channel details missing''}"
proof -
  have "run example_env True [] example_new" unfolding example_new_def by (rule run_new)
  with example_panic translation_panics [of example_env True "[]" example_new] show ?thesis by fastforce
qed

text \<open>
  C1. Share responses keep the order of the shares. While the client takes its frames, the sequence
  numbers of the shares answered so far, accepted or rejected, by the pool or by the proxy itself,
  followed by those still queued, are exactly the sequence numbers of the shares received, in the
  order they came.
\<close>

theorem share_responses_in_order:
  assumes "run E True es s"
  shows "answers s @ queued s = shares es"
  using run_acct [OF assms] by (simp add: acct_def)

theorem share_responses_in_order_witness: "answers example_rejected @ queued example_rejected = shares example_messages"
  by (rule share_responses_in_order [OF example_run])

text \<open>
  C9. A share for a known job, when its extra nonce can be allocated, reaches the pool as a submit of that job's V1 id, with the extra nonce
  of the channel, the client's time and nonce, and the version bits of BIP 320 only; the answer is
  awaited under the request's id. A share for an unknown job is never forwarded: its error is sent at
  once, or queued behind the shares that wait for the pool.
\<close>

theorem share_forwarding:
  assumes "sss_channel_id m = 0" and "v2_channel_details s = Some c"
    and "map_of (v1_req_map s) (v1_req_id s) = None" and "refusals (v1_tx s) = []" and "refusals (v2_tx s) = []"
    and "map_of (v2_to_v1_job_map s) (sss_job_id m) = None \<or> v1_extra_nonce2_size s \<le> ISIZE_MAX"
  shows "\<exists>s'. handle_event E (V2Event (v2_frame (M_SubmitSharesStandard m))) s = (Done (), s') \<and>
    (case map_of (v2_to_v1_job_map s) (sss_job_id m) of
       Some t \<Rightarrow>
         sent (v2_tx s') = sent (v2_tx s) \<and>
         sent (v1_tx s') = sent (v1_tx s) @ [v1_message E (v1_req_id s) (ReqSubmit
           \<lparr>s_user_name = osmc_user c, s_job_id = tmpl_job_id t,
            s_extra_nonce_2 = extra_nonce2 0 (v1_extra_nonce2_size s),
            s_time = sss_ntime m, s_nonce = sss_nonce m, s_version = sss_version m AND 0x1fffe000\<rparr>)] \<and>
         v2_submit_share_queue s' = v2_submit_share_queue s @ [V1ToV2Mapping (v1_req_id s) (sss_seq_num m)] \<and>
         map_option v1_stratum_result_handler (map_of (v1_req_map s') (v1_req_id s)) = Some HandleSubmitResult
     | None \<Rightarrow>
         sent (v1_tx s') = sent (v1_tx s) \<and>
         (if v2_submit_share_queue s = []
          then sent (v2_tx s') = sent (v2_tx s) @ [v2_frame (M_SubmitSharesError (rejection m (unknown_job_text m)))] \<and>
               v2_submit_share_queue s' = []
          else sent (v2_tx s') = sent (v2_tx s) \<and>
               v2_submit_share_queue s' = v2_submit_share_queue s @ [QueuedError (rejection m (unknown_job_text m))]))"
proof (cases "map_of (v2_to_v1_job_map s) (sss_job_id m)")
  case None
  with handle_share_unknown_eq [of m s E] assms show ?thesis
    by (subst frame_event)
      (auto simp: handled_def wf_SubmitSharesStandard_def rejected_def Let_def send2_def)
next
  case (Some t)
  with assms(6) have "v1_extra_nonce2_size s \<le> ISIZE_MAX" by simp
  with handle_share_eq [OF assms(1) _ Some, of E] assms(1-5) Some show ?thesis
    by (subst frame_event)
      (auto simp: handled_def wf_SubmitSharesStandard_def can_request_def share_request_def share_forwarded_def
        request_sent_def hm_insert_def pending_handler_def)
qed

theorem share_forwarding_witness:
  "\<exists>s'. handle_event example_env (V2Event (v2_frame (M_SubmitSharesStandard example_share)))
       (example_opened\<lparr>v2_to_v1_job_map := [(0, job_template example_notify)]\<rparr>) = (Done (), s') \<and>
     sent (v1_tx s') = sent (v1_tx example_opened) @ [v1_message example_env 3 (ReqSubmit
       \<lparr>s_user_name = ascii ''user'', s_job_id = ascii ''job'', s_extra_nonce_2 = [], s_time = 2, s_nonce = 1,
        s_version = 0\<rparr>)]"
proof -
  let ?s = "example_opened\<lparr>v2_to_v1_job_map := [(0, job_template example_notify)]\<rparr>"
  have e: "sss_channel_id example_share = 0" "v2_channel_details ?s = Some example_open"
    "map_of (v1_req_map ?s) (v1_req_id ?s) = None" "refusals (v1_tx ?s) = []" "refusals (v2_tx ?s) = []"
    "map_of (v2_to_v1_job_map ?s) (sss_job_id example_share) = None \<or> v1_extra_nonce2_size ?s \<le> ISIZE_MAX"
    by (simp_all add: example_share_def example_state_defs hm_insert_def hm_remove_def)
  have f: "map_of (v2_to_v1_job_map ?s) (sss_job_id example_share) = Some (job_template example_notify)"
    "v1_req_id ?s = 3" "v1_extra_nonce2_size ?s = 0" "v1_tx ?s = v1_tx example_opened"
    by (simp_all add: example_share_def example_state_defs)
  have "extra_nonce2 0 0 = []" "sss_version example_share AND 0x1fffe000 = 0"
    "osmc_user example_open = ascii ''user''" "sss_ntime example_share = 2" "sss_nonce example_share = 1"
    "tmpl_job_id (job_template example_notify) = ascii ''job''"
    by (simp_all add: extra_nonce2_def example_share_def example_open_def job_template_def
        example_notify_def)
  with share_forwarding [OF e, of example_env] f show ?thesis by (auto simp del: example_opened_def)
qed

text \<open>The same connection with its channel open.\<close>

definition example_live :: translation where
  "example_live = the (exec example_env (map (opening_event example_opening)
     [SubscribeStep, DifficultyStep, AuthorizeStep, JobStep]) example_opened)"

definition example_live_messages :: "event list" where
  "example_live_messages = take 3 example_messages @ map (opening_event example_opening)
     [SubscribeStep, DifficultyStep, AuthorizeStep, JobStep]"

lemma example_opened_waiting: "waiting example_opening example_opened {} example_opened"
  by (simp add: waiting_def example_state_defs requested_def pending_handler_def example_opening_def hm_insert_def
      hm_remove_def)

lemma example_live_run:
  "run example_env True example_live_messages example_live \<and> opened_with example_env example_opening example_opened example_live"
proof -
  have "distinct [SubscribeStep, DifficultyStep, AuthorizeStep, JobStep]"
    and "set [SubscribeStep, DifficultyStep, AuthorizeStep, JobStep] = - {}"
    by (auto intro: opening_step.exhaust)
  from exec_opening [OF good_example example_opened_waiting _ this]
  have x: "exec example_env (map (opening_event example_opening) [SubscribeStep, DifficultyStep, AuthorizeStep, JobStep])
      example_opened = Some example_live" "opened_with example_env example_opening example_opened example_live"
    unfolding example_live_def by (auto simp: complete_def)
  have "run example_env True (take 3 example_messages) example_opened" using example_opened_run .
  from exec_run [OF this x(1)] x(2) show ?thesis by (simp add: example_live_messages_def)
qed

lemma run_can_announce:
  assumes "run E safe es s" and "3 * length es < 2 ^ 32" and "state s = Operational"
    and "refusals (v2_tx s) = []" and "length (n_prev_hash n) = 32" and "job_fits n s"
  shows "can_announce n s"
  using run_tr_inv [OF assms(1)] run_ids [OF assms(1,2)] assms(3-6) map_of_above [of "v2_to_v1_job_map s" "v2_job_id s"]
  by (auto simp: can_announce_def tr_inv_def ids_def)

text \<open>
  C10. Every job the pool announces on an open channel, when its coinbase can be allocated, is announced to the client under a fresh id:
  with the merkle root of the coinbase that has the pool's extra nonce and the channel's own, and
  with the previous hash, time and bits of the notification. The job can then be submitted
  under that id; the earlier jobs remain, unless the pool asked to drop them.
\<close>

theorem job_announced:
  assumes "run E safe es s" and "3 * length es < 2 ^ 32" and "state s = Operational" and "refusals (v2_tx s) = []"
    and "rpc_get_id rpc = Notify" and "request_of_rpc (libs E) Notify rpc = Inr (i, ReqNotify n)"
    and "length (n_prev_hash n) = 32"
    and "length (n_coin_base_1 n) + length (the (v1_extra_nonce1 s)) + v1_extra_nonce2_size s + length (n_coin_base_2 n)
           \<le> ISIZE_MAX"
  shows "\<exists>s' extra_nonce1. handle_event E (V1Event rpc) s = (Done (), s') \<and> v1_extra_nonce1 s = Some extra_nonce1 \<and>
    sent (v2_tx s') = sent (v2_tx s) @ map v2_frame
      [M_NewMiningJob \<lparr>nmj_channel_id = 0, nmj_job_id = v2_job_id s, nmj_future_job = True,
         nmj_version = n_version n, nmj_merkle_root =
           notify_merkle_root (libs E) n extra_nonce1 (extra_nonce2 0 (v1_extra_nonce2_size s))\<rparr>,
       M_SetNewPrevHash \<lparr>snph_channel_id = 0, snph_job_id = v2_job_id s, snph_prev_hash = n_prev_hash n,
         snph_min_ntime = n_time n, snph_nbits = n_bits n\<rparr>] \<and>
    map_of (v2_to_v1_job_map s) (v2_job_id s) = None \<and>
    (\<forall>j. map_of (v2_to_v1_job_map s') j =
       (if j = v2_job_id s
        then Some \<lparr>tmpl_job_id = n_job_id n, tmpl_time = n_time n, tmpl_version = n_version n\<rparr>
        else if n_clean_jobs n then None else map_of (v2_to_v1_job_map s) j))"
proof -
  have "job_fits n s" using assms(8) by (auto simp: job_fits_def coin_base_size_def split: option.split)
  then have c: "can_announce n s" by (rule run_can_announce [OF assms(1-4,7)])
  have "handle_event E (V1Event rpc) s = (Done (), announce E n s)"
    using handle_notify_eq(2) [OF assms(3) c] assms(5,6)
    by (simp add: handle_event_def handle_v1_def dispatch_v1_def)
  then show ?thesis
    using c by (auto simp: can_announce_def announce_def send2_def new_job_def job_root_def job_template_def
        known_jobs_def hm_insert_def map_of_remove [unfolded hm_remove_def])
qed

lemma example_live_facts:
  "run example_env True example_live_messages example_live" "3 * length example_live_messages < 2 ^ 32"
  "state example_live = Operational" "refusals (v2_tx example_live) = []"
  using example_live_run run_acct [of example_env example_live_messages example_live]
  by (simp_all add: opened_with_def acct_def example_live_messages_def example_messages_def)

lemma example_notification:
  "rpc_get_id (notification (ReqNotify example_notify)) = Notify"
  "request_of_rpc (libs example_env) Notify (notification (ReqNotify example_notify)) = Inr (None, ReqNotify example_notify)"
  "length (n_prev_hash example_notify) = 32"
  using notification_read [OF example_requests(2)]
  by (simp_all add: rpc_get_id_notification example_env_def) (simp add: example_notify_def)

lemma example_live_fits:
  "length (n_coin_base_1 example_notify) + length (the (v1_extra_nonce1 example_live)) + v1_extra_nonce2_size example_live +
     length (n_coin_base_2 example_notify) \<le> ISIZE_MAX"
  using example_live_run good_example by (simp add: opened_with_def good_opening_def coin_base_size_def example_opening_def)

theorem job_announced_witness:
  "\<exists>s'. handle_event example_env (V1Event (notification (ReqNotify example_notify))) example_live = (Done (), s') \<and>
     map_of (v2_to_v1_job_map s') (v2_job_id example_live) = Some
       \<lparr>tmpl_job_id = n_job_id example_notify, tmpl_time = n_time example_notify, tmpl_version = n_version example_notify\<rparr>"
  using job_announced [OF example_live_facts example_notification example_live_fits] by auto

text \<open>
  C31. A new difficulty becomes the target that is the target of difficulty 1, divided by it and rounded
  down; an open channel is told so, once and in little-endian form; and the difficulty can be recovered from
  the target.
\<close>

theorem difficulty_sets_target:
  assumes "run E safe es s" and "state s = Operational" and "refusals (v2_tx s) = []"
    and "rpc_get_id rpc = SetDifficulty" and "request_of_rpc (libs E) SetDifficulty rpc = Inr (i, ReqSetDifficulty f)"
    and "f32_as_u32 f \<noteq> 0"
  shows "\<exists>s' t. handle_event E (V1Event rpc) s = (Done (), s') \<and>
    unat t = unat DIFF1_TARGET div unat (f32_as_u32 f) \<and> target_to_diff t = ucast (f32_as_u32 f) \<and>
    v2_target s' = Some t \<and>
    sent (v2_tx s') = sent (v2_tx s) @
      [v2_frame (M_SetTarget \<lparr>st_channel_id = 0, st_max_target = le_bytes 32 (unat t)\<rparr>)]"
proof -
  let ?d = "f32_as_u32 f"
  have u: "unat (ucast ?d :: u256) = unat ?d"
    using unsigned_less [of ?d, where ?'a = nat] by (simp add: unat_ucast)
  with assms(6) have "(ucast ?d :: u256) \<noteq> 0" by (auto simp: unat_eq_0)
  then have t: "unat (diff_to_target (ucast ?d)) = unat DIFF1_TARGET div unat ?d"
    by (simp only: diff_to_target_def if_False unat_div u)
  have "v1_authorized s" "v1_extra_nonce1 s \<noteq> None"
    using run_tr_inv [OF assms(1)] assms(2) by (simp_all add: tr_inv_def)
  then have "handle_event E (V1Event rpc) s =
      (Done (), send2 [M_SetTarget \<lparr>st_channel_id = 0, st_max_target = uint256_of_u256 (diff_to_target (ucast ?d))\<rparr>]
         (s\<lparr>v2_target := Some (diff_to_target (ucast ?d))\<rparr>))"
    using assms(2-5) unfolding wp_exact [symmetric]
    by (auto simp: handle_event_def handle_v1_def dispatch_v1_def handle_set_difficulty_def Let_def wp_rules
        send_set_target_def try_send_accepts send2_def CHANNEL_ID_def)
  with t target_to_diff_roundtrip [OF assms(6)] show ?thesis
    by (auto simp: send2_def uint256_of_u256_def)
qed

lemma example_difficulty:
  "rpc_get_id (notification (ReqSetDifficulty 0x3f800000)) = SetDifficulty"
  "request_of_rpc (libs example_env) SetDifficulty (notification (ReqSetDifficulty 0x3f800000)) =
     Inr (None, ReqSetDifficulty 0x3f800000)"
  "f32_as_u32 0x3f800000 = 1"
  using notification_read [OF example_requests(1)]
  by (simp_all add: rpc_get_id_notification example_env_def f32_as_u32_def Let_def)

theorem difficulty_sets_target_witness:
  "\<exists>s' t. handle_event example_env (V1Event (notification (ReqSetDifficulty 0x3f800000))) example_live = (Done (), s') \<and>
     unat t = unat DIFF1_TARGET \<and> target_to_diff t = 1 \<and> v2_target s' = Some t"
  using difficulty_sets_target [OF example_live_facts(1,3,4) example_difficulty(1,2)] example_difficulty(3) by auto

text \<open>
  The share sum of an accepted share is not its difficulty but the low 32 bits of the target: it
  is zero for every difficulty that is a power of two.
\<close>

theorem accepted_share_sum:
  assumes "boolean_result (libs E) v = Inr True" and "map_of (v1_req_map s) i = Some h"
    and "v1_stratum_result_handler h = HandleSubmitResult"
    and "v2_channel_details s \<noteq> None" and "v2_target s = Some (diff_to_target (ucast (2 ^ k :: u32)))" and "k < 32"
    and "v2_submit_share_queue s = [V1ToV2Mapping i n]" and "refusals (v2_tx s) = []"
  shows "\<exists>s'. handle_event E (response i v) s = (Done (), s') \<and>
    sent (v2_tx s') = sent (v2_tx s) @ [v2_frame (M_SubmitSharesSuccess
      \<lparr>ssok_channel_id = 0, ssok_last_seq_num = n, ssok_new_submits_accepted_count = 1, ssok_new_shares_sum = 0\<rparr>)]"
proof -
  have "handle_event E (response i v) s = handle_submit_result E (Some i) v (answered i h s)"
    by (simp add: response_event [OF assms(2)] assms(3))
  also have "\<dots> = (Done (), send2 [M_SubmitSharesSuccess \<lparr>ssok_channel_id = 0, ssok_last_seq_num = n,
       ssok_new_submits_accepted_count = 1, ssok_new_shares_sum = 0\<rparr>]
       ((answered i h s)\<lparr>v2_submit_share_queue := [], metrics :=
          map_option (\<lambda>ms. ms @ [AccountAcceptedShare (v2_target s)]) (metrics (answered i h s))\<rparr>))"
    using assms(4,5,7,8) target_low_bits [OF assms(6)]
    by (subst handle_submit_result_eq [OF assms(1)]) (auto simp: answered_def)
  finally show ?thesis using assms(8) by (auto simp: send2_def answered_def)
qed

theorem accepted_share_sum_witness:
  "\<exists>s'. handle_event example_env (response 3 (JBool True))
       (example_opened\<lparr>v1_req_map := [(3, pending_handler (share_request example_share (job_template example_notify)
            example_opened) HandleSubmitResult HandleSubmitError 0)],
          v2_target := Some (diff_to_target (ucast (2 ^ 10 :: u32))),
          v2_submit_share_queue := [V1ToV2Mapping 3 5]\<rparr>) = (Done (), s') \<and>
     sent (v2_tx s') = sent (v2_tx example_opened) @ [v2_frame (M_SubmitSharesSuccess
      \<lparr>ssok_channel_id = 0, ssok_last_seq_num = 5, ssok_new_submits_accepted_count = 1, ssok_new_shares_sum = 0\<rparr>)]"
proof -
  let ?h = "pending_handler (share_request example_share (job_template example_notify) example_opened)
    HandleSubmitResult HandleSubmitError 0"
  let ?s = "example_opened\<lparr>v1_req_map := [(3, ?h)], v2_target := Some (diff_to_target (ucast (2 ^ 10 :: u32))),
    v2_submit_share_queue := [V1ToV2Mapping 3 5]\<rparr>"
  have a: "boolean_result (libs example_env) (JBool True) = Inr True" "map_of (v1_req_map ?s) 3 = Some ?h"
    "v1_stratum_result_handler ?h = HandleSubmitResult" "v2_channel_details ?s \<noteq> None"
    using example_results(2) by (simp_all add: example_env_def pending_handler_def example_state_defs)
  have b: "v2_target ?s = Some (diff_to_target (ucast (2 ^ 10 :: u32)))" "(10 :: nat) < 32"
    "v2_submit_share_queue ?s = [V1ToV2Mapping 3 5]" "refusals (v2_tx ?s) = []"
    by (simp_all add: example_state_defs)
  from accepted_share_sum [OF a b] show ?thesis by simp
qed

text \<open>
  A client that sets its connection up a second time is sent an error, and then
  the request goes to the pool all the same: the first details are replaced and the state is that of
  a fresh connection, also when a channel was open.
\<close>

theorem setup_twice:
  assumes "wf_msg (M_SetupConnection m)" and "state s \<noteq> Init" and "refusals (v2_tx s) = []"
    and "can_request E (ReqConfigure (version_configure E)) s"
  shows "\<exists>s'. handle_event E (V2Event (v2_frame (M_SetupConnection m))) s = (Done (), s') \<and>
    sent (v2_tx s') = sent (v2_tx s) @ [v2_frame (M_SetupConnectionError
      \<lparr>sce_flags = sc_flags m, sce_code = ascii ''Connection can be setup only once''\<rparr>)] \<and>
    sent (v1_tx s') = sent (v1_tx s) @ [v1_message E (v1_req_id s) (ReqConfigure (version_configure E))] \<and>
    state s' = V1Configure \<and> v2_conn_details s' = Some m \<and> v2_channel_details s' = v2_channel_details s"
proof -
  let ?err = "M_SetupConnectionError \<lparr>sce_flags = sc_flags m, sce_code = ascii ''Connection can be setup only once''\<rparr>"
  let ?s = "(send2 [?err] s)\<lparr>v2_conn_details := Some m\<rparr>"
  have "sized_from Str0_255 (ascii ''Connection can be setup only once'') = Some (ascii ''Connection can be setup only once'')"
    by code_simp
  then have "wp (only_once E m) (\<lambda>x s'. x = () \<and> s' = send2 [?err] s) (\<lambda>_ _. False) (\<lambda>_. False) s"
    using assms(3) by (simp add: only_once_def expect_str_def wp_rules try_send_accepts send2_def)
  then have o: "only_once E m s = (Done (), send2 [?err] s)" by (simp only: wp_exact)
  have "can_request E (ReqConfigure (version_configure E)) ?s"
    using assms(4) by (simp add: can_request_def send2_def)
  from submit_v1_eq [OF this] have "handle_setup_connection E m s =
    (Done (), (request_sent E (ReqConfigure (version_configure E)) HandleConfigureResult HandleConfigureError ?s)
       \<lparr>state := V1Configure\<rparr>)"
    using assms(2) o
    by (simp add: handle_setup_connection_def tbind_def tthen_def tget_def tmod_def tmap_err_def on_err_def)
  then show ?thesis
    by (simp add: frame_event [OF assms(1)] handled_def request_sent_def send2_def)
qed

theorem setup_twice_witness:
  "\<exists>s'. handle_event example_env (V2Event (v2_frame (M_SetupConnection example_setup))) example_opened = (Done (), s') \<and>
     state s' = V1Configure"
proof -
  have "state example_opened \<noteq> Init" "refusals (v2_tx example_opened) = []"
    "can_request example_env (ReqConfigure (version_configure example_env)) example_opened"
    by (simp_all add: example_state_defs can_request_def hm_insert_def hm_remove_def)
  from setup_twice [OF example_frames(1) this] show ?thesis by blast
qed

end
