(* ===== verification/Proxy_Server.thy ===== *)
theory Proxy_Server
  imports Noise_Proxy Server_Controller Wire_Client Translation_Correct
begin

text \<open>
  \<open>stratum-proxy/src/server.rs\<close>, \<open>server/peer_address.rs\<close>, the error type of \<open>error.rs\<close> and its labels in
  \<open>metrics.rs\<close>: the connections of the proxy from the accepted socket to the end of the
  translation, and the loop that accepts them.

  \<open>conn_run\<close> is \<open>ConnTranslation::run\<close> over the outcomes of its \<open>select!\<close>: a frame, an error or the end of
  either connection, or an elapsed timeout. With each outcome comes what the rest of the world has
  done in the meantime: the time that has passed and the channels that will refuse a frame.
  Sockets, their addresses and the tasks that drain the channels are the environment.
\<close>

section \<open>Errors and their labels\<close>

datatype downstream_error =
    DnSendError bytes | DnEarlyIo string | DnProxyProtocol proxy_error | DnStratum stratum_error | DnTimeout

datatype upstream_error =
    UpSendError bytes | UpIo string | UpProxyProtocol proxy_error | UpStratum stratum_error | UpTimeout

datatype server_error =
    HostNameError string
  | GeneralError bytes
  | GeneralWithMetricsLabel bytes string
  | StratumError stratum_error
  | BitcoinHashesError nat
  | TimeoutError
  | Utf8Error
  | JsonError string
  | ClientAttempt attempt_error
  | InvalidFile string
  | MetricsError string
  | Downstream downstream_error
  | Upstream upstream_error
  | Protocol v2_protocol_error
  | ServerIo string
  | NoiseError noise_proxy_error

text \<open>The errors of the translation among them.\<close>

definition of_px_error :: "px_error \<Rightarrow> server_error" where
  "of_px_error e =
     (case e of
        PxGeneral b \<Rightarrow> GeneralError b
      | PxStratum s \<Rightarrow> StratumError s
      | PxBitcoinHashes n \<Rightarrow> BitcoinHashesError n
      | PxJson s \<Rightarrow> JsonError s
      | PxDownstream b \<Rightarrow> Downstream (DnSendError b)
      | PxUpstream b \<Rightarrow> Upstream (UpSendError b)
      | PxProtocol p \<Rightarrow> Protocol p
      | PxIo ChannelFull \<Rightarrow> ServerIo ''send failed because channel is full''
      | PxIo ChannelDisconnected \<Rightarrow> ServerIo ''send failed because receiver is gone'')"

definition downstream_label :: "downstream_error \<Rightarrow> string" where
  "downstream_label e = (case e of DnEarlyIo _ \<Rightarrow> ''early'' | DnProxyProtocol _ \<Rightarrow> ''haproxy'' | _ \<Rightarrow> ''downstream'')"

definition upstream_label :: "upstream_error \<Rightarrow> string" where
  "upstream_label e = ''upstream''"

definition protocol_label :: "v2_protocol_error \<Rightarrow> string" where
  "protocol_label e =
     (case e of
        PeSetupConnection _ \<Rightarrow> ''setup_connection''
      | PeOpenMiningChannel _ \<Rightarrow> ''open_mining_channel''
      | PeOther _ \<Rightarrow> ''protocol_other'')"

definition stratum_label :: "stratum_error \<Rightarrow> string" where
  "stratum_label s =
     (case s of
        Noise _ \<Rightarrow> ''noise'' | NoiseEncoding _ \<Rightarrow> ''noise'' | NoiseProtocol _ \<Rightarrow> ''noise'' | NoiseSignature _ \<Rightarrow> ''noise''
      | V2Error _ \<Rightarrow> ''downstream''
      | V1Error _ \<Rightarrow> ''upstream''
      | _ \<Rightarrow> ''stratum_other'')"

definition error_label :: "server_error \<Rightarrow> string" where
  "error_label e =
     (case e of
        HostNameError _ \<Rightarrow> ''dns''
      | GeneralWithMetricsLabel _ label \<Rightarrow> label
      | StratumError s \<Rightarrow> stratum_label s
      | Downstream d \<Rightarrow> downstream_label d
      | Upstream u \<Rightarrow> upstream_label u
      | Utf8Error \<Rightarrow> ''utf8''
      | JsonError _ \<Rightarrow> ''json''
      | Protocol p \<Rightarrow> protocol_label p
      | GeneralError _ \<Rightarrow> ''general''
      | TimeoutError \<Rightarrow> ''timeout''
      | ClientAttempt _ \<Rightarrow> ''client_attempt''
      | BitcoinHashesError _ \<Rightarrow> ''bitcoin_hashes''
      | InvalidFile _ \<Rightarrow> ''invalid_file''
      | MetricsError _ \<Rightarrow> ''metrics''
      | ServerIo _ \<Rightarrow> ''io''
      | NoiseError _ \<Rightarrow> ''expired_cert'')"

section \<open>The peer\<close>

record downstream_peer =
  direct_peer :: socket_addr
  dp_proxy_info :: proxy_info

definition downstream_peer_new :: "socket_addr \<Rightarrow> downstream_peer" where
  "downstream_peer_new a = \<lparr>direct_peer = a, dp_proxy_info = proxy_info_default\<rparr>"

definition set_proxy_info :: "downstream_peer \<Rightarrow> proxy_info \<Rightarrow> downstream_peer" where
  "set_proxy_info p i = p\<lparr>dp_proxy_info := i\<rparr>"

definition proxy_info_display :: "(socket_addr \<Rightarrow> bytes) \<Rightarrow> proxy_info \<Rightarrow> bytes" where
  "proxy_info_display print_sock i =
     ascii ''ProxyInfo[SRC:'' @ (case pi_source i of None \<Rightarrow> ascii ''N/A'' | Some s \<Rightarrow> print_sock s) @
     ascii '', DST:'' @ (case pi_destination i of None \<Rightarrow> ascii ''N/A'' | Some s \<Rightarrow> print_sock s) @ ascii '']''"

definition downstream_peer_display :: "(socket_addr \<Rightarrow> bytes) \<Rightarrow> downstream_peer \<Rightarrow> bytes" where
  "downstream_peer_display print_sock p =
     print_sock (direct_peer p) @ ascii ''('' @ proxy_info_display print_sock (dp_proxy_info p) @ ascii '')''"

section \<open>A translation session\<close>

datatype selected =
    V1Next "(stratum_error + v1_rpc payload) option" | V1Elapsed
  | V2Next "(stratum_error + v2_message frame) option" | V2Elapsed

datatype conn_end = ConnOk | ConnErr server_error | ConnPanic string

record moment =
  mo_waited :: nat
  mo_v1_refusals :: "send_error option list"
  mo_v2_refusals :: "send_error option list"

definition env_move :: "moment \<Rightarrow> translation \<Rightarrow> translation" where
  "env_move m s = s\<lparr>v1_tx := (v1_tx s)\<lparr>refusals := mo_v1_refusals m\<rparr>, v2_tx := (v2_tx s)\<lparr>refusals := mo_v2_refusals m\<rparr>,
     clock := clock s + mo_waited m\<rparr>"

definition V1_UPSTREAM_TIMEOUT :: nat where "V1_UPSTREAM_TIMEOUT = 60 * 10 ^ 9"
definition V2_DOWNSTREAM_TIMEOUT :: nat where "V2_DOWNSTREAM_TIMEOUT = 60 * 10 ^ 9"

definition conn_translation_new :: "metric list option \<Rightarrow> translation" where
  "conn_translation_new ms = translation_new \<lparr>sent = [], refusals = []\<rparr> \<lparr>sent = [], refusals = []\<rparr> options_default ms"

text \<open>The \<open>?\<close> after a handler.\<close>

definition conn_handle :: "unit proc \<Rightarrow> translation \<Rightarrow> conn_end option \<times> translation" where
  "conn_handle p s =
     (case p s of
        (Done _, s') \<Rightarrow> (None, s')
      | (Fail e, s') \<Rightarrow> (Some (ConnErr (of_px_error e)), s')
      | (Panicked m, s') \<Rightarrow> (Some (ConnPanic m), s'))"

definition select_step ::
    "tr_env \<Rightarrow> v1_rpc serialize_fn \<Rightarrow> (bytes \<Rightarrow> string + v1_rpc) \<Rightarrow> bytes \<Rightarrow> selected \<Rightarrow> translation \<Rightarrow>
     conn_end option \<times> translation" where
  "select_step E ser parse_json v1_peer_addr x s =
     (case x of
        V1Elapsed \<Rightarrow> (Some (ConnErr (Upstream UpTimeout)), s)
      | V1Next (Some (Inr frame)) \<Rightarrow> conn_handle (v1_handle_frame E ser parse_json frame) s
      | V1Next (Some (Inl e)) \<Rightarrow> (Some (ConnErr (Upstream (UpStratum e))), s)
      | V1Next None \<Rightarrow>
          (Some (ConnErr (GeneralError (ascii ''Upstream V1 stratum connection dropped ('' @ v1_peer_addr @ ascii '')''))), s)
      | V2Elapsed \<Rightarrow> (Some (ConnErr (Downstream DnTimeout)), s)
      | V2Next (Some (Inr frame)) \<Rightarrow> conn_handle (v2_handle_frame E frame) s
      | V2Next (Some (Inl e)) \<Rightarrow> (Some (ConnErr (Downstream (DnStratum e))), s)
      | V2Next None \<Rightarrow> (Some ConnOk, s))"

text \<open>The loop; \<open>None\<close> when it still runs after all the outcomes given.\<close>

fun conn_run ::
    "tr_env \<Rightarrow> v1_rpc serialize_fn \<Rightarrow> (bytes \<Rightarrow> string + v1_rpc) \<Rightarrow> bytes \<Rightarrow> (moment \<times> selected) list \<Rightarrow> translation \<Rightarrow>
     conn_end option \<times> translation" where
  "conn_run E ser parse_json peer [] s = (None, s)"
| "conn_run E ser parse_json peer ((m, x) # xs) s =
     (case select_step E ser parse_json peer x (env_move m s) of
        (None, s') \<Rightarrow> conn_run E ser parse_json peer xs s'
      | (Some r, s') \<Rightarrow> (Some r, s'))"

text \<open>The tasks that drain the channels; \<open>results\<close> are the outcomes of the sends, \<open>None\<close> a success.\<close>

fun v1_send_task :: "'f list \<Rightarrow> 'e option list \<Rightarrow> 'f list" where
  "v1_send_task [] results = []"
| "v1_send_task (f # fs) (Some e # results) = []"
| "v1_send_task (f # fs) results = f # v1_send_task fs (tl results)"

definition v2_try_send_frame :: "'f option \<Rightarrow> stratum_error option \<Rightarrow> server_error + 'f" where
  "v2_try_send_frame frame result =
     (case frame of
        None \<Rightarrow> Inl (GeneralError (ascii ''No more V2 frames to send''))
      | Some f \<Rightarrow> (case result of None \<Rightarrow> Inr f | Some e \<Rightarrow> Inl (StratumError e)))"

fun v2_send_task :: "'f list \<Rightarrow> stratum_error option list \<Rightarrow> 'f list \<times> server_error" where
  "v2_send_task [] results = ([], GeneralError (ascii ''No more V2 frames to send''))"
| "v2_send_task (f # fs) results =
     (case v2_try_send_frame (Some f) (case results of r # _ \<Rightarrow> r | [] \<Rightarrow> None) of
        Inl e \<Rightarrow> ([], e)
      | Inr f \<Rightarrow> (case v2_send_task fs (tl results) of (fs', e) \<Rightarrow> (f # fs', e)))"

section \<open>A proxied connection\<close>

text \<open>
  \<open>px_config\<close> is what a connection takes over from the server, \<open>px_network\<close> what the network does: the
  reads of the downstream socket, the addresses of the sockets, the attempt to connect upstream and the
  write of the header.
\<close>

record px_config =
  px_protocol :: protocol_config
  px_acceptor_builder :: build_method
  px_upstream_version :: "protocol_version option"
  px_security_context :: "security_context option"
  px_upstream_addr :: address

record px_network =
  pn_local_addr :: "string + socket_addr"
  pn_attempt :: "unit attempt"
  pn_peer_addr :: "string + socket_addr"
  pn_write :: "bytes \<Rightarrow> string + nat"

record proxy_connection =
  pxc_acceptor :: "reads option"
  pxc_peer :: downstream_peer

definition proxy_connection_new :: "reads \<Rightarrow> socket_addr \<Rightarrow> proxy_connection" where
  "proxy_connection_new connection peer = \<lparr>pxc_acceptor = Some connection, pxc_peer = downstream_peer_new peer\<rparr>"

text \<open>An early return of \<open>do_handle\<close>; what was written upstream until then is kept.\<close>

definition security_error :: "(noise_proxy_error \<Rightarrow> string) \<Rightarrow> noise_proxy_error \<Rightarrow> conn_end" where
  "security_error show_np e =
     (case e of NpPanic p \<Rightarrow> ConnPanic p | _ \<Rightarrow> ConnErr (StratumError (Noise (show_np e))))"

definition secure_downstream ::
    "('h, 't) snow_lib \<Rightarrow> (stratum_error \<Rightarrow> string) \<Rightarrow> (noise_proxy_error \<Rightarrow> string) \<Rightarrow> 'u \<Rightarrow>
     (proxy_stream \<Rightarrow> ('s, 't) noise_codec framed_parts \<times> hs_stream) \<Rightarrow> px_config \<Rightarrow> proxy_stream \<Rightarrow>
     (conn_end + ('s, 't, 'u) compound_codec framed_parts) option" where
  "secure_downstream S show_err show_np u0 frames_of cfg ps =
     (case px_security_context cfg of
        Some ctx \<Rightarrow>
          map_option (\<lambda>(r, _). map_err (security_error show_np) r)
            (context_build_framed_tcp S show_err u0 ctx (fst (frames_of ps)) (snd (frames_of ps)))
      | None \<Rightarrow> Some (Inr \<lparr>fp_codec = \<lparr>cc_noise_codec = None, cc_l2_codec = u0\<rparr>, read_buf = ps_buf ps, write_buf = []\<rparr>))"

definition pass_proxy_header ::
    "(bytes \<Rightarrow> bytes) \<Rightarrow> px_config \<Rightarrow> px_network \<Rightarrow> proxy_stream \<Rightarrow> socket_addr \<Rightarrow> socket_addr \<Rightarrow>
     (proxy_error + unit) \<times> bytes" where
  "pass_proxy_header print6 cfg nw ps direct local_addr =
     (case px_upstream_version cfg of
        None \<Rightarrow> (Inr (), [])
      | Some version \<Rightarrow>
          (case upstream_addresses (ps_source ps) (ps_destination ps) direct local_addr of
             (src, dst) \<Rightarrow> write_proxy_header version print6 (pn_write nw) src dst))"

definition do_handle ::
    "('h, 't) snow_lib \<Rightarrow> (stratum_error \<Rightarrow> string) \<Rightarrow> (noise_proxy_error \<Rightarrow> string) \<Rightarrow> 'u \<Rightarrow>
     (proxy_stream \<Rightarrow> ('s, 't) noise_codec framed_parts \<times> hs_stream) \<Rightarrow> v1_codec framed_next \<Rightarrow> v2_codec framed_next \<Rightarrow>
     (bytes \<Rightarrow> bytes) \<Rightarrow> (('s, 't, 'u) compound_codec framed_parts \<Rightarrow> downstream_peer \<Rightarrow> socket_addr \<Rightarrow> conn_end) \<Rightarrow>
     px_config \<Rightarrow> px_network \<Rightarrow> proxy_connection \<Rightarrow> (conn_end \<times> bytes \<times> proxy_connection) option" where
  "do_handle S show_err show_np u0 frames_of next1 next2 print6 handle_connection cfg nw c =
     (case pxc_acceptor c of
        None \<Rightarrow> Some (ConnPanic ''BUG: proxy protocol acceptor has already been used'', [], c)
      | Some stream \<Rightarrow>
          (let c = c\<lparr>pxc_acceptor := None\<rparr> in
           case acceptor_build (px_protocol cfg) (px_acceptor_builder cfg) next1 next2 stream of
             Inl e \<Rightarrow> Some (ConnErr (Downstream (DnProxyProtocol e)), [], c)
           | Inr ps \<Rightarrow>
               (case pn_local_addr nw of
                  Inl e \<Rightarrow> Some (ConnErr (Downstream (DnProxyProtocol (ProxyIo e))), [], c)
                | Inr local_addr \<Rightarrow>
                    (case stream_proxy_info ps of
                       Inl e \<Rightarrow> Some (ConnErr (Downstream (DnProxyProtocol e)), [], c)
                     | Inr info \<Rightarrow>
                         (let c = c\<lparr>pxc_peer := set_proxy_info (pxc_peer c) info\<rparr> in
                          case client_next backoff_next backoff_reset (client_new (px_upstream_addr cfg)) (pn_attempt nw) of
                            None \<Rightarrow> Some (ConnPanic ''BUG: no backoff'', [], c)
                          | Some (Inl e, _) \<Rightarrow> Some (ConnErr (ClientAttempt e), [], c)
                          | Some (Inr _, _) \<Rightarrow>
                              (case pn_peer_addr nw of
                                 Inl e \<Rightarrow> Some (ConnErr (Upstream (UpIo e)), [], c)
                               | Inr v1_peer_addr \<Rightarrow>
                                   (case pass_proxy_header print6 cfg nw ps (direct_peer (pxc_peer c)) local_addr of
                                      (Inl e, out) \<Rightarrow> Some (ConnErr (Upstream (UpProxyProtocol e)), out, c)
                                    | (Inr _, out) \<Rightarrow>
                                        map_option (\<lambda>r.
                                            (case r of Inl e \<Rightarrow> e | Inr v2 \<Rightarrow> handle_connection v2 (pxc_peer c) v1_peer_addr, out, c))
                                          (secure_downstream S show_err show_np u0 frames_of cfg ps))))))))"

text \<open>\<open>ProxyConnection::handle\<close>: the label under which the end of the connection is counted.\<close>

definition close_label :: "conn_end \<Rightarrow> string option" where
  "close_label r = (case r of ConnOk \<Rightarrow> Some ''ok'' | ConnErr e \<Rightarrow> Some (error_label e) | ConnPanic _ \<Rightarrow> None)"

section \<open>The accepting loop\<close>

text \<open>
  The outcomes of the \<open>select!\<close> of \<open>main_loop\<close>; a failure comes with the two readings of the clock, when it
  is stored and when its distance to the failure before is measured.
\<close>

datatype accept_event = TcpAccepted socket_addr | TcpFailed nat nat | TripwireFired | ShutdownNotified

record proxy_server =
  sv_controller :: controller
  sv_accepted :: "socket_addr list"
  sv_last_failure :: "nat option"
  sv_opened :: nat
  sv_accepts_success :: nat
  sv_accepts_error :: nat
  sv_breakdowns :: "(nat \<times> nat) list"
  sv_bind_results :: "bool list"

definition account_successful_tcp_open :: "proxy_server \<Rightarrow> proxy_server" where
  "account_successful_tcp_open sv =
     sv\<lparr>sv_opened := sv_opened sv + 1, sv_accepts_success := sv_accepts_success sv + 1\<rparr>"

definition account_unsuccessful_tcp_open :: "proxy_server \<Rightarrow> proxy_server" where
  "account_unsuccessful_tcp_open sv = sv\<lparr>sv_accepts_error := sv_accepts_error sv + 1\<rparr>"

definition account_tcp_listener_breakdown :: "proxy_server \<Rightarrow> proxy_server" where
  "account_tcp_listener_breakdown sv =
     sv\<lparr>sv_breakdowns := sv_breakdowns sv @ [(sv_accepts_error sv, sv_accepts_success sv)],
        sv_accepts_error := 0, sv_accepts_success := 0\<rparr>"

definition bind_new_socket :: "proxy_server \<Rightarrow> bool \<times> proxy_server" where
  "bind_new_socket sv =
     (case sv_bind_results sv of
        [] \<Rightarrow> (True, account_tcp_listener_breakdown sv)
      | b # bs \<Rightarrow> (b, (account_tcp_listener_breakdown sv)\<lparr>sv_bind_results := bs\<rparr>))"

text \<open>Binding is tried until it succeeds.\<close>

function rebind :: "proxy_server \<Rightarrow> proxy_server" where
  "rebind sv = (case bind_new_socket sv of (True, sv') \<Rightarrow> sv' | (False, sv') \<Rightarrow> rebind sv')"
  by pat_completeness auto
termination
  by (relation "measure (\<lambda>sv. length (sv_bind_results sv))")
    (auto simp: bind_new_socket_def account_tcp_listener_breakdown_def split: list.split_asm)

definition REBIND_INTERVAL :: nat where "REBIND_INTERVAL = 10 ^ 6"

definition server_accept :: "socket_addr \<Rightarrow> proxy_server \<Rightarrow> proxy_server" where
  "server_accept peer sv =
     sv\<lparr>sv_controller := counter_for_new_client (sv_controller sv), sv_accepted := sv_accepted sv @ [peer]\<rparr>"

fun main_loop :: "accept_event list \<Rightarrow> proxy_server \<Rightarrow> waiter \<times> proxy_server" where
  "main_loop [] sv = (Serving, sv)"
| "main_loop (TcpAccepted peer # es) sv = main_loop es (server_accept peer (account_successful_tcp_open sv))"
| "main_loop (TcpFailed now later # es) sv =
     (let sv' = (account_unsuccessful_tcp_open sv)\<lparr>sv_last_failure := Some now\<rparr> in
      main_loop es
        (case sv_last_failure sv of
           Some last_fail \<Rightarrow> if later - last_fail < REBIND_INTERVAL then rebind sv' else sv'
         | None \<Rightarrow> sv'))"
| "main_loop (TripwireFired # es) sv =
     (let sv' = sv\<lparr>sv_controller := request_immediate_termination (sv_controller sv)\<rparr>
      in (wait_for_termination (sv_controller sv'), sv'))"
| "main_loop (ShutdownNotified # es) sv = (wait_for_termination (sv_controller sv), sv)"

text \<open>
  \<open>ProxyServer::listen\<close>: the first address the name resolves to is bound; a header that is required
  in no version is a configuration that panics.
\<close>

definition server_new :: proxy_server where
  "server_new = \<lparr>sv_controller = controller_default, sv_accepted = [], sv_last_failure = None, sv_opened = 0,
     sv_accepts_success = 0, sv_accepts_error = 0, sv_breakdowns = [], sv_bind_results = []\<rparr>"

definition server_listen ::
    "protocol_config \<Rightarrow> string + socket_addr list \<Rightarrow> string option \<Rightarrow> conn_end + socket_addr \<times> build_method \<times> proxy_server" where
  "server_listen config resolved bind_error =
     (case resolved of
        Inl e \<Rightarrow> Inl (ConnErr (HostNameError e))
      | Inr [] \<Rightarrow> Inl (ConnErr (HostNameError ''Failed to resolve listen_addr''))
      | Inr (a # _) \<Rightarrow>
          (case acceptor_builder_new config of
             Inl _ \<Rightarrow> Inl (ConnPanic ''BUG: inconsistent config'')
           | Inr builder \<Rightarrow>
               (case bind_error of
                  Some e \<Rightarrow> Inl (ConnErr (ServerIo e))
                | None \<Rightarrow> Inr (a, builder, account_tcp_listener_breakdown server_new))))"

declare rebind.simps [simp del]

section \<open>Sessions are runs of the translation\<close>

fun selected_event :: "v1_rpc serialize_fn \<Rightarrow> (bytes \<Rightarrow> string + v1_rpc) \<Rightarrow> selected \<Rightarrow> event list" where
  "selected_event ser parse_json (V1Next (Some (Inr frame))) =
     (case rpc_of_frame ser parse_json frame of Inr rpc \<Rightarrow> [V1Event rpc] | Inl _ \<Rightarrow> [])"
| "selected_event ser parse_json (V2Next (Some (Inr frame))) = [V2Event frame]"
| "selected_event ser parse_json _ = []"

definition session_events :: "v1_rpc serialize_fn \<Rightarrow> (bytes \<Rightarrow> string + v1_rpc) \<Rightarrow> (moment \<times> selected) list \<Rightarrow> event list" where
  "session_events ser parse_json xs = concat (map (\<lambda>x. selected_event ser parse_json (snd x)) xs)"

lemma session_events_simps [simp]:
  "session_events ser parse_json [] = []"
  "session_events ser parse_json (x # xs) = selected_event ser parse_json (snd x) @ session_events ser parse_json xs"
  "session_events ser parse_json (xs @ ys) = session_events ser parse_json xs @ session_events ser parse_json ys"
  by (simp_all add: session_events_def)

lemma selected_event_length: "length (selected_event ser parse_json x) \<le> 1"
  by (cases "(ser, parse_json, x)" rule: selected_event.cases) (auto split: sum.split)

lemma session_events_length: "length (session_events ser parse_json xs) \<le> length xs"
proof (induction xs)
  case (Cons x xs)
  then show ?case using selected_event_length [of ser parse_json "snd x"] by simp
qed simp

text \<open>A step of the loop that goes on has handled one message, one that ends with a panic too.\<close>

lemma select_step_handles:
  assumes "select_step E ser parse_json peer x s = (r, s')"
  shows "r = None \<Longrightarrow> \<exists>e. selected_event ser parse_json x = [e] \<and> handle_event E e s = (Done (), s')"
    and "r = Some (ConnPanic p) \<Longrightarrow> \<exists>e. selected_event ser parse_json x = [e] \<and> handle_event E e s = (Panicked p, s')"
    and "r = Some ConnOk \<longleftrightarrow> x = V2Next None"
  using assms
  by (auto simp: select_step_def conn_handle_def v1_handle_frame_def tbind_def tlift_def fail_def treturn_def
      handle_event_def map_err_def split: selected.split_asm option.split_asm sum.split_asm prod.split_asm outcome.split_asm)

text \<open>A frame from the pool that is a V1 message.\<close>

fun readable :: "v1_rpc serialize_fn \<Rightarrow> (bytes \<Rightarrow> string + v1_rpc) \<Rightarrow> selected \<Rightarrow> bool" where
  "readable ser parse_json (V1Next (Some (Inr frame))) = is_ok (rpc_of_frame ser parse_json frame)"
| "readable ser parse_json x = True"

lemma select_step_fails:
  assumes "select_step E ser parse_json peer x s = (Some (ConnErr e), s')" and "readable ser parse_json x"
  shows "x \<in> {V1Elapsed, V2Elapsed, V1Next None} \<or> (\<exists>err. x \<in> {V1Next (Some (Inl err)), V2Next (Some (Inl err))}) \<or>
    (\<exists>ev err. selected_event ser parse_json x = [ev] \<and> handle_event E ev s = (Fail err, s'))"
  using assms
  by (cases "(ser, parse_json, x)" rule: readable.cases)
    (auto simp: select_step_def conn_handle_def v1_handle_frame_def tbind_def tlift_def treturn_def handle_event_def
      map_err_def is_ok_iff split: selected.split_asm option.split_asm sum.split_asm prod.split_asm outcome.split_asm)

lemma run_env_move:
  assumes "run E False es s"
  shows "run E False es (env_move m s)"
  using run_env [OF assms, of "mo_v2_refusals m" "clock s + mo_waited m" "mo_v1_refusals m"] by (simp add: env_move_def)

lemma conn_run_is_run:
  "run E False es s \<Longrightarrow> conn_run E ser parse_json peer xs s = (None, s') \<Longrightarrow>
    run E False (es @ session_events ser parse_json xs) s'"
proof (induction xs arbitrary: es s)
  case (Cons x xs)
  obtain m y where x: "x = (m, y)" by (cases x)
  from Cons.prems(2) obtain s1 where s1: "select_step E ser parse_json peer y (env_move m s) = (None, s1)"
    "conn_run E ser parse_json peer xs s1 = (None, s')"
    by (auto simp: x split: prod.split_asm option.split_asm)
  from select_step_handles(1) [OF s1(1) refl] obtain e where e: "selected_event ser parse_json y = [e]"
    "handle_event E e (env_move m s) = (Done (), s1)" by blast
  from Cons.IH [OF run_step [OF run_env_move [OF Cons.prems(1)] e(2)] s1(2)] e(1) show ?case by (simp add: x)
qed simp

lemma conn_run_ends:
  "conn_run E ser parse_json peer xs s = (Some r, s') \<Longrightarrow>
    \<exists>pre m x post s1. xs = pre @ (m, x) # post \<and> conn_run E ser parse_json peer pre s = (None, s1) \<and>
      select_step E ser parse_json peer x (env_move m s1) = (Some r, s')"
proof (induction xs arbitrary: s)
  case (Cons y ys)
  obtain m x where y: "y = (m, x)" by (cases y)
  obtain r1 s1 where s1: "select_step E ser parse_json peer x (env_move m s) = (r1, s1)" by fastforce
  show ?case
  proof (cases r1)
    case None
    with Cons.prems s1 y have "conn_run E ser parse_json peer ys s1 = (Some r, s')" by simp
    from Cons.IH [OF this] obtain pre m' x' post s2 where "ys = pre @ (m', x') # post"
      "conn_run E ser parse_json peer pre s1 = (None, s2)" "select_step E ser parse_json peer x' (env_move m' s2) = (Some r, s')"
      by blast
    with None s1 y show ?thesis
      by (intro exI [of _ "y # pre"] exI [of _ m'] exI [of _ x'] exI [of _ post] exI [of _ s2]) simp
  next
    case (Some r2)
    with Cons.prems s1 y show ?thesis
      by (intro exI [of _ "[]"] exI [of _ m] exI [of _ x] exI [of _ ys] exI [of _ s]) simp
  qed
qed simp

section \<open>Properties\<close>

text \<open>
  C8. The life of a connection whose pool sends lines that are V1 messages. While the loop runs, its translation
  is in a state that the messages received, in the order in which they were selected, lead to from a new
  one. The loop ends without an error exactly when the client closes its connection. It ends with an
  error only when a timer has elapsed, the pool has closed its connection, a stream has failed, or the
  handler of the last message has returned one. And a panic that ends it is one of those that the
  translation is known to have: a share before the channel is open, the result of one, the text of a
  refusal that cannot be cut, or an extra nonce that is too large to be allocated.
\<close>

theorem connection_lifecycle:
  assumes "conn_run E ser parse_json peer xs (conn_translation_new ms) = (r, s)" and "3 * length xs < 2 ^ 32"
    and "list_all (\<lambda>x. readable ser parse_json (snd x)) xs"
  shows "case r of
      None \<Rightarrow> run E False (session_events ser parse_json xs) s
    | Some e \<Rightarrow>
        \<exists>pre m x post s1. xs = pre @ (m, x) # post \<and> run E False (session_events ser parse_json pre) s1 \<and>
          (case e of
             ConnOk \<Rightarrow> x = V2Next None
           | ConnErr _ \<Rightarrow>
               x \<in> {V1Elapsed, V2Elapsed, V1Next None} \<or> (\<exists>err. x \<in> {V1Next (Some (Inl err)), V2Next (Some (Inl err))}) \<or>
               (\<exists>ev err. selected_event ser parse_json x = [ev] \<and> handle_event E ev (env_move m s1) = (Fail err, s))
           | ConnPanic p \<Rightarrow>
               (\<exists>ev. selected_event ser parse_json x = [ev] \<and> handle_event E ev (env_move m s1) = (Panicked p, s) \<and>
                  (p \<in> {''BUG: Missing channel details'', ''BUG: V2 channel details missing'',
                         ''byte index 32 is not a char boundary''} \<or>
                   p = ''capacity overflow'' \<and> \<not> sizes_fit E ev (env_move m s1))))"
proof (cases r)
  case None
  have "run E False [] (conn_translation_new ms)" unfolding conn_translation_new_def by (rule run_new)
  from conn_run_is_run [OF this assms(1) [unfolded None]] None show ?thesis by simp
next
  case (Some e)
  from conn_run_ends [OF assms(1) [unfolded Some]] obtain pre m x post s1 where x: "xs = pre @ (m, x) # post"
    "conn_run E ser parse_json peer pre (conn_translation_new ms) = (None, s1)"
    "select_step E ser parse_json peer x (env_move m s1) = (Some e, s)" by blast
  have "run E False [] (conn_translation_new ms)" unfolding conn_translation_new_def by (rule run_new)
  from conn_run_is_run [OF this x(2)] have run: "run E False (session_events ser parse_json pre) s1" by simp
  have len: "3 * (length (session_events ser parse_json pre) + 1) < 2 ^ 32"
    using assms(2) session_events_length [of ser parse_json pre] by (simp add: x(1))
  have readable: "readable ser parse_json x" using assms(3) by (simp add: x(1))
  note ends = select_step_handles(2) [OF x(3)] select_step_handles(3) [OF x(3)]
    panics_known [OF run_env_move [OF run] len]
  have "case e of
        ConnOk \<Rightarrow> x = V2Next None
      | ConnErr _ \<Rightarrow>
          x \<in> {V1Elapsed, V2Elapsed, V1Next None} \<or> (\<exists>err. x \<in> {V1Next (Some (Inl err)), V2Next (Some (Inl err))}) \<or>
          (\<exists>ev err. selected_event ser parse_json x = [ev] \<and> handle_event E ev (env_move m s1) = (Fail err, s))
      | ConnPanic p \<Rightarrow>
          (\<exists>ev. selected_event ser parse_json x = [ev] \<and> handle_event E ev (env_move m s1) = (Panicked p, s) \<and>
             (p \<in> {''BUG: Missing channel details'', ''BUG: V2 channel details missing'',
                    ''byte index 32 is not a char boundary''} \<or>
              p = ''capacity overflow'' \<and> \<not> sizes_fit E ev (env_move m s1)))"
  proof (cases e)
    case (ConnPanic p)
    with ends(1) obtain ev where ev: "selected_event ser parse_json x = [ev]"
      "handle_event E ev (env_move m s1) = (Panicked p, s)" by blast
    from ev ends(3) [OF ev(2)] ConnPanic show ?thesis by auto
  next
    case (ConnErr err)
    with select_step_fails [OF x(3) [unfolded ConnErr] readable] show ?thesis by simp
  qed (use ends(2) in simp)
  with Some x(1) run show ?thesis by auto
qed

text \<open>What the timers of the loop allow: both are new in every round.\<close>

fun timely :: "moment \<times> selected \<Rightarrow> bool" where
  "timely (m, V1Elapsed) \<longleftrightarrow> V1_UPSTREAM_TIMEOUT \<le> mo_waited m"
| "timely (m, V2Elapsed) \<longleftrightarrow> V2_DOWNSTREAM_TIMEOUT \<le> mo_waited m"
| "timely (m, x) \<longleftrightarrow> mo_waited m \<le> V1_UPSTREAM_TIMEOUT \<and> mo_waited m \<le> V2_DOWNSTREAM_TIMEOUT"

definition foreign_frame :: "v2_message frame" where
  "foreign_frame = \<lparr>frame_header = \<lparr>is_channel_message = False, extension_type = 0x1234, msg_type = 0, msg_length = Some 0\<rparr>,
     frame_payload = SerializedBytes []\<rparr>"

lemma foreign_frames_ignored:
  "fst (conn_run E ser parse_json peer
     (replicate n (\<lparr>mo_waited = w, mo_v1_refusals = [], mo_v2_refusals = []\<rparr>, V2Next (Some (Inr foreign_frame)))) s) = None"
  by (induction n arbitrary: s)
    (simp_all add: select_step_def conn_handle_def v2_handle_frame_def foreign_frame_def BASE_def treturn_def)

text \<open>
  The timeout of the upstream connection does not watch the upstream connection: it starts anew whenever
  the client sends anything. A client whose frames arrive once a minute, even frames of an
  extension that the proxy ignores, keeps the session with a silent pool alive for any length of time.
\<close>

theorem upstream_timeout_masked:
  "\<exists>xs. list_all timely xs \<and> list_all (\<lambda>x. \<exists>f. snd x = V2Next (Some (Inr f))) xs \<and>
     n \<le> sum_list (map (\<lambda>x. mo_waited (fst x)) xs) \<and> fst (conn_run E ser parse_json peer xs s) = None"
proof -
  let ?x = "(\<lparr>mo_waited = V1_UPSTREAM_TIMEOUT, mo_v1_refusals = [], mo_v2_refusals = []\<rparr>, V2Next (Some (Inr foreign_frame)))"
  have "sum_list (map (\<lambda>x. mo_waited (fst x)) (replicate n ?x)) = n * V1_UPSTREAM_TIMEOUT"
    by (simp add: sum_list_replicate)
  then have "n \<le> sum_list (map (\<lambda>x. mo_waited (fst x)) (replicate n ?x))" by (simp add: V1_UPSTREAM_TIMEOUT_def)
  moreover have "list_all timely (replicate n ?x)"
    by (simp add: list_all_iff V1_UPSTREAM_TIMEOUT_def V2_DOWNSTREAM_TIMEOUT_def)
  moreover have "list_all (\<lambda>x. \<exists>f. snd x = V2Next (Some (Inr f))) (replicate n ?x)"
    by (simp add: list_all_iff)
  ultimately show ?thesis
    using foreign_frames_ignored by (intro exI [of _ "replicate n ?x"]) (auto simp del: map_replicate)
qed

theorem connection_lifecycle_witness:
  "\<exists>pre m x post s1. [(\<lparr>mo_waited = 5, mo_v1_refusals = [], mo_v2_refusals = []\<rparr>, V2Next (None :: (stratum_error + v2_message frame) option))] =
     pre @ (m, x) # post \<and> run example_env False (session_events (\<lambda>_. Inr []) (\<lambda>_. Inl []) pre) s1 \<and> x = V2Next None"
proof -
  have "conn_run example_env (\<lambda>_. Inr []) (\<lambda>_. Inl []) [] [(\<lparr>mo_waited = 5, mo_v1_refusals = [], mo_v2_refusals = []\<rparr>, V2Next None)]
      (conn_translation_new None) = (Some ConnOk, env_move \<lparr>mo_waited = 5, mo_v1_refusals = [], mo_v2_refusals = []\<rparr> (conn_translation_new None))"
    by (simp add: select_step_def)
  from connection_lifecycle [OF this] show ?thesis by (auto split: conn_end.split_asm)
qed

section \<open>Addresses\<close>

lemma map_option_keeps: "map_option (\<lambda>r. (f r, out, c)) x = Some (v, out', c') \<Longrightarrow> out = out' \<and> c = c'"
  by (cases x) auto

text \<open>
  C15. The pool learns the address of the miner. When a load balancer in front of the proxy announces a
  connection by a PROXY header of either version, and the proxy is configured to announce connections to
  the pool, then whatever the pieces in which the streams arrive, the header that the proxy writes
  is accepted at the pool with the same two addresses, followed by exactly the bytes sent after
  it.
\<close>

theorem miner_address_forwarded:
  assumes "framed_contract next1 (v1_decode parse6)" and "framed_contract next2 v2_decode" and "ipv6_text parse6 print6"
    and "proxy_info_try_from (Some a) (Some b) = Inr i" and "wf_info i"
    and "write_proxy_header v print6 (\<lambda>data. Inr (length data)) (Some a) (Some b) = (Inr (), h)"
    and "[] \<notin> set cs" and "concat cs = h @ payload"
    and "px_acceptor_builder cfg = BuildAuto" and "px_upstream_version cfg = Some v'"
    and "pn_write nw = (\<lambda>data. Inr (length data))"
    and "do_handle S show_err show_np u0 frames_of next1 next2 print6 hc cfg nw (proxy_connection_new (map Inr cs) direct) = Some (ConnOk, h', c)"
    and "[] \<notin> set cs'" and "concat cs' = h' @ payload'"
  shows "dp_proxy_info (pxc_peer c) = i \<and> direct_peer (pxc_peer c) = direct \<and>
    (\<exists>ps'. accept_auto require' next1 next2 (map Inr cs') = Inr ps' \<and> ps_source ps' = Some a \<and>
       ps_destination ps' = Some b \<and> ps_buf ps' @ stream_data (ps_inner ps') = payload')"
proof -
  let ?c = "proxy_connection_new (map Inr cs) direct"
  from connector_accepted [OF assms(1-8), of "pc_require_proxy_header (px_protocol cfg)"] obtain ps where
    ps: "accept_auto (pc_require_proxy_header (px_protocol cfg)) next1 next2 (map Inr cs) = Inr ps"
    "ps_source ps = Some a" "ps_destination ps = Some b" by blast
  have info: "stream_proxy_info ps = Inr i" using ps(2,3) assms(4) by (simp add: stream_proxy_info_def)
  have build: "acceptor_build (px_protocol cfg) (px_acceptor_builder cfg) next1 next2 (map Inr cs) = Inr ps"
    using ps(1) assms(9) by (simp add: acceptor_build_def)
  have w: "pass_proxy_header print6 cfg nw ps d l = write_proxy_header v' print6 (\<lambda>data. Inr (length data)) (Some a) (Some b)" for d l
    using assms(10,11) ps(2,3) by (simp add: pass_proxy_header_def upstream_addresses_def)
  from assms(12) have "write_proxy_header v' print6 (\<lambda>data. Inr (length data)) (Some a) (Some b) = (Inr (), h') \<and>
      pxc_peer c = set_proxy_info (downstream_peer_new direct) i"
    by (auto simp: do_handle_def proxy_connection_new_def build info w Let_def simp del: map_option_eq_Some
        dest!: map_option_keeps split: sum.split_asm option.split_asm prod.split_asm)
  with connector_accepted [OF assms(1-5) _ assms(13,14), of v' require'] show ?thesis
    by (simp add: set_proxy_info_def downstream_peer_new_def)
qed

text \<open>A miner behind a load balancer that announces it by a version 1 header, a pool that wants version 2.\<close>

definition example_px_config :: px_config where
  "example_px_config = \<lparr>px_protocol = \<lparr>pc_require_proxy_header = False, pc_versions = [PV1, PV2]\<rparr>, px_acceptor_builder = BuildAuto,
     px_upstream_version = Some PV2, px_security_context = None, px_upstream_addr = Address (ascii ''pool'') 3333\<rparr>"

definition example_px_network :: px_network where
  "example_px_network = \<lparr>pn_local_addr = Inr (SockV4 [10, 0, 0, 9] 3336),
     pn_attempt = \<lparr>at_called = 0, at_checked = 0, at_finished = 0, at_outcome = Inr ()\<rparr>,
     pn_peer_addr = Inr (SockV4 [10, 0, 0, 10] 3333), pn_write = (\<lambda>data. Inr (length data))\<rparr>"

abbreviation example_miner :: socket_addr where "example_miner \<equiv> SockV4 [192, 168, 0, 1] 5000"
abbreviation example_balancer :: socket_addr where "example_balancer \<equiv> SockV4 [192, 168, 0, 2] 3336"

definition example_header :: "protocol_version \<Rightarrow> bytes" where
  "example_header v = snd (write_proxy_header v simple_print6 (\<lambda>data. Inr (length data)) (Some example_miner) (Some example_balancer))"

abbreviation example_info :: proxy_info where
  "example_info \<equiv> \<lparr>pi_type = Ipv4, pi_source = Some example_miner, pi_destination = Some example_balancer\<rparr>"

lemma example_header_written:
  "write_proxy_header v simple_print6 (\<lambda>data. Inr (length data)) (Some example_miner) (Some example_balancer) = (Inr (), example_header v)"
  by (cases v) (simp_all add: example_header_def write_proxy_header_def v1_encode_def v2_encode_def Let_def)

lemma example_header_nonempty: "[] \<notin> set [example_header v]"
  by (cases v)
    (simp_all add: example_header_def write_proxy_header_def v1_encode_def v2_encode_def Let_def ascii_def
      proto_header_serialize_def SIGNATURE_def)

lemma example_info_formed:
  "proxy_info_try_from (Some example_miner) (Some example_balancer) = Inr example_info" "wf_info example_info"
  by (simp_all add: wf_info_def)

lemma example_proxied:
  "do_handle toy_snow (\<lambda>_. []) (\<lambda>_. []) () example_frames (simple_framed (v1_decode simple_parse6)) (simple_framed v2_decode)
     simple_print6 (\<lambda>_ _ _. ConnOk) example_px_config example_px_network
     (proxy_connection_new (map Inr [example_header PV1]) (SockV4 [10, 0, 0, 8] 4000)) =
   Some (ConnOk, example_header PV2, \<lparr>pxc_acceptor = None, pxc_peer = \<lparr>direct_peer = SockV4 [10, 0, 0, 8] 4000,
     dp_proxy_info = example_info\<rparr>\<rparr>)"
proof -
  have "concat [example_header PV1] = example_header PV1 @ []" by simp
  from connector_accepted [OF framed_contract_simple framed_contract_simple ipv6_text_simple example_info_formed
      example_header_written example_header_nonempty this, of False]
  obtain ps where ps: "accept_auto False (simple_framed (v1_decode simple_parse6)) (simple_framed v2_decode) (map Inr [example_header PV1]) = Inr ps"
    "ps_source ps = Some example_miner" "ps_destination ps = Some example_balancer" by blast
  have "pass_proxy_header simple_print6 example_px_config example_px_network ps d l = (Inr (), example_header PV2)" for d l
    using example_header_written [of PV2] ps(2,3)
    by (simp add: pass_proxy_header_def upstream_addresses_def example_px_config_def example_px_network_def)
  moreover have "secure_downstream toy_snow (\<lambda>_. []) (\<lambda>_. []) () example_frames example_px_config ps =
      Some (Inr \<lparr>fp_codec = \<lparr>cc_noise_codec = None, cc_l2_codec = ()\<rparr>, read_buf = ps_buf ps, write_buf = []\<rparr>)"
    by (simp add: secure_downstream_def example_px_config_def)
  moreover have "acceptor_build (px_protocol example_px_config) (px_acceptor_builder example_px_config)
      (simple_framed (v1_decode simple_parse6)) (simple_framed v2_decode) (map Inr [example_header PV1]) = Inr ps"
    using ps(1) by (simp add: acceptor_build_def example_px_config_def)
  moreover have "stream_proxy_info ps = Inr example_info" using ps(2,3) by (simp add: stream_proxy_info_def)
  ultimately show ?thesis
    by (simp add: do_handle_def proxy_connection_new_def set_proxy_info_def downstream_peer_new_def client_next_def
        example_px_network_def)
qed

theorem miner_address_forwarded_witness:
  "\<exists>ps'. accept_auto True (simple_framed (v1_decode simple_parse6)) (simple_framed v2_decode) (map Inr [example_header PV2]) = Inr ps' \<and>
     ps_source ps' = Some example_miner \<and> ps_destination ps' = Some example_balancer \<and>
     ps_buf ps' @ stream_data (ps_inner ps') = []"
proof -
  have c: "concat [example_header v] = example_header v @ []" for v by simp
  have cfg: "px_acceptor_builder example_px_config = BuildAuto" "px_upstream_version example_px_config = Some PV2"
    "pn_write example_px_network = (\<lambda>data. Inr (length data))"
    by (simp_all add: example_px_config_def example_px_network_def)
  from miner_address_forwarded [OF framed_contract_simple framed_contract_simple ipv6_text_simple example_info_formed example_header_written
      example_header_nonempty c cfg example_proxied example_header_nonempty c, of True]
  show ?thesis by blast
qed

section \<open>The accepting loop\<close>

fun accepted_peers :: "accept_event list \<Rightarrow> socket_addr list" where
  "accepted_peers [] = []"
| "accepted_peers (TcpAccepted a # es) = a # accepted_peers es"
| "accepted_peers (_ # es) = accepted_peers es"

fun failed_accepts :: "accept_event list \<Rightarrow> nat" where
  "failed_accepts [] = 0"
| "failed_accepts (TcpFailed _ _ # es) = Suc (failed_accepts es)"
| "failed_accepts (_ # es) = failed_accepts es"

definition stops :: "accept_event \<Rightarrow> bool" where
  "stops e \<longleftrightarrow> e = TripwireFired \<or> e = ShutdownNotified"

text \<open>What was counted for the current socket and for those before it.\<close>

definition counted_errors :: "proxy_server \<Rightarrow> nat" where
  "counted_errors sv = sum_list (map fst (sv_breakdowns sv)) + sv_accepts_error sv"

definition counted_successes :: "proxy_server \<Rightarrow> nat" where
  "counted_successes sv = sum_list (map snd (sv_breakdowns sv)) + sv_accepts_success sv"

lemma rebind_keeps:
  "sv_controller (rebind sv) = sv_controller sv" "sv_accepted (rebind sv) = sv_accepted sv" "sv_opened (rebind sv) = sv_opened sv"
  "counted_errors (rebind sv) = counted_errors sv" "counted_successes (rebind sv) = counted_successes sv"
proof (induction sv rule: rebind.induct)
  case (1 sv)
  obtain b sv' where b: "bind_new_socket sv = (b, sv')" by fastforce
  then have keep: "sv_controller sv' = sv_controller sv" "sv_accepted sv' = sv_accepted sv" "sv_opened sv' = sv_opened sv"
    "counted_errors sv' = counted_errors sv" "counted_successes sv' = counted_successes sv"
    by (auto simp: bind_new_socket_def account_tcp_listener_breakdown_def counted_errors_def counted_successes_def
        split: list.split_asm)
  show "sv_controller (rebind sv) = sv_controller sv" "sv_accepted (rebind sv) = sv_accepted sv" "sv_opened (rebind sv) = sv_opened sv"
    "counted_errors (rebind sv) = counted_errors sv" "counted_successes (rebind sv) = counted_successes sv"
    using 1 [OF b [symmetric]] b keep by (cases b; simp add: rebind.simps [of sv])+
qed

lemma counted_controller [simp]:
  "counted_errors (sv\<lparr>sv_controller := co\<rparr>) = counted_errors sv" "counted_successes (sv\<lparr>sv_controller := co\<rparr>) = counted_successes sv"
  by (simp_all add: counted_errors_def counted_successes_def)

lemma failure_keeps:
  defines "f \<equiv> \<lambda>sv l. (account_unsuccessful_tcp_open sv)\<lparr>sv_last_failure := l\<rparr>"
  shows "sv_controller (f sv l) = sv_controller sv" "sv_accepted (f sv l) = sv_accepted sv" "sv_opened (f sv l) = sv_opened sv"
    "counted_errors (f sv l) = Suc (counted_errors sv)" "counted_successes (f sv l) = counted_successes sv"
  by (simp_all add: f_def account_unsuccessful_tcp_open_def counted_errors_def counted_successes_def)

lemma accept_counts:
  defines "f \<equiv> \<lambda>sv a. server_accept a (account_successful_tcp_open sv)"
  shows "sv_controller (f sv a) = counter_for_new_client (sv_controller sv)" "sv_accepted (f sv a) = sv_accepted sv @ [a]"
    "sv_opened (f sv a) = Suc (sv_opened sv)"
    "counted_errors (f sv a) = counted_errors sv" "counted_successes (f sv a) = Suc (counted_successes sv)"
  by (simp_all add: f_def account_successful_tcp_open_def server_accept_def counted_errors_def counted_successes_def)

lemma main_loop_counts:
  assumes "main_loop es sv = (w, sv')" and "co_termination_method (sv_controller sv) = LazyTermination"
  shows "sv_accepted sv' = sv_accepted sv @ accepted_peers (takeWhile (\<lambda>e. \<not> stops e) es)"
    and "sv_opened sv' = sv_opened sv + length (accepted_peers (takeWhile (\<lambda>e. \<not> stops e) es))"
    and "counted_successes sv' = counted_successes sv + length (accepted_peers (takeWhile (\<lambda>e. \<not> stops e) es))"
    and "counted_errors sv' = counted_errors sv + failed_accepts (takeWhile (\<lambda>e. \<not> stops e) es)"
    and "cc_client_counter (co_client_counter (sv_controller sv')) =
      cc_client_counter (co_client_counter (sv_controller sv)) + of_nat (length (accepted_peers (takeWhile (\<lambda>e. \<not> stops e) es)))"
    and "w = (case dropWhile (\<lambda>e. \<not> stops e) es of [] \<Rightarrow> Serving | e # _ \<Rightarrow> if e = TripwireFired then Returned else Polling)"
  using assms
  by (induction es sv rule: main_loop.induct)
    (auto simp: stops_def Let_def failure_keeps rebind_keeps accept_counts counter_for_new_client_def client_counter_clone_def
      wait_for_termination_def request_immediate_termination_def split: option.split_asm if_split_asm)

text \<open>
  C28. The accepting loop. It starts a task for exactly the connections accepted before it is told to stop, in
  the order in which they arrive, and enters each in the counter of clients. However often the
  listening socket breaks down and is bound anew in between, every accepted and every failed
  connection is in the totals of exactly one socket. The loop stops at the first tripwire,
  and then does not wait for the clients, or shutdown request, and then does.
\<close>

theorem accepting_loop:
  assumes "server_listen config resolved None = Inr (a, builder, sv)" and "main_loop es sv = (w, sv')"
  shows "let pre = takeWhile (\<lambda>e. \<not> stops e) es in
      sv_accepted sv' = accepted_peers pre \<and> sv_opened sv' = length (accepted_peers pre) \<and>
      cc_client_counter (co_client_counter (sv_controller sv')) = of_nat (length (accepted_peers pre)) \<and>
      counted_successes sv' = length (accepted_peers pre) \<and> counted_errors sv' = failed_accepts pre \<and>
      w = (case dropWhile (\<lambda>e. \<not> stops e) es of [] \<Rightarrow> Serving | e # _ \<Rightarrow> if e = TripwireFired then Returned else Polling)"
proof -
  have sv: "sv = account_tcp_listener_breakdown server_new"
    using assms(1) by (auto simp: server_listen_def split: sum.split_asm list.split_asm)
  note start = account_tcp_listener_breakdown_def server_new_def controller_default_def client_counter_default_def
    counted_errors_def counted_successes_def
  have "co_termination_method (sv_controller sv) = LazyTermination" by (simp add: sv start)
  from main_loop_counts [OF assms(2) this] show ?thesis by (simp add: sv start Let_def)
qed

theorem accepting_loop_witness:
  "accepted_peers [TcpAccepted example_miner, TcpFailed 5 6, TcpFailed 7 8] = [example_miner] \<and>
   sv_accepted (snd (main_loop [TcpAccepted example_miner, TcpFailed 5 6, TcpFailed 7 8, ShutdownNotified, TcpAccepted example_balancer]
     (account_tcp_listener_breakdown server_new))) = [example_miner]"
proof -
  let ?es = "[TcpAccepted example_miner, TcpFailed 5 6, TcpFailed 7 8, ShutdownNotified, TcpAccepted example_balancer]"
  have l: "server_listen \<lparr>pc_require_proxy_header = False, pc_versions = []\<rparr> (Inr [example_balancer]) None =
      Inr (example_balancer, BuildSkip, account_tcp_listener_breakdown server_new)"
    by (simp add: server_listen_def acceptor_builder_new_def)
  show ?thesis
    using accepting_loop [OF l surjective_pairing, of ?es] by (simp add: Let_def stops_def)
qed

end
