(* ===== verification/Key_Tool.thy ===== *)
theory Key_Tool
  imports Noise_Server "HOL-Library.Countable"
begin

text \<open>
  \<open>protocols/stratum/src/keytool.rs\<close>: the tool that generates the keys of an authority and of a server and
  signs certificates.

  The files are a map from paths to contents, and \<open>faults\<close> says which accesses the operating
  system refuses. The random keys, the clock, and the derivation of a public from a secret
  authority key are arguments; JSON, Base58 and the curves are the libraries of \<open>Noise_Auth\<close>.
\<close>

section \<open>Files\<close>

text \<open>A path is its directory and its file name.\<close>

type_synonym path = "string \<times> string"
type_synonym files = "path \<Rightarrow> bytes option"

text \<open>\<open>Path::file_stem\<close> and \<open>PathBuf::set_extension\<close>: a dot at the start of a name begins no extension.\<close>

definition file_stem :: "string \<Rightarrow> string" where
  "file_stem name =
     (let r = rev (dropWhile (\<lambda>c. c \<noteq> CHR ''.'') (rev name))
      in if r = [] \<or> r = ''.'' then name else butlast r)"

definition set_extension :: "string \<Rightarrow> path \<Rightarrow> path" where
  "set_extension extension p =
     (case p of (dir, name) \<Rightarrow> if name \<in> {[], ''.'', ''..''} then p else (dir, file_stem name @ ''.'' @ extension))"

record faults =
  fault_open :: "path \<Rightarrow> string option"
  fault_read :: "path \<Rightarrow> string option"
  fault_create :: "path \<Rightarrow> string option"
  fault_write :: "path \<Rightarrow> (string \<times> nat) option"

definition no_faults :: faults where
  "no_faults = \<lparr>fault_open = (\<lambda>_. None), fault_read = (\<lambda>_. None), fault_create = (\<lambda>_. None), fault_write = (\<lambda>_. None)\<rparr>"

datatype keytool_error =
    CannotOpen string path string
  | CannotRead string path string
  | CannotParse string path stratum_error
  | CannotCreate string path string
  | WriteFailed string
  | KeytoolFailed stratum_error
  | KeytoolPanic string

definition open_file :: "faults \<Rightarrow> files \<Rightarrow> path \<Rightarrow> string \<Rightarrow> keytool_error + bytes" where
  "open_file F fs file descr =
     (case fault_open F file of
        Some e \<Rightarrow> Inl (CannotOpen descr file e)
      | None \<Rightarrow> (case fs file of None \<Rightarrow> Inl (CannotOpen descr file ''No such file or directory'') | Some content \<Rightarrow> Inr content))"

definition read_from_file ::
    "faults \<Rightarrow> files \<Rightarrow> (bytes \<Rightarrow> stratum_error + 'a) \<Rightarrow> path \<Rightarrow> string \<Rightarrow> keytool_error + 'a" where
  "read_from_file F fs try_from file descr =
     rbind (open_file F fs file descr) (\<lambda>content.
       case fault_read F file of
         Some e \<Rightarrow> Inl (CannotRead descr file e)
       | None \<Rightarrow>
           if valid_utf8 content then map_err (CannotParse descr file) (try_from content)
           else Inl (CannotRead descr file ''stream did not contain valid UTF-8''))"

text \<open>\<open>create_new\<close> refuses a file that exists.\<close>

definition open_new_file :: "faults \<Rightarrow> files \<Rightarrow> path \<Rightarrow> string \<Rightarrow> keytool_error + files" where
  "open_new_file F fs file descr =
     (case fault_create F file of
        Some e \<Rightarrow> Inl (CannotCreate descr file e)
      | None \<Rightarrow> if fs file = None then Inr (fs(file \<mapsto> [])) else Inl (CannotCreate descr file ''File exists''))"

text \<open>A write that fails may have written a part of its data.\<close>

definition write_to_file :: "faults \<Rightarrow> path \<Rightarrow> bytes \<Rightarrow> string \<Rightarrow> files \<Rightarrow> (keytool_error + unit) \<times> files" where
  "write_to_file F file payload descr fs =
     (case open_new_file F fs file descr of
        Inl e \<Rightarrow> (Inl e, fs)
      | Inr fs' \<Rightarrow>
          (let content = payload @ [0x0a] in
           case fault_write F file of
             Some (e, n) \<Rightarrow> (Inl (WriteFailed e), fs'(file \<mapsto> take n content))
           | None \<Rightarrow> (Inr (), fs'(file \<mapsto> content))))"

definition and_then :: "('e + unit) \<times> 's \<Rightarrow> ('s \<Rightarrow> ('e + unit) \<times> 's) \<Rightarrow> ('e + unit) \<times> 's" where
  "and_then r k = (case r of (Inl e, s) \<Rightarrow> (Inl e, s) | (Inr _, s) \<Rightarrow> k s)"

section \<open>Commands\<close>

definition key_string :: "noise_libs \<Rightarrow> string \<Rightarrow> bytes \<Rightarrow> bytes" where
  "key_string L name key = json_print L (format_to_json L name key)"

definition key_try_from ::
    "noise_libs \<Rightarrow> (stratum_error \<Rightarrow> string) \<Rightarrow> string \<Rightarrow> (bytes \<Rightarrow> string + bytes) \<Rightarrow> bytes \<Rightarrow> stratum_error + bytes" where
  "key_try_from L show_err name from_bytes s =
     map_err Serde (rbind (json_parse L s) (format_of_json L show_err name from_bytes))"

definition gen_ca_key :: "noise_libs \<Rightarrow> faults \<Rightarrow> auth_keypair \<Rightarrow> path \<Rightarrow> path \<Rightarrow> files \<Rightarrow> (keytool_error + unit) \<times> files" where
  "gen_ca_key L F keypair public_key_file secret_key_file fs =
     and_then (write_to_file F public_key_file (key_string L ''ed25519_public_key'' (kp_public keypair)) ''public key'' fs)
       (write_to_file F secret_key_file (key_string L ''ed25519_secret_key'' (kp_secret keypair)) ''secret key'')"

text \<open>\<open>generated\<close> is the outcome of \<open>generate_keypair\<close>: the public and the secret key.\<close>

definition gen_noise_key ::
    "noise_libs \<Rightarrow> faults \<Rightarrow> stratum_error + bytes \<times> bytes \<Rightarrow> path \<Rightarrow> path \<Rightarrow> files \<Rightarrow> (keytool_error + unit) \<times> files" where
  "gen_noise_key L F generated public_key_file secret_key_file fs =
     (case generated of
        Inl e \<Rightarrow> (Inl (KeytoolFailed e), fs)
      | Inr (public, noise_secret) \<Rightarrow>
          and_then (write_to_file F public_key_file (key_string L ''noise_public_key'' public) ''noise static public key'' fs)
            (write_to_file F secret_key_file (key_string L ''noise_secret_key'' noise_secret) ''noise static secret key''))"

text \<open>What both signing commands share: the header for the given number of days, and the certificate.\<close>

definition issue_certificate ::
    "noise_libs \<Rightarrow> (bytes \<Rightarrow> bytes) \<Rightarrow> system_time \<Rightarrow> bytes \<Rightarrow> bytes \<Rightarrow> u64 \<Rightarrow> keytool_error + certificate" where
  "issue_certificate L ca_public now public_key authority_secret_key valid_for_days =
     (let authority_keypair = \<lparr>kp_public = ca_public authority_secret_key, kp_secret = authority_secret_key\<rparr> in
      case with_duration L now (uint (valid_for_days * 24 * 60 * 60) * 10 ^ 9) of
        None \<Rightarrow> Inl (KeytoolPanic ''overflow when adding duration to instant'')
      | Some result \<Rightarrow>
          map_err KeytoolFailed (rbind result (\<lambda>header.
            let signed_part = \<lparr>sp_header = header, sp_pubkey = public_key, sp_authority_public_key = kp_public authority_keypair\<rparr> in
            rmap (certificate_new signed_part) (sign_with L signed_part authority_keypair))))"

definition sign_key ::
    "noise_libs \<Rightarrow> (stratum_error \<Rightarrow> string) \<Rightarrow> faults \<Rightarrow> (bytes \<Rightarrow> bytes) \<Rightarrow> system_time \<Rightarrow> path \<Rightarrow> path \<Rightarrow> u64 \<Rightarrow> files \<Rightarrow>
     (keytool_error + unit) \<times> files" where
  "sign_key L show_err F ca_public now public_key_to_sign signing_key valid_for_days fs =
     (case rbind (read_from_file F fs (key_try_from L show_err ''noise_public_key'' Inr) public_key_to_sign ''static public key to sign'')
             (\<lambda>public_key.
           rbind (read_from_file F fs (key_try_from L show_err ''ed25519_secret_key'' (secret_key_from_bytes L)) signing_key ''signing key'')
             (\<lambda>authority_secret_key.
           issue_certificate L ca_public now public_key authority_secret_key valid_for_days)) of
        Inl e \<Rightarrow> (Inl e, fs)
      | Inr cert \<Rightarrow>
          write_to_file F (set_extension ''cert'' public_key_to_sign) (certificate_into_string L cert) ''certificate'' fs)"

definition sign_bundle ::
    "noise_libs \<Rightarrow> (stratum_error \<Rightarrow> string) \<Rightarrow> faults \<Rightarrow> (bytes \<Rightarrow> bytes) \<Rightarrow> system_time \<Rightarrow> path \<Rightarrow> path \<Rightarrow> u64 \<Rightarrow> files \<Rightarrow>
     (keytool_error + unit) \<times> files" where
  "sign_bundle L show_err F ca_public now secret_key_to_sign signing_key valid_for_days fs =
     (case rbind (read_from_file F fs (key_try_from L show_err ''noise_secret_key'' Inr) secret_key_to_sign ''static secret key to sign'')
             (\<lambda>secret_key.
           if length secret_key \<noteq> 32 then Inl (KeytoolPanic ''source slice length does not match destination slice length'')
           else
             rbind (read_from_file F fs (key_try_from L show_err ''ed25519_secret_key'' (secret_key_from_bytes L)) signing_key ''signing key'')
               (\<lambda>authority_secret_key.
             rbind (issue_certificate L ca_public now (x25519_base L secret_key) authority_secret_key valid_for_days) (\<lambda>cert.
             map_err (\<lambda>_. KeytoolPanic ''BUG: Inconsistent server security bundle has been generated'') (bundle_new L cert secret_key)))) of
        Inl e \<Rightarrow> (Inl e, fs)
      | Inr ssb \<Rightarrow>
          write_to_file F (set_extension ''cert'' secret_key_to_sign) (json_print L (bundle_to_json L ssb)) ''security bundle'' fs)"

datatype keytool_command =
    GenCAKey auth_keypair path path
  | GenNoiseKey "stratum_error + bytes \<times> bytes" path path
  | SignKey path path u64
  | SignBundle path path u64

definition keytool ::
    "noise_libs \<Rightarrow> (stratum_error \<Rightarrow> string) \<Rightarrow> faults \<Rightarrow> (bytes \<Rightarrow> bytes) \<Rightarrow> system_time \<Rightarrow> keytool_command \<Rightarrow> files \<Rightarrow>
     (keytool_error + unit) \<times> files" where
  "keytool L show_err F ca_public now command fs =
     (case command of
        GenCAKey keypair public secret \<Rightarrow> gen_ca_key L F keypair public secret fs
      | GenNoiseKey generated public secret \<Rightarrow> gen_noise_key L F generated public secret fs
      | SignKey key signing_key days \<Rightarrow> sign_key L show_err F ca_public now key signing_key days fs
      | SignBundle key signing_key days \<Rightarrow> sign_bundle L show_err F ca_public now key signing_key days fs)"

section \<open>Nothing is overwritten\<close>

lemma write_to_file_adds: "fs \<subseteq>\<^sub>m snd (write_to_file F file payload descr fs)"
  by (auto simp: write_to_file_def open_new_file_def map_le_def Let_def split: option.split sum.split)

lemma and_then_adds:
  assumes "fs \<subseteq>\<^sub>m snd r" and "\<And>fs'. fs' \<subseteq>\<^sub>m snd (k fs')"
  shows "fs \<subseteq>\<^sub>m snd (and_then r k)"
  using assms by (auto simp: and_then_def intro: map_le_trans split: prod.split sum.split)

lemma command_adds: "fs \<subseteq>\<^sub>m snd (keytool L show_err F ca_public now command fs)"
  by (cases command)
    (auto simp: keytool_def gen_ca_key_def gen_noise_key_def sign_key_def sign_bundle_def
      intro: and_then_adds write_to_file_adds split: sum.split)

section \<open>Faultless runs\<close>

text \<open>A JSON text in a file, with the newline that the tool adds.\<close>

definition json_line :: "noise_libs \<Rightarrow> json_value \<Rightarrow> bool" where
  "json_line L v \<longleftrightarrow> valid_utf8 (json_print L v @ [0x0a]) \<and> json_parse L (json_print L v @ [0x0a]) = Inr v"

lemma write_new: "fs file = None \<Longrightarrow> write_to_file no_faults file payload descr fs = (Inr (), fs(file \<mapsto> payload @ [0x0a]))"
  by (simp add: write_to_file_def open_new_file_def no_faults_def)

lemma read_key:
  assumes "file_libs L" and "json_line L (format_to_json L name key)" and "from_bytes key = Inr key"
    and "fs file = Some (key_string L name key @ [0x0a])"
  shows "read_from_file no_faults fs (key_try_from L show_err name from_bytes) file descr = Inr key"
  using assms format_json [OF assms(1), of from_bytes key show_err name]
  by (simp add: read_from_file_def open_file_def no_faults_def key_try_from_def key_string_def json_line_def)

text \<open>A key pair of the authority, as it is generated and as the signing commands restore it.\<close>

definition ca_ok :: "noise_libs \<Rightarrow> (bytes \<Rightarrow> bytes) \<Rightarrow> auth_keypair \<Rightarrow> bool" where
  "ca_ok L ca_public kp \<longleftrightarrow>
     key_format L \<and> keypair_ok L kp \<and> ca_public (kp_secret kp) = kp_public kp \<and>
     secret_key_from_bytes L (kp_secret kp) = Inr (kp_secret kp) \<and> public_key_from_bytes L (kp_public kp) = Inr (kp_public kp)"

text \<open>The validity is counted in seconds of 32 bits.\<close>

definition validity :: "system_time \<Rightarrow> u64 \<Rightarrow> bool" where
  "validity now days \<longleftrightarrow> 0 \<le> now \<and> uint days * 86400 < 2 ^ 64 \<and> now + uint days * 86400 * 10 ^ 9 < 2 ^ 32 * 10 ^ 9"

lemma header_issued:
  assumes "validity now days"
  shows "with_duration L now (uint (days * 24 * 60 * 60) * 10 ^ 9) =
    Some (Inr (signed_part_header_new (of_int (now div 10 ^ 9)) (of_int (now div 10 ^ 9 + uint days * 86400))))"
    and "uint (of_int (now div 10 ^ 9) :: u32) = now div 10 ^ 9"
    and "uint (of_int (now div 10 ^ 9 + uint days * 86400) :: u32) = now div 10 ^ 9 + uint days * 86400"
proof -
  from assms have v: "0 \<le> now" "uint days * 86400 < 2 ^ 64" "now + uint days * 86400 * 10 ^ 9 < 2 ^ 32 * 10 ^ 9"
    by (simp_all add: validity_def)
  have "days * 24 * 60 * 60 = of_int (uint days * 86400)" by simp
  with v(2) have d: "uint (days * 24 * 60 * 60) = uint days * 86400" by (simp only: uint_word_of_int) simp
  have q: "(now + uint days * 86400 * 10 ^ 9) div 10 ^ 9 = now div 10 ^ 9 + uint days * 86400" by simp
  have pos: "0 \<le> uint days * 86400" by simp
  have lt: "now < 2 ^ 32 * 10 ^ 9" using v(3) pos by (smt (verit) mult_nonneg_nonneg zero_le_power)
  note 1 = unix_time_below [OF v(1) lt, of L]
  have "0 \<le> now + uint days * 86400 * 10 ^ 9" using v(1) pos by simp
  note 2 = unix_time_below [OF this v(3), of L, unfolded q]
  have "now div 10 ^ 9 + uint days * 86400 < 2 ^ 32" using v(3) unfolding q [symmetric] by (simp add: div_less_iff_less_mult)
  then show "with_duration L now (uint (days * 24 * 60 * 60) * 10 ^ 9) =
      Some (Inr (signed_part_header_new (of_int (now div 10 ^ 9)) (of_int (now div 10 ^ 9 + uint days * 86400))))"
    unfolding with_duration_def d Let_def q using 1 2 by simp
  show "uint (of_int (now div 10 ^ 9) :: u32) = now div 10 ^ 9" using 1 by simp
  show "uint (of_int (now div 10 ^ 9 + uint days * 86400) :: u32) = now div 10 ^ 9 + uint days * 86400" using 2 by simp
qed

lemma certificate_issued:
  assumes "ca_ok L ca_public ca" and "validity now days" and "length public_key < 65536"
  shows "\<exists>c. issue_certificate L ca_public now public_key (kp_secret ca) days = Inr c \<and> cert_public_key c = public_key \<and>
    cert_authority_public_key c = kp_public ca \<and> length (cert_signature c) = 64 \<and> wf_certificate L c \<and>
    (\<forall>t. now \<le> t \<longrightarrow> t \<le> now + uint days * 86400 * 10 ^ 9 \<longrightarrow> is_ok (validate_certificate L c t))"
proof -
  from assms(1) have ca: "key_format L" "keypair_ok L ca" "ca_public (kp_secret ca) = kp_public ca"
    "public_key_from_bytes L (kp_public ca) = Inr (kp_public ca)" by (simp_all add: ca_ok_def)
  let ?h = "signed_part_header_new (of_int (now div 10 ^ 9)) (of_int (now div 10 ^ 9 + uint days * 86400))"
  let ?p = "\<lparr>sp_header = ?h, sp_pubkey = public_key, sp_authority_public_key = kp_public ca\<rparr>"
  have "wf_signed_part ?p" using ca(2) assms(3) by (simp add: wf_signed_part_def keypair_ok_def)
  from signed_certificate [OF ca(1,2) this] obtain s where s: "sign_with L ?p ca = Inr s" "length s = 64"
    "signature_from_bytes L s = Inr s" "verify_signed_part L ?p s = Inr ()" by auto
  have kp: "\<lparr>kp_public = kp_public ca, kp_secret = kp_secret ca\<rparr> = ca" by simp
  have "issue_certificate L ca_public now public_key (kp_secret ca) days = Inr (certificate_new ?p s)"
    unfolding issue_certificate_def header_issued(1) [OF assms(2)] using s(1) by (simp add: ca(3) kp Let_def)
  moreover have "is_ok (validate_certificate L (certificate_new ?p s) t)"
    if "now \<le> t" "t \<le> now + uint days * 86400 * 10 ^ 9" for t
  proof -
    have "certificate_part (certificate_new ?p s) = ?p" by (simp add: certificate_part_def certificate_new_def)
    then have "validate_certificate L (certificate_new ?p s) t = verify_expiration L ?h t"
      using s(4) by (simp add: validate_certificate_def) (simp add: certificate_new_def)
    moreover have t: "0 \<le> t" "t < 2 ^ 32 * 10 ^ 9" using assms(2) that by (auto simp: validity_def)
    have "now div 10 ^ 9 \<le> t div 10 ^ 9" using that(1) by (rule zdiv_mono1) simp
    moreover have "t div 10 ^ 9 \<le> (now + uint days * 86400 * 10 ^ 9) div 10 ^ 9" using that(2) by (rule zdiv_mono1) simp
    then have "t div 10 ^ 9 \<le> now div 10 ^ 9 + uint days * 86400" by simp
    ultimately show ?thesis
      using verify_expiration_iff [OF t, of L ?h] header_issued(2,3) [OF assms(2)] by (simp add: signed_part_header_new_def)
  qed
  ultimately show ?thesis
    using s(2,3) ca(4) by (intro exI [of _ "certificate_new ?p s"]) (simp add: certificate_new_def wf_certificate_def)
qed

text \<open>What the tool writes can be read again.\<close>

definition json_files :: "noise_libs \<Rightarrow> bool" where
  "json_files L \<longleftrightarrow> file_libs L \<and> (\<forall>name key. json_line L (format_to_json L name key)) \<and>
     (\<forall>b. json_line L (bundle_to_json L b)) \<and> (\<forall>c. json_line L (certificate_to_json L c))"

lemma keys_generated:
  assumes "distinct [p1, p2]" and "fs p1 = None" and "fs p2 = None"
  shows "gen_ca_key L no_faults ca p1 p2 fs =
      (Inr (), fs(p1 \<mapsto> key_string L ''ed25519_public_key'' (kp_public ca) @ [0x0a], p2 \<mapsto> key_string L ''ed25519_secret_key'' (kp_secret ca) @ [0x0a]))"
    and "gen_noise_key L no_faults (Inr (public, noise_secret)) p1 p2 fs =
      (Inr (), fs(p1 \<mapsto> key_string L ''noise_public_key'' public @ [0x0a], p2 \<mapsto> key_string L ''noise_secret_key'' noise_secret @ [0x0a]))"
  using assms by (simp_all add: gen_ca_key_def gen_noise_key_def and_then_def write_new)

lemma bundle_signed:
  assumes "json_files L" and "ca_ok L ca_public ca" and "validity now days" and "length noise_secret = 32" and "length (x25519_base L noise_secret) < 65536"
    and "fs p4 = Some (key_string L ''noise_secret_key'' noise_secret @ [0x0a])"
    and "fs p2 = Some (key_string L ''ed25519_secret_key'' (kp_secret ca) @ [0x0a])" and "fs (set_extension ''cert'' p4) = None"
  shows "\<exists>ssb. sign_bundle L show_err no_faults ca_public now p4 p2 days fs =
      (Inr (), fs(set_extension ''cert'' p4 \<mapsto> json_print L (bundle_to_json L ssb) @ [0x0a])) \<and>
    read_from_string L show_err (json_print L (bundle_to_json L ssb) @ [0x0a]) = Inr ssb \<and>
    ssb_secret_key ssb = noise_secret \<and> cert_authority_public_key (ssb_certificate ssb) = kp_public ca \<and>
    validate_secret_key L ssb = Inr () \<and> length (cert_signature (ssb_certificate ssb)) = 64 \<and> wf_certificate L (ssb_certificate ssb) \<and>
    (\<forall>t. now \<le> t \<longrightarrow> t \<le> now + uint days * 86400 * 10 ^ 9 \<longrightarrow> is_ok (validate_by_time L ssb t))"
proof -
  from assms(1) have L: "file_libs L" "\<And>name key. json_line L (format_to_json L name key)" "\<And>b. json_line L (bundle_to_json L b)"
    by (simp_all add: json_files_def)
  from certificate_issued [OF assms(2,3,5)] obtain c where
    c: "issue_certificate L ca_public now (x25519_base L noise_secret) (kp_secret ca) days = Inr c" "cert_public_key c = x25519_base L noise_secret"
    "cert_authority_public_key c = kp_public ca" "length (cert_signature c) = 64" "wf_certificate L c"
    "\<And>t. now \<le> t \<Longrightarrow> t \<le> now + uint days * 86400 * 10 ^ 9 \<Longrightarrow> is_ok (validate_certificate L c t)" by blast
  let ?b = "\<lparr>ssb_certificate = c, ssb_secret_key = noise_secret\<rparr>"
  have v: "validate_secret_key L ?b = Inr ()" using assms(4) c(2) by (simp add: validate_secret_key_def)
  have ca: "secret_key_from_bytes L (kp_secret ca) = Inr (kp_secret ca)" using assms(2) by (simp add: ca_ok_def)
  have key1: "read_from_file no_faults fs (key_try_from L show_err ''noise_secret_key'' Inr) p4 descr = Inr noise_secret" for descr
    by (rule read_key) (simp_all add: L(1,2) assms(6))
  have key2: "read_from_file no_faults fs (key_try_from L show_err ''ed25519_secret_key'' (secret_key_from_bytes L)) p2 descr = Inr (kp_secret ca)" for descr
    by (rule read_key) (simp_all add: L(1,2) ca assms(7))
  have "sign_bundle L show_err no_faults ca_public now p4 p2 days fs =
      (Inr (), fs(set_extension ''cert'' p4 \<mapsto> json_print L (bundle_to_json L ?b) @ [0x0a]))"
    using v c(1) assms(4,8) by (simp add: sign_bundle_def key1 key2 bundle_new_def write_new Let_def)
  moreover have "read_from_string L show_err (json_print L (bundle_to_json L ?b) @ [0x0a]) = Inr ?b"
    using L(3) [of ?b] bundle_json [OF L(1), of ?b] c(5) v by (simp add: read_from_string_def json_line_def)
  moreover have "is_ok (validate_by_time L ?b t)" if "now \<le> t" "t \<le> now + uint days * 86400 * 10 ^ 9" for t
    using c(6) [OF that] by (auto simp: validate_by_time_def is_ok_iff)
  ultimately show ?thesis using c v by (intro exI [of _ ?b]) simp
qed

lemma key_signed:
  assumes "json_files L" and "ca_ok L ca_public ca" and "validity now days" and "length public_key < 65536"
    and "fs p3 = Some (key_string L ''noise_public_key'' public_key @ [0x0a])"
    and "fs p2 = Some (key_string L ''ed25519_secret_key'' (kp_secret ca) @ [0x0a])" and "fs (set_extension ''cert'' p3) = None"
  shows "\<exists>c. sign_key L show_err no_faults ca_public now p3 p2 days fs =
      (Inr (), fs(set_extension ''cert'' p3 \<mapsto> certificate_into_string L c @ [0x0a])) \<and>
    certificate_try_from L show_err (certificate_into_string L c @ [0x0a]) = Inr c \<and>
    cert_public_key c = public_key \<and> cert_authority_public_key c = kp_public ca \<and>
    (\<forall>t. now \<le> t \<longrightarrow> t \<le> now + uint days * 86400 * 10 ^ 9 \<longrightarrow> is_ok (validate_certificate L c t))"
proof -
  from assms(1) have L: "file_libs L" "\<And>name key. json_line L (format_to_json L name key)" "\<And>c. json_line L (certificate_to_json L c)"
    by (simp_all add: json_files_def)
  from certificate_issued [OF assms(2-4)] obtain c where
    c: "issue_certificate L ca_public now public_key (kp_secret ca) days = Inr c" "cert_public_key c = public_key"
    "cert_authority_public_key c = kp_public ca" "wf_certificate L c"
    "\<And>t. now \<le> t \<Longrightarrow> t \<le> now + uint days * 86400 * 10 ^ 9 \<Longrightarrow> is_ok (validate_certificate L c t)" by blast
  have key1: "read_from_file no_faults fs (key_try_from L show_err ''noise_public_key'' Inr) p3 descr = Inr public_key" for descr
    by (rule read_key) (simp_all add: L(1,2) assms(5))
  have key2: "read_from_file no_faults fs (key_try_from L show_err ''ed25519_secret_key'' (secret_key_from_bytes L)) p2 descr = Inr (kp_secret ca)" for descr
    by (rule read_key) (use assms(2) in \<open>simp_all add: L(1,2) assms(6) ca_ok_def\<close>)
  have "certificate_try_from L show_err (certificate_into_string L c @ [0x0a]) = Inr c"
    using L(3) [of c] certificate_json [OF L(1) c(4)] by (simp add: certificate_try_from_def certificate_into_string_def json_line_def)
  with c assms(7) show ?thesis by (intro exI [of _ c]) (simp add: sign_key_def key1 key2 write_new)
qed

section \<open>Properties\<close>

text \<open>
  C38. The tool never overwrites a file: whatever a command is given, whichever accesses fail, and whether it
  succeeds or not, every file that existed before still has its content.
\<close>

theorem keytool_keeps_files:
  "fs p = Some content \<Longrightarrow> snd (keytool L show_err F ca_public now command fs) p = Some content"
  using command_adds [of fs L show_err F ca_public now command] unfolding map_le_def by (metis domI)

text \<open>
  C17. From the keys to the connection. When an authority generates its keys, a server generates its own, and
  the authority signs a bundle for it, the three commands succeed; the file of the bundle is read
  back, and at every time from then until its end of validity a client that knows nothing but
  the authority's public key and a server with nothing but that file complete the
  handshake, and the client holds the certificate from the file.
\<close>

theorem issued_bundle_serves:
  fixes S :: "('h, 't) snow_lib"
  assumes "json_files L" and "ca_ok L ca_public ca" and "validity now days" and "length noise_secret = 32" and "length (x25519_base L noise_secret) < 65536"
    and "distinct [p1, p2, p3, p4, set_extension ''cert'' p4]"
    and "fs p1 = None" and "fs p2 = None" and "fs p3 = None" and "fs p4 = None" and "fs (set_extension ''cert'' p4) = None"
    and "keytool L show_err no_faults ca_public now (GenCAKey ca p1 p2) fs = (r1, fs1)"
    and "keytool L show_err no_faults ca_public now (GenNoiseKey (Inr (x25519_base L noise_secret, noise_secret)) p3 p4) fs1 = (r2, fs2)"
    and "keytool L show_err no_faults ca_public now (SignBundle p4 p2 days) fs2 = (r3, fs3)"
    and "snow_nx S (x25519_base L) paired" and "algs \<noteq> []" and "length algs \<le> 255"
    and "now \<le> t" and "t \<le> now + uint days * 86400 * 10 ^ 9"
  shows "r1 = Inr () \<and> r2 = Inr () \<and> r3 = Inr () \<and>
    (\<exists>content ssb a m1 m2 ti tr data. fs3 (set_extension ''cert'' p4) = Some content \<and> read_from_string L show_err content = Inr ssb \<and>
       connect_with_cert S L t (initiator_new (kp_public ca) algs) (quiet [RecvFrame (negotiation_bytes [a]), RecvFrame m2] []) =
         Some (Inr (ti, ssb_certificate ssb), quiet [] [negotiation_bytes algs, m1]) \<and>
       serialize_to_bytes_mut (build_noise_message (ssb_certificate ssb)) = Inr data \<and>
       handshake_run S (responder_step S) r_handshake_state (responder_new (ssb_secret_key ssb) data [AESGCM, ChaChaPoly])
           (quiet [RecvFrame (negotiation_bytes algs), RecvFrame m1] []) =
         Some (Inr tr, quiet [] [negotiation_bytes [a], m2]) \<and> paired ti tr)"
proof -
  let ?public = "x25519_base L noise_secret"
  have d: "distinct [p1, p2]" "distinct [p3, p4]" using assms(6) by auto
  have c1: "r1 = Inr ()" "fs1 = fs(p1 \<mapsto> key_string L ''ed25519_public_key'' (kp_public ca) @ [0x0a],
      p2 \<mapsto> key_string L ''ed25519_secret_key'' (kp_secret ca) @ [0x0a])"
    using assms(12) keys_generated(1) [OF d(1) assms(7,8), of L ca] by (simp_all add: keytool_def)
  have new: "fs1 p3 = None" "fs1 p4 = None" using assms(6,9,10) by (auto simp: c1)
  have c2: "r2 = Inr ()" "fs2 = fs1(p3 \<mapsto> key_string L ''noise_public_key'' ?public @ [0x0a],
      p4 \<mapsto> key_string L ''noise_secret_key'' noise_secret @ [0x0a])"
    using assms(13) keys_generated(2) [OF d(2) new, of L ?public noise_secret] by (simp_all add: keytool_def)
  have files: "fs2 p4 = Some (key_string L ''noise_secret_key'' noise_secret @ [0x0a])"
    "fs2 p2 = Some (key_string L ''ed25519_secret_key'' (kp_secret ca) @ [0x0a])" "fs2 (set_extension ''cert'' p4) = None"
    using assms(6,11) by (auto simp: c1 c2)
  from bundle_signed [OF assms(1-5) files, of show_err] obtain ssb where
    b: "sign_bundle L show_err no_faults ca_public now p4 p2 days fs2 =
      (Inr (), fs2(set_extension ''cert'' p4 \<mapsto> json_print L (bundle_to_json L ssb) @ [0x0a]))"
    "read_from_string L show_err (json_print L (bundle_to_json L ssb) @ [0x0a]) = Inr ssb"
    "cert_authority_public_key (ssb_certificate ssb) = kp_public ca" "validate_secret_key L ssb = Inr ()"
    "length (cert_signature (ssb_certificate ssb)) = 64" "wf_certificate L (ssb_certificate ssb)"
    "is_ok (validate_by_time L ssb t)" using assms(18,19) by blast
  from bundle_handshake [OF assms(15) b(4,7,5,6) assms(16,17)] b(1-3) c1(1) c2(1) assms(14) show ?thesis
    by (fastforce simp: keytool_def)
qed

section \<open>Example\<close>

instance json_number :: countable
  by countable_datatype

instance json_value :: countable
  by countable_datatype

definition unary_libs :: noise_libs where
  "unary_libs = toy_noise_libs\<lparr>json_print := (\<lambda>v. replicate (to_nat v) 0x30), json_parse := (\<lambda>s. Inr (from_nat (length s - 1)))\<rparr>"

lemma unary_libs_ok:
  "json_files unary_libs" "ca_ok unary_libs (\<lambda>_. replicate 32 2) example_keypair"
proof -
  have "valid_utf8 (replicate n 0x30 @ [0x0a])" for n
    by (rule valid_utf8_ascii_bytes) (simp add: list_all_iff)
  then show "json_files unary_libs"
    by (simp add: json_files_def json_line_def file_libs_def unary_libs_def toy_noise_libs_def)
  have "keypair_ok toy_noise_libs example_keypair" by (rule toy_libs_ok(2)) (simp add: example_keypair_def)
  then show "ca_ok unary_libs (\<lambda>_. replicate 32 2) example_keypair"
    using toy_libs_ok(1)
    by (simp add: ca_ok_def unary_libs_def key_format_def keypair_ok_def example_keypair_def) (simp add: toy_noise_libs_def)
qed

theorem keytool_keeps_files_witness:
  "snd (keytool unary_libs (\<lambda>_. []) no_faults (\<lambda>_. []) 0 (GenCAKey example_keypair (''d'', ''a.key'') (''d'', ''b.key''))
     [(''d'', ''a.key'') \<mapsto> [1, 2]]) (''d'', ''a.key'') = Some [1, 2]"
  by (rule keytool_keeps_files) simp

theorem issued_bundle_serves_witness:
  "\<exists>fs3 content ssb. fs3 (''d'', ''server.cert'') = Some content \<and> read_from_string unary_libs (\<lambda>_. []) content = Inr ssb \<and>
     (\<exists>m1 m2 ti a. connect_with_cert toy_snow unary_libs (10 ^ 9) (initiator_new (replicate 32 2) [ChaChaPoly])
          (quiet [RecvFrame (negotiation_bytes [a]), RecvFrame m2] []) =
        Some (Inr (ti, ssb_certificate ssb), quiet [] [negotiation_bytes [ChaChaPoly], m1]))"
proof -
  let ?ca = "\<lambda>_. replicate 32 2" and ?p = "\<lambda>name. (''d'', name :: string)"
  have v: "validity 0 90" by (simp add: validity_def)
  have e: "set_extension ''cert'' (?p ''server.key'') = ?p ''server.cert''" by (simp add: set_extension_def file_stem_def Let_def)
  have k: "length (replicate 32 (1 :: u8)) = 32" "length (x25519_base unary_libs (replicate 32 1)) < 65536"
    by (simp_all add: unary_libs_def toy_noise_libs_def)
  have x: "snow_nx toy_snow (x25519_base unary_libs) toy_paired" using toy_snow_x25519 by (simp add: unary_libs_def)
  obtain r1 fs1 where c1: "keytool unary_libs (\<lambda>_. []) no_faults ?ca 0 (GenCAKey example_keypair (?p ''ca.pub'') (?p ''ca.key'')) Map.empty = (r1, fs1)"
    by fastforce
  obtain r2 fs2 where c2: "keytool unary_libs (\<lambda>_. []) no_faults ?ca 0
      (GenNoiseKey (Inr (x25519_base unary_libs (replicate 32 1), replicate 32 1)) (?p ''server.pub'') (?p ''server.key'')) fs1 = (r2, fs2)"
    by fastforce
  obtain r3 fs3 where c3: "keytool unary_libs (\<lambda>_. []) no_faults ?ca 0 (SignBundle (?p ''server.key'') (?p ''ca.key'') 90) fs2 = (r3, fs3)"
    by fastforce
  have "distinct [?p ''ca.pub'', ?p ''ca.key'', ?p ''server.pub'', ?p ''server.key'', set_extension ''cert'' (?p ''server.key'')]"
    unfolding e by simp
  from issued_bundle_serves [OF unary_libs_ok v k this _ _ _ _ _ c1 c2 c3 x, of "[ChaChaPoly]" "10 ^ 9"]
  obtain content ssb a m1 m2 ti where "fs3 (?p ''server.cert'') = Some content" "read_from_string unary_libs (\<lambda>_. []) content = Inr ssb"
    "connect_with_cert toy_snow unary_libs (10 ^ 9) (initiator_new (replicate 32 2) [ChaChaPoly])
       (quiet [RecvFrame (negotiation_bytes [a]), RecvFrame m2] []) =
     Some (Inr (ti, ssb_certificate ssb), quiet [] [negotiation_bytes [ChaChaPoly], m1])"
    unfolding e by (auto simp: example_keypair_def)
  then show ?thesis
    by (intro exI [of _ fs3] exI [of _ content] exI [of _ ssb] conjI exI [of _ m1] exI [of _ m2] exI [of _ ti] exI [of _ a])
qed

text \<open>
  Two ends of commands that leave a mess: when the secret key file exists, the new public key
  is already written and has no secret key; and a parseable secret key of any other length than 32 bytes
  makes the signing command panic.
\<close>

lemma orphan_public_key:
  assumes "fs p1 = None" and "fs p2 = Some old" and "p1 \<noteq> p2"
  shows "gen_ca_key L no_faults ca p1 p2 fs =
    (Inl (CannotCreate ''secret key'' p2 ''File exists''), fs(p1 \<mapsto> key_string L ''ed25519_public_key'' (kp_public ca) @ [0x0a]))"
  using assms by (simp add: gen_ca_key_def and_then_def write_new) (simp add: write_to_file_def open_new_file_def no_faults_def)

lemma sign_bundle_panics:
  assumes "json_files L" and "fs p4 = Some (key_string L ''noise_secret_key'' noise_secret @ [0x0a])" and "length noise_secret \<noteq> 32"
  shows "fst (sign_bundle L show_err no_faults ca_public now p4 p2 days fs) =
    Inl (KeytoolPanic ''source slice length does not match destination slice length'')"
proof -
  have "read_from_file no_faults fs (key_try_from L show_err ''noise_secret_key'' Inr) p4 descr = Inr noise_secret" for descr
    by (rule read_key) (use assms in \<open>simp_all add: json_files_def\<close>)
  with assms(3) show ?thesis by (simp add: sign_bundle_def)
qed

end
