(* ===== verification/Halt_Handle.thy ===== *)
theory Halt_Handle
  imports Async_Utils
begin

text \<open>
  \<open>utils-rs/async-utils/src/halthandle.rs\<close>: the tripwire that tells tasks to stop, and the handle that
  spawns, halts and joins them; \<open>halthandle02.rs\<close> has the same over an older watch channel, and its
  tripwire is here beside the other.

  The watch channel of tokio is a parameter, the record \<open>watch_lib\<close>, with the documented behaviour in
  \<open>watch_contract\<close>. The unbounded channel of task handles is the list of its messages and
  \<open>Notify\<close> its stored permit. Tasks are arbitrary: they poll their tripwires and end, well or by
  a panic, when they like. The two futures that \<open>join\<close> selects from make steps of their own
  (\<open>collect_step\<close>, \<open>notify_step\<close>), and the steps of all parties interleave (\<open>hstep\<close>).

  The handle stays alive throughout: no step drops it. In the source a drop closes the watch channel, and a
  tripwire whose channel is closed is ready as well; \<open>halt_drop_ready\<close> below shows that for a poll.
\<close>

section \<open>The watch channel\<close>

text \<open>\<open>'w\<close> is the state of the channel, \<open>'r\<close> that of a receiver. \<open>watch_next\<close> is the interface of tokio 0.2.\<close>

record ('w, 'r) watch_lib =
  watch_channel :: "bool \<Rightarrow> 'w \<times> 'r"
  watch_send :: "'w \<Rightarrow> bool \<Rightarrow> 'w"
  watch_close :: "'w \<Rightarrow> 'w"
  watch_changed :: "'w \<Rightarrow> 'r \<Rightarrow> (unit + unit) poll \<times> 'r"
  watch_borrow :: "'w \<Rightarrow> 'r \<Rightarrow> bool"
  watch_next :: "'w \<Rightarrow> 'r \<Rightarrow> bool option poll \<times> 'r"

text \<open>
  Every value has a version, and a receiver remembers the one it has seen (\<open>seen\<close>); \<open>closed\<close>: the sender is gone.
  A receiver is told of a version it has not seen, then of the end. That a clone has seen what its original
  has is in the use of one \<open>'r\<close> for both. With \<open>fresh\<close>, as in tokio 0.2, the first value
  counts as not yet seen.
\<close>

definition watch_contract :: "('w, 'r) watch_lib \<Rightarrow> ('w \<Rightarrow> nat) \<Rightarrow> ('r \<Rightarrow> nat) \<Rightarrow> ('w \<Rightarrow> bool) \<Rightarrow> bool \<Rightarrow> bool" where
  "watch_contract W version seen closed fresh \<longleftrightarrow>
     (\<forall>v w r. watch_channel W v = (w, r) \<longrightarrow> (seen r \<noteq> version w) = fresh \<and> \<not> closed w \<and> watch_borrow W w r = v) \<and>
     (\<forall>w v r. version (watch_send W w v) = Suc (version w) \<and> watch_borrow W (watch_send W w v) r = v \<and>
        closed (watch_send W w v) = closed w) \<and>
     (\<forall>w r. version (watch_close W w) = version w \<and> watch_borrow W (watch_close W w) r = watch_borrow W w r \<and>
        closed (watch_close W w)) \<and>
     (\<forall>w r p r'. watch_changed W w r = (p, r') \<longrightarrow>
        p = (if seen r \<noteq> version w then Ready (Inr ()) else if closed w then Ready (Inl ()) else Pending) \<and>
        seen r' = version w \<and> watch_borrow W w r' = watch_borrow W w r) \<and>
     (\<forall>w r p r'. watch_next W w r = (p, r') \<longrightarrow>
        p = (if seen r \<noteq> version w then Ready (Some (watch_borrow W w r)) else if closed w then Ready None else Pending) \<and>
        seen r' = version w)"

section \<open>Trigger and tripwire\<close>

definition trigger_cancel :: "('w, 'r) watch_lib \<Rightarrow> 'w \<Rightarrow> 'w" where
  "trigger_cancel W w = watch_close W (watch_send W w True)"

record 'r tripwire =
  tw_receiver :: "'r option"
  tw_wait_for_halt_future :: "'r option"

definition tripwire_new :: "('w, 'r) watch_lib \<Rightarrow> 'w \<times> 'r tripwire" where
  "tripwire_new W = (case watch_channel W False of (w, r) \<Rightarrow> (w, \<lparr>tw_receiver = Some r, tw_wait_for_halt_future = None\<rparr>))"

definition tripwire_clone :: "'r tripwire \<Rightarrow> 'r tripwire" where
  "tripwire_clone t = \<lparr>tw_receiver = tw_receiver t, tw_wait_for_halt_future = None\<rparr>"

text \<open>One poll of \<open>wait_for_halt\<close>; \<open>None\<close> if it does not end.\<close>

partial_function (option) wait_for_halt ::
    "('w, 'r) watch_lib \<Rightarrow> 'w \<Rightarrow> 'r \<Rightarrow> ((unit + unit) poll \<times> 'r) option" where
  "wait_for_halt W w receiver =
     (case watch_changed W w receiver of
        (Pending, r) \<Rightarrow> Some (Pending, r)
      | (Ready (Inl e), r) \<Rightarrow> Some (Ready (Inl e), r)
      | (Ready (Inr _), r) \<Rightarrow>
          if watch_borrow W w r then Some (Ready (Inr ()), r) else wait_for_halt W w r)"

definition tripwire_poll :: "('w, 'r) watch_lib \<Rightarrow> 'w \<Rightarrow> 'r tripwire \<Rightarrow> (unit poll \<times> 'r tripwire) option" where
  "tripwire_poll W w t =
     (case tw_receiver t of
        None \<Rightarrow> Some (Ready (), t)
      | Some receiver \<Rightarrow>
          (case wait_for_halt W w (case tw_wait_for_halt_future t of None \<Rightarrow> receiver | Some f \<Rightarrow> f) of
             None \<Rightarrow> None
           | Some (Pending, f) \<Rightarrow> Some (Pending, t\<lparr>tw_wait_for_halt_future := Some f\<rparr>)
           | Some (Ready _, _) \<Rightarrow> Some (Ready (), \<lparr>tw_receiver = None, tw_wait_for_halt_future = None\<rparr>)))"

text \<open>The tripwire over tokio 0.2 is its receiver.\<close>

definition tripwire02_poll :: "('w, 'r) watch_lib \<Rightarrow> 'w \<Rightarrow> 'r \<Rightarrow> unit poll \<times> 'r" where
  "tripwire02_poll W w receiver =
     (case watch_next W w receiver of
        (Pending, r) \<Rightarrow> (Pending, r)
      | (Ready (Some False), r) \<Rightarrow> (Pending, r)
      | (Ready _, r) \<Rightarrow> (Ready (), r))"

section \<open>The handle\<close>

text \<open>A join handle is the number of its task.\<close>

datatype task_msg = TaskMsg nat | ReadyMsg

datatype halt_error = HaltTimeout | HaltJoin nat

record ('w, 'r) halt_handle =
  hh_watch :: 'w
  hh_tripwire :: "'r tripwire"
  hh_halt :: bool
  hh_tasks_channel :: "task_msg list"
  hh_receiver_alive :: bool
  hh_tasks :: bool
  hh_notify_join :: bool
  hh_signal_task_spawned :: bool

definition halt_handle_default :: "('w, 'r) watch_lib \<Rightarrow> ('w, 'r) halt_handle" where
  "halt_handle_default W =
     (case tripwire_new W of
        (w, tripwire) \<Rightarrow>
          \<lparr>hh_watch = w, hh_tripwire = tripwire, hh_halt = True, hh_tasks_channel = [], hh_receiver_alive = True, hh_tasks = True,
           hh_notify_join = False, hh_signal_task_spawned = False\<rparr>)"

definition hh_send :: "task_msg \<Rightarrow> ('w, 'r) halt_handle \<Rightarrow> ('w, 'r) halt_handle" where
  "hh_send msg h = (if hh_receiver_alive h then h\<lparr>hh_tasks_channel := hh_tasks_channel h @ [msg]\<rparr> else h)"

definition add_task :: "nat \<Rightarrow> ('w, 'r) halt_handle \<Rightarrow> ('w, 'r) halt_handle" where
  "add_task task h = hh_send (TaskMsg task) h"

definition hh_ready :: "('w, 'r) halt_handle \<Rightarrow> ('w, 'r) halt_handle" where
  "hh_ready h = hh_send ReadyMsg h"

definition hh_halt_tasks :: "('w, 'r) watch_lib \<Rightarrow> ('w, 'r) halt_handle \<Rightarrow> ('w, 'r) halt_handle" where
  "hh_halt_tasks W h =
     (if hh_halt h
      then h\<lparr>hh_halt := False, hh_watch := trigger_cancel W (hh_watch h), hh_notify_join := True\<rparr>
      else h)"

text \<open>Whether the task that waits for a signal is spawned; it then runs the given future, e.g. \<open>halt\<close>.\<close>

definition handle_signal :: "('w, 'r) halt_handle \<Rightarrow> bool \<times> ('w, 'r) halt_handle" where
  "handle_signal h = (\<not> hh_signal_task_spawned h, h\<lparr>hh_signal_task_spawned := True\<rparr>)"

section \<open>Joining\<close>

datatype notify_state = Unnotified | Sleeping nat | PendingForever

record join_future =
  jf_res :: "halt_error + unit"
  jf_handle :: "nat option"
  jf_notify :: notify_state
  jf_timeout :: "nat option"

definition hh_join :: "nat option \<Rightarrow> ('w, 'r) halt_handle \<Rightarrow> (string + join_future) \<times> ('w, 'r) halt_handle" where
  "hh_join timeout h =
     (if hh_tasks h
      then (Inr \<lparr>jf_res = Inr (), jf_handle = None, jf_notify = Unnotified, jf_timeout = timeout\<rparr>, h\<lparr>hh_tasks := False\<rparr>)
      else (Inl ''BUG: HaltHandle: join() called multiple times'', h))"

datatype task_state = TaskRunning | TaskFinished | TaskPanicked

text \<open>
  A step of the future \<open>handles\<close>: the fold awaits one task, or takes the next message. \<open>Inl\<close> is the result
  of the fold.
\<close>

definition collect_step ::
    "(nat \<Rightarrow> task_state) \<Rightarrow> task_msg list \<Rightarrow> join_future \<Rightarrow> ((halt_error + unit) + task_msg list \<times> join_future) option" where
  "collect_step tasks ch j =
     (case jf_handle j of
        Some i \<Rightarrow>
          (case tasks i of
             TaskRunning \<Rightarrow> None
           | TaskFinished \<Rightarrow> Some (Inr (ch, j\<lparr>jf_res := Inr (), jf_handle := None\<rparr>))
           | TaskPanicked \<Rightarrow> Some (Inr (ch, j\<lparr>jf_res := Inl (HaltJoin i), jf_handle := None\<rparr>)))
      | None \<Rightarrow>
          (case ch of
             [] \<Rightarrow> None
           | ReadyMsg # _ \<Rightarrow> Some (Inl (jf_res j))
           | TaskMsg i # ch' \<Rightarrow>
               Some (Inr (ch', if is_ok (jf_res j) then j\<lparr>jf_handle := Some i\<rparr> else j))))"

text \<open>
  A step of the future \<open>notify\<close>, given the permit and the clock: the permit is taken, or the sleep is over.
  \<open>Inl\<close> is the error of the elapsed timeout.
\<close>

definition notify_step :: "bool \<Rightarrow> nat \<Rightarrow> join_future \<Rightarrow> (halt_error + join_future) option" where
  "notify_step permit now j =
     (case jf_notify j of
        Unnotified \<Rightarrow>
          if permit
          then Some (Inr (j\<lparr>jf_notify := (case jf_timeout j of Some t \<Rightarrow> Sleeping (now + t) | None \<Rightarrow> PendingForever)\<rparr>))
          else None
      | Sleeping deadline \<Rightarrow> if deadline \<le> now then Some (Inl HaltTimeout) else None
      | PendingForever \<Rightarrow> None)"

section \<open>Interleavings\<close>

datatype join_state = NotJoined | Joining join_future | Joined "nat option" "halt_error + unit"

text \<open>\<open>hs_log\<close> are the messages ever sent and \<open>hs_halted_at\<close> the time of the first \<open>halt\<close>: they record, nothing reads them.\<close>

record ('w, 'r) halt_system =
  hs_handle :: "('w, 'r) halt_handle"
  hs_tripwires :: "'r tripwire list"
  hs_states :: "task_state list"
  hs_join :: join_state
  hs_clock :: nat
  hs_log :: "task_msg list"
  hs_halted_at :: "nat option"

definition hs_init :: "('w, 'r) watch_lib \<Rightarrow> ('w, 'r) halt_system" where
  "hs_init W = \<lparr>hs_handle = halt_handle_default W, hs_tripwires = [], hs_states = [], hs_join = NotJoined, hs_clock = 0,
     hs_log = [], hs_halted_at = None\<rparr>"

definition hs_spawn :: "('w, 'r) halt_system \<Rightarrow> ('w, 'r) halt_system" where
  "hs_spawn s =
     s\<lparr>hs_handle := add_task (length (hs_states s)) (hs_handle s),
       hs_tripwires := hs_tripwires s @ [tripwire_clone (hh_tripwire (hs_handle s))],
       hs_states := hs_states s @ [TaskRunning],
       hs_log := hs_log s @ [TaskMsg (length (hs_states s))]\<rparr>"

definition hs_ready :: "('w, 'r) halt_system \<Rightarrow> ('w, 'r) halt_system" where
  "hs_ready s = s\<lparr>hs_handle := hh_ready (hs_handle s), hs_log := hs_log s @ [ReadyMsg]\<rparr>"

definition hs_halt :: "('w, 'r) watch_lib \<Rightarrow> ('w, 'r) halt_system \<Rightarrow> ('w, 'r) halt_system" where
  "hs_halt W s =
     s\<lparr>hs_handle := hh_halt_tasks W (hs_handle s),
       hs_halted_at := (case hs_halted_at s of None \<Rightarrow> Some (hs_clock s) | Some t \<Rightarrow> Some t)\<rparr>"

text \<open>When \<open>join\<close> returns, both futures are dropped, and the receiver of the channel with them.\<close>

definition hs_return :: "join_future \<Rightarrow> halt_error + unit \<Rightarrow> ('w, 'r) halt_system \<Rightarrow> ('w, 'r) halt_system" where
  "hs_return j r s =
     s\<lparr>hs_join := Joined (jf_timeout j) r, hs_handle := (hs_handle s)\<lparr>hh_receiver_alive := False\<rparr>\<rparr>"

inductive hcollect :: "('w, 'r) halt_system \<Rightarrow> ('w, 'r) halt_system \<Rightarrow> bool" where
  collected: "hs_join s = Joining j \<Longrightarrow>
    collect_step (\<lambda>i. hs_states s ! i) (hh_tasks_channel (hs_handle s)) j = Some (Inl r) \<Longrightarrow> hcollect s (hs_return j r s)"
| collecting: "hs_join s = Joining j \<Longrightarrow>
    collect_step (\<lambda>i. hs_states s ! i) (hh_tasks_channel (hs_handle s)) j = Some (Inr (ch, j')) \<Longrightarrow>
    hcollect s (s\<lparr>hs_join := Joining j', hs_handle := (hs_handle s)\<lparr>hh_tasks_channel := ch\<rparr>\<rparr>)"

inductive hstep :: "('w, 'r) watch_lib \<Rightarrow> ('w, 'r) halt_system \<Rightarrow> ('w, 'r) halt_system \<Rightarrow> bool" for W where
  spawn: "hstep W s (hs_spawn s)"
| ready: "hstep W s (hs_ready s)"
| halt: "hstep W s (hs_halt W s)"
| signal: "handle_signal (hs_handle s) = (b, h) \<Longrightarrow> hstep W s (s\<lparr>hs_handle := h\<rparr>)"
| join: "hh_join timeout (hs_handle s) = (Inr j, h) \<Longrightarrow> hstep W s (s\<lparr>hs_join := Joining j, hs_handle := h\<rparr>)"
| poll_tripwire: "i < length (hs_tripwires s) \<Longrightarrow> tripwire_poll W (hh_watch (hs_handle s)) (hs_tripwires s ! i) = Some (p, t) \<Longrightarrow>
    hstep W s (s\<lparr>hs_tripwires := (hs_tripwires s)[i := t]\<rparr>)"
| task_ends: "i < length (hs_states s) \<Longrightarrow> hs_states s ! i = TaskRunning \<Longrightarrow> e \<noteq> TaskRunning \<Longrightarrow>
    hstep W s (s\<lparr>hs_states := (hs_states s)[i := e]\<rparr>)"
| collect: "hcollect s s' \<Longrightarrow> hstep W s s'"
| notified: "hs_join s = Joining j \<Longrightarrow> notify_step (hh_notify_join (hs_handle s)) (hs_clock s) j = Some (Inr j') \<Longrightarrow>
    hstep W s (s\<lparr>hs_join := Joining j', hs_handle := (hs_handle s)\<lparr>hh_notify_join := False\<rparr>\<rparr>)"
| timed_out: "hs_join s = Joining j \<Longrightarrow> notify_step (hh_notify_join (hs_handle s)) (hs_clock s) j = Some (Inl e) \<Longrightarrow>
    hstep W s (hs_return j (Inl e) s)"
| tick: "hstep W s (s\<lparr>hs_clock := hs_clock s + d\<rparr>)"

inductive hreach :: "('w, 'r) watch_lib \<Rightarrow> ('w, 'r) halt_system \<Rightarrow> bool" for W where
  init: "hreach W (hs_init W)"
| step: "hreach W s \<Longrightarrow> hstep W s s' \<Longrightarrow> hreach W s'"

section \<open>The tripwire\<close>

lemma watch_laws:
  assumes "watch_contract W version seen closed fresh"
  shows "watch_channel W v = (w, r) \<Longrightarrow> (seen r \<noteq> version w) = fresh \<and> \<not> closed w \<and> watch_borrow W w r = v"
    and "watch_borrow W (watch_send W w v) r = v"
    and "watch_borrow W (watch_close W w) r = watch_borrow W w r" and "closed (watch_close W w)"
    and "watch_changed W w r = (p, r') \<Longrightarrow>
      p = (if seen r \<noteq> version w then Ready (Inr ()) else if closed w then Ready (Inl ()) else Pending) \<and>
      seen r' = version w \<and> watch_borrow W w r' = watch_borrow W w r"
    and "watch_next W w r = (p', r') \<Longrightarrow>
      p' = (if seen r \<noteq> version w then Ready (Some (watch_borrow W w r)) else if closed w then Ready None else Pending)"
  using assms unfolding watch_contract_def by blast+

lemma wait_for_halt_ends:
  assumes "watch_contract W version seen closed fresh"
  shows "\<exists>r'. seen r' = version w \<and> wait_for_halt W w r =
    Some (if seen r \<noteq> version w \<and> watch_borrow W w r then Ready (Inr ()) else if closed w then Ready (Inl ()) else Pending, r')"
proof -
  note changed = watch_laws(5) [OF assms]
  have seen: "\<exists>r'. seen r' = version w \<and> wait_for_halt W w x = Some (if closed w then Ready (Inl ()) else Pending, r')"
    if "seen x = version w" for x
    using changed [of w x] that
    by (cases "watch_changed W w x") (auto simp: wait_for_halt.simps [of W w x])
  obtain p r' where c: "watch_changed W w r = (p, r')" by fastforce
  show ?thesis
    using changed [OF c] seen [of r] seen [of r'] c by (auto simp: wait_for_halt.simps [of W w r])
qed

text \<open>A tripwire that has nothing to report, and the channel before and after the cancellation.\<close>

definition tw_quiet :: "('w \<Rightarrow> nat) \<Rightarrow> ('r \<Rightarrow> nat) \<Rightarrow> 'w \<Rightarrow> 'r tripwire \<Rightarrow> bool" where
  "tw_quiet version seen w t \<longleftrightarrow>
     (\<exists>r. tw_receiver t = Some r \<and> seen r = version w) \<and> (\<forall>f. tw_wait_for_halt_future t = Some f \<longrightarrow> seen f = version w)"

lemma tripwire_poll_quiet:
  assumes "watch_contract W version seen closed fresh" and "tw_quiet version seen w t" and "\<not> closed w"
  shows "\<exists>t'. tripwire_poll W w t = Some (Pending, t') \<and> tw_quiet version seen w t'"
proof -
  obtain r where r: "tw_receiver t = Some r" "seen r = version w" using assms(2) by (auto simp: tw_quiet_def)
  define f where "f = (case tw_wait_for_halt_future t of None \<Rightarrow> r | Some f \<Rightarrow> f)"
  have "seen f = version w" using assms(2) r by (auto simp: f_def tw_quiet_def split: option.split)
  with wait_for_halt_ends [OF assms(1), of w f] assms(3) obtain f' where
    "wait_for_halt W w f = Some (Pending, f')" "seen f' = version w" by auto
  with r show ?thesis by (auto simp: tripwire_poll_def f_def [symmetric] tw_quiet_def)
qed

lemma tripwire_poll_closed:
  assumes "watch_contract W version seen closed fresh" and "closed w"
  shows "\<exists>t'. tripwire_poll W w t = Some (Ready (), t')"
proof (cases "tw_receiver t")
  case (Some r)
  define f where "f = (case tw_wait_for_halt_future t of None \<Rightarrow> r | Some f \<Rightarrow> f)"
  from wait_for_halt_ends [OF assms(1), of w f] assms(2) obtain x f' where "wait_for_halt W w f = Some (Ready x, f')"
    by (cases "seen f \<noteq> version w \<and> watch_borrow W w f") auto
  with Some show ?thesis by (simp add: tripwire_poll_def f_def [symmetric])
qed (simp add: tripwire_poll_def)

text \<open>A trigger that is dropped without \<open>cancel\<close> closes the channel.\<close>

lemma halt_drop_ready:
  assumes "watch_contract W version seen closed fresh"
  shows "\<exists>t'. tripwire_poll W (watch_close W w) t = Some (Ready (), t')"
  by (rule tripwire_poll_closed [OF assms watch_laws(4) [OF assms]])

lemma trigger_cancelled:
  assumes "watch_contract W version seen closed fresh"
  shows "closed (trigger_cancel W w)" "watch_borrow W (trigger_cancel W w) r"
  using watch_laws [OF assms] by (simp_all add: trigger_cancel_def)

lemma tripwire02_fires:
  assumes "watch_contract W version seen closed fresh"
  shows "\<not> closed w \<Longrightarrow> \<not> watch_borrow W w r \<Longrightarrow> fst (tripwire02_poll W w r) = Pending"
    and "fst (tripwire02_poll W (trigger_cancel W w) r) = Ready ()"
proof -
  have "fst (tripwire02_poll W w r) =
      (if if seen r \<noteq> version w then watch_borrow W w r else closed w then Ready () else Pending)" for w r
    using watch_laws(6) [OF assms, of w r] by (cases "watch_next W w r") (simp add: tripwire02_poll_def)
  with trigger_cancelled [OF assms] show "\<not> closed w \<Longrightarrow> \<not> watch_borrow W w r \<Longrightarrow> fst (tripwire02_poll W w r) = Pending"
    and "fst (tripwire02_poll W (trigger_cancel W w) r) = Ready ()" by simp_all
qed

definition halt_inv :: "('w, 'r) watch_lib \<Rightarrow> ('w \<Rightarrow> nat) \<Rightarrow> ('r \<Rightarrow> nat) \<Rightarrow> ('w \<Rightarrow> bool) \<Rightarrow> ('w, 'r) halt_system \<Rightarrow> bool" where
  "halt_inv W version seen closed s \<longleftrightarrow>
     (let h = hs_handle s; w = hh_watch h in
      hh_halt h = (hs_halted_at s = None) \<and> length (hs_tripwires s) = length (hs_states s) \<and>
      (if hh_halt h
       then \<not> closed w \<and> tw_quiet version seen w (hh_tripwire h) \<and> (\<forall>t \<in> set (hs_tripwires s). tw_quiet version seen w t)
       else closed w \<and> (\<forall>r. watch_borrow W w r)))"

lemma halt_inv_same:
  assumes "halt_inv W version seen closed s" and "hh_watch (hs_handle s') = hh_watch (hs_handle s)"
    and "hh_tripwire (hs_handle s') = hh_tripwire (hs_handle s)" and "hh_halt (hs_handle s') = hh_halt (hs_handle s)"
    and "hs_tripwires s' = hs_tripwires s" and "hs_halted_at s' = hs_halted_at s" and "length (hs_states s') = length (hs_states s)"
  shows "halt_inv W version seen closed s'"
  using assms by (auto simp: halt_inv_def Let_def)

lemmas hs_defs = hs_spawn_def hs_ready_def hs_halt_def hs_return_def add_task_def hh_ready_def hh_send_def

lemma halt_inv_step:
  assumes contract: "watch_contract W version seen closed False" and "hstep W s s'" and inv: "halt_inv W version seen closed s"
  shows "halt_inv W version seen closed s'"
  using assms(2)
proof cases
  case spawn
  then show ?thesis using inv by (auto simp: halt_inv_def hs_defs Let_def tripwire_clone_def tw_quiet_def)
next
  case halt
  then show ?thesis
    using inv trigger_cancelled [OF contract]
    by (auto simp: halt_inv_def hs_defs hh_halt_tasks_def Let_def split: option.split)
next
  case (poll_tripwire i p t)
  have "hh_halt (hs_handle s) \<Longrightarrow> tw_quiet version seen (hh_watch (hs_handle s)) t"
    using tripwire_poll_quiet [OF contract, of "hh_watch (hs_handle s)" "hs_tripwires s ! i"] poll_tripwire inv
    by (auto simp: halt_inv_def Let_def)
  then show ?thesis using poll_tripwire inv by (auto simp: halt_inv_def Let_def dest: set_update_memI set_update_subset_insert [THEN subsetD])
qed (use inv in \<open>auto simp: hs_defs handle_signal_def hh_join_def split: if_split_asm elim!: halt_inv_same hcollect.cases\<close>)

lemma hreach_halt_inv:
  assumes "watch_contract W version seen closed False" and "hreach W s"
  shows "halt_inv W version seen closed s"
  using assms(2)
proof induction
  case init
  obtain w r where "watch_channel W False = (w, r)" by fastforce
  with watch_laws(1) [OF assms(1) this] show ?case
    by (simp add: halt_inv_def hs_init_def halt_handle_default_def tripwire_new_def tw_quiet_def Let_def)
next
  case (step s s')
  show ?case by (rule halt_inv_step [OF assms(1) step.hyps(2) step.IH])
qed

section \<open>The join\<close>

text \<open>Tasks only ever end, and messages are only ever added.\<close>

definition all_finished :: "task_state list \<Rightarrow> task_msg list \<Rightarrow> bool" where
  "all_finished sts ms \<longleftrightarrow> (\<forall>m \<in> set ms. \<exists>i. m = TaskMsg i \<and> i < length sts \<and> sts ! i = TaskFinished)"

definition first_panic :: "task_state list \<Rightarrow> task_msg list \<Rightarrow> nat \<Rightarrow> bool" where
  "first_panic sts ms i \<longleftrightarrow>
     (\<exists>ms1 ms2. ms = ms1 @ TaskMsg i # ms2 \<and> all_finished sts ms1 \<and> ReadyMsg \<notin> set ms2 \<and> i < length sts \<and> sts ! i = TaskPanicked)"

definition evolves :: "task_state list \<Rightarrow> task_state list \<Rightarrow> bool" where
  "evolves sts sts' \<longleftrightarrow> length sts \<le> length sts' \<and> (\<forall>i < length sts. sts ! i \<noteq> TaskRunning \<longrightarrow> sts' ! i = sts ! i)"

lemma evolves_refl [simp]: "evolves sts sts"
  by (simp add: evolves_def)

lemma all_finished_simps [simp]:
  "all_finished sts []" "all_finished sts (ms @ ms') \<longleftrightarrow> all_finished sts ms \<and> all_finished sts ms'"
  "all_finished sts (TaskMsg i # ms) \<longleftrightarrow> i < length sts \<and> sts ! i = TaskFinished \<and> all_finished sts ms"
  "\<not> all_finished sts (ReadyMsg # ms)"
  by (auto simp: all_finished_def)

lemma evolves_finished: "evolves sts sts' \<Longrightarrow> all_finished sts ms \<Longrightarrow> all_finished sts' ms"
  unfolding all_finished_def evolves_def by (metis less_le_trans task_state.distinct(1))

lemma evolves_panic: "evolves sts sts' \<Longrightarrow> first_panic sts ms i \<Longrightarrow> first_panic sts' ms i"
  unfolding first_panic_def using evolves_finished evolves_def
  by (metis less_le_trans task_state.distinct(3))

lemma evolves_length: "evolves sts sts' \<Longrightarrow> i < length sts \<Longrightarrow> i < length sts'"
  by (simp add: evolves_def)

lemma first_panicI: "all_finished sts ms \<Longrightarrow> i < length sts \<Longrightarrow> sts ! i = TaskPanicked \<Longrightarrow> first_panic sts (ms @ [TaskMsg i]) i"
  unfolding first_panic_def by (intro exI [of _ ms] exI [of _ "[]"]) simp

lemma first_panic_append: "first_panic sts ms i \<Longrightarrow> first_panic sts (ms @ [TaskMsg k]) i"
  unfolding first_panic_def by (metis append_Cons append_assoc list.set(1,2) set_append Un_iff insert_iff empty_iff task_msg.distinct(1))

lemma all_finished_ready: "all_finished sts ms \<Longrightarrow> ReadyMsg \<notin> set ms"
  by (auto simp: all_finished_def)

lemma first_panic_ready: "first_panic sts ms i \<Longrightarrow> ReadyMsg \<notin> set ms"
  by (auto simp: first_panic_def dest: all_finished_ready)

text \<open>What the fold knows of the messages it has taken.\<close>

definition collected_inv :: "task_state list \<Rightarrow> task_msg list \<Rightarrow> join_future \<Rightarrow> bool" where
  "collected_inv sts ms j \<longleftrightarrow>
     (case jf_res j of
        Inr _ \<Rightarrow>
          (case jf_handle j of
             None \<Rightarrow> all_finished sts ms
           | Some i \<Rightarrow> i < length sts \<and> (\<exists>ms'. ms = ms' @ [TaskMsg i] \<and> all_finished sts ms'))
      | Inl (HaltJoin i) \<Rightarrow> jf_handle j = None \<and> first_panic sts ms i
      | Inl HaltTimeout \<Rightarrow> False)"

definition notify_inv :: "nat option \<Rightarrow> join_future \<Rightarrow> bool" where
  "notify_inv halted_at j \<longleftrightarrow>
     (\<forall>d. jf_notify j = Sleeping d \<longrightarrow> (\<exists>t0 t. halted_at = Some t0 \<and> jf_timeout j = Some t \<and> t0 + t \<le> d))"

text \<open>What the result of \<open>join\<close> means.\<close>

definition join_outcome :: "('w, 'r) halt_system \<Rightarrow> nat option \<Rightarrow> halt_error + unit \<Rightarrow> bool" where
  "join_outcome s timeout r \<longleftrightarrow>
     (case r of
        Inr _ \<Rightarrow> \<exists>ms rest. hs_log s = ms @ ReadyMsg # rest \<and> all_finished (hs_states s) ms
      | Inl (HaltJoin i) \<Rightarrow> \<exists>ms rest. hs_log s = ms @ ReadyMsg # rest \<and> first_panic (hs_states s) ms i
      | Inl HaltTimeout \<Rightarrow> \<exists>t0 t. hs_halted_at s = Some t0 \<and> timeout = Some t \<and> t0 + t \<le> hs_clock s)"

definition join_inv :: "('w, 'r) halt_system \<Rightarrow> bool" where
  "join_inv s \<longleftrightarrow>
     (\<forall>i. TaskMsg i \<in> set (hs_log s) \<longrightarrow> i < length (hs_states s)) \<and>
     (hh_notify_join (hs_handle s) \<longrightarrow> hs_halted_at s \<noteq> None) \<and> (\<forall>t. hs_halted_at s = Some t \<longrightarrow> t \<le> hs_clock s) \<and>
     (case hs_join s of
        NotJoined \<Rightarrow> hh_tasks (hs_handle s) \<and> hh_receiver_alive (hs_handle s) \<and> hs_log s = hh_tasks_channel (hs_handle s)
      | Joining j \<Rightarrow> \<not> hh_tasks (hs_handle s) \<and> hh_receiver_alive (hs_handle s) \<and> notify_inv (hs_halted_at s) j \<and>
          (\<exists>ms. hs_log s = ms @ hh_tasks_channel (hs_handle s) \<and> collected_inv (hs_states s) ms j)
      | Joined timeout r \<Rightarrow> \<not> hh_tasks (hs_handle s) \<and> join_outcome s timeout r)"

lemma evolves_collected: "evolves sts sts' \<Longrightarrow> collected_inv sts ms j \<Longrightarrow> collected_inv sts' ms j"
  unfolding collected_inv_def
  by (auto split: sum.split_asm option.split_asm halt_error.split_asm dest: evolves_finished evolves_panic evolves_length)

lemma outcome_mono:
  assumes "join_outcome s timeout r" and "evolves (hs_states s) (hs_states s')" and "hs_log s' = hs_log s @ ms'"
    and "hs_halted_at s \<noteq> None \<longrightarrow> hs_halted_at s' = hs_halted_at s" and "hs_clock s \<le> hs_clock s'"
  shows "join_outcome s' timeout r"
proof -
  note e = evolves_finished [OF assms(2)] evolves_panic [OF assms(2)]
  have log: "hs_log s = ms @ ReadyMsg # rest \<Longrightarrow> hs_log s' = ms @ ReadyMsg # (rest @ ms')" for ms rest using assms(3) by simp
  consider (ok) "r = Inr ()" | (panic) i where "r = Inl (HaltJoin i)" | (late) "r = Inl HaltTimeout"
    by (metis halt_error.exhaust old.sum.exhaust old.unit.exhaust)
  then show ?thesis
  proof cases
    case ok with assms(1) e(1) log show ?thesis by (simp add: join_outcome_def) blast
  next
    case panic with assms(1) e(2) log show ?thesis by (simp add: join_outcome_def) blast
  next
    case late with assms(1,4,5) show ?thesis by (auto simp: join_outcome_def)
  qed
qed

lemma collect_keeps:
  assumes "hcollect s s'" and "join_inv s"
  shows "join_inv s'"
  using assms(1)
proof cases
  case (collected j r)
  then have "\<exists>rest. hh_tasks_channel (hs_handle s) = ReadyMsg # rest" "jf_handle j = None" "r = jf_res j"
    by (auto simp: collect_step_def split: option.split_asm list.split_asm task_msg.split_asm task_state.split_asm if_split_asm)
  with collected assms(2) show ?thesis
    by (auto simp: join_inv_def hs_return_def join_outcome_def collected_inv_def split: sum.split_asm halt_error.split_asm sum.split halt_error.split)
next
  case (collecting j ch j')
  with assms(2) obtain ms where ms: "hs_log s = ms @ hh_tasks_channel (hs_handle s)" "collected_inv (hs_states s) ms j"
    "\<forall>i. TaskMsg i \<in> set (hs_log s) \<longrightarrow> i < length (hs_states s)" by (auto simp: join_inv_def)
  have "\<exists>ms'. hs_log s = ms' @ ch \<and> collected_inv (hs_states s) ms' j'"
  proof (cases "jf_handle j")
    case (Some i)
    with collecting(3) ms show ?thesis
      by (intro exI [of _ ms])
        (auto simp: collect_step_def collected_inv_def intro: first_panicI split: task_state.split_asm sum.split_asm halt_error.split_asm)
  next
    case None
    with collecting(3) obtain i where i: "hh_tasks_channel (hs_handle s) = TaskMsg i # ch"
      "j' = (if is_ok (jf_res j) then j\<lparr>jf_handle := Some i\<rparr> else j)"
      by (auto simp: collect_step_def split: list.split_asm task_msg.split_asm)
    with ms None show ?thesis
      by (intro exI [of _ "ms @ [TaskMsg i]"])
        (auto simp: collected_inv_def is_ok_def intro: first_panic_append split: sum.split_asm halt_error.split_asm)
  qed
  moreover have "jf_notify j' = jf_notify j \<and> jf_timeout j' = jf_timeout j"
    using collecting(3) by (auto simp: collect_step_def split: option.split_asm list.split_asm task_msg.split_asm task_state.split_asm if_split_asm)
  ultimately show ?thesis using collecting assms(2) by (auto simp: join_inv_def notify_inv_def)
qed

lemma evolves_append: "evolves sts (sts @ sts')"
  by (simp add: evolves_def nth_append)

lemma evolves_end: "sts ! i = TaskRunning \<Longrightarrow> evolves sts (sts[i := e])"
  unfolding evolves_def by (metis length_list_update nth_list_update_neq order_refl)

lemma collected_inv_notify [simp]: "collected_inv sts ms (j\<lparr>jf_notify := n\<rparr>) = collected_inv sts ms j"
  by (simp add: collected_inv_def split: sum.split option.split halt_error.split)

lemma join_inv_step:
  assumes "hstep W s s'" and inv: "join_inv s"
  shows "join_inv s'"
  using assms(1)
proof cases
  case spawn
  note e = evolves_append [of "hs_states s" "[TaskRunning]"]
  show ?thesis
    using inv evolves_collected [OF e] outcome_mono [of s _ _ s' "[TaskMsg (length (hs_states s))]"] e
    by (auto simp: spawn join_inv_def hs_defs less_Suc_eq split: join_state.split_asm)
next
  case ready
  show ?thesis
    using inv outcome_mono [of s _ _ s' "[ReadyMsg]"]
    by (auto simp: ready join_inv_def hs_defs split: join_state.split_asm)
next
  case halt
  show ?thesis
    using inv outcome_mono [of s _ _ s' "[]"]
    by (auto simp: halt join_inv_def hs_defs hh_halt_tasks_def notify_inv_def split: join_state.split_asm option.split)
next
  case (task_ends i e)
  note ev = evolves_end [OF task_ends(3), of e]
  show ?thesis
    using inv evolves_collected [OF ev] outcome_mono [of s _ _ s' "[]"] ev
    by (auto simp: task_ends(1) join_inv_def split: join_state.split_asm)
next
  case collect
  then show ?thesis using collect_keeps inv by blast
next
  case (notified j j')
  then show ?thesis
    using inv by (auto simp: join_inv_def notify_step_def notify_inv_def split: notify_state.split_asm option.split_asm if_split_asm)
next
  case (timed_out j e)
  then show ?thesis
    using inv by (auto simp: join_inv_def notify_step_def notify_inv_def hs_return_def join_outcome_def split: notify_state.split_asm if_split_asm)
next
  case (tick d)
  show ?thesis
    using inv outcome_mono [of s _ _ s' "[]"]
    by (auto simp: tick join_inv_def split: join_state.split_asm intro: trans_le_add1)
next
  case (join timeout j h)
  then show ?thesis
    using inv by (auto simp: join_inv_def hh_join_def notify_inv_def collected_inv_def split: if_split_asm join_state.split_asm)
qed (use inv in \<open>auto simp: join_inv_def handle_signal_def join_outcome_def split: join_state.split_asm sum.split_asm halt_error.split_asm\<close>)

lemma hreach_join_inv: "hreach W s \<Longrightarrow> join_inv s"
proof (induction rule: hreach.induct)
  case init
  show ?case by (simp add: join_inv_def hs_init_def halt_handle_default_def split: prod.split)
next
  case (step s s')
  then show ?case by (blast intro: join_inv_step)
qed

lemma takeWhile_ready: "ReadyMsg \<notin> set ms \<Longrightarrow> takeWhile (\<lambda>m. m \<noteq> ReadyMsg) (ms @ ReadyMsg # rest) = ms"
  by (induction ms) auto

text \<open>The fold makes progress, and every step of it brings it closer to its end.\<close>

definition collect_work :: "('w, 'r) halt_system \<Rightarrow> nat" where
  "collect_work s =
     (case hs_join s of
        Joining j \<Rightarrow> Suc (2 * length (hh_tasks_channel (hs_handle s)) + (if jf_handle j = None then 0 else 1))
      | _ \<Rightarrow> 0)"

lemma collect_decreases: "hcollect s s' \<Longrightarrow> collect_work s' < collect_work s"
  by (auto elim!: hcollect.cases simp: collect_work_def hs_return_def collect_step_def
      split: option.split_asm list.split_asm task_msg.split_asm task_state.split_asm if_split_asm)

lemma collect_possible:
  assumes "join_inv s" and "hs_join s = Joining j" and "ReadyMsg \<in> set (hs_log s)"
    and "\<And>i. TaskMsg i \<in> set (takeWhile (\<lambda>m. m \<noteq> ReadyMsg) (hs_log s)) \<Longrightarrow> hs_states s ! i \<noteq> TaskRunning"
  shows "\<exists>s'. hcollect s s'"
proof -
  from assms(1,2) obtain ms where ms: "hs_log s = ms @ hh_tasks_channel (hs_handle s)" "collected_inv (hs_states s) ms j"
    by (auto simp: join_inv_def)
  have "collect_step (\<lambda>i. hs_states s ! i) (hh_tasks_channel (hs_handle s)) j \<noteq> None"
  proof (cases "jf_handle j")
    case (Some i)
    with ms(2) obtain ms' where ms': "ms = ms' @ [TaskMsg i]" "all_finished (hs_states s) ms'"
      by (auto simp: collected_inv_def split: sum.split_asm halt_error.split_asm)
    have "TaskMsg i \<in> set (takeWhile (\<lambda>m. m \<noteq> ReadyMsg) (ms' @ TaskMsg i # rest))" for rest
      using all_finished_ready [OF ms'(2)] by (induction ms') auto
    then have "TaskMsg i \<in> set (takeWhile (\<lambda>m. m \<noteq> ReadyMsg) (hs_log s))" by (simp add: ms(1) ms'(1))
    with assms(4) Some show ?thesis by (simp add: collect_step_def split: task_state.split)
  next
    case None
    then have "ReadyMsg \<notin> set ms"
      using ms(2) by (auto simp: collected_inv_def dest: all_finished_ready first_panic_ready split: sum.split_asm halt_error.split_asm)
    with assms(3) ms(1) have "hh_tasks_channel (hs_handle s) \<noteq> []" by auto
    with None show ?thesis by (auto simp: collect_step_def split: list.split task_msg.split)
  qed
  then obtain r where "collect_step (\<lambda>i. hs_states s ! i) (hh_tasks_channel (hs_handle s)) j = Some r" by blast
  with assms(2) show ?thesis by (cases r) (auto intro: hcollect.intros)
qed

lemma collect_frame:
  assumes "hcollect s s'" and "hs_join s = Joining j"
  shows "hs_log s' = hs_log s" "hs_states s' = hs_states s"
    "(\<exists>j'. hs_join s' = Joining j' \<and> jf_timeout j' = jf_timeout j) \<or> hs_join s' = Joined (jf_timeout j) (jf_res j)"
  using assms
  by (auto elim!: hcollect.cases simp: hs_return_def collect_step_def
      split: option.split_asm list.split_asm task_msg.split_asm task_state.split_asm if_split_asm)

lemma joining_res:
  assumes "join_inv s" and "hs_join s = Joining j"
  shows "jf_res j = Inr () \<or> (\<exists>i. jf_res j = Inl (HaltJoin i))"
proof -
  from assms obtain ms where "collected_inv (hs_states s) ms j" by (auto simp: join_inv_def)
  then show ?thesis by (auto simp: collected_inv_def split: sum.split_asm halt_error.split_asm)
qed

lemma join_ends:
  assumes "join_inv s" and "hs_join s = Joining j" and "ReadyMsg \<in> set (hs_log s)"
    and "\<And>i. TaskMsg i \<in> set (takeWhile (\<lambda>m. m \<noteq> ReadyMsg) (hs_log s)) \<Longrightarrow> hs_states s ! i \<noteq> TaskRunning"
  shows "\<exists>s' r. hcollect\<^sup>*\<^sup>* s s' \<and> hs_join s' = Joined (jf_timeout j) r \<and> (r = Inr () \<or> (\<exists>i. r = Inl (HaltJoin i)))"
  using assms
proof (induction "collect_work s" arbitrary: s j rule: less_induct)
  case less
  from collect_possible [OF less.prems] obtain s1 where s1: "hcollect s s1" by blast
  note frame = collect_frame [OF s1 less.prems(2)]
  from frame(3) show ?case
  proof (elim disjE exE conjE)
    fix j1 assume j1: "hs_join s1 = Joining j1" "jf_timeout j1 = jf_timeout j"
    from less.hyps [OF collect_decreases [OF s1] collect_keeps [OF s1 less.prems(1)] j1(1)] less.prems(3,4) frame(1,2) j1(2)
    show ?case using s1 by (metis converse_rtranclp_into_rtranclp)
  next
    assume "hs_join s1 = Joined (jf_timeout j) (jf_res j)"
    with s1 joining_res [OF less.prems(1,2)] show ?case by blast
  qed
qed

section \<open>Properties\<close>

text \<open>
  C25. Halting reaches every task, and, while the handle is alive, nothing else does. In every state that the
  handle and its tasks can get into, polling the tripwire of a task, spawned before or after the halt and polled
  before or not, is pending as long as \<open>halt\<close> has not been called and ready ever after; the
  poll always ends.
\<close>

theorem halt_reaches_tasks:
  assumes "watch_contract W version seen closed False" and "hreach W s" and "i < length (hs_states s)"
  shows "\<exists>t. tripwire_poll W (hh_watch (hs_handle s)) (hs_tripwires s ! i) =
    Some (if hs_halted_at s = None then Pending else Ready (), t)"
proof (cases "hs_halted_at s = None")
  case True
  with hreach_halt_inv [OF assms(1,2)] assms(3) have "tw_quiet version seen (hh_watch (hs_handle s)) (hs_tripwires s ! i)"
    "\<not> closed (hh_watch (hs_handle s))" by (auto simp: halt_inv_def Let_def)
  from tripwire_poll_quiet [OF assms(1) this] True show ?thesis by auto
next
  case False
  with hreach_halt_inv [OF assms(1,2)] have "closed (hh_watch (hs_handle s))" by (auto simp: halt_inv_def Let_def)
  from tripwire_poll_closed [OF assms(1) this] False show ?thesis by auto
qed

text \<open>
  C26. What the result of \<open>join\<close> says, in every interleaving: on success, \<open>ready\<close> was called and every task
  spawned before it has finished; a join error names the first of these tasks, in the order in which
  they were spawned, that has panicked; a timeout means that \<open>halt\<close> was called at least that long ago.
\<close>

theorem join_result:
  assumes "hreach W s" and "hs_join s = Joined timeout r"
  shows "let before = takeWhile (\<lambda>m. m \<noteq> ReadyMsg) (hs_log s) in
      case r of
        Inr _ \<Rightarrow> ReadyMsg \<in> set (hs_log s) \<and> (\<forall>i. TaskMsg i \<in> set before \<longrightarrow> hs_states s ! i = TaskFinished)
      | Inl (HaltJoin i) \<Rightarrow> ReadyMsg \<in> set (hs_log s) \<and> hs_states s ! i = TaskPanicked \<and>
          (\<exists>ms1 ms2. before = ms1 @ TaskMsg i # ms2 \<and> (\<forall>k. TaskMsg k \<in> set ms1 \<longrightarrow> hs_states s ! k = TaskFinished))
      | Inl HaltTimeout \<Rightarrow> (\<exists>t0 t. hs_halted_at s = Some t0 \<and> timeout = Some t \<and> t0 + t \<le> hs_clock s)"
proof -
  have out: "join_outcome s timeout r" using hreach_join_inv [OF assms(1)] assms(2) by (simp add: join_inv_def)
  consider (ok) "r = Inr ()" | (panic) i where "r = Inl (HaltJoin i)" | (late) "r = Inl HaltTimeout"
    by (metis halt_error.exhaust old.sum.exhaust old.unit.exhaust)
  then show ?thesis
  proof cases
    case ok
    with out show ?thesis
      by (auto simp: join_outcome_def Let_def takeWhile_ready [OF all_finished_ready] all_finished_def)
  next
    case (panic i)
    with out obtain ms rest where ms: "hs_log s = ms @ ReadyMsg # rest" "first_panic (hs_states s) ms i"
      by (auto simp: join_outcome_def)
    then obtain ms1 ms2 where "ms = ms1 @ TaskMsg i # ms2" "all_finished (hs_states s) ms1" "hs_states s ! i = TaskPanicked"
      by (auto simp: first_panic_def)
    moreover have "takeWhile (\<lambda>m. m \<noteq> ReadyMsg) (hs_log s) = ms"
      unfolding ms(1) by (rule takeWhile_ready [OF first_panic_ready [OF ms(2)]])
    ultimately show ?thesis using panic ms(1) by (auto simp: Let_def all_finished_def)
  next
    case late
    with out show ?thesis by (simp add: join_outcome_def)
  qed
qed

text \<open>
  C37. \<open>join\<close> returns. Once \<open>ready\<close> was called and the tasks spawned before it have ended, collecting their
  handles comes to its end by its own steps, each of which brings it closer, with success or a join
  error.
\<close>

theorem join_returns:
  assumes "hreach W s" and "hs_join s = Joining j" and "ReadyMsg \<in> set (hs_log s)"
    and "\<And>i. TaskMsg i \<in> set (takeWhile (\<lambda>m. m \<noteq> ReadyMsg) (hs_log s)) \<Longrightarrow> hs_states s ! i \<noteq> TaskRunning"
  shows "(\<exists>s' r. hcollect\<^sup>*\<^sup>* s s' \<and> hs_join s' = Joined (jf_timeout j) r \<and> (r = Inr () \<or> (\<exists>i. r = Inl (HaltJoin i)))) \<and>
    (\<forall>s'. hcollect s s' \<longrightarrow> collect_work s' < collect_work s)"
  using join_ends [OF hreach_join_inv [OF assms(1)] assms(2-4)] collect_decreases by blast

section \<open>Examples\<close>

definition simple_watch :: "(nat \<times> bool \<times> bool, nat) watch_lib" where
  "simple_watch =
     \<lparr>watch_channel = (\<lambda>v. ((0, v, False), 0)),
      watch_send = (\<lambda>(n, _, c) v. (Suc n, v, c)),
      watch_close = (\<lambda>(n, v, _). (n, v, True)),
      watch_changed = (\<lambda>(n, v, c) r. (if r \<noteq> n then Ready (Inr ()) else if c then Ready (Inl ()) else Pending, n)),
      watch_borrow = (\<lambda>(n, v, c) r. v),
      watch_next = (\<lambda>(n, v, c) r. (if r \<noteq> n then Ready (Some v) else if c then Ready None else Pending, n))\<rparr>"

lemma simple_watch_contract: "watch_contract simple_watch fst id (\<lambda>(_, _, c). c) False"
  by (auto simp: watch_contract_def simple_watch_def)

text \<open>Two tasks are spawned and joined, and the second ends by a panic while the first one runs.\<close>

definition two_tasks :: "('w, 'r) watch_lib \<Rightarrow> ('w, 'r) halt_system" where
  "two_tasks W = hs_ready (hs_spawn (hs_spawn (hs_init W)))"

definition two_tasks_joining :: "('w, 'r) watch_lib \<Rightarrow> task_state list \<Rightarrow> task_msg list \<Rightarrow> nat option \<Rightarrow> ('w, 'r) halt_system" where
  "two_tasks_joining W sts ch i =
     (two_tasks W)\<lparr>hs_states := sts,
       hs_join := Joining \<lparr>jf_res = Inr (), jf_handle = i, jf_notify = Unnotified, jf_timeout = None\<rparr>,
       hs_handle := (hs_handle (two_tasks W))\<lparr>hh_tasks := False, hh_tasks_channel := ch\<rparr>\<rparr>"

lemmas two_tasks_defs = two_tasks_joining_def two_tasks_def hs_defs hs_init_def halt_handle_default_def

lemma two_tasks_reachable: "hreach W (two_tasks_joining W [TaskRunning, TaskRunning] [TaskMsg 0, TaskMsg 1, ReadyMsg] None)"
proof -
  have "hreach W (two_tasks W)"
    unfolding two_tasks_def by (intro hreach.step [OF _ hstep.ready] hreach.step [OF _ hstep.spawn] hreach.init)
  moreover have "hh_join None (hs_handle (two_tasks W)) =
      (Inr \<lparr>jf_res = Inr (), jf_handle = None, jf_notify = Unnotified, jf_timeout = None\<rparr>, (hs_handle (two_tasks W))\<lparr>hh_tasks := False\<rparr>)"
    by (simp add: two_tasks_defs hh_join_def split: prod.split)
  ultimately have "hreach W ((two_tasks W)\<lparr>hs_join := Joining \<lparr>jf_res = Inr (), jf_handle = None, jf_notify = Unnotified, jf_timeout = None\<rparr>,
      hs_handle := (hs_handle (two_tasks W))\<lparr>hh_tasks := False\<rparr>\<rparr>)"
    by (intro hreach.step [OF _ hstep.join])
  then show ?thesis by (simp add: two_tasks_defs split: prod.split_asm prod.split)
qed

text \<open>
  \<open>join\<close> does not fail fast: it awaits the tasks one after the other, so a panic of the second task goes
  unnoticed as long as the first one runs, though \<open>ready\<close> was called long ago.
\<close>

theorem join_not_fail_fast:
  "\<exists>s j. hreach W s \<and> hs_join s = Joining j \<and> ReadyMsg \<in> set (hs_log s) \<and> TaskPanicked \<in> set (hs_states s) \<and> (\<nexists>s'. hcollect s s')"
proof -
  let ?s = "two_tasks_joining W [TaskRunning, TaskRunning] [TaskMsg 0, TaskMsg 1, ReadyMsg] None"
  let ?t = "two_tasks_joining W [TaskRunning, TaskPanicked] [TaskMsg 0, TaskMsg 1, ReadyMsg] None"
  let ?u = "two_tasks_joining W [TaskRunning, TaskPanicked] [TaskMsg 1, ReadyMsg] (Some 0)"
  have "hstep W ?s (?s\<lparr>hs_states := (hs_states ?s)[1 := TaskPanicked]\<rparr>)"
    by (rule hstep.task_ends) (simp_all add: two_tasks_joining_def)
  then have "hstep W ?s ?t" by (simp add: two_tasks_joining_def two_tasks_def hs_init_def hs_spawn_def hs_ready_def)
  moreover have "hcollect ?t ?u"
  proof -
    let ?j = "\<lparr>jf_res = Inr (), jf_handle = None, jf_notify = Unnotified, jf_timeout = None\<rparr>"
    have "hcollect ?t (?t\<lparr>hs_join := Joining (?j\<lparr>jf_handle := Some 0\<rparr>),
        hs_handle := (hs_handle ?t)\<lparr>hh_tasks_channel := [TaskMsg 1, ReadyMsg]\<rparr>\<rparr>)"
      by (rule hcollect.collecting [of _ ?j]) (simp_all add: two_tasks_joining_def collect_step_def is_ok_def)
    then show ?thesis by (simp add: two_tasks_joining_def two_tasks_def hs_init_def hs_spawn_def hs_ready_def)
  qed
  ultimately have "hreach W ?u" using two_tasks_reachable by (blast intro: hreach.step hstep.collect)
  moreover have "\<nexists>s'. hcollect ?u s'"
    by (auto elim!: hcollect.cases simp: two_tasks_joining_def collect_step_def)
  ultimately show ?thesis
    by (intro exI [of _ ?u]) (simp add: two_tasks_joining_def two_tasks_def hs_ready_def)
qed

theorem halt_reaches_tasks_witness:
  "\<exists>t. tripwire_poll simple_watch (hh_watch (hs_handle (hs_halt simple_watch (two_tasks simple_watch))))
     (hs_tripwires (hs_halt simple_watch (two_tasks simple_watch)) ! 1) = Some (Ready (), t)"
proof -
  have "hreach simple_watch (hs_halt simple_watch (two_tasks simple_watch))"
    unfolding two_tasks_def by (intro hreach.step [OF _ hstep.halt] hreach.step [OF _ hstep.ready] hreach.step [OF _ hstep.spawn] hreach.init)
  from halt_reaches_tasks [OF simple_watch_contract this, of 1] show ?thesis
    by (simp add: two_tasks_def hs_halt_def hs_ready_def hs_spawn_def hs_init_def)
qed

lemma two_tasks_finished:
  "hreach W (two_tasks_joining W [TaskFinished, TaskFinished] [TaskMsg 0, TaskMsg 1, ReadyMsg] None)"
proof -
  let ?s = "\<lambda>a b. two_tasks_joining W [a, b] [TaskMsg 0, TaskMsg 1, ReadyMsg] None"
  note d = two_tasks_joining_def two_tasks_def hs_init_def hs_spawn_def hs_ready_def
  have "hstep W (?s TaskRunning TaskRunning) ((?s TaskRunning TaskRunning)\<lparr>hs_states := [TaskRunning, TaskRunning][0 := TaskFinished]\<rparr>)"
    using hstep.task_ends [of 0 "?s TaskRunning TaskRunning" TaskFinished W] by (simp add: d)
  then have 1: "hstep W (?s TaskRunning TaskRunning) (?s TaskFinished TaskRunning)" by (simp add: d)
  have "hstep W (?s TaskFinished TaskRunning) ((?s TaskFinished TaskRunning)\<lparr>hs_states := [TaskFinished, TaskRunning][1 := TaskFinished]\<rparr>)"
    using hstep.task_ends [of 1 "?s TaskFinished TaskRunning" TaskFinished W] by (simp add: d)
  then have 2: "hstep W (?s TaskFinished TaskRunning) (?s TaskFinished TaskFinished)" by (simp add: d)
  from two_tasks_reachable 1 2 show ?thesis by (blast intro: hreach.step)
qed

theorem join_returns_witness:
  "\<exists>s' r. hcollect\<^sup>*\<^sup>* (two_tasks_joining simple_watch [TaskFinished, TaskFinished] [TaskMsg 0, TaskMsg 1, ReadyMsg] None) s' \<and>
     hs_join s' = Joined None r"
proof -
  let ?s = "two_tasks_joining simple_watch [TaskFinished, TaskFinished] [TaskMsg 0, TaskMsg 1, ReadyMsg] None"
  note d = two_tasks_joining_def two_tasks_def hs_init_def hs_spawn_def hs_ready_def
  have "hs_join ?s = Joining \<lparr>jf_res = Inr (), jf_handle = None, jf_notify = Unnotified, jf_timeout = None\<rparr>"
    "ReadyMsg \<in> set (hs_log ?s)" by (simp_all add: d)
  moreover have "hs_states ?s ! i \<noteq> TaskRunning" if "TaskMsg i \<in> set (takeWhile (\<lambda>m. m \<noteq> ReadyMsg) (hs_log ?s))" for i
    using that by (auto simp: d)
  ultimately show ?thesis using join_returns [OF two_tasks_finished] by (metis (no_types, lifting) join_future.select_convs(4))
qed

text \<open>The same two tasks, joined with a timeout of zero, halted, and not waited for.\<close>

definition halted_join :: "(nat \<times> bool \<times> bool, nat) halt_system" where
  "halted_join = hs_halt simple_watch (hs_ready (hs_spawn (hs_init simple_watch)))"

theorem join_result_witness:
  "\<exists>s. hreach simple_watch s \<and> hs_join s = Joined (Some 0) (Inl HaltTimeout) \<and> hs_halted_at s = Some 0"
proof -
  let ?j = "\<lambda>n. \<lparr>jf_res = Inr (), jf_handle = None, jf_notify = n, jf_timeout = Some 0\<rparr>"
  let ?h = "(hs_handle halted_join)\<lparr>hh_tasks := False\<rparr>"
  let ?s = "halted_join\<lparr>hs_join := Joining (?j Unnotified), hs_handle := ?h\<rparr>"
  let ?t = "?s\<lparr>hs_join := Joining (?j (Sleeping 0)), hs_handle := (hs_handle ?s)\<lparr>hh_notify_join := False\<rparr>\<rparr>"
  let ?u = "hs_return (?j (Sleeping 0)) (Inl HaltTimeout) ?t"
  note d = halted_join_def hs_defs hs_init_def halt_handle_default_def tripwire_new_def simple_watch_def hh_halt_tasks_def
  have "hreach simple_watch halted_join"
    unfolding halted_join_def by (intro hreach.step [OF _ hstep.halt] hreach.step [OF _ hstep.ready] hreach.step [OF _ hstep.spawn] hreach.init)
  moreover have "hstep simple_watch halted_join ?s" by (rule hstep.join [of "Some 0"]) (simp add: d hh_join_def)
  moreover have "hstep simple_watch ?s ?t" by (rule hstep.notified [of _ "?j Unnotified"]) (simp_all add: d notify_step_def)
  moreover have "hstep simple_watch ?t ?u" by (rule hstep.timed_out) (simp_all add: d notify_step_def)
  ultimately have u: "hreach simple_watch ?u" by (blast intro: hreach.step)
  moreover have "hs_join ?u = Joined (Some 0) (Inl HaltTimeout)" by (simp add: hs_return_def)
  moreover from join_result [OF u this] have "hs_halted_at ?u = Some 0" by (auto simp: Let_def d)
  ultimately show ?thesis by blast
qed

end
