(* ===== verification/Proxy_Main.thy ===== *)
theory Proxy_Main
  imports Proxy_Server Key_Tool Halt_Handle
begin

text \<open>
  The programs: \<open>frontend.rs\<close> and \<open>main.rs\<close> of the stratum proxy, and \<open>main.rs\<close>, the accepting loop and the metrics of the
  noise proxy. A program reads its configuration, makes a security context of the files it names, listens, hands
  its server to a \<open>HaltHandle\<close> and joins it. The parsers of TOML and of the command line are parameters; files are those of
  \<open>Key_Tool\<close>.
\<close>

section \<open>Configuration of the stratum proxy\<close>

record key_and_cert_files =
  certificate_file :: path
  secret_key_file :: path

record proxy_protocol_config =
  downstream_config :: protocol_config
  upstream_version :: "protocol_version option"

record proxy_config =
  listen_address :: address
  upstream_address :: address
  insecure :: bool
  key_and_cert :: "key_and_cert_files option"
  proxy_protocol :: "proxy_protocol_config option"

definition proxy_protocol_default :: proxy_protocol_config where
  "proxy_protocol_default =
     \<lparr>downstream_config = \<lparr>pc_require_proxy_header = False, pc_versions = []\<rparr>, upstream_version = None\<rparr>"

definition config_default :: proxy_config where
  "config_default =
     \<lparr>listen_address = Address (ascii ''0.0.0.0'') 3336, upstream_address = Address (ascii ''stratum.slushpool.com'') 3333,
      insecure = True, key_and_cert = None, proxy_protocol = None\<rparr>"

text \<open>Opening a file and then reading it.\<close>

definition file_access :: "faults \<Rightarrow> files \<Rightarrow> path \<Rightarrow> string + (string + bytes)" where
  "file_access F fs file =
     (case fault_open F file of
        Some e \<Rightarrow> Inl e
      | None \<Rightarrow>
          (case fs file of
             None \<Rightarrow> Inl ''No such file or directory''
           | Some content \<Rightarrow>
               Inr (case fault_read F file of
                      Some e \<Rightarrow> Inl e
                    | None \<Rightarrow> if valid_utf8 content then Inr content else Inl ''stream did not contain valid UTF-8'')))"

definition context_from_files ::
    "noise_libs \<Rightarrow> (stratum_error \<Rightarrow> string) \<Rightarrow> faults \<Rightarrow> files \<Rightarrow> path \<Rightarrow> path \<Rightarrow> noise_proxy_error + security_context" where
  "context_from_files L show_err F fs cert_path key_path =
     context_read_from_file L show_err (file_access F fs cert_path) (file_access F fs key_path)"

definition read_security_context ::
    "noise_libs \<Rightarrow> (stratum_error \<Rightarrow> string) \<Rightarrow> (noise_proxy_error \<Rightarrow> string) \<Rightarrow> faults \<Rightarrow> files \<Rightarrow> system_time \<Rightarrow> proxy_config \<Rightarrow>
     server_error + security_context option" where
  "read_security_context L show_err show_np F fs now config =
     (if insecure config then Inr None
      else case key_and_cert config of
        Some files \<Rightarrow>
          (case context_from_files L show_err F fs (certificate_file files) (secret_key_file files) of
             Inl e \<Rightarrow> Inl (InvalidFile (''Failed to read certificate and key: '' @ show_np e))
           | Inr ctx \<Rightarrow>
               (case context_validate_by_time L ctx now of
                  Inl e \<Rightarrow> Inl (NoiseError e)
                | Inr _ \<Rightarrow> Inr (Some ctx)))
      | None \<Rightarrow> Inl (InvalidFile ''Certificate and key files are missing''))"

section \<open>The stratum proxy\<close>

datatype startup_error =
    ConfigUnreadable string
  | ConfigInvalid string
  | SecurityContextError server_error
  | CannotBind conn_end

record proxy_started =
  st_listen :: socket_addr
  st_builder :: build_method
  st_server :: proxy_server
  st_context :: "security_context option"
  st_upstream :: address
  st_upstream_version :: "protocol_version option"

text \<open>
  \<open>main\<close> up to the point where the server runs. \<open>from_toml\<close> is the parser of the configuration, \<open>resolve\<close> the resolution of the
  address to listen on, \<open>bind_error\<close> what binding reports. The arguments of \<open>listen\<close> are evaluated before it is
  called, so the security context comes first.
\<close>

definition proxy_start ::
    "noise_libs \<Rightarrow> (stratum_error \<Rightarrow> string) \<Rightarrow> (noise_proxy_error \<Rightarrow> string) \<Rightarrow> faults \<Rightarrow> files \<Rightarrow> system_time \<Rightarrow>
     (bytes \<Rightarrow> string + proxy_config) \<Rightarrow> (address \<Rightarrow> string + socket_addr list) \<Rightarrow> string option \<Rightarrow> path \<Rightarrow> startup_error + proxy_started" where
  "proxy_start L show_err show_np F fs now from_toml resolve bind_error config_file =
     rbind (map_err ConfigUnreadable (rbind (file_access F fs config_file) id)) (\<lambda>config_string.
     rbind (map_err ConfigInvalid (from_toml config_string)) (\<lambda>config.
     rbind (map_err SecurityContextError (read_security_context L show_err show_np F fs now config)) (\<lambda>ctx.
     let protocol = (case proxy_protocol config of Some p \<Rightarrow> p | None \<Rightarrow> proxy_protocol_default) in
     rbind (map_err CannotBind (server_listen (downstream_config protocol) (resolve (listen_address config)) bind_error))
       (\<lambda>(listen, builder, server).
     Inr \<lparr>st_listen = listen, st_builder = builder, st_server = server, st_context = ctx,
          st_upstream = upstream_address config, st_upstream_version = upstream_version protocol\<rparr>))))"

text \<open>The rest of \<open>main\<close>: the server is the first task of a new handle, which is ready, halts on a signal and is joined.\<close>

definition halt_on_signal :: "('w, 'r) halt_system \<Rightarrow> ('w, 'r) halt_system" where
  "halt_on_signal s = s\<lparr>hs_handle := snd (handle_signal (hs_handle s))\<rparr>"

definition main_handle :: "('w, 'r) watch_lib \<Rightarrow> ('w, 'r) halt_system" where
  "main_handle W = halt_on_signal (hs_ready (hs_spawn (hs_init W)))"

definition main_join :: "('w, 'r) watch_lib \<Rightarrow> nat \<Rightarrow> ('w, 'r) halt_system" where
  "main_join W timeout =
     (case hh_join (Some timeout) (hs_handle (main_handle W)) of
        (Inr j, h) \<Rightarrow> (main_handle W)\<lparr>hs_join := Joining j, hs_handle := h\<rparr>
      | (Inl _, _) \<Rightarrow> main_handle W)"

inductive main_runs :: "('w, 'r) watch_lib \<Rightarrow> nat \<Rightarrow> ('w, 'r) halt_system \<Rightarrow> bool" for W timeout where
  joined: "main_runs W timeout (main_join W timeout)"
| step: "main_runs W timeout s \<Longrightarrow> hstep W s s' \<Longrightarrow> main_runs W timeout s'"

definition PROXY_JOIN_TIMEOUT :: nat where "PROXY_JOIN_TIMEOUT = 5"

section \<open>The noise proxy\<close>

text \<open>The counters of \<open>metrics.rs\<close>, by label.\<close>

record np_metrics =
  nm_open_success :: nat
  nm_open_fail :: nat
  nm_close :: "string list"

definition np_metrics_new :: np_metrics where
  "np_metrics_new = \<lparr>nm_open_success = 0, nm_open_fail = 0, nm_close = []\<rparr>"

definition np_account_successful_tcp_open :: "np_metrics \<Rightarrow> np_metrics" where
  "np_account_successful_tcp_open m = m\<lparr>nm_open_success := nm_open_success m + 1\<rparr>"

definition np_account_failed_tcp_open :: "np_metrics \<Rightarrow> np_metrics" where
  "np_account_failed_tcp_open m = m\<lparr>nm_open_fail := nm_open_fail m + 1\<rparr>"

definition np_account_tcp_close_in_stage :: "string \<Rightarrow> np_metrics \<Rightarrow> np_metrics" where
  "np_account_tcp_close_in_stage stage m = m\<lparr>nm_close := nm_close m @ [stage]\<rparr>"

record np_connection =
  npc_upstream_version :: "protocol_version option"
  npc_security_context :: security_context
  npc_direct_peer :: socket_addr
  npc_upstream :: socket_addr

definition np_connection_new :: "protocol_version option \<Rightarrow> socket_addr \<Rightarrow> security_context \<Rightarrow> socket_addr \<Rightarrow> np_connection" where
  "np_connection_new version peer ctx upstream =
     \<lparr>npc_upstream_version = version, npc_security_context = ctx, npc_direct_peer = peer, npc_upstream = upstream\<rparr>"

record noise_proxy =
  np_upstream :: socket_addr
  np_context :: security_context
  np_listener :: bool
  np_builder :: build_method
  np_upstream_version :: "protocol_version option"
  np_counters :: np_metrics

datatype np_start_error = NpBind string | NpLookup string | NpUnresolved | NpConfigPanic string

definition noise_proxy_new ::
    "string option \<Rightarrow> string + socket_addr list \<Rightarrow> security_context \<Rightarrow> protocol_config \<Rightarrow> protocol_version option \<Rightarrow> np_metrics \<Rightarrow>
     np_start_error + noise_proxy" where
  "noise_proxy_new bind_error looked_up ctx config version counters =
     (case bind_error of
        Some e \<Rightarrow> Inl (NpBind e)
      | None \<Rightarrow>
          (case looked_up of
             Inl e \<Rightarrow> Inl (NpLookup e)
           | Inr [] \<Rightarrow> Inl NpUnresolved
           | Inr (upstream # _) \<Rightarrow>
               (case acceptor_builder_new config of
                  Inl _ \<Rightarrow> Inl (NpConfigPanic ''BUG: inconsistent config'')
                | Inr builder \<Rightarrow>
                    Inr \<lparr>np_upstream = upstream, np_context = ctx, np_listener = True, np_builder = builder,
                         np_upstream_version = version, np_counters = counters\<rparr>)))"

text \<open>The outcomes of the \<open>select!\<close> in the accepting loop.\<close>

datatype np_event = NpAccepted socket_addr | NpAcceptFailed string | NpTripwire

record np_loop =
  nl_spawned :: "np_connection list"
  nl_counters :: np_metrics
  nl_slept_ms :: nat
  nl_terminated :: bool

fun np_main_loop :: "noise_proxy \<Rightarrow> np_event list \<Rightarrow> np_loop \<Rightarrow> np_loop" where
  "np_main_loop np [] l = l"
| "np_main_loop np (NpAccepted peer # es) l =
     np_main_loop np es
       (l\<lparr>nl_counters := np_account_successful_tcp_open (nl_counters l),
          nl_spawned := nl_spawned l @ [np_connection_new (np_upstream_version np) peer (np_context np) (np_upstream np)]\<rparr>)"
| "np_main_loop np (NpAcceptFailed e # es) l =
     np_main_loop np es
       (l\<lparr>nl_counters := np_account_failed_tcp_open (nl_counters l), nl_slept_ms := nl_slept_ms l + 100\<rparr>)"
| "np_main_loop np (NpTripwire # es) l = l\<lparr>nl_terminated := True\<rparr>"

definition np_run :: "noise_proxy \<Rightarrow> np_event list \<Rightarrow> string + np_loop" where
  "np_run np es =
     (if np_listener np
      then Inr (np_main_loop np es \<lparr>nl_spawned = [], nl_counters = np_counters np, nl_slept_ms = 0, nl_terminated = False\<rparr>)
      else Inl ''BUG: missing tcp listener'')"

record np_configuration =
  ncfg_listen :: bytes
  ncfg_upstream :: bytes
  ncfg_certificate :: path
  ncfg_server_key :: path

definition noise_proxy_start ::
    "noise_libs \<Rightarrow> (stratum_error \<Rightarrow> string) \<Rightarrow> faults \<Rightarrow> files \<Rightarrow> (bytes \<Rightarrow> string + np_configuration) \<Rightarrow> string option \<Rightarrow>
     (bytes \<Rightarrow> string + socket_addr list) \<Rightarrow> path \<Rightarrow> string + (noise_proxy_error + (np_start_error + noise_proxy))" where
  "noise_proxy_start L show_err F fs from_toml bind_error lookup config_file =
     rbind (rbind (file_access F fs config_file) id) (\<lambda>cfg_string.
     rbind (from_toml cfg_string) (\<lambda>config.
     Inr (rbind (context_from_files L show_err F fs (ncfg_certificate config) (ncfg_server_key config)) (\<lambda>ctx.
       Inr (noise_proxy_new bind_error (lookup (ncfg_upstream config)) ctx
              \<lparr>pc_require_proxy_header = False, pc_versions = [PV1, PV2]\<rparr> None np_metrics_new)))))"

section \<open>Reading the files\<close>

lemma file_access_ok: "file_access F fs file = Inr (Inr content) \<Longrightarrow> fs file = Some content"
  by (auto simp: file_access_def split: option.split_asm if_split_asm)

lemma context_from_files_ok:
  assumes "context_from_files L show_err F fs cert_path key_path = Inr ctx"
  shows "\<exists>cert_text key_text. fs cert_path = Some cert_text \<and> certificate_try_from L show_err cert_text = Inr (sc_certificate ctx) \<and>
    fs key_path = Some key_text \<and> static_secret_try_from L show_err key_text = Inr (sc_secret_key ctx)"
proof -
  from assms obtain cert_text key_text where t: "file_access F fs cert_path = Inr (Inr cert_text)"
    "file_access F fs key_path = Inr (Inr key_text)" "context_read_from_strings L show_err cert_text key_text = Inr ctx"
    by (auto simp: context_from_files_def context_read_from_file_def rbind_def map_err_def split: sum.split_asm)
  from t(3) have "certificate_try_from L show_err cert_text = Inr (sc_certificate ctx)"
    "static_secret_try_from L show_err key_text = Inr (sc_secret_key ctx)"
    by (auto simp: context_read_from_strings_def rbind_def map_err_def from_certificate_and_secret_key_def split: sum.split_asm)
  with file_access_ok [OF t(1)] file_access_ok [OF t(2)] show ?thesis by blast
qed

lemma context_valid_iff: "is_ok (context_validate_by_time L ctx now) = is_ok (validate_certificate L (sc_certificate ctx) now)"
  by (simp add: context_validate_by_time_def map_err_def is_ok_def split: sum.split)

lemma read_security_context_ok:
  assumes "read_security_context L show_err show_np F fs now config = Inr c" and "\<not> insecure config"
  shows "\<exists>files ctx. key_and_cert config = Some files \<and> c = Some ctx \<and>
    context_from_files L show_err F fs (certificate_file files) (secret_key_file files) = Inr ctx \<and>
    is_ok (validate_certificate L (sc_certificate ctx) now)"
proof -
  from assms obtain files ctx v where "key_and_cert config = Some files" "c = Some ctx"
    "context_from_files L show_err F fs (certificate_file files) (secret_key_file files) = Inr ctx"
    "context_validate_by_time L ctx now = Inr v"
    by (auto simp: read_security_context_def split: option.split_asm sum.split_asm)
  moreover from this(4) have "is_ok (validate_certificate L (sc_certificate ctx) now)"
    using context_valid_iff [of L ctx now] by (simp add: is_ok_def)
  ultimately show ?thesis by blast
qed

lemma proxy_start_ok:
  assumes "proxy_start L show_err show_np F fs now from_toml resolve bind_error config_file = Inr st"
  shows "\<exists>toml config. fs config_file = Some toml \<and> from_toml toml = Inr config \<and>
    read_security_context L show_err show_np F fs now config = Inr (st_context st) \<and> st_upstream st = upstream_address config"
proof -
  from assms obtain toml config where t: "rbind (file_access F fs config_file) id = Inr toml" "from_toml toml = Inr config"
    "read_security_context L show_err show_np F fs now config = Inr (st_context st)" "st_upstream st = upstream_address config"
    by (auto simp: proxy_start_def rbind_def map_err_def Let_def split: sum.split_asm prod.split_asm)
  from t(1) have "file_access F fs config_file = Inr (Inr toml)" by (auto simp: rbind_def split: sum.split_asm)
  from file_access_ok [OF this] t(2-4) show ?thesis by blast
qed

section \<open>Joining the server\<close>

lemma main_handle_reachable: "hreach W (main_handle W)"
proof -
  have "hreach W (hs_ready (hs_spawn (hs_init W)))"
    using hreach.init [of W] hstep.spawn hstep.ready by (metis hreach.step)
  moreover have "hstep W (hs_ready (hs_spawn (hs_init W))) (main_handle W)"
    unfolding main_handle_def halt_on_signal_def by (rule hstep.signal) (rule surjective_pairing)
  ultimately show ?thesis by (rule hreach.step)
qed

lemma main_join_eq:
  "\<exists>j h. hh_join (Some timeout) (hs_handle (main_handle W)) = (Inr j, h) \<and>
     main_join W timeout = (main_handle W)\<lparr>hs_join := Joining j, hs_handle := h\<rparr> \<and> jf_timeout j = Some timeout \<and> \<not> hh_tasks h"
  by (simp add: main_join_def hh_join_def main_handle_def halt_on_signal_def handle_signal_def hs_ready_def hs_spawn_def hs_init_def
      hh_ready_def hh_send_def add_task_def halt_handle_default_def split: prod.split)

lemma main_runs_reachable: "main_runs W timeout s \<Longrightarrow> hreach W s"
proof (induction rule: main_runs.induct)
  case joined
  from main_join_eq [of timeout W] main_handle_reachable show ?case by (metis hreach.step hstep.join)
next
  case (step s s')
  then show ?case by (blast intro: hreach.step)
qed

text \<open>What stays as it was: the server is the first task, the handle was ready right after it, and the timeout.\<close>

definition main_inv :: "nat \<Rightarrow> ('w, 'r) halt_system \<Rightarrow> bool" where
  "main_inv timeout s \<longleftrightarrow> (\<exists>rest. hs_log s = TaskMsg 0 # ReadyMsg # rest) \<and> \<not> hh_tasks (hs_handle s) \<and>
     (case hs_join s of Joining j \<Rightarrow> jf_timeout j = Some timeout | Joined t r \<Rightarrow> t = Some timeout | NotJoined \<Rightarrow> False)"

lemma collect_step_timeout: "collect_step ts ch j = Some (Inr (ch', j')) \<Longrightarrow> jf_timeout j' = jf_timeout j"
  by (auto simp: collect_step_def split: option.split_asm task_state.split_asm list.split_asm task_msg.split_asm if_split_asm)

lemma notify_step_timeout: "notify_step b t j = Some (Inr j') \<Longrightarrow> jf_timeout j' = jf_timeout j"
  by (auto simp: notify_step_def split: notify_state.split_asm option.split_asm if_split_asm)

lemma main_inv_step: "hstep W s s' \<Longrightarrow> main_inv timeout s \<Longrightarrow> main_inv timeout s'"
  by (induction rule: hstep.induct)
    (auto simp: main_inv_def hs_spawn_def hs_ready_def hs_halt_def hs_return_def hh_halt_tasks_def handle_signal_def hh_join_def
      add_task_def hh_ready_def hh_send_def hcollect.simps dest: collect_step_timeout notify_step_timeout
      split: if_split_asm join_state.split_asm)

lemma main_runs_inv: "main_runs W timeout s \<Longrightarrow> main_inv timeout s"
proof (induction rule: main_runs.induct)
  case joined
  from main_join_eq [of timeout W] show ?case
    by (auto simp: main_inv_def main_handle_def halt_on_signal_def hs_ready_def hs_spawn_def hs_init_def)
next
  case (step s s')
  then show ?case by (blast intro: main_inv_step)
qed

section \<open>The accepting loop of the noise proxy\<close>

fun np_peers :: "np_event list \<Rightarrow> socket_addr list" where
  "np_peers [] = []"
| "np_peers (NpAccepted peer # es) = peer # np_peers es"
| "np_peers (NpAcceptFailed e # es) = np_peers es"
| "np_peers (NpTripwire # es) = []"

fun np_failures :: "np_event list \<Rightarrow> nat" where
  "np_failures [] = 0"
| "np_failures (NpAccepted peer # es) = np_failures es"
| "np_failures (NpAcceptFailed e # es) = Suc (np_failures es)"
| "np_failures (NpTripwire # es) = 0"

text \<open>A connection is spawned for every peer accepted before the tripwire; failures are counted and waited out, and never end the loop.\<close>

lemma np_main_loop_serves:
  "nl_spawned (np_main_loop np es l) =
     nl_spawned l @ map (\<lambda>peer. np_connection_new (np_upstream_version np) peer (np_context np) (np_upstream np)) (np_peers es)"
  "nm_open_success (nl_counters (np_main_loop np es l)) = nm_open_success (nl_counters l) + length (np_peers es)"
  "nm_open_fail (nl_counters (np_main_loop np es l)) = nm_open_fail (nl_counters l) + np_failures es"
  "nl_slept_ms (np_main_loop np es l) = nl_slept_ms l + 100 * np_failures es"
  "nl_terminated (np_main_loop np es l) \<longleftrightarrow> nl_terminated l \<or> NpTripwire \<in> set es"
  by (induction np es l rule: np_main_loop.induct)
    (simp_all add: np_account_successful_tcp_open_def np_account_failed_tcp_open_def)

section \<open>Properties\<close>

text \<open>
  C24. How the proxy is secured. Let the configuration name the files of a certificate and of a secret key. If the
  proxy starts, then, unless the configuration says \<open>insecure\<close>, the server has a security context with the
  certificate and the secret key from these two files, and the certificate is valid at the time of the start;
  if it says \<open>insecure\<close>, the server has none.
\<close>

theorem proxy_starts_secured:
  assumes "proxy_start L show_err show_np F fs now from_toml resolve bind_error config_file = Inr st"
    and "fs config_file = Some toml" and "from_toml toml = Inr config" and "key_and_cert config = Some files"
  shows "if insecure config then st_context st = None
     else \<exists>ctx cert_text key_text. st_context st = Some ctx \<and>
       fs (certificate_file files) = Some cert_text \<and> certificate_try_from L show_err cert_text = Inr (sc_certificate ctx) \<and>
       fs (secret_key_file files) = Some key_text \<and> static_secret_try_from L show_err key_text = Inr (sc_secret_key ctx) \<and>
       is_ok (validate_certificate L (sc_certificate ctx) now)"
proof -
  from proxy_start_ok [OF assms(1)] assms(2,3) have
    c: "read_security_context L show_err show_np F fs now config = Inr (st_context st)" by auto
  show ?thesis
  proof (cases "insecure config")
    case True
    with c show ?thesis by (simp add: read_security_context_def)
  next
    case False
    from read_security_context_ok [OF c False] assms(4) obtain ctx where r: "st_context st = Some ctx"
      "context_from_files L show_err F fs (certificate_file files) (secret_key_file files) = Inr ctx"
      "is_ok (validate_certificate L (sc_certificate ctx) now)" by auto
    from context_from_files_ok [OF r(2)] r False show ?thesis by simp
  qed
qed

text \<open>
  How the proxy ends. In every interleaving of the server, signals, clock and \<open>join\<close>, if \<open>main\<close> returns with success, the
  server has finished; if it returns with a join error, the server has panicked; if it returns with a timeout, the
  program was told to stop at least five seconds before.
\<close>

theorem proxy_ends:
  assumes "main_runs W PROXY_JOIN_TIMEOUT s" and "hs_join s = Joined t r"
  shows "case r of
      Inr _ \<Rightarrow> hs_states s ! 0 = TaskFinished
    | Inl (HaltJoin i) \<Rightarrow> i = 0 \<and> hs_states s ! 0 = TaskPanicked
    | Inl HaltTimeout \<Rightarrow> (\<exists>t0. hs_halted_at s = Some t0 \<and> t0 + PROXY_JOIN_TIMEOUT \<le> hs_clock s)"
proof -
  from main_runs_inv [OF assms(1)] assms(2) obtain rest where log: "hs_log s = TaskMsg 0 # ReadyMsg # rest"
    and t: "t = Some PROXY_JOIN_TIMEOUT" by (auto simp: main_inv_def)
  have out: "join_outcome s t r" using hreach_join_inv [OF main_runs_reachable [OF assms(1)]] assms(2) by (simp add: join_inv_def)
  have ms: "ms = [TaskMsg 0]" if "hs_log s = ms @ ReadyMsg # rest'" "ReadyMsg \<notin> set ms" for ms rest'
    using that log by (cases ms; cases "tl ms") auto
  show ?thesis
  proof (cases r)
    case (Inr u)
    with out obtain ms rest' where "hs_log s = ms @ ReadyMsg # rest'" "all_finished (hs_states s) ms" by (auto simp: join_outcome_def)
    with ms [OF _ all_finished_ready] Inr show ?thesis by fastforce
  next
    case (Inl e)
    show ?thesis
    proof (cases e)
      case HaltTimeout
      with out Inl t show ?thesis by (auto simp: join_outcome_def)
    next
      case (HaltJoin i)
      with out Inl obtain ms rest' where m: "hs_log s = ms @ ReadyMsg # rest'" "first_panic (hs_states s) ms i"
        by (auto simp: join_outcome_def)
      from ms [OF m(1) first_panic_ready [OF m(2)]] m(2) HaltJoin Inl show ?thesis
        by (auto simp: first_panic_def Cons_eq_append_conv)
    qed
  qed
qed

lemma issued_key_starts:
  assumes "json_files L" and "ca_ok L ca_public ca" and "validity now days" and "length (x25519_base L noise_secret) < 65536"
    and "distinct [p1, p2, p3, p4, set_extension ''cert'' p3, p5]"
    and "fs p1 = None" and "fs p2 = None" and "fs p3 = None" and "fs p4 = None" and "fs (set_extension ''cert'' p3) = None"
    and "keytool L show_err no_faults ca_public now (GenCAKey ca p1 p2) fs = (r1, fs1)"
    and "keytool L show_err no_faults ca_public now (GenNoiseKey (Inr (x25519_base L noise_secret, noise_secret)) p3 p4) fs1 = (r2, fs2)"
    and "keytool L show_err no_faults ca_public now (SignKey p3 p2 days) fs2 = (r3, fs3)"
    and "fs p5 = Some toml" and "valid_utf8 toml" and "from_toml toml = Inr config" and "\<not> insecure config"
    and "key_and_cert config = Some \<lparr>certificate_file = set_extension ''cert'' p3, secret_key_file = p4\<rparr>"
    and "proxy_protocol config = None" and "resolve (listen_address config) = Inr (addr # addrs)"
    and "now \<le> t" and "t \<le> now + uint days * 86400 * 10 ^ 9"
  shows "\<exists>st ctx. proxy_start L show_err show_np no_faults fs3 t from_toml resolve None p5 = Inr st \<and> st_context st = Some ctx \<and>
    sc_secret_key ctx = noise_secret \<and> cert_public_key (sc_certificate ctx) = x25519_base L noise_secret \<and>
    cert_authority_public_key (sc_certificate ctx) = kp_public ca"
proof -
  let ?public = "x25519_base L noise_secret"
  have d: "distinct [p1, p2]" "distinct [p3, p4]" using assms(5) by auto
  have c1: "fs1 = fs(p1 \<mapsto> key_string L ''ed25519_public_key'' (kp_public ca) @ [0x0a],
      p2 \<mapsto> key_string L ''ed25519_secret_key'' (kp_secret ca) @ [0x0a])"
    using assms(11) keys_generated(1) [OF d(1) assms(6,7), of L ca] by (simp add: keytool_def)
  have new: "fs1 p3 = None" "fs1 p4 = None" using assms(5,8,9) by (auto simp: c1)
  have c2: "fs2 = fs1(p3 \<mapsto> key_string L ''noise_public_key'' ?public @ [0x0a], p4 \<mapsto> key_string L ''noise_secret_key'' noise_secret @ [0x0a])"
    using assms(12) keys_generated(2) [OF d(2) new, of L ?public noise_secret] by (simp add: keytool_def)
  have files: "fs2 p3 = Some (key_string L ''noise_public_key'' ?public @ [0x0a])"
    "fs2 p2 = Some (key_string L ''ed25519_secret_key'' (kp_secret ca) @ [0x0a])" "fs2 (set_extension ''cert'' p3) = None"
    using assms(5,10) by (auto simp: c1 c2)
  from key_signed [OF assms(1-4) files, of show_err] obtain c where
    c: "sign_key L show_err no_faults ca_public now p3 p2 days fs2 = (Inr (), fs2(set_extension ''cert'' p3 \<mapsto> certificate_into_string L c @ [0x0a]))"
    "certificate_try_from L show_err (certificate_into_string L c @ [0x0a]) = Inr c" "cert_public_key c = ?public"
    "cert_authority_public_key c = kp_public ca" "is_ok (validate_certificate L c t)" using assms(21,22) by blast
  let ?ctx = "from_certificate_and_secret_key c noise_secret"
  have fs3: "fs3 (set_extension ''cert'' p3) = Some (certificate_into_string L c @ [0x0a])"
    "fs3 p4 = Some (key_string L ''noise_secret_key'' noise_secret @ [0x0a])" "fs3 p5 = Some toml"
    using c(1) assms(5,13,14) by (auto simp: keytool_def c1 c2)
  have j: "json_line L (certificate_to_json L c)" "json_line L (format_to_json L ''noise_secret_key'' noise_secret)" "file_libs L"
    using assms(1) by (simp_all add: json_files_def)
  have key: "static_secret_try_from L show_err (key_string L ''noise_secret_key'' noise_secret @ [0x0a]) = Inr noise_secret"
    using j(2) format_json [OF j(3), of Inr noise_secret show_err "''noise_secret_key''"]
    by (simp add: static_secret_try_from_def key_string_def json_line_def)
  have "context_from_files L show_err no_faults fs3 (set_extension ''cert'' p3) p4 = Inr ?ctx"
    using fs3 c(2) key j(1,2)
    by (simp add: context_from_files_def context_read_from_file_def context_read_from_strings_def file_access_def no_faults_def
        json_line_def certificate_into_string_def key_string_def)
  moreover from c(5) obtain v where "context_validate_by_time L ?ctx t = Inr v"
    by (auto simp: context_validate_by_time_def from_certificate_and_secret_key_def is_ok_iff)
  ultimately have "read_security_context L show_err show_np no_faults fs3 t config = Inr (Some ?ctx)"
    using assms(17,18) by (simp add: read_security_context_def)
  moreover have "file_access no_faults fs3 p5 = Inr (Inr toml)" using fs3(3) assms(15) by (simp add: file_access_def no_faults_def)
  ultimately show ?thesis
    using assms(16,19,20) c(3,4)
    by (simp add: proxy_start_def server_listen_def proxy_protocol_default_def acceptor_builder_new_def from_certificate_and_secret_key_def)
qed

text \<open>
  C21. Keys of the key tool start the proxy. When an authority signs the public key that was generated with the secret
  key of the server, a proxy whose configuration names the certificate and the secret key starts at every time
  until the end of validity, with a context that has this secret key and a certificate for its public
  key by that authority.
\<close>

theorem issued_key_starts_proxy:
  assumes "json_files L" and "ca_ok L ca_public ca" and "validity now days" and "length (x25519_base L noise_secret) < 65536"
    and "distinct [p1, p2, p3, p4, set_extension ''cert'' p3, p5]"
    and "fs p1 = None" and "fs p2 = None" and "fs p3 = None" and "fs p4 = None" and "fs (set_extension ''cert'' p3) = None"
    and "keytool L show_err no_faults ca_public now (GenCAKey ca p1 p2) fs = (r1, fs1)"
    and "keytool L show_err no_faults ca_public now (GenNoiseKey (Inr (x25519_base L noise_secret, noise_secret)) p3 p4) fs1 = (r2, fs2)"
    and "keytool L show_err no_faults ca_public now (SignKey p3 p2 days) fs2 = (r3, fs3)"
    and "fs p5 = Some toml" and "valid_utf8 toml" and "from_toml toml = Inr config" and "\<not> insecure config"
    and "key_and_cert config = Some \<lparr>certificate_file = set_extension ''cert'' p3, secret_key_file = p4\<rparr>"
    and "proxy_protocol config = None" and "resolve (listen_address config) = Inr (addr # addrs)"
    and "now \<le> t" and "t \<le> now + uint days * 86400 * 10 ^ 9"
  shows "\<exists>st ctx. proxy_start L show_err show_np no_faults fs3 t from_toml resolve None p5 = Inr st \<and> st_context st = Some ctx \<and>
    sc_secret_key ctx = noise_secret \<and> cert_public_key (sc_certificate ctx) = x25519_base L noise_secret \<and>
    cert_authority_public_key (sc_certificate ctx) = kp_public ca"
  using assms by (rule issued_key_starts)

section \<open>Examples\<close>

abbreviation example_address :: socket_addr where "example_address \<equiv> SockV4 [127, 0, 0, 1] 3336"

text \<open>The files after the operator has made the keys of the authority and of the proxy, and signed the latter.\<close>

definition example_path :: "string \<Rightarrow> path" where
  "example_path name = (''d'', name)"

definition example_ca_key :: keytool_command where
  "example_ca_key = GenCAKey example_keypair (example_path ''ca.pub'') (example_path ''ca.key'')"

definition example_noise_key :: keytool_command where
  "example_noise_key = GenNoiseKey (Inr (x25519_base unary_libs (replicate 32 1), replicate 32 1))
     (example_path ''server.pub'') (example_path ''server.key'')"

definition example_sign_key :: keytool_command where
  "example_sign_key = SignKey (example_path ''server.pub'') (example_path ''ca.key'') 90"

definition example_ca :: "bytes \<Rightarrow> bytes" where
  "example_ca = (\<lambda>_. replicate 32 2)"

definition example_issued :: files where
  "example_issued =
     fold (\<lambda>command fs. snd (keytool unary_libs (\<lambda>_. []) no_faults example_ca 0 command fs))
       [example_ca_key, example_noise_key, example_sign_key] [example_path ''proxy.toml'' \<mapsto> []]"

definition example_config :: proxy_config where
  "example_config = config_default\<lparr>insecure := False,
     key_and_cert := Some \<lparr>certificate_file = set_extension ''cert'' (example_path ''server.pub''),
                           secret_key_file = example_path ''server.key''\<rparr>\<rparr>"

lemma example_issuing:
  "\<exists>r1 fs1 r2 fs2 r3.
     keytool unary_libs (\<lambda>_. []) no_faults example_ca 0 example_ca_key [example_path ''proxy.toml'' \<mapsto> []] = (r1, fs1) \<and>
     keytool unary_libs (\<lambda>_. []) no_faults example_ca 0 example_noise_key fs1 = (r2, fs2) \<and>
     keytool unary_libs (\<lambda>_. []) no_faults example_ca 0 example_sign_key fs2 = (r3, example_issued)"
  unfolding example_issued_def by (simp add: prod_eq_iff)

lemma example_issue_facts:
  "json_files unary_libs" "ca_ok unary_libs example_ca example_keypair" "validity 0 90"
  "length (x25519_base unary_libs (replicate 32 1)) < 65536"
  "distinct [example_path ''ca.pub'', example_path ''ca.key'', example_path ''server.pub'', example_path ''server.key'',
     set_extension ''cert'' (example_path ''server.pub''), example_path ''proxy.toml'']"
  using unary_libs_ok
  by (simp_all add: example_ca_def validity_def unary_libs_def toy_noise_libs_def example_path_def set_extension_def
      file_stem_def Let_def)

lemma example_config_facts:
  "\<not> insecure example_config"
  "key_and_cert example_config = Some \<lparr>certificate_file = set_extension ''cert'' (example_path ''server.pub''),
     secret_key_file = example_path ''server.key''\<rparr>"
  "proxy_protocol example_config = None"
  by (simp_all add: example_config_def config_default_def)

lemma example_secured_start:
  "\<exists>st. proxy_start unary_libs (\<lambda>_. []) (\<lambda>_. []) no_faults example_issued (10 ^ 9) (\<lambda>_. Inr example_config)
     (\<lambda>_. Inr [example_address]) None (example_path ''proxy.toml'') = Inr st"
proof -
  from example_issuing obtain r1 fs1 r2 fs2 r3 where
    c: "keytool unary_libs (\<lambda>_. []) no_faults example_ca 0 example_ca_key [example_path ''proxy.toml'' \<mapsto> []] = (r1, fs1)"
    "keytool unary_libs (\<lambda>_. []) no_faults example_ca 0 example_noise_key fs1 = (r2, fs2)"
    "keytool unary_libs (\<lambda>_. []) no_faults example_ca 0 example_sign_key fs2 = (r3, example_issued)" by blast
  have "\<exists>st ctx. proxy_start unary_libs (\<lambda>_. []) (\<lambda>_. []) no_faults example_issued (10 ^ 9) (\<lambda>_. Inr example_config)
      (\<lambda>_. Inr [example_address]) None (example_path ''proxy.toml'') = Inr st \<and> st_context st = Some ctx \<and>
      sc_secret_key ctx = replicate 32 1 \<and> cert_public_key (sc_certificate ctx) = x25519_base unary_libs (replicate 32 1) \<and>
      cert_authority_public_key (sc_certificate ctx) = kp_public example_keypair"
    by (rule issued_key_starts [OF example_issue_facts _ _ _ _ _ c [unfolded example_ca_key_def example_noise_key_def example_sign_key_def]
        _ _ refl example_config_facts, where toml = "[]"]) (use example_issue_facts(5) in simp_all)
  then show ?thesis by blast
qed

theorem proxy_starts_secured_witness:
  "\<exists>st ctx cert_text. proxy_start unary_libs (\<lambda>_. []) (\<lambda>_. []) no_faults example_issued (10 ^ 9) (\<lambda>_. Inr example_config)
     (\<lambda>_. Inr [example_address]) None (example_path ''proxy.toml'') = Inr st \<and> st_context st = Some ctx \<and>
     example_issued (set_extension ''cert'' (example_path ''server.pub'')) = Some cert_text \<and>
     certificate_try_from unary_libs (\<lambda>_. []) cert_text = Inr (sc_certificate ctx) \<and>
     is_ok (validate_certificate unary_libs (sc_certificate ctx) (10 ^ 9))"
proof -
  from example_secured_start obtain st where
    st: "proxy_start unary_libs (\<lambda>_. []) (\<lambda>_. []) no_faults example_issued (10 ^ 9) (\<lambda>_. Inr example_config)
     (\<lambda>_. Inr [example_address]) None (example_path ''proxy.toml'') = Inr st" by blast
  from proxy_start_ok [OF st] obtain toml where "example_issued (example_path ''proxy.toml'') = Some toml" by blast
  from proxy_starts_secured [OF st this refl example_config_facts(2)] example_config_facts(1) st show ?thesis by auto
qed

text \<open>A server that does not stop in time.\<close>

definition main_halted :: "(nat \<times> bool \<times> bool, nat) halt_system" where
  "main_halted = hs_halt simple_watch (main_join simple_watch PROXY_JOIN_TIMEOUT)"

theorem proxy_ends_witness:
  "\<exists>s t0. main_runs simple_watch PROXY_JOIN_TIMEOUT s \<and> hs_join s = Joined (Some PROXY_JOIN_TIMEOUT) (Inl HaltTimeout) \<and>
     hs_halted_at s = Some t0 \<and> t0 + PROXY_JOIN_TIMEOUT \<le> hs_clock s"
proof -
  let ?j = "\<lambda>n. \<lparr>jf_res = Inr (), jf_handle = None, jf_notify = n, jf_timeout = Some PROXY_JOIN_TIMEOUT\<rparr>"
  let ?s = "main_halted\<lparr>hs_join := Joining (?j (Sleeping 5)), hs_handle := (hs_handle main_halted)\<lparr>hh_notify_join := False\<rparr>\<rparr>"
  let ?t = "?s\<lparr>hs_clock := hs_clock ?s + 5\<rparr>"
  let ?u = "hs_return (?j (Sleeping 5)) (Inl HaltTimeout) ?t"
  note d = main_halted_def main_join_def main_handle_def halt_on_signal_def handle_signal_def hs_defs hs_init_def halt_handle_default_def
    tripwire_new_def simple_watch_def hh_halt_tasks_def hh_join_def PROXY_JOIN_TIMEOUT_def
  have 1: "main_runs simple_watch PROXY_JOIN_TIMEOUT main_halted"
    unfolding main_halted_def by (rule main_runs.step [OF main_runs.joined hstep.halt])
  have 2: "hstep simple_watch main_halted ?s" by (rule hstep.notified [of _ "?j Unnotified"]) (simp_all add: d notify_step_def)
  have 3: "hstep simple_watch ?s ?t" by (rule hstep.tick)
  have 4: "hstep simple_watch ?t ?u" by (rule hstep.timed_out) (simp_all add: d notify_step_def)
  from main_runs.step [OF main_runs.step [OF main_runs.step [OF 1 2] 3] 4] have u: "main_runs simple_watch PROXY_JOIN_TIMEOUT ?u" .
  moreover have j: "hs_join ?u = Joined (Some PROXY_JOIN_TIMEOUT) (Inl HaltTimeout)" by (simp add: hs_return_def)
  moreover from proxy_ends [OF u j] obtain t0 where "hs_halted_at ?u = Some t0" "t0 + PROXY_JOIN_TIMEOUT \<le> hs_clock ?u" by auto
  ultimately show ?thesis by blast
qed

theorem issued_key_starts_proxy_witness:
  "\<exists>st ctx. proxy_start unary_libs (\<lambda>_. []) (\<lambda>_. []) no_faults example_issued (10 ^ 9) (\<lambda>_. Inr example_config)
     (\<lambda>_. Inr [example_address]) None (example_path ''proxy.toml'') = Inr st \<and> st_context st = Some ctx \<and>
     sc_secret_key ctx = replicate 32 1"
proof -
  from example_issuing obtain r1 fs1 r2 fs2 r3 where
    c: "keytool unary_libs (\<lambda>_. []) no_faults example_ca 0 example_ca_key [example_path ''proxy.toml'' \<mapsto> []] = (r1, fs1)"
    "keytool unary_libs (\<lambda>_. []) no_faults example_ca 0 example_noise_key fs1 = (r2, fs2)"
    "keytool unary_libs (\<lambda>_. []) no_faults example_ca 0 example_sign_key fs2 = (r3, example_issued)" by blast
  have "\<exists>st ctx. proxy_start unary_libs (\<lambda>_. []) (\<lambda>_. []) no_faults example_issued (10 ^ 9) (\<lambda>_. Inr example_config)
      (\<lambda>_. Inr [example_address]) None (example_path ''proxy.toml'') = Inr st \<and> st_context st = Some ctx \<and>
      sc_secret_key ctx = replicate 32 1 \<and> cert_public_key (sc_certificate ctx) = x25519_base unary_libs (replicate 32 1) \<and>
      cert_authority_public_key (sc_certificate ctx) = kp_public example_keypair"
    by (rule issued_key_starts_proxy [OF example_issue_facts _ _ _ _ _ c [unfolded example_ca_key_def example_noise_key_def example_sign_key_def]
        _ _ refl example_config_facts, where toml = "[]"]) (use example_issue_facts(5) in simp_all)
  then show ?thesis by blast
qed

end
