(* ===== verification/Proxy_Metrics.thy ===== *)
theory Proxy_Metrics
  imports Proxy_Server
begin

text \<open>
  \<open>stratum-proxy/src/metrics.rs\<close>: the counters of the proxy.

  The translation and the server only list which of the methods of \<open>ProxyMetrics\<close> they call
  (\<open>Translation.account\<close>, \<open>Proxy_Server\<close>); here are the methods themselves. A counter with labels is a map
  from its labels to a 64-bit value that wraps; a histogram is the list of its observations. \<open>num_max\<close> is
  the largest value of the number type of the counters of the library \<open>prometheus\<close>; \<open>account_share\<close> panics
  (\<open>None\<close>) on a difficulty above it.

  Whether that can happen depends on the targets that a translation can have: they are all computed
  from 32-bit difficulties. The ledger: what is counted is what the miner was told.
\<close>

section \<open>The counters\<close>

type_synonym labels = "string \<times> string"

record proxy_metrics =
  tokio_tasks :: int
  tcp_connection_close_stage :: "string \<Rightarrow> u64"
  tcp_connection_duration :: "nat list"
  shares_total :: "labels \<Rightarrow> u64"
  submits_total :: "labels \<Rightarrow> u64"
  v1_request_duration :: "(labels \<times> nat) list"

definition from_registry :: proxy_metrics where
  "from_registry = \<lparr>tokio_tasks = 0, tcp_connection_close_stage = (\<lambda>_. 0), tcp_connection_duration = [],
     shares_total = (\<lambda>_. 0), submits_total = (\<lambda>_. 0), v1_request_duration = []\<rparr>"

definition close_inc_by_error :: "server_error \<Rightarrow> (string \<Rightarrow> u64) \<Rightarrow> string \<Rightarrow> u64" where
  "close_inc_by_error e c = (let stage_label = error_label e in c(stage_label := c stage_label + 1))"

definition close_inc_as_ok :: "(string \<Rightarrow> u64) \<Rightarrow> string \<Rightarrow> u64" where
  "close_inc_as_ok c = c(''ok'' := c ''ok'' + 1)"

definition SUCCESS_LABEL :: string where "SUCCESS_LABEL = ''success''"
definition ERROR_LABEL :: string where "ERROR_LABEL = ''error''"

definition account_share :: "nat \<Rightarrow> u256 option \<Rightarrow> labels \<Rightarrow> proxy_metrics \<Rightarrow> proxy_metrics option" where
  "account_share num_max target label_values pm =
     map_option (\<lambda>pm. pm\<lparr>submits_total := (submits_total pm)(label_values := submits_total pm label_values + 1)\<rparr>)
       (case target of
          None \<Rightarrow> Some pm
        | Some tgt \<Rightarrow>
            (let share_value = unat (target_to_diff tgt)
             in if share_value \<le> num_max
                then Some (pm\<lparr>shares_total := (shares_total pm)
                       (label_values := shares_total pm label_values + of_nat share_value)\<rparr>)
                else None))"

definition account_accepted_share :: "nat \<Rightarrow> u256 option \<Rightarrow> proxy_metrics \<Rightarrow> proxy_metrics option" where
  "account_accepted_share num_max target = account_share num_max target (''downstream'', ''accepted'')"

definition account_rejected_share :: "nat \<Rightarrow> u256 option \<Rightarrow> proxy_metrics \<Rightarrow> proxy_metrics option" where
  "account_rejected_share num_max target = account_share num_max target (''downstream'', ''rejected'')"

definition request_method_name :: "v1_method \<Rightarrow> string" where
  "request_method_name m =
     (case m of
        Authorize \<Rightarrow> ''authorize''
      | Configure \<Rightarrow> ''configure''
      | Subscribe \<Rightarrow> ''subscribe''
      | Submit \<Rightarrow> ''submit''
      | _ \<Rightarrow> ''other'')"

definition observe_v1_request_duration :: "v1_method \<Rightarrow> nat \<Rightarrow> string \<Rightarrow> proxy_metrics \<Rightarrow> proxy_metrics" where
  "observe_v1_request_duration m duration status pm =
     pm\<lparr>v1_request_duration := v1_request_duration pm @ [((request_method_name m, status), duration)]\<rparr>"

definition observe_v1_request_success :: "v1_method \<Rightarrow> nat \<Rightarrow> proxy_metrics \<Rightarrow> proxy_metrics" where
  "observe_v1_request_success m d = observe_v1_request_duration m d SUCCESS_LABEL"

definition observe_v1_request_error :: "v1_method \<Rightarrow> nat \<Rightarrow> proxy_metrics \<Rightarrow> proxy_metrics" where
  "observe_v1_request_error m d = observe_v1_request_duration m d ERROR_LABEL"

definition tcp_connection_timer_observe :: "nat \<Rightarrow> proxy_metrics \<Rightarrow> proxy_metrics" where
  "tcp_connection_timer_observe elapsed pm = pm\<lparr>tcp_connection_duration := tcp_connection_duration pm @ [elapsed]\<rparr>"

definition tcp_connection_close_ok :: "proxy_metrics \<Rightarrow> proxy_metrics" where
  "tcp_connection_close_ok pm = pm\<lparr>tcp_connection_close_stage := close_inc_as_ok (tcp_connection_close_stage pm)\<rparr>"

definition tcp_connection_close_with_error :: "server_error \<Rightarrow> proxy_metrics \<Rightarrow> proxy_metrics" where
  "tcp_connection_close_with_error e pm =
     pm\<lparr>tcp_connection_close_stage := close_inc_by_error e (tcp_connection_close_stage pm)\<rparr>"

text \<open>
  The task of \<open>accounted_spawn\<close> as what it does to the gauge: the increment before its first step and the
  decrement after the future has returned. A task that panics or is aborted does not come to the decrement.
\<close>

datatype task_end = Returned | Unwound

definition accounted_start :: "proxy_metrics \<Rightarrow> proxy_metrics" where
  "accounted_start pm = pm\<lparr>tokio_tasks := tokio_tasks pm + 1\<rparr>"

definition accounted_end :: "task_end \<Rightarrow> proxy_metrics \<Rightarrow> proxy_metrics" where
  "accounted_end r pm = (case r of Returned \<Rightarrow> pm\<lparr>tokio_tasks := tokio_tasks pm - 1\<rparr> | Unwound \<Rightarrow> pm)"

text \<open>The end of a connection (\<open>ProxyConnection::handle\<close>); a panic unwinds past all of it.\<close>

definition handle_metrics :: "conn_end \<Rightarrow> nat \<Rightarrow> proxy_metrics \<Rightarrow> proxy_metrics" where
  "handle_metrics r elapsed pm =
     (case r of
        ConnOk \<Rightarrow> tcp_connection_timer_observe elapsed (tcp_connection_close_ok pm)
      | ConnErr e \<Rightarrow> tcp_connection_timer_observe elapsed (tcp_connection_close_with_error e pm)
      | ConnPanic _ \<Rightarrow> pm)"

text \<open>What the translation reports, one call after the other.\<close>

definition apply_metric :: "nat \<Rightarrow> metric \<Rightarrow> proxy_metrics \<Rightarrow> proxy_metrics option" where
  "apply_metric num_max m pm =
     (case m of
        AccountAcceptedShare target \<Rightarrow> account_accepted_share num_max target pm
      | AccountRejectedShare target \<Rightarrow> account_rejected_share num_max target pm
      | ObserveV1RequestSuccess meth d \<Rightarrow> Some (observe_v1_request_success meth d pm)
      | ObserveV1RequestError meth d \<Rightarrow> Some (observe_v1_request_error meth d pm))"

fun apply_metrics :: "nat \<Rightarrow> metric list \<Rightarrow> proxy_metrics \<Rightarrow> proxy_metrics option" where
  "apply_metrics num_max [] pm = Some pm"
| "apply_metrics num_max (m # ms) pm = Option.bind (apply_metric num_max m pm) (apply_metrics num_max ms)"

section \<open>The difficulty of a target\<close>

lemma target_to_diff_exact: "target_to_diff (diff_to_target (ucast (d :: u32))) = ucast d"
proof (cases "d = 0")
  case True
  have "unat (DIFF1_TARGET div - 1) = 0"
    by (simp only: unat_div DIFF1_TARGET_eq unat_difficulty_1 unsigned_minus_1_eq_mask mask_eq_exp_minus_1) simp
  then have "DIFF1_TARGET div - 1 = 0" by (rule unsigned_eq_0_iff [THEN iffD1])
  with True show ?thesis by (simp add: target_to_diff_def diff_to_target_def)
qed (rule target_to_diff_roundtrip)

lemma difficulty_value: "unat (target_to_diff (diff_to_target (ucast (d :: u32)))) = unat d"
  using unsigned_less [of d, where ?'a = nat] by (simp add: target_to_diff_exact unat_ucast)

text \<open>A target that no 32-bit difficulty has would make the accounting panic.\<close>

lemma account_share_panics: "num_max < 2 ^ 256 - 1 \<Longrightarrow> account_share num_max (Some 0) l pm = None"
  by (simp add: account_share_def target_to_diff_def unsigned_minus_1_eq_mask mask_eq_exp_minus_1)

section \<open>Every report can be counted\<close>

definition difficulty_target :: "u256 option \<Rightarrow> bool" where
  "difficulty_target t \<longleftrightarrow> (\<forall>x. t = Some x \<longrightarrow> (\<exists>d :: u32. x = diff_to_target (ucast d)))"

lemma difficulty_target_simps [simp]:
  "difficulty_target None" "difficulty_target (Some (diff_to_target (ucast (d :: u32))))"
  by (auto simp: difficulty_target_def)

fun countable_metric :: "metric \<Rightarrow> bool" where
  "countable_metric (AccountAcceptedShare t) = difficulty_target t"
| "countable_metric (AccountRejectedShare t) = difficulty_target t"
| "countable_metric _ = True"

lemma apply_countable:
  assumes "countable_metric m" and "0xffffffff \<le> num_max"
  shows "\<exists>pm'. apply_metric num_max m pm = Some pm'"
proof -
  have "\<exists>pm'. account_share num_max t l pm = Some pm'" if "difficulty_target t" for t l
  proof (cases t)
    case (Some x)
    with that obtain d :: u32 where d: "x = diff_to_target (ucast d)" by (auto simp: difficulty_target_def)
    have "unat d \<le> num_max" using unsigned_less [of d, where ?'a = nat] assms(2) by simp
    then show ?thesis by (simp add: Some d account_share_def difficulty_value)
  qed (simp add: account_share_def)
  with assms(1) show ?thesis
    by (cases m) (simp_all add: apply_metric_def account_accepted_share_def account_rejected_share_def)
qed

lemma apply_countables:
  "list_all countable_metric ms \<Longrightarrow> 0xffffffff \<le> num_max \<Longrightarrow> \<exists>pm'. apply_metrics num_max ms pm = Some pm'"
proof (induction ms arbitrary: pm)
  case (Cons m ms)
  then obtain pm1 where "apply_metric num_max m pm = Some pm1" using apply_countable by fastforce
  with Cons show ?case by simp
qed simp

text \<open>\<open>reports ms s\<close>: what the translation has reported since \<open>ms\<close> can be counted, and what it will report too.\<close>

definition reports :: "metric list \<Rightarrow> translation \<Rightarrow> bool" where
  "reports ms s \<longleftrightarrow> difficulty_target (v2_target s) \<and>
     (\<exists>new. metrics s = Some (ms @ new) \<and> list_all countable_metric new)"

lemma reports_frame [simp]:
  "reports ms (s\<lparr>v1_tx := tx1\<rparr>) = reports ms s" "reports ms (s\<lparr>v2_tx := tx2\<rparr>) = reports ms s"
  "reports ms (s\<lparr>clock := c\<rparr>) = reports ms s" "reports ms (s\<lparr>v2_submit_share_queue := q\<rparr>) = reports ms s"
  by (simp_all add: reports_def)

lemma reports_metric:
  "countable_metric m \<Longrightarrow> reports ms s \<Longrightarrow> reports ms (s\<lparr>metrics := map_option (\<lambda>ms. ms @ [m]) (metrics s)\<rparr>)"
  by (fastforce simp: reports_def)

interpretation rep: share_blind "reports ms" for ms
  by unfold_locales (simp_all add: reports_def)

lemma reports_answer: "maintains (reports ms) (submit_share_response E m)"
proof -
  have "maintains (reports ms) (submit_v2_message E m)" for m
    by (auto simp: maintains_def submit_v2_message_def frame_of_message_eq tbind_def send_v2_def Let_def
        fail_def treturn_def split: prod.split sum.split)
  moreover from this have "maintains (reports ms) (send_queued_errors E q)" for q
    by (induction E q rule: send_queued_errors.induct) (auto intro!: maintain_intros)
  ultimately show ?thesis
    unfolding submit_share_response_def submit_queued_share_responses_def by (intro maintain_intros)
qed

lemma reports_take_seq: "maintains (reports ms) (get_v2_submit_shares_seq_num i)"
  by (auto simp: maintains_def get_v2_submit_shares_seq_num_def tbind_def tthen_def tget_def tmod_def fail_def treturn_def
      split: option.split list.split submit_share.split)

text \<open>A share is reported with the target of that moment.\<close>

lemma reports_target:
  assumes "\<And>t. maintains (reports ms) (k t)" and "\<And>t. difficulty_target t \<Longrightarrow> countable_metric (m t)"
  shows "maintains (reports ms) (tbind (tget v2_target) (\<lambda>t. tthen (account (m t)) (k t)))"
proof (rule maintainsI)
  fix s
  assume s: "reports ms s"
  then have "countable_metric (m (v2_target s))" by (simp add: reports_def assms(2))
  with s have "reports ms (s\<lparr>metrics := map_option (\<lambda>ms. ms @ [m (v2_target s)]) (metrics s)\<rparr>)"
    by (simp add: reports_metric)
  with assms(1) show "reports ms (snd (tbind (tget v2_target) (\<lambda>t. tthen (account (m t)) (k t)) s))"
    by (simp add: tbind_def tthen_def tget_def account_def tmod_def maintains_def)
qed

lemma reports_reject: "maintains (reports ms) (reject_shares E c sq msg)"
proof -
  have "maintains (reports ms) (case sq of SeqV1 i \<Rightarrow> tbind (get_v2_submit_shares_seq_num i) (\<lambda>n. treturn (n, True))
      | SeqV2 n \<Rightarrow> tget (\<lambda>s. (n, v2_submit_share_queue s = [])))"
    by (cases sq) (auto intro!: maintain_intros reports_take_seq)
  then show ?thesis
    unfolding reject_shares_def error_code_def Let_def
    by (intro maintains_bind; (simp only: split_paired_all prod.case)?)
      (auto intro!: maintain_intros reports_target reports_answer)
qed

lemma reports_submit:
  "maintains (reports ms) (handle_submit_result E i p)" "maintains (reports ms) (handle_submit_error E i e)"
  "maintains (reports ms) (handle_submit_shares_standard E m)"
  unfolding handle_submit_result_def accept_shares_def handle_submit_error_def handle_submit_shares_standard_def
  by (intro maintain_intros rep.submit_v1 reports_target reports_reject reports_take_seq reports_answer;
      simp add: rep.I_frame)+

lemma reports_visit: "maintains (reports ms) (visit_stratum_result_or_error E i p)"
proof -
  have "maintains (reports ms) (run_result_handler E h i r)" for h i r
    by (cases h) (simp_all add: rep.results reports_submit)
  moreover have "maintains (reports ms) (run_error_handler E h i e)" for h i e
    by (cases h) (simp_all add: rep.results reports_submit)
  moreover have "maintains (reports ms) (account (ObserveV1RequestSuccess x d))"
    "maintains (reports ms) (account (ObserveV1RequestError x d))" for x d
    unfolding account_def by (auto intro!: maintain_intros reports_metric)
  ultimately show ?thesis
    unfolding visit_stratum_result_or_error_def
    by (cases p) (auto intro!: maintain_intros simp: rep.I_frame)
qed

lemma reports_v1: "maintains (reports ms) (handle_v1 E rpc)"
proof -
  have "maintains (reports ms) (handle_request_v1 E rpc p)" for p
    by (cases "(E, rpc, p)" rule: handle_request_v1.cases)
      (auto simp: rep.requests handle_set_version_mask_def handle_unknown_v1_def maintains_basic)
  then show ?thesis
    by (cases "rpc_get_id rpc")
      (simp_all add: handle_v1_def handle_unknown_v1_def handle_stratum_result_def handle_stratum_error_def
        dispatch_v1_def maintains_basic reports_visit split: sum.split)
qed

lemma reports_v2: "maintains (reports ms) (v2_handle_frame E f)"
proof -
  have "maintains (reports ms) (dispatch_v2 E k f)" for k
  proof (cases "message_of_frame k f")
    case (Inr m)
    then have "kind_of m = k"
      by (auto simp: message_of_frame_def result_simps dest: message_of_bytes_exact)
    with Inr show ?thesis
      by (cases m) (simp_all add: dispatch_v2_def rep.requests reports_submit handle_unknown_v2_def maintains_basic)
  qed (simp add: dispatch_v2_def handle_unknown_v2_def maintains_basic)
  then show ?thesis
    by (simp add: v2_handle_frame_def handle_v2_def handle_unknown_v2_def maintains_basic)
qed

lemma reports_select:
  assumes "reports ms s"
  shows "reports ms (snd (select_step E ser parse_json peer x s))"
proof -
  have "maintains (reports ms) (v1_handle_frame E ser parse_json f)" for f
    unfolding v1_handle_frame_def by (intro maintain_intros reports_v1)
  moreover have "reports ms (snd (conn_handle m s))" if "maintains (reports ms) m" for m
    using that assms by (cases "m s") (force simp: conn_handle_def maintains_def split: outcome.split)
  ultimately show ?thesis
    using assms reports_v2 by (auto simp: select_step_def split: selected.split option.split sum.split)
qed

lemma reports_session:
  "reports ms s \<Longrightarrow> reports ms (snd (conn_run E ser parse_json peer xs s))"
proof (induction xs arbitrary: s)
  case (Cons x xs)
  obtain m y where x: "x = (m, y)" by (cases x)
  from Cons.prems have "reports ms (env_move m s)" by (simp add: env_move_def)
  from reports_select [OF this, of E ser parse_json peer y] Cons.IH show ?case
    by (cases "select_step E ser parse_json peer y (env_move m s)") (auto simp: x split: option.split)
qed simp

text \<open>
  C40. Accounting never stops a connection. However a translation session goes and however it ends, every
  call of the metrics that it makes succeeds: the conversion of a difficulty to the number type of the
  counters, which panics on a value that does not fit, is only given the difficulties that the
  pool has set, and they have 32 bits.
\<close>

theorem accounting_never_panics:
  assumes "conn_run E ser parse_json peer xs (conn_translation_new (Some ms)) = (r, s)" and "0xffffffff \<le> num_max"
  shows "\<exists>new. metrics s = Some (ms @ new) \<and> (\<forall>pm. \<exists>pm'. apply_metrics num_max new pm = Some pm')"
proof -
  have "reports ms (conn_translation_new (Some ms))"
    by (simp add: reports_def conn_translation_new_def translation_new_def)
  from reports_session [OF this, of E ser parse_json peer xs] assms(1) obtain new
    where "metrics s = Some (ms @ new)" "list_all countable_metric new" by (auto simp: reports_def)
  with apply_countables [OF _ assms(2)] show ?thesis by blast
qed

section \<open>The ledger of shares\<close>

abbreviation accepted_labels :: labels where "accepted_labels \<equiv> (''downstream'', ''accepted'')"
abbreviation rejected_labels :: labels where "rejected_labels \<equiv> (''downstream'', ''rejected'')"

fun metric_labels :: "metric \<Rightarrow> labels option" where
  "metric_labels (AccountAcceptedShare _) = Some accepted_labels"
| "metric_labels (AccountRejectedShare _) = Some rejected_labels"
| "metric_labels _ = None"

definition submits :: "labels \<Rightarrow> metric list \<Rightarrow> nat" where
  "submits l ms = length (filter (\<lambda>m. metric_labels m = Some l) ms)"

lemma submits_simps [simp]:
  "submits l [] = 0" "submits l (ms @ ms') = submits l ms + submits l ms'"
  "submits l (m # ms) = (if metric_labels m = Some l then 1 else 0) + submits l ms"
  by (simp_all add: submits_def)

lemma apply_metric_submits:
  assumes "apply_metric num_max m pm = Some pm'"
  shows "submits_total pm' l = submits_total pm l + of_nat (submits l [m])"
  using assms
  by (cases m) (auto simp: apply_metric_def account_accepted_share_def account_rejected_share_def account_share_def Let_def
      observe_v1_request_success_def observe_v1_request_error_def observe_v1_request_duration_def
      split: option.split_asm if_split_asm)

lemma apply_metrics_submits:
  "apply_metrics num_max ms pm = Some pm' \<Longrightarrow> submits_total pm' l = submits_total pm l + of_nat (submits l ms)"
proof (induction ms arbitrary: pm)
  case (Cons m ms)
  then obtain pm1 where "apply_metric num_max m pm = Some pm1" "apply_metrics num_max ms pm1 = Some pm'"
    by (auto simp: bind_eq_Some_conv)
  from Cons.IH [OF this(2)] apply_metric_submits [OF this(1), of l] show ?case by (simp add: add.assoc)
qed simp

text \<open>The answers sent, by what they say.\<close>

fun answer_labels :: "v2_message \<Rightarrow> labels option" where
  "answer_labels (M_SubmitSharesSuccess m) = Some accepted_labels"
| "answer_labels (M_SubmitSharesError m) = Some rejected_labels"
| "answer_labels _ = None"

definition frame_labels :: "v2_message frame \<Rightarrow> labels option" where
  "frame_labels f = (case frame_payload f of LazyBytes m \<Rightarrow> answer_labels m | SerializedBytes _ \<Rightarrow> None)"

definition told :: "labels \<Rightarrow> translation \<Rightarrow> nat" where
  "told l s = length (filter (\<lambda>f. frame_labels f = Some l) (sent (v2_tx s)))"

definition told_later :: "labels \<Rightarrow> submit_share list \<Rightarrow> nat" where
  "told_later l q = (if l = rejected_labels then length (filter is_queued_error q) else 0)"

text \<open>\<open>ledger ms d s\<close>: since \<open>ms\<close>, what was reported is what was told or is to be told, and \<open>d\<close> is still owed.\<close>

definition ledger :: "metric list \<Rightarrow> labels option \<Rightarrow> translation \<Rightarrow> bool" where
  "ledger ms d s \<longleftrightarrow> refusals (v2_tx s) = [] \<and>
     (\<exists>new. metrics s = Some (ms @ new) \<and>
       (\<forall>l. submits l new = told l s + told_later l (v2_submit_share_queue s) + (if d = Some l then 1 else 0)))"

lemma answer_labels_iff: "answer_of_message m = [] \<longleftrightarrow> answer_labels m = None"
  by (cases m) simp_all

lemma ledger_frame [simp]:
  "ledger ms d (s\<lparr>v1_tx := tx1\<rparr>) = ledger ms d s" "ledger ms d (s\<lparr>clock := c\<rparr>) = ledger ms d s"
  "ledger ms d (s\<lparr>v1_xnsub_enabled := x\<rparr>) = ledger ms d s" "ledger ms d (s\<lparr>state := st\<rparr>) = ledger ms d s"
  "ledger ms d (s\<lparr>v1_extra_nonce1 := en\<rparr>) = ledger ms d s" "ledger ms d (s\<lparr>v1_extra_nonce2_size := es\<rparr>) = ledger ms d s"
  "ledger ms d (s\<lparr>v1_authorized := a\<rparr>) = ledger ms d s" "ledger ms d (s\<lparr>v1_deferred_notify := dn\<rparr>) = ledger ms d s"
  "ledger ms d (s\<lparr>v2_conn_details := cd\<rparr>) = ledger ms d s" "ledger ms d (s\<lparr>v2_channel_details := chd\<rparr>) = ledger ms d s"
  "ledger ms d (s\<lparr>v1_req_id := i\<rparr>) = ledger ms d s" "ledger ms d (s\<lparr>v1_req_map := mp\<rparr>) = ledger ms d s"
  "ledger ms d (s\<lparr>v2_job_id := ji\<rparr>) = ledger ms d s" "ledger ms d (s\<lparr>v2_to_v1_job_map := jm\<rparr>) = ledger ms d s"
  "ledger ms d (s\<lparr>last_submit := ls\<rparr>) = ledger ms d s" "ledger ms d (s\<lparr>v2_target := tg\<rparr>) = ledger ms d s"
  by (simp_all add: ledger_def told_def)

lemma ledger_report:
  assumes "ledger ms None s" and "metric_labels m = d"
  shows "ledger ms d (s\<lparr>metrics := map_option (\<lambda>ms. ms @ [m]) (metrics s)\<rparr>)"
proof -
  from assms(1) obtain new where n: "refusals (v2_tx s) = []" "metrics s = Some (ms @ new)"
    "\<forall>l. submits l new = told l s + told_later l (v2_submit_share_queue s)" by (auto simp: ledger_def)
  show ?thesis
    unfolding ledger_def
  proof (intro conjI exI [of _ "new @ [m]"])
    show "\<forall>l. submits l (new @ [m]) = told l (s\<lparr>metrics := map_option (\<lambda>ms. ms @ [m]) (metrics s)\<rparr>) +
        told_later l (v2_submit_share_queue (s\<lparr>metrics := map_option (\<lambda>ms. ms @ [m]) (metrics s)\<rparr>)) + (if d = Some l then 1 else 0)"
      using n(3) assms(2) by (simp add: told_def)
  qed (use n in simp_all)
qed

lemma ledger_tell:
  assumes "ledger ms (answer_labels m) s"
  shows "ledger ms None (s\<lparr>v2_tx := (v2_tx s)\<lparr>sent := sent (v2_tx s) @ [v2_frame m], refusals := []\<rparr>\<rparr>)"
  using assms by (fastforce simp: ledger_def told_def frame_labels_def v2_frame_def)

lemma ledger_queue:
  "ledger ms (Some rejected_labels) s \<Longrightarrow> ledger ms None (s\<lparr>v2_submit_share_queue := v2_submit_share_queue s @ [QueuedError e]\<rparr>)"
  "ledger ms d s \<Longrightarrow> ledger ms d (s\<lparr>v2_submit_share_queue := v2_submit_share_queue s @ [V1ToV2Mapping i n]\<rparr>)"
  by (fastforce simp: ledger_def told_def told_later_def)+

lemma ledger_dequeue:
  "ledger ms None s \<Longrightarrow> v2_submit_share_queue s = QueuedError e # q \<Longrightarrow>
     ledger ms (Some rejected_labels) (s\<lparr>v2_submit_share_queue := q\<rparr>)"
  "ledger ms d s \<Longrightarrow> v2_submit_share_queue s = V1ToV2Mapping i n # q \<Longrightarrow> ledger ms d (s\<lparr>v2_submit_share_queue := q\<rparr>)"
  by (fastforce simp: ledger_def told_def told_later_def)+

lemma wp_send_queued_ledger:
  "ledger ms None s \<Longrightarrow> v2_submit_share_queue s = q \<Longrightarrow>
   wp (send_queued_errors E q) (\<lambda>_. ledger ms None) R (\<lambda>_. True) s"
proof (induction E q arbitrary: s rule: send_queued_errors.induct)
  case (1 E e q)
  let ?s = "s\<lparr>v2_submit_share_queue := q\<rparr>"
  from ledger_dequeue(1) [OF 1(2,3)] have "ledger ms (answer_labels (M_SubmitSharesError e)) ?s" by simp
  from 1(1) [OF ledger_tell [OF this]] 1(2) show ?case
    by (simp add: wp_then wp_mod wp_submit_v2 try_send_accepts ledger_def)
qed (simp_all add: wp_basic)

lemma wp_answer_ledger:
  assumes "ledger ms (answer_labels m) s"
  shows "wp (submit_share_response E m) (\<lambda>_. ledger ms None) R (\<lambda>_. True) s"
  using wp_send_queued_ledger [OF ledger_tell [OF assms] refl, of E R] assms
  by (simp add: submit_share_response_def submit_queued_share_responses_def wp_then wp_bind wp_basic
      wp_submit_v2 try_send_accepts ledger_def)

lemma wp_take_seq_ledger:
  assumes "ledger ms d s" and "\<And>n s'. ledger ms d s' \<Longrightarrow> Q n s'"
  shows "wp (get_v2_submit_shares_seq_num i) Q (\<lambda>_ _. True) (\<lambda>_. True) s"
  using ledger_dequeue(2) [OF assms(1)] assms(2)
  by (auto simp: get_v2_submit_shares_seq_num_def wp_simps split: option.splits list.splits submit_share.splits)

lemma wp_rejected_ledger:
  assumes "ledger ms None s"
  shows "wp (tbind (tget v2_target) (\<lambda>target. tthen (account (AccountRejectedShare target)) (tbind (error_code msg) (\<lambda>code.
      let msg = \<lparr>sserr_channel_id = c, sserr_seq_num = n, sserr_code = code\<rparr>
      in if b then submit_share_response E (M_SubmitSharesError msg)
         else tmod (\<lambda>s. s\<lparr>v2_submit_share_queue := v2_submit_share_queue s @ [QueuedError msg]\<rparr>)))))
      (\<lambda>_. ledger ms None) R (\<lambda>_. True) s"
proof -
  let ?s = "s\<lparr>metrics := map_option (\<lambda>ms. ms @ [AccountRejectedShare (v2_target s)]) (metrics s)\<rparr>"
  have s: "ledger ms (Some rejected_labels) ?s" by (rule ledger_report [OF assms]) simp
  from ledger_queue(1) [OF this] s show ?thesis
    by (auto simp: account_def error_code_def expect_str_def wp_simps Let_def
        intro!: wp_answer_ledger split: option.splits)
qed

lemma wp_reject_ledger:
  assumes "ledger ms None s"
  shows "wp (reject_shares E c (SeqV1 i) msg) (\<lambda>_. ledger ms None) (\<lambda>_ _. True) (\<lambda>_. True) s"
    and "wp (reject_shares E c (SeqV2 n) msg) (\<lambda>_. ledger ms None) R (\<lambda>_. True) s"
proof -
  note told = wp_rejected_ledger [where b = True, unfolded if_True Let_def]
  show "wp (reject_shares E c (SeqV1 i) msg) (\<lambda>_. ledger ms None) (\<lambda>_ _. True) (\<lambda>_. True) s"
    unfolding reject_shares_def seq_num.case wp_bind [of "tbind _ _"] wp_bind [of "get_v2_submit_shares_seq_num _"]
    by (rule wp_take_seq_ledger [OF assms]) (simp add: wp_basic(1) told)
  show "wp (reject_shares E c (SeqV2 n) msg) (\<lambda>_. ledger ms None) R (\<lambda>_. True) s"
    unfolding reject_shares_def seq_num.case wp_bind [of "tget _"] wp_basic(4) prod.case
    by (rule wp_rejected_ledger [OF assms, unfolded wp_bind [of "tget _"] wp_basic(4)])
qed

lemma wp_submit_result_ledger:
  assumes "ledger ms None s"
  shows "wp (handle_submit_result E i p) (\<lambda>_. ledger ms None) (\<lambda>_ _. True) (\<lambda>_. True) s"
  using assms ledger_report [OF assms, of "AccountAcceptedShare (v2_target s)"]
  by (auto simp: handle_submit_result_def accept_shares_def account_def wp_rules
      intro!: wp_take_seq_ledger [of ms "Some accepted_labels"] wp_answer_ledger wp_reject_ledger
      split: option.splits sum.splits)

lemma ledger_send:
  "answer_of_message m = [] \<Longrightarrow> ledger ms d s \<Longrightarrow> ledger ms d (s\<lparr>v2_tx := snd (try_send (v2_frame m) (v2_tx s))\<rparr>)"
  by (auto simp: ledger_def told_def frame_labels_def v2_frame_def try_send_accepts answer_labels_iff)

lemma wp_submit_shares_ledger:
  assumes "ledger ms None s"
  shows "wp (handle_submit_shares_standard E m) (\<lambda>_. ledger ms None) (\<lambda>_ _. True) (\<lambda>_. True) s"
proof -
  have "ledger ms None (s'\<lparr>v2_submit_share_queue := v2_submit_share_queue s @ [V1ToV2Mapping i n]\<rparr>)"
    if "ledger ms None s'" "v2_submit_share_queue s' = v2_submit_share_queue s" for s' i n
    using ledger_queue(2) [OF that(1)] that(2) by simp
  with assms show ?thesis
    by (auto simp: handle_submit_shares_standard_def wp_rules
        intro!: wp_submit_v1I wp_mono [OF wp_reject_ledger(2)] split: option.splits sum.splits)
qed

interpretation led: share_answering "ledger ms None" for ms
  by unfold_locales
    (simp_all add: ledger_send ledger_report wp_submit_result_ledger wp_reject_ledger(1) handle_submit_error_def)

lemma ledger_step:
  assumes "select_step E ser parse_json peer x s = (None, s')" and "ledger ms None s"
  shows "ledger ms None s'"
proof -
  from select_step_handles(1) [OF assms(1) refl] obtain e where e: "handle_event E e s = (Done (), s')" by blast
  have "wp (handle_event E e) (\<lambda>_. ledger ms None) (\<lambda>_ _. True) (\<lambda>_. True) s"
    using led.v1_event [OF assms(2)] led.v2_event [OF assms(2) wp_submit_shares_ledger [OF assms(2)]]
    by (cases e) (simp_all add: handle_event_def)
  from wp_DoneD [OF this e] show ?thesis .
qed

lemma ledger_session:
  "conn_run E ser parse_json peer xs s = (None, s') \<Longrightarrow> list_all (\<lambda>x. mo_v2_refusals (fst x) = []) xs \<Longrightarrow>
   ledger ms None s \<Longrightarrow> ledger ms None s'"
proof (induction xs arbitrary: s)
  case (Cons x xs)
  obtain m y where x: "x = (m, y)" by (cases x)
  from Cons.prems(1) obtain s1 where s1: "select_step E ser parse_json peer y (env_move m s) = (None, s1)"
    "conn_run E ser parse_json peer xs s1 = (None, s')"
    by (auto simp: x split: prod.split_asm option.split_asm)
  from Cons.prems(2,3) have "ledger ms None (env_move m s)" by (simp add: x env_move_def ledger_def told_def)
  from Cons.IH [OF s1(2)] Cons.prems(2) ledger_step [OF s1(1) this] show ?case by simp
qed simp

text \<open>
  C19. The counters agree with what the miner was told. As long as a session runs and the miner reads what it
  is sent, counting its reports raises \<open>submits_total\<close> of accepted shares by the number of
  \<open>SubmitSharesSuccess\<close> sent, and that of rejected shares by the number of \<open>SubmitSharesError\<close> sent or
  waiting in the queue.
\<close>

theorem share_ledger:
  assumes "conn_run E ser parse_json peer xs (conn_translation_new (Some ms)) = (None, s)"
    and "list_all (\<lambda>x. mo_v2_refusals (fst x) = []) xs" and "0xffffffff \<le> num_max"
  shows "\<exists>new pm'. metrics s = Some (ms @ new) \<and> apply_metrics num_max new pm = Some pm' \<and>
    submits_total pm' (''downstream'', ''accepted'') =
      submits_total pm (''downstream'', ''accepted'') + of_nat (told (''downstream'', ''accepted'') s) \<and>
    submits_total pm' (''downstream'', ''rejected'') = submits_total pm (''downstream'', ''rejected'') +
      of_nat (told (''downstream'', ''rejected'') s + length (filter is_queued_error (v2_submit_share_queue s)))"
proof -
  have "ledger ms None (conn_translation_new (Some ms))" "reports ms (conn_translation_new (Some ms))"
    by (simp_all add: ledger_def reports_def conn_translation_new_def translation_new_def told_def told_later_def)
  with ledger_session [OF assms(1,2)] reports_session [of ms _ E ser parse_json peer xs] assms(1)
  have "ledger ms None s" "reports ms s" by fastforce+
  then obtain new where n: "metrics s = Some (ms @ new)" "list_all countable_metric new"
    "\<And>l. submits l new = told l s + told_later l (v2_submit_share_queue s)"
    by (auto simp: ledger_def reports_def)
  from apply_countables [OF n(2) assms(3)] obtain pm' where "apply_metrics num_max new pm = Some pm'" by blast
  with n(1) apply_metrics_submits [OF this] n(3) show ?thesis
    by (intro exI [of _ new] exI [of _ pm']) (simp add: told_later_def)
qed

text \<open>
  A session with a rejected share: the connection is set up, a channel is asked for, the pool sets the
  difficulty 1, and the client submits a share for a job that it has not been given. The lines of the pool
  are numbered.
\<close>

definition pool_line :: "bytes \<Rightarrow> string + v1_rpc" where
  "pool_line bs =
     (if bs = [0] then Inr (RpcResponse \<lparr>resp_id = 0, stratum_result = Some configure_value, stratum_err = None\<rparr>)
      else if bs = [1] then Inr (notification (ReqSetDifficulty 0x3f800000))
      else Inl ''no such line'')"

abbreviation calm :: moment where
  "calm \<equiv> \<lparr>mo_waited = 0, mo_v1_refusals = [], mo_v2_refusals = []\<rparr>"

definition rejected_session :: "(moment \<times> selected) list" where
  "rejected_session =
     [(calm, V2Next (Some (Inr (v2_frame (M_SetupConnection example_setup))))), (calm, V1Next (Some (Inr (SerializedBytes [0])))),
      (calm, V2Next (Some (Inr (v2_frame (M_OpenStandardMiningChannel example_open))))),
      (calm, V1Next (Some (Inr (SerializedBytes [1])))),
      (calm, V2Next (Some (Inr (v2_frame (M_SubmitSharesStandard example_share)))))]"

definition rejected_end :: translation where
  "rejected_end = rejected example_share (unknown_job_text example_share) (targeted 0x3f800000 example_opened)"

lemma conn_run_event:
  assumes "selected_event ser parse_json x = [e]" and "handle_event E e s = (Done (), s')"
    and "refusals (v1_tx s) = []" and "refusals (v2_tx s) = []"
  shows "conn_run E ser parse_json peer ((calm, x) # xs) s = conn_run E ser parse_json peer xs s'"
proof -
  have "env_move calm s = s" using assms(3,4) by (simp add: env_move_def)
  with assms(1,2) show ?thesis
    by (cases "(ser, parse_json, x)" rule: selected_event.cases)
      (auto simp: select_step_def conn_handle_def v1_handle_frame_def handle_event_def tbind_def tlift_def treturn_def
        map_err_def split: sum.split_asm)
qed

lemma pool_line_read:
  "rpc_of_frame ser pool_line (SerializedBytes [0]) =
     Inr (RpcResponse \<lparr>resp_id = 0, stratum_result = Some configure_value, stratum_err = None\<rparr>)"
  "rpc_of_frame ser pool_line (SerializedBytes [1]) = Inr (notification (ReqSetDifficulty 0x3f800000))"
  by (simp_all add: rpc_of_frame_def into_bytes_mut_def pool_line_def rpc_try_from_def result_simps json_rpc_normalize_def
      notification_def configure_value_def)

lemma rejected_session_run:
  "conn_run example_env ser pool_line peer rejected_session (conn_translation_new (Some [])) = (None, rejected_end)"
proof -
  have d: "handle_event example_env (V1Event (notification (ReqSetDifficulty 0x3f800000))) example_opened =
      (Done (), targeted 0x3f800000 example_opened)"
    using example_difficulty(1,2) handle_set_difficulty_eq [of example_opened "0x3f800000" example_env None]
    by (simp add: handle_event_def handle_v1_def dispatch_v1_def) (simp add: example_state_defs)
  have r: "handle_event example_env (V2Event (v2_frame (M_SubmitSharesStandard example_share)))
      (targeted 0x3f800000 example_opened) = (Done (), rejected_end)"
    unfolding example_frame_events handle_message_v2.simps rejected_end_def
    by (rule handle_share_unknown_eq) (simp_all add: example_share_def targeted_def example_state_defs)
  have "conn_translation_new (Some []) = example_new" by (simp add: conn_translation_new_def example_new_def)
  moreover have "refusals (v1_tx s) = []" "refusals (v2_tx s) = []"
    if "s \<in> {example_new, example_configuring, example_configured, example_opened, targeted 0x3f800000 example_opened}" for s
    using that by (auto simp: example_state_defs targeted_def)
  ultimately show ?thesis
    unfolding rejected_session_def
    by (simp del: conn_run.simps(2) add: conn_run_event [OF _ example_steps(1)] conn_run_event [OF _ example_steps(2)]
        conn_run_event [OF _ example_steps(3)] conn_run_event [OF _ d] conn_run_event [OF _ r] pool_line_read
        response_def)
qed

lemma rejected_end_facts:
  "metrics rejected_end =
     Some [ObserveV1RequestSuccess Configure 0, AccountRejectedShare (Some (diff_to_target 1))]"
  "told (''downstream'', ''rejected'') rejected_end = 1" "v2_submit_share_queue rejected_end = []"
  by (simp_all add: rejected_end_def rejected_def targeted_def example_difficulty(3) Let_def told_def frame_labels_def
      v2_frame_def example_state_defs pending_handler_def)

theorem accounting_never_panics_witness:
  "\<exists>pm'. apply_metrics 0xffffffffffffffff
     [ObserveV1RequestSuccess Configure 0, AccountRejectedShare (Some (diff_to_target 1))] from_registry = Some pm'"
  using accounting_never_panics [OF rejected_session_run [of "\<lambda>_. Inr []" "[]"], of "0xffffffffffffffff"] rejected_end_facts(1)
  by simp

theorem share_ledger_witness:
  "\<exists>new pm'. metrics rejected_end = Some new \<and> apply_metrics 0xffffffffffffffff new from_registry = Some pm' \<and>
     submits_total pm' (''downstream'', ''rejected'') = 1"
proof -
  have "list_all (\<lambda>x. mo_v2_refusals (fst x) = []) rejected_session" by (simp add: rejected_session_def)
  from share_ledger [OF rejected_session_run [of "\<lambda>_. Inr []" "[]"] this, of "0xffffffffffffffff" from_registry] rejected_end_facts
  show ?thesis by (auto simp: from_registry_def)
qed

section \<open>The gauge of running tasks\<close>

datatype task_event = TaskStarts | TaskEnds task_end

primrec task_step :: "task_event \<Rightarrow> proxy_metrics \<Rightarrow> proxy_metrics" where
  "task_step TaskStarts = accounted_start"
| "task_step (TaskEnds r) = accounted_end r"

text \<open>
  The gauge counts the tasks that run and, for good, every task that has panicked. Where no hook aborts the
  process, each connection on which a client makes the translation panic leaves the gauge one higher,
  and is in none of the stages of \<open>tcp_connection_close_stage\<close> either.
\<close>

lemma gauge_counts_unwound:
  "tokio_tasks (fold task_step es pm) = tokio_tasks pm +
     (int (count_list es TaskStarts) - int (count_list es (TaskEnds Returned)) - int (count_list es (TaskEnds Unwound))) +
     int (count_list es (TaskEnds Unwound))"
proof (induction es arbitrary: pm)
  case (Cons e es)
  then show ?case
    by (cases e) (auto simp: accounted_start_def accounted_end_def split: task_end.split)
qed simp

lemma stray_panic_uncounted:
  "\<exists>p. fst (conn_run example_env ser parse_json peer
       [(\<lparr>mo_waited = 5, mo_v1_refusals = [], mo_v2_refusals = []\<rparr>,
         V2Next (Some (Inr (v2_frame (M_SubmitSharesStandard example_share)))))] (conn_translation_new ms)) = Some (ConnPanic p) \<and>
     handle_metrics (ConnPanic p) elapsed pm = pm"
proof -
  have w: "wf_msg (M_SubmitSharesStandard example_share)" "handled (M_SubmitSharesStandard example_share)"
    by (simp_all add: wf_SubmitSharesStandard_def handled_def)
  have h: "v2_handle_frame E (v2_frame (M_SubmitSharesStandard example_share)) s =
      handle_submit_shares_standard E example_share s" for E s
    using frame_event [OF w, of E s] by (simp add: handle_event_def)
  show ?thesis
    by (simp add: select_step_def conn_handle_def h handle_submit_shares_standard_def CHANNEL_ID_def example_new_details(2)
        env_move_def conn_translation_new_def translation_new_def expect_def tbind_def tthen_def tmod_def tget_def panic_def
        handle_metrics_def)
qed

end
