(* ===== verification/Metrics_Registry.thy ===== *)
theory Metrics_Registry
  imports Proxy_Metrics
begin

text \<open>
  \<open>utils-rs/metrics\<close>: the registry of metrics over the library \<open>prometheus\<close>, and the registrations of the proxies.

  The buckets of a histogram are passed on to the library, where they are part of the metric; they are left out here. The registry of \<open>prometheus\<close> is a parameter, the record \<open>prom_lib\<close>; \<open>prom_contract\<close> says what the code relies on: a
  metric with a valid name and labels can be made, and it can be registered unless its name is taken. Everything
  else in these functions is an \<open>expect\<close> on what the library returns; \<open>None\<close> is a panic.
\<close>

section \<open>The library\<close>

datatype metric_kind = Gauge | GaugeVec | Counter | CounterVec | Histogram | HistogramVec

record metric_desc =
  md_kind :: metric_kind
  md_name :: string
  md_help :: string
  md_labels :: "string list"

record 'r prom_lib =
  new_custom :: "string option \<Rightarrow> 'r option"
  with_opts :: "metric_desc \<Rightarrow> bool"
  reg_register :: "metric_desc \<Rightarrow> 'r \<Rightarrow> 'r option"
  reg_set :: "string \<Rightarrow> string list \<Rightarrow> nat \<Rightarrow> 'r \<Rightarrow> 'r"
  reg_names :: "'r \<Rightarrow> string list"
  reg_encode :: "'r \<Rightarrow> string + bytes"
  reg_format :: string

definition letter :: "char \<Rightarrow> bool" where
  "letter c \<longleftrightarrow> c \<in> set ''abcdefghijklmnopqrstuvwxyz_''"

definition plain_name :: "string \<Rightarrow> bool" where
  "plain_name n \<longleftrightarrow> n \<noteq> [] \<and> (\<forall>c \<in> set n. letter c \<or> c \<in> set ''0123456789'') \<and> letter (hd n)"

text \<open>Names of small letters, digits and underlines are valid, and so is every help text.\<close>

definition prom_contract :: "'r prom_lib \<Rightarrow> bool" where
  "prom_contract P \<longleftrightarrow>
     (\<exists>r. new_custom P None = Some r \<and> reg_names P r = []) \<and>
     (\<forall>d. plain_name (md_name d) \<and> list_all plain_name (md_labels d) \<and> distinct (md_labels d) \<and> md_help d \<noteq> [] \<longrightarrow> with_opts P d) \<and>
     (\<forall>d r. (case reg_register P d r of
               None \<Rightarrow> md_name d \<in> set (reg_names P r)
             | Some r' \<Rightarrow> md_name d \<notin> set (reg_names P r) \<and> reg_names P r' = md_name d # reg_names P r)) \<and>
     (\<forall>n ls v r. reg_names P (reg_set P n ls v r) = reg_names P r)"

section \<open>The registry\<close>

text \<open>The version of the program and of its compiler are parameters of \<open>build\<close>.\<close>

definition version_gauge :: metric_desc where
  "version_gauge = \<lparr>md_kind = GaugeVec, md_name = ''application_version_details'',
     md_help = ''Version details of the application producing time series'', md_labels = [''version_full'', ''toolchain'']\<rparr>"

text \<open>What every \<open>register_\<close> function does: make the metric, register it, panic when either fails.\<close>

definition register_metric :: "'r prom_lib \<Rightarrow> metric_desc \<Rightarrow> 'r \<Rightarrow> 'r option" where
  "register_metric P d r = (if with_opts P d then reg_register P d r else None)"

definition registry_build :: "'r prom_lib \<Rightarrow> string \<Rightarrow> string \<Rightarrow> string option \<Rightarrow> 'r option" where
  "registry_build P version_full toolchain prefix =
     Option.bind (new_custom P prefix) (\<lambda>r.
     map_option (reg_set P ''application_version_details'' [version_full, toolchain] 1) (register_metric P version_gauge r))"

definition registry_new :: "'r prom_lib \<Rightarrow> string \<Rightarrow> string \<Rightarrow> 'r option" where
  "registry_new P version_full toolchain = registry_build P version_full toolchain None"

definition registry_new_with_prefix :: "'r prom_lib \<Rightarrow> string \<Rightarrow> string \<Rightarrow> string \<Rightarrow> 'r option" where
  "registry_new_with_prefix P version_full toolchain prefix = registry_build P version_full toolchain (Some prefix)"

definition default_with_prefix :: "'r prom_lib \<Rightarrow> string \<Rightarrow> string \<Rightarrow> string \<Rightarrow> 'r option" where
  "default_with_prefix P version_full toolchain prefix =
     Option.bind (new_custom P (Some prefix)) (\<lambda>r.
     map_option (reg_set P ''application_version_details'' [version_full, toolchain] 1) (register_metric P version_gauge r))"

definition register_generic_gauge :: "'r prom_lib \<Rightarrow> string \<Rightarrow> string \<Rightarrow> 'r \<Rightarrow> 'r option" where
  "register_generic_gauge P name help = register_metric P \<lparr>md_kind = Gauge, md_name = name, md_help = help, md_labels = []\<rparr>"

definition register_generic_gauge_vec :: "'r prom_lib \<Rightarrow> string \<Rightarrow> string \<Rightarrow> string list \<Rightarrow> 'r \<Rightarrow> 'r option" where
  "register_generic_gauge_vec P name help ls =
     register_metric P \<lparr>md_kind = GaugeVec, md_name = name, md_help = help, md_labels = ls\<rparr>"

definition register_generic_counter :: "'r prom_lib \<Rightarrow> string \<Rightarrow> string \<Rightarrow> 'r \<Rightarrow> 'r option" where
  "register_generic_counter P name help = register_metric P \<lparr>md_kind = Counter, md_name = name, md_help = help, md_labels = []\<rparr>"

definition register_generic_counter_vec :: "'r prom_lib \<Rightarrow> string \<Rightarrow> string \<Rightarrow> string list \<Rightarrow> 'r \<Rightarrow> 'r option" where
  "register_generic_counter_vec P name help ls =
     register_metric P \<lparr>md_kind = CounterVec, md_name = name, md_help = help, md_labels = ls\<rparr>"

definition register_histogram :: "'r prom_lib \<Rightarrow> string \<Rightarrow> string \<Rightarrow> 'r \<Rightarrow> 'r option" where
  "register_histogram P name help = register_metric P \<lparr>md_kind = Histogram, md_name = name, md_help = help, md_labels = []\<rparr>"

definition register_histogram_vec :: "'r prom_lib \<Rightarrow> string \<Rightarrow> string \<Rightarrow> string list \<Rightarrow> 'r \<Rightarrow> 'r option" where
  "register_histogram_vec P name help ls =
     register_metric P \<lparr>md_kind = HistogramVec, md_name = name, md_help = help, md_labels = ls\<rparr>"

text \<open>Scraping: the metrics of the registry, then those of the process, in the format of the encoder.\<close>

definition registry_to_text :: "'r prom_lib \<Rightarrow> ('r \<Rightarrow> 'r \<Rightarrow> 'r) \<Rightarrow> 'r \<Rightarrow> 'r \<Rightarrow> string + (bytes \<times> string)" where
  "registry_to_text P append_families default_registry r =
     rbind (reg_encode P (append_families r default_registry)) (\<lambda>buffer. Inr (buffer, reg_format P))"

section \<open>The registrations of the proxies\<close>

fun register_all :: "('r \<Rightarrow> 'r option) list \<Rightarrow> 'r \<Rightarrow> 'r option" where
  "register_all [] r = Some r"
| "register_all (f # fs) r = Option.bind (f r) (register_all fs)"

definition proxy_registrations :: "'r prom_lib \<Rightarrow> ('r \<Rightarrow> 'r option) list" where
  "proxy_registrations P =
     [register_generic_gauge P ''mining_session_tokio_tasks'' ''Number of running tokio tasks related to translation sessions'',
      register_generic_counter P ''tcp_connection_open_total'' ''Number of connection open events'',
      register_generic_counter_vec P ''tcp_connection_close_stage''
        ''Number of tcp connection close events in a particular stage'' [''stage''],
      register_histogram P ''tcp_connection_duration_seconds'' ''Histogram of how long each connection has lived for'',
      register_generic_counter_vec P ''shares_total'' ''Sum of shares difficulty that have been processed'' [''direction'', ''status''],
      register_generic_counter_vec P ''submits_total'' ''Sum of submits that have processed'' [''direction'', ''status''],
      register_histogram_vec P ''v1_request_duration_seconds'' ''Histogram of duration if stratum V1 requests'' [''type'', ''status''],
      register_generic_counter_vec P ''tcp_connection_accepts_per_tcp_socket''
        ''Total of TCP connections classified by 'accept' result'' [''result''],
      register_histogram_vec P ''tcp_socket_failure_threshold'' ''Number of tcp connection accept events before failure occurs'' [''result'']]"

definition proxy_from_registry :: "'r prom_lib \<Rightarrow> 'r \<Rightarrow> (proxy_metrics \<times> 'r) option" where
  "proxy_from_registry P r = map_option (Pair from_registry) (register_all (proxy_registrations P) r)"

definition np_registrations :: "'r prom_lib \<Rightarrow> ('r \<Rightarrow> 'r option) list" where
  "np_registrations P =
     [register_generic_counter_vec P ''noise_tcp_connection_open'' ''Number of TCP-open events'' [''result''],
      register_generic_counter_vec P ''noise_tcp_connection_close'' ''Number of TCP-close events'' [''result'']]"

section \<open>Names\<close>

lemma default_is_new: "default_with_prefix P v t p = registry_new_with_prefix P v t p"
  by (simp add: default_with_prefix_def registry_new_with_prefix_def registry_build_def)

lemma contractD:
  assumes "prom_contract P"
  shows "\<exists>r. new_custom P None = Some r \<and> reg_names P r = []"
    and "plain_name (md_name d) \<Longrightarrow> list_all plain_name (md_labels d) \<Longrightarrow> distinct (md_labels d) \<Longrightarrow> md_help d \<noteq> [] \<Longrightarrow> with_opts P d"
    and "md_name d \<notin> set (reg_names P r) \<Longrightarrow> \<exists>r'. reg_register P d r = Some r' \<and> reg_names P r' = md_name d # reg_names P r"
    and "md_name d \<in> set (reg_names P r) \<Longrightarrow> reg_register P d r = None"
    and "reg_names P (reg_set P n ls v r) = reg_names P r"
proof -
  have c: "case reg_register P d r of None \<Rightarrow> md_name d \<in> set (reg_names P r)
      | Some r' \<Rightarrow> md_name d \<notin> set (reg_names P r) \<and> reg_names P r' = md_name d # reg_names P r"
    using assms unfolding prom_contract_def by blast
  then show "md_name d \<notin> set (reg_names P r) \<Longrightarrow> \<exists>r'. reg_register P d r = Some r' \<and> reg_names P r' = md_name d # reg_names P r"
    "md_name d \<in> set (reg_names P r) \<Longrightarrow> reg_register P d r = None" by (auto split: option.split_asm)
qed (use assms in \<open>auto simp: prom_contract_def\<close>)

definition sound_desc :: "metric_desc \<Rightarrow> bool" where
  "sound_desc d \<longleftrightarrow> plain_name (md_name d) \<and> list_all plain_name (md_labels d) \<and> distinct (md_labels d) \<and> md_help d \<noteq> []"

lemma register_all_descs:
  assumes "prom_contract P"
  shows "list_all sound_desc ds \<Longrightarrow> distinct (map md_name ds) \<Longrightarrow> set (map md_name ds) \<inter> set (reg_names P r) = {} \<Longrightarrow>
    \<exists>r'. register_all (map (register_metric P) ds) r = Some r' \<and> reg_names P r' = rev (map md_name ds) @ reg_names P r"
proof (induction ds arbitrary: r)
  case (Cons d ds)
  from Cons.prems(3) have "md_name d \<notin> set (reg_names P r)" by simp
  from contractD(3) [OF assms this] obtain r1 where r1: "reg_register P d r = Some r1" "reg_names P r1 = md_name d # reg_names P r" by blast
  have "register_metric P d r = Some r1"
    using Cons.prems(1) contractD(2) [OF assms, of d] r1(1) by (simp add: register_metric_def sound_desc_def)
  with Cons.IH [of r1] Cons.prems r1(2) show ?case by auto
qed simp

lemma register_taken:
  assumes "prom_contract P" and "md_name d \<in> set (reg_names P r)"
  shows "register_metric P d r = None"
  using contractD(4) [OF assms] by (simp add: register_metric_def)

lemmas registrations = register_generic_gauge_def register_generic_counter_def register_generic_counter_vec_def register_histogram_def
  register_histogram_vec_def

abbreviation desc :: "metric_kind \<Rightarrow> string \<Rightarrow> string \<Rightarrow> string list \<Rightarrow> metric_desc" where
  "desc k n h ls \<equiv> \<lparr>md_kind = k, md_name = n, md_help = h, md_labels = ls\<rparr>"

definition proxy_descs :: "metric_desc list" where
  "proxy_descs =
    [desc Gauge ''mining_session_tokio_tasks'' ''Number of running tokio tasks related to translation sessions'' [],
     desc Counter ''tcp_connection_open_total'' ''Number of connection open events'' [],
     desc CounterVec ''tcp_connection_close_stage'' ''Number of tcp connection close events in a particular stage'' [''stage''],
     desc Histogram ''tcp_connection_duration_seconds'' ''Histogram of how long each connection has lived for'' [],
     desc CounterVec ''shares_total'' ''Sum of shares difficulty that have been processed'' [''direction'', ''status''],
     desc CounterVec ''submits_total'' ''Sum of submits that have processed'' [''direction'', ''status''],
     desc HistogramVec ''v1_request_duration_seconds'' ''Histogram of duration if stratum V1 requests'' [''type'', ''status''],
     desc CounterVec ''tcp_connection_accepts_per_tcp_socket'' ''Total of TCP connections classified by 'accept' result'' [''result''],
     desc HistogramVec ''tcp_socket_failure_threshold'' ''Number of tcp connection accept events before failure occurs'' [''result'']]"

lemma proxy_registrations_descs: "proxy_registrations P = map (register_metric P) proxy_descs"
  by (simp add: proxy_registrations_def proxy_descs_def registrations)

lemma proxy_descs_sound:
  "list_all sound_desc proxy_descs" "distinct (''application_version_details'' # map md_name proxy_descs)"
  "''shares_total'' \<in> set (map md_name proxy_descs)"
  by (simp_all add: proxy_descs_def sound_desc_def plain_name_def letter_def)

text \<open>A registry holds the metrics of one proxy: registering is safe on a new one, and panics the second time.\<close>

lemma proxy_registers_once:
  assumes "prom_contract P"
  shows "\<exists>r r'. registry_new P v t = Some r \<and> proxy_from_registry P r = Some (from_registry, r') \<and>
    ''shares_total'' \<in> set (reg_names P r') \<and> proxy_from_registry P r' = None"
proof -
  let ?ds = proxy_descs
  note ds = proxy_registrations_descs [of P] proxy_descs_sound
  obtain r0 where r0: "new_custom P None = Some r0" "reg_names P r0 = []" using contractD(1) [OF assms] by blast
  have "md_name version_gauge \<notin> set (reg_names P r0)" by (simp add: r0(2))
  from contractD(3) [OF assms this] obtain r1 where r1: "reg_register P version_gauge r0 = Some r1"
    "reg_names P r1 = [''application_version_details'']" by (auto simp: r0(2) version_gauge_def)
  have "with_opts P version_gauge"
    by (rule contractD(2) [OF assms]) (simp_all add: version_gauge_def plain_name_def letter_def)
  with r0(1) r1(1) have new: "registry_new P v t = Some (reg_set P ''application_version_details'' [v, t] 1 r1)" (is "_ = Some ?r")
    by (simp add: registry_new_def registry_build_def register_metric_def)
  have names: "reg_names P ?r = [''application_version_details'']" using contractD(5) [OF assms] r1(2) by simp
  with ds(3) have "set (map md_name ?ds) \<inter> set (reg_names P ?r) = {}" by auto
  from register_all_descs [OF assms ds(2) _ this] ds(3) obtain r' where
    r': "register_all (map (register_metric P) ?ds) ?r = Some r'" "set (map md_name ?ds) \<subseteq> set (reg_names P r')" by auto
  obtain d ds' where d: "?ds = d # ds'" by (auto simp: proxy_descs_def)
  have "d \<in> set ?ds" unfolding d by (rule list.set_intros(1))
  with r'(2) have "md_name d \<in> set (reg_names P r')" by auto
  from register_taken [OF assms this] have "register_metric P d r' = None" .
  then have "register_all (map (register_metric P) ?ds) r' = None" unfolding d by simp
  with new r' ds(1,4) show ?thesis by (auto simp: proxy_from_registry_def)
qed

text \<open>A registry that is the list of its names.\<close>

definition plain_prom :: "string list prom_lib" where
  "plain_prom = \<lparr>new_custom = (\<lambda>_. Some []), with_opts = (\<lambda>_. True),
     reg_register = (\<lambda>d r. if md_name d \<in> set r then None else Some (md_name d # r)), reg_set = (\<lambda>_ _ _ r. r),
     reg_names = (\<lambda>r. r), reg_encode = (\<lambda>_. Inr []), reg_format = ''text/plain''\<rparr>"

lemma plain_prom_ok: "prom_contract plain_prom"
  by (simp add: prom_contract_def plain_prom_def)

end
