(* ===== verification/Panic_Handling.thy ===== *)
theory Panic_Handling
  imports Proxy_Server
begin

text \<open>
  What a panic does to the process. \<open>ii_async_utils::setup_panic_handling\<close> installs, once, a panic hook that
  aborts the process; \<open>main\<close> of the stratum proxy calls it first. Without it, tokio
  catches a panic at the border of the task.

  A process is the list of its connections, each a task with its translation, \<open>None\<close> when it has ended. What
  the tasks share otherwise is modelled where it is used: the counter of clients in \<open>Server_Controller\<close>, the
  metrics in \<open>Proxy_Metrics\<close>. No step of a translation reads them.
\<close>

section \<open>The panic hook\<close>

datatype panic_hook = DefaultHook | AbortHook

record panic_state =
  hook_setter :: bool
  hook :: panic_hook

definition panic_state_default :: panic_state where
  "panic_state_default = \<lparr>hook_setter = False, hook = DefaultHook\<rparr>"

text \<open>\<open>call_once\<close> runs the closure unless it has run before.\<close>

definition setup_panic_handling :: "panic_state \<Rightarrow> panic_state" where
  "setup_panic_handling st = (if hook_setter st then st else st\<lparr>hook_setter := True, hook := AbortHook\<rparr>)"

text \<open>The first lines of \<open>main\<close> of the stratum proxy.\<close>

definition main_panic_state :: panic_state where
  "main_panic_state = setup_panic_handling panic_state_default"

section \<open>The connections of a process\<close>

datatype 'c process = Running "'c option list" | Aborted

definition task_panics :: "panic_state \<Rightarrow> nat \<Rightarrow> 'c option list \<Rightarrow> 'c process" where
  "task_panics st i cs = (case hook st of AbortHook \<Rightarrow> Aborted | DefaultHook \<Rightarrow> Running (cs[i := None]))"

record connection_step =
  cs_task :: nat
  cs_moment :: moment
  cs_selected :: selected

definition process_step ::
    "tr_env \<Rightarrow> v1_rpc serialize_fn \<Rightarrow> (bytes \<Rightarrow> string + v1_rpc) \<Rightarrow> bytes \<Rightarrow> panic_state \<Rightarrow> connection_step \<Rightarrow>
     translation option list \<Rightarrow> translation process" where
  "process_step E ser parse_json peer st x cs =
     (if cs_task x < length cs then
        (case cs ! cs_task x of
           None \<Rightarrow> Running cs
         | Some s \<Rightarrow>
             (case select_step E ser parse_json peer (cs_selected x) (env_move (cs_moment x) s) of
                (None, s') \<Rightarrow> Running (cs[cs_task x := Some s'])
              | (Some (ConnPanic p), s') \<Rightarrow> task_panics st (cs_task x) cs
              | (Some _, s') \<Rightarrow> Running (cs[cs_task x := None])))
      else Running cs)"

section \<open>Properties\<close>

lemma main_aborts: "hook main_panic_state = AbortHook"
  by (simp add: main_panic_state_def setup_panic_handling_def panic_state_default_def)

text \<open>
  C20. One client can stop the proxy for all. A share for the proxy's only channel as the first message of a
  connection panics in its handler, and the panic hook then aborts the process with all its connections;
  without the hook only that connection would end.
\<close>

theorem client_aborts_proxy:
  "process_step E ser parse_json peer main_panic_state
     \<lparr>cs_task = length cs, cs_moment = m,
      cs_selected = V2Next (Some (Inr (v2_frame (M_SubmitSharesStandard (share\<lparr>sss_channel_id := 0\<rparr>)))))\<rparr>
     (cs @ [Some (conn_translation_new ms)]) = Aborted \<and>
   process_step E ser parse_json peer panic_state_default
     \<lparr>cs_task = length cs, cs_moment = m,
      cs_selected = V2Next (Some (Inr (v2_frame (M_SubmitSharesStandard (share\<lparr>sss_channel_id := 0\<rparr>)))))\<rparr>
     (cs @ [Some (conn_translation_new ms)]) = Running (cs @ [None])"
proof -
  let ?m = "share\<lparr>sss_channel_id := 0\<rparr>"
  have w: "wf_msg (M_SubmitSharesStandard ?m)" "handled (M_SubmitSharesStandard ?m)"
    by (simp_all add: wf_SubmitSharesStandard_def handled_def)
  have h: "v2_handle_frame E (v2_frame (M_SubmitSharesStandard ?m)) s = handle_submit_shares_standard E ?m s" for s
    using frame_event [OF w, of E s] by (simp add: handle_event_def)
  have "\<exists>s'. select_step E ser parse_json peer (V2Next (Some (Inr (v2_frame (M_SubmitSharesStandard ?m)))))
      (env_move m (conn_translation_new ms)) = (Some (ConnPanic ''BUG: Missing channel details''), s')"
    by (simp add: select_step_def conn_handle_def h handle_submit_shares_standard_def CHANNEL_ID_def
        env_move_def conn_translation_new_def translation_new_def expect_def tbind_def tthen_def tmod_def tget_def panic_def)
  then show ?thesis
    by (auto simp: process_step_def task_panics_def main_aborts panic_state_default_def)
qed

end
