(* ===== verification/Wire_Connection.thy ===== *)
theory Wire_Connection
  imports Noise_Codec Async_Utils
begin

text \<open>
  The two ends of a TCP connection in \<open>protocols/wire\<close>: \<open>connection.rs\<close>, a stream of frames over a codec, which can take
  over what another codec has read, and \<open>server.rs\<close>, the stream of the connections that a listener accepts.
  \<open>Framed\<close> is the record \<open>framed_parts\<close> of \<open>Noise_Codec\<close> beside its socket \<open>'io\<close>.
\<close>

section \<open>Connections\<close>

record ('io, 'c) connection =
  framed_io :: 'io
  framed_stream :: "'c framed_parts"

definition connection_new :: "'c \<Rightarrow> 'io \<Rightarrow> ('io, 'c) connection" where
  "connection_new codec_default stream =
     \<lparr>framed_io = stream, framed_stream = \<lparr>fp_codec = codec_default, read_buf = [], write_buf = []\<rparr>\<rparr>"

definition connection_new_from_parts :: "'c \<Rightarrow> 'io \<Rightarrow> 'd framed_parts \<Rightarrow> ('io, 'c) connection" where
  "connection_new_from_parts codec_default io parts =
     (let new_parts = \<lparr>fp_codec = codec_default, read_buf = [], write_buf = []\<rparr>;
          new_parts = new_parts\<lparr>read_buf := read_buf parts\<rparr>;
          new_parts = new_parts\<lparr>write_buf := write_buf parts\<rparr>
      in \<lparr>framed_io = io, framed_stream = new_parts\<rparr>)"

definition connection_connect :: "'c \<Rightarrow> 'e + 'io \<Rightarrow> 'e + ('io, 'c) connection" where
  "connection_connect codec_default stream = rmap (connection_new codec_default) stream"

definition connection_codec_mut :: "('c \<Rightarrow> 'c) \<Rightarrow> ('io, 'c) connection \<Rightarrow> ('io, 'c) connection" where
  "connection_codec_mut f c = c\<lparr>framed_stream := (framed_stream c)\<lparr>fp_codec := f (fp_codec (framed_stream c))\<rparr>\<rparr>"

text \<open>A hand-over loses nothing that was read or is to be written, and starts with a codec that has seen nothing.\<close>

lemma handover_keeps_buffers:
  "read_buf (framed_stream (connection_new_from_parts d io parts)) = read_buf parts"
  "write_buf (framed_stream (connection_new_from_parts d io parts)) = write_buf parts"
  "connection_new_from_parts d io \<lparr>fp_codec = c, read_buf = [], write_buf = []\<rparr> = connection_new d io"
  by (simp_all add: connection_new_from_parts_def connection_new_def)

section \<open>Server\<close>

text \<open>\<open>'l\<close> is the listener; what it accepts at a poll is given by the environment.\<close>

record 'l wire_server =
  ws_tcp :: "'l option"

definition server_bind :: "'e + 'l \<Rightarrow> 'e option \<Rightarrow> ('l \<Rightarrow> 'e + 'l) \<Rightarrow> 'e + 'l wire_server" where
  "server_bind bound nonblocking_error from_std =
     rbind bound (\<lambda>tcp.
       case nonblocking_error of
         Some e \<Rightarrow> Inl e
       | None \<Rightarrow> rmap (\<lambda>tcp. \<lparr>ws_tcp = Some tcp\<rparr>) (from_std tcp))"

definition server_shutdown :: "'l wire_server \<Rightarrow> 'l wire_server" where
  "server_shutdown s = s\<lparr>ws_tcp := None\<rparr>"

definition server_poll_next ::
    "('l \<Rightarrow> ('e + 'io) poll \<times> 'l) \<Rightarrow> 'l wire_server \<Rightarrow> ('e + 'io) option poll \<times> 'l wire_server" where
  "server_poll_next poll_accept s =
     (case ws_tcp s of
        None \<Rightarrow> (Ready None, s)
      | Some tcp \<Rightarrow>
          (case poll_accept tcp of
             (Pending, tcp') \<Rightarrow> (Pending, s\<lparr>ws_tcp := Some tcp'\<rparr>)
           | (Ready r, tcp') \<Rightarrow> (Ready (Some r), s\<lparr>ws_tcp := Some tcp'\<rparr>)))"

text \<open>What \<open>n\<close> polls give: the ends of the polls of the listener, errors included.\<close>

fun server_polls :: "('l \<Rightarrow> ('e + 'io) poll \<times> 'l) \<Rightarrow> nat \<Rightarrow> 'l wire_server \<Rightarrow> ('e + 'io) option poll list" where
  "server_polls pa 0 s = []"
| "server_polls pa (Suc n) s = (case server_poll_next pa s of (p, s') \<Rightarrow> p # server_polls pa n s')"

fun listener_polls :: "('l \<Rightarrow> ('e + 'io) poll \<times> 'l) \<Rightarrow> nat \<Rightarrow> 'l \<Rightarrow> ('e + 'io) poll list" where
  "listener_polls pa 0 l = []"
| "listener_polls pa (Suc n) l = (case pa l of (p, l') \<Rightarrow> p # listener_polls pa n l')"

text \<open>An accept that fails does not end the stream; a shutdown ends it for good.\<close>

lemma server_stream:
  "server_polls pa n \<lparr>ws_tcp = Some l\<rparr> = map (poll_map Some) (listener_polls pa n l)"
  "server_polls pa n (server_shutdown s) = replicate n (Ready None)"
proof -
  show "server_polls pa n \<lparr>ws_tcp = Some l\<rparr> = map (poll_map Some) (listener_polls pa n l)"
    by (induction n arbitrary: l) (simp_all add: server_poll_next_def split: prod.split poll.split)
  show "server_polls pa n (server_shutdown s) = replicate n (Ready None)"
    by (induction n) (simp_all add: server_poll_next_def server_shutdown_def)
qed

end
