(* ===== verification/Wire_Session.thy ===== *)
theory Wire_Session
  imports Wire_Connection Proxy_Acceptor V1_Framing V2_Messages
begin

text \<open>
  A connection from its PROXY header to its frames: what \<open>protocols/wire/src/proxy.rs\<close> makes of an accepted stream
  (\<open>Connection\<close>, \<open>Framed\<close>, \<open>FramedParts\<close>), and the frames of \<open>protocols/stratum\<close> that are read from it. The V1 frames go
  from the proxy to a pool, the V2 frames from a miner to the proxy.
\<close>

section \<open>Streams of V2 frames\<close>

text \<open>
  \<open>LengthDelimitedCodec\<close> over a stream, with the parameters of \<open>length_delimited\<close>: between two reads it remembers that it
  has seen a header. \<open>ready s b\<close> holds when what \<open>s\<close> remembers fits the buffer \<open>b\<close>.
\<close>

abbreviation body_len :: "bytes \<Rightarrow> nat" where
  "body_len h \<equiv> of_le (take LEN_SIZE (drop LEN_OFFSET h))"

definition ld_stream :: "'s ld_codec \<Rightarrow> 's \<Rightarrow> nat \<Rightarrow> ('s \<Rightarrow> bytes \<Rightarrow> bool) \<Rightarrow> bool" where
  "ld_stream ldc s0 lim ready \<longleftrightarrow>
     (\<forall>b. ready s0 b) \<and> (\<forall>s b c. ready s b \<longrightarrow> ready s (b @ c)) \<and>
     (\<forall>s b. ready s b \<longrightarrow> length b < HEADER_SIZE \<longrightarrow> (\<exists>s'. ldc s b = (s', b, Inr None) \<and> ready s' b)) \<and>
     (\<forall>s h body. ready s (h @ body) \<longrightarrow> length h = HEADER_SIZE \<longrightarrow> length body < body_len h \<longrightarrow> body_len h \<le> lim \<longrightarrow>
        (\<exists>s'. ldc s (h @ body) = (s', h @ body, Inr None) \<and> ready s' (h @ body))) \<and>
     (\<forall>s h body rest. ready s (h @ body @ rest) \<longrightarrow> length h = HEADER_SIZE \<longrightarrow> length body = body_len h \<longrightarrow> body_len h \<le> lim \<longrightarrow>
        (\<exists>s'. ldc s (h @ body @ rest) = (s', rest, Inr (Some (h @ body))) \<and> (\<forall>b. ready s' b)))"

lemma ld_laws:
  assumes "ld_stream ldc s0 lim ready"
  shows "ready s0 b" and "ready s b \<Longrightarrow> ready s (b @ c)"
    and "ready s b \<Longrightarrow> length b < HEADER_SIZE \<Longrightarrow> \<exists>s'. ldc s b = (s', b, Inr None) \<and> ready s' b"
    and "ready s (h @ body) \<Longrightarrow> length h = HEADER_SIZE \<Longrightarrow> length body < body_len h \<Longrightarrow> body_len h \<le> lim \<Longrightarrow>
      \<exists>s'. ldc s (h @ body) = (s', h @ body, Inr None) \<and> ready s' (h @ body)"
    and "ready s (h @ body @ rest) \<Longrightarrow> length h = HEADER_SIZE \<Longrightarrow> length body = body_len h \<Longrightarrow> body_len h \<le> lim \<Longrightarrow>
      \<exists>s'. ldc s (h @ body @ rest) = (s', rest, Inr (Some (h @ body))) \<and> (\<forall>b. ready s' b)"
  using assms unfolding ld_stream_def by blast+

text \<open>A frame as its header and the bytes of its payload.\<close>

type_synonym v2_item = "header \<times> bytes"

definition item_header :: "v2_item \<Rightarrow> header" where
  "item_header m = (fst m)\<lparr>msg_length := Some (of_nat (length (snd m)))\<rparr>"

definition item_wire :: "v2_item \<Rightarrow> bytes" where
  "item_wire m = header_bytes (item_header m) @ snd m"

definition item_frame :: "v2_item \<Rightarrow> 'p frame" where
  "item_frame m = \<lparr>frame_header = item_header m, frame_payload = SerializedBytes (snd m)\<rparr>"

definition item_good :: "nat \<Rightarrow> v2_item \<Rightarrow> bool" where
  "item_good lim m \<longleftrightarrow> length (snd m) \<le> lim \<and> length (snd m) < 2 ^ 24 \<and> extension_type (fst m) < 0x8000"

definition part_of_frame :: "nat \<Rightarrow> bytes \<Rightarrow> bool" where
  "part_of_frame lim b \<longleftrightarrow>
     length b < HEADER_SIZE \<or> (length b < HEADER_SIZE + body_len b \<and> body_len b \<le> lim)"

lemma item_laws:
  assumes "item_good lim m"
  shows "length (header_bytes (item_header m)) = HEADER_SIZE"
    and "body_len (header_bytes (item_header m)) = length (snd m)"
    and "frame_deserialize (item_wire m) = Inr (item_frame m :: 'p frame)"
proof -
  from assms have l: "length (snd m) < 2 ^ 24" and e: "extension_type (fst m) < 0x8000" by (auto simp: item_good_def)
  show "length (header_bytes (item_header m)) = HEADER_SIZE"
    by (rule length_header_bytes [where n = "of_nat (length (snd m))"]) (simp add: item_header_def)
  show "body_len (header_bytes (item_header m)) = length (snd m)"
    unfolding item_header_def by (rule header_bytes_len_field [OF l])
  show "frame_deserialize (item_wire m) = Inr (item_frame m :: 'p frame)"
    unfolding item_wire_def item_frame_def item_header_def
    by (rule frame_deserialize_bytes [OF valid_header_len [OF e l]]) (simp, rule unat_len [OF l])
qed

lemma body_len_append: "HEADER_SIZE \<le> length h \<Longrightarrow> body_len (h @ b) = body_len h"
  by (simp add: header_consts)

lemma part_of_item:
  assumes g: "item_good lim m" and w: "item_wire m = b @ c" and c: "c \<noteq> []"
  shows "part_of_frame lim b"
proof (cases "length b < HEADER_SIZE")
  case False
  note laws = item_laws [OF g]
  have len: "length b < HEADER_SIZE + length (snd m)"
    using arg_cong [OF w, of length] laws(1) c by (simp add: item_wire_def)
  from False have "body_len b = length (snd m)"
    by (metis body_len_append item_wire_def laws(1,2) not_less order_refl w)
  with len g show ?thesis by (simp add: part_of_frame_def item_good_def)
qed (simp add: part_of_frame_def)

lemma whole_item:
  assumes "item_good lim m"
  shows "\<not> part_of_frame lim (item_wire m @ rest)"
proof -
  note laws = item_laws [OF assms]
  have "HEADER_SIZE \<le> length (header_bytes (item_header m))" by (simp only: laws(1) order_refl)
  from trans [OF body_len_append [OF this] laws(2)] have "body_len (item_wire m @ rest) = length (snd m)"
    unfolding item_wire_def append.assoc .
  moreover have "length (item_wire m @ rest) = HEADER_SIZE + length (snd m) + length rest" using laws(1) by (simp add: item_wire_def)
  ultimately show ?thesis unfolding part_of_frame_def by linarith
qed

lemma item_decoded:
  assumes "ld_stream ldc s0 lim ready" and "item_good lim m" and "ready s (item_wire m @ rest)"
  shows "\<exists>s'. codec_decode ldc s (item_wire m @ rest) = (s', rest, Inr (Some (item_frame m))) \<and> (\<forall>b. ready s' b)"
proof -
  note laws = item_laws [OF assms(2)]
  have lim: "length (snd m) \<le> lim" using assms(2) by (simp add: item_good_def)
  from ld_laws(5) [OF assms(1) _ laws(1), of s "snd m" rest] assms(3) laws(2) lim obtain s' where
    "ldc s (item_wire m @ rest) = (s', rest, Inr (Some (item_wire m)))" "\<forall>b. ready s' b"
    unfolding item_wire_def append.assoc by metis
  then show ?thesis by (simp add: codec_decode_def laws(3))
qed

text \<open>The V2 codec keeps the contract of frame codecs.\<close>

locale v2_wire =
  fixes ldc :: "'s ld_codec" and s0 :: 's and lim :: nat and ready :: "'s \<Rightarrow> bytes \<Rightarrow> bool"
  assumes delimited: "ld_stream ldc s0 lim ready"

sublocale v2_wire \<subseteq>
  frame_codec "codec_decode ldc" "\<lambda>_. []" ready "\<lambda>_. list_all (item_good lim)" "item_good lim" item_wire item_frame "part_of_frame lim"
proof
  fix s b c ms
  show "ready s b \<Longrightarrow> ready s (b @ c)" by (rule ld_laws(2) [OF delimited])
  show "part_of_frame lim (b @ c) \<Longrightarrow> part_of_frame lim b"
    using body_len_append [of b c] by (auto simp: part_of_frame_def not_less)
  show "\<exists>s' b'. codec_decode ldc s b = (s', b', Inr None) \<and> [] @ b' = [] @ b \<and> ready s' b' \<and> list_all (item_good lim) ms"
    if r: "ready s b" and g: "list_all (item_good lim) ms" and p: "part_of_frame lim ([] @ b)"
  proof -
    have "\<exists>s'. ldc s b = (s', b, Inr None) \<and> ready s' b"
    proof (cases "length b < HEADER_SIZE")
      case True
      from ld_laws(3) [OF delimited r True] show ?thesis .
    next
      case False
      let ?h = "take HEADER_SIZE b" and ?d = "drop HEADER_SIZE b"
      from False have h: "length ?h = HEADER_SIZE" "?h @ ?d = b" by simp_all
      with body_len_append [of ?h ?d] have "body_len b = body_len ?h" by (simp only: order_refl)
      with p False have "length ?d < body_len ?h" "body_len ?h \<le> lim" by (auto simp: part_of_frame_def)
      from ld_laws(4) [OF delimited _ h(1) this, unfolded h(2), OF r] show ?thesis .
    qed
    with g show ?thesis by (auto simp: codec_decode_def)
  qed
next
  show "\<And>m b c. item_good lim m \<Longrightarrow> item_wire m = b @ c \<Longrightarrow> c \<noteq> [] \<Longrightarrow> part_of_frame lim b" by (rule part_of_item)
  show "\<And>m rest. item_good lim m \<Longrightarrow> \<not> part_of_frame lim (item_wire m @ rest)" by (rule whole_item)
  show "\<And>ms. list_all (item_good lim) ms \<Longrightarrow> list_all (item_good lim) ms" .
next
  fix s b m ms rest
  assume r: "ready s b" and g: "list_all (item_good lim) (m # ms)" and b: "[] @ b = item_wire m @ rest"
  then have "\<exists>s'. codec_decode ldc s b = (s', rest, Inr (Some (item_frame m))) \<and> (\<forall>b. ready s' b)"
    using item_decoded [OF delimited, of m s rest] by simp
  with g show "\<exists>s'. codec_decode ldc s b = (s', rest, Inr (Some (item_frame m))) \<and> [] = [] \<and> ready s' rest \<and> list_all (item_good lim) ms"
    by auto
qed

context v2_wire
begin

lemma frames_fed:
  assumes "concat pieces = wires item_wire ms" and "list_all (item_good lim) ms"
  shows "\<exists>s'. feed_frames (codec_decode ldc) s0 [] pieces = Some (map item_frame ms, s', [], None)"
  using feed_items [OF ld_laws(1) [OF delimited] assms(2), of "[]" pieces "[]"] assms(1)
  by (auto simp: part_of_frame_def HEADER_SIZE_def)

end

lemma ld_stream_simple: "ld_stream (simple_ld lim) () lim (\<lambda>_ _. True)"
  by (auto simp: ld_stream_def simple_ld_def Let_def header_consts)

interpretation simple_v2: v2_wire "simple_ld lim" "()" lim "\<lambda>_ _. True"
  by unfold_locales (rule ld_stream_simple)

section \<open>Sending\<close>

text \<open>\<open>Framed::send\<close> flushes: every frame is encoded into an empty buffer.\<close>

fun send_messages :: "v2_message list \<Rightarrow> stratum_error + bytes" where
  "send_messages [] = Inr []"
| "send_messages (m # ms) =
     rbind (frame_of_message m) (\<lambda>f.
       case codec_encode serialize_message f [] of
         (Inl e, _) \<Rightarrow> Inl e
       | (Inr _, b) \<Rightarrow> rmap (\<lambda>bs. b @ bs) (send_messages ms))"

definition message_item :: "v2_message \<Rightarrow> v2_item" where
  "message_item m =
     (\<lparr>is_channel_message = is_channel_msg (kind_of m), extension_type = msg_extension (kind_of m),
       msg_type = msg_id (kind_of m), msg_length = None\<rparr>, serialized (msg_sval m))"

lemma message_item_good:
  assumes "wf_msg m" and "2 ^ 18 \<le> lim"
  shows "item_good lim (message_item m)"
proof -
  have "length (serialized (msg_sval m)) < 2 ^ 18" using serialize_message_wf [OF assms(1)] by simp
  moreover have "msg_extension (kind_of m) < 0x8000" by (cases "kind_of m") (simp_all add: BASE_def TELEMETRY_def)
  ultimately show ?thesis using assms(2) by (simp add: item_good_def message_item_def)
qed

lemma message_item_sent:
  assumes "wf_msg m"
  shows "\<exists>f. frame_of_message m = Inr f \<and> codec_encode serialize_message f [] = (Inr (), item_wire (message_item m))"
proof -
  let ?h = "fst (message_item m)"
  have f: "frame_of_message m = Inr \<lparr>frame_header = ?h, frame_payload = LazyBytes m\<rparr>"
    by (simp add: frame_of_message_def from_serializable_payload_def header_new_def MAX_LEN_def message_item_def)
  have "serialize_to_writer serialize_message (LazyBytes m) = Inr (serialized (msg_sval m))"
    using serialize_message_wf [OF assms] by (simp add: serialize_to_writer_def)
  from frame_serialize_into [of serialize_message "\<lparr>frame_header = ?h, frame_payload = LazyBytes m\<rparr>", simplified, OF this, of "[]"]
  show ?thesis by (simp add: f codec_encode_def item_wire_def item_header_def) (simp add: message_item_def)
qed

lemma messages_sent:
  "list_all wf_msg ms \<Longrightarrow> send_messages ms = Inr (wires item_wire (map message_item ms))"
proof (induction ms)
  case (Cons m ms)
  with message_item_sent [of m] show ?case by auto
qed simp

lemma message_item_read:
  assumes "wf_msg m"
  shows "message_of_frame (kind_of m) (item_frame (message_item m)) = Inr m" "get_id (item_frame (message_item m)) = msg_id (kind_of m)"
    "extension_type (frame_header (item_frame (message_item m))) = msg_extension (kind_of m)"
  by (simp_all add: message_of_frame_def item_frame_def item_header_def message_item_def into_bytes_mut_def
      message_of_serialized [OF assms] get_id_def)

section \<open>Accepted streams\<close>

definition acceptor_default :: bool where "acceptor_default = False"

definition acceptor_new :: bool where "acceptor_new = acceptor_default"

definition require_proxy_header :: "bool \<Rightarrow> bool \<Rightarrow> bool" where
  "require_proxy_header acceptor require = require"

definition proxy_stream_new ::
    "v1_codec framed_next \<Rightarrow> v2_codec framed_next \<Rightarrow> reads \<Rightarrow> proxy_error + proxy_stream" where
  "proxy_stream_new next1 next2 stream = accept_auto acceptor_default next1 next2 stream"

definition into_framed_parts :: "'c \<Rightarrow> proxy_stream \<Rightarrow> reads \<times> 'c framed_parts" where
  "into_framed_parts codec_default ps =
     (let parts = \<lparr>fp_codec = codec_default, read_buf = [], write_buf = []\<rparr>
      in (ps_inner ps, parts\<lparr>read_buf := ps_buf ps\<rparr>))"

definition framed_parts_from :: "'c \<Rightarrow> proxy_stream \<Rightarrow> reads \<times> 'c framed_parts" where
  "framed_parts_from codec_default ps =
     (let parts = \<lparr>fp_codec = codec_default, read_buf = [], write_buf = []\<rparr>
      in (ps_inner ps, parts\<lparr>read_buf := ps_buf ps\<rparr>))"

definition framed_from :: "'c \<Rightarrow> proxy_stream \<Rightarrow> (reads, 'c) connection" where
  "framed_from codec_default ps =
     (case framed_parts_from codec_default ps of (io, parts) \<Rightarrow> \<lparr>framed_io = io, framed_stream = parts\<rparr>)"

definition connection_from :: "'c \<Rightarrow> proxy_stream \<Rightarrow> (reads, 'c) connection" where
  "connection_from codec_default ps =
     (let parts = \<lparr>fp_codec = codec_default, read_buf = [], write_buf = []\<rparr>
      in \<lparr>framed_io = ps_inner ps, framed_stream = parts\<lparr>read_buf := ps_buf ps\<rparr>\<rparr>)"

definition wire_connector_connect ::
    "protocol_version \<Rightarrow> (bytes \<Rightarrow> bytes) \<Rightarrow> string + 'io \<Rightarrow> (bytes \<Rightarrow> string + nat) \<Rightarrow>
     socket_addr option \<Rightarrow> socket_addr option \<Rightarrow> (proxy_error + 'io) \<times> bytes" where
  "wire_connector_connect version print6 tcp_connect write_fn source destination =
     (case tcp_connect of
        Inl e \<Rightarrow> (Inl (ProxyIo e), [])
      | Inr stream \<Rightarrow>
          (case write_proxy_header version print6 write_fn source destination of
             (Inl e, out) \<Rightarrow> (Inl e, out)
           | (Inr _, out) \<Rightarrow> (Inr stream, out)))"

text \<open>The reads that a stream still has, and the frames that a connection gives until its stream ends.\<close>

fun stream_pieces :: "reads \<Rightarrow> bytes list" where
  "stream_pieces [] = []"
| "stream_pieces (Inl e # rs) = []"
| "stream_pieces (Inr c # rs) = (if c = [] then [] else c # stream_pieces rs)"

definition connection_frames :: "('s, 'e, 'f) frame_decoder \<Rightarrow> (reads, 's) connection \<Rightarrow> ('s, 'e, 'f) frames_read option" where
  "connection_frames dec c =
     feed_frames dec (fp_codec (framed_stream c)) [] (read_buf (framed_stream c) # stream_pieces (framed_io c))"

lemma concat_stream_pieces: "concat (stream_pieces rs) = stream_data rs"
  by (induction rs rule: stream_pieces.induct) auto

lemma connection_from_frames:
  "connection_frames dec (connection_from d ps) = feed_frames dec d [] (ps_buf ps # stream_pieces (ps_inner ps))"
  "concat (ps_buf ps # stream_pieces (ps_inner ps)) = ps_buf ps @ stream_data (ps_inner ps)"
  by (simp_all add: connection_frames_def connection_from_def concat_stream_pieces)

text \<open>The four ways to go on with an accepted stream are one, and none of them loses what the acceptor has read.\<close>

lemma accepted_stream_views:
  "framed_from d ps = connection_from d ps" "framed_parts_from d ps = into_framed_parts d ps"
  "connection_from d ps = connection_new_from_parts d (fst (into_framed_parts d ps)) (snd (into_framed_parts d ps))"
  "try_into_inner ps = Inr rs \<Longrightarrow> connection_from d ps = connection_new d rs"
  by (simp_all add: framed_from_def framed_parts_from_def connection_from_def into_framed_parts_def
      connection_new_from_parts_def try_into_inner_def connection_new_def split: if_split_asm)

section \<open>Properties\<close>

text \<open>
  C14. From the miner to the proxy, through a load balancer: the balancer writes a PROXY header of either version, the miner
  V2 messages. However the bytes are cut into reads, also across the end of the header, the proxy accepts the stream, knows
  the addresses of the header, and the connection that it makes of the stream gives exactly the messages that were sent,
  in their order, each with its id and extension.
\<close>

theorem proxied_messages:
  assumes "framed_contract next1 (v1_decode parse6)" and "framed_contract next2 v2_decode"
    and "ipv6_text parse6 print6" and "ld_stream ldc s0 lim ready" and "2 ^ 18 \<le> lim"
    and "proxy_info_try_from source destination = Inr i" and "wf_info i"
    and "write_proxy_header version print6 (\<lambda>data. Inr (length data)) source destination = (Inr (), h)"
    and "list_all wf_msg ms"
  shows "\<exists>w. send_messages ms = Inr w \<and>
    (\<forall>cs. [] \<notin> set cs \<and> concat cs = h @ w \<longrightarrow>
      (\<exists>ps frames s'. accept_auto require next1 next2 (map Inr cs) = Inr ps \<and> stream_proxy_info ps = Inr i \<and>
         connection_frames (codec_decode ldc) (connection_from s0 ps) = Some (frames, s', [], None) \<and>
         list_all2 (\<lambda>m g. message_of_frame (kind_of m) g = Inr m \<and> get_id g = msg_id (kind_of m) \<and>
           extension_type (frame_header g) = msg_extension (kind_of m)) ms frames))"
proof -
  let ?w = "wires item_wire (map message_item ms)"
  have good: "list_all (item_good lim) (map message_item ms)"
    using assms(9) message_item_good [OF _ assms(5)] by (auto simp: list_all_iff)
  have read: "list_all2 (\<lambda>m g. message_of_frame (kind_of m) g = Inr m \<and> get_id g = msg_id (kind_of m) \<and>
      extension_type (frame_header g) = msg_extension (kind_of m)) ms (map item_frame (map message_item ms))"
    using assms(9) message_item_read by (auto simp: list_all2_map2 list_all_iff intro!: list.rel_refl_strong)
  have "\<exists>ps frames s'. accept_auto require next1 next2 (map Inr cs) = Inr ps \<and> stream_proxy_info ps = Inr i \<and>
      connection_frames (codec_decode ldc) (connection_from s0 ps) = Some (frames, s', [], None) \<and>
      frames = map item_frame (map message_item ms)" if cs: "[] \<notin> set cs" "concat cs = h @ ?w" for cs
  proof -
    from connector_accepted [OF assms(1-3,6-8) cs] obtain ps where ps: "accept_auto require next1 next2 (map Inr cs) = Inr ps"
      "ps_source ps = source" "ps_destination ps = destination" "ps_buf ps @ stream_data (ps_inner ps) = ?w" by blast
    from v2_wire.frames_fed [OF v2_wire.intro [OF assms(4)] connection_from_frames(2) [of ps, unfolded ps(4)] good] ps(1-3) assms(6)
    show ?thesis by (auto simp: connection_from_frames(1) stream_proxy_info_def)
  qed
  with messages_sent [OF assms(9)] read show ?thesis by blast
qed

definition unknown_header :: bytes where
  "unknown_header = ascii ''PROXY UNKNOWN'' @ [0x0d, 0x0a]"

lemma unknown_header_written:
  "proxy_info_try_from None None = Inr proxy_info_default" "wf_info proxy_info_default"
  "write_proxy_header PV1 simple_print6 (\<lambda>data. Inr (length data)) None None = (Inr (), unknown_header)"
proof -
  show "proxy_info_try_from None None = Inr proxy_info_default" by (simp add: proxy_info_default_def)
  show "wf_info proxy_info_default" by (simp add: wf_info_def proxy_info_default_def)
  show "write_proxy_header PV1 simple_print6 (\<lambda>data. Inr (length data)) None None = (Inr (), unknown_header)" by code_simp
qed

lemmas unknown_header_session = framed_contract_simple framed_contract_simple ipv6_text_simple

theorem proxied_messages_witness:
  "\<exists>w ps g s'. send_messages [example_message] = Inr w \<and>
     accept_auto True (simple_framed (v1_decode simple_parse6)) (simple_framed v2_decode)
       (map Inr [take 7 unknown_header, drop 7 unknown_header @ w]) = Inr ps \<and>
     connection_frames (codec_decode (simple_ld (2 ^ 23))) (connection_from () ps) = Some ([g], s', [], None) \<and>
     message_of_frame K_SubmitSharesError g = Inr example_message"
proof -
  have m: "list_all wf_msg [example_message]"
    by (simp add: example_message_def wf_SubmitSharesError_def wf_str_def in_bounds_def)
  have k: "kind_of example_message = K_SubmitSharesError" by (simp add: example_message_def)
  have lim: "2 ^ 18 \<le> (2 ^ 23 :: nat)" by simp
  obtain w where w: "send_messages [example_message] = Inr w" and
    all: "\<forall>cs. [] \<notin> set cs \<and> concat cs = unknown_header @ w \<longrightarrow>
      (\<exists>ps frames s'. accept_auto True (simple_framed (v1_decode simple_parse6)) (simple_framed v2_decode) (map Inr cs) = Inr ps \<and>
        stream_proxy_info ps = Inr proxy_info_default \<and>
        connection_frames (codec_decode (simple_ld (2 ^ 23))) (connection_from () ps) = Some (frames, s', [], None) \<and>
        list_all2 (\<lambda>m g. message_of_frame (kind_of m) g = Inr m \<and> get_id g = msg_id (kind_of m) \<and>
          extension_type (frame_header g) = msg_extension (kind_of m)) [example_message] frames)"
    using proxied_messages [OF unknown_header_session ld_stream_simple lim unknown_header_written m] by blast
  have "[] \<notin> set [take 7 unknown_header, drop 7 unknown_header @ w]" by (simp add: unknown_header_def ascii_def)
  with spec [OF all, of "[take 7 unknown_header, drop 7 unknown_header @ w]"] obtain ps frames s' where
    ps: "accept_auto True (simple_framed (v1_decode simple_parse6)) (simple_framed v2_decode)
      (map Inr [take 7 unknown_header, drop 7 unknown_header @ w]) = Inr ps"
    "connection_frames (codec_decode (simple_ld (2 ^ 23))) (connection_from () ps) = Some (frames, s', [], None)"
    "list_all2 (\<lambda>m g. message_of_frame (kind_of m) g = Inr m \<and> get_id g = msg_id (kind_of m) \<and>
      extension_type (frame_header g) = msg_extension (kind_of m)) [example_message] frames" by auto
  from ps(3) obtain g where "frames = [g]" "message_of_frame K_SubmitSharesError g = Inr example_message"
    by (auto simp: list_all2_Cons1 k)
  with w ps(1,2) show ?thesis by blast
qed

text \<open>
  C22. From the proxy to the pool: after the PROXY header come V1 frames. Frames whose texts are lines are all encoded; however
  the bytes are cut into reads, a pool that uses this library accepts the stream, knows the addresses of the header, and
  its connection gives equal frames in the same order, from which it makes the same messages.
\<close>

theorem proxied_lines:
  fixes L :: "'l lines_lib" and frames :: "v1_rpc payload list"
  assumes "framed_contract next1 (v1_decode parse6)" and "framed_contract next2 v2_decode"
    and "ipv6_text parse6 print6" and "lines_contract L searched"
    and "proxy_info_try_from source destination = Inr i" and "wf_info i"
    and "wire_connector_connect version print6 (Inr io) (\<lambda>data. Inr (length data)) source destination = (Inr io, h)"
    and "list_all (\<lambda>f. line_of ser f \<noteq> None) frames" and "v1_encode_all ser frames [] = (w, encoded)"
    and "[] \<notin> set cs" and "concat cs = h @ w"
  shows "encoded = Inr () \<and>
    (\<exists>ps frames' s'. accept_auto require next1 next2 (map Inr cs) = Inr ps \<and> stream_proxy_info ps = Inr i \<and>
       connection_frames (v1_codec_decode L) (connection_from (v1_codec_default L) ps) = Some (frames', s', [], None) \<and>
       list_all2 (payload_eq ser) frames frames' \<and> map (rpc_of_frame ser pj) frames' = map (rpc_of_frame ser pj) frames)"
proof -
  have "write_proxy_header version print6 (\<lambda>data. Inr (length data)) source destination = (Inr (), h)"
    using assms(7) by (auto simp: wire_connector_connect_def split: prod.split_asm sum.split_asm)
  from connector_accepted [OF assms(1-3,5,6) this assms(10,11)] obtain ps where
    ps: "accept_auto require next1 next2 (map Inr cs) = Inr ps" "ps_source ps = source" "ps_destination ps = destination"
      "ps_buf ps @ stream_data (ps_inner ps) = w" by blast
  from v1_stream_roundtrip [OF assms(4,8,9) connection_from_frames(2) [of ps, unfolded ps(4)], of pj] ps(1-3) assms(5)
  show ?thesis by (auto simp: connection_from_frames(1) stream_proxy_info_def)
qed

theorem proxied_lines_witness:
  "\<exists>ps s'. accept_auto True (simple_framed (v1_decode simple_parse6)) (simple_framed v2_decode)
       (map Inr [take 7 unknown_header, drop 7 unknown_header @ ascii ''[1'', ascii '']'' @ [NL]]) = Inr ps \<and>
     connection_frames (v1_codec_decode plain_lines) (connection_from (v1_codec_default plain_lines) ps) =
       Some ([word_frame (ascii ''[1]'')], s', [], None)"
proof -
  define ser :: "v1_rpc serialize_fn" where "ser = (\<lambda>_. Inl Format)"
  let ?cs = "[take 7 unknown_header, drop 7 unknown_header @ ascii ''[1'', ascii '']'' @ [NL]]"
  have lines: "list_all (\<lambda>f. line_of ser f \<noteq> None) [word_frame (ascii ''[1]'')]"
    unfolding ser_def word_frame_def line_of_def to_bytes_mut_def by code_simp
  have wire: "v1_encode_all ser [word_frame (ascii ''[1]'')] [] = (ascii ''[1]'' @ [NL], Inr ())"
    unfolding ser_def word_frame_def by code_simp
  have conn: "wire_connector_connect PV1 simple_print6 (Inr ()) (\<lambda>data. Inr (length data)) None None = (Inr (), unknown_header)"
    by (simp add: wire_connector_connect_def unknown_header_written(3))
  have cs: "[] \<notin> set ?cs" "concat ?cs = unknown_header @ ascii ''[1]'' @ [NL]"
    by (simp_all add: unknown_header_def ascii_def)
  have "x = word_frame t" if "payload_eq ser (word_frame t) x" for t x
    using that by (cases x) (simp_all add: payload_eq_def word_frame_def ser_def to_bytes_mut_def)
  moreover obtain ps frames' s' where "accept_auto True (simple_framed (v1_decode simple_parse6)) (simple_framed v2_decode)
      (map Inr ?cs) = Inr ps" "connection_frames (v1_codec_decode plain_lines) (connection_from (v1_codec_default plain_lines) ps) =
      Some (frames', s', [], None)" "list_all2 (payload_eq ser) [word_frame (ascii ''[1]'')] frames'"
    using proxied_lines [OF unknown_header_session plain_lines_contract unknown_header_written(1,2) conn lines wire cs, of True] by blast
  ultimately show ?thesis by (auto simp: list_all2_Cons1)
qed

end
