(* ===== verification/Noise_Stream.thy ===== *)
theory Noise_Stream
  imports Wire_Session Noise_Server
begin

text \<open>
  An encrypted connection over a real stream: \<open>Noise_Codec\<close> shows that the two ends of a connection are a queue when the bytes
  between them are whole; here they arrive in reads that end anywhere, within a length field, within an encrypted message,
  or while the handshake is still being read. The compound codec is one more \<open>frame_codec\<close>, whose state is the
  transport state of \<open>snow\<close>.
\<close>

section \<open>The length-delimited codec of noise messages\<close>

text \<open>
  With the default \<open>num_skip\<close> the codec takes the length field out of the buffer before the body is there and remembers it: \<open>held\<close>.
\<close>

definition part_of_message :: "bytes \<Rightarrow> bool" where
  "part_of_message b \<longleftrightarrow> length b < 2 \<or> length b < 2 + of_le (take 2 b)"

definition noise_delimited ::
    "'s ld_codec \<Rightarrow> 's \<Rightarrow> ('s \<Rightarrow> bytes) \<Rightarrow> ('s \<Rightarrow> bytes \<Rightarrow> bool) \<Rightarrow> (bytes \<Rightarrow> bytes \<Rightarrow> string + bytes) \<Rightarrow> bool" where
  "noise_delimited ldc s0 held ready lde \<longleftrightarrow>
     held s0 = [] \<and> (\<forall>b. ready s0 b) \<and> (\<forall>s b c. ready s b \<longrightarrow> ready s (b @ c)) \<and>
     (\<forall>s b. ready s b \<longrightarrow> part_of_message (held s @ b) \<longrightarrow>
        (\<exists>s' b'. ldc s b = (s', b', Inr None) \<and> held s' @ b' = held s @ b \<and> ready s' b')) \<and>
     (\<forall>s b body rest. ready s b \<longrightarrow> length body \<le> 65535 \<longrightarrow> held s @ b = le_bytes 2 (length body) @ body @ rest \<longrightarrow>
        (\<exists>s'. ldc s b = (s', rest, Inr (Some body)) \<and> held s' = [] \<and> ready s' rest)) \<and>
     (\<forall>body dst. length body \<le> 65535 \<longrightarrow> lde body dst = Inr (dst @ le_bytes 2 (length body) @ body))"

lemma noise_delimited_laws:
  assumes "noise_delimited ldc s0 held ready lde"
  shows "held s0 = []" "ready s0 b" "ready s b \<Longrightarrow> ready s (b @ c)"
    and "ready s b \<Longrightarrow> part_of_message (held s @ b) \<Longrightarrow>
      \<exists>s' b'. ldc s b = (s', b', Inr None) \<and> held s' @ b' = held s @ b \<and> ready s' b'"
    and "ready s b \<Longrightarrow> length body \<le> 65535 \<Longrightarrow> held s @ b = le_bytes 2 (length body) @ body @ rest \<Longrightarrow>
      \<exists>s'. ldc s b = (s', rest, Inr (Some body)) \<and> held s' = [] \<and> ready s' rest"
    and "length body \<le> 65535 \<Longrightarrow> lde body dst = Inr (dst @ le_bytes 2 (length body) @ body)"
  using assms unfolding noise_delimited_def by blast+

text \<open>Such a codec: its state is the length of the body it waits for.\<close>

definition take_body :: "nat \<Rightarrow> bytes \<Rightarrow> nat option \<times> bytes \<times> (string + bytes option)" where
  "take_body n src = (if length src < n then (Some n, src, Inr None) else (None, drop n src, Inr (Some (take n src))))"

definition skipping_ld :: "nat option ld_codec" where
  "skipping_ld s src =
     (case s of
        Some n \<Rightarrow> take_body n src
      | None \<Rightarrow> if length src < 2 then (None, src, Inr None) else take_body (of_le (take 2 src)) (drop 2 src))"

definition held_length :: "nat option \<Rightarrow> bytes" where
  "held_length s = (case s of None \<Rightarrow> [] | Some n \<Rightarrow> le_bytes 2 n)"

definition length_fits :: "nat option \<Rightarrow> bytes \<Rightarrow> bool" where
  "length_fits s b = (case s of None \<Rightarrow> True | Some n \<Rightarrow> n \<le> 65535)"

lemma le_bytes_2_take: "2 \<le> length b \<Longrightarrow> le_bytes 2 (of_le (take 2 b)) = take 2 b \<and> of_le (take 2 b) \<le> 65535"
  using of_le_bound [of "take 2 b"] le_bytes_of_le [of "take 2 b"] by (simp add: numeral_2_eq_2)

lemma of_le_2: "n \<le> 65535 \<Longrightarrow> of_le (le_bytes 2 n) = n"
  by (rule of_le_le_bytes) simp

lemmas skipping_defs = skipping_ld_def take_body_def held_length_def length_fits_def

lemma skipping_ld_waits:
  assumes "length_fits s b" and "part_of_message (held_length s @ b)"
  shows "\<exists>s' b'. skipping_ld s b = (s', b', Inr None) \<and> held_length s' @ b' = held_length s @ b \<and> length_fits s' b'"
proof (cases s)
  case (Some n)
  with assms have "length b < n" by (simp add: skipping_defs part_of_message_def of_le_2)
  with Some assms(1) show ?thesis by (simp add: skipping_defs)
next
  case None
  show ?thesis
  proof (cases "length b < 2")
    case True
    with None show ?thesis by (simp add: skipping_defs)
  next
    case False
    with None assms(2) le_bytes_2_take [of b] have "length (drop 2 b) < of_le (take 2 b)" "of_le (take 2 b) \<le> 65535"
      "le_bytes 2 (of_le (take 2 b)) @ drop 2 b = b" by (auto simp: held_length_def part_of_message_def)
    with None False show ?thesis by (simp add: skipping_defs)
  qed
qed

lemma skipping_ld_whole:
  assumes "length_fits s b" and "length body \<le> 65535" and "held_length s @ b = le_bytes 2 (length body) @ body @ rest"
  shows "skipping_ld s b = (None, rest, Inr (Some body))"
proof (cases s)
  case None
  with assms(3) have "b = le_bytes 2 (length body) @ body @ rest" by (simp add: held_length_def)
  with assms(2) None show ?thesis by (simp add: skipping_ld_def take_body_def of_le_2)
next
  case (Some n)
  with assms(3) have "le_bytes 2 n = le_bytes 2 (length body)" "b = body @ rest" by (simp_all add: held_length_def)
  moreover from assms(1) Some have "n \<le> 65535" by (simp add: length_fits_def)
  ultimately have "n = length body" using of_le_2 assms(2) by metis
  with Some \<open>b = body @ rest\<close> show ?thesis by (simp add: skipping_ld_def take_body_def)
qed

lemma skipping_ld_delimited: "noise_delimited skipping_ld None held_length length_fits noise_lde"
  unfolding noise_delimited_def
proof (intro conjI allI impI)
  show "held_length None = []" by (simp add: held_length_def)
  show "length_fits None b" for b by (simp add: length_fits_def)
  show "length_fits s (b @ c)" if "length_fits s b" for s b c using that by (simp add: length_fits_def)
  show "\<exists>s' b'. skipping_ld s b = (s', b', Inr None) \<and> held_length s' @ b' = held_length s @ b \<and> length_fits s' b'"
    if "length_fits s b" "part_of_message (held_length s @ b)" for s b using that by (rule skipping_ld_waits)
  show "\<exists>s'. skipping_ld s b = (s', rest, Inr (Some body)) \<and> held_length s' = [] \<and> length_fits s' rest"
    if "length_fits s b" "length body \<le> 65535" "held_length s @ b = le_bytes 2 (length body) @ body @ rest" for s b body rest
    using skipping_ld_whole [OF that] by (simp add: held_length_def length_fits_def)
  show "noise_lde body dst = Inr (dst @ le_bytes 2 (length body) @ body)" if "length body \<le> 65535" for body dst
    using that by (simp add: noise_lde_def)
qed

section \<open>Encrypted frames\<close>

text \<open>A message and the noise message that carries it; \<open>opens\<close> says that they can be read from a transport state.\<close>

type_synonym sealed = "v2_message \<times> bytes"

definition sealed_wire :: "sealed \<Rightarrow> bytes" where
  "sealed_wire m = le_bytes 2 (length (snd m)) @ snd m"

definition sealed_frame :: "sealed \<Rightarrow> v2_message frame" where
  "sealed_frame m = item_frame (message_item (fst m))"

definition sealed_good :: "sealed \<Rightarrow> bool" where
  "sealed_good m \<longleftrightarrow> wf_msg (fst m) \<and> length (snd m) \<le> MAX_MESSAGE_SIZE"

fun opens :: "('h, 't) snow_lib \<Rightarrow> 't \<Rightarrow> sealed list \<Rightarrow> bool" where
  "opens S u [] = True"
| "opens S u (m # ms) =
     (sealed_good m \<and> (case t_read_message S u (snd m) of (u', r) \<Rightarrow> r = Inr (message_bytes (fst m)) \<and> opens S u' ms))"

lemma opens_good: "opens S u ms \<Longrightarrow> list_all sealed_good ms"
  by (induction ms arbitrary: u) auto

lemma sealed_parts:
  assumes "sealed_good m"
  shows "sealed_wire m = b @ c \<Longrightarrow> c \<noteq> [] \<Longrightarrow> part_of_message b" and "\<not> part_of_message (sealed_wire m @ rest)"
proof -
  from assms have len: "length (snd m) \<le> 65535" by (simp add: sealed_good_def MAX_MESSAGE_SIZE_def)
  show "\<not> part_of_message (sealed_wire m @ rest)"
    by (simp add: part_of_message_def sealed_wire_def of_le_2 [OF len])
  assume w: "sealed_wire m = b @ c" and c: "c \<noteq> []"
  show "part_of_message b"
  proof (cases "length b < 2")
    case False
    then have "take 2 b = le_bytes 2 (length (snd m))"
      using arg_cong [OF w, of "take 2"] by (simp add: sealed_wire_def)
    moreover have "length b < 2 + length (snd m)"
      using arg_cong [OF w, of length] c by (simp add: sealed_wire_def)
    ultimately show ?thesis by (simp add: part_of_message_def of_le_2 [OF len])
  qed (simp add: part_of_message_def)
qed

definition codec_held :: "('s \<Rightarrow> bytes) \<Rightarrow> ('s, 't, 'u) compound_codec \<Rightarrow> bytes" where
  "codec_held held c = (case cc_noise_codec c of None \<Rightarrow> [] | Some n \<Rightarrow> held (nc_codec n))"

definition codec_ready :: "('s \<Rightarrow> bytes \<Rightarrow> bool) \<Rightarrow> ('s, 't, 'u) compound_codec \<Rightarrow> bytes \<Rightarrow> bool" where
  "codec_ready ready c b = (case cc_noise_codec c of None \<Rightarrow> False | Some n \<Rightarrow> ready (nc_codec n) b)"

definition codec_expects ::
    "('h, 't) snow_lib \<Rightarrow> ('u \<Rightarrow> bytes \<Rightarrow> bool) \<Rightarrow> ('s, 't, 'u) compound_codec \<Rightarrow> sealed list \<Rightarrow> bool" where
  "codec_expects S ready2 c ms \<longleftrightarrow> (\<exists>s v u. c = connected s v u \<and> (\<forall>b. ready2 v b) \<and> opens S u ms)"

lemma message_bytes_item: "wf_msg m \<Longrightarrow> message_bytes m = item_wire (message_item m)"
  using message_item_sent [of m] by (auto simp: message_bytes_def)

locale noise_wire =
  fixes S :: "('h, 't) snow_lib" and ldc :: "'s ld_codec" and s0 :: 's and held ready lde
    and ldc2 :: "'u ld_codec" and u0 :: 'u and lim :: nat and ready2
  assumes noise_messages: "noise_delimited ldc s0 held ready lde"
    and inner_frames: "ld_stream ldc2 u0 lim ready2" and inner_limit: "2 ^ 18 \<le> lim"

sublocale noise_wire \<subseteq>
  frame_codec "compound_decode S ldc (codec_decode ldc2)" "codec_held held" "codec_ready ready" "codec_expects S ready2"
    sealed_good sealed_wire sealed_frame part_of_message
proof
  fix c :: "('s, 't, 'u) compound_codec" and b d ms
  show "codec_ready ready c b \<Longrightarrow> codec_ready ready c (b @ d)"
    using noise_delimited_laws(3) [OF noise_messages] by (auto simp: codec_ready_def split: option.split_asm)
  show "codec_expects S ready2 c ms \<Longrightarrow> list_all sealed_good ms" by (auto simp: codec_expects_def dest: opens_good)
  show "part_of_message (b @ d) \<Longrightarrow> part_of_message b" by (auto simp: part_of_message_def)
  show "\<exists>c' b'. compound_decode S ldc (codec_decode ldc2) c b = (c', b', Inr None) \<and>
      codec_held held c' @ b' = codec_held held c @ b \<and> codec_ready ready c' b' \<and> codec_expects S ready2 c' ms"
    if r: "codec_ready ready c b" and e: "codec_expects S ready2 c ms" and p: "part_of_message (codec_held held c @ b)"
  proof -
    from e obtain s v u where c: "c = connected s v u" and v: "\<forall>b. ready2 v b" "opens S u ms" by (auto simp: codec_expects_def)
    with r p noise_delimited_laws(4) [OF noise_messages, of s b] obtain s' b' where
      "ldc s b = (s', b', Inr None)" "held s' @ b' = held s @ b" "ready s' b'"
      by (auto simp: codec_ready_def codec_held_def connected_def)
    with c v show ?thesis
      by (auto simp: compound_decode_def connected_def noise_decode_def codec_held_def codec_ready_def codec_expects_def)
  qed
next
  fix c :: "('s, 't, 'u) compound_codec" and b m ms rest
  assume r: "codec_ready ready c b" and e: "codec_expects S ready2 c (m # ms)" and w: "codec_held held c @ b = sealed_wire m @ rest"
  from e obtain s v u where c: "c = connected s v u" "\<forall>b. ready2 v b" and o: "opens S u (m # ms)" by (auto simp: codec_expects_def)
  from o obtain u' where u': "t_read_message S u (snd m) = (u', Inr (message_bytes (fst m)))" "opens S u' ms" and m: "sealed_good m"
    by (auto split: prod.split_asm)
  from r w c m noise_delimited_laws(5) [OF noise_messages, of s b "snd m" rest] obtain s' where
    s': "ldc s b = (s', rest, Inr (Some (snd m)))" "held s' = []" "ready s' rest"
    by (auto simp: codec_ready_def codec_held_def connected_def sealed_wire_def sealed_good_def MAX_MESSAGE_SIZE_def)
  have "wf_msg (fst m)" using m by (simp add: sealed_good_def)
  from item_decoded [OF inner_frames message_item_good [OF this inner_limit], of v "[]"] c(2) message_bytes_item [OF this]
  obtain v' where "codec_decode ldc2 v (message_bytes (fst m)) = (v', [], Inr (Some (sealed_frame m)))" "\<forall>b. ready2 v' b"
    by (auto simp: sealed_frame_def)
  with c(1) s' u' show "\<exists>c'. compound_decode S ldc (codec_decode ldc2) c b = (c', rest, Inr (Some (sealed_frame m))) \<and>
      codec_held held c' = [] \<and> codec_ready ready c' rest \<and> codec_expects S ready2 c' ms"
    by (auto simp: compound_decode_def connected_def noise_decode_def transport_read_def codec_held_def codec_ready_def codec_expects_def)
next
  show "\<And>m b c. sealed_good m \<Longrightarrow> sealed_wire m = b @ c \<Longrightarrow> c \<noteq> [] \<Longrightarrow> part_of_message b" by (rule sealed_parts(1))
  show "\<And>m rest. sealed_good m \<Longrightarrow> \<not> part_of_message (sealed_wire m @ rest)" by (rule sealed_parts(2))
qed

context noise_wire
begin

lemma sealed_fed:
  assumes "opens S u ms" and "concat pieces = wires sealed_wire ms"
  shows "\<exists>c'. feed_frames (compound_decode S ldc (codec_decode ldc2)) (connected s0 u0 u) [] pieces = Some (map sealed_frame ms, c', [], None)"
proof -
  let ?c = "connected s0 u0 u :: ('s, 't, 'u) compound_codec"
  have "codec_ready ready ?c []" "codec_held held ?c = []" "codec_expects S ready2 ?c ms"
    using noise_delimited_laws(1,2) [OF noise_messages] ld_laws(1) [OF inner_frames] assms(1)
    by (auto simp: codec_ready_def codec_held_def codec_expects_def connected_def)
  from feed_items [OF this(1,3), of pieces "[]"] this(2) assms(2) show ?thesis by (auto simp: part_of_message_def)
qed

end

interpretation skipping_noise: noise_wire toy_snow skipping_ld None held_length length_fits noise_lde
    "simple_ld (2 ^ 23)" "()" "2 ^ 23" "\<lambda>_ _. True"
  by unfold_locales (simp_all add: skipping_ld_delimited ld_stream_simple)

section \<open>Sending\<close>

text \<open>Messages are encoded one after the other, whether or not the buffer is flushed in between.\<close>

fun send_sealed ::
    "('h, 't) snow_lib \<Rightarrow> (bytes \<Rightarrow> bytes \<Rightarrow> string + bytes) \<Rightarrow> v2_message list \<Rightarrow> ('s, 't, 'u) compound_codec \<Rightarrow> bytes \<Rightarrow>
     stratum_error + (('s, 't, 'u) compound_codec \<times> bytes)" where
  "send_sealed S lde [] c dst = Inr (c, dst)"
| "send_sealed S lde (m # ms) c dst =
     rbind (frame_of_message m) (\<lambda>f.
       case compound_encode S lde (codec_encode serialize_message) c f dst of
         (c', r) \<Rightarrow> rbind r (send_sealed S lde ms c'))"

lemma sealed_sent:
  assumes "secure_channel S paired" and "noise_delimited ldc s0 held ready lde"
  shows "paired t u \<Longrightarrow> list_all fits_noise ms \<Longrightarrow>
    \<exists>items t'. send_sealed S lde ms (connected s0 u0 t) dst = Inr (connected s0 u0 t', dst @ wires sealed_wire items) \<and>
      map fst items = ms \<and> opens S u items"
proof (induction ms arbitrary: t u dst)
  case Nil
  then show ?case by (intro exI [of _ "[]"] exI [of _ t]) simp
next
  case (Cons m ms)
  from Cons.prems(2) have m: "wf_msg m" "length (message_bytes m) \<le> MAX_PAYLOAD_SIZE" by (simp_all add: fits_noise_def)
  obtain f where f: "frame_of_message m = Inr f" "codec_encode serialize_message f [] = (Inr (), message_bytes m)"
    using message_item_sent [OF m(1)] message_bytes_item [OF m(1)] by auto
  from assms(1) Cons.prems(1) m(2) obtain t1 u1 c where c: "t_write_message S t (message_bytes m) = (t1, Inr c)"
    "length c \<le> MAX_MESSAGE_SIZE" "t_read_message S u c = (u1, Inr (message_bytes m))" "paired t1 u1"
    unfolding secure_channel_def by blast
  have "lde c dst = Inr (dst @ sealed_wire (m, c))"
    using noise_delimited_laws(6) [OF assms(2)] c(2) by (simp add: sealed_wire_def MAX_MESSAGE_SIZE_def)
  with f(2) c(1) m(2) have enc: "compound_encode S lde (codec_encode serialize_message) (connected s0 u0 t) f dst =
      (connected s0 u0 t1, Inr (dst @ sealed_wire (m, c)))"
    by (simp add: compound_encode_def connected_def noise_encode_def transport_write_def)
  from Cons.IH [OF c(4), of "dst @ sealed_wire (m, c)"] Cons.prems(2) obtain items t' where
    "send_sealed S lde ms (connected s0 u0 t1) (dst @ sealed_wire (m, c)) =
      Inr (connected s0 u0 t', (dst @ sealed_wire (m, c)) @ wires sealed_wire items)" "map fst items = ms" "opens S u1 items" by auto
  with f(1) enc c(2,3) m(1) show ?case by (intro exI [of _ "(m, c) # items"] exI [of _ t']) (simp add: sealed_good_def)
qed

text \<open>
  When the handshake has left connected transport states, every list of messages that
  fit is encoded; and when the receiver turns its connection into an encrypted one, with any part of these bytes already in its
  buffer, and the rest arrives in reads that end anywhere, it gets exactly these messages, in their order, and
  nothing is left over.
\<close>

lemma sealed_stream:
  assumes "secure_channel S paired" and "noise_delimited ldc s0 held ready lde"
    and "ld_stream ldc2 u0 lim ready2" and "2 ^ 18 \<le> lim"
    and "paired t u" and "list_all fits_noise ms"
  shows "\<exists>c w. send_sealed S lde ms (connected s0 u0 t) [] = Inr (c, w) \<and>
    (\<forall>early rs. early @ stream_data rs = w \<longrightarrow>
      (\<exists>parts frames d. into_framed u \<lparr>fp_codec = noise_codec_default s0, read_buf = early, write_buf = []\<rparr>
           (\<lambda>n. compound_codec_new u0 (Some n)) = Inr parts \<and>
         connection_frames (compound_decode S ldc (codec_decode ldc2)) \<lparr>framed_io = rs, framed_stream = parts\<rparr> =
           Some (frames, d, [], None) \<and> list_all2 frame_is frames ms))"
proof -
  from sealed_sent [OF assms(1,2,5,6), of u0 "[]"] obtain items t' where
    items: "send_sealed S lde ms (connected s0 u0 t) [] = Inr (connected s0 u0 t', wires sealed_wire items)"
    "map fst items = ms" "opens S u items" by auto
  have frames: "list_all2 frame_is (map sealed_frame items) ms"
    unfolding items(2) [symmetric] using opens_good [OF items(3)] message_item_read
    by (auto simp: list_all2_map1 list_all2_map2 list_all_iff sealed_frame_def sealed_good_def frame_is_def intro!: list.rel_refl_strong)
  show ?thesis
  proof (intro exI [of _ "connected s0 u0 t'"] exI [of _ "wires sealed_wire items"] conjI allI impI)
    show "send_sealed S lde ms (connected s0 u0 t) [] = Inr (connected s0 u0 t', wires sealed_wire items)" by (rule items(1))
    fix early rs
    assume "early @ stream_data rs = wires sealed_wire items"
    then have "concat (early # stream_pieces rs) = wires sealed_wire items" by (simp add: concat_stream_pieces)
    from noise_wire.sealed_fed [OF noise_wire.intro [OF assms(2-4)] items(3) this] frames
    show "\<exists>parts frames d. into_framed u \<lparr>fp_codec = noise_codec_default s0, read_buf = early, write_buf = []\<rparr>
           (\<lambda>n. compound_codec_new u0 (Some n)) = Inr parts \<and>
         connection_frames (compound_decode S ldc (codec_decode ldc2)) \<lparr>framed_io = rs, framed_stream = parts\<rparr> =
           Some (frames, d, [], None) \<and> list_all2 frame_is frames ms"
      unfolding into_framed_connected by (auto simp: connection_frames_def)
  qed
qed

section \<open>Properties\<close>

text \<open>
  C13. From a security bundle to messages over a stream. A client that trusts the authority of a valid bundle and the server that
  holds it complete the handshake; then every list of messages that fit is encoded by the client, and when any part of
  these bytes had already been read by the server together with the handshake, and the rest arrives in reads that end
  anywhere, the connection of the server gives exactly these messages, in their order, and nothing is left over.
\<close>

theorem secured_stream:
  fixes S :: "('h, 't) snow_lib"
  assumes "snow_nx S (x25519_base L) paired" and "secure_channel S paired"
    and "noise_delimited ldc s0 held ready lde" and "ld_stream ldc2 u0 lim ready2" and "2 ^ 18 \<le> lim"
    and "validate_secret_key L bundle = Inr ()" and "is_ok (validate_by_time L bundle now)"
    and "length (cert_signature (ssb_certificate bundle)) = 64" and "wf_certificate L (ssb_certificate bundle)"
    and "algs \<noteq> []" and "length algs \<le> 255" and "list_all fits_noise ms"
  shows "\<exists>a m1 m2 client c w. a \<in> set algs \<and>
    connect_with_codec_and_cert S L now (initiator_new (cert_authority_public_key (ssb_certificate bundle)) algs)
        \<lparr>fp_codec = noise_codec_default s0, read_buf = [], write_buf = []\<rparr> (\<lambda>n. compound_codec_new u0 (Some n))
        (quiet [RecvFrame (negotiation_bytes [a]), RecvFrame m2] []) =
      Some (Inr (\<lparr>fp_codec = client, read_buf = [], write_buf = []\<rparr>, ssb_certificate bundle),
        quiet [] [negotiation_bytes algs, m1]) \<and>
    send_sealed S lde ms client [] = Inr (c, w) \<and>
    (\<forall>early rs. early @ stream_data rs = w \<longrightarrow>
      (\<exists>parts frames d.
        build_framed_tcp S u0 bundle \<lparr>fp_codec = noise_codec_default s0, read_buf = early, write_buf = []\<rparr>
            (quiet [RecvFrame (negotiation_bytes algs), RecvFrame m1] []) =
          Some (Inr parts, quiet [] [negotiation_bytes [a], m2]) \<and>
        connection_frames (compound_decode S ldc (codec_decode ldc2)) \<lparr>framed_io = rs, framed_stream = parts\<rparr> =
          Some (frames, d, [], None) \<and> list_all2 frame_is frames ms))"
proof -
  from bundle_handshake [OF assms(1,6-11)] obtain a m1 m2 ti tr data where h: "a \<in> set algs"
    "connect_with_cert S L now (initiator_new (cert_authority_public_key (ssb_certificate bundle)) algs)
        (quiet [RecvFrame (negotiation_bytes [a]), RecvFrame m2] []) =
      Some (Inr (ti, ssb_certificate bundle), quiet [] [negotiation_bytes algs, m1])"
    "serialize_to_bytes_mut (build_noise_message (ssb_certificate bundle)) = Inr data"
    "handshake_run S (responder_step S) r_handshake_state (responder_new (ssb_secret_key bundle) data [AESGCM, ChaChaPoly])
        (quiet [RecvFrame (negotiation_bytes algs), RecvFrame m1] []) =
      Some (Inr tr, quiet [] [negotiation_bytes [a], m2])" and p: "paired ti tr" by blast
  from sealed_stream [OF assms(2-5) p assms(12)] obtain c w where
    s: "send_sealed S lde ms (connected s0 u0 ti) [] = Inr (c, w)"
    "\<forall>early rs. early @ stream_data rs = w \<longrightarrow>
      (\<exists>parts frames d. into_framed tr \<lparr>fp_codec = noise_codec_default s0, read_buf = early, write_buf = []\<rparr>
           (\<lambda>n. compound_codec_new u0 (Some n)) = Inr parts \<and>
         connection_frames (compound_decode S ldc (codec_decode ldc2)) \<lparr>framed_io = rs, framed_stream = parts\<rparr> =
           Some (frames, d, [], None) \<and> list_all2 frame_is frames ms)" by (elim exE conjE)
  show ?thesis
    by (rule exI [of _ a], rule exI [of _ m1], rule exI [of _ m2], rule exI [of _ "connected s0 u0 ti"], rule exI [of _ c],
        rule exI [of _ w])
      (use h s in \<open>simp add: connect_with_codec_and_cert_def build_framed_tcp_def responder_accept_with_codec_def
         into_framed_connected\<close>)
qed

theorem secured_stream_witness:
  "\<exists>client_codec c w sb m1 m2 parts g d.
     connect_with_codec_and_cert toy_snow toy_noise_libs (15 * 10 ^ 9) (initiator_new (replicate 32 2) [ChaChaPoly])
        \<lparr>fp_codec = noise_codec_default (None :: nat option), read_buf = [], write_buf = []\<rparr> (\<lambda>n. compound_codec_new () (Some n))
        (quiet [RecvFrame (negotiation_bytes [ChaChaPoly]), RecvFrame m2] []) =
      Some (Inr (\<lparr>fp_codec = client_codec, read_buf = [], write_buf = []\<rparr>, ssb_certificate sb),
        quiet [] [negotiation_bytes [ChaChaPoly], m1]) \<and>
     send_sealed toy_snow noise_lde [example_message] client_codec [] = Inr (c, w) \<and>
     build_framed_tcp toy_snow () sb \<lparr>fp_codec = noise_codec_default None, read_buf = take 1 w, write_buf = []\<rparr>
        (quiet [RecvFrame (negotiation_bytes [ChaChaPoly]), RecvFrame m1] []) =
       Some (Inr parts, quiet [] [negotiation_bytes [ChaChaPoly], m2]) \<and>
     connection_frames (compound_decode toy_snow skipping_ld (codec_decode (simple_ld (2 ^ 23))))
       \<lparr>framed_io = [Inr (drop 1 w)], framed_stream = parts\<rparr> = Some ([g], d, [], None) \<and> frame_is g example_message"
proof -
  obtain sb where b: "validate_secret_key toy_noise_libs sb = Inr ()"
    "is_ok (validate_by_time toy_noise_libs sb (15 * 10 ^ 9))"
    "length (cert_signature (ssb_certificate sb)) = 64" "wf_certificate toy_noise_libs (ssb_certificate sb)"
    "cert_authority_public_key (ssb_certificate sb) = replicate 32 2"
    by (rule example_bundle_ok)
  have algs: "[ChaChaPoly] \<noteq> []" "length [ChaChaPoly] \<le> 255" and lim: "2 ^ 18 \<le> (2 ^ 23 :: nat)"
    and ms: "list_all fits_noise [example_message]" using example_message_fits by simp_all
  from secured_stream [OF toy_snow_x25519 secure_channel_toy skipping_ld_delimited ld_stream_simple lim b(1-4) algs ms, unfolded b(5)]
  obtain a m1 m2 client c w where "a \<in> set [ChaChaPoly]" and
    s: "connect_with_codec_and_cert toy_snow toy_noise_libs (15 * 10 ^ 9) (initiator_new (replicate 32 2) [ChaChaPoly])
        \<lparr>fp_codec = noise_codec_default (None :: nat option), read_buf = [], write_buf = []\<rparr> (\<lambda>n. compound_codec_new () (Some n))
        (quiet [RecvFrame (negotiation_bytes [a]), RecvFrame m2] []) =
      Some (Inr (\<lparr>fp_codec = client, read_buf = [], write_buf = []\<rparr>, ssb_certificate sb),
        quiet [] [negotiation_bytes [ChaChaPoly], m1])"
    "send_sealed toy_snow noise_lde [example_message] client [] = Inr (c, w)" and
    all: "\<forall>early rs. early @ stream_data rs = w \<longrightarrow>
      (\<exists>parts frames d.
        build_framed_tcp toy_snow () sb \<lparr>fp_codec = noise_codec_default None, read_buf = early, write_buf = []\<rparr>
            (quiet [RecvFrame (negotiation_bytes [ChaChaPoly]), RecvFrame m1] []) =
          Some (Inr parts, quiet [] [negotiation_bytes [a], m2]) \<and>
        connection_frames (compound_decode toy_snow skipping_ld (codec_decode (simple_ld (2 ^ 23))))
          \<lparr>framed_io = rs, framed_stream = parts\<rparr> = Some (frames, d, [], None) \<and> list_all2 frame_is frames [example_message])"
    by (elim exE conjE) (rule that; assumption)
  have "take 1 w @ stream_data [Inr (drop 1 w)] = w" by simp
  from mp [OF spec [OF spec [OF all]] this] obtain parts frames d where
    r: "build_framed_tcp toy_snow () sb \<lparr>fp_codec = noise_codec_default None, read_buf = take 1 w, write_buf = []\<rparr>
        (quiet [RecvFrame (negotiation_bytes [ChaChaPoly]), RecvFrame m1] []) =
       Some (Inr parts, quiet [] [negotiation_bytes [a], m2])"
    "connection_frames (compound_decode toy_snow skipping_ld (codec_decode (simple_ld (2 ^ 23))))
       \<lparr>framed_io = [Inr (drop 1 w)], framed_stream = parts\<rparr> = Some (frames, d, [], None)"
    "list_all2 frame_is frames [example_message]" by (elim exE conjE)
  from r(3) obtain g where g: "frames = [g]" "frame_is g example_message" by (auto simp: list_all2_Cons2)
  have a: "a = ChaChaPoly" using \<open>a \<in> set [ChaChaPoly]\<close> by simp
  from s r(1) r(2) [unfolded g(1)] g(2) show ?thesis unfolding a by blast
qed

end
