(* ===== verification/Value_Conversions.thy ===== *)
theory Value_Conversions
  imports Bitcoin_Target V2_Types Wire_Client
begin

text \<open>
  Conversions between the values of the libraries: the rest of \<open>v2/types.rs\<close> (slices, targets), the texts and rates of
  \<open>coins/bitcoin/src/lib.rs\<close>, the conversions of addresses in \<open>protocols/wire/src/client.rs\<close>.

  The hex functions of \<open>bitcoin_hashes\<close> are the record \<open>hash_hex\<close> with their contract: a hash is printed in reverse
  order, a midstate in its own. The further operations of \<open>f64\<close> extend the record \<open>float_ops\<close>.
\<close>

section \<open>Sized bytes and sequences from slices\<close>

definition bytes_new :: "sized_type \<Rightarrow> bytes" where
  "bytes_new n = []"

definition bytes_try_from_slice :: "sized_type \<Rightarrow> bytes \<Rightarrow> v2_error + bytes" where
  "bytes_try_from_slice n s =
     (if min_len n \<le> length s \<and> length s \<le> max_len n then Inr s else Inl (DataTypeOverflow (length s) (max_len n)))"

definition bytes_from_slice :: "sized_type \<Rightarrow> bytes \<Rightarrow> bytes option" where
  "bytes_from_slice n s = (case bytes_try_from_slice n s of Inr b \<Rightarrow> Some b | Inl _ \<Rightarrow> None)"

definition seq_try_from_slice :: "sized_type \<Rightarrow> 'a list \<Rightarrow> v2_error + 'a list" where
  "seq_try_from_slice n s =
     (if min_len n \<le> length s \<and> length s \<le> max_len n then Inr s else Inl (DataTypeOverflow (length s) (max_len n)))"

text \<open>What a constructor lets through can be sent: it has a length that the reader accepts.\<close>

lemma slices_in_bounds:
  "bytes_try_from_slice n s = Inr b \<longleftrightarrow> b = s \<and> in_bounds n s"
  "bytes_from_slice n s = Some b \<longleftrightarrow> b = s \<and> in_bounds n s"
  "seq_try_from_slice n xs = Inr ys \<longleftrightarrow> ys = xs \<and> in_bounds n xs"
  by (auto simp: bytes_try_from_slice_def bytes_from_slice_def seq_try_from_slice_def in_bounds_def)

lemma bytes_sent_and_read:
  assumes "bytes_from_slice n s = Some b"
  shows "has_ty (sv_bytes n b) (ty_bytes n)"
  using assms by (auto simp: slices_in_bounds has_ty_bytes)

section \<open>Targets\<close>

definition uint256_into_target :: "bytes \<Rightarrow> u256" where
  "uint256_into_target value = target_of_bytes value"

definition uint256_from_target :: "u256 \<Rightarrow> bytes" where
  "uint256_from_target t = uint256_of_u256 t"

record hash_hex =
  dhash_from_hex :: "bytes \<Rightarrow> string + bytes"
  format_hex_reverse :: "bytes \<Rightarrow> bytes"
  array_from_hex :: "bytes \<Rightarrow> string + bytes"
  format_hex :: "bytes \<Rightarrow> bytes"

definition hash_hex_contract :: "hash_hex \<Rightarrow> bool" where
  "hash_hex_contract H \<longleftrightarrow>
     (\<forall>b. length b = SHA256_DIGEST_SIZE \<longrightarrow>
        dhash_from_hex H (format_hex_reverse H b) = Inr b \<and> array_from_hex H (format_hex H b) = Inr b) \<and>
     (\<forall>s b. dhash_from_hex H s = Inr b \<or> array_from_hex H s = Inr b \<longrightarrow> length b = SHA256_DIGEST_SIZE)"

definition target_from_hex :: "hash_hex \<Rightarrow> bytes \<Rightarrow> string + u256" where
  "target_from_hex H s = rmap target_of_bytes (dhash_from_hex H s)"

definition target_display :: "hash_hex \<Rightarrow> u256 \<Rightarrow> bytes" where
  "target_display H t = format_hex_reverse H (target_to_bytes t)"

definition midstate_from_hex :: "hash_hex \<Rightarrow> bytes \<Rightarrow> string + bytes" where
  "midstate_from_hex H s = array_from_hex H s"

definition midstate_display :: "hash_hex \<Rightarrow> bytes \<Rightarrow> bytes" where
  "midstate_display H m = format_hex H m"

text \<open>
  A target has one binary form, whether it is sent in a V2 message or compared with a hash, and its text
  is read back.
\<close>

lemma target_forms:
  "uint256_from_target t = target_to_bytes t"
  "uint256_into_target (uint256_from_target t) = t"
  "length b = 32 \<Longrightarrow> uint256_from_target (uint256_into_target b) = b"
  "meets dhash (uint256_into_target b) \<longleftrightarrow> target_of_bytes dhash \<le> u256_of_uint256 b"
  by (simp_all add: uint256_from_target_def uint256_into_target_def uint256_of_u256_def target_to_bytes_def target_of_bytes_def
      u256_of_uint256_def SHA256_DIGEST_SIZE_def byte_simps meets_def is_greater_or_equal_def
      uint256_of_u256_of_uint256 [unfolded uint256_of_u256_def u256_of_uint256_def])

lemma target_text:
  assumes "hash_hex_contract H"
  shows "target_from_hex H (target_display H t) = Inr t"
    and "target_from_hex H s = Inr t \<Longrightarrow> target_from_hex H (target_display H t) = target_from_hex H s"
    and "length m = SHA256_DIGEST_SIZE \<Longrightarrow> midstate_from_hex H (midstate_display H m) = Inr m"
proof -
  have "length (target_to_bytes t) = SHA256_DIGEST_SIZE" "target_of_bytes (target_to_bytes t) = t"
    by (simp_all add: target_to_bytes_def target_of_bytes_def SHA256_DIGEST_SIZE_def byte_simps)
  then show *: "target_from_hex H (target_display H t) = Inr t"
    using assms by (simp add: hash_hex_contract_def target_from_hex_def target_display_def)
  show "target_from_hex H (target_display H t) = target_from_hex H s" if "target_from_hex H s = Inr t" using * that by simp
  show "midstate_from_hex H (midstate_display H m) = Inr m" if "length m = SHA256_DIGEST_SIZE"
    using assms that by (simp add: hash_hex_contract_def midstate_from_hex_def midstate_display_def)
qed

section \<open>Rates\<close>

text \<open>A duration is a number of nanoseconds.\<close>

record 'f rate_ops = "'f float_ops" +
  f_of_u64 :: "u64 \<Rightarrow> 'f"
  f_secs :: "nat \<Rightarrow> 'f"
  f_is_zero :: "'f \<Rightarrow> bool"
  f_div :: "'f \<Rightarrow> 'f \<Rightarrow> 'f"
  f_show2 :: "'f \<Rightarrow> bytes"

datatype shares_error = UndefinedHashrate

definition hashes_from_u128 :: "u128 \<Rightarrow> 'f hashes_unit" where
  "hashes_from_u128 h = Hashes h"

definition into_hashrate :: "'f rate_ops \<Rightarrow> u64 \<Rightarrow> nat \<Rightarrow> shares_error + 'f hashes_unit" where
  "into_hashrate F shares interval =
     (let secs = f_secs F interval in
      if f_is_zero F secs then Inl UndefinedHashrate
      else let hashes = into_f64 (float_ops.truncate F) (shares_into_hashes shares); hashrate = f_div F hashes secs
           in Inr (hashes_from_u128 (f_to_u128 F hashrate)))"

definition to_sharerate :: "'f rate_ops \<Rightarrow> u64 \<Rightarrow> nat \<Rightarrow> 'f" where
  "to_sharerate F shares interval =
     (let secs = f_secs F interval in
      if f_is_zero F secs then f_of_u64 F shares else f_div F (f_of_u64 F shares) secs)"

definition hashes_display :: "'f rate_ops \<Rightarrow> 'f hashes_unit \<Rightarrow> bytes" where
  "hashes_display F h =
     (case h of
        Hashes v \<Rightarrow> dec_bytes (unat v) @ ascii '' H''
      | KiloHashes v \<Rightarrow> f_show2 F v @ ascii '' kH''
      | MegaHashes v \<Rightarrow> f_show2 F v @ ascii '' MH''
      | GigaHashes v \<Rightarrow> f_show2 F v @ ascii '' GH''
      | TeraHashes v \<Rightarrow> f_show2 F v @ ascii '' TH'')"

text \<open>
  Over an interval of no length the hash rate is an error, while the share rate is the number of shares. Otherwise both divide by
  the seconds, a share counting as $2^{32}$ hashes.
\<close>

lemma rate_of_empty_interval:
  assumes "f_is_zero F (f_secs F interval)"
  shows "into_hashrate F shares interval = Inl UndefinedHashrate" and "to_sharerate F shares interval = f_of_u64 F shares"
  using assms by (simp_all add: into_hashrate_def to_sharerate_def)

lemma rate_of_interval:
  assumes "\<not> f_is_zero F (f_secs F interval)"
  shows "into_hashrate F shares interval =
    Inr (Hashes (f_to_u128 F (f_div F (f_of_u128 F (push_bit 32 (ucast shares))) (f_secs F interval))))"
  using assms
  by (simp add: into_hashrate_def hashes_from_u128_def shares_into_hashes_def into_f64_def DIFFICULTY_1_SHIFT_def float_ops.truncate_def)

section \<open>Addresses\<close>

definition address_as_ref :: "address \<Rightarrow> bytes \<times> u16" where
  "address_as_ref a = (case a of Address host port \<Rightarrow> (host, port))"

definition address_from_tuple :: "bytes \<times> u16 \<Rightarrow> address" where
  "address_from_tuple t = Address (fst t) (snd t)"

definition address_into_tuple :: "address \<Rightarrow> bytes \<times> u16" where
  "address_into_tuple a = (case a of Address host port \<Rightarrow> (host, port))"

definition address_try_from :: "bytes \<Rightarrow> unit + address" where
  "address_try_from s = address_from_str s"

definition address_into_string :: "address \<Rightarrow> bytes" where
  "address_into_string a = address_display a"

text \<open>\<open>serde\<close>: an address is written as a string, and read from one.\<close>

definition address_serialize :: "address \<Rightarrow> bytes" where
  "address_serialize a = address_display a"

definition address_deserialize :: "'e + bytes \<Rightarrow> (unit \<Rightarrow> 'e) \<Rightarrow> 'e + address" where
  "address_deserialize text custom = rbind text (\<lambda>s. map_err custom (address_try_from s))"

definition attempt_error_display :: "attempt_error \<Rightarrow> bytes" where
  "attempt_error_display e =
     ascii ''Connection attempt error, attempt #'' @ dec_bytes (unat (ae_retries e)) @ ascii '', next in: '' @
     dec_bytes (unat (of_nat (ae_next_attempt_in e div 10 ^ 6) :: u64)) @ ascii ''ms''"

lemma address_conversions:
  "address_from_tuple (address_into_tuple a) = a" "address_into_tuple (address_from_tuple t) = t"
  "address_as_ref a = address_into_tuple a"
  by (simp_all add: address_from_tuple_def address_into_tuple_def address_as_ref_def split: address.split)

text \<open>A host with a colon, such as an IPv6 address, is written but not read back: it takes part in a configuration file only one way.\<close>

lemma address_serde:
  "address_deserialize (Inr (address_serialize (Address host port))) custom = Inr (Address host port) \<longleftrightarrow>
     host \<noteq> [] \<and> 0x3a \<notin> set host"
  using address_roundtrip [of host port]
  by (cases "address_from_str (address_display (Address host port))")
    (auto simp: address_deserialize_def address_serialize_def address_try_from_def)

end
