(* ===== verification/Logging.thy ===== *)
theory Logging
  imports Key_Tool
begin

text \<open>
  \<open>utils-rs/logging\<close>: the global logger, and \<open>LoggingController\<close> of \<open>stratum-proxy/src/server/controller.rs\<close>, which
  changes its filters while the proxy runs.

  An asynchronous drain of \<open>slog_async\<close> has a number; it runs until its guard is dropped, which flushes and stops
  it. The switch of \<open>slog_atomic\<close> replaces the drain of the root logger. What filters select is left to
  \<open>slog_envlogger\<close>. A panic is \<open>None\<close>. \<open>log_env\<close> is what the functions take from outside: the variable \<open>RUST_LOG\<close>, the short
  names of levels, the directory of temporary files, the kind of build, and the failures to open a file.
\<close>

section \<open>Configuration\<close>

datatype log_level = LCritical | LError | LWarning | LInfo | LDebug | LTrace
datatype filter_level = FOff | FLevel log_level

datatype logging_target = ToStderr | ToStdout | ToStdoutJson | ToFile path | ToNone

record logging_config =
  lc_target :: logging_target
  lc_level :: log_level
  lc_drain_channel_size :: nat

record log_env =
  le_rust_log :: "string option"
  le_short_str :: "log_level \<Rightarrow> string"
  le_temp_dir :: string
  le_debug :: bool
  le_open :: "path \<Rightarrow> string option"

definition ASYNC_LOGGER_DRAIN_CHANNEL_SIZE :: nat where "ASYNC_LOGGER_DRAIN_CHANNEL_SIZE = 128"

definition for_testing :: "log_env \<Rightarrow> logging_config" where
  "for_testing L = \<lparr>lc_target = ToFile (le_temp_dir L, ''test-log.txt''), lc_level = LTrace,
     lc_drain_channel_size = ASYNC_LOGGER_DRAIN_CHANNEL_SIZE\<rparr>"

definition for_app :: "log_env \<Rightarrow> nat \<Rightarrow> logging_config" where
  "for_app L n = \<lparr>lc_target = ToStderr, lc_level = (if le_debug L then LDebug else LInfo), lc_drain_channel_size = n\<rparr>"

definition no_logging :: logging_config where
  "no_logging = \<lparr>lc_target = ToNone, lc_level = LError, lc_drain_channel_size = ASYNC_LOGGER_DRAIN_CHANNEL_SIZE\<rparr>"

definition logging_config_default :: "log_env \<Rightarrow> logging_config" where
  "logging_config_default L = for_testing L"

section \<open>Drains\<close>

datatype sink = TerminalSink bool | JsonSink | FileSink path | DiscardSink
datatype drain_filter = EnvFilter string | LevelFilter log_level

record drain =
  dr_id :: nat
  dr_sink :: sink
  dr_filter :: drain_filter
  dr_chan_size :: nat

record drains =
  next_drain :: nat
  running :: "nat list"

definition build_envlogger :: "log_env \<Rightarrow> log_level \<Rightarrow> drain_filter" where
  "build_envlogger L default_level =
     EnvFilter (case le_rust_log L of
        Some rust_log \<Rightarrow> if rust_log \<noteq> [] then rust_log else le_short_str L default_level
      | None \<Rightarrow> le_short_str L default_level)"

definition get_terminal_drain :: "bool \<Rightarrow> sink" where "get_terminal_drain stderr = TerminalSink stderr"

definition get_file_drain :: "log_env \<Rightarrow> path \<Rightarrow> sink option" where
  "get_file_drain L p = (case le_open L p of None \<Rightarrow> Some (FileSink p) | Some e \<Rightarrow> None)"

text \<open>\<open>Async::new(..).build_with_guard()\<close> starts a drain; its guard is its number.\<close>

definition start_drain :: "sink \<Rightarrow> drain_filter \<Rightarrow> nat \<Rightarrow> drains \<Rightarrow> drain \<times> drains" where
  "start_drain s f n ds =
     (\<lparr>dr_id = next_drain ds, dr_sink = s, dr_filter = f, dr_chan_size = n\<rparr>,
      \<lparr>next_drain = next_drain ds + 1, running = running ds @ [next_drain ds]\<rparr>)"

type_synonym flush_guard = "nat option"

definition drop_guard :: "flush_guard \<Rightarrow> drains \<Rightarrow> drains" where
  "drop_guard g ds = (case g of None \<Rightarrow> ds | Some i \<Rightarrow> ds\<lparr>running := removeAll i (running ds)\<rparr>)"

section \<open>The logger\<close>

record guarded_logger =
  gl_drain :: "drain option"
  gl_switch :: bool
  gl_guard :: flush_guard
  gl_config :: logging_config

definition with_drain :: "log_env \<Rightarrow> logging_config \<Rightarrow> sink \<Rightarrow> drains \<Rightarrow> guarded_logger \<times> drains" where
  "with_drain L config s ds =
     (case start_drain s (build_envlogger L (lc_level config)) (lc_drain_channel_size config) ds of
        (d, ds') \<Rightarrow> (\<lparr>gl_drain = Some d, gl_switch = True, gl_guard = Some (dr_id d), gl_config = config\<rparr>, ds'))"

definition with_discard :: guarded_logger where
  "with_discard = \<lparr>gl_drain = None, gl_switch = False, gl_guard = None, gl_config = no_logging\<rparr>"

definition logger_new :: "log_env \<Rightarrow> logging_config \<Rightarrow> drains \<Rightarrow> (guarded_logger \<times> drains) option" where
  "logger_new L config ds =
     (case lc_target config of
        ToNone \<Rightarrow> Some (with_discard, ds)
      | ToStderr \<Rightarrow> Some (with_drain L config (get_terminal_drain True) ds)
      | ToStdout \<Rightarrow> Some (with_drain L config (get_terminal_drain False) ds)
      | ToStdoutJson \<Rightarrow> Some (with_drain L config JsonSink ds)
      | ToFile p \<Rightarrow> map_option (\<lambda>s. with_drain L config s ds) (get_file_drain L p))"

definition switch_drain ::
    "guarded_logger \<Rightarrow> sink \<Rightarrow> string option \<Rightarrow> drains \<Rightarrow> (flush_guard \<times> guarded_logger \<times> drains) option" where
  "switch_drain g s filters ds =
     (let f = (case filters of Some fs \<Rightarrow> EnvFilter fs | None \<Rightarrow> LevelFilter (lc_level (gl_config g))) in
      case start_drain s f (lc_drain_channel_size (gl_config g)) ds of
        (d, ds') \<Rightarrow> if gl_switch g then Some (Some (dr_id d), g\<lparr>gl_drain := Some d\<rparr>, ds') else None)"

definition switch_target ::
    "log_env \<Rightarrow> guarded_logger \<Rightarrow> string option \<Rightarrow> drains \<Rightarrow> (flush_guard \<times> guarded_logger \<times> drains) option" where
  "switch_target L g filters ds =
     (case lc_target (gl_config g) of
        ToNone \<Rightarrow> switch_drain g DiscardSink filters ds
      | ToStderr \<Rightarrow> switch_drain g (get_terminal_drain True) filters ds
      | ToStdout \<Rightarrow> switch_drain g (get_terminal_drain False) filters ds
      | ToStdoutJson \<Rightarrow> switch_drain g JsonSink filters ds
      | ToFile p \<Rightarrow> Option.bind (get_file_drain L p) (\<lambda>s. switch_drain g s filters ds))"

definition set_config ::
    "log_env \<Rightarrow> guarded_logger \<Rightarrow> logging_config \<Rightarrow> drains \<Rightarrow> (flush_guard \<times> guarded_logger \<times> drains) option" where
  "set_config L g config ds = switch_target L (g\<lparr>gl_config := config\<rparr>) None ds"

definition set_filter_level ::
    "log_env \<Rightarrow> guarded_logger \<Rightarrow> filter_level \<Rightarrow> drains \<Rightarrow> (flush_guard \<times> guarded_logger \<times> drains) option" where
  "set_filter_level L g fl ds =
     switch_target L
       (case fl of
          FOff \<Rightarrow> g\<lparr>gl_config := (gl_config g)\<lparr>lc_target := ToNone\<rparr>\<rparr>
        | FLevel l \<Rightarrow> g\<lparr>gl_config := (gl_config g)\<lparr>lc_level := l\<rparr>\<rparr>) None ds"

definition set_filters ::
    "log_env \<Rightarrow> guarded_logger \<Rightarrow> string \<Rightarrow> drains \<Rightarrow> (flush_guard \<times> guarded_logger \<times> drains) option" where
  "set_filters L g filters ds = switch_target L g (Some filters) ds"

definition take_guard :: "guarded_logger \<Rightarrow> flush_guard \<times> guarded_logger" where
  "take_guard g = (gl_guard g, g\<lparr>gl_guard := None\<rparr>)"

definition flush :: "guarded_logger \<Rightarrow> drains \<Rightarrow> guarded_logger \<times> drains" where
  "flush g ds = (case take_guard g of (gd, g') \<Rightarrow> (g', drop_guard gd ds))"

section \<open>The global logger\<close>

text \<open>
  \<open>LOGGER_CONFIG\<close> is the configuration until the logger takes it; \<open>LOGGER\<close> is made at its first use. A panic while the
  lock is held poisons it, and the expectation of \<open>set_logger_config\<close> fails with the lock held, after the new value has been stored.
\<close>

record log_globals =
  lg_config :: "logging_config option"
  lg_poisoned :: bool
  lg_logger :: "guarded_logger option"
  lg_initialized :: bool
  lg_drains :: drains

definition log_globals_default :: "log_env \<Rightarrow> log_globals" where
  "log_globals_default L = \<lparr>lg_config = Some (logging_config_default L), lg_poisoned = False, lg_logger = None,
     lg_initialized = False, lg_drains = \<lparr>next_drain = 0, running = []\<rparr>\<rparr>"

definition set_logger_config :: "logging_config \<Rightarrow> log_globals \<Rightarrow> logging_config option \<times> log_globals" where
  "set_logger_config config G =
     (if lg_poisoned G then (None, G)
      else case lg_config G of
        Some old \<Rightarrow> (Some old, G\<lparr>lg_config := Some config\<rparr>)
      | None \<Rightarrow> (None, G\<lparr>lg_config := Some config, lg_poisoned := True\<rparr>))"

definition force_logger :: "log_env \<Rightarrow> log_globals \<Rightarrow> guarded_logger option \<times> log_globals" where
  "force_logger L G =
     (case lg_logger G of
        Some g \<Rightarrow> (Some g, G)
      | None \<Rightarrow>
          if lg_poisoned G then (None, G)
          else case lg_config G of
            None \<Rightarrow> (None, G\<lparr>lg_poisoned := True\<rparr>)
          | Some config \<Rightarrow>
              (case logger_new L config (lg_drains G) of
                 None \<Rightarrow> (None, G\<lparr>lg_config := None, lg_poisoned := True\<rparr>)
               | Some (g, ds) \<Rightarrow> (Some g, G\<lparr>lg_config := None, lg_logger := Some g, lg_drains := ds\<rparr>)))"

definition logging_setup :: "log_env \<Rightarrow> logging_config \<Rightarrow> log_globals \<Rightarrow> flush_guard option \<times> log_globals" where
  "logging_setup L config G =
     (case set_logger_config config G of
        (None, G1) \<Rightarrow> (None, G1)
      | (Some _, G1) \<Rightarrow>
          (case force_logger L G1 of
             (None, G2) \<Rightarrow> (None, G2)
           | (Some g, G2) \<Rightarrow>
               (case take_guard g of (gd, g') \<Rightarrow> (Some gd, G2\<lparr>lg_logger := Some g'\<rparr>))))"

definition setup_for_app :: "log_env \<Rightarrow> nat \<Rightarrow> log_globals \<Rightarrow> flush_guard option \<times> log_globals" where
  "setup_for_app L n = logging_setup L (for_app L n)"

definition setup_for_production_server :: "log_env \<Rightarrow> nat \<Rightarrow> log_globals \<Rightarrow> flush_guard option \<times> log_globals" where
  "setup_for_production_server L n = logging_setup L ((for_app L n)\<lparr>lc_target := ToStdoutJson\<rparr>)"

definition init_test_logging :: "log_env \<Rightarrow> log_globals \<Rightarrow> flush_guard option option \<times> log_globals" where
  "init_test_logging L G =
     (if lg_initialized G then (Some None, G)
      else case setup_for_app L ASYNC_LOGGER_DRAIN_CHANNEL_SIZE (G\<lparr>lg_initialized := True\<rparr>) of
        (r, G') \<Rightarrow> (map_option Some r, G'))"

section \<open>The logging controller\<close>

definition CONTROLLER_DRAIN_CHANNEL_SIZE :: nat where "CONTROLLER_DRAIN_CHANNEL_SIZE = 4096"

record logging_controller =
  lco_flush_guard :: flush_guard
  lco_globals :: log_globals

definition controller_with_drain_channel_size :: "log_env \<Rightarrow> nat \<Rightarrow> log_globals \<Rightarrow> logging_controller option" where
  "controller_with_drain_channel_size L n G =
     (case setup_for_app L n G of
        (None, _) \<Rightarrow> None
      | (Some gd, G') \<Rightarrow> Some \<lparr>lco_flush_guard = gd, lco_globals = G'\<rparr>)"

definition logging_controller_new :: "log_env \<Rightarrow> log_globals \<Rightarrow> logging_controller option" where
  "logging_controller_new L = controller_with_drain_channel_size L CONTROLLER_DRAIN_CHANNEL_SIZE"

text \<open>One round of the task that receives filters; the assignment drops the guard before it.\<close>

definition change_filter :: "log_env \<Rightarrow> string \<Rightarrow> logging_controller \<Rightarrow> logging_controller option" where
  "change_filter L filters c =
     (case force_logger L (lco_globals c) of
        (None, _) \<Rightarrow> None
      | (Some g, G) \<Rightarrow>
          (case set_filters L g filters (lg_drains G) of
             None \<Rightarrow> None
           | Some (gd, g', ds) \<Rightarrow>
               Some \<lparr>lco_flush_guard = gd,
                     lco_globals = G\<lparr>lg_logger := Some g', lg_drains := drop_guard (lco_flush_guard c) ds\<rparr>\<rparr>))"

fun change_filters :: "log_env \<Rightarrow> string list \<Rightarrow> logging_controller \<Rightarrow> logging_controller option" where
  "change_filters L [] c = Some c"
| "change_filters L (f # fs) c = Option.bind (change_filter L f c) (change_filters L fs)"

section \<open>What the logger keeps\<close>

definition logging_ok :: "drain_filter \<Rightarrow> nat \<Rightarrow> logging_controller \<Rightarrow> bool" where
  "logging_ok f n c \<longleftrightarrow>
     (\<exists>g d. lg_logger (lco_globals c) = Some g \<and> gl_switch g \<and> gl_drain g = Some d \<and>
        lc_target (gl_config g) = ToStderr \<and> lc_drain_channel_size (gl_config g) = n \<and>
        dr_sink d = TerminalSink True \<and> dr_filter d = f \<and> dr_chan_size d = n \<and>
        lco_flush_guard c = Some (dr_id d) \<and> running (lg_drains (lco_globals c)) = [dr_id d] \<and>
        dr_id d < next_drain (lg_drains (lco_globals c)))"

lemma logging_ok_new:
  "\<exists>c. controller_with_drain_channel_size L n (log_globals_default L) = Some c \<and>
     logging_ok (build_envlogger L (if le_debug L then LDebug else LInfo)) n c"
  by (simp add: controller_with_drain_channel_size_def setup_for_app_def logging_setup_def set_logger_config_def
      log_globals_default_def force_logger_def logger_new_def for_app_def with_drain_def start_drain_def take_guard_def
      logging_ok_def get_terminal_drain_def)

lemma logging_ok_change:
  assumes "logging_ok f n c"
  shows "\<exists>c'. change_filter L filters c = Some c' \<and> logging_ok (EnvFilter filters) n c'"
proof -
  from assms obtain g d where g: "lg_logger (lco_globals c) = Some g" "gl_switch g" "gl_drain g = Some d"
    "lc_target (gl_config g) = ToStderr" "lc_drain_channel_size (gl_config g) = n"
    "lco_flush_guard c = Some (dr_id d)" "running (lg_drains (lco_globals c)) = [dr_id d]"
    "dr_id d < next_drain (lg_drains (lco_globals c))" by (auto simp: logging_ok_def)
  then show ?thesis
    by (auto simp: change_filter_def force_logger_def set_filters_def switch_target_def switch_drain_def start_drain_def
        get_terminal_drain_def drop_guard_def logging_ok_def)
qed

lemma logging_ok_changes:
  "logging_ok f n c \<Longrightarrow>
   \<exists>c'. change_filters L fs c = Some c' \<and> logging_ok (if fs = [] then f else EnvFilter (last fs)) n c'"
proof (induction fs arbitrary: f c)
  case (Cons x fs)
  from logging_ok_change [OF Cons.prems] obtain c1 where "change_filter L x c = Some c1" "logging_ok (EnvFilter x) n c1" by blast
  with Cons.IH [OF this(2)] show ?case by (auto split: if_split_asm)
qed simp

text \<open>
  The logger of the proxy stays alive. However often the filters are changed while the proxy runs, nothing
  panics; the logger writes to the standard error output through one drain, which runs, filtered as the last change said
  (or as \<open>RUST_LOG\<close> or the kind of build says before any), whose guard the controller holds; the
  drains before it have all been flushed and stopped.
\<close>

theorem logger_stays_alive:
  "\<exists>c g d. Option.bind (logging_controller_new L (log_globals_default L)) (change_filters L fs) = Some c \<and>
     lg_logger (lco_globals c) = Some g \<and> gl_drain g = Some d \<and> dr_sink d = TerminalSink True \<and>
     dr_filter d = (if fs = [] then build_envlogger L (if le_debug L then LDebug else LInfo) else EnvFilter (last fs)) \<and>
     lco_flush_guard c = Some (dr_id d) \<and> running (lg_drains (lco_globals c)) = [dr_id d]"
proof -
  obtain c where c: "logging_controller_new L (log_globals_default L) = Some c"
    "logging_ok (build_envlogger L (if le_debug L then LDebug else LInfo)) CONTROLLER_DRAIN_CHANNEL_SIZE c"
    using logging_ok_new unfolding logging_controller_new_def by blast
  from logging_ok_changes [OF c(2), of L fs] obtain c' where "change_filters L fs c = Some c'"
    "logging_ok (if fs = [] then build_envlogger L (if le_debug L then LDebug else LInfo) else EnvFilter (last fs))
       CONTROLLER_DRAIN_CHANNEL_SIZE c'" by blast
  then show ?thesis unfolding c(1) bind.bind_lunit logging_ok_def by blast
qed

text \<open>The logger can be set up once: a second set-up panics, and so does every later one.\<close>

lemma setup_once_only:
  assumes "lg_config G = None"
  shows "fst (logging_setup L config G) = None \<and> fst (logging_setup L config' (snd (logging_setup L config G))) = None"
  using assms by (simp add: logging_setup_def set_logger_config_def)

lemma setup_takes_config:
  assumes "logging_setup L config G = (Some gd, G')" and "lg_logger G = None"
  shows "lg_config G' = None"
  using assms
  by (auto simp: logging_setup_def set_logger_config_def force_logger_def take_guard_def
      split: prod.split_asm option.split_asm if_split_asm)

text \<open>
  \<open>set_filter_level(FilterLevel::Off)\<close> overwrites the target with \<open>None\<close>: no level that is set afterwards
  makes the logger write again.
\<close>

lemma switch_drain_keeps:
  assumes "switch_drain g s f ds = Some (gd, g', ds')"
  shows "gl_config g' = gl_config g" and "gl_switch g' = gl_switch g" and "\<exists>d. gl_drain g' = Some d \<and> dr_sink d = s"
  using assms by (auto simp: switch_drain_def start_drain_def Let_def split: if_split_asm)

lemma switch_keeps_config:
  assumes "switch_target L g f ds = Some (gd, g', ds')"
  shows "gl_config g' = gl_config g \<and> gl_switch g' = gl_switch g"
  using assms switch_drain_keeps(1,2)
  by (auto simp: switch_target_def bind_eq_Some_conv split: logging_target.split_asm)

lemma off_is_final:
  assumes "lc_target (gl_config g) = ToNone" and "set_filter_level L g fl ds = Some (gd, g', ds')"
  shows "lc_target (gl_config g') = ToNone \<and> (\<exists>d. gl_drain g' = Some d \<and> dr_sink d = DiscardSink)"
proof -
  let ?g = "case fl of FOff \<Rightarrow> g\<lparr>gl_config := (gl_config g)\<lparr>lc_target := ToNone\<rparr>\<rparr>
    | FLevel l \<Rightarrow> g\<lparr>gl_config := (gl_config g)\<lparr>lc_level := l\<rparr>\<rparr>"
  have t: "lc_target (gl_config ?g) = ToNone" using assms(1) by (simp split: filter_level.split)
  with assms(2) have "switch_drain ?g DiscardSink None ds = Some (gd, g', ds')"
    by (simp add: set_filter_level_def switch_target_def)
  from switch_drain_keeps(1,3) [OF this] t show ?thesis by simp
qed

text \<open>A logger that was made without a target has no switch: changing anything about it panics.\<close>

lemma discard_cannot_switch: "switch_target L (with_discard\<lparr>gl_config := cfg\<rparr>) f ds = None"
  by (auto simp: with_discard_def switch_target_def switch_drain_def start_drain_def split: logging_target.split option.split)

text \<open>\<open>flush\<close> stops the drain: what is logged afterwards is lost.\<close>

lemma flush_stops:
  assumes "gl_guard g = Some i"
  shows "i \<notin> set (running (snd (flush g ds)))"
  using assms by (simp add: flush_def take_guard_def drop_guard_def)

end
