(* ===== verification/Scm.thy ===== *)
theory Scm
  imports V2_Types
begin

text \<open>
  \<open>utils-rs/scm\<close>: the version of a program. \<open>scm-macros/src/lib.rs\<close> has the macro \<open>git_hash!\<close>, which asks git for a revision
  when the program is compiled; \<open>scm/src/global.rs\<close> has the version that the program tells, a cell that is written once.

  The tokens of a macro call are as \<open>syn\<close> gives them. \<open>scm_env\<close> is the environment of the compiler: what \<open>git rev-parse\<close> prints
  for an object (an error when it cannot be run; whether it succeeded; the text), and the environment variables.
  Text is UTF-8 as in the other theories.
\<close>

section \<open>The arguments of \<open>git_hash!\<close>\<close>

datatype scm_token = TIdent string | TEq | TComma | TLitStr bytes | TLitInt nat | TOther

datatype macro_error = Expected string | UnexpectedArgument string | HashError string | MacroPanic

record git_hash_input =
  gh_object :: "bytes option"
  gh_length :: "nat option"

definition git_hash_default :: git_hash_input where
  "git_hash_default = \<lparr>gh_object = None, gh_length = None\<rparr>"

text \<open>An argument, without the comma after it.\<close>

fun parse_argument :: "scm_token list \<Rightarrow> git_hash_input \<Rightarrow> macro_error + (git_hash_input \<times> scm_token list)" where
  "parse_argument (TIdent a # TEq # ts) r =
     (if a = ''object'' then
        (case ts of TLitStr s # ts' \<Rightarrow> Inr (r\<lparr>gh_object := Some s\<rparr>, ts') | _ \<Rightarrow> Inl (Expected ''string literal''))
      else if a = ''length'' then
        (case ts of
           TLitInt n # ts' \<Rightarrow>
             if n < 2 ^ 64 then Inr (r\<lparr>gh_length := Some n\<rparr>, ts') else Inl (Expected ''number too large to fit in target type'')
         | _ \<Rightarrow> Inl (Expected ''integer literal''))
      else Inl (UnexpectedArgument a))"
| "parse_argument (TIdent a # ts) r = Inl (Expected ''='')"
| "parse_argument ts r = Inl (Expected ''identifier'')"

lemma parse_argument_shorter: "parse_argument ts r = Inr (r', ts') \<Longrightarrow> length ts' < length ts"
  by (induction ts r rule: parse_argument.induct) (auto split: if_split_asm list.split_asm scm_token.split_asm)

function parse_git_hash :: "scm_token list \<Rightarrow> git_hash_input \<Rightarrow> macro_error + git_hash_input" where
  "parse_git_hash ts r =
     (if ts = [] then Inr r
      else case parse_argument ts r of
        Inl e \<Rightarrow> Inl e
      | Inr (r', ts') \<Rightarrow>
          (case ts' of
             [] \<Rightarrow> Inr r'
           | TComma # ts'' \<Rightarrow> parse_git_hash ts'' r'
           | _ \<Rightarrow> Inl (Expected '','')))"
  by pat_completeness auto
termination
  by (relation "measure (\<lambda>(ts, r). length ts)") (auto dest: parse_argument_shorter)

declare parse_git_hash.simps [simp del]

section \<open>The revision\<close>

record scm_env =
  rev_parse :: "bytes \<Rightarrow> string + (bool \<times> bytes)"
  env_var :: "string \<Rightarrow> string + bytes"

text \<open>\<open>str::trim_end\<close> removes characters with the Unicode property White\_Space.\<close>

definition white_space :: "bytes list" where
  "white_space =
     [[0x09], [0x0a], [0x0b], [0x0c], [0x0d], [0x20], [0xc2, 0x85], [0xc2, 0xa0], [0xe1, 0x9a, 0x80]] @
     map (\<lambda>b. [0xe2, 0x80, b]) ([0x80, 0x81, 0x82, 0x83, 0x84, 0x85, 0x86, 0x87, 0x88, 0x89, 0x8a, 0xa8, 0xa9, 0xaf]) @
     [[0xe2, 0x81, 0x9f], [0xe3, 0x80, 0x80]]"

definition ends_with :: "bytes \<Rightarrow> bytes \<Rightarrow> bool" where
  "ends_with b w \<longleftrightarrow> length w \<le> length b \<and> drop (length b - length w) b = w"

lemma white_space_not_Nil: "[] \<notin> set white_space"
  by (simp add: white_space_def)

function trim_end :: "bytes \<Rightarrow> bytes" where
  "trim_end b =
     (case find (ends_with b) white_space of
        None \<Rightarrow> b
      | Some w \<Rightarrow> trim_end (take (length b - length w) b))"
  by pat_completeness auto
termination
proof (relation "measure length")
  fix b w
  assume "find (ends_with b) white_space = Some w"
  then have w: "w \<in> set white_space" "ends_with b w" by (auto simp: find_Some_iff)
  from w(1) white_space_not_Nil have "0 < length w" by auto
  moreover from w(2) have "length w \<le> length b" by (simp add: ends_with_def)
  ultimately have "length b - length w < length b" by linarith
  then show "(take (length b - length w) b, b) \<in> measure length" by simp
qed simp

declare trim_end.simps [simp del]

text \<open>\<open>String::truncate\<close> panics inside a character.\<close>

definition truncate_str :: "nat \<Rightarrow> bytes \<Rightarrow> bytes option" where
  "truncate_str n s =
     (if length s < n then Some s else if is_char_boundary s n then Some (take n s) else None)"

definition get_git_hash :: "scm_env \<Rightarrow> string \<Rightarrow> git_hash_input \<Rightarrow> macro_error + bytes" where
  "get_git_hash E default_var input =
     (let object = (case gh_object input of None \<Rightarrow> ascii ''HEAD'' | Some ob \<Rightarrow> ob);
          fallback = (case env_var E default_var of Inl e \<Rightarrow> Inl (HashError e) | Inr h \<Rightarrow> Inr h)
      in case rev_parse E object of
           Inl e \<Rightarrow> fallback
         | Inr (success, stdout) \<Rightarrow>
             if success then
               (case gh_length input of
                  None \<Rightarrow> Inr (trim_end stdout)
                | Some n \<Rightarrow> (case truncate_str n (trim_end stdout) of None \<Rightarrow> Inl MacroPanic | Some h \<Rightarrow> Inr h))
             else fallback)"

definition git_hash :: "scm_env \<Rightarrow> scm_token list \<Rightarrow> macro_error + bytes" where
  "git_hash E input = rbind (parse_git_hash input git_hash_default) (get_git_hash E ''GIT_HASH'')"

section \<open>Versions\<close>

text \<open>\<open>version_git!\<close> puts a length before the arguments it is given, so that a length among these counts.\<close>

definition version_git :: "scm_env \<Rightarrow> scm_token list \<Rightarrow> macro_error + bytes" where
  "version_git E tt = git_hash E ([TIdent ''length'', TEq, TLitInt 8, TComma] @ tt)"

definition version_full :: "scm_env \<Rightarrow> bytes \<Rightarrow> bytes \<Rightarrow> scm_token list \<Rightarrow> macro_error + bytes" where
  "version_full E pkg_name version_semantic tt =
     rmap (\<lambda>git. pkg_name @ ascii '' '' @ version_semantic @ ascii ''-'' @ git) (version_git E tt)"

record version =
  signature :: bytes
  full :: bytes

definition version_default :: version where
  "version_default = \<lparr>signature = ascii ''version-not-set'', full = ascii ''version-not-set''\<rparr>"

text \<open>The cell \<open>VERSION\<close> is a \<open>version option\<close>. \<open>None\<close> as the result of \<open>set\<close> is its panic.\<close>

definition version_set :: "bytes \<Rightarrow> bytes \<Rightarrow> version option \<Rightarrow> version option option" where
  "version_set sig fl cell = (case cell of None \<Rightarrow> Some (Some \<lparr>signature = sig, full = fl\<rparr>) | Some _ \<Rightarrow> None)"

definition version_try_set :: "bytes \<Rightarrow> bytes \<Rightarrow> version option \<Rightarrow> (version + unit) \<times> version option" where
  "version_try_set sig fl cell =
     (let v = \<lparr>signature = sig, full = fl\<rparr> in case cell of None \<Rightarrow> (Inr (), Some v) | Some _ \<Rightarrow> (Inl v, cell))"

definition version_get :: "version option \<Rightarrow> version \<times> version option" where
  "version_get cell = (case cell of None \<Rightarrow> (version_default, Some version_default) | Some v \<Rightarrow> (v, cell))"

definition version_signature :: "version option \<Rightarrow> bytes \<times> version option" where
  "version_signature cell = apfst signature (version_get cell)"

definition version_full_of :: "version option \<Rightarrow> bytes \<times> version option" where
  "version_full_of cell = apfst full (version_get cell)"

section \<open>The version is told once and for all\<close>

datatype version_op = SetVersion bytes bytes | TrySetVersion bytes bytes | GetVersion

text \<open>The versions that a program reads; \<open>None\<close> when it panics.\<close>

fun version_reads :: "version_op list \<Rightarrow> version option \<Rightarrow> version list option" where
  "version_reads [] cell = Some []"
| "version_reads (SetVersion s f # ops) cell = Option.bind (version_set s f cell) (version_reads ops)"
| "version_reads (TrySetVersion s f # ops) cell = version_reads ops (snd (version_try_set s f cell))"
| "version_reads (GetVersion # ops) cell =
     (case version_get cell of (v, cell') \<Rightarrow> map_option (\<lambda>vs. v # vs) (version_reads ops cell'))"

definition cell_after :: "version_op \<Rightarrow> version" where
  "cell_after op = (case op of SetVersion s f \<Rightarrow> \<lparr>signature = s, full = f\<rparr> | TrySetVersion s f \<Rightarrow> \<lparr>signature = s, full = f\<rparr>
     | GetVersion \<Rightarrow> version_default)"

lemma version_reads_set:
  "version_reads ops (Some v) = Some vs \<Longrightarrow> set vs \<subseteq> {v}"
  "version_reads ops (Some v) = None \<longleftrightarrow> (\<exists>s f. SetVersion s f \<in> set ops)"
proof (induction ops arbitrary: vs)
  case (Cons op ops)
  { case 1 with Cons.IH show ?case
      by (cases op) (auto simp: version_set_def version_try_set_def version_get_def Let_def) }
  { case 2 from Cons.IH(2) show ?case
      by (cases op) (auto simp: version_set_def version_try_set_def version_get_def Let_def) }
qed auto

text \<open>
  What happens first decides: every read gives what the first operation stored, and the program panics exactly
  if a later operation is a \<open>set\<close>. So a version that is read before it is set stays unset, and setting it panics.
\<close>

lemma version_first_wins:
  "version_reads (op # ops) None = Some vs \<Longrightarrow> set vs \<subseteq> {cell_after op}"
  "version_reads (op # ops) None = None \<longleftrightarrow> (\<exists>s f. SetVersion s f \<in> set ops)"
  using version_reads_set [of ops "cell_after op"]
  by (cases op; auto simp: version_set_def version_try_set_def version_get_def cell_after_def Let_def)+

section \<open>The length of a revision\<close>

lemma parse_length_first:
  "parse_git_hash (TIdent ''length'' # TEq # TLitInt 8 # TComma # tt) r = parse_git_hash tt (r\<lparr>gh_length := Some 8\<rparr>)"
  by (simp add: parse_git_hash.simps [of "TIdent ''length'' # TEq # TLitInt 8 # TComma # tt"])

definition plain_hash :: "bytes \<Rightarrow> bool" where
  "plain_hash h \<longleftrightarrow> h \<noteq> [] \<and> list_all (\<lambda>b. 0x20 < b \<and> b < 0x80) h"

lemma ends_with_ascii:
  assumes "plain_hash h" and "w \<in> set white_space"
  shows "\<not> ends_with h w"
proof
  assume e: "ends_with h w"
  have w: "w \<noteq> []" "\<forall>b \<in> set w. b \<le> 0x20 \<or> 0x80 \<le> b" using assms(2) by (auto simp: white_space_def)
  then have "last w = last h" using e by (metis ends_with_def last_drop length_greater_0_conv diff_less drop_all le_less_linear)
  moreover have "last w \<in> set w" "last h \<in> set h" using w(1) assms(1) by (simp_all add: plain_hash_def)
  ultimately have "last h \<le> 0x20 \<or> 0x80 \<le> last h" "0x20 < last h \<and> last h < 0x80"
    using w(2) assms(1) by (auto simp: plain_hash_def list_all_iff)
  then show False by (meson leD)
qed

lemma trim_plain:
  assumes "plain_hash h"
  shows "trim_end h = h" and "trim_end (h @ [0x0a]) = h"
proof -
  have "find (ends_with h) white_space = None"
    using ends_with_ascii [OF assms] by (simp add: find_None_iff)
  then show h: "trim_end h = h" by (simp add: trim_end.simps [of h])
  have "find (ends_with (h @ [0x0a])) white_space = Some [0x0a]" by (simp add: white_space_def ends_with_def)
  then show "trim_end (h @ [0x0a]) = h" using h by (simp add: trim_end.simps [of "h @ [0x0a]"])
qed

lemma truncate_plain:
  assumes "plain_hash h"
  shows "truncate_str n h = Some (take n h)"
proof -
  have "\<not> utf8_cont (h ! n)" if "n < length h"
  proof -
    have "h ! n < 0x80" using that assms by (simp add: plain_hash_def list_all_length)
    then show ?thesis by (auto simp: utf8_cont_def)
  qed
  then show ?thesis by (auto simp: truncate_str_def is_char_boundary_def)
qed

text \<open>
  Where git works, the version has the first eight characters of the revision. Where it does not, the variable \<open>GIT_HASH\<close>
  is taken whole, whatever length was asked for.
\<close>

lemma version_git_cut:
  assumes "rev_parse E (ascii ''HEAD'') = Inr (True, h @ [0x0a])" and "plain_hash h"
  shows "version_git E [] = Inr (take 8 h)"
  using assms
  by (simp add: version_git_def git_hash_def parse_length_first parse_git_hash.simps [of "[]"] git_hash_default_def
      get_git_hash_def trim_plain truncate_plain)

lemma version_git_fallback_uncut:
  assumes "rev_parse E (ascii ''HEAD'') = Inl e \<or> rev_parse E (ascii ''HEAD'') = Inr (False, out)"
    and "env_var E ''GIT_HASH'' = Inr h"
  shows "version_git E [] = Inr h"
  using assms
  by (auto simp: version_git_def git_hash_def parse_length_first parse_git_hash.simps [of "[]"] git_hash_default_def
      get_git_hash_def)

text \<open>Arguments may come in any order; of two that have the same name the second counts, and so does one that \<open>version_git!\<close> is given.\<close>

lemma git_hash_arguments:
  "parse_git_hash [TIdent ''object'', TEq, TLitStr ob, TComma, TIdent ''length'', TEq, TLitInt 5] r =
     Inr (r\<lparr>gh_object := Some ob, gh_length := Some 5\<rparr>)"
  "parse_git_hash [TIdent ''length'', TEq, TLitInt 8, TComma, TIdent ''length'', TEq, TLitInt 5] r = Inr (r\<lparr>gh_length := Some 5\<rparr>)"
  "parse_git_hash [TIdent ''length'', TEq, TLitInt 8, TComma] r = Inr (r\<lparr>gh_length := Some 8\<rparr>)"
  "parse_git_hash [TComma] r = Inl (Expected ''identifier'')"
  by (simp_all add: parse_git_hash.simps)

end
