(* ===== verification/Spec2Isabelle.thy ===== *)
theory Spec2Isabelle
  imports V2_Messages Bitcoin_Target V1_Framing Unvariant_Dispatch Proxy_Main Metrics_Registry Panic_Handling Noise_Stream Value_Conversions Logging Scm
begin

text \<open>
  \<^bold>\<open>Braiins Open: the Stratum protocol libraries and the V2-to-V1 proxy.\<close>

  The repository holds Rust libraries for mining protocols and a proxy that lets a Stratum V2 miner
  work for a Stratum V1 pool. The parts and how they interact:

  \<^item> \<open>protocols/stratum\<close> defines the messages of both protocols. V2 messages are serialized by a serde
    back end (\<open>v2/serialization.rs\<close>) over the types of \<open>v2/types.rs\<close>, framed by \<open>v2/framing.rs\<close> and cut out
    of the stream by its codec. \<open>v2/noise\<close> encrypts a V2 connection and authenticates the server by a
    certificate. V1 messages are JSON (\<open>v1/rpc.rs\<close>, \<open>v1/messages.rs\<close>).
  \<^item> \<open>protocols/wire\<close> has the transport: the PROXY protocol (\<open>proxy.rs\<close> and its codecs) that carries the
    client's address past load balancers, and the reconnecting client (\<open>client.rs\<close>).
  \<^item> \<open>coins/bitcoin\<close> has block headers, midstates, targets and units of work.
  \<^item> \<open>stratum-proxy\<close> accepts V2 connections (\<open>server.rs\<close>) and runs for each a \<open>V2ToV1Translation\<close>
    (\<open>translation.rs\<close>), fed with the frames of both sides. \<open>server/controller.rs\<close> counts the clients for an
    orderly shutdown.
  \<^item> \<open>noise-proxy\<close> lends both proxies the security context of the server, and relays encrypted V1
    connections.
  \<^item> \<open>utils-rs/async-utils\<close> stops and joins the tasks of a program (\<open>HaltHandle\<close>), cancels futures and has a
    coarse-grained timer, and its panic hook aborts the program. \<open>utils-rs/unvariant\<close> has the macro \<open>#[handler]\<close>
    that turns the methods of a block into a dispatch on message ids. \<open>utils-rs/logging\<close>, \<open>utils-rs/metrics\<close> and \<open>utils-rs/scm\<close> have
    the global logger, the registry of metrics and the version of a program.

  \<^bold>\<open>Theories.\<close> \<open>Prelude\<close> has what all share: byte encodings of integers in both orders (\<open>le_bytes\<close>,
  \<open>of_le\<close>, \<open>be_bytes\<close>, \<open>of_be\<close>), the error type \<open>'e + 'a\<close> with \<open>rbind\<close> for the \<open>?\<close> operator, and the
  named collections of simplification rules. \<open>Text\<close> has ASCII, UTF-8 boundaries and decimal numbers.

  \<open>V2_Serialization\<close> models \<open>Serializer\<close> and \<open>Deserializer\<close> over the data model of serde: a value is an
  \<open>sval\<close>, what a \<open>Deserialize\<close> implementation asks for is an \<open>sty\<close>. For every type of the protocol,
  reading inverts writing, accepts nothing else, and never reaches an \<open>unreachable!()\<close>.
  \<open>V2_Types\<close> adds the sized strings, byte strings and sequences, \<open>Uint256Bytes\<close> and \<open>DeviceInfo\<close>.
  \<open>V2_Framing\<close> models header, frame, payload and codec; \<open>LengthDelimitedCodec\<close> of \<open>tokio-util\<close> is a
  parameter with its documented contract. \<open>V2_Messages\<close> has all 27 messages: a locale \<open>wire_struct\<close> states what
  a derived implementation gives, and is interpreted once per message; encode and decode are
  inverse on the stream.

  \<open>Bitcoin_Target\<close> models \<open>coins/bitcoin/src/lib.rs\<close>: compact targets and their precision, pool
  difficulty, the layout of headers and midstates, units of shares and hashes.

  \<open>Proxy_Protocol\<close> models both PROXY codecs with their state and the bytes they consume on every path,
  \<open>Proxy_Acceptor\<close> the acceptor, builder and connector over a stream given as the list of its
  reads: a header written by the connector is accepted under any fragmentation, and a required
  header is enforced. \<open>Wire_Client\<close> models addresses, the backoff and the client as a state machine
  over clock readings and outcomes of connection attempts. \<open>Value_Conversions\<close> has the conversions and texts of targets, rates,
  sized fields and addresses.

  \<open>V1_Messages\<close> models the JSON-RPC messages of V1 and their conversions; \<open>serde_json\<close>, the hex crates and
  double SHA256 are the fields of the record \<open>v1_libs\<close>, and \<open>libs_contract\<close> says what is relied on. \<open>V1_Framing\<close>
  models the line codec over \<open>LinesCodec\<close> of \<open>tokio-util\<close>, a parameter with its contract: frames survive any fragmentation, and
  no line is too long. \<open>Frame_Stream\<close> has the reading loop of \<open>Framed\<close> and the locale \<open>frame_codec\<close>, what a decoder promises; the
  V1, the V2 and the encrypting codec keep the promise (\<open>v1_wire\<close>, \<open>v2_wire\<close>, \<open>noise_wire\<close>). \<open>Wire_Connection\<close> models \<open>Connection\<close>, whose change of codec keeps the buffers, and the
  listening stream. \<open>Wire_Session\<close> puts header and frames together: whichever way a stream is cut, an accepted connection has the
  addresses of its PROXY header and gives the frames that were sent after it.

  \<open>Unvariant\<close> models the macros of \<open>unvariant-macros\<close> as functions from the syntax of a block to the code generated,
  with a semantics of that code: which blocks are accepted, and that the generated match calls the method it
  should; and the runtime of asynchronous handlers. \<open>Unvariant_Dispatch\<close> writes the two blocks of
  \<open>translation.rs\<close> in that syntax and shows that they expand to the dispatch that \<open>Translation\<close> uses.

  \<open>Translation\<close> is the state machine: the record \<open>translation\<close> is the struct, every method is a
  definition of the same name in a monad of state, errors and panics, in the order of the file.
  \<open>Translation_Runs\<close> has weakest preconditions for that monad, the runs of a connection as an
  inductive predicate (\<open>run\<close>: the messages of both sides in any interleaving, with any refusals of the
  full channels), the invariant, and the calculus that bounds ids and excludes panics.
  \<open>Translation_Shares\<close> accounts for every share from its arrival to its response; the locales \<open>share_blind\<close> and
  \<open>share_answering\<close> say which predicates the methods keep, and are interpreted on the order of the
  shares and, in \<open>Proxy_Metrics\<close>, on what the counters say of them.
  \<open>Translation_Props\<close> and \<open>Translation_Correct\<close> give the methods as plain functions of the state while
  the senders accept, and prove the properties of whole connections: the channel opens whatever
  the order of the pool's messages, share responses keep their order, which panics remain,
  what jobs, shares and difficulties become.

  \<open>Noise_Auth\<close> models certificates, their message in the handshake, and the files of keys and bundles
  (\<open>noise/auth.rs\<close>, \<open>noise/auth/formats.rs\<close>). \<open>Noise_Handshake\<close> has the negotiation, both parties as step
  functions, and the loop that drives either (\<open>noise.rs\<close>, \<open>negotiation.rs\<close>, \<open>handshake.rs\<close>); the locale
  \<open>handshake_party\<close> is the trait \<open>Step\<close> with what makes the loop end, interpreted on both parties.
  \<open>Noise_Parties\<close> adds that no step panics, and proves that the loop ends on every network, that honest
  parties agree, that an initiator that finishes has authenticated a certified key, and
  that the negotiation itself is not protected. \<open>Noise_Codec\<close> models the noise and compound codecs: the
  locale \<open>fifo_link\<close> is the abstract link, a queue, and the two ends of an encrypted connection
  implement it. \<open>Noise_Stream\<close> adds the stream: encrypted messages survive any fragmentation, also when some arrive with the
  handshake. \<open>Noise_Server\<close> puts bundle, handshake and codecs together. \<open>Key_Tool\<close> models the commands of
  \<open>keytool.rs\<close> over a file system whose accesses may fail: no file is ever overwritten, and the files
  that the tool issues serve a connection.

  \<open>Async_Utils\<close> models futures by what their polls return: \<open>Cancelable\<close> is a race, \<open>MaybeFuture\<close>, and the
  grid of the coarse-grained timer. \<open>Halt_Handle\<close> models \<open>halthandle.rs\<close>: the watch channel of tokio is the record
  \<open>watch_lib\<close> with its documented contract, and the handle, its tasks, a joining task and the clock
  make a step relation (\<open>hstep\<close>, \<open>hreach\<close>). A halt reaches every task and, while the handle is alive, nothing else does; what \<open>join\<close> returns
  is true of the tasks in every interleaving, and it returns once they have ended.

  \<open>Noise_Proxy\<close> models the security context, the connector and a relayed connection of \<open>noise-proxy\<close>, and
  shows that no input makes it panic. \<open>Server_Controller\<close> models the counter of clients with each atomic access as a
  step of an interleaving (\<open>task_step\<close>, \<open>reachable\<close>): the counter is exact, the server does
  not return before its clients are gone, and it does return unless a wake-up is lost, which the code allows. \<open>Proxy_Server\<close> is \<open>server.rs\<close>: the session loop
  over the outcomes of its \<open>select!\<close> implements the runs of \<open>Translation_Runs\<close>; a connection is handled
  from its PROXY header through the connect, the header sent upstream and the handshake;
  the accepting loop counts its connections and binds its socket again. \<open>Proxy_Metrics\<close> has the counters: accounting never
  panics, and agrees with what the miner is told. \<open>Panic_Handling\<close> puts the connections into a process with its panic
  hook: a panic of one stops all. \<open>Proxy_Main\<close> has the configuration, start and end of
  both programs and the accepting loop of the noise proxy: a secure proxy starts with a valid certificate only, and the
  files of the key tool start it.

  \<open>Logging\<close> models the global logger, its drains and the controller that changes its filters: the logger stays alive through
  every change. \<open>Metrics_Registry\<close> models the registry of metrics over \<open>prometheus\<close> and what both proxies register: it
  succeeds once. \<open>Scm\<close> models the macros that put a revision into a version, and the cell that holds it.

  \<^bold>\<open>Bounds and termination.\<close> Loops of the code are recursion over their input (the reads of a stream, the
  chunks of a buffer, the queue of share responses), hence total; the handshake loop has no such
  input and is a partial function, \<open>None\<close> when it does not end, which is proved never to happen. Integers
  keep their width: lengths, ids and casts wrap or saturate as in the source. The ids of requests and
  jobs are 32-bit counters, and the absence of id collisions is proved for connections of fewer than
  $2^{32}/3$ messages, since one message sends at most three requests. Allocations whose size the pool chooses
  panic beyond \<open>isize::MAX\<close> (\<open>with_capacity\<close>), and \<open>sizes_fit\<close> says when a message keeps below it; that a machine
  runs out of memory before is not modelled.

  \<^bold>\<open>Assumptions.\<close> Code outside the repository is a parameter: the length-delimited codec, \<open>Framed\<close>, the
  JSON and hex crates, SHA256, float formatting, address parsing of the standard library
  in \<open>Proxy_Protocol\<close>, \<open>snow\<close>, \<open>ed25519_dalek\<close>, X25519 and Base58 for Noise, the channels and the clock. Hypotheses state documented behaviour only, and each is
  shown satisfiable by a concrete instance in a witness.

  \<^bold>\<open>Not modelled.\<close> Executors, sockets and timers, of which the theories see the outcomes only; the parsers of
  command lines and TOML files and of Rust syntax (\<open>clap\<close>, \<open>toml\<close>, \<open>syn\<close>), which are parameters; what \<open>slog\<close> writes and
  \<open>prometheus\<close> prints; debug output; \<open>halthandle03.rs\<close>, the same code as \<open>halthandle.rs\<close> over another version of tokio;
  the Python simulator; tests and examples.
\<close>

end
